(* ===== verification/Prelude.thy ===== *)
theory Prelude
  imports Main "HOL-Library.Word" "HOL-Library.List_Lexorder" "HOL-Library.Char_ord"
begin

text \<open>
  Shared vocabulary of the development: machine integers at their width, byte strings,
  ordered maps (\<open>std::collections::BTreeMap\<close>) as key-sorted association lists, and the
  combinators for fallible code. A Rust \<open>String\<close> is the list of its UTF-8 bytes, so
  \<open>string\<close> (a list of 8-bit characters) with the lexicographic order of
  \<open>List_Lexorder\<close> is \<open>String\<close> with its \<open>Ord\<close> instance.
\<close>

section \<open>Machine integers\<close>

type_synonym u8 = "8 word"
type_synonym u32 = "32 word"
type_synonym u64 = "64 word"
type_synonym bytes = "8 word list"

named_theorems sat_simps \<open>reading saturating and checked operations as natural numbers\<close>
named_theorems bm_simps \<open>lookups in ordered maps after an operation\<close>
named_theorems bm_intros \<open>operations keep ordered maps sorted\<close>

text \<open>\<open>u64::MAX\<close>, \<open>saturating_add(1)\<close>, \<open>saturating_sub\<close> and \<open>checked_add(1)\<close>.\<close>

definition u64_max :: u64 where
  "u64_max = 18446744073709551615"

definition sat_inc :: "u64 \<Rightarrow> u64" where
  "sat_inc c = (if c = u64_max then c else c + 1)"

definition sat_sub :: "u64 \<Rightarrow> u64 \<Rightarrow> u64" where
  "sat_sub a b = (if b \<le> a then a - b else 0)"

definition checked_inc :: "u64 \<Rightarrow> u64 option" where
  "checked_inc c = (if c = u64_max then None else Some (c + 1))"

lemma unat_u64_max [sat_simps]: "unat u64_max = 2 ^ 64 - 1"
  by (simp add: u64_max_def)

lemma unat_u64_bound: "unat (c :: u64) \<le> 2 ^ 64 - 1"
proof -
  have "unat c < 2 ^ LENGTH(64)" by (rule unsigned_less)
  then show ?thesis by simp
qed

lemma le_u64_max [simp]: "c \<le> u64_max"
  using unat_u64_bound[of c] unat_u64_max by (simp add: word_le_nat_alt)

lemma neq_u64_max: "c \<noteq> u64_max \<Longrightarrow> unat c < 2 ^ 64 - 1"
  using le_u64_max[of c] unat_u64_max by (metis order_neq_le_trans word_less_nat_alt)

lemma unat_plus_1: "c \<noteq> u64_max \<Longrightarrow> unat (c + 1) = Suc (unat c)"
  using neq_u64_max[of c] by (simp add: unat_plus_if')

lemma unat_sat_inc [sat_simps]: "unat (sat_inc c) = min (Suc (unat c)) (2 ^ 64 - 1)"
proof (cases "c = u64_max")
  case True
  then show ?thesis by (simp add: sat_inc_def unat_u64_max)
next
  case False
  then show ?thesis using neq_u64_max[of c] by (simp add: sat_inc_def unat_plus_1)
qed

lemma le_sat_inc [simp]: "c \<le> sat_inc c"
  using unat_u64_bound[of c] by (simp add: word_le_nat_alt unat_sat_inc)

lemma less_sat_inc_iff [simp]: "c < sat_inc c \<longleftrightarrow> c \<noteq> u64_max"
  by (auto simp: word_less_nat_alt sat_inc_def unat_plus_1)

lemma sat_inc_mono: "a \<le> b \<Longrightarrow> sat_inc a \<le> sat_inc b"
  by (simp add: word_le_nat_alt unat_sat_inc)

lemma less_sat_inc: "a \<le> b \<Longrightarrow> b \<noteq> u64_max \<Longrightarrow> a < sat_inc b"
  using less_sat_inc_iff le_less_trans by blast

lemma le_sat_incI: "a \<le> b \<Longrightarrow> a \<le> sat_inc b"
  using le_sat_inc order_trans by blast

lemma sat_inc_neq_0 [simp]: "sat_inc c \<noteq> 0"
proof
  assume "sat_inc c = 0"
  then have "unat (sat_inc c) = 0" by simp
  then show False by (simp add: unat_sat_inc)
qed

lemma sat_inc_max [simp]: "sat_inc u64_max = u64_max"
  by (simp add: sat_inc_def)

lemma unat_sat_sub [sat_simps]: "unat (sat_sub a b) = unat a - unat b"
  by (auto simp: sat_sub_def word_le_nat_alt unat_sub_if')

lemma checked_inc_Some [simp]:
  "checked_inc c = Some d \<longleftrightarrow> c \<noteq> u64_max \<and> d = c + 1"
  by (auto simp: checked_inc_def)

lemma checked_inc_None [simp]: "checked_inc c = None \<longleftrightarrow> c = u64_max"
  by (auto simp: checked_inc_def)

lemma less_plus_1: "c \<noteq> u64_max \<Longrightarrow> c < (c :: u64) + 1"
  by (simp add: word_less_nat_alt unat_plus_1)

lemma checked_inc_less: "checked_inc c = Some d \<Longrightarrow> c < d"
  by (auto simp: less_plus_1)

section \<open>Fallible code\<close>

text \<open>
  \<open>Result<T, E>\<close> is the sum \<open>'e + 'a\<close>, \<open>Inl\<close> the error. \<open>bindR\<close> is the \<open>?\<close>
  operator; \<open>traverseR\<close> is \<open>iter().map(f).collect::<Result<Vec<_>>>()\<close>, which stops at
  the first error; \<open>foldR\<close> is a \<open>for\<close> loop whose body may fail. Code that mutates a
  \<open>&mut\<close> argument before it fails keeps those mutations, so it has the type
  \<open>'s \<Rightarrow> ('e + 'a) \<times> 's\<close>; \<open>forS\<close> is such a loop.
\<close>

fun bindR :: "'e + 'a \<Rightarrow> ('a \<Rightarrow> 'e + 'b) \<Rightarrow> 'e + 'b" where
  "bindR (Inl e) f = Inl e"
| "bindR (Inr x) f = f x"

fun ok_or :: "'e \<Rightarrow> 'a option \<Rightarrow> 'e + 'a" where
  "ok_or e None = Inl e"
| "ok_or e (Some x) = Inr x"

fun is_ok :: "'e + 'a \<Rightarrow> bool" where
  "is_ok (Inl e) = False"
| "is_ok (Inr x) = True"

fun traverseR :: "('a \<Rightarrow> 'e + 'b) \<Rightarrow> 'a list \<Rightarrow> 'e + 'b list" where
  "traverseR f [] = Inr []"
| "traverseR f (x # xs) = bindR (f x) (\<lambda>y. bindR (traverseR f xs) (\<lambda>ys. Inr (y # ys)))"

fun foldR :: "('s \<Rightarrow> 'a \<Rightarrow> 'e + 's) \<Rightarrow> 's \<Rightarrow> 'a list \<Rightarrow> 'e + 's" where
  "foldR f s [] = Inr s"
| "foldR f s (x # xs) = bindR (f s x) (\<lambda>s'. foldR f s' xs)"

fun bindS :: "('e + 'a) \<times> 's \<Rightarrow> ('a \<Rightarrow> 's \<Rightarrow> ('e + 'b) \<times> 's) \<Rightarrow> ('e + 'b) \<times> 's" where
  "bindS (Inl e, s) f = (Inl e, s)"
| "bindS (Inr x, s) f = f x s"

fun countS :: "('a \<Rightarrow> 's \<Rightarrow> ('e + bool) \<times> 's) \<Rightarrow> 'a list \<Rightarrow> nat \<Rightarrow> 's \<Rightarrow> ('e + nat) \<times> 's" where
  "countS f [] n s = (Inr n, s)"
| "countS f (x # xs) n s =
     bindS (f x s) (\<lambda>applied. countS f xs (if applied then Suc n else n))"

fun forS :: "('a \<Rightarrow> 's \<Rightarrow> ('e + unit) \<times> 's) \<Rightarrow> 'a list \<Rightarrow> 's \<Rightarrow> ('e + unit) \<times> 's" where
  "forS f [] s = (Inr (), s)"
| "forS f (x # xs) s = bindS (f x s) (\<lambda>_. forS f xs)"

lemma bindR_Inr [simp]: "bindR m f = Inr y \<longleftrightarrow> (\<exists>x. m = Inr x \<and> f x = Inr y)"
  by (cases m) auto

lemma bindR_Inl: "bindR m f = Inl e \<longleftrightarrow> m = Inl e \<or> (\<exists>x. m = Inr x \<and> f x = Inl e)"
  by (cases m) auto

lemma ok_or_Inr [simp]: "ok_or e m = Inr x \<longleftrightarrow> m = Some x"
  by (cases m) auto

lemma ok_or_Inl [simp]: "ok_or e m = Inl d \<longleftrightarrow> m = None \<and> d = e"
  by (cases m) auto

lemma is_ok_iff: "is_ok m \<longleftrightarrow> (\<exists>x. m = Inr x)"
  by (cases m) auto

lemma bindS_split: "bindS m f = (case m of (Inl e, s) \<Rightarrow> (Inl e, s) | (Inr x, s) \<Rightarrow> f x s)"
  by (cases m; cases "fst m") auto

lemma bindS_Inr:
  "bindS m f = (Inr y, s'') \<longleftrightarrow> (\<exists>x s'. m = (Inr x, s') \<and> f x s' = (Inr y, s''))"
  by (auto simp: bindS_split split: prod.splits sum.splits)

lemma traverseR_all: "(\<And>x. x \<in> set xs \<Longrightarrow> f x = Inr (g x)) \<Longrightarrow> traverseR f xs = Inr (map g xs)"
  by (induction xs) auto

lemma traverseR_Inr_length: "traverseR f xs = Inr ys \<Longrightarrow> length ys = length xs"
  by (induction xs arbitrary: ys) auto

lemma traverseR_Inr_nth:
  "traverseR f xs = Inr ys \<Longrightarrow> list_all2 (\<lambda>x y. f x = Inr y) xs ys"
  by (induction xs arbitrary: ys) auto

lemma traverseR_set:
  "traverseR f xs = Inr ys \<Longrightarrow> y \<in> set ys \<Longrightarrow> \<exists>x\<in>set xs. f x = Inr y"
  by (induction xs arbitrary: ys) auto

lemma traverseR_cong:
  "(\<And>x. x \<in> set xs \<Longrightarrow> f x = g x) \<Longrightarrow> traverseR f xs = traverseR g xs"
  by (induction xs) auto

lemma foldR_append: "foldR f s (xs @ ys) = bindR (foldR f s xs) (\<lambda>s'. foldR f s' ys)"
proof (induction xs arbitrary: s)
  case (Cons x xs)
  then show ?case by (cases "f s x") auto
qed simp

text \<open>An invariant of the body is an invariant of the loop.\<close>

lemma foldR_invariant:
  assumes "foldR f s xs = Inr s'" and "P s"
    and "\<And>s x s'. P s \<Longrightarrow> x \<in> set xs \<Longrightarrow> f s x = Inr s' \<Longrightarrow> P s'"
  shows "P s'"
  using assms
proof (induction xs arbitrary: s)
  case (Cons x xs)
  from Cons.prems(1) obtain t where t: "f s x = Inr t" "foldR f t xs = Inr s'" by auto
  have "P t" by (rule Cons.prems(3) [OF Cons.prems(2) _ t(1)]) simp
  then show ?case
    by (rule Cons.IH [OF t(2)]) (erule Cons.prems(3), rule list.set_intros(2))
qed simp

lemma countS_invariant:
  assumes "P s" and "\<And>s x. P s \<Longrightarrow> x \<in> set xs \<Longrightarrow> P (snd (f x s))"
  shows "P (snd (countS f xs n s))"
  using assms
proof (induction xs arbitrary: s n)
  case (Cons x xs)
  have "P (snd (f x s))" using Cons.prems by simp
  then show ?case
    using Cons.IH Cons.prems(2) by (auto simp: bindS_split split: prod.splits sum.splits)
qed simp

lemma forS_invariant:
  assumes "P s" and "\<And>s x. P s \<Longrightarrow> x \<in> set xs \<Longrightarrow> P (snd (f x s))"
  shows "P (snd (forS f xs s))"
  using assms
proof (induction xs arbitrary: s)
  case (Cons x xs)
  have "P (snd (f x s))" using Cons.prems by simp
  then show ?case
    using Cons.IH Cons.prems(2) by (auto simp: bindS_split split: prod.splits sum.splits)
qed simp


section \<open>What a computation preserves\<close>

text \<open>
  \<open>stays Q f\<close>: started in \<open>Q\<close>, the stateful computation \<open>f\<close> ends in \<open>Q\<close>, however it returns.
  The rules follow the combinators of the code, so that a whole handler is discharged by
  \<open>intro stays\<close> down to its calls.
\<close>

definition stays :: "('s \<Rightarrow> bool) \<Rightarrow> ('s \<Rightarrow> 'r \<times> 's) \<Rightarrow> bool" where
  "stays Q f \<longleftrightarrow> (\<forall>s. Q s \<longrightarrow> Q (snd (f s)))"

named_theorems stays \<open>computations that preserve an invariant\<close>

lemma staysI: "(\<And>s. Q s \<Longrightarrow> Q (snd (f s))) \<Longrightarrow> stays Q f"
  by (simp add: stays_def)

lemma staysD: "stays Q f \<Longrightarrow> Q s \<Longrightarrow> f s = (r, s') \<Longrightarrow> Q s'"
  by (force simp: stays_def)

lemma stays_apply: "stays Q f \<Longrightarrow> Q s \<Longrightarrow> Q (snd (f s))"
  by (simp add: stays_def)

lemma stays_bindS [stays]:
  "stays Q f \<Longrightarrow> (\<And>x. stays Q (g x)) \<Longrightarrow> stays Q (\<lambda>s. bindS (f s) g)"
  by (fastforce simp: stays_def bindS_split split: prod.splits sum.splits)

lemma stays_case [stays]:
  "stays Q f \<Longrightarrow> (\<And>x. stays Q (g x)) \<Longrightarrow> stays Q (\<lambda>s. case f s of (x, s) \<Rightarrow> g x s)"
  by (fastforce simp: stays_def split: prod.splits)

lemma stays_pure [stays]: "stays Q (\<lambda>s. (r, s))"
  by (simp add: stays_def)

lemma stays_read [stays]: "stays Q (\<lambda>s. (f s, s))"
  by (simp add: stays_def)

lemma stays_if [stays]:
  "stays Q f \<Longrightarrow> stays Q g \<Longrightarrow> stays Q (\<lambda>s. if b then f s else g s)"
  by (simp add: stays_def)

lemma stays_pair [stays]:
  "(\<And>a b. stays Q (f a b)) \<Longrightarrow> stays Q (\<lambda>s. case p of (a, b) \<Rightarrow> f a b s)"
  "(\<And>a b. stays Q (f a b)) \<Longrightarrow> stays Q (case p of (a, b) \<Rightarrow> f a b)"
  by (cases p, simp)+

lemma stays_option [stays]:
  "stays Q f \<Longrightarrow> (\<And>x. stays Q (g x)) \<Longrightarrow> stays Q (\<lambda>s. case m of None \<Rightarrow> f s | Some x \<Rightarrow> g x s)"
  by (cases m) simp_all

lemma stays_sum [stays]:
  "(\<And>x. stays Q (f x)) \<Longrightarrow> (\<And>x. stays Q (g x)) \<Longrightarrow>
   stays Q (\<lambda>s. case m of Inl x \<Rightarrow> f x s | Inr x \<Rightarrow> g x s)"
  by (cases m) simp_all

end
