(* ===== verification/Ordered_Map.thy ===== *)
theory Ordered_Map
  imports Prelude
begin

text \<open>
  \<open>std::collections::BTreeMap<K, V>\<close>: a key-sorted association list, so that the code's
  iteration order is the list order and the code's \<open>==\<close> is list equality. The locale
  \<open>ordered_map\<close> is the contract the components rely on; it is interpreted on the
  association lists below as \<open>bm\<close>, and the components use the interpreted facts.
\<close>

locale ordered_map =
  fixes empty :: "'m"
    and lookup :: "'m \<Rightarrow> 'k::linorder \<Rightarrow> 'v option"
    and insert :: "'k \<Rightarrow> 'v \<Rightarrow> 'm \<Rightarrow> 'm"
    and remove :: "'k \<Rightarrow> 'm \<Rightarrow> 'm"
    and entries :: "'m \<Rightarrow> ('k \<times> 'v) list"
    and ok :: "'m \<Rightarrow> bool"
  assumes lookup_empty: "lookup empty k = None"
    and lookup_insert: "lookup (insert k v m) = (lookup m)(k \<mapsto> v)"
    and lookup_remove: "lookup (remove k m) = (lookup m)(k := None)"
    and ok_empty: "ok empty"
    and ok_insert: "ok m \<Longrightarrow> ok (insert k v m)"
    and ok_remove: "ok m \<Longrightarrow> ok (remove k m)"
    and entries_sorted: "ok m \<Longrightarrow> sorted_wrt (<) (map fst (entries m))"
    and entries_lookup: "map_of (entries m) = lookup m"
    and entries_inject: "entries m = entries n \<Longrightarrow> m = n"
begin

lemma entries_distinct: "ok m \<Longrightarrow> distinct (map fst (entries m))"
  using entries_sorted strict_sorted_iff by blast

lemma entries_iff: "ok m \<Longrightarrow> (k, v) \<in> set (entries m) \<longleftrightarrow> lookup m k = Some v"
  using entries_distinct[of m] by (metis entries_lookup map_of_eq_Some_iff)

lemma map_ext:
  assumes "ok m" and "ok n" and "lookup m = lookup n"
  shows "m = n"
proof -
  have "set (entries m) = set (entries n)"
    using assms entries_iff by auto
  moreover have "inj_on fst (set (entries m) \<union> set (entries n))"
    using entries_distinct[OF assms(1)] calculation by (simp add: distinct_map)
  ultimately have "entries m = entries n"
    using entries_distinct[OF assms(1)] entries_distinct[OF assms(2)]
      entries_sorted[OF assms(1)] entries_sorted[OF assms(2)]
    by (intro map_sorted_distinct_set_unique[of fst]) (auto simp: strict_sorted_iff)
  then show ?thesis by (rule entries_inject)
qed

lemma insert_same: "ok m \<Longrightarrow> lookup m k = Some v \<Longrightarrow> insert k v m = m"
  by (rule map_ext) (auto simp: ok_insert lookup_insert)

lemma insert_overwrite: "ok m \<Longrightarrow> insert k v (insert k w m) = insert k v m"
  by (rule map_ext) (auto simp: ok_insert lookup_insert)

lemma insert_commute:
  "ok m \<Longrightarrow> j \<noteq> k \<Longrightarrow> insert j u (insert k v m) = insert k v (insert j u m)"
  by (rule map_ext) (auto simp: ok_insert lookup_insert fun_upd_twist)

lemma remove_insert: "ok m \<Longrightarrow> lookup m k = None \<Longrightarrow> remove k (insert k v m) = m"
  by (rule map_ext) (auto simp: ok_insert ok_remove lookup_insert lookup_remove)

end

section \<open>Key-sorted association lists\<close>

type_synonym ('k, 'v) bmap = "('k \<times> 'v) list"

definition bm_ok :: "('k::linorder, 'v) bmap \<Rightarrow> bool" where
  "bm_ok m = sorted_wrt (<) (map fst m)"

fun bm_insert :: "'k::linorder \<Rightarrow> 'v \<Rightarrow> ('k, 'v) bmap \<Rightarrow> ('k, 'v) bmap" where
  "bm_insert k v [] = [(k, v)]"
| "bm_insert k v (p # m) =
     (if k < fst p then (k, v) # p # m
      else if k = fst p then (k, v) # m
      else p # bm_insert k v m)"

definition bm_retain :: "('k \<Rightarrow> 'v \<Rightarrow> bool) \<Rightarrow> ('k, 'v) bmap \<Rightarrow> ('k, 'v) bmap" where
  "bm_retain P m = filter (\<lambda>p. P (fst p) (snd p)) m"

definition bm_remove :: "'k \<Rightarrow> ('k, 'v) bmap \<Rightarrow> ('k, 'v) bmap" where
  "bm_remove k m = bm_retain (\<lambda>k' v. k' \<noteq> k) m"

abbreviation bm_get :: "('k, 'v) bmap \<Rightarrow> 'k \<Rightarrow> 'v option" where
  "bm_get \<equiv> map_of"

definition bm_keys :: "('k, 'v) bmap \<Rightarrow> 'k list" where
  "bm_keys m = map fst m"

definition bm_values :: "('k, 'v) bmap \<Rightarrow> 'v list" where
  "bm_values m = map snd m"

definition bm_has :: "('k, 'v) bmap \<Rightarrow> 'k \<Rightarrow> bool" where
  "bm_has m k = (bm_get m k \<noteq> None)"

definition bm_map :: "('v \<Rightarrow> 'w) \<Rightarrow> ('k, 'v) bmap \<Rightarrow> ('k, 'w) bmap" where
  "bm_map f m = map (\<lambda>p. (fst p, f (snd p))) m"

text \<open>\<open>get_mut(k)\<close> followed by a write through the reference; absent keys are left alone.\<close>

definition bm_update :: "'k \<Rightarrow> ('v \<Rightarrow> 'v) \<Rightarrow> ('k, 'v) bmap \<Rightarrow> ('k, 'v) bmap" where
  "bm_update k f m = map (\<lambda>p. if fst p = k then (fst p, f (snd p)) else p) m"

definition bm_of_list :: "('k::linorder \<times> 'v) list \<Rightarrow> ('k, 'v) bmap" where
  "bm_of_list xs = fold (\<lambda>p. bm_insert (fst p) (snd p)) xs []"

lemma bm_get_insert [bm_simps]: "bm_get (bm_insert k v m) = (bm_get m)(k \<mapsto> v)"
  by (induction m) (auto simp: fun_eq_iff)

lemma keys_bm_insert: "set (map fst (bm_insert k v m)) = Set.insert k (set (map fst m))"
  by (induction m) auto

lemma bm_ok_insert [bm_intros]: "bm_ok m \<Longrightarrow> bm_ok (bm_insert k v m)"
  unfolding bm_ok_def
proof (induction m)
  case (Cons p m)
  then show ?case
    using keys_bm_insert[of k v m] by (auto simp del: set_map)
qed simp

lemma bm_ok_retain [bm_intros]: "bm_ok m \<Longrightarrow> bm_ok (bm_retain P m)"
  by (induction m) (auto simp: bm_ok_def bm_retain_def)

lemma bm_ok_remove [bm_intros]: "bm_ok m \<Longrightarrow> bm_ok (bm_remove k m)"
  by (simp add: bm_remove_def bm_ok_retain)

lemma bm_get_remove [bm_simps]: "bm_get (bm_remove k m) = (bm_get m)(k := None)"
  by (induction m) (auto simp: bm_remove_def bm_retain_def fun_eq_iff)

lemma bm_keys_map_fst: "map fst (bm_map f m) = map fst m"
  by (simp add: bm_map_def comp_def)

lemma bm_keys_update: "map fst (bm_update k f m) = map fst m"
  by (induction m) (auto simp: bm_update_def)

lemma bm_ok_map [bm_intros]: "bm_ok m \<Longrightarrow> bm_ok (bm_map f m)"
  by (simp add: bm_ok_def bm_keys_map_fst)

lemma bm_ok_update [bm_intros]: "bm_ok m \<Longrightarrow> bm_ok (bm_update k f m)"
  by (simp add: bm_ok_def bm_keys_update)

lemma bm_get_map [bm_simps]: "bm_get (bm_map f m) k = map_option f (bm_get m k)"
  by (induction m) (auto simp: bm_map_def)

lemma bm_get_update [bm_simps]:
  "bm_get (bm_update k f m) j = (if j = k then map_option f (bm_get m j) else bm_get m j)"
  by (induction m) (auto simp: bm_update_def)

lemma bm_ok_Nil [simp, bm_intros]: "bm_ok []"
  by (simp add: bm_ok_def)

interpretation bm: ordered_map "[]" bm_get bm_insert bm_remove "\<lambda>m. m" bm_ok
  by unfold_locales
     (simp_all add: bm_get_insert bm_get_remove bm_ok_insert bm_ok_remove, simp_all add: bm_ok_def)

lemma bm_get_retain [bm_simps]:
  assumes "bm_ok m"
  shows "bm_get (bm_retain P m) k =
    (case bm_get m k of None \<Rightarrow> None | Some v \<Rightarrow> if P k v then Some v else None)"
proof -
  have iff: "bm_get (bm_retain P m) k = Some v \<longleftrightarrow> bm_get m k = Some v \<and> P k v" for v
    unfolding bm.entries_iff[OF assms, symmetric]
      bm.entries_iff[OF bm_ok_retain[OF assms], symmetric]
    by (simp add: bm_retain_def)
  show ?thesis
  proof (cases "bm_get m k")
    case None
    then have "bm_get (bm_retain P m) k \<noteq> Some v" for v using iff[of v] by simp
    then have "bm_get (bm_retain P m) k = None" by (metis option.exhaust)
    with None show ?thesis by simp
  next
    case (Some v)
    show ?thesis
    proof (cases "P k v")
      case True
      then show ?thesis using iff[of v] Some by simp
    next
      case False
      then have "bm_get (bm_retain P m) k \<noteq> Some w" for w using iff[of w] Some by auto
      then have "bm_get (bm_retain P m) k = None" by (metis option.exhaust)
      with Some False show ?thesis by simp
    qed
  qed
qed

lemma bm_has_iff: "bm_has m k \<longleftrightarrow> k \<in> set (map fst m)"
  by (simp add: bm_has_def map_of_eq_None_iff)

lemma bm_has_insert [bm_simps]: "bm_has (bm_insert k v m) j \<longleftrightarrow> j = k \<or> bm_has m j"
  by (simp add: bm_has_def bm_get_insert)

lemma set_bm_values: "bm_ok m \<Longrightarrow> v \<in> set (bm_values m) \<longleftrightarrow> (\<exists>k. bm_get m k = Some v)"
proof -
  assume "bm_ok m"
  then have "v \<in> set (bm_values m) \<longleftrightarrow> (\<exists>k. (k, v) \<in> set m)"
    by (force simp: bm_values_def)
  then show ?thesis using bm.entries_iff[OF \<open>bm_ok m\<close>] by simp
qed

lemma bm_get_in_values: "bm_get m k = Some v \<Longrightarrow> v \<in> set (bm_values m)"
  using map_of_SomeD by (force simp: bm_values_def)

lemma bm_ok_fold_insert:
  "bm_ok m \<Longrightarrow> bm_ok (fold (\<lambda>p. bm_insert (fst p) (snd p)) xs m)"
  by (induction xs arbitrary: m) (auto intro: bm_intros)

lemma bm_ok_of_list [bm_intros]: "bm_ok (bm_of_list xs)"
  by (simp add: bm_of_list_def bm_ok_fold_insert)

lemma bm_get_fold_insert:
  "bm_get (fold (\<lambda>p. bm_insert (fst p) (snd p)) xs m) k =
     (case map_of (rev xs) k of None \<Rightarrow> bm_get m k | Some v \<Rightarrow> Some v)"
  by (induction xs arbitrary: m) (auto simp: bm_get_insert map_add_def split: option.splits)

lemma bm_get_of_list: "bm_get (bm_of_list xs) k = map_of (rev xs) k"
  by (simp add: bm_of_list_def bm_get_fold_insert split: option.splits)

text \<open>A loop that reads keys off a sorted map builds the map back.\<close>

lemma bm_of_list_id: "bm_ok m \<Longrightarrow> bm_of_list m = m"
proof -
  assume ok: "bm_ok m"
  have "map_of (rev m) = map_of m"
    using bm.entries_distinct[OF ok]
    by (subst map_of_inject_set) (simp_all flip: rev_map)
  then show ?thesis
    using ok by (intro bm.map_ext) (auto simp: bm_get_of_list intro: bm_intros)
qed

end
