(* ===== verification/Errors.thy ===== *)
theory Errors
  imports Ordered_Map
begin

text \<open>
  The error values of the crate (\<open>error.rs\<close>, and \<open>SessionErrorCode\<close> of
  \<open>session/mod.rs\<close>). Every raise, \<open>?\<close> and early return of the code is an \<open>Inl\<close> of
  this type in the model. The texts of wrapped I/O and JSON errors come from the
  standard library and serde_json, so those variants carry the text they were given.
\<close>

datatype session_error_code =
    InvalidOperation | InvalidConfiguration | InvalidAdapter | InvalidRecord
  | IncompatibleSchema | StaleBootstrap | GroupConflict | PeerRevoked
  | StorageUnavailable | StorageCommitUncertain | Busy

datatype io_kind =
    NotFound | WouldBlock | UnexpectedEof | ConnectionReset | ConnectionAborted
  | BrokenPipe | OtherKind

datatype error =
    Io io_kind string
  | Serde string
  | Protocol string
  | Crypto string
  | FingerprintMismatch (fm_device_id: string) (fm_expected: string) (fm_actual: string)
  | Cancelled
  | Managed session_error_code string

type_synonym 'a result = "error + 'a"

fun code_debug :: "session_error_code \<Rightarrow> string" where
  "code_debug InvalidOperation = ''InvalidOperation''"
| "code_debug InvalidConfiguration = ''InvalidConfiguration''"
| "code_debug InvalidAdapter = ''InvalidAdapter''"
| "code_debug InvalidRecord = ''InvalidRecord''"
| "code_debug IncompatibleSchema = ''IncompatibleSchema''"
| "code_debug StaleBootstrap = ''StaleBootstrap''"
| "code_debug GroupConflict = ''GroupConflict''"
| "code_debug PeerRevoked = ''PeerRevoked''"
| "code_debug StorageUnavailable = ''StorageUnavailable''"
| "code_debug StorageCommitUncertain = ''StorageCommitUncertain''"
| "code_debug Busy = ''Busy''"

fun error_display :: "error \<Rightarrow> string" where
  "error_display (Io k e) = ''io error: '' @ e"
| "error_display (Serde e) = ''serialization error: '' @ e"
| "error_display (Protocol m) = ''protocol error: '' @ m"
| "error_display (Crypto m) = ''crypto error: '' @ m"
| "error_display (FingerprintMismatch d x a) =
     ''fingerprint mismatch for '' @ d @ '': pinned '' @ x @ '', presented '' @ a"
| "error_display Cancelled = ''operation cancelled''"
| "error_display (Managed c m) = ''managed session '' @ code_debug c @ '': '' @ m"

text \<open>\<open>is_disconnect\<close> of \<open>sync.rs\<close>: a peer that closed the socket without a handshake.\<close>

definition is_disconnect :: "io_kind \<Rightarrow> bool" where
  "is_disconnect k = (k \<in> {UnexpectedEof, ConnectionReset, ConnectionAborted, BrokenPipe})"

text \<open>\<open>fail\<close> and \<open>fail_code\<close> of \<open>session/mod.rs\<close>, and \<open>fail\<close> of \<open>pairing.rs\<close>.\<close>

definition fail_code :: "session_error_code \<Rightarrow> string \<Rightarrow> 'a result" where
  "fail_code c m = Inl (Managed c m)"

definition fail :: "string \<Rightarrow> 'a result" where
  "fail m = fail_code InvalidOperation m"

definition pair_fail :: "string \<Rightarrow> 'a result" where
  "pair_fail m = Inl (Protocol (''pairing: '' @ m))"

lemma fail_code_neq_Inr [simp]: "fail_code c m \<noteq> Inr x" "Inr x \<noteq> fail_code c m"
  by (simp_all add: fail_code_def)

lemma fail_neq_Inr [simp]: "fail m \<noteq> Inr x" "Inr x \<noteq> fail m"
  by (simp_all add: fail_def)

lemma pair_fail_neq_Inr [simp]: "pair_fail m \<noteq> Inr x" "Inr x \<noteq> pair_fail m"
  by (simp_all add: pair_fail_def)

end
