(* ===== verification/Clock.thy ===== *)
theory Clock
  imports Errors
begin

text \<open>
  \<open>entry.rs\<close>: Lamport clocks and the entries they order. \<open>LamportClock\<close> implements
  \<open>Ord\<close> by counter and then device id; the type is an instance of \<open>linorder\<close> with
  that comparison, so \<open>\<le>\<close> and \<open>max\<close> below are the code's \<open>>=\<close> and \<open>std::cmp::max\<close>.
  \<open>identity.rs\<close> is here too.
\<close>

datatype ordering = OLess | OEqual | OGreater

definition cmp_of :: "'a::linorder \<Rightarrow> 'a \<Rightarrow> ordering" where
  "cmp_of a b = (if a < b then OLess else if a = b then OEqual else OGreater)"

datatype lamport_clock = LamportClock (clk_counter: u64) (clk_device: string)

definition clock_cmp :: "lamport_clock \<Rightarrow> lamport_clock \<Rightarrow> ordering" where
  "clock_cmp a b =
     (case cmp_of (clk_counter a) (clk_counter b) of
        OEqual \<Rightarrow> cmp_of (clk_device a) (clk_device b)
      | ord \<Rightarrow> ord)"

instantiation lamport_clock :: linorder
begin

definition less_eq_lamport_clock :: "lamport_clock \<Rightarrow> lamport_clock \<Rightarrow> bool" where
  "less_eq_lamport_clock a b = (clock_cmp a b \<noteq> OGreater)"

definition less_lamport_clock :: "lamport_clock \<Rightarrow> lamport_clock \<Rightarrow> bool" where
  "less_lamport_clock a b = (clock_cmp a b = OLess)"

instance
proof
  fix a b c :: lamport_clock
  show "a < b \<longleftrightarrow> a \<le> b \<and> \<not> b \<le> a"
    by (auto simp: less_lamport_clock_def less_eq_lamport_clock_def clock_cmp_def cmp_of_def)
  show "a \<le> a"
    by (simp add: less_eq_lamport_clock_def clock_cmp_def cmp_of_def)
  show "a \<le> b \<Longrightarrow> b \<le> c \<Longrightarrow> a \<le> c"
    by (auto simp: less_eq_lamport_clock_def clock_cmp_def cmp_of_def split: if_splits)
  show "a \<le> b \<Longrightarrow> b \<le> a \<Longrightarrow> a = b"
    by (cases a; cases b) (auto simp: less_eq_lamport_clock_def clock_cmp_def cmp_of_def split: if_splits)
  show "a \<le> b \<or> b \<le> a"
    by (auto simp: less_eq_lamport_clock_def clock_cmp_def cmp_of_def)
qed

end

lemma clock_le_iff:
  "a \<le> b \<longleftrightarrow> clk_counter a < clk_counter b \<or>
     clk_counter a = clk_counter b \<and> clk_device a \<le> clk_device b"
  by (auto simp: less_eq_lamport_clock_def clock_cmp_def cmp_of_def)

lemma clock_less_iff:
  "a < b \<longleftrightarrow> clk_counter a < clk_counter b \<or>
     clk_counter a = clk_counter b \<and> clk_device a < clk_device b"
  by (auto simp: less_lamport_clock_def clock_cmp_def cmp_of_def)

lemma clock_less_counter: "clk_counter a < clk_counter b \<Longrightarrow> a < b"
  by (simp add: clock_less_iff)

lemma clock_le_counter: "a \<le> b \<Longrightarrow> clk_counter a \<le> clk_counter b"
  by (auto simp: clock_le_iff)

text \<open>\<open>LamportClock::default()\<close> (derived): counter 0, empty device id.\<close>

definition default_clock :: lamport_clock where
  "default_clock = LamportClock 0 ''''"

record entry =
  e_key :: string
  e_value :: bytes
  e_clock :: lamport_clock

record identity =
  id_device :: string
  id_app :: string
  id_user :: string

definition identity_new :: "string \<Rightarrow> string \<Rightarrow> string \<Rightarrow> identity" where
  "identity_new d a u = \<lparr>id_device = d, id_app = a, id_user = u\<rparr>"

definition matches_app :: "identity \<Rightarrow> string \<Rightarrow> bool" where
  "matches_app i a = (id_app i = a)"

end
