(* ===== verification/Field_Value.thy ===== *)
theory Field_Value
  imports Clock
begin

unbundle bit_operations_syntax

text \<open>
  \<open>FieldValue\<close> of \<open>record.rs\<close>. \<open>I64\<close> is a 64-bit word read with \<open>sint\<close>; \<open>F64\<close> is
  the IEEE-754 bit pattern, and the derived \<open>PartialEq\<close> compares floats as IEEE does:
  NaN differs from itself and the two zeros are equal. So \<open>fv_eq\<close> is the code's \<open>==\<close>,
  not HOL equality, wherever the code compares field values.
\<close>

datatype field_value =
    FNull
  | FBool bool
  | FI64 u64
  | FF64 u64
  | FString string
  | FBytes bytes
  | FList "field_value list"
  | FMap "(string \<times> field_value) list"

definition f64_magnitude :: "u64 \<Rightarrow> u64" where
  "f64_magnitude b = b AND 0x7FFFFFFFFFFFFFFF"

definition f64_is_nan :: "u64 \<Rightarrow> bool" where
  "f64_is_nan b = (0x7FF0000000000000 < f64_magnitude b)"

definition f64_eq :: "u64 \<Rightarrow> u64 \<Rightarrow> bool" where
  "f64_eq a b = (\<not> f64_is_nan a \<and> \<not> f64_is_nan b \<and>
     (a = b \<or> (f64_magnitude a = 0 \<and> f64_magnitude b = 0)))"

fun fv_eq :: "field_value \<Rightarrow> field_value \<Rightarrow> bool"
  and fvs_eq :: "field_value list \<Rightarrow> field_value list \<Rightarrow> bool"
  and fvm_eq :: "(string \<times> field_value) list \<Rightarrow> (string \<times> field_value) list \<Rightarrow> bool" where
  "fv_eq FNull FNull = True"
| "fv_eq (FBool a) (FBool b) = (a = b)"
| "fv_eq (FI64 a) (FI64 b) = (a = b)"
| "fv_eq (FF64 a) (FF64 b) = f64_eq a b"
| "fv_eq (FString a) (FString b) = (a = b)"
| "fv_eq (FBytes a) (FBytes b) = (a = b)"
| "fv_eq (FList xs) (FList ys) = fvs_eq xs ys"
| "fv_eq (FMap m) (FMap n) = fvm_eq m n"
| "fv_eq _ _ = False"
| "fvs_eq [] [] = True"
| "fvs_eq (x # xs) (y # ys) = (fv_eq x y \<and> fvs_eq xs ys)"
| "fvs_eq _ _ = False"
| "fvm_eq [] [] = True"
| "fvm_eq ((j, x) # xs) ((k, y) # ys) = (j = k \<and> fv_eq x y \<and> fvm_eq xs ys)"
| "fvm_eq _ _ = False"

fun nan_free :: "field_value \<Rightarrow> bool"
  and nan_free_list :: "field_value list \<Rightarrow> bool"
  and nan_free_map :: "(string \<times> field_value) list \<Rightarrow> bool" where
  "nan_free (FF64 b) = (\<not> f64_is_nan b)"
| "nan_free (FList xs) = nan_free_list xs"
| "nan_free (FMap m) = nan_free_map m"
| "nan_free _ = True"
| "nan_free_list [] = True"
| "nan_free_list (x # xs) = (nan_free x \<and> nan_free_list xs)"
| "nan_free_map [] = True"
| "nan_free_map ((k, x) # xs) = (nan_free x \<and> nan_free_map xs)"

lemma f64_eq_refl [simp]: "f64_eq a a \<longleftrightarrow> \<not> f64_is_nan a"
  by (auto simp: f64_eq_def)

lemma f64_eq_sym: "f64_eq a b \<Longrightarrow> f64_eq b a"
  by (auto simp: f64_eq_def)

lemma fv_eq_refl_iff [simp]:
  "fv_eq v v \<longleftrightarrow> nan_free v"
  "fvs_eq vs vs \<longleftrightarrow> nan_free_list vs"
  "fvm_eq m m \<longleftrightarrow> nan_free_map m"
  by (induction v and vs and m rule: nan_free_nan_free_list_nan_free_map.induct) auto

lemma fv_eq_sym:
  "fv_eq a b \<Longrightarrow> fv_eq b a"
  "fvs_eq as bs \<Longrightarrow> fvs_eq bs as"
  "fvm_eq m n \<Longrightarrow> fvm_eq n m"
  by (induction a b and as bs and m n rule: fv_eq_fvs_eq_fvm_eq.induct) (auto intro: f64_eq_sym)

text \<open>\<open>Option<&FieldValue> == Option<&FieldValue>\<close>.\<close>

fun fv_opt_eq :: "field_value option \<Rightarrow> field_value option \<Rightarrow> bool" where
  "fv_opt_eq None None = True"
| "fv_opt_eq (Some a) (Some b) = fv_eq a b"
| "fv_opt_eq _ _ = False"

text \<open>\<open>Vec::contains\<close>, and the loop \<open>if !left.contains(&item) { left.push(item) }\<close>.\<close>

definition fv_contains :: "field_value list \<Rightarrow> field_value \<Rightarrow> bool" where
  "fv_contains xs x = list_ex (\<lambda>y. fv_eq y x) xs"

fun push_unseen :: "field_value list \<Rightarrow> field_value list \<Rightarrow> field_value list" where
  "push_unseen left [] = left"
| "push_unseen left (x # xs) =
     push_unseen (if fv_contains left x then left else left @ [x]) xs"

lemma push_unseen_prefix: "\<exists>new. push_unseen left right = left @ new \<and> set new \<subseteq> set right"
proof (induction right arbitrary: left)
  case (Cons x xs)
  show ?case
  proof (cases "fv_contains left x")
    case True
    then show ?thesis using Cons.IH[of left] by auto
  next
    case False
    then show ?thesis using Cons.IH[of "left @ [x]"] by auto
  qed
qed simp

lemma fv_contains_append [simp]:
  "fv_contains (xs @ ys) x \<longleftrightarrow> fv_contains xs x \<or> fv_contains ys x"
  by (simp add: fv_contains_def)

lemma push_unseen_keeps: "fv_contains left x \<Longrightarrow> fv_contains (push_unseen left right) x"
  using push_unseen_prefix[of left right] by auto

lemma push_unseen_contains:
  assumes "x \<in> set right" and "nan_free x"
  shows "fv_contains (push_unseen left right) x"
  using assms
proof (induction right arbitrary: left)
  case (Cons y ys)
  show ?case
  proof (cases "x = y")
    case True
    have "fv_contains (left @ [x]) x" using Cons.prems(2) by (simp add: fv_contains_def)
    then show ?thesis using True by (auto intro!: push_unseen_keeps)
  next
    case False
    then show ?thesis using Cons by simp
  qed
qed simp

lemma push_unseen_id: "\<forall>x\<in>set right. fv_contains left x \<Longrightarrow> push_unseen left right = left"
  by (induction right) auto

text \<open>Merging the same list a second time adds nothing (no NaN inside).\<close>

lemma push_unseen_idem:
  assumes "\<forall>x\<in>set right. nan_free x"
  shows "push_unseen (push_unseen left right) right = push_unseen left right"
  using assms by (intro push_unseen_id ballI push_unseen_contains) auto

end
