(* ===== verification/Sync_State.thy ===== *)
theory Sync_State
  imports Field_Value
begin

text \<open>
  \<open>state.rs\<close>: the local key/value sync state. One definition per method of \<open>State\<close>.
  The random bytes behind \<open>random_epoch\<close> (\<open>OsRng\<close>) are an argument.
\<close>

record peer_cursor =
  pc_epoch :: string
  pc_clock :: u64

definition default_cursor :: peer_cursor where
  "default_cursor = \<lparr>pc_epoch = '''', pc_clock = 0\<rparr>"

record sync_state =
  st_device_id :: string
  st_counter :: u64
  st_entries :: "(string, entry) bmap"
  st_sequence :: u64
  st_sequences :: "(string, u64) bmap"
  st_origins :: "(string, string) bmap"
  st_peer_cursors :: "(string, peer_cursor) bmap"
  st_epoch :: string
  st_inbound_origin :: "string option"

text \<open>\<open>format!("{byte:02x}")\<close> over eight random bytes.\<close>

definition hex_lower :: "u8 \<Rightarrow> char" where
  "hex_lower n = (if n < 10 then char_of (48 + unat n) else char_of (87 + unat n))"

definition hex_byte :: "u8 \<Rightarrow> string" where
  "hex_byte b = [hex_lower (drop_bit 4 b), hex_lower (b AND 15)]"

definition random_epoch :: "bytes \<Rightarrow> string" where
  "random_epoch rnd = concat (map hex_byte rnd)"

definition state_new :: "bytes \<Rightarrow> string \<Rightarrow> sync_state" where
  "state_new rnd device_id =
     \<lparr>st_device_id = device_id, st_counter = 0, st_entries = [], st_sequence = 1,
      st_sequences = [], st_origins = [], st_peer_cursors = [],
      st_epoch = random_epoch rnd, st_inbound_origin = None\<rparr>"

definition record_write :: "string \<Rightarrow> string option \<Rightarrow> sync_state \<Rightarrow> sync_state" where
  "record_write key origin s =
     (let s1 = s\<lparr>st_sequence := sat_inc (st_sequence s)\<rparr>;
          s2 = s1\<lparr>st_sequences := bm_insert key (st_sequence s1) (st_sequences s1)\<rparr>
      in case origin of
           Some o' \<Rightarrow> s2\<lparr>st_origins := bm_insert key o' (st_origins s2)\<rparr>
         | None \<Rightarrow> s2\<lparr>st_origins := bm_remove key (st_origins s2)\<rparr>)"

definition state_set :: "string \<Rightarrow> bytes \<Rightarrow> sync_state \<Rightarrow> entry \<times> sync_state" where
  "state_set key value s =
     (let s1 = s\<lparr>st_counter := sat_inc (st_counter s)\<rparr>;
          e = \<lparr>e_key = key, e_value = value,
               e_clock = LamportClock (st_counter s1) (st_device_id s1)\<rparr>;
          s2 = s1\<lparr>st_entries := bm_insert key e (st_entries s1)\<rparr>
      in (e, record_write key None s2))"

definition state_get :: "string \<Rightarrow> sync_state \<Rightarrow> bytes option" where
  "state_get key s = map_option e_value (bm_get (st_entries s) key)"

definition state_remove :: "string \<Rightarrow> sync_state \<Rightarrow> entry option \<times> sync_state" where
  "state_remove key s =
     (bm_get (st_entries s) key,
      s\<lparr>st_sequences := bm_remove key (st_sequences s),
        st_origins := bm_remove key (st_origins s),
        st_entries := bm_remove key (st_entries s)\<rparr>)"

text \<open>The counter catch-up both writing paths start with.\<close>

definition observe_clock :: "lamport_clock \<Rightarrow> sync_state \<Rightarrow> sync_state" where
  "observe_clock c s =
     (if st_counter s < clk_counter c then s\<lparr>st_counter := clk_counter c\<rparr> else s)"

definition apply_entry :: "entry \<Rightarrow> sync_state \<Rightarrow> bool \<times> sync_state" where
  "apply_entry e s =
     (let s1 = observe_clock (e_clock e) s;
          s2 = record_write (e_key e) (st_inbound_origin s1)
                 (s1\<lparr>st_entries := bm_insert (e_key e) e (st_entries s1)\<rparr>)
      in case bm_get (st_entries s1) (e_key e) of
           Some existing \<Rightarrow>
             (if e_clock e \<le> e_clock existing then (False, s1) else (True, s2))
         | None \<Rightarrow> (True, s2))"

definition upsert_entry :: "entry \<Rightarrow> sync_state \<Rightarrow> bool \<times> sync_state" where
  "upsert_entry e s =
     (let s1 = observe_clock (e_clock e) s
      in if bm_get (st_entries s1) (e_key e) = Some e then (False, s1)
         else (True, record_write (e_key e) (st_inbound_origin s1)
                 (s1\<lparr>st_entries := bm_insert (e_key e) e (st_entries s1)\<rparr>)))"

fun merge_loop :: "entry list \<Rightarrow> nat \<Rightarrow> sync_state \<Rightarrow> nat \<times> sync_state" where
  "merge_loop [] applied s = (applied, s)"
| "merge_loop (e # es) applied s =
     (case apply_entry e s of
        (changed, s') \<Rightarrow> merge_loop es (if changed then Suc applied else applied) s')"

definition merge_snapshot :: "entry list \<Rightarrow> sync_state \<Rightarrow> nat \<times> sync_state" where
  "merge_snapshot es s = merge_loop es 0 s"

definition state_snapshot :: "sync_state \<Rightarrow> entry list" where
  "state_snapshot s = bm_values (st_entries s)"

definition with_inbound_origin ::
  "string \<Rightarrow> (sync_state \<Rightarrow> 'r \<times> sync_state) \<Rightarrow> sync_state \<Rightarrow> 'r \<times> sync_state" where
  "with_inbound_origin origin f s =
     (case f (s\<lparr>st_inbound_origin := Some origin\<rparr>) of
        (r, s') \<Rightarrow> (r, s'\<lparr>st_inbound_origin := st_inbound_origin s\<rparr>))"

definition is_full_snapshot_request :: "u64 \<Rightarrow> sync_state \<Rightarrow> bool" where
  "is_full_snapshot_request since s = (since = 0 \<or> st_sequence s < since)"

definition sequence_of :: "string \<Rightarrow> sync_state \<Rightarrow> u64" where
  "sequence_of key s = (case bm_get (st_sequences s) key of None \<Rightarrow> u64_max | Some n \<Rightarrow> n)"

definition delta_since :: "u64 \<Rightarrow> string option \<Rightarrow> sync_state \<Rightarrow> entry list" where
  "delta_since since exclude_origin s =
     (if is_full_snapshot_request since s then state_snapshot s
      else map snd
        (filter (\<lambda>(key, _). case exclude_origin of
                   Some origin \<Rightarrow> bm_get (st_origins s) key \<noteq> Some origin
                 | None \<Rightarrow> True)
          (filter (\<lambda>(key, _). since < sequence_of key s) (st_entries s))))"

definition get_peer_cursor :: "string \<Rightarrow> sync_state \<Rightarrow> peer_cursor" where
  "get_peer_cursor device_id s =
     (case bm_get (st_peer_cursors s) device_id of None \<Rightarrow> default_cursor | Some c \<Rightarrow> c)"

definition set_peer_cursor :: "string \<Rightarrow> peer_cursor \<Rightarrow> sync_state \<Rightarrow> sync_state" where
  "set_peer_cursor device_id cursor s =
     s\<lparr>st_peer_cursors := bm_insert device_id cursor (st_peer_cursors s)\<rparr>"

definition resolve_cursor :: "peer_cursor \<Rightarrow> sync_state \<Rightarrow> u64" where
  "resolve_cursor cursor s = (if pc_epoch cursor = st_epoch s then pc_clock cursor else 0)"

definition current_cursor :: "sync_state \<Rightarrow> peer_cursor" where
  "current_cursor s = \<lparr>pc_epoch = st_epoch s, pc_clock = st_sequence s\<rparr>"

definition reset_peer_cursors :: "sync_state \<Rightarrow> sync_state" where
  "reset_peer_cursors s = s\<lparr>st_peer_cursors := []\<rparr>"

text \<open>\<open>normalize\<close>: repairs state files written before delta tracking existed.\<close>

fun assign_sequences :: "string list \<Rightarrow> sync_state \<Rightarrow> sync_state" where
  "assign_sequences [] s = s"
| "assign_sequences (key # keys) s =
     (let s1 = s\<lparr>st_sequence := sat_inc (st_sequence s)\<rparr>
      in assign_sequences keys
           (s1\<lparr>st_sequences := bm_insert key (st_sequence s1) (st_sequences s1)\<rparr>))"

definition normalize :: "bytes \<Rightarrow> sync_state \<Rightarrow> sync_state" where
  "normalize rnd s =
     (let s1 = (if st_epoch s = '''' then s\<lparr>st_epoch := random_epoch rnd\<rparr> else s);
          s2 = (if st_sequence s1 = 0 then s1\<lparr>st_sequence := 1\<rparr> else s1);
          missing = filter (\<lambda>k. \<not> bm_has (st_sequences s2) k) (bm_keys (st_entries s2));
          s3 = assign_sequences missing s2;
          s4 = s3\<lparr>st_sequences := bm_retain (\<lambda>k _. bm_has (st_entries s3) k) (st_sequences s3)\<rparr>
      in s4\<lparr>st_origins := bm_retain (\<lambda>k _. bm_has (st_entries s4) k) (st_origins s4)\<rparr>)"

section \<open>The representation invariant\<close>

text \<open>
  \<open>state_ok\<close> is what every reachable state satisfies: sorted maps, entries stored under
  their own key, a sequence for exactly the stored keys, no sequence above the local one,
  origins only for stored keys, and the Lamport counter at least every stored clock.
\<close>

definition state_ok :: "sync_state \<Rightarrow> bool" where
  "state_ok s \<longleftrightarrow>
     bm_ok (st_entries s) \<and> bm_ok (st_sequences s) \<and> bm_ok (st_origins s) \<and>
     bm_ok (st_peer_cursors s) \<and>
     (\<forall>k e. bm_get (st_entries s) k = Some e \<longrightarrow>
        e_key e = k \<and> clk_counter (e_clock e) \<le> st_counter s) \<and>
     (\<forall>k. bm_get (st_entries s) k = None \<longleftrightarrow> bm_get (st_sequences s) k = None) \<and>
     (\<forall>k n. bm_get (st_sequences s) k = Some n \<longrightarrow> n \<le> st_sequence s) \<and>
     (\<forall>k. bm_get (st_entries s) k = None \<longrightarrow> bm_get (st_origins s) k = None) \<and>
     st_sequence s \<noteq> 0"

lemma state_ok_new: "state_ok (state_new rnd d)"
  by (simp add: state_ok_def state_new_def)

lemma record_write_simps [simp]:
  "st_entries (record_write k orig s) = st_entries s"
  "st_counter (record_write k orig s) = st_counter s"
  "st_device_id (record_write k orig s) = st_device_id s"
  "st_peer_cursors (record_write k orig s) = st_peer_cursors s"
  "st_epoch (record_write k orig s) = st_epoch s"
  "st_inbound_origin (record_write k orig s) = st_inbound_origin s"
  "st_sequence (record_write k orig s) = sat_inc (st_sequence s)"
  "st_sequences (record_write k orig s) = bm_insert k (sat_inc (st_sequence s)) (st_sequences s)"
  "bm_get (st_origins (record_write k orig s)) j =
     (if j = k then orig else bm_get (st_origins s) j)"
  by (auto simp: record_write_def Let_def bm_get_insert bm_get_remove split: option.splits)

lemma observe_clock_simps [simp]:
  "st_entries (observe_clock c s) = st_entries s"
  "st_device_id (observe_clock c s) = st_device_id s"
  "st_peer_cursors (observe_clock c s) = st_peer_cursors s"
  "st_epoch (observe_clock c s) = st_epoch s"
  "st_inbound_origin (observe_clock c s) = st_inbound_origin s"
  "st_sequence (observe_clock c s) = st_sequence s"
  "st_sequences (observe_clock c s) = st_sequences s"
  "st_origins (observe_clock c s) = st_origins s"
  "st_counter (observe_clock c s) = max (st_counter s) (clk_counter c)"
  by (auto simp: observe_clock_def max_def not_less)

lemma state_ok_observe: "state_ok s \<Longrightarrow> state_ok (observe_clock c s)"
  by (fastforce simp: state_ok_def max_def)

text \<open>Every write stores under the entry's own key, at a counter the state has seen.\<close>

lemma state_ok_write:
  assumes "state_ok s" and "e_key e = k" and "clk_counter (e_clock e) \<le> st_counter s"
  shows "state_ok (record_write k orig (s\<lparr>st_entries := bm_insert k e (st_entries s)\<rparr>))"
proof -
  have "bm_ok (st_origins (record_write k orig (s\<lparr>st_entries := bm_insert k e (st_entries s)\<rparr>)))"
    using assms(1)
    by (auto simp: record_write_def Let_def state_ok_def split: option.splits intro: bm_intros)
  then show ?thesis
    using assms
    by (auto simp: state_ok_def bm_get_insert intro: bm_intros le_sat_incI split: if_splits)
qed

lemma state_ok_set: "state_ok s \<Longrightarrow> state_ok (snd (state_set k v s))"
proof -
  assume ok: "state_ok s"
  let ?s = "s\<lparr>st_counter := sat_inc (st_counter s)\<rparr>"
  have "state_ok ?s"
    using ok by (auto simp: state_ok_def intro: le_sat_incI)
  then show ?thesis
    using state_ok_write[of ?s "fst (state_set k v s)" k None]
    by (simp add: state_set_def Let_def)
qed

lemma state_ok_apply: "state_ok s \<Longrightarrow> state_ok (snd (apply_entry e s))"
  using state_ok_observe[of s "e_clock e"]
    state_ok_write[of "observe_clock (e_clock e) s" e "e_key e" "st_inbound_origin s"]
  by (auto simp: apply_entry_def Let_def split: option.splits)

lemma state_ok_upsert: "state_ok s \<Longrightarrow> state_ok (snd (upsert_entry e s))"
  using state_ok_observe[of s "e_clock e"]
    state_ok_write[of "observe_clock (e_clock e) s" e "e_key e" "st_inbound_origin s"]
  by (auto simp: upsert_entry_def Let_def)

lemma state_ok_remove: "state_ok s \<Longrightarrow> state_ok (snd (state_remove k s))"
  by (auto simp: state_ok_def state_remove_def bm_get_remove intro: bm_intros)

lemma state_ok_merge_loop: "state_ok s \<Longrightarrow> state_ok (snd (merge_loop es n s))"
proof (induction es arbitrary: n s)
  case (Cons e es)
  then show ?case
    using state_ok_apply[of s e] by (cases "apply_entry e s") auto
qed simp

lemma state_ok_merge_snapshot: "state_ok s \<Longrightarrow> state_ok (snd (merge_snapshot es s))"
  by (simp add: merge_snapshot_def state_ok_merge_loop)

lemma state_ok_set_peer_cursor: "state_ok s \<Longrightarrow> state_ok (set_peer_cursor d c s)"
  by (auto simp: state_ok_def set_peer_cursor_def intro: bm_intros)

lemma state_ok_inbound_origin [simp]:
  "state_ok (s\<lparr>st_inbound_origin := o'\<rparr>) = state_ok s"
  by (simp add: state_ok_def)

lemma state_ok_with_inbound_origin:
  assumes "state_ok s" and "\<And>t. state_ok t \<Longrightarrow> state_ok (snd (f t))"
  shows "state_ok (snd (with_inbound_origin d f s))"
  using assms(1) assms(2)[of "s\<lparr>st_inbound_origin := Some d\<rparr>"]
  by (auto simp: with_inbound_origin_def split: prod.splits)

lemmas state_ok_ops = state_ok_new state_ok_set state_ok_apply state_ok_upsert state_ok_remove
  state_ok_merge_snapshot state_ok_set_peer_cursor state_ok_with_inbound_origin

end
