(* ===== verification/Utf8.thy ===== *)
theory Utf8
  imports Errors
begin

text \<open>
  \<open>String::from_utf8\<close> and the byte-level string routines of the standard library the code
  uses: UTF-8 validity (RFC 3629), hexadecimal digits (\<open>u8::from_str_radix(_, 16)\<close>,
  \<open>is_ascii_hexdigit\<close>, \<open>is_ascii_digit\<close>), little- and big-endian integers.
\<close>

abbreviation code :: "char \<Rightarrow> nat" where
  "code c \<equiv> of_char c"

definition utf8_cont :: "char \<Rightarrow> bool" where
  "utf8_cont c = (128 \<le> code c \<and> code c < 192)"

definition utf8_second :: "char \<Rightarrow> char \<Rightarrow> bool" where
  "utf8_second a b =
     (if code a = 224 then 160 \<le> code b \<and> code b < 192
      else if code a = 237 then 128 \<le> code b \<and> code b < 160
      else if code a = 240 then 144 \<le> code b \<and> code b < 192
      else if code a = 244 then 128 \<le> code b \<and> code b < 144
      else utf8_cont b)"

fun valid_utf8 :: "string \<Rightarrow> bool" where
  "valid_utf8 [] = True"
| "valid_utf8 (a # s) =
     (if code a < 128 then valid_utf8 s
      else if code a < 194 then False
      else if code a < 224 then
        (case s of b # s' \<Rightarrow> utf8_cont b \<and> valid_utf8 s' | _ \<Rightarrow> False)
      else if code a < 240 then
        (case s of
           b # c # s' \<Rightarrow> utf8_second a b \<and> utf8_cont c \<and> valid_utf8 s'
         | _ \<Rightarrow> False)
      else if code a < 245 then
        (case s of
           b # c # d # s' \<Rightarrow>
             utf8_second a b \<and> utf8_cont c \<and> utf8_cont d \<and> valid_utf8 s'
         | _ \<Rightarrow> False)
      else False)"

lemma valid_utf8_ascii: "\<forall>c\<in>set s. code c < 128 \<Longrightarrow> valid_utf8 s"
  by (induction s) simp_all

definition hex_value :: "char \<Rightarrow> nat option" where
  "hex_value c =
     (if 48 \<le> code c \<and> code c \<le> 57 then Some (code c - 48)
      else if 65 \<le> code c \<and> code c \<le> 70 then Some (code c - 55)
      else if 97 \<le> code c \<and> code c \<le> 102 then Some (code c - 87)
      else None)"

definition hex_upper :: "nat \<Rightarrow> char" where
  "hex_upper n = (if n < 10 then char_of (48 + n) else char_of (55 + n))"

definition is_ascii_digit :: "char \<Rightarrow> bool" where
  "is_ascii_digit c = (48 \<le> code c \<and> code c \<le> 57)"

definition is_ascii_hexdigit :: "char \<Rightarrow> bool" where
  "is_ascii_hexdigit c = (hex_value c \<noteq> None)"

text \<open>\<open>char::is_control\<close> on UTF-8 bytes: C0, DEL, and C1 (the pair \<open>C2 80\<close> to \<open>C2 9F\<close>).\<close>

fun has_control :: "string \<Rightarrow> bool" where
  "has_control [] = False"
| "has_control [a] = (code a < 32 \<or> code a = 127)"
| "has_control (a # b # s) =
     (code a < 32 \<or> code a = 127 \<or> (code a = 194 \<and> 128 \<le> code b \<and> code b < 160) \<or>
      has_control (b # s))"

lemma code_hex_upper: "n < 16 \<Longrightarrow> code (hex_upper n) = (if n < 10 then 48 + n else 55 + n)"
  by (simp add: hex_upper_def of_char_of)

lemma hex_value_upper: "n < 16 \<Longrightarrow> hex_value (hex_upper n) = Some n"
  by (simp add: hex_value_def code_hex_upper)

lemma hex_upper_neq:
  assumes "n < 16"
  shows "hex_upper n \<noteq> CHR ''+''" and "hex_upper n \<noteq> CHR '':''" and "code (hex_upper n) < 128"
proof -
  show "code (hex_upper n) < 128" using assms by (simp add: code_hex_upper)
  have "code (hex_upper n) \<noteq> code (CHR ''+'')" "code (hex_upper n) \<noteq> code (CHR '':'')"
    using assms by (auto simp: code_hex_upper)
  then show "hex_upper n \<noteq> CHR ''+''" "hex_upper n \<noteq> CHR '':''" by metis+
qed

section \<open>Integers as bytes\<close>

fun le_bytes :: "nat \<Rightarrow> nat \<Rightarrow> bytes" where
  "le_bytes 0 n = []"
| "le_bytes (Suc k) n = of_nat (n mod 256) # le_bytes k (n div 256)"

fun of_le :: "bytes \<Rightarrow> nat" where
  "of_le [] = 0"
| "of_le (b # bs) = unat b + 256 * of_le bs"

definition be_bytes :: "nat \<Rightarrow> nat \<Rightarrow> bytes" where
  "be_bytes k n = rev (le_bytes k n)"

definition str_bytes :: "string \<Rightarrow> bytes" where
  "str_bytes s = map of_char s"

lemma length_le_bytes [simp]: "length (le_bytes k n) = k"
  by (induction k arbitrary: n) auto

lemma length_be_bytes [simp]: "length (be_bytes k n) = k"
  by (simp add: be_bytes_def)

lemma unat_of_nat_byte: "unat (of_nat (n mod 256) :: u8) = n mod 256"
  by (simp add: unat_of_nat)

lemma of_le_le_bytes: "of_le (le_bytes k n) = n mod 256 ^ k"
proof (induction k arbitrary: n)
  case (Suc k)
  then show ?case
    by (simp add: unat_of_nat_byte mod_mult2_eq [of n 256 "256 ^ k"])
qed simp

lemma le_bytes_inject:
  "le_bytes k m = le_bytes k n \<Longrightarrow> m < 256 ^ k \<Longrightarrow> n < 256 ^ k \<Longrightarrow> m = n"
  by (metis mod_less of_le_le_bytes)

lemma be_bytes_inject:
  "be_bytes k m = be_bytes k n \<Longrightarrow> m < 256 ^ k \<Longrightarrow> n < 256 ^ k \<Longrightarrow> m = n"
  using le_bytes_inject by (simp add: be_bytes_def)

lemma of_le_bound: "of_le bs < 256 ^ length bs"
proof (induction bs)
  case (Cons b bs)
  have b: "unat b < 2 ^ LENGTH(8)" by (rule unsigned_less)
  have "256 * Suc (of_le bs) \<le> 256 * 256 ^ length bs"
    by (rule mult_le_mono2) (rule Suc_leI [OF Cons])
  moreover have "of_le (b # bs) < 256 * Suc (of_le bs)" using b by simp
  moreover have "256 ^ length (b # bs) = (256 * 256 ^ length bs :: nat)" by simp
  ultimately show ?case by linarith
qed simp

lemma str_bytes_inject [simp]: "str_bytes s = str_bytes t \<longleftrightarrow> s = t"
proof -
  have "inj (of_char :: char \<Rightarrow> u8)"
  proof (rule injI)
    fix x y :: char
    assume "of_char x = (of_char y :: u8)"
    then have "unat (of_char x :: u8) = unat (of_char y :: u8)" by simp
    moreover have "unat (of_char c :: u8) = code c" for c :: char
    proof -
      have "(of_char c :: u8) = of_nat (code c)" by (rule of_nat_of_char [symmetric])
      then show ?thesis using nat_of_char_less_256[of c] by (simp add: unat_of_nat)
    qed
    ultimately have "code x = code y" by simp
    then show "x = y" by simp
  qed
  then show ?thesis by (simp add: str_bytes_def inj_map_eq_map)
qed

lemma length_str_bytes [simp]: "length (str_bytes s) = length s"
  by (simp add: str_bytes_def)

section \<open>Decimal digits\<close>

definition digit :: "nat \<Rightarrow> char" where
  "digit d = char_of (48 + d)"

text \<open>\<open>Display\<close> of an unsigned integer.\<close>

fun show_nat :: "nat \<Rightarrow> string" where
  "show_nat n = (if n < 10 then [digit n] else show_nat (n div 10) @ [digit (n mod 10)])"

declare show_nat.simps [simp del]

lemma code_digit: "code (digit (n mod 10)) = 48 + n mod 10"
proof -
  have "n mod 10 < 10" by simp
  then have "48 + n mod 10 < 256" by linarith
  then show ?thesis by (simp add: digit_def of_char_of)
qed

end
