(* ===== verification/Manifest.thy ===== *)
theory Manifest
  imports Sync_State Utf8
begin

text \<open>
  The enrollment data of \<open>pairing.rs\<close>: app manifests, device metadata, invitations, and
  their validation. JSON and SHA-256 are library code and appear as arguments of
  \<open>contract_digest\<close>, \<open>inv_encode\<close> and \<open>inv_decode\<close>.
\<close>

record adapter_descriptor =
  ad_id :: string
  ad_namespace :: string
  ad_schema :: string
  ad_transactional :: bool

record app_manifest =
  m_app_id :: string
  m_display_name :: string
  m_schema_version :: u32
  m_adapters :: "adapter_descriptor list"

record device_metadata =
  dm_display_name :: string
  dm_device_kind :: string
  dm_role :: string
  dm_manifest :: app_manifest

definition pairing_version :: u32 where
  "pairing_version = 2"

definition max_pairing_bytes :: nat where
  "max_pairing_bytes = 16 * 1024"

definition bounded :: "string \<Rightarrow> unit result" where
  "bounded s =
     (if s = [] \<or> 128 < length s \<or> has_control s then pair_fail ''invalid metadata field''
      else Inr ())"

fun validate_adapters :: "string set \<Rightarrow> adapter_descriptor list \<Rightarrow> unit result" where
  "validate_adapters ids [] = Inr ()"
| "validate_adapters ids (a # rest) =
     bindR (bounded (ad_id a)) (\<lambda>_.
     bindR (bounded (ad_namespace a)) (\<lambda>_.
     bindR (bounded (ad_schema a)) (\<lambda>_.
       if ad_id a \<in> ids then pair_fail ''duplicate adapter id''
       else validate_adapters (insert (ad_id a) ids) rest)))"

definition manifest_validate :: "app_manifest \<Rightarrow> unit result" where
  "manifest_validate m =
     bindR (bounded (m_app_id m)) (\<lambda>_.
     bindR (bounded (m_display_name m)) (\<lambda>_.
       if m_adapters m = [] \<or> 16 < length (m_adapters m) then pair_fail ''invalid adapter count''
       else validate_adapters {} (m_adapters m)))"

definition compatible_with :: "app_manifest \<Rightarrow> app_manifest \<Rightarrow> bool" where
  "compatible_with m other =
     (if m_app_id m \<noteq> m_app_id other \<or> m_schema_version m \<noteq> m_schema_version other then False
      else sort_key ad_id (m_adapters m) = sort_key ad_id (m_adapters other))"

definition contract_digest ::
  "(string \<times> u32 \<times> adapter_descriptor list \<Rightarrow> bytes result) \<Rightarrow> (bytes \<Rightarrow> bytes) \<Rightarrow>
   app_manifest \<Rightarrow> string result" where
  "contract_digest json sha256 m =
     bindR (manifest_validate m) (\<lambda>_.
     bindR (json (m_app_id m, m_schema_version m, sort_key ad_id (m_adapters m))) (\<lambda>bs.
       Inr (concat (map hex_byte (sha256 bs)))))"

definition metadata_validate :: "device_metadata \<Rightarrow> unit result" where
  "metadata_validate d =
     bindR (bounded (dm_display_name d)) (\<lambda>_.
     bindR (bounded (dm_device_kind d)) (\<lambda>_.
     bindR (bounded (dm_role d)) (\<lambda>_.
       manifest_validate (dm_manifest d))))"

definition validate_identity :: "identity \<Rightarrow> device_metadata \<Rightarrow> unit result" where
  "validate_identity i d =
     bindR (bounded (id_device i)) (\<lambda>_.
     bindR (bounded (id_app i)) (\<lambda>_.
     bindR (bounded (id_user i)) (\<lambda>_.
     bindR (metadata_validate d) (\<lambda>_.
       if id_app i \<noteq> m_app_id (dm_manifest d) then pair_fail ''identity and manifest disagree''
       else Inr ()))))"

section \<open>Invitations\<close>

record pairing_invitation =
  inv_version :: u32
  inv_id :: string
  inv_fingerprint :: string
  inv_metadata :: device_metadata
  inv_expires_at :: u64
  inv_secret :: string

record pairing_descriptor =
  pd_version :: u32
  pd_id :: string
  pd_fingerprint :: string
  pd_expires_at :: u64

definition inv_validate :: "pairing_invitation \<Rightarrow> unit result" where
  "inv_validate i =
     (if inv_version i \<noteq> pairing_version
         \<or> length (inv_id i) \<noteq> 32 \<or> \<not> list_all is_ascii_hexdigit (inv_id i)
         \<or> length (inv_fingerprint i) \<noteq> 64 \<or> \<not> list_all is_ascii_hexdigit (inv_fingerprint i)
      then pair_fail ''invalid invitation''
      else if \<not> ((length (inv_secret i) = 64 \<and> list_all is_ascii_hexdigit (inv_secret i))
                \<or> (length (inv_secret i) = 6 \<and> list_all is_ascii_digit (inv_secret i)))
      then pair_fail ''invalid invitation credential''
      else metadata_validate (inv_metadata i))"

definition inv_descriptor :: "pairing_invitation \<Rightarrow> pairing_descriptor" where
  "inv_descriptor i =
     \<lparr>pd_version = inv_version i, pd_id = inv_id i, pd_fingerprint = inv_fingerprint i,
      pd_expires_at = inv_expires_at i\<rparr>"

definition with_code ::
  "pairing_descriptor \<Rightarrow> device_metadata \<Rightarrow> string \<Rightarrow> pairing_invitation result" where
  "with_code d metadata pin =
     (if length pin \<noteq> 6 \<or> \<not> list_all is_ascii_digit pin
      then pair_fail ''code must contain six digits''
      else let i = \<lparr>inv_version = pd_version d, inv_id = pd_id d,
                    inv_fingerprint = pd_fingerprint d, inv_metadata = metadata,
                    inv_expires_at = pd_expires_at d, inv_secret = pin\<rparr>
           in bindR (inv_validate i) (\<lambda>_. Inr i))"

definition inv_encode ::
  "(pairing_invitation \<Rightarrow> string result) \<Rightarrow> pairing_invitation \<Rightarrow> string result" where
  "inv_encode to_json i = to_json i"

definition inv_decode ::
  "(string \<Rightarrow> pairing_invitation result) \<Rightarrow> string \<Rightarrow> pairing_invitation result" where
  "inv_decode from_json encoded =
     (if max_pairing_bytes < length encoded then pair_fail ''invitation too large''
      else bindR (from_json encoded) (\<lambda>i. bindR (inv_validate i) (\<lambda>_. Inr i)))"

section \<open>What validation guarantees\<close>

lemma bounded_ok: "bounded s = Inr () \<longleftrightarrow> s \<noteq> [] \<and> length s \<le> 128 \<and> \<not> has_control s"
  by (auto simp: bounded_def)

lemma validate_adapters_ok:
  "validate_adapters ids as = Inr () \<longleftrightarrow>
     (\<forall>a\<in>set as. bounded (ad_id a) = Inr () \<and> bounded (ad_namespace a) = Inr () \<and>
        bounded (ad_schema a) = Inr ()) \<and>
     distinct (map ad_id as) \<and> ids \<inter> ad_id ` set as = {}"
  by (induction as arbitrary: ids) (auto split: if_splits)

lemma manifest_validate_ok:
  "manifest_validate m = Inr () \<longleftrightarrow>
     bounded (m_app_id m) = Inr () \<and> bounded (m_display_name m) = Inr () \<and>
     m_adapters m \<noteq> [] \<and> length (m_adapters m) \<le> 16 \<and>
     (\<forall>a\<in>set (m_adapters m). bounded (ad_id a) = Inr () \<and> bounded (ad_namespace a) = Inr () \<and>
        bounded (ad_schema a) = Inr ()) \<and>
     distinct (map ad_id (m_adapters m))"
  by (auto simp: manifest_validate_def validate_adapters_ok split: if_splits)

text \<open>With distinct adapter ids, sorted order is a canonical form: compatibility is set equality.\<close>

lemma sort_key_eq_iff:
  assumes "distinct (map f xs)" and "distinct (map f ys)"
  shows "sort_key f xs = sort_key f ys \<longleftrightarrow> set xs = set ys"
proof
  assume "sort_key f xs = sort_key f ys"
  then show "set xs = set ys" by (metis set_sort)
next
  assume eq: "set xs = set ys"
  have inj: "inj_on f (set (sort_key f xs) \<union> set (sort_key f ys))"
    using assms(1) eq by (simp add: distinct_map)
  have d: "distinct (map f (sort_key f zs))" if "distinct (map f zs)" for zs
    using that by (simp add: distinct_map)
  show "sort_key f xs = sort_key f ys"
    by (rule map_sorted_distinct_set_unique[OF inj _ d[OF assms(1)] _ d[OF assms(2)]])
       (simp_all add: eq)
qed

lemma compatible_iff:
  assumes "manifest_validate m = Inr ()" and "manifest_validate n = Inr ()"
  shows "compatible_with m n \<longleftrightarrow>
    m_app_id m = m_app_id n \<and> m_schema_version m = m_schema_version n \<and>
    set (m_adapters m) = set (m_adapters n)"
  using assms by (auto simp: compatible_with_def manifest_validate_ok sort_key_eq_iff)

lemma compatible_refl [simp]: "compatible_with m m"
  by (simp add: compatible_with_def)

lemma compatible_sym: "compatible_with m n \<Longrightarrow> compatible_with n m"
  by (auto simp: compatible_with_def split: if_splits)

lemma compatible_trans: "compatible_with l m \<Longrightarrow> compatible_with m n \<Longrightarrow> compatible_with l n"
  by (auto simp: compatible_with_def split: if_splits)

lemma compatible_digest:
  assumes "compatible_with m n" and "manifest_validate m = Inr ()" and "manifest_validate n = Inr ()"
  shows "contract_digest json sha m = contract_digest json sha n"
  using assms by (auto simp: contract_digest_def compatible_with_def split: if_splits)

lemma with_code_descriptor:
  assumes "with_code (inv_descriptor i) m pin = Inr j"
  shows "j = i\<lparr>inv_metadata := m, inv_secret := pin\<rparr> \<and> inv_validate j = Inr ()"
  using assms by (auto simp: with_code_def inv_descriptor_def Let_def split: if_splits)

end
