(* ===== verification/Address.thy ===== *)
theory Address
  imports Prelude
begin

text \<open>
  \<open>std::net\<close> addresses with the order \<open>Vec::sort\<close> uses on them: IPv4 before IPv6, then the
  address, the port and, for IPv6, flow label and scope.
\<close>

datatype ip_addr = IpV4 u32 | IpV6 "128 word"

datatype socket_addr = SockV4 u32 "16 word" | SockV6 "128 word" "16 word" u32 u32

fun socket_key :: "socket_addr \<Rightarrow> nat list" where
  "socket_key (SockV4 ip port) = [0, unat ip, unat port]"
| "socket_key (SockV6 ip port flow scope) = [1, unat ip, unat port, unat flow, unat scope]"

lemma socket_key_inject [simp]: "socket_key a = socket_key b \<longleftrightarrow> a = b"
  by (cases a; cases b) (auto simp: word_unat_eq_iff)

instantiation socket_addr :: linorder
begin

definition less_eq_socket_addr :: "socket_addr \<Rightarrow> socket_addr \<Rightarrow> bool" where
  "less_eq_socket_addr a b \<longleftrightarrow> socket_key a \<le> socket_key b"

definition less_socket_addr :: "socket_addr \<Rightarrow> socket_addr \<Rightarrow> bool" where
  "less_socket_addr a b \<longleftrightarrow> socket_key a < socket_key b"

instance
  by standard
     (auto simp: less_eq_socket_addr_def less_socket_addr_def order.strict_iff_not dest: order.antisym)

end

fun sock_ip :: "socket_addr \<Rightarrow> ip_addr" where
  "sock_ip (SockV4 ip port) = IpV4 ip"
| "sock_ip (SockV6 ip port flow scope) = IpV6 ip"

fun sock_port :: "socket_addr \<Rightarrow> 16 word" where
  "sock_port (SockV4 ip port) = port"
| "sock_port (SockV6 ip port flow scope) = port"

fun sock_new :: "ip_addr \<Rightarrow> 16 word \<Rightarrow> socket_addr" where
  "sock_new (IpV4 ip) port = SockV4 ip port"
| "sock_new (IpV6 ip) port = SockV6 ip port 0 0"

fun sock_is_ipv4 :: "socket_addr \<Rightarrow> bool" where
  "sock_is_ipv4 (SockV4 ip port) = True"
| "sock_is_ipv4 (SockV6 ip port flow scope) = False"

definition sock_is_ipv6 :: "socket_addr \<Rightarrow> bool" where
  "sock_is_ipv6 a = (\<not> sock_is_ipv4 a)"

fun ip_is_unspecified :: "ip_addr \<Rightarrow> bool" where
  "ip_is_unspecified (IpV4 ip) = (ip = 0)"
| "ip_is_unspecified (IpV6 ip) = (ip = 0)"

fun ip_is_loopback :: "ip_addr \<Rightarrow> bool" where
  "ip_is_loopback (IpV4 ip) = (unat ip div 2 ^ 24 = 127)"
| "ip_is_loopback (IpV6 ip) = (ip = 1)"

fun ip_is_multicast :: "ip_addr \<Rightarrow> bool" where
  "ip_is_multicast (IpV4 ip) = (unat ip div 2 ^ 28 = 14)"
| "ip_is_multicast (IpV6 ip) = (unat ip div 2 ^ 120 = 255)"

text \<open>\<open>fe80::/10\<close>.\<close>

definition ip6_is_link_local :: "128 word \<Rightarrow> bool" where
  "ip6_is_link_local ip = (unat ip div 2 ^ 118 = 1018)"

definition localhost_v4 :: u32 where
  "localhost_v4 = 0x7F000001"

text \<open>\<open>sort\<close> then \<open>dedup\<close>.\<close>

definition sort_dedup :: "'a::linorder list \<Rightarrow> 'a list" where
  "sort_dedup xs = remdups_adj (sort xs)"

lemma set_sort_dedup [simp]: "set (sort_dedup xs) = set xs"
  by (simp add: sort_dedup_def)

lemma sort_dedup_strict: "sorted_wrt (<) (sort_dedup xs)"
proof -
  have "sorted ys \<Longrightarrow> distinct (remdups_adj ys)" for ys :: "'a list"
    by (induction ys rule: remdups_adj.induct) (auto simp: order.antisym)
  then show ?thesis by (simp add: sort_dedup_def strict_sorted_iff sorted_remdups_adj)
qed

lemma sort_dedup_Nil [simp]: "sort_dedup xs = [] \<longleftrightarrow> xs = []"
  by (metis set_empty set_sort_dedup)

lemma sort_dedup_unique: "sort_dedup xs = sort_dedup ys \<longleftrightarrow> set xs = set ys"
  using sort_dedup_strict[of xs] sort_dedup_strict[of ys]
  by (metis set_sort_dedup sorted_distinct_set_unique strict_sorted_iff)

end
