(* ===== verification/Wire.thy ===== *)
theory Wire
  imports Manifest Address
begin

text \<open>
  \<open>protocol.rs\<close>: the messages and their line framing. The JSON encoding of a message is
  serde_json's and enters as two functions; the byte stream under \<open>BufRead\<close> is its
  remaining bytes and how it ends (end of file, or an I/O error). A connection at the level
  of whole messages is a \<open>channel\<close>: the results the coming \<open>read_message\<close> calls give, the
  messages written, and the outcome of the coming writes.
\<close>

record managed_receipt =
  mr_epoch :: string
  mr_sequence :: u64
  mr_proof :: bytes

datatype ack_disposition = Stored | Applied

record pair_hello =
  ph_version :: u32
  ph_invitation_id :: string
  ph_identity :: identity
  ph_metadata :: device_metadata
  ph_client_fingerprint :: string
  ph_server_fingerprint :: string
  ph_pake :: bytes

record pair_challenge =
  pch_identity :: identity
  pch_metadata :: device_metadata
  pch_pake :: bytes
  pch_confirmation :: bytes

record pairing_outcome =
  po_invitation_id :: string
  po_identity :: identity
  po_metadata :: device_metadata
  po_fingerprint :: string

datatype message =
    Hello identity u32
  | LinkRequest identity "bytes option" "string option"
  | LinkResponse identity bool "bytes option"
  | PairHello pair_hello
  | PairChallenge pair_challenge
  | PairConfirm bytes
  | PairReady bytes
  | PairPrepared bytes
  | PairAccepted bytes bytes
  | PairCommit bytes
  | PairComplete
  | PairRecover string identity
  | PairRecovered identity device_metadata bytes
  | ManagedHello identity device_metadata managed_receipt managed_receipt "socket_addr list"
  | ManagedDelta bytes
  | ManagedAck managed_receipt ack_disposition
  | ManagedPending
  | SnapshotRequest
  | Snapshot "entry list"
  | Ack
  | SnapshotSince u64 string
  | Delta "entry list" u64 string u64 string bool

definition protocol_version :: u32 where
  "protocol_version = 2"

definition hello :: "identity \<Rightarrow> message" where
  "hello i = Hello i protocol_version"

definition max_message_bytes :: nat where
  "max_message_bytes = 256 * 1024 * 1024"

section \<open>Line framing\<close>

record byte_stream =
  bs_data :: string
  bs_end :: "(io_kind \<times> string) option"

record message_json =
  to_json :: "message \<Rightarrow> string result"
  from_json :: "string \<Rightarrow> message result"

text \<open>\<open>write_message\<close> on a writer that takes every byte: the bytes it appends.\<close>

definition write_message :: "message_json \<Rightarrow> message \<Rightarrow> string \<Rightarrow> string result" where
  "write_message js m written =
     bindR (to_json js m) (\<lambda>serialized. Inr (written @ serialized @ [CHR 0x0A]))"

text \<open>\<open>BufRead::read_line\<close> stops after the first newline, at most at the given length.\<close>

fun line_of :: "string \<Rightarrow> string" where
  "line_of [] = []"
| "line_of (c # s) = (if c = CHR 0x0A then [c] else c # line_of s)"

definition read_line_limited ::
  "nat \<Rightarrow> byte_stream \<Rightarrow> string result \<times> byte_stream" where
  "read_line_limited limit s =
     (let line = line_of (take limit (bs_data s));
          s' = s\<lparr>bs_data := drop (length line) (bs_data s)\<rparr>;
          ended = (line = [] \<or> last line \<noteq> CHR 0x0A) \<and> length line < limit
      in case (if ended then bs_end s else None) of
           Some (kind, tx) \<Rightarrow> (Inl (Io kind tx), s')
         | None \<Rightarrow> (if valid_utf8 line then (Inr line, s')
                   else (Inl (Io OtherKind ''stream did not contain valid UTF-8''), s')))"

definition trim_line :: "string \<Rightarrow> string" where
  "trim_line s = rev (dropWhile (\<lambda>c. c = CHR 0x0A \<or> c = CHR 0x0D) (rev s))"

definition read_message_with_limit ::
  "message_json \<Rightarrow> nat \<Rightarrow> byte_stream \<Rightarrow> message result \<times> byte_stream" where
  "read_message_with_limit js limit s =
     (case read_line_limited limit s of
        (Inl err, s') \<Rightarrow> (Inl err, s')
      | (Inr line, s') \<Rightarrow>
          if line = [] then (Inl (Protocol ''unexpected EOF''), s')
          else if last line \<noteq> CHR 0x0A \<and> limit \<le> length line
          then (Inl (Protocol (''message exceeds '' @ show_nat limit @ '' bytes'')), s')
          else (from_json js (trim_line line), s'))"

definition read_message :: "message_json \<Rightarrow> byte_stream \<Rightarrow> message result \<times> byte_stream" where
  "read_message js s = read_message_with_limit js max_message_bytes s"

lemma line_of_append: "CHR 0x0A \<notin> set s \<Longrightarrow> line_of (s @ CHR 0x0A # t) = s @ [CHR 0x0A]"
  by (induction s) auto

lemma length_line_of: "length (line_of s) \<le> length s"
  by (induction s) auto

lemma line_of_prefix: "\<exists>t. s = line_of s @ t"
  by (induction s) auto

lemma valid_utf8_append: "valid_utf8 s \<Longrightarrow> valid_utf8 t \<Longrightarrow> valid_utf8 (s @ t)"
proof (induction s rule: length_induct)
  case (1 s)
  show ?case
  proof (cases s)
    case (Cons a s')
    have IH: "length u < length s \<Longrightarrow> valid_utf8 u \<Longrightarrow> valid_utf8 (u @ t)" for u
      using 1 by blast
    consider "code a < 128" | "\<not> code a < 194" "code a < 224"
      | "\<not> code a < 224" "code a < 240" | "\<not> code a < 240" "code a < 245"
      using 1(2) Cons by (fastforce split: if_splits)
    then show ?thesis
    proof cases
      case 1
      then show ?thesis using IH[of s'] \<open>valid_utf8 s\<close> Cons by simp
    next
      case 2
      with \<open>valid_utf8 s\<close> Cons obtain b u where "s' = b # u" "utf8_cont b" "valid_utf8 u"
        by (cases s') auto
      then show ?thesis using IH[of u] Cons 2 by simp
    next
      case 3
      with \<open>valid_utf8 s\<close> Cons obtain b c u where
        "s' = b # c # u" "utf8_second a b" "utf8_cont c" "valid_utf8 u"
        by (auto split: list.splits)
      then show ?thesis using IH[of u] Cons 3 by simp
    next
      case 4
      with \<open>valid_utf8 s\<close> Cons obtain b c d u where
        "s' = b # c # d # u" "utf8_second a b" "utf8_cont c" "utf8_cont d" "valid_utf8 u"
        by (auto split: list.splits)
      then show ?thesis using IH[of u] Cons 4 by simp
    qed
  qed (use 1 in simp)
qed

lemma valid_utf8_snoc_newline: "valid_utf8 s \<Longrightarrow> valid_utf8 (s @ [CHR 0x0A])"
  by (rule valid_utf8_append) simp_all

lemma trim_line_newline:
  "s = [] \<or> last s \<notin> {CHR 0x0A, CHR 0x0D} \<Longrightarrow> trim_line (s @ [CHR 0x0A]) = s"
  by (cases s rule: rev_cases) (auto simp: trim_line_def)

text \<open>What the framing needs of the JSON text: one line of UTF-8 that decodes to the message.\<close>

definition json_line :: "message_json \<Rightarrow> message \<Rightarrow> string \<Rightarrow> bool" where
  "json_line js m tx \<longleftrightarrow>
     to_json js m = Inr tx \<and> from_json js tx = Inr m \<and> valid_utf8 tx \<and>
     CHR 0x0A \<notin> set tx \<and> (tx = [] \<or> last tx \<noteq> CHR 0x0D)"

lemma read_write_message:
  assumes "json_line js m tx" and "length tx < limit"
    and "write_message js m [] = Inr out"
  shows "read_message_with_limit js limit \<lparr>bs_data = out @ rest, bs_end = e\<rparr> =
    (Inr m, \<lparr>bs_data = rest, bs_end = e\<rparr>)"
proof -
  have out: "out = tx @ [CHR 0x0A]"
    using assms(1,3) by (auto simp: write_message_def json_line_def)
  have "take limit (out @ rest) = tx @ CHR 0x0A # take (limit - Suc (length tx)) rest"
    using assms(2) by (simp add: out take_Cons')
  then have line: "line_of (take limit (out @ rest)) = tx @ [CHR 0x0A]"
    using assms(1) by (simp add: line_of_append json_line_def)
  have "tx = [] \<or> last tx \<notin> {CHR 0x0A, CHR 0x0D}"
  proof (cases "tx = []")
    case False
    then have "last tx \<in> set tx" by simp
    then have "last tx \<noteq> CHR 0x0A" using assms(1) by (auto simp: json_line_def)
    then show ?thesis using assms(1) by (simp add: json_line_def)
  qed simp
  then have "trim_line (tx @ [CHR 0x0A]) = tx" by (rule trim_line_newline)
  then show ?thesis
    using assms(1,2) line
    by (simp add: read_message_with_limit_def read_line_limited_def Let_def out
        valid_utf8_snoc_newline json_line_def)
qed

text \<open>A read takes at most \<open>limit\<close> bytes off the stream, whatever the peer sent.\<close>

lemma read_message_bounded:
  assumes "read_message_with_limit js limit s = (r, s')"
  shows "\<exists>taken. bs_data s = taken @ bs_data s' \<and> length taken \<le> limit"
proof -
  let ?l = "line_of (take limit (bs_data s))"
  obtain t where "take limit (bs_data s) = ?l @ t" using line_of_prefix by metis
  then have "bs_data s = ?l @ t @ drop limit (bs_data s)"
    by (metis append.assoc append_take_drop_id)
  then have split: "bs_data s = ?l @ drop (length ?l) (bs_data s)"
    by (metis append_eq_conv_conj)
  have "length ?l \<le> limit" using length_line_of[of "take limit (bs_data s)"] by simp
  moreover have "bs_data s' = drop (length ?l) (bs_data s)"
    using assms
    by (auto simp: read_message_with_limit_def read_line_limited_def Let_def
        split: if_splits option.splits prod.splits sum.splits)
  ultimately show ?thesis using split by metis
qed

section \<open>Channels\<close>

record channel =
  ch_in :: "message result list"
  ch_out :: "message list"
  ch_faults :: "error option list"

definition chan_read :: "channel \<Rightarrow> message result \<times> channel" where
  "chan_read ch =
     (case ch_in ch of
        [] \<Rightarrow> (Inl (Protocol ''unexpected EOF''), ch)
      | r # rest \<Rightarrow> (r, ch\<lparr>ch_in := rest\<rparr>))"

definition chan_write :: "message \<Rightarrow> channel \<Rightarrow> unit result \<times> channel" where
  "chan_write m ch =
     (case ch_faults ch of
        Some err # rest \<Rightarrow> (Inl err, ch\<lparr>ch_faults := rest\<rparr>)
      | _ \<Rightarrow> (Inr (), ch\<lparr>ch_out := ch_out ch @ [m], ch_faults := drop 1 (ch_faults ch)\<rparr>))"

lemma chan_read_out [simp]: "ch_out (snd (chan_read ch)) = ch_out ch"
  by (simp add: chan_read_def split: list.splits)

lemma chan_write_out:
  "ch_out (snd (chan_write m ch)) = ch_out ch @ (case fst (chan_write m ch) of Inl _ \<Rightarrow> [] | Inr _ \<Rightarrow> [m])"
  by (simp add: chan_write_def split: list.splits option.splits)

end
