(* ===== verification/Pairing_Manager.thy ===== *)
theory Pairing_Manager
  imports Manifest
begin

text \<open>
  \<open>PairingManager\<close> of \<open>pairing.rs\<close>: the open invitations behind a mutex. Every method is
  one critical section. Readings of the system clock (\<open>now\<close>, which fails before the Unix
  epoch) and random bytes are arguments, one per call the code makes; durations are
  nanoseconds. \<open>pm_poisoned\<close> says whether a thread panicked while holding the lock.
\<close>

type_synonym reading = "u64 result"

record invitation_state =
  is_invitation :: pairing_invitation
  is_attempts :: u8
  is_claimed :: bool

record pairing_manager =
  pm_poisoned :: bool
  pm_invitations :: "(string, invitation_state) bmap"

definition max_ttl :: nat where
  "max_ttl = 300 * 1000000000"

definition ttl_secs :: "nat \<Rightarrow> u64" where
  "ttl_secs ttl = of_nat (ttl div 1000000000)"

definition sat_add :: "u64 \<Rightarrow> u64 \<Rightarrow> u64" where
  "sat_add a b = (if unat a + unat b < 2 ^ 64 then a + b else u64_max)"

definition pm_new :: pairing_manager where
  "pm_new = \<lparr>pm_poisoned = False, pm_invitations = []\<rparr>"

definition pm_lock :: "pairing_manager \<Rightarrow> (string, invitation_state) bmap result" where
  "pm_lock m =
     (if pm_poisoned m then Inl (Protocol ''pairing lock poisoned'') else Inr (pm_invitations m))"

definition random_hex :: "bytes \<Rightarrow> string" where
  "random_hex rnd = concat (map hex_byte rnd)"

text \<open>\<open>create\<close>: \<open>t1\<close> and \<open>t2\<close> are its two clock readings, \<open>rnd\<close> its 16 random bytes.\<close>

definition pm_create ::
  "bytes \<Rightarrow> reading \<Rightarrow> reading \<Rightarrow> device_metadata \<Rightarrow> string \<Rightarrow> nat \<Rightarrow> string \<Rightarrow>
   pairing_manager \<Rightarrow> pairing_invitation result \<times> pairing_manager" where
  "pm_create rnd t1 t2 metadata fingerprint ttl secret m =
     (if ttl = 0 \<or> max_ttl < ttl
      then (pair_fail ''invitation lifetime must be at most five minutes'', m)
      else case t1 of Inl err \<Rightarrow> (Inl err, m) | Inr now1 \<Rightarrow>
        let i = \<lparr>inv_version = pairing_version, inv_id = random_hex rnd,
                 inv_fingerprint = fingerprint, inv_metadata = metadata,
                 inv_expires_at = sat_add now1 (ttl_secs ttl), inv_secret = secret\<rparr>
        in case inv_validate i of Inl err \<Rightarrow> (Inl err, m) | Inr _ \<Rightarrow>
           case pm_lock m of Inl err \<Rightarrow> (Inl err, m) | Inr entries \<Rightarrow>
           case t2 of Inl err \<Rightarrow> (Inl err, m) | Inr time \<Rightarrow>
             let kept = bm_retain (\<lambda>_ e. time < inv_expires_at (is_invitation e)) entries
             in if 16 \<le> length kept
                then (pair_fail ''too many active invitations'', m\<lparr>pm_invitations := kept\<rparr>)
                else (Inr i, m\<lparr>pm_invitations :=
                        bm_insert (inv_id i)
                          \<lparr>is_invitation = i, is_attempts = 0, is_claimed = False\<rparr> kept\<rparr>))"

definition pm_create_invitation ::
  "bytes \<Rightarrow> bytes \<Rightarrow> reading \<Rightarrow> reading \<Rightarrow> device_metadata \<Rightarrow> string \<Rightarrow> nat \<Rightarrow>
   pairing_manager \<Rightarrow> pairing_invitation result \<times> pairing_manager" where
  "pm_create_invitation rnd32 rnd16 t1 t2 metadata fingerprint ttl m =
     pm_create rnd16 t1 t2 metadata fingerprint ttl (random_hex rnd32) m"

text \<open>
  Rejection sampling over the draws of \<open>OsRng::next_u32\<close>. The loop has no bound of its own;
  \<open>None\<close> means every draw given was rejected.
\<close>

fun code_number :: "u32 list \<Rightarrow> u32 option" where
  "code_number [] = None"
| "code_number (n # draws) =
     (if n < 4294967295 - (4294967295 mod 1000000) then Some (n mod 1000000)
      else code_number draws)"

text \<open>\<open>format!("{number:06}")\<close> for a number below a million.\<close>

definition format06 :: "u32 \<Rightarrow> string" where
  "format06 n =
     map (\<lambda>p. digit (unat n div p mod 10)) [100000, 10000, 1000, 100, 10, 1]"

definition pm_create_code_invitation ::
  "u32 list \<Rightarrow> bytes \<Rightarrow> reading \<Rightarrow> reading \<Rightarrow> device_metadata \<Rightarrow> string \<Rightarrow> nat \<Rightarrow>
   pairing_manager \<Rightarrow> (pairing_invitation result \<times> pairing_manager) option" where
  "pm_create_code_invitation draws rnd t1 t2 metadata fingerprint ttl m =
     map_option (\<lambda>n. pm_create rnd t1 t2 metadata fingerprint ttl (format06 n) m)
       (code_number draws)"

definition pm_revoke :: "string \<Rightarrow> pairing_manager \<Rightarrow> unit result \<times> pairing_manager" where
  "pm_revoke ident m =
     (case pm_lock m of
        Inl err \<Rightarrow> (Inl err, m)
      | Inr entries \<Rightarrow> (Inr (), m\<lparr>pm_invitations := bm_remove ident entries\<rparr>))"

definition pm_close :: "pairing_manager \<Rightarrow> unit result \<times> pairing_manager" where
  "pm_close m =
     (case pm_lock m of
        Inl err \<Rightarrow> (Inl err, m)
      | Inr entries \<Rightarrow> (Inr (), m\<lparr>pm_invitations := []\<rparr>))"

definition pm_is_open :: "string \<Rightarrow> reading \<Rightarrow> pairing_manager \<Rightarrow> bool" where
  "pm_is_open ident t m =
     (case pm_lock m of
        Inl _ \<Rightarrow> False
      | Inr entries \<Rightarrow>
          (case bm_get entries ident of
             None \<Rightarrow> False
           | Some e \<Rightarrow> is_attempts e < 5 \<and> \<not> is_claimed e \<and>
               (case t of Inl _ \<Rightarrow> False | Inr now \<Rightarrow> now < inv_expires_at (is_invitation e))))"

definition pm_claim ::
  "string \<Rightarrow> reading \<Rightarrow> pairing_manager \<Rightarrow> pairing_invitation result \<times> pairing_manager" where
  "pm_claim ident t m =
     (case pm_lock m of Inl err \<Rightarrow> (Inl err, m) | Inr entries \<Rightarrow>
      case bm_get entries ident of
        None \<Rightarrow> (Inl (Protocol ''pairing closed or invitation consumed''), m)
      | Some e \<Rightarrow>
          if is_claimed e \<or> 5 \<le> is_attempts e then (pair_fail ''invitation unavailable'', m)
          else case t of Inl err \<Rightarrow> (Inl err, m) | Inr now \<Rightarrow>
            if inv_expires_at (is_invitation e) \<le> now
            then (pair_fail ''invitation unavailable'', m)
            else (Inr (is_invitation e),
                  m\<lparr>pm_invitations :=
                      bm_update ident (\<lambda>e. e\<lparr>is_attempts := is_attempts e + 1, is_claimed := True\<rparr>)
                        entries\<rparr>))"

definition pm_release :: "string \<Rightarrow> pairing_manager \<Rightarrow> pairing_manager" where
  "pm_release ident m =
     (case pm_lock m of
        Inl _ \<Rightarrow> m
      | Inr entries \<Rightarrow>
          m\<lparr>pm_invitations := bm_update ident (\<lambda>e. e\<lparr>is_claimed := False\<rparr>) entries\<rparr>)"

text \<open>The callback runs under the lock; it acts on a state of its own, \<open>'x\<close>.\<close>

definition pm_commit ::
  "string \<Rightarrow> reading \<Rightarrow> ('x \<Rightarrow> 'v result \<times> 'x) \<Rightarrow> pairing_manager \<Rightarrow> 'x \<Rightarrow>
   'v result \<times> pairing_manager \<times> 'x" where
  "pm_commit ident t callback m x =
     (case pm_lock m of Inl err \<Rightarrow> (Inl err, m, x) | Inr entries \<Rightarrow>
      case bm_get entries ident of
        None \<Rightarrow> (Inl (Protocol ''invitation revoked''), m, x)
      | Some e \<Rightarrow>
          if \<not> is_claimed e then (pair_fail ''invitation expired'', m, x)
          else case t of Inl err \<Rightarrow> (Inl err, m, x) | Inr now \<Rightarrow>
            if inv_expires_at (is_invitation e) \<le> now
            then (pair_fail ''invitation expired'', m, x)
            else case callback x of
              (Inl err, x') \<Rightarrow> (Inl err, m, x')
            | (Inr v, x') \<Rightarrow> (Inr v, m\<lparr>pm_invitations := bm_remove ident entries\<rparr>, x'))"

section \<open>Invariant\<close>

definition pm_ok :: "pairing_manager \<Rightarrow> bool" where
  "pm_ok m \<longleftrightarrow>
     bm_ok (pm_invitations m) \<and> length (pm_invitations m) \<le> 16 \<and>
     (\<forall>k e. bm_get (pm_invitations m) k = Some e \<longrightarrow>
        inv_id (is_invitation e) = k \<and> is_attempts e \<le> 5 \<and>
        inv_validate (is_invitation e) = Inr ())"

lemma length_bm_insert: "length (bm_insert k v m) \<le> Suc (length m)"
  by (induction m) auto

lemma length_bm_update [simp]: "length (bm_update k f m) = length m"
  by (simp add: bm_update_def)

lemma pm_ok_new: "pm_ok pm_new"
  by (simp add: pm_ok_def pm_new_def)

lemma length_bm_retain: "length (bm_retain P m) \<le> length m"
  by (simp add: bm_retain_def)

lemma length_bm_remove: "length (bm_remove k m) \<le> length m"
  by (simp add: bm_remove_def length_bm_retain)

lemma pm_ok_retain: "pm_ok m \<Longrightarrow> pm_ok (m\<lparr>pm_invitations := bm_retain P (pm_invitations m)\<rparr>)"
  by (auto simp: pm_ok_def bm_get_retain intro: bm_ok_retain order_trans[OF length_bm_retain]
      split: option.splits if_splits)

lemma pm_ok_remove: "pm_ok m \<Longrightarrow> pm_ok (m\<lparr>pm_invitations := bm_remove k (pm_invitations m)\<rparr>)"
  by (auto simp: pm_ok_def bm_get_remove intro: bm_ok_remove order_trans[OF length_bm_remove])

lemma pm_ok_update:
  assumes "pm_ok m"
    and "\<And>e. bm_get (pm_invitations m) k = Some e \<Longrightarrow>
           is_invitation (f e) = is_invitation e \<and> is_attempts (f e) \<le> 5"
  shows "pm_ok (m\<lparr>pm_invitations := bm_update k f (pm_invitations m)\<rparr>)"
  using assms by (fastforce simp: pm_ok_def bm_get_update intro: bm_ok_update)

lemma pm_lock_Inr [simp]: "pm_lock m = Inr e \<longleftrightarrow> \<not> pm_poisoned m \<and> e = pm_invitations m"
  by (auto simp: pm_lock_def)

lemma attempts_inc: "\<not> 5 \<le> (a :: u8) \<Longrightarrow> a + 1 \<le> 5 \<and> unat (a + 1) = Suc (unat a)"
proof -
  assume "\<not> 5 \<le> a"
  then have "unat a < 5" by (simp add: word_le_nat_alt)
  then have "unat (a + 1) = Suc (unat a)" by (simp add: unat_plus_if')
  with \<open>unat a < 5\<close> show ?thesis by (simp add: word_le_nat_alt)
qed

lemma pm_create_cases:
  assumes "pm_create rnd t1 t2 md fp ttl secret m = (r, m')"
  obtains (same) e where "r = Inl e" "m' = m"
  | (full) P e where "r = Inl e" "m' = m\<lparr>pm_invitations := bm_retain P (pm_invitations m)\<rparr>"
  | (made) P i kept where "r = Inr i" "inv_validate i = Inr ()"
      "kept = bm_retain P (pm_invitations m)" "length kept < 16"
      "m' = m\<lparr>pm_invitations :=
         bm_insert (inv_id i) \<lparr>is_invitation = i, is_attempts = 0, is_claimed = False\<rparr> kept\<rparr>"
proof -
  note eq = assms[unfolded pm_create_def Let_def]
  show ?thesis
  proof (cases "ttl = 0 \<or> max_ttl < ttl")
    case True
    with eq show ?thesis by (intro same) (auto simp: pair_fail_def fail_code_def)
  next
    case ttl: False
    show ?thesis
    proof (cases t1)
      case (Inl e)
      with eq ttl show ?thesis by (intro same) auto
    next
      case t1: (Inr now1)
      let ?i = "\<lparr>inv_version = pairing_version, inv_id = random_hex rnd, inv_fingerprint = fp,
        inv_metadata = md, inv_expires_at = sat_add now1 (ttl_secs ttl), inv_secret = secret\<rparr>"
      show ?thesis
      proof (cases "inv_validate ?i")
        case (Inl e)
        with eq ttl t1 show ?thesis by (intro same) auto
      next
        case valid: (Inr u)
        show ?thesis
        proof (cases "pm_lock m")
          case (Inl e)
          with eq ttl t1 valid show ?thesis by (intro same) auto
        next
          case lock: (Inr entries)
          then have entries: "entries = pm_invitations m" by (simp add: pm_lock_def split: if_splits)
          show ?thesis
          proof (cases t2)
            case (Inl e)
            with eq ttl t1 valid lock show ?thesis by (intro same) auto
          next
            case t2: (Inr time)
            let ?P = "\<lambda>_ e. time < inv_expires_at (is_invitation e)"
            show ?thesis
            proof (cases "16 \<le> length (bm_retain ?P entries)")
              case True
              with eq ttl t1 valid lock t2 entries show ?thesis
                by (intro full[of _ ?P]) (auto simp: pair_fail_def)
            next
              case False
              with eq ttl t1 valid lock t2 entries show ?thesis
                by (intro made[of ?i "bm_retain ?P entries" ?P]) (auto simp: not_le)
            qed
          qed
        qed
      qed
    qed
  qed
qed

lemma pm_ok_create:
  assumes "pm_ok m" and "pm_create rnd t1 t2 md fp ttl secret m = (r, m')"
  shows "pm_ok m'"
  using assms(2)
proof (cases rule: pm_create_cases)
  case full
  then show ?thesis using assms(1) pm_ok_retain by simp
next
  case (made P i kept)
  let ?n = "m\<lparr>pm_invitations := kept\<rparr>"
  have n: "pm_ok ?n" using assms(1) made(3) pm_ok_retain by simp
  have "length (pm_invitations m') \<le> 16"
    using made(4,5) length_bm_insert[of "inv_id i" _ kept] by (simp add: le_less_trans Suc_le_eq)
       (meson Suc_le_eq le_trans)
  then show ?thesis
    using n made(2,5) by (auto simp: pm_ok_def bm_get_insert intro: bm_ok_insert)
qed (use assms in simp)

lemma pm_claim_ok:
  assumes "pm_claim k t m = (Inr i, m')"
  obtains e now where "bm_get (pm_invitations m) k = Some e" "i = is_invitation e"
    "\<not> is_claimed e" "\<not> 5 \<le> is_attempts e" "t = Inr now" "now < inv_expires_at i"
    "m' = m\<lparr>pm_invitations := bm_update k
        (\<lambda>e. e\<lparr>is_attempts := is_attempts e + 1, is_claimed := True\<rparr>) (pm_invitations m)\<rparr>"
  using assms by (auto simp: pm_claim_def not_le split: if_splits sum.splits option.splits)

lemma pm_claim_err: "pm_claim k t m = (Inl e, m') \<Longrightarrow> m' = m"
  by (auto simp: pm_claim_def split: if_splits sum.splits option.splits)

lemma pm_commit_ok:
  assumes "pm_commit k t cb m x = (Inr v, m', x')"
  obtains e now where "bm_get (pm_invitations m) k = Some e" "is_claimed e" "t = Inr now"
    "now < inv_expires_at (is_invitation e)" "cb x = (Inr v, x')"
    "m' = m\<lparr>pm_invitations := bm_remove k (pm_invitations m)\<rparr>"
  using assms by (auto simp: pm_commit_def not_le split: if_splits sum.splits option.splits prod.splits)

lemma pm_commit_err: "pm_commit k t cb m x = (Inl e, m', x') \<Longrightarrow> m' = m"
  by (auto simp: pm_commit_def split: if_splits sum.splits option.splits prod.splits)

section \<open>Interleavings of the manager's methods\<close>

datatype pm_event = Created string | Claimed string | Committed string | Other

inductive pm_step :: "pairing_manager \<Rightarrow> pm_event \<Rightarrow> pairing_manager \<Rightarrow> bool" where
  create: "pm_create rnd t1 t2 md fp ttl secret m = (Inr i, m') \<Longrightarrow> pm_step m (Created (inv_id i)) m'"
| create_failed: "pm_create rnd t1 t2 md fp ttl secret m = (Inl e, m') \<Longrightarrow> pm_step m Other m'"
| claim: "pm_claim k t m = (Inr i, m') \<Longrightarrow> pm_step m (Claimed k) m'"
| claim_failed: "pm_claim k t m = (Inl e, m') \<Longrightarrow> pm_step m Other m'"
| commit: "pm_commit k t cb m (x :: unit) = (Inr (v :: unit), m', x') \<Longrightarrow> pm_step m (Committed k) m'"
| commit_failed:
    "pm_commit k t cb m (x :: unit) = (Inl e :: unit result, m', x') \<Longrightarrow> pm_step m Other m'"
| release: "pm_step m Other (pm_release k m)"
| revoke: "pm_step m Other (snd (pm_revoke k m))"
| close: "pm_step m Other (snd (pm_close m))"

inductive pm_run :: "pairing_manager \<Rightarrow> pm_event list \<Rightarrow> pairing_manager \<Rightarrow> bool" where
  stop: "pm_run m [] m"
| more: "pm_step m ev m' \<Longrightarrow> pm_run m' evs m'' \<Longrightarrow> pm_run m (ev # evs) m''"

lemma pm_step_ok: "pm_step m ev m' \<Longrightarrow> pm_ok m \<Longrightarrow> pm_ok m'"
proof (induction rule: pm_step.induct)
  case (claim k t m i m')
  then show ?case
    by (elim pm_claim_ok) (auto intro!: pm_ok_update dest: attempts_inc)
next
  case (release m k)
  have "pm_ok (m\<lparr>pm_invitations := bm_update k (\<lambda>e. e\<lparr>is_claimed := False\<rparr>) (pm_invitations m)\<rparr>)"
    by (rule pm_ok_update[OF release]) (use release in \<open>auto simp: pm_ok_def\<close>)
  then show ?case using release by (auto simp: pm_release_def split: sum.splits)
next
  case (commit k t cb m x v m' x')
  then show ?case by (elim pm_commit_ok) (simp add: pm_ok_remove)
qed (auto simp: pm_revoke_def pm_close_def pm_ok_remove pm_ok_def[of "_\<lparr>pm_invitations := []\<rparr>"]
      dest: pm_ok_create pm_claim_err pm_commit_err split: sum.splits)

lemma pm_run_ok: "pm_run m evs m' \<Longrightarrow> pm_ok m \<Longrightarrow> pm_ok m'"
  by (induction rule: pm_run.induct) (auto dest: pm_step_ok)

text \<open>What is left of an invitation: the attempts it may still take, none when it is gone.\<close>

definition attempts_left :: "pairing_manager \<Rightarrow> string \<Rightarrow> nat" where
  "attempts_left m k =
     (case bm_get (pm_invitations m) k of None \<Rightarrow> 0 | Some e \<Rightarrow> 5 - unat (is_attempts e))"

definition claims_of :: "string \<Rightarrow> pm_event list \<Rightarrow> nat" where
  "claims_of k evs = length (filter (\<lambda>ev. ev = Claimed k) evs)"

definition commits_of :: "string \<Rightarrow> pm_event list \<Rightarrow> nat" where
  "commits_of k evs = length (filter (\<lambda>ev. ev = Committed k) evs)"

lemma attempts_left_retain:
  "bm_ok (pm_invitations m) \<Longrightarrow>
   attempts_left (m\<lparr>pm_invitations := bm_retain P (pm_invitations m)\<rparr>) k \<le> attempts_left m k"
  by (auto simp: attempts_left_def bm_get_retain split: option.splits)

lemma attempts_left_remove:
  "attempts_left (m\<lparr>pm_invitations := bm_remove j (pm_invitations m)\<rparr>) k \<le> attempts_left m k"
  by (simp add: attempts_left_def bm_get_remove)

lemma pm_step_budget:
  assumes "pm_step m ev m'" and "pm_ok m" and "ev \<noteq> Created k"
  shows "(if ev = Claimed k then 1 else 0) + attempts_left m' k \<le> attempts_left m k"
  using assms
proof (induction rule: pm_step.induct)
  case (create rnd t1 t2 md fp ttl secret m i m')
  from create(1) show ?case
  proof (cases rule: pm_create_cases)
    case (made P j kept)
    have "attempts_left m' k = attempts_left (m\<lparr>pm_invitations := kept\<rparr>) k"
      using create(3) made(1,5) by (auto simp: attempts_left_def bm_get_insert)
    then show ?thesis
      using made(3) create(2) attempts_left_retain[of m P k] by (simp add: pm_ok_def)
  qed simp_all
next
  case (create_failed rnd t1 t2 md fp ttl secret m e m')
  from create_failed(1) show ?case
    by (cases rule: pm_create_cases)
       (use create_failed(2) attempts_left_retain in \<open>auto simp: pm_ok_def\<close>)
next
  case (claim j t m i m')
  from claim(1) show ?case
  proof (cases rule: pm_claim_ok)
    case (1 e now)
    have "unat (is_attempts e) < 5" using 1(4) by (simp add: word_le_nat_alt)
    with 1 attempts_inc[OF 1(4)] show ?thesis
      by (auto simp: attempts_left_def bm_get_update)
  qed
next
  case (commit j t cb m x v m' x')
  from commit(1) show ?case
    by (cases rule: pm_commit_ok) (simp add: attempts_left_remove)
next
  case (release m j)
  show ?case
    by (auto simp: pm_release_def attempts_left_def bm_get_update split: sum.splits option.splits)
next
  case (revoke m j)
  show ?case by (auto simp: pm_revoke_def attempts_left_remove split: sum.splits)
next
  case (close m)
  show ?case by (auto simp: pm_close_def attempts_left_def split: sum.splits)
qed (auto dest: pm_claim_err pm_commit_err)

lemma pm_run_budget:
  "pm_run m evs m' \<Longrightarrow> pm_ok m \<Longrightarrow> Created k \<notin> set evs \<Longrightarrow>
   claims_of k evs + attempts_left m' k \<le> attempts_left m k"
proof (induction rule: pm_run.induct)
  case (more m ev m' evs m'')
  have "(if ev = Claimed k then 1 else 0) + attempts_left m' k \<le> attempts_left m k"
    by (rule pm_step_budget) (use more in auto)
  moreover have "claims_of k evs + attempts_left m'' k \<le> attempts_left m' k"
    using more pm_step_ok by simp
  ultimately show ?case by (simp add: claims_of_def split: if_splits)
qed (simp add: claims_of_def)

text \<open>Present or not: a commit takes the invitation away, and nothing but a creation brings it back.\<close>

definition present :: "pairing_manager \<Rightarrow> string \<Rightarrow> nat" where
  "present m k = (if bm_has (pm_invitations m) k then 1 else 0)"

lemma present_eq: "present m k = (case bm_get (pm_invitations m) k of None \<Rightarrow> 0 | Some _ \<Rightarrow> 1)"
  by (simp add: present_def bm_has_def split: option.splits)

lemma pm_step_present:
  assumes "pm_step m ev m'" and "pm_ok m" and "ev \<noteq> Created k"
  shows "(if ev = Committed k then 1 else 0) + present m' k \<le> present m k"
  using assms
proof (induction rule: pm_step.induct)
  case (create rnd t1 t2 md fp ttl secret m i m')
  from create(1) show ?case
  proof (cases rule: pm_create_cases)
    case (made P j kept)
    then show ?thesis
      using create(2,3)
      by (auto simp: present_eq bm_get_insert bm_get_retain pm_ok_def split: option.splits)
  qed simp_all
next
  case (create_failed rnd t1 t2 md fp ttl secret m e m')
  from create_failed(1) show ?case
    by (cases rule: pm_create_cases)
       (use create_failed(2) in \<open>auto simp: present_eq bm_get_retain pm_ok_def split: option.splits\<close>)
next
  case (claim j t m i m')
  from claim(1) show ?case
    by (cases rule: pm_claim_ok) (auto simp: present_eq bm_get_update split: option.splits)
next
  case (commit j t cb m x v m' x')
  from commit(1) show ?case
    by (cases rule: pm_commit_ok) (auto simp: present_eq bm_get_remove)
next
  case (release m j)
  show ?case
    by (auto simp: pm_release_def present_eq bm_get_update split: sum.splits option.splits)
next
  case (revoke m j)
  show ?case by (auto simp: pm_revoke_def present_eq bm_get_remove split: sum.splits)
next
  case (close m)
  show ?case by (auto simp: pm_close_def present_eq split: sum.splits)
qed (auto dest: pm_claim_err pm_commit_err)

lemma pm_run_present:
  "pm_run m evs m' \<Longrightarrow> pm_ok m \<Longrightarrow> Created k \<notin> set evs \<Longrightarrow>
   commits_of k evs + present m' k \<le> present m k"
proof (induction rule: pm_run.induct)
  case (more m ev m' evs m'')
  have "(if ev = Committed k then 1 else 0) + present m' k \<le> present m k"
    by (rule pm_step_present) (use more in auto)
  moreover have "commits_of k evs + present m'' k \<le> present m' k"
    using more pm_step_ok by simp
  ultimately show ?case by (simp add: commits_of_def split: if_splits)
qed (simp add: commits_of_def)

section \<open>Six-digit codes\<close>

lemma format06_digits: "length (format06 n) = 6 \<and> list_all is_ascii_digit (format06 n)"
proof -
  have "is_ascii_digit (digit (k mod 10))" for k
    using code_digit[of k] mod_less_divisor[of 10 k] by (simp add: is_ascii_digit_def)
  then show ?thesis by (simp add: format06_def)
qed

end
