(* ===== verification/Crypto_Frame.thy ===== *)
theory Crypto_Frame
  imports Sync_State Utf8
begin

text \<open>
  \<open>crypto.rs\<close>: the framing of encrypted entries and blobs. XChaCha20-Poly1305 itself is the
  \<open>chacha20poly1305\<close> crate, so the cipher is an argument (\<open>aead\<close>: key, nonce, message,
  associated data); the nonce drawn by \<open>random_nonce\<close> is an argument too. The only fact
  used about the cipher is its documented round trip, \<open>aead_sound\<close>.
\<close>

datatype app_key = AppKey (as_bytes: bytes)

record aead =
  aead_encrypt :: "bytes \<Rightarrow> bytes \<Rightarrow> bytes \<Rightarrow> bytes \<Rightarrow> bytes option"
  aead_decrypt :: "bytes \<Rightarrow> bytes \<Rightarrow> bytes \<Rightarrow> bytes \<Rightarrow> bytes option"

definition encryption_version :: u8 where
  "encryption_version = 1"

definition blob_version :: u8 where
  "blob_version = 1"

definition nonce_len :: nat where
  "nonce_len = 24"

definition app_key_from_slice :: "bytes \<Rightarrow> app_key result" where
  "app_key_from_slice bs =
     (if length bs \<noteq> 32 then Inl (Crypto ''app key must be 32 bytes'') else Inr (AppKey bs))"

definition len_prefixed :: "bytes \<Rightarrow> bytes" where
  "len_prefixed bs = be_bytes 8 (length bs) @ bs"

definition entry_aad :: "entry \<Rightarrow> bytes" where
  "entry_aad e =
     len_prefixed (str_bytes (e_key e)) @
     be_bytes 8 (unat (clk_counter (e_clock e))) @
     len_prefixed (str_bytes (clk_device (e_clock e)))"

definition encrypt_entry :: "aead \<Rightarrow> bytes \<Rightarrow> app_key \<Rightarrow> entry \<Rightarrow> entry result" where
  "encrypt_entry c nonce key e =
     (case aead_encrypt c (as_bytes key) nonce (e_value e) (entry_aad e) of
        None \<Rightarrow> Inl (Crypto ''failed to encrypt entry'')
      | Some ct \<Rightarrow> Inr (e\<lparr>e_value := encryption_version # nonce @ ct\<rparr>))"

definition decrypt_entry :: "aead \<Rightarrow> app_key \<Rightarrow> entry \<Rightarrow> entry result" where
  "decrypt_entry c key e =
     (if length (e_value e) < 1 + nonce_len then Inl (Crypto ''encrypted entry too short'')
      else if hd (e_value e) \<noteq> encryption_version
      then Inl (Crypto ''unsupported encryption version'')
      else case aead_decrypt c (as_bytes key) (take nonce_len (drop 1 (e_value e)))
                  (drop (1 + nonce_len) (e_value e)) (entry_aad e) of
             None \<Rightarrow> Inl (Crypto ''failed to decrypt entry'')
           | Some pt \<Rightarrow> Inr (e\<lparr>e_value := pt\<rparr>))"

text \<open>The \<open>i\<close>-th entry of a batch is encrypted under the \<open>i\<close>-th nonce drawn.\<close>

fun encrypt_entries_from ::
  "aead \<Rightarrow> (nat \<Rightarrow> bytes) \<Rightarrow> nat \<Rightarrow> app_key \<Rightarrow> entry list \<Rightarrow> entry list result" where
  "encrypt_entries_from c rng i key [] = Inr []"
| "encrypt_entries_from c rng i key (e # es) =
     bindR (encrypt_entry c (rng i) key e) (\<lambda>x.
     bindR (encrypt_entries_from c rng (Suc i) key es) (\<lambda>xs. Inr (x # xs)))"

definition encrypt_entries ::
  "aead \<Rightarrow> (nat \<Rightarrow> bytes) \<Rightarrow> app_key \<Rightarrow> entry list \<Rightarrow> entry list result" where
  "encrypt_entries c rng key es = encrypt_entries_from c rng 0 key es"

definition decrypt_entries :: "aead \<Rightarrow> app_key \<Rightarrow> entry list \<Rightarrow> entry list result" where
  "decrypt_entries c key es = traverseR (decrypt_entry c key) es"

definition encrypt_blob :: "aead \<Rightarrow> bytes \<Rightarrow> app_key \<Rightarrow> bytes \<Rightarrow> bytes \<Rightarrow> bytes result" where
  "encrypt_blob c nonce key plaintext aad =
     (case aead_encrypt c (as_bytes key) nonce plaintext aad of
        None \<Rightarrow> Inl (Crypto ''failed to encrypt blob'')
      | Some ct \<Rightarrow> Inr (blob_version # nonce @ ct))"

definition decrypt_blob :: "aead \<Rightarrow> app_key \<Rightarrow> bytes \<Rightarrow> bytes \<Rightarrow> bytes result" where
  "decrypt_blob c key blob aad =
     (if length blob < 1 + nonce_len then Inl (Crypto ''encrypted blob too short'')
      else if hd blob \<noteq> blob_version then Inl (Crypto ''unsupported blob version'')
      else case aead_decrypt c (as_bytes key) (take nonce_len (drop 1 blob))
                  (drop (1 + nonce_len) blob) aad of
             None \<Rightarrow> Inl (Crypto ''failed to decrypt blob'')
           | Some pt \<Rightarrow> Inr pt)"

section \<open>Round trips\<close>

text \<open>Decrypting with the same key, nonce and associated data returns the message.\<close>

definition aead_sound :: "aead \<Rightarrow> bool" where
  "aead_sound c = (\<forall>k n m a ct. aead_encrypt c k n m a = Some ct \<longrightarrow> aead_decrypt c k n ct a = Some m)"

definition nonces_ok :: "(nat \<Rightarrow> bytes) \<Rightarrow> bool" where
  "nonces_ok rng = (\<forall>i. length (rng i) = nonce_len)"

lemma entry_aad_value [simp]: "entry_aad (e\<lparr>e_value := v\<rparr>) = entry_aad e"
  by (simp add: entry_aad_def)

lemma decrypt_encrypt_entry:
  assumes "aead_sound c" and "length nonce = nonce_len" and "encrypt_entry c nonce key e = Inr x"
  shows "decrypt_entry c key x = Inr e"
  using assms
  by (auto simp: encrypt_entry_def decrypt_entry_def aead_sound_def split: option.splits)

lemma decrypt_encrypt_entries:
  assumes "aead_sound c" and "nonces_ok rng" and "encrypt_entries c rng key es = Inr xs"
  shows "decrypt_entries c key xs = Inr es"
proof -
  have "encrypt_entries_from c rng i key es = Inr xs \<Longrightarrow> decrypt_entries c key xs = Inr es"
    for i es xs
  proof (induction es arbitrary: i xs)
    case (Cons e es)
    then show ?case
      using decrypt_encrypt_entry[OF assms(1), of "rng i"] assms(2)
      by (fastforce simp: decrypt_entries_def nonces_ok_def)
  qed (simp add: decrypt_entries_def)
  then show ?thesis using assms(3) by (simp add: encrypt_entries_def)
qed

lemma decrypt_encrypt_blob:
  assumes "aead_sound c" and "length nonce = nonce_len" and "encrypt_blob c nonce key pt aad = Inr b"
  shows "decrypt_blob c key b aad = Inr pt"
  using assms
  by (auto simp: encrypt_blob_def decrypt_blob_def aead_sound_def split: option.splits)

text \<open>Ciphertexts keep the key and clock of their entry: only the value is replaced.\<close>

lemma encrypt_entry_frame:
  "encrypt_entry c n key e = Inr x \<Longrightarrow> e_key x = e_key e \<and> e_clock x = e_clock e"
  by (auto simp: encrypt_entry_def split: option.splits)

section \<open>The associated data binds key and clock\<close>

lemma len_prefixed_inject:
  assumes "len_prefixed a @ x = len_prefixed b @ y"
    and "length a < 2 ^ 64" and "length b < 2 ^ 64"
  shows "a = b \<and> x = y"
proof -
  have "be_bytes 8 (length a) = be_bytes 8 (length b) \<and> a @ x = b @ y"
    using assms(1) by (intro append_eq_append_conv[THEN iffD1]) (simp_all add: len_prefixed_def)
  then show ?thesis
    using be_bytes_inject[of 8 "length a" "length b"] assms(2,3) by simp
qed

lemma entry_aad_inject:
  assumes "entry_aad d = entry_aad e"
    and "length (e_key d) < 2 ^ 64" and "length (e_key e) < 2 ^ 64"
    and "length (clk_device (e_clock d)) < 2 ^ 64" and "length (clk_device (e_clock e)) < 2 ^ 64"
  shows "e_key d = e_key e \<and> e_clock d = e_clock e"
proof -
  let ?c = "\<lambda>e. be_bytes 8 (unat (clk_counter (e_clock e)))"
  let ?d = "\<lambda>e. len_prefixed (str_bytes (clk_device (e_clock e)))"
  have 1: "str_bytes (e_key d) = str_bytes (e_key e) \<and> ?c d @ ?d d = ?c e @ ?d e"
    using assms by (intro len_prefixed_inject) (simp_all add: entry_aad_def)
  then have 2: "?c d = ?c e \<and> ?d d = ?d e"
    by (intro append_eq_append_conv[THEN iffD1]) simp_all
  have "unat (clk_counter (e_clock d)) = unat (clk_counter (e_clock e))"
    using 2 unat_u64_bound[of "clk_counter (e_clock d)"] unat_u64_bound[of "clk_counter (e_clock e)"]
    by (intro be_bytes_inject[of 8]) auto
  moreover have "clk_device (e_clock d) = clk_device (e_clock e)"
    using 2 len_prefixed_inject[of "str_bytes (clk_device (e_clock d))" "[]"
        "str_bytes (clk_device (e_clock e))" "[]"] assms(4,5) by simp
  ultimately show ?thesis
    using 1 by (auto intro: lamport_clock.expand simp: word_unat_eq_iff)
qed

end
