(* ===== verification/Pair_Handshake.thy ===== *)
theory Pair_Handshake
  imports Wire Pairing_Manager Crypto_Frame
begin

text \<open>
  \<open>device.rs\<close> and the authenticated enrollment of \<open>pairing.rs\<close>: \<open>link_secure\<close>,
  \<open>accept_secure\<close>, \<open>recover_secure_link\<close>, \<open>accept_recovery\<close>.

  The app behind \<open>DeviceHandler\<close> is a record of functions over its own state \<open>'h\<close>. SPAKE2,
  SHA-256, HKDF, HMAC and the transcript's JSON are library code, collected in
  \<open>pair_crypto\<close>. A run is a function of its world: the message channel, the handler state,
  the coming clock readings, the readings of the cancel flag, and what other threads do to
  the handler state before each call into it.
\<close>

record 'h handler =
  hd_app_id :: "'h \<Rightarrow> string"
  hd_allow_legacy_link :: "'h \<Rightarrow> bool"
  hd_device_metadata :: "'h \<Rightarrow> device_metadata option"
  hd_pairing :: "'h \<Rightarrow> pairing_manager option"
  hd_put_pairing :: "pairing_manager \<Rightarrow> 'h \<Rightarrow> 'h"
  hd_io_timeout :: "'h \<Rightarrow> nat option"
  hd_prepare :: "pairing_outcome \<Rightarrow> 'h \<Rightarrow> unit result \<times> 'h"
  hd_commit :: "string \<Rightarrow> identity \<Rightarrow> device_metadata \<Rightarrow> string \<Rightarrow> app_key \<Rightarrow> 'h \<Rightarrow> unit result \<times> 'h"
  hd_recover :: "string \<Rightarrow> identity \<Rightarrow> string \<Rightarrow> 'h \<Rightarrow> device_metadata option result"
  hd_app_key :: "'h \<Rightarrow> app_key result"
  hd_set_app_key :: "app_key \<Rightarrow> 'h \<Rightarrow> unit result \<times> 'h"
  hd_is_linked :: "identity \<Rightarrow> 'h \<Rightarrow> bool"
  hd_is_linked_with_fingerprint :: "identity \<Rightarrow> string \<Rightarrow> 'h \<Rightarrow> bool"
  hd_approve_link_with_fingerprint :: "identity \<Rightarrow> string \<Rightarrow> 'h \<Rightarrow> bool result \<times> 'h"
  hd_pairing_secret :: "'h \<Rightarrow> string option"

text \<open>The trait's provided methods: an app gives its id, its link table and its approval.\<close>

definition default_handler ::
  "string \<Rightarrow> (identity \<Rightarrow> 'h \<Rightarrow> bool) \<Rightarrow> (identity \<Rightarrow> 'h \<Rightarrow> bool result \<times> 'h) \<Rightarrow> 'h handler" where
  "default_handler app_id is_linked approve_link =
     \<lparr>hd_app_id = (\<lambda>_. app_id),
      hd_allow_legacy_link = (\<lambda>_. True),
      hd_device_metadata = (\<lambda>_. None),
      hd_pairing = (\<lambda>_. None),
      hd_put_pairing = (\<lambda>_ h. h),
      hd_io_timeout = (\<lambda>_. None),
      hd_prepare = (\<lambda>_ h. (Inl (Protocol ''durable pairing preparation not configured''), h)),
      hd_commit = (\<lambda>_ _ _ _ _ h. (Inl (Protocol ''durable managed pairing not configured''), h)),
      hd_recover = (\<lambda>_ _ _ _. Inr None),
      hd_app_key = (\<lambda>_. Inl (Protocol ''app key not configured'')),
      hd_set_app_key = (\<lambda>_ h. (Inl (Protocol ''app key updates not supported''), h)),
      hd_is_linked = is_linked,
      hd_is_linked_with_fingerprint = (\<lambda>i _ h. is_linked i h),
      hd_approve_link_with_fingerprint = (\<lambda>i _ h. approve_link i h),
      hd_pairing_secret = (\<lambda>_. None)\<rparr>"

section \<open>Transcript and confirmations\<close>

record 's pair_crypto =
  pk_start_a :: "bytes \<Rightarrow> string \<Rightarrow> string \<Rightarrow> string \<Rightarrow> 's \<times> bytes"
  pk_start_b :: "bytes \<Rightarrow> string \<Rightarrow> string \<Rightarrow> string \<Rightarrow> 's \<times> bytes"
  pk_finish :: "'s \<Rightarrow> bytes \<Rightarrow> bytes option"
  pk_element :: "bytes \<Rightarrow> bool"
  pk_transcript :: "pair_hello \<Rightarrow> identity \<Rightarrow> device_metadata \<Rightarrow> bytes \<Rightarrow> bytes result"
  pk_sha256 :: "bytes \<Rightarrow> bytes"
  pk_hkdf :: "bytes \<Rightarrow> bytes \<Rightarrow> string \<Rightarrow> bytes option"
  pk_hmac :: "bytes \<Rightarrow> bytes \<Rightarrow> bytes"

record confirmations =
  cf_client :: bytes
  cf_server :: bytes
  cf_ready :: bytes
  cf_prepared :: bytes
  cf_accepted :: bytes
  cf_commit :: bytes
  cf_transcript :: bytes

definition confirmations_new ::
  "'s pair_crypto \<Rightarrow> bytes \<Rightarrow> pair_hello \<Rightarrow> pair_challenge \<Rightarrow> confirmations result" where
  "confirmations_new c shared ph ch =
     bindR (pk_transcript c ph (pch_identity ch) (pch_metadata ch) (pch_pake ch)) (\<lambda>json.
       let transcript = be_bytes 4 (length json mod 2 ^ 32) @ json;
           expand = (\<lambda>label. ok_or (Crypto ''pairing HKDF failed'')
                       (pk_hkdf c (pk_sha256 c transcript) shared label))
       in bindR (expand ''client-confirm'') (\<lambda>k1.
          bindR (expand ''server-confirm'') (\<lambda>k2.
          bindR (expand ''server-ready'') (\<lambda>k3.
          bindR (expand ''client-prepared'') (\<lambda>k4.
          bindR (expand ''accepted-key'') (\<lambda>k5.
          bindR (expand ''commit'') (\<lambda>k6.
            Inr \<lparr>cf_client = k1, cf_server = k2, cf_ready = k3, cf_prepared = k4,
                 cf_accepted = k5, cf_commit = k6, cf_transcript = transcript\<rparr>)))))))"

definition cf_mac :: "'s pair_crypto \<Rightarrow> confirmations \<Rightarrow> bytes \<Rightarrow> bytes \<Rightarrow> bytes" where
  "cf_mac c keys key extra = pk_hmac c key (cf_transcript keys @ extra)"

definition cf_verify ::
  "'s pair_crypto \<Rightarrow> confirmations \<Rightarrow> bytes \<Rightarrow> bytes \<Rightarrow> bytes \<Rightarrow> unit result" where
  "cf_verify c keys key extra tag =
     (if cf_mac c keys key extra = tag then Inr ()
      else Inl (Protocol ''pairing authentication failed''))"

definition pake_ids :: "string \<Rightarrow> string \<times> string" where
  "pake_ids ident =
     (''libresync-managed-pair-v2/client/'' @ ident, ''libresync-managed-pair-v2/inviter/'' @ ident)"

definition valid_pake_message :: "'s pair_crypto \<Rightarrow> bytes \<Rightarrow> char \<Rightarrow> bool" where
  "valid_pake_message c msg role =
     (length msg = 33 \<and> hd msg = of_char role \<and> pk_element c (tl msg))"

section \<open>The world of a handshake\<close>

record 'h pair_world =
  pw_chan :: channel
  pw_handler :: 'h
  pw_env :: "('h \<Rightarrow> 'h) list"
  pw_now :: "u64 result list"
  pw_cancel :: "bool list"
  pw_timeout :: nat

definition pw_send :: "message \<Rightarrow> 'h pair_world \<Rightarrow> unit result \<times> 'h pair_world" where
  "pw_send m w = (case chan_write m (pw_chan w) of (r, ch) \<Rightarrow> (r, w\<lparr>pw_chan := ch\<rparr>))"

definition pw_recv :: "'h pair_world \<Rightarrow> message result \<times> 'h pair_world" where
  "pw_recv w = (case chan_read (pw_chan w) of (r, ch) \<Rightarrow> (r, w\<lparr>pw_chan := ch\<rparr>))"

definition pw_time :: "'h pair_world \<Rightarrow> u64 result \<times> 'h pair_world" where
  "pw_time w =
     (case pw_now w of
        [] \<Rightarrow> (Inl (Protocol ''system clock before epoch''), w)
      | t # rest \<Rightarrow> (t, w\<lparr>pw_now := rest\<rparr>))"

definition pw_check_cancel :: "'h pair_world \<Rightarrow> unit result \<times> 'h pair_world" where
  "pw_check_cancel w =
     (case pw_cancel w of
        [] \<Rightarrow> (Inr (), w)
      | c # rest \<Rightarrow> (if c then Inl Cancelled else Inr (), w\<lparr>pw_cancel := rest\<rparr>))"

definition pw_call :: "('h \<Rightarrow> 'a result \<times> 'h) \<Rightarrow> 'h pair_world \<Rightarrow> 'a result \<times> 'h pair_world" where
  "pw_call f w =
     (case pw_env w of
        [] \<Rightarrow> (case f (pw_handler w) of (r, h) \<Rightarrow> (r, w\<lparr>pw_handler := h\<rparr>))
      | g # rest \<Rightarrow>
          (case f (g (pw_handler w)) of (r, h) \<Rightarrow> (r, w\<lparr>pw_handler := h, pw_env := rest\<rparr>)))"

definition pw_lift :: "'a result \<Rightarrow> 'h pair_world \<Rightarrow> 'a result \<times> 'h pair_world" where
  "pw_lift r w = (r, w)"

definition authenticated_budget :: "'h handler \<Rightarrow> 'h \<Rightarrow> nat option result" where
  "authenticated_budget hr h =
     (case hd_io_timeout hr h of
        None \<Rightarrow> Inr None
      | Some t \<Rightarrow> if t = 0 \<or> max_ttl < t then pair_fail ''invalid authenticated pairing I/O budget''
                 else Inr (Some t))"

definition pw_set_budget :: "'h handler \<Rightarrow> 'h pair_world \<Rightarrow> unit result \<times> 'h pair_world" where
  "pw_set_budget hr w =
     bindS (pw_call (\<lambda>h. (authenticated_budget hr h, h)) w) (\<lambda>budget w.
       case budget of None \<Rightarrow> (Inr (), w) | Some t \<Rightarrow> (Inr (), w\<lparr>pw_timeout := t\<rparr>))"

text \<open>A guard: the early return \<open>if bad { return fail(..) }\<close>.\<close>

definition pw_guard :: "bool \<Rightarrow> string \<Rightarrow> 'h pair_world \<Rightarrow> unit result \<times> 'h pair_world" where
  "pw_guard bad m w = (if bad then pair_fail m else Inr (), w)"

definition pw_not_expired ::
  "pairing_invitation \<Rightarrow> string \<Rightarrow> 'h pair_world \<Rightarrow> unit result \<times> 'h pair_world" where
  "pw_not_expired invn m w =
     bindS (pw_time w) (\<lambda>t. pw_guard (inv_expires_at invn \<le> t) m)"

section \<open>The joining side\<close>

text \<open>
  \<open>link_secure_inner\<close>, in three parts that run one after the other: authentication up to
  the verified readiness of the inviter, durable preparation up to the verified acceptance,
  commit. \<open>opened\<close> is what \<open>open_client\<close> with the invitation's pin returns: the
  fingerprint of the certificate the peer presented.
\<close>

definition link_authenticate ::
  "'s pair_crypto \<Rightarrow> bytes \<Rightarrow> identity \<Rightarrow> device_metadata \<Rightarrow> string \<Rightarrow> string result \<Rightarrow>
   pairing_invitation \<Rightarrow> 'h pair_world \<Rightarrow>
   (string \<times> pair_challenge \<times> confirmations) result \<times> 'h pair_world" where
  "link_authenticate c seed identity metadata own_fp opened invn w =
     bindS (pw_lift (validate_identity identity metadata) w) (\<lambda>_ w.
     bindS (pw_lift (inv_validate invn) w) (\<lambda>_ w.
     bindS (pw_not_expired invn ''invitation expired'' w) (\<lambda>_ w.
     bindS (pw_guard (\<not> compatible_with (dm_manifest metadata) (dm_manifest (inv_metadata invn)))
              ''incompatible app manifest'' w) (\<lambda>_ w.
     bindS (pw_lift opened w) (\<lambda>fingerprint w.
     case pake_ids (inv_id invn) of (a, b) \<Rightarrow>
     case pk_start_a c seed (inv_secret invn) a b of (st, pake) \<Rightarrow>
     let ph = \<lparr>ph_version = pairing_version, ph_invitation_id = inv_id invn,
               ph_identity = identity, ph_metadata = metadata,
               ph_client_fingerprint = own_fp, ph_server_fingerprint = fingerprint,
               ph_pake = pake\<rparr> in
     bindS (pw_send (PairHello ph) w) (\<lambda>_ w.
     bindS (pw_recv w) (\<lambda>m w.
     case m of PairChallenge ch \<Rightarrow>
       bindS (pw_lift (validate_identity (pch_identity ch) (pch_metadata ch)) w) (\<lambda>_ w.
       bindS (pw_guard
                (\<not> compatible_with (dm_manifest metadata) (dm_manifest (pch_metadata ch)) \<or>
                 \<not> compatible_with (dm_manifest (inv_metadata invn)) (dm_manifest (pch_metadata ch)))
                ''incompatible authenticated manifest'' w) (\<lambda>_ w.
       bindS (pw_guard (\<not> valid_pake_message c (pch_pake ch) CHR ''B'')
                ''invalid SPAKE2 group element'' w) (\<lambda>_ w.
       bindS (pw_lift (ok_or (Protocol ''invalid SPAKE2 response'') (pk_finish c st (pch_pake ch))) w)
         (\<lambda>shared w.
       bindS (pw_lift (confirmations_new c shared ph ch) w) (\<lambda>keys w.
       bindS (pw_lift (cf_verify c keys (cf_server keys) [] (pch_confirmation ch)) w) (\<lambda>_ w.
       bindS (pw_send (PairConfirm (cf_mac c keys (cf_client keys) [])) w) (\<lambda>_ w.
       bindS (pw_recv w) (\<lambda>m w.
       case m of PairReady ready \<Rightarrow>
         bindS (pw_lift (cf_verify c keys (cf_ready keys) [] ready) w) (\<lambda>_ w.
           (Inr (fingerprint, ch, keys), w))
       | _ \<Rightarrow> (pair_fail ''expected authenticated preparation readiness'', w)))))))))
     | _ \<Rightarrow> (pair_fail ''expected challenge'', w))))))))"

definition outcome_of :: "pairing_invitation \<Rightarrow> string \<Rightarrow> pair_challenge \<Rightarrow> pairing_outcome" where
  "outcome_of invn fingerprint ch =
     \<lparr>po_invitation_id = inv_id invn, po_identity = pch_identity ch,
      po_metadata = pch_metadata ch, po_fingerprint = fingerprint\<rparr>"

definition link_prepare ::
  "'s pair_crypto \<Rightarrow> 'h handler \<Rightarrow> pairing_invitation \<Rightarrow> string \<Rightarrow> pair_challenge \<Rightarrow> confirmations \<Rightarrow>
   'h pair_world \<Rightarrow> bytes result \<times> 'h pair_world" where
  "link_prepare c hr invn fingerprint ch keys w =
     bindS (pw_set_budget hr w) (\<lambda>_ w.
     bindS (pw_check_cancel w) (\<lambda>_ w.
     bindS (pw_call (hd_prepare hr (outcome_of invn fingerprint ch)) w) (\<lambda>_ w.
     bindS (pw_not_expired invn ''invitation expired before preparation proof'' w) (\<lambda>_ w.
     bindS (pw_check_cancel w) (\<lambda>_ w.
     bindS (pw_send (PairPrepared (cf_mac c keys (cf_prepared keys) [])) w) (\<lambda>_ w.
     bindS (pw_recv w) (\<lambda>m w.
     case m of PairAccepted app_key confirmation \<Rightarrow>
       bindS (pw_lift (cf_verify c keys (cf_accepted keys) app_key confirmation) w) (\<lambda>_ w.
         (Inr app_key, w))
     | _ \<Rightarrow> (pair_fail ''expected authenticated acceptance'', w))))))))"

definition link_commit ::
  "'s pair_crypto \<Rightarrow> 'h handler \<Rightarrow> pairing_invitation \<Rightarrow> string \<Rightarrow> pair_challenge \<Rightarrow> confirmations \<Rightarrow>
   bytes \<Rightarrow> 'h pair_world \<Rightarrow> pairing_outcome result \<times> 'h pair_world" where
  "link_commit c hr invn fingerprint ch keys app_key w =
     bindS (pw_lift (app_key_from_slice app_key) w) (\<lambda>key w.
     bindS (pw_not_expired invn ''invitation expired before client commit'' w) (\<lambda>_ w.
     bindS (pw_check_cancel w) (\<lambda>_ w.
     bindS (pw_call (hd_commit hr (inv_id invn) (pch_identity ch) (pch_metadata ch)
              fingerprint key) w) (\<lambda>_ w.
     bindS (pw_send (PairCommit (cf_mac c keys (cf_commit keys) app_key)) w) (\<lambda>_ w.
     bindS (pw_recv w) (\<lambda>m w.
       if m \<noteq> PairComplete
       then (pair_fail ''expected final commit acknowledgement'', w)
       else (Inr (outcome_of invn fingerprint ch), w)))))))"

definition link_secure_inner ::
  "'s pair_crypto \<Rightarrow> bytes \<Rightarrow> 'h handler \<Rightarrow> identity \<Rightarrow> device_metadata \<Rightarrow> string \<Rightarrow> string result \<Rightarrow>
   pairing_invitation \<Rightarrow> 'h pair_world \<Rightarrow> pairing_outcome result \<times> 'h pair_world" where
  "link_secure_inner c seed hr identity metadata own_fp opened invn w =
     bindS (link_authenticate c seed identity metadata own_fp opened invn w)
       (\<lambda>(fingerprint, ch, keys) w.
     bindS (link_prepare c hr invn fingerprint ch keys w) (\<lambda>app_key w.
       link_commit c hr invn fingerprint ch keys app_key w))"

text \<open>\<open>link_secure\<close>: cancellation is checked before, and again whatever the outcome.\<close>

definition link_secure ::
  "'s pair_crypto \<Rightarrow> bytes \<Rightarrow> 'h handler \<Rightarrow> identity \<Rightarrow> device_metadata \<Rightarrow> string \<Rightarrow> string result \<Rightarrow>
   pairing_invitation \<Rightarrow> 'h pair_world \<Rightarrow> pairing_outcome result \<times> 'h pair_world" where
  "link_secure c seed hr identity metadata own_fp opened invn w =
     bindS (pw_check_cancel w) (\<lambda>_ w.
     case link_secure_inner c seed hr identity metadata own_fp opened invn w of (r, w) \<Rightarrow>
     bindS (pw_check_cancel w) (\<lambda>_ w. (r, w)))"

section \<open>The inviting side\<close>

definition pw_manager ::
  "'h handler \<Rightarrow> (pairing_manager \<Rightarrow> 'h \<Rightarrow> 'a result \<times> pairing_manager \<times> 'h) \<Rightarrow> 'h \<Rightarrow> 'a result \<times> 'h" where
  "pw_manager hr f h =
     (case hd_pairing hr h of
        None \<Rightarrow> (Inl (Protocol ''pairing closed''), h)
      | Some m \<Rightarrow> (case f m h of (r, m', h') \<Rightarrow> (r, hd_put_pairing hr m' h')))"

text \<open>What the listener runs on the stream once the client is authenticated; it sets the time-outs.\<close>

type_synonym 'h authenticated = "'h pair_world \<Rightarrow> unit result \<times> 'h pair_world"

text \<open>
  The closure that runs while the invitation is claimed, in two parts: up to the verified
  preparation proof of the joining side, and from the durable commit on.
\<close>

definition accept_prove ::
  "'s pair_crypto \<Rightarrow> bytes \<Rightarrow> 'h handler \<Rightarrow> 'h authenticated \<Rightarrow> identity \<Rightarrow> device_metadata \<Rightarrow> string \<Rightarrow>
   pair_hello \<Rightarrow> pairing_invitation \<Rightarrow> 'h pair_world \<Rightarrow> confirmations result \<times> 'h pair_world" where
  "accept_prove c seed hr au identity metadata own_fp ph invn w =
     bindS (pw_guard (inv_fingerprint invn \<noteq> own_fp \<or>
              \<not> compatible_with (dm_manifest metadata) (dm_manifest (inv_metadata invn)))
              ''invitation identity changed'' w) (\<lambda>_ w.
     case pake_ids (inv_id invn) of (a, b) \<Rightarrow>
     case pk_start_b c seed (inv_secret invn) a b of (st, pake) \<Rightarrow>
     bindS (pw_lift (ok_or (Protocol ''invalid SPAKE2 request'') (pk_finish c st (ph_pake ph))) w)
       (\<lambda>shared w.
     let unsigned = \<lparr>pch_identity = identity, pch_metadata = metadata, pch_pake = pake,
                     pch_confirmation = []\<rparr> in
     bindS (pw_lift (confirmations_new c shared ph unsigned) w) (\<lambda>keys w.
     bindS (pw_send (PairChallenge
              (unsigned\<lparr>pch_confirmation := cf_mac c keys (cf_server keys) []\<rparr>)) w) (\<lambda>_ w.
     bindS (pw_recv w) (\<lambda>m w.
     case m of PairConfirm confirmation \<Rightarrow>
       bindS (pw_lift (cf_verify c keys (cf_client keys) [] confirmation) w) (\<lambda>_ w.
       bindS (au w) (\<lambda>_ w.
       bindS (pw_not_expired invn ''invitation expired before preparation readiness'' w) (\<lambda>_ w.
       bindS (pw_send (PairReady (cf_mac c keys (cf_ready keys) [])) w) (\<lambda>_ w.
       bindS (pw_recv w) (\<lambda>m w.
       case m of PairPrepared prepared \<Rightarrow>
         bindS (pw_lift (cf_verify c keys (cf_prepared keys) [] prepared) w) (\<lambda>_ w.
           (Inr keys, w))
       | _ \<Rightarrow> (pair_fail ''expected durable client preparation proof'', w))))))
     | _ \<Rightarrow> (pair_fail ''expected client confirmation'', w))))))"

text \<open>The durable approval the invitation lock is held for; the inviter's key is authoritative.\<close>

definition approve_pairing ::
  "'h handler \<Rightarrow> pair_hello \<Rightarrow> string \<Rightarrow> 'h \<Rightarrow> app_key result \<times> 'h" where
  "approve_pairing hr ph fingerprint h =
     (case hd_app_key hr h of
        Inl err \<Rightarrow> (Inl err, h)
      | Inr key \<Rightarrow>
          (case hd_commit hr (ph_invitation_id ph) (ph_identity ph) (ph_metadata ph)
                  fingerprint key h of
             (Inl err, h') \<Rightarrow> (Inl err, h')
           | (Inr _, h') \<Rightarrow> (Inr key, h')))"

definition accept_commit ::
  "'s pair_crypto \<Rightarrow> 'h handler \<Rightarrow> string \<Rightarrow> pair_hello \<Rightarrow> pairing_invitation \<Rightarrow> confirmations \<Rightarrow>
   'h pair_world \<Rightarrow> unit result \<times> 'h pair_world" where
  "accept_commit c hr fingerprint ph invn keys w =
     (case pw_time w of (t, w) \<Rightarrow>
     bindS (pw_call (pw_manager hr
              (pm_commit (ph_invitation_id ph) t (approve_pairing hr ph fingerprint))) w) (\<lambda>key w.
     bindS (pw_send (PairAccepted (as_bytes key)
              (cf_mac c keys (cf_accepted keys) (as_bytes key))) w) (\<lambda>_ w.
     bindS (pw_recv w) (\<lambda>m w.
     case m of PairCommit confirmation \<Rightarrow>
       bindS (pw_lift (cf_verify c keys (cf_commit keys) (as_bytes key) confirmation) w) (\<lambda>_ w.
       bindS (pw_not_expired invn ''invitation expired before final acceptance'' w) (\<lambda>_ w.
       bindS (pw_call (\<lambda>h. (hd_recover hr (ph_invitation_id ph) (ph_identity ph)
                              fingerprint h, h)) w) (\<lambda>journaled w.
         if journaled = None
         then (pair_fail ''enrollment revoked before final acceptance'', w)
         else pw_send PairComplete w)))
     | _ \<Rightarrow> (pair_fail ''expected final client commit'', w)))))"

definition accept_claimed ::
  "'s pair_crypto \<Rightarrow> bytes \<Rightarrow> 'h handler \<Rightarrow> 'h authenticated \<Rightarrow> identity \<Rightarrow> device_metadata \<Rightarrow> string \<Rightarrow> string \<Rightarrow>
   pair_hello \<Rightarrow> pairing_invitation \<Rightarrow> 'h pair_world \<Rightarrow> unit result \<times> 'h pair_world" where
  "accept_claimed c seed hr au identity metadata own_fp fingerprint ph invn w =
     bindS (accept_prove c seed hr au identity metadata own_fp ph invn w) (\<lambda>keys w.
       accept_commit c hr fingerprint ph invn keys w)"

definition pw_release :: "'h handler \<Rightarrow> string \<Rightarrow> 'h pair_world \<Rightarrow> 'h pair_world" where
  "pw_release hr ident w =
     snd (pw_call (pw_manager hr (\<lambda>m h. (Inr () :: unit result, pm_release ident m, h))) w)"

definition accept_secure ::
  "'s pair_crypto \<Rightarrow> bytes \<Rightarrow> 'h handler \<Rightarrow> 'h authenticated \<Rightarrow> identity \<Rightarrow> string \<Rightarrow> string \<Rightarrow> pair_hello \<Rightarrow>
   'h pair_world \<Rightarrow> unit result \<times> 'h pair_world" where
  "accept_secure c seed hr au identity own_fp fingerprint ph w =
     bindS (pw_lift (validate_identity (ph_identity ph) (ph_metadata ph)) w) (\<lambda>_ w.
     bindS (pw_guard (ph_version ph \<noteq> pairing_version
              \<or> \<not> valid_pake_message c (ph_pake ph) CHR ''A''
              \<or> ph_client_fingerprint ph \<noteq> fingerprint
              \<or> ph_server_fingerprint ph \<noteq> own_fp) ''invalid initial transcript'' w) (\<lambda>_ w.
     bindS (pw_call (\<lambda>h. (ok_or (Protocol ''managed pairing not enabled'') (hd_device_metadata hr h), h)) w)
       (\<lambda>metadata w.
     bindS (pw_lift (validate_identity identity metadata) w) (\<lambda>_ w.
     bindS (pw_guard (\<not> compatible_with (dm_manifest metadata) (dm_manifest (ph_metadata ph)))
              ''incompatible manifest'' w) (\<lambda>_ w.
     case pw_time w of (t, w) \<Rightarrow>
     bindS (pw_call (pw_manager hr (\<lambda>m h.
              case pm_claim (ph_invitation_id ph) t m of (r, m') \<Rightarrow> (r, m', h))) w) (\<lambda>invn w.
     case accept_claimed c seed hr au identity metadata own_fp fingerprint ph invn w of
       (r, w) \<Rightarrow> (r, pw_release hr (ph_invitation_id ph) w)))))))"

section \<open>Recovery of an interrupted enrollment\<close>

definition recover_secure_link_inner ::
  "'h handler \<Rightarrow> identity \<Rightarrow> device_metadata \<Rightarrow> string result \<Rightarrow> pairing_outcome \<Rightarrow>
   'h pair_world \<Rightarrow> pairing_outcome result \<times> 'h pair_world" where
  "recover_secure_link_inner hr identity metadata opened previous w =
     bindS (pw_lift (validate_identity identity metadata) w) (\<lambda>_ w.
     bindS (pw_lift opened w) (\<lambda>_ w.
     bindS (pw_send (PairRecover (po_invitation_id previous) identity) w) (\<lambda>_ w.
     bindS (pw_recv w) (\<lambda>m w.
     case m of PairRecovered peer peer_metadata key \<Rightarrow>
       bindS (pw_guard (peer \<noteq> po_identity previous \<or>
                \<not> compatible_with (dm_manifest metadata) (dm_manifest peer_metadata))
                ''recovery identity changed'' w) (\<lambda>_ w.
       bindS (pw_check_cancel w) (\<lambda>_ w.
       bindS (pw_set_budget hr w) (\<lambda>_ w.
       bindS (pw_lift (app_key_from_slice key) w) (\<lambda>k w.
       bindS (pw_call (hd_commit hr (po_invitation_id previous) peer peer_metadata
                (po_fingerprint previous) k) w) (\<lambda>_ w.
       bindS (pw_send PairComplete w) (\<lambda>_ w.
         (Inr (previous\<lparr>po_metadata := peer_metadata\<rparr>), w)))))))
     | _ \<Rightarrow> (pair_fail ''no committed enrollment to recover'', w)))))"

definition recover_secure_link ::
  "'h handler \<Rightarrow> identity \<Rightarrow> device_metadata \<Rightarrow> string result \<Rightarrow> pairing_outcome \<Rightarrow>
   'h pair_world \<Rightarrow> pairing_outcome result \<times> 'h pair_world" where
  "recover_secure_link hr identity metadata opened previous w =
     bindS (pw_check_cancel w) (\<lambda>_ w.
     case recover_secure_link_inner hr identity metadata opened previous w of (r, w) \<Rightarrow>
     bindS (pw_check_cancel w) (\<lambda>_ w. (r, w)))"

definition accept_recovery ::
  "'h handler \<Rightarrow> 'h authenticated \<Rightarrow> string \<Rightarrow> identity \<Rightarrow> identity \<Rightarrow> string \<Rightarrow> 'h pair_world \<Rightarrow>
   unit result \<times> 'h pair_world" where
  "accept_recovery hr au ident peer identity fingerprint w =
     bindS (pw_call (\<lambda>h. (hd_recover hr ident peer fingerprint h, h)) w) (\<lambda>found w.
     bindS (pw_lift (ok_or (Protocol ''no journaled enrollment'') found) w) (\<lambda>peer_metadata w.
     bindS (pw_guard (id_app peer \<noteq> id_app identity) ''recovery app mismatch'' w) (\<lambda>_ w.
     bindS (pw_call (\<lambda>h. (ok_or (Protocol ''missing managed metadata'') (hd_device_metadata hr h), h)) w)
       (\<lambda>metadata w.
     bindS (pw_guard (\<not> compatible_with (dm_manifest metadata) (dm_manifest peer_metadata))
              ''recovery manifest mismatch'' w) (\<lambda>_ w.
     bindS (au w) (\<lambda>_ w.
     bindS (pw_call (\<lambda>h. (hd_app_key hr h, h)) w) (\<lambda>key w.
     bindS (pw_send (PairRecovered identity metadata (as_bytes key)) w) (\<lambda>_ w.
     bindS (pw_recv w) (\<lambda>m w.
       if m \<noteq> PairComplete then (pair_fail ''expected recovery acknowledgement'', w)
       else (Inr (), w))))))))))"

end
