(* ===== verification/Lww.thy ===== *)
theory Lww
  imports Sync_State
begin

text \<open>
  The last-writer-wins contract. Two parts of the program keep a store that a newer clock
  overwrites: the entry map of \<open>State::apply_entry\<close> and the logical records of the managed
  \<open>RecordsAdapter\<close>. The locale \<open>lww_store\<close> states the contract once; order independence,
  idempotence and convergence are proved inside it and reached by interpretation.
\<close>

definition clock_determines :: "('e \<Rightarrow> 'k) \<Rightarrow> ('e \<Rightarrow> 'c) \<Rightarrow> 'e set \<Rightarrow> bool" where
  "clock_determines key clk U \<longleftrightarrow>
     (\<forall>x\<in>U. \<forall>y\<in>U. key x = key y \<longrightarrow> clk x = clk y \<longrightarrow> x = y)"

lemma clock_determinesD:
  "clock_determines key clk U \<Longrightarrow> x \<in> U \<Longrightarrow> y \<in> U \<Longrightarrow> key x = key y \<Longrightarrow> clk x = clk y \<Longrightarrow> x = y"
  by (auto simp: clock_determines_def)

lemma clock_determines_subset:
  "clock_determines key clk U \<Longrightarrow> V \<subseteq> U \<Longrightarrow> clock_determines key clk V"
  by (auto simp: clock_determines_def)

locale lww_store =
  fixes get :: "'s \<Rightarrow> 'k \<Rightarrow> 'e option"
    and put :: "'e \<Rightarrow> 's \<Rightarrow> 's"
    and key :: "'e \<Rightarrow> 'k"
    and clk :: "'e \<Rightarrow> 'c::linorder"
    and ok :: "'s \<Rightarrow> bool"
  assumes get_put: "ok s \<Longrightarrow> get (put e s) k =
      (if k = key e \<and> (\<forall>x. get s k = Some x \<longrightarrow> clk x < clk e) then Some e else get s k)"
    and ok_put: "ok s \<Longrightarrow> ok (put e s)"
    and key_get: "ok s \<Longrightarrow> get s k = Some e \<Longrightarrow> key e = k"
begin

lemma ok_puts: "ok s \<Longrightarrow> ok (fold put es s)"
  by (induction es arbitrary: s) (simp_all add: ok_put)

lemma put_mono:
  assumes "ok s" and "get s k = Some x"
  shows "\<exists>y. get (put e s) k = Some y \<and> clk x \<le> clk y"
  using assms by (auto simp: get_put)

lemma put_covers:
  assumes "ok s"
  shows "\<exists>y. get (put e s) (key e) = Some y \<and> clk e \<le> clk y"
proof (cases "get s (key e)")
  case None
  then show ?thesis using assms by (simp add: get_put)
next
  case (Some x)
  then show ?thesis using assms by (cases "clk x < clk e") (auto simp: get_put)
qed

lemma puts_mono:
  assumes "ok s" and "get s k = Some x"
  shows "\<exists>y. get (fold put es s) k = Some y \<and> clk x \<le> clk y"
  using assms
proof (induction es arbitrary: s x)
  case (Cons e es)
  obtain y where y: "get (put e s) k = Some y" "clk x \<le> clk y"
    using put_mono[OF Cons.prems] by blast
  obtain z where "get (fold put es (put e s)) k = Some z" "clk y \<le> clk z"
    using Cons.IH[OF ok_put[OF Cons.prems(1)] y(1)] by blast
  with y(2) show ?case by (intro exI[of _ z]) (simp add: order_trans)
qed simp

lemma puts_covers:
  assumes "ok s" and "e \<in> set es"
  shows "\<exists>y. get (fold put es s) (key e) = Some y \<and> clk e \<le> clk y"
  using assms
proof (induction es arbitrary: s)
  case (Cons x es)
  show ?case
  proof (cases "e = x")
    case True
    obtain y where y: "get (put e s) (key e) = Some y" "clk e \<le> clk y"
      using put_covers[OF Cons.prems(1)] by blast
    obtain z where "get (fold put es (put e s)) (key e) = Some z" "clk y \<le> clk z"
      using puts_mono[OF ok_put[OF Cons.prems(1)] y(1)] by blast
    with y(2) True show ?thesis by (intro exI[of _ z]) (simp add: order_trans)
  next
    case False
    then show ?thesis using Cons ok_put by simp
  qed
qed simp

lemma puts_source:
  assumes "ok s" and "get (fold put es s) k = Some y"
  shows "get s k = Some y \<or> y \<in> set es \<and> key y = k"
  using assms
proof (induction es arbitrary: s)
  case (Cons x es)
  then have "get (put x s) k = Some y \<or> y \<in> set es \<and> key y = k"
    using ok_put by simp
  then show ?case
    using Cons.prems(1) by (auto simp: get_put split: if_splits)
qed simp

text \<open>The candidates for a key, and the value a merge leaves: the one with the largest clock.\<close>

lemma puts_greatest:
  assumes "ok s" and "get (fold put es s) k = Some y"
    and "get s k = Some x \<or> x \<in> set es \<and> key x = k"
  shows "clk x \<le> clk y"
  using assms puts_mono[OF assms(1), of k x es] puts_covers[OF assms(1), of x es] by auto

lemma puts_None_iff:
  assumes "ok s"
  shows "get (fold put es s) k = None \<longleftrightarrow> get s k = None \<and> (\<forall>e\<in>set es. key e \<noteq> k)"
proof
  assume none: "get (fold put es s) k = None"
  have "get s k = None"
  proof (rule ccontr)
    assume "get s k \<noteq> None"
    then obtain x where "get s k = Some x" by blast
    from puts_mono[OF assms this, of es] none show False by simp
  qed
  moreover have "\<forall>e\<in>set es. key e \<noteq> k"
    using puts_covers[OF assms] none by fastforce
  ultimately show "get s k = None \<and> (\<forall>e\<in>set es. key e \<noteq> k)" by blast
next
  assume "get s k = None \<and> (\<forall>e\<in>set es. key e \<noteq> k)"
  then show "get (fold put es s) k = None"
    using puts_source[OF assms, of es k] by (cases "get (fold put es s) k") auto
qed

text \<open>
  Two merges that saw the same candidates hold the same value, whatever the order, as
  long as a clock never stands for two different values of one key.
\<close>

lemma merges_agree:
  assumes s: "ok s" and t: "ok t"
    and same: "\<And>x. (get s k = Some x \<or> x \<in> set es \<and> key x = k) \<longleftrightarrow>
                    (get t k = Some x \<or> x \<in> set fs \<and> key x = k)"
    and det: "clock_determines key clk U"
    and U: "\<And>x. get s k = Some x \<or> x \<in> set es \<Longrightarrow> x \<in> U"
  shows "get (fold put es s) k = get (fold put fs t) k"
proof (cases "get (fold put es s) k")
  case None
  then have "get s k = None" "\<forall>e\<in>set es. key e \<noteq> k"
    using puts_None_iff[OF s] by auto
  then have "get t k = None \<and> (\<forall>e\<in>set fs. key e \<noteq> k)"
    using same by (metis option.exhaust option.distinct(1))
  then have "get (fold put fs t) k = None" using puts_None_iff[OF t] by simp
  with None show ?thesis by simp
next
  case (Some y)
  have y: "get s k = Some y \<or> y \<in> set es \<and> key y = k" by (rule puts_source[OF s Some])
  then have "get (fold put fs t) k \<noteq> None"
    using puts_None_iff[OF t, of fs k] same[of y] by auto
  then obtain z where z: "get (fold put fs t) k = Some z" by blast
  have zt: "get t k = Some z \<or> z \<in> set fs \<and> key z = k" by (rule puts_source[OF t z])
  have "clk z \<le> clk y" using puts_greatest[OF s Some] zt same by blast
  moreover have "clk y \<le> clk z" using puts_greatest[OF t z] y same by blast
  moreover have "key y = k" "key z = k"
    using y zt key_get[OF s] key_get[OF t] by auto
  moreover have "y \<in> U" "z \<in> U" using U y zt same by blast+
  ultimately have "y = z" using clock_determinesD[OF det] by simp
  with Some z show ?thesis by simp
qed

lemma order_independent:
  assumes "ok s" and "set es = set fs"
    and "clock_determines key clk ({x. get s k = Some x} \<union> set es)"
  shows "get (fold put es s) k = get (fold put fs s) k"
  by (rule merges_agree[OF assms(1) assms(1) _ assms(3)]) (auto simp: assms(2))

lemma idempotent:
  assumes "ok s"
  shows "get (fold put es (fold put es s)) k = get (fold put es s) k"
proof -
  have "get (fold put fs t) k = get t k"
    if "ok t" and "\<And>e. e \<in> set fs \<Longrightarrow> \<exists>y. get t (key e) = Some y \<and> clk e \<le> clk y" for fs t
    using that
  proof (induction fs arbitrary: t)
    case (Cons f fs)
    obtain y where "get t (key f) = Some y" "clk f \<le> clk y" using Cons.prems(2)[of f] by auto
    then have same: "get (put f t) j = get t j" for j
      using Cons.prems(1) by (auto simp: get_put)
    have "get (fold put fs (put f t)) k = get (put f t) k"
      by (rule Cons.IH) (use Cons.prems same ok_put in auto)
    then show ?case using same by simp
  qed simp
  from this[OF ok_puts[OF assms], of es es] show ?thesis
    using puts_covers[OF assms] by blast
qed

text \<open>Each side merges everything the other side holds: both end with the same values.\<close>

lemma exchange_converges:
  assumes s: "ok s" and t: "ok t"
    and es: "\<And>x. x \<in> set es \<longleftrightarrow> (\<exists>k. get s k = Some x)"
    and ft: "\<And>x. x \<in> set fs \<longleftrightarrow> (\<exists>k. get t k = Some x)"
    and det: "clock_determines key clk (set es \<union> set fs)"
  shows "get (fold put fs s) k = get (fold put es t) k"
  by (rule merges_agree[OF s t _ det]) (use es ft key_get[OF s] key_get[OF t] in blast)+

end

section \<open>The entry map of the sync state\<close>

definition lww_put :: "entry \<Rightarrow> sync_state \<Rightarrow> sync_state" where
  "lww_put e s = snd (apply_entry e s)"

definition entry_of :: "sync_state \<Rightarrow> string \<Rightarrow> entry option" where
  "entry_of s k = bm_get (st_entries s) k"

lemma apply_entry_result:
  "fst (apply_entry e s) \<longleftrightarrow> (\<forall>x. entry_of s (e_key e) = Some x \<longrightarrow> e_clock x < e_clock e)"
  by (auto simp: apply_entry_def Let_def entry_of_def split: option.splits)

lemma entry_of_apply:
  "entry_of (snd (apply_entry e s)) k =
     (if k = e_key e \<and> (\<forall>x. entry_of s k = Some x \<longrightarrow> e_clock x < e_clock e)
      then Some e else entry_of s k)"
  by (auto simp: apply_entry_def Let_def entry_of_def bm_get_insert not_less split: option.splits)

interpretation lww: lww_store entry_of lww_put e_key e_clock state_ok
  by unfold_locales
     (auto simp: lww_put_def entry_of_apply state_ok_apply, auto simp: state_ok_def entry_of_def)

lemma merge_loop_fold: "snd (merge_loop es n s) = fold lww_put es s"
  by (induction es arbitrary: n s) (auto simp: lww_put_def split: prod.splits)

lemma merge_snapshot_fold: "snd (merge_snapshot es s) = fold lww_put es s"
  by (simp add: merge_snapshot_def merge_loop_fold)

lemma entry_of_ext:
  "state_ok s \<Longrightarrow> state_ok t \<Longrightarrow> (\<And>k. entry_of s k = entry_of t k) \<Longrightarrow> st_entries s = st_entries t"
  by (rule bm.map_ext) (auto simp: state_ok_def entry_of_def)

lemma set_state_snapshot:
  "state_ok s \<Longrightarrow> x \<in> set (state_snapshot s) \<longleftrightarrow> (\<exists>k. entry_of s k = Some x)"
  by (simp add: state_snapshot_def set_bm_values entry_of_def state_ok_def)

lemma lww_put_frame [simp]:
  "st_device_id (lww_put e s) = st_device_id s"
  "st_epoch (lww_put e s) = st_epoch s"
  "st_peer_cursors (lww_put e s) = st_peer_cursors s"
  "st_inbound_origin (lww_put e s) = st_inbound_origin s"
  by (auto simp: lww_put_def apply_entry_def Let_def split: option.splits)

lemma lww_puts_frame [simp]:
  "st_device_id (fold lww_put es s) = st_device_id s"
  "st_epoch (fold lww_put es s) = st_epoch s"
  "st_peer_cursors (fold lww_put es s) = st_peer_cursors s"
  "st_inbound_origin (fold lww_put es s) = st_inbound_origin s"
  by (induction es arbitrary: s) simp_all

end
