(* ===== verification/Sync_Exchange.thy ===== *)
theory Sync_Exchange
  imports Pair_Handshake Lww
begin

text \<open>
  \<open>sync.rs\<close>: the client run (\<open>run_sync_inner\<close>, with the legacy exchange of version 1
  peers), linking, and the listener's \<open>handle_connection\<close>.

  What runs under the state lock is a definition of its own (\<open>client_section\<close>,
  \<open>server_export\<close>, \<open>server_receive\<close>, \<open>inbound\<close>), because that is what is atomic: between
  two of them other threads may change the state. A world holds the coming outcomes of
  taking the lock: an error (the lock is poisoned) or what the others did to the state
  meanwhile. \<open>DirectState\<close> is the world with no such entry. Sockets, TLS and time-outs are
  the world's connections: how connecting and the handshake end, which certificate the peer
  presents, and the message channel. \<open>cw_checked\<close> logs the calls of the caller's device check.
\<close>

section \<open>Applying entries\<close>

record 'x applier =
  ap_apply_inbound :: "entry list \<Rightarrow> sync_state \<Rightarrow> 'x \<Rightarrow> nat result \<times> sync_state \<times> 'x"
  ap_before_export :: "sync_state \<Rightarrow> 'x \<Rightarrow> unit result \<times> sync_state \<times> 'x"
  ap_after_apply :: "sync_state \<Rightarrow> 'x \<Rightarrow> unit result \<times> 'x"

definition lww_applier :: "'x applier" where
  "lww_applier =
     \<lparr>ap_apply_inbound = (\<lambda>es s x. case merge_snapshot es s of (n, s') \<Rightarrow> (Inr n, s', x)),
      ap_before_export = (\<lambda>s x. (Inr (), s, x)),
      ap_after_apply = (\<lambda>s x. (Inr (), x))\<rparr>"

definition inbound ::
  "'x applier \<Rightarrow> string \<Rightarrow> entry list \<Rightarrow> sync_state \<Rightarrow> 'x \<Rightarrow> nat result \<times> sync_state \<times> 'x" where
  "inbound ap remote_id es s x =
     (case with_inbound_origin remote_id
             (\<lambda>s. case ap_apply_inbound ap es s x of (r, s', x') \<Rightarrow> ((r, x'), s')) s of
        ((r, x'), s') \<Rightarrow> (r, s', x'))"

text \<open>The entries for a peer that holds everything up to \<open>cursor\<close>.\<close>

definition outbound_for :: "string \<Rightarrow> peer_cursor \<Rightarrow> sync_state \<Rightarrow> entry list \<times> bool" where
  "outbound_for remote_id cursor s =
     (let since = resolve_cursor cursor s;
          full = is_full_snapshot_request since s
      in (if full then state_snapshot s else delta_since since (Some remote_id) s, full))"

record outbound_delta =
  od_entries :: "entry list"
  od_cursor :: peer_cursor
  od_full :: bool

definition client_section ::
  "'x applier \<Rightarrow> string \<Rightarrow> peer_cursor \<Rightarrow> peer_cursor \<Rightarrow> entry list \<Rightarrow> sync_state \<Rightarrow> 'x \<Rightarrow>
   (outbound_delta \<times> nat) result \<times> sync_state \<times> 'x" where
  "client_section ap remote_id acked remote_cursor es s x =
     (case outbound_for remote_id acked s of (out, full) \<Rightarrow>
      let local = current_cursor s
      in case inbound ap remote_id es s x of
           (Inl err, s', x') \<Rightarrow> (Inl err, s', x')
         | (Inr n, s', x') \<Rightarrow>
             (Inr (\<lparr>od_entries = out, od_cursor = local, od_full = full\<rparr>, n),
              set_peer_cursor remote_id remote_cursor s', x'))"

definition server_export ::
  "'x applier \<Rightarrow> string \<Rightarrow> peer_cursor \<Rightarrow> sync_state \<Rightarrow> 'x \<Rightarrow>
   (outbound_delta \<times> peer_cursor) result \<times> sync_state \<times> 'x" where
  "server_export ap remote_id cursor s x =
     (case ap_before_export ap s x of
        (Inl err, s', x') \<Rightarrow> (Inl err, s', x')
      | (Inr _, s', x') \<Rightarrow>
          (case outbound_for remote_id cursor s' of (out, full) \<Rightarrow>
             (Inr (\<lparr>od_entries = out, od_cursor = current_cursor s', od_full = full\<rparr>,
                   get_peer_cursor remote_id s'), s', x')))"

definition server_receive ::
  "'x applier \<Rightarrow> string \<Rightarrow> peer_cursor option \<Rightarrow> entry list \<Rightarrow> sync_state \<Rightarrow> 'x \<Rightarrow>
   nat result \<times> sync_state \<times> 'x" where
  "server_receive ap remote_id remote_cursor es s x =
     (case inbound ap remote_id es s x of
        (Inl err, s', x') \<Rightarrow> (Inl err, s', x')
      | (Inr n, s', x') \<Rightarrow>
          let s'' = (case remote_cursor of None \<Rightarrow> s' | Some c \<Rightarrow> set_peer_cursor remote_id c s')
          in case ap_after_apply ap s'' x' of
               (Inl err, x'') \<Rightarrow> (Inl err, s'', x'')
             | (Inr _, x'') \<Rightarrow> (Inr n, s'', x''))"

section \<open>The client\<close>

type_synonym lock_outcome = "(sync_state \<Rightarrow> sync_state) result"

record connection =
  cn_certificate :: "string option"
  cn_handshake :: "error option"
  cn_channel :: channel

record 'x client_world =
  cw_state :: sync_state
  cw_app :: 'x
  cw_locks :: "lock_outcome list"
  cw_cancel :: "bool list"
  cw_conns :: "connection result list"
  cw_chan :: channel
  cw_bytes :: "u64 \<times> u64"
  cw_checked :: "(identity \<times> string) list"

record 'x sync_options =
  so_applier :: "'x applier"
  so_expected_fingerprint :: "string option"
  so_expected_device_id :: "string option"
  so_cancel :: bool

record sync_stats =
  ss_entries_sent :: nat
  ss_entries_received :: nat
  ss_entries_applied :: nat
  ss_bytes_sent :: u64
  ss_bytes_received :: u64
  ss_full_snapshot :: bool
  ss_protocol_version :: u32

record sync_outcome =
  sy_identity :: identity
  sy_fingerprint :: string
  sy_stats :: sync_stats

definition default_options :: "'x sync_options" where
  "default_options =
     \<lparr>so_applier = lww_applier, so_expected_fingerprint = None, so_expected_device_id = None,
      so_cancel = False\<rparr>"

definition default_stats :: sync_stats where
  "default_stats =
     \<lparr>ss_entries_sent = 0, ss_entries_received = 0, ss_entries_applied = 0, ss_bytes_sent = 0,
      ss_bytes_received = 0, ss_full_snapshot = False, ss_protocol_version = 0\<rparr>"

definition cw_lift :: "'a result \<Rightarrow> 'x client_world \<Rightarrow> 'a result \<times> 'x client_world" where
  "cw_lift r w = (r, w)"

definition cw_check_cancel :: "'x sync_options \<Rightarrow> 'x client_world \<Rightarrow> unit result \<times> 'x client_world" where
  "cw_check_cancel opts w =
     (if \<not> so_cancel opts then (Inr (), w)
      else case cw_cancel w of
             [] \<Rightarrow> (Inr (), w)
           | c # rest \<Rightarrow> (if c then Inl Cancelled else Inr (), w\<lparr>cw_cancel := rest\<rparr>))"

definition cw_send :: "message \<Rightarrow> 'x client_world \<Rightarrow> unit result \<times> 'x client_world" where
  "cw_send m w = (case chan_write m (cw_chan w) of (r, ch) \<Rightarrow> (r, w\<lparr>cw_chan := ch\<rparr>))"

definition cw_recv :: "'x client_world \<Rightarrow> message result \<times> 'x client_world" where
  "cw_recv w = (case chan_read (cw_chan w) of (r, ch) \<Rightarrow> (r, w\<lparr>cw_chan := ch\<rparr>))"

definition cw_with_state ::
  "(sync_state \<Rightarrow> 'x \<Rightarrow> 'a result \<times> sync_state \<times> 'x) \<Rightarrow> 'x client_world \<Rightarrow> 'a result \<times> 'x client_world" where
  "cw_with_state f w =
     (case cw_locks w of
        Inl err # rest \<Rightarrow> (Inl err, w\<lparr>cw_locks := rest\<rparr>)
      | Inr others # rest \<Rightarrow>
          (case f (others (cw_state w)) (cw_app w) of
             (r, s, x) \<Rightarrow> (r, w\<lparr>cw_state := s, cw_app := x, cw_locks := rest\<rparr>))
      | [] \<Rightarrow>
          (case f (cw_state w) (cw_app w) of
             (r, s, x) \<Rightarrow> (r, w\<lparr>cw_state := s, cw_app := x\<rparr>)))"

text \<open>
  \<open>open_client\<close> with \<open>tls_client_stream_pinned\<close> and \<open>PinnedServerVerifier\<close>: a pinned
  connection whose leaf certificate differs fails in the handshake, before any message.
\<close>

definition verify_server_cert :: "string option \<Rightarrow> string \<Rightarrow> bool" where
  "verify_server_cert expected actual = (case expected of None \<Rightarrow> True | Some e \<Rightarrow> e = actual)"

definition tls_client ::
  "'x sync_options \<Rightarrow> connection \<Rightarrow> unit result" where
  "tls_client opts cn =
     (case cn_certificate cn of
        Some actual \<Rightarrow>
          if \<not> verify_server_cert (so_expected_fingerprint opts) actual then
            Inl (FingerprintMismatch
              (case so_expected_device_id opts of None \<Rightarrow> ''<unknown>'' | Some d \<Rightarrow> d)
              (case so_expected_fingerprint opts of None \<Rightarrow> '''' | Some e \<Rightarrow> e) actual)
          else (case cn_handshake cn of None \<Rightarrow> Inr () | Some err \<Rightarrow> Inl err)
      | None \<Rightarrow> (case cn_handshake cn of None \<Rightarrow> Inr () | Some err \<Rightarrow> Inl err))"

definition device_fingerprint :: "string option \<Rightarrow> string result" where
  "device_fingerprint cert = ok_or (Protocol ''missing device certificate'') cert"

definition open_client ::
  "'x sync_options \<Rightarrow> 'x client_world \<Rightarrow> string option result \<times> 'x client_world" where
  "open_client opts w =
     (case cw_conns w of
        [] \<Rightarrow> (Inl (Io OtherKind ''connection refused''), w)
      | Inl err # rest \<Rightarrow> (Inl err, w\<lparr>cw_conns := rest\<rparr>)
      | Inr cn # rest \<Rightarrow>
          bindS (cw_check_cancel opts (w\<lparr>cw_conns := rest\<rparr>)) (\<lambda>_ w.
          bindS (cw_lift (tls_client opts cn) w) (\<lambda>_ w.
            (Inr (cn_certificate cn), w\<lparr>cw_chan := cn_channel cn\<rparr>))))"

definition read_hello ::
  "identity \<Rightarrow> 'x client_world \<Rightarrow> (identity \<times> u32) result \<times> 'x client_world" where
  "read_hello identity w =
     bindS (cw_recv w) (\<lambda>m w.
     case m of
       Hello remote version \<Rightarrow>
         (if id_app remote \<noteq> id_app identity then Inl (Protocol ''app id mismatch'')
          else Inr (remote, version), w)
     | _ \<Rightarrow> (Inl (Protocol ''expected hello''), w))"

definition fill_counters :: "'x client_world \<Rightarrow> sync_stats \<Rightarrow> sync_stats" where
  "fill_counters w st = st\<lparr>ss_bytes_sent := fst (cw_bytes w), ss_bytes_received := snd (cw_bytes w)\<rparr>"

text \<open>Greeting and binding the peer's identity to its certificate: common to both versions.\<close>

definition client_greet ::
  "identity \<Rightarrow> (identity \<Rightarrow> string \<Rightarrow> unit result) \<Rightarrow> 'x sync_options \<Rightarrow> 'x client_world \<Rightarrow>
   (identity \<times> u32 \<times> string) result \<times> 'x client_world" where
  "client_greet identity device_check opts w =
     bindS (cw_check_cancel opts w) (\<lambda>_ w.
     bindS (open_client opts w) (\<lambda>cert w.
     bindS (cw_send (hello identity) w) (\<lambda>_ w.
     bindS (read_hello identity w) (\<lambda>(remote, version) w.
     bindS (cw_lift (device_fingerprint cert) w) (\<lambda>fingerprint w.
     bindS (case so_expected_fingerprint opts of
              None \<Rightarrow> (Inr (), w)
            | Some e \<Rightarrow>
                (if e \<noteq> fingerprint then Inl (FingerprintMismatch (id_device remote) e fingerprint)
                 else Inr (), w)) (\<lambda>_ w.
     bindS (device_check remote fingerprint, w\<lparr>cw_checked := cw_checked w @ [(remote, fingerprint)]\<rparr>) (\<lambda>_ w.
     bindS (cw_check_cancel opts w) (\<lambda>_ w.
       (Inr (remote, version, fingerprint), w)))))))))"

definition client_legacy ::
  "aead \<Rightarrow> (nat \<Rightarrow> bytes) \<Rightarrow> identity \<Rightarrow> app_key \<Rightarrow> 'x sync_options \<Rightarrow> identity \<Rightarrow> string \<Rightarrow> sync_stats \<Rightarrow>
   'x client_world \<Rightarrow> sync_outcome result \<times> 'x client_world" where
  "client_legacy c rng identity key opts remote fingerprint st w =
     bindS (cw_with_state (\<lambda>s x. (Inr (state_snapshot s), s, x)) w) (\<lambda>snapshot w.
     let st = st\<lparr>ss_entries_sent := length snapshot, ss_full_snapshot := True\<rparr> in
     bindS (cw_lift (encrypt_entries c rng key snapshot) w) (\<lambda>encrypted w.
     bindS (cw_send (Snapshot encrypted) w) (\<lambda>_ w.
     bindS (cw_recv w) (\<lambda>m w.
     if m \<noteq> Ack then (Inl (Protocol ''expected ack''), w) else
     bindS (cw_check_cancel opts w) (\<lambda>_ w.
     bindS (open_client opts w) (\<lambda>cert w.
     bindS (cw_send (hello identity) w) (\<lambda>_ w.
     bindS (read_hello identity w) (\<lambda>(pull_identity, _) w.
     if pull_identity \<noteq> remote then (Inl (Protocol ''device identity changed''), w) else
     bindS (cw_lift (device_fingerprint cert) w) (\<lambda>pull_fingerprint w.
     if pull_fingerprint \<noteq> fingerprint then (Inl (Protocol ''device fingerprint changed''), w) else
     bindS (cw_send SnapshotRequest w) (\<lambda>_ w.
     bindS (cw_recv w) (\<lambda>m w.
     case m of
       Snapshot entries \<Rightarrow>
         bindS (cw_lift (decrypt_entries c key entries) w) (\<lambda>entries w.
         bindS (cw_with_state (inbound (so_applier opts) (id_device remote) entries) w) (\<lambda>n w.
           (Inr \<lparr>sy_identity = remote, sy_fingerprint = fingerprint,
                 sy_stats = fill_counters w (st\<lparr>ss_entries_received := length entries,
                              ss_entries_applied := n\<rparr>)\<rparr>, w)))
     | _ \<Rightarrow> (Inl (Protocol ''expected snapshot''), w))))))))))))"

text \<open>The delta exchange of version 2.\<close>

definition client_delta ::
  "aead \<Rightarrow> (nat \<Rightarrow> bytes) \<Rightarrow> app_key \<Rightarrow> 'x sync_options \<Rightarrow> identity \<Rightarrow> string \<Rightarrow> sync_stats \<Rightarrow>
   'x client_world \<Rightarrow> sync_outcome result \<times> 'x client_world" where
  "client_delta c rng key opts remote fingerprint st w =
     (let remote_id = id_device remote in
     bindS (cw_with_state (\<lambda>s x. (Inr (get_peer_cursor remote_id s), s, x)) w) (\<lambda>cursor w.
     bindS (cw_send (SnapshotSince (pc_clock cursor) (pc_epoch cursor)) w) (\<lambda>_ w.
     bindS (cw_recv w) (\<lambda>m w.
     case m of
       Delta entries clock epoch acked acked_epoch full \<Rightarrow>
         bindS (cw_check_cancel opts w) (\<lambda>_ w.
         bindS (cw_lift (decrypt_entries c key entries) w) (\<lambda>entries w.
         bindS (cw_with_state (client_section (so_applier opts) remote_id
                  \<lparr>pc_epoch = acked_epoch, pc_clock = acked\<rparr> \<lparr>pc_epoch = epoch, pc_clock = clock\<rparr>
                  entries) w) (\<lambda>(out, n) w.
         bindS (cw_check_cancel opts w) (\<lambda>_ w.
         bindS (cw_lift (encrypt_entries c rng key (od_entries out)) w) (\<lambda>encrypted w.
         bindS (cw_with_state (\<lambda>s x. (Inr (pc_clock (get_peer_cursor remote_id s)), s, x)) w)
           (\<lambda>back_clock w.
         bindS (cw_with_state (\<lambda>s x. (Inr (pc_epoch (get_peer_cursor remote_id s)), s, x)) w)
           (\<lambda>back_epoch w.
         bindS (cw_send (Delta encrypted (pc_clock (od_cursor out)) (pc_epoch (od_cursor out))
                  back_clock back_epoch (od_full out)) w) (\<lambda>_ w.
         bindS (cw_recv w) (\<lambda>m w.
         if m \<noteq> Ack then (Inl (Protocol ''expected ack''), w) else
           (Inr \<lparr>sy_identity = remote, sy_fingerprint = fingerprint,
                 sy_stats = fill_counters w (st\<lparr>ss_entries_received := length entries,
                     ss_entries_applied := n, ss_entries_sent := length (od_entries out),
                     ss_full_snapshot := ss_full_snapshot st \<or> full \<or> od_full out\<rparr>)\<rparr>, w))))))))))
     | _ \<Rightarrow> (Inl (Protocol ''expected delta''), w)))))"

definition run_sync_inner ::
  "aead \<Rightarrow> (nat \<Rightarrow> bytes) \<Rightarrow> identity \<Rightarrow> app_key \<Rightarrow> (identity \<Rightarrow> string \<Rightarrow> unit result) \<Rightarrow>
   'x sync_options \<Rightarrow> 'x client_world \<Rightarrow> sync_outcome result \<times> 'x client_world" where
  "run_sync_inner c rng identity key device_check opts w =
     bindS (client_greet identity device_check opts w) (\<lambda>(remote, version, fingerprint) w.
     let st = default_stats\<lparr>ss_protocol_version := min version protocol_version\<rparr>
     in if version < 2 then client_legacy c rng identity key opts remote fingerprint st w
        else client_delta c rng key opts remote fingerprint st w)"

definition run_sync ::
  "aead \<Rightarrow> (nat \<Rightarrow> bytes) \<Rightarrow> identity \<Rightarrow> app_key \<Rightarrow> (identity \<Rightarrow> string \<Rightarrow> unit result) \<Rightarrow>
   'x sync_options \<Rightarrow> 'x client_world \<Rightarrow> sync_outcome result \<times> 'x client_world" where
  "run_sync c rng identity key device_check opts w =
     (case run_sync_inner c rng identity key device_check opts w of
        (r, w) \<Rightarrow> bindS (cw_check_cancel opts w) (\<lambda>_ w. (r, w)))"

text \<open>\<open>link_with_device_using\<close>: the low-level, trust-on-first-use link.\<close>

definition link_with_device ::
  "identity \<Rightarrow> app_key \<Rightarrow> string option \<Rightarrow> 'x sync_options \<Rightarrow> 'x client_world \<Rightarrow>
   (identity \<times> string \<times> app_key) result \<times> 'x client_world" where
  "link_with_device identity key secret opts w =
     bindS (cw_check_cancel opts w) (\<lambda>_ w.
     bindS (open_client opts w) (\<lambda>cert w.
     bindS (cw_send (LinkRequest identity (Some (as_bytes key)) secret) w) (\<lambda>_ w.
     bindS (cw_recv w) (\<lambda>response w.
     bindS (cw_lift (device_fingerprint cert) w) (\<lambda>fingerprint w.
     case response of
       LinkResponse remote accepted remote_key \<Rightarrow>
         if \<not> accepted then (Inl (Protocol (''linking rejected by '' @ id_device remote)), w) else
         bindS (cw_lift (ok_or (Protocol ''linking response missing app key'') remote_key) w)
           (\<lambda>key_bytes w.
         bindS (cw_lift (app_key_from_slice key_bytes) w) (\<lambda>remote_app_key w.
         if id_app remote \<noteq> id_app identity
         then (Inl (Protocol ''app id mismatch during linking''), w)
         else (Inr (remote, fingerprint, remote_app_key), w)))
     | _ \<Rightarrow> (Inl (Protocol ''unexpected linking response''), w))))))"

end
