(* ===== verification/Network.thy ===== *)
theory Network
  imports Sync_Exchange
begin

text \<open>
  Many devices that write locally and run delta exchanges with the last-writer-wins applier.
  The steps are the critical sections of the two sides of an exchange, so local writes and
  other exchanges interleave between them. A message once sent stays available: it may be
  delivered late, more than once, or never (an interrupted exchange). Steps are taken only
  while no sequence number or Lamport counter is saturated at \<open>u64::MAX\<close>.
\<close>

datatype packet =
    Request string string peer_cursor
  | Reply string string outbound_delta peer_cursor
  | Push string string outbound_delta

record network =
  nodes :: "string \<Rightarrow> sync_state"
  flight :: "packet set"

definition deliver :: "string \<Rightarrow> sync_state \<Rightarrow> packet set \<Rightarrow> network \<Rightarrow> network" where
  "deliver d s ps net = \<lparr>nodes = (nodes net)(d := s), flight = flight net \<union> ps\<rparr>"

definition room :: "sync_state \<Rightarrow> bool" where
  "room s \<longleftrightarrow> st_sequence s \<noteq> u64_max"

inductive net_step :: "network \<Rightarrow> network \<Rightarrow> bool" where
  local_write: "st_counter (nodes net d) \<noteq> u64_max \<Longrightarrow> state_set k v (nodes net d) = (e, s) \<Longrightarrow> room s \<Longrightarrow>
    net_step net (deliver d s {} net)"
| request: "a \<noteq> b \<Longrightarrow>
    net_step net (deliver a (nodes net a) {Request a b (get_peer_cursor b (nodes net a))} net)"
| answer: "Request a b cur \<in> flight net \<Longrightarrow>
    server_export lww_applier a cur (nodes net b) () = (Inr (out, acked), s, ()) \<Longrightarrow>
    net_step net (deliver b s {Reply b a out acked} net)"
| merge: "Reply b a out acked \<in> flight net \<Longrightarrow>
    client_section lww_applier b acked (od_cursor out) (od_entries out) (nodes net a) () =
      (Inr (reply, n), s, ()) \<Longrightarrow> room s \<Longrightarrow>
    net_step net (deliver a s {Push a b reply} net)"
| receive: "Push a b reply \<in> flight net \<Longrightarrow>
    server_receive lww_applier a (Some (od_cursor reply)) (od_entries reply) (nodes net b) () =
      (Inr n, s, ()) \<Longrightarrow> room s \<Longrightarrow>
    net_step net (deliver b s {} net)"

inductive reachable :: "network \<Rightarrow> bool" where
  start: "reachable \<lparr>nodes = (\<lambda>d. state_new (rnd d) d), flight = {}\<rparr>"
| step: "reachable net \<Longrightarrow> net_step net net' \<Longrightarrow> reachable net'"

section \<open>What a device does to its state\<close>

definition dom_by :: "sync_state \<Rightarrow> entry \<Rightarrow> bool" where
  "dom_by s e \<longleftrightarrow> (\<exists>y. entry_of s (e_key e) = Some y \<and> e_clock e \<le> e_clock y)"

text \<open>
  \<open>evolves s t from\<close>: going from \<open>s\<close> to \<open>t\<close>, a key keeps its entry, sequence and origin, or
  holds an entry at least as new under a sequence beyond \<open>st_sequence s\<close>, with no origin or
  an origin and entry related by \<open>from\<close>.
\<close>

definition evolves :: "sync_state \<Rightarrow> sync_state \<Rightarrow> (string \<Rightarrow> entry \<Rightarrow> bool) \<Rightarrow> bool" where
  "evolves s t from \<longleftrightarrow>
     st_sequence s \<le> st_sequence t \<and> st_epoch t = st_epoch s \<and> st_device_id t = st_device_id s \<and>
     (\<forall>k. (entry_of t k = entry_of s k \<and> sequence_of k t = sequence_of k s \<and>
           bm_get (st_origins t) k = bm_get (st_origins s) k) \<or>
          (\<exists>e. entry_of t k = Some e \<and> (\<forall>x. entry_of s k = Some x \<longrightarrow> e_clock x \<le> e_clock e) \<and>
             st_sequence s < sequence_of k t \<and>
             (\<forall>d. bm_get (st_origins t) k = Some d \<longrightarrow> from d e)))"

lemma evolvesD:
  assumes "evolves s t from"
  shows "entry_of t k = entry_of s k \<and> sequence_of k t = sequence_of k s \<and>
           bm_get (st_origins t) k = bm_get (st_origins s) k \<or>
         (\<exists>e. entry_of t k = Some e \<and> (\<forall>x. entry_of s k = Some x \<longrightarrow> e_clock x \<le> e_clock e) \<and>
             st_sequence s < sequence_of k t \<and>
             (\<forall>d. bm_get (st_origins t) k = Some d \<longrightarrow> from d e))"
  using assms unfolding evolves_def by blast

lemma evolves_refl: "evolves s s from"
  by (simp add: evolves_def)

lemma evolves_trans:
  assumes 1: "evolves s t from" and 2: "evolves t u from"
  shows "evolves s u from"
proof -
  have le: "st_sequence s \<le> st_sequence t" using 1 by (simp add: evolves_def)
  have "entry_of u k = entry_of s k \<and> sequence_of k u = sequence_of k s \<and>
           bm_get (st_origins u) k = bm_get (st_origins s) k \<or>
         (\<exists>e. entry_of u k = Some e \<and> (\<forall>x. entry_of s k = Some x \<longrightarrow> e_clock x \<le> e_clock e) \<and>
             st_sequence s < sequence_of k u \<and>
             (\<forall>d. bm_get (st_origins u) k = Some d \<longrightarrow> from d e))" for k
  proof (cases "entry_of u k = entry_of t k \<and> sequence_of k u = sequence_of k t \<and>
      bm_get (st_origins u) k = bm_get (st_origins t) k")
    case True
    then show ?thesis using evolvesD[OF 1, of k] by auto
  next
    case False
    then obtain e where e: "entry_of u k = Some e" "st_sequence t < sequence_of k u"
      "\<forall>x. entry_of t k = Some x \<longrightarrow> e_clock x \<le> e_clock e"
      "\<forall>d. bm_get (st_origins u) k = Some d \<longrightarrow> from d e"
      using evolvesD[OF 2, of k] by blast
    have "\<forall>x. entry_of s k = Some x \<longrightarrow> e_clock x \<le> e_clock e"
      using evolvesD[OF 1, of k] e(3) by (metis order_trans)
    then show ?thesis using e le le_less_trans by blast
  qed
  moreover have "st_sequence s \<le> st_sequence u" using 1 2 by (auto simp: evolves_def)
  ultimately show ?thesis using 1 2 by (simp add: evolves_def)
qed

lemma evolves_dom: "evolves s t from \<Longrightarrow> dom_by s e \<Longrightarrow> dom_by t e"
  using evolvesD[of s t "from" "e_key e"] by (auto simp: dom_by_def intro: order_trans)

lemma room_less: "room s \<Longrightarrow> st_sequence s < sat_inc (st_sequence s)"
  by (simp add: room_def)

lemma room_less': "sat_inc n \<noteq> u64_max \<Longrightarrow> n < sat_inc n"
  by (metis less_sat_inc_iff sat_inc_max)

lemma sequence_of_frame [simp]:
  "sequence_of k (s\<lparr>st_inbound_origin := d\<rparr>) = sequence_of k s"
  "sequence_of k (set_peer_cursor p c s) = sequence_of k s"
  "entry_of (s\<lparr>st_inbound_origin := d\<rparr>) k = entry_of s k"
  "entry_of (set_peer_cursor p c s) k = entry_of s k"
  by (simp_all add: sequence_of_def entry_of_def set_peer_cursor_def)

lemma set_peer_cursor_frame [simp]:
  "st_sequence (set_peer_cursor p c s) = st_sequence s"
  "st_epoch (set_peer_cursor p c s) = st_epoch s"
  "st_device_id (set_peer_cursor p c s) = st_device_id s"
  "st_origins (set_peer_cursor p c s) = st_origins s"
  "st_counter (set_peer_cursor p c s) = st_counter s"
  "st_inbound_origin (set_peer_cursor p c s) = st_inbound_origin s"
  "get_peer_cursor q (set_peer_cursor p c s) = (if q = p then c else get_peer_cursor q s)"
  by (simp_all add: set_peer_cursor_def get_peer_cursor_def bm_get_insert)

lemma evolves_set:
  assumes ok: "state_ok s" and set: "state_set k v s = (e, t)" and r: "room t"
    and c: "st_counter s \<noteq> u64_max"
  shows "evolves s t from"
proof -
  have t: "t = record_write k None (s\<lparr>st_counter := sat_inc (st_counter s),
      st_entries := bm_insert k e (st_entries s)\<rparr>)"
    and e: "e = \<lparr>e_key = k, e_value = v, e_clock = LamportClock (sat_inc (st_counter s)) (st_device_id s)\<rparr>"
    using set by (auto simp: state_set_def Let_def)
  have less: "st_sequence s < sat_inc (st_sequence s)"
    using r by (intro room_less') (simp add: room_def t)
  have newer: "e_clock x \<le> e_clock e" if "entry_of s k = Some x" for x
  proof -
    have "clk_counter (e_clock x) \<le> st_counter s" using ok that by (auto simp: state_ok_def entry_of_def)
    then have "clk_counter (e_clock x) < sat_inc (st_counter s)" using c by (rule less_sat_inc)
    then show ?thesis by (simp add: e clock_less_counter less_imp_le)
  qed
  show ?thesis
    using less newer
    by (auto simp: evolves_def t entry_of_def sequence_of_def bm_get_insert e)
qed

lemma st_sequence_put: "st_sequence (lww_put e s) = st_sequence s \<or>
   st_sequence (lww_put e s) = sat_inc (st_sequence s)"
  by (auto simp: lww_put_def apply_entry_def Let_def split: option.splits)

lemma st_sequence_put_mono: "st_sequence s \<le> st_sequence (lww_put e s)"
  using st_sequence_put[of e s] by auto

lemma st_sequence_puts_mono: "st_sequence s \<le> st_sequence (fold lww_put es s)"
  by (induction es arbitrary: s) (auto intro: order_trans[OF st_sequence_put_mono])

lemma room_puts: "room (fold lww_put es s) \<Longrightarrow> room s"
  using st_sequence_puts_mono[of s es] by (metis le_u64_max antisym room_def)

lemma evolves_put:
  assumes ok: "state_ok s" and r: "room (lww_put e s)" and orig: "st_inbound_origin s = Some d"
    and "from": "from d e"
  shows "evolves s (lww_put e s) from"
proof (cases "fst (apply_entry e s)")
  case False
  then have "lww_put e s = observe_clock (e_clock e) s"
    by (auto simp: lww_put_def apply_entry_def Let_def split: option.splits)
  then show ?thesis by (simp add: evolves_def entry_of_def sequence_of_def)
next
  case True
  then have t: "lww_put e s = record_write (e_key e) (Some d)
      ((observe_clock (e_clock e) s)\<lparr>st_entries := bm_insert (e_key e) e (st_entries s)\<rparr>)"
    using orig by (auto simp: lww_put_def apply_entry_def Let_def split: option.splits)
  have less: "st_sequence s < sat_inc (st_sequence s)"
    using r by (intro room_less') (simp add: room_def t)
  have "e_clock x \<le> e_clock e" if "entry_of s (e_key e) = Some x" for x
    using True that by (auto simp: apply_entry_result)
  then show ?thesis
    using less "from" by (auto simp: evolves_def t entry_of_def sequence_of_def bm_get_insert)
qed

lemma evolves_puts:
  assumes "state_ok s" and "room (fold lww_put es s)" and "st_inbound_origin s = Some d"
    and "\<And>e. e \<in> set es \<Longrightarrow> from d e"
  shows "evolves s (fold lww_put es s) from"
  using assms
proof (induction es arbitrary: s)
  case (Cons e es)
  have "evolves s (lww_put e s) from"
    using Cons.prems room_puts[of es "lww_put e s"] by (intro evolves_put) auto
  moreover have "evolves (lww_put e s) (fold lww_put es (lww_put e s)) from"
    by (rule Cons.IH) (use Cons.prems lww.ok_put in auto)
  ultimately show ?case by (auto intro: evolves_trans)
qed (simp add: evolves_refl)

text \<open>The merge of a received batch, as the exchange runs it.\<close>

definition merged :: "string \<Rightarrow> entry list \<Rightarrow> sync_state \<Rightarrow> sync_state" where
  "merged d es s =
     (fold lww_put es (s\<lparr>st_inbound_origin := Some d\<rparr>))\<lparr>st_inbound_origin := st_inbound_origin s\<rparr>"

lemma inbound_lww: "\<exists>n. inbound lww_applier d es s x = (Inr n, merged d es s, x)"
  using merge_snapshot_fold[of es "s\<lparr>st_inbound_origin := Some d\<rparr>"]
  by (cases "merge_snapshot es (s\<lparr>st_inbound_origin := Some d\<rparr>)")
     (auto simp: inbound_def with_inbound_origin_def lww_applier_def merged_def)

lemma lww_puts_get:
  assumes "state_ok s"
  shows "entry_of (merged d es s) k = entry_of (fold lww_put es (s\<lparr>st_inbound_origin := Some d\<rparr>)) k"
  by (simp add: merged_def)

lemma state_ok_merged: "state_ok s \<Longrightarrow> state_ok (merged d es s)"
  by (simp add: merged_def lww.ok_puts)

lemma merged_dom: "state_ok s \<Longrightarrow> e \<in> set es \<Longrightarrow> dom_by (merged d es s) e"
  using lww.puts_covers[of "s\<lparr>st_inbound_origin := Some d\<rparr>" e es] by (auto simp: dom_by_def merged_def)

lemma merged_mono: "state_ok s \<Longrightarrow> dom_by s e \<Longrightarrow> dom_by (merged d es s) e"
  using lww.puts_mono[of "s\<lparr>st_inbound_origin := Some d\<rparr>" "e_key e" _ es]
  by (fastforce simp: dom_by_def merged_def intro: order_trans)

lemma merged_source:
  "state_ok s \<Longrightarrow> entry_of (merged d es s) k = Some y \<Longrightarrow>
   entry_of s k = Some y \<or> y \<in> set es \<and> e_key y = k"
  using lww.puts_source[of "s\<lparr>st_inbound_origin := Some d\<rparr>" es k y] by (auto simp: merged_def)

lemma merged_frame [simp]:
  "st_device_id (merged d es s) = st_device_id s" "st_epoch (merged d es s) = st_epoch s"
  "st_peer_cursors (merged d es s) = st_peer_cursors s"
  "st_inbound_origin (merged d es s) = st_inbound_origin s"
  "get_peer_cursor p (merged d es s) = get_peer_cursor p s"
  by (simp_all add: merged_def get_peer_cursor_def)

lemma evolves_merged:
  assumes "state_ok s" and "room (merged d es s)" and "\<And>e. e \<in> set es \<Longrightarrow> from d e"
  shows "evolves s (merged d es s) from"
proof -
  let ?s = "s\<lparr>st_inbound_origin := Some d\<rparr>"
  have "evolves ?s (fold lww_put es ?s) from"
    using assms by (intro evolves_puts) (auto simp: merged_def room_def)
  then show ?thesis by (simp add: evolves_def merged_def)
qed

section \<open>What cursors and messages promise\<close>

text \<open>
  \<open>cursor_ok A B cur\<close>: a cursor naming \<open>B\<close>'s history covers entries \<open>A\<close> already dominates.
  \<open>origin_ok A a B\<close>: what \<open>B\<close> got from \<open>a\<close> is dominated at \<open>A\<close>. \<open>delta_ok A B out\<close>: after
  merging \<open>out\<close>, device \<open>A\<close> is covered up to its cursor.
\<close>

definition cursor_ok :: "sync_state \<Rightarrow> sync_state \<Rightarrow> peer_cursor \<Rightarrow> bool" where
  "cursor_ok A B cur \<longleftrightarrow>
     (pc_epoch cur = st_epoch B \<longrightarrow> pc_clock cur \<noteq> 0 \<longrightarrow>
        pc_clock cur \<le> st_sequence B \<and>
        (\<forall>k e. entry_of B k = Some e \<longrightarrow> sequence_of k B \<le> pc_clock cur \<longrightarrow> dom_by A e))"

definition origin_ok :: "sync_state \<Rightarrow> string \<Rightarrow> sync_state \<Rightarrow> bool" where
  "origin_ok A a B \<longleftrightarrow>
     (\<forall>k e. entry_of B k = Some e \<longrightarrow> bm_get (st_origins B) k = Some a \<longrightarrow> dom_by A e)"

definition delta_ok :: "sync_state \<Rightarrow> sync_state \<Rightarrow> outbound_delta \<Rightarrow> bool" where
  "delta_ok A B out \<longleftrightarrow>
     (\<forall>e\<in>set (od_entries out). dom_by B e) \<and>
     pc_epoch (od_cursor out) = st_epoch B \<and> pc_clock (od_cursor out) \<le> st_sequence B \<and>
     (\<forall>k e. entry_of B k = Some e \<longrightarrow> sequence_of k B \<le> pc_clock (od_cursor out) \<longrightarrow>
        dom_by A e \<or> (\<exists>x\<in>set (od_entries out). e_key x = e_key e \<and> e_clock e \<le> e_clock x))"

lemma outbound_delta_ok:
  assumes ok: "state_ok B" and cur: "cursor_ok A B cur" and orig: "origin_ok A a B"
  shows "delta_ok A B \<lparr>od_entries = fst (outbound_for a cur B), od_cursor = current_cursor B,
    od_full = full\<rparr>"
proof -
  let ?out = "fst (outbound_for a cur B)"
  have key: "e_key e = k" if "entry_of B k = Some e" for k e
    using ok that by (auto simp: state_ok_def entry_of_def)
  have src: "dom_by B e" if e: "e \<in> set ?out" for e
  proof -
    have "e \<in> set (state_snapshot B)"
      using e by (auto simp: outbound_for_def Let_def delta_since_def state_snapshot_def bm_values_def
          split: if_splits)
    then obtain k where "entry_of B k = Some e" using set_state_snapshot[OF ok] by blast
    then show ?thesis using key by (auto simp: dom_by_def)
  qed
  have cover: "dom_by A e \<or> (\<exists>x\<in>set ?out. e_key x = e_key e \<and> e_clock e \<le> e_clock x)"
    if e: "entry_of B k = Some e" for k e
  proof (cases "is_full_snapshot_request (resolve_cursor cur B) B")
    case True
    then have "e \<in> set ?out"
      using e set_state_snapshot[OF ok] by (auto simp: outbound_for_def Let_def)
    then show ?thesis by blast
  next
    case False
    then have ep: "pc_epoch cur = st_epoch B" "pc_clock cur \<noteq> 0"
      and res: "resolve_cursor cur B = pc_clock cur"
      by (auto simp: resolve_cursor_def is_full_snapshot_request_def split: if_splits)
    have member: "(k, e) \<in> set (st_entries B)" using e by (auto simp: entry_of_def dest: map_of_SomeD)
    consider "sequence_of k B \<le> pc_clock cur" | "bm_get (st_origins B) k = Some a"
      | "pc_clock cur < sequence_of k B" "bm_get (st_origins B) k \<noteq> Some a"
      by fastforce
    then show ?thesis
    proof cases
      case 1
      then show ?thesis using cur ep e by (auto simp: cursor_ok_def)
    next
      case 2
      then show ?thesis using orig e by (auto simp: origin_ok_def)
    next
      case 3
      then have "e \<in> set ?out"
        using member False by (force simp: outbound_for_def Let_def delta_since_def res)
      then show ?thesis by blast
    qed
  qed
  show ?thesis
    using src cover by (auto simp: delta_ok_def current_cursor_def)
qed

lemma delta_ok_merge:
  assumes "state_ok A" and d: "delta_ok A B out"
  shows "cursor_ok (merged b (od_entries out) A) B (od_cursor out)"
  unfolding cursor_ok_def
proof (intro impI conjI allI)
  show "pc_clock (od_cursor out) \<le> st_sequence B" using d by (simp add: delta_ok_def)
  fix k e
  assume "entry_of B k = Some e" "sequence_of k B \<le> pc_clock (od_cursor out)"
  then consider "dom_by A e" | x where "x \<in> set (od_entries out)" "e_key x = e_key e" "e_clock e \<le> e_clock x"
    using d unfolding delta_ok_def by blast
  then show "dom_by (merged b (od_entries out) A) e"
  proof cases
    case 1
    then show ?thesis by (rule merged_mono[OF assms(1)])
  next
    case 2
    then show ?thesis using merged_dom[OF assms(1), of x "od_entries out" b]
      by (auto simp: dom_by_def intro: order_trans)
  qed
qed

text \<open>The promises survive what either device does.\<close>

lemma cursor_ok_evolves:
  assumes "cursor_ok A B cur" and A: "evolves A A' fa" and B: "evolves B B' fb"
  shows "cursor_ok A' B' cur"
  unfolding cursor_ok_def
proof (intro impI conjI allI)
  assume "pc_epoch cur = st_epoch B'" "pc_clock cur \<noteq> 0"
  then have old: "pc_clock cur \<le> st_sequence B"
    "\<And>k e. entry_of B k = Some e \<Longrightarrow> sequence_of k B \<le> pc_clock cur \<Longrightarrow> dom_by A e"
    using assms(1) B by (auto simp: cursor_ok_def evolves_def)
  then show "pc_clock cur \<le> st_sequence B'" using B by (auto simp: evolves_def)
  fix k e
  assume e: "entry_of B' k = Some e" and s: "sequence_of k B' \<le> pc_clock cur"
  then have "\<not> st_sequence B < sequence_of k B'" using old(1) by simp
  then have "entry_of B k = Some e" "sequence_of k B \<le> pc_clock cur"
    using evolvesD[OF B, of k] e s by auto
  then show "dom_by A' e" using old(2) evolves_dom[OF A] by blast
qed

lemma origin_ok_evolves:
  assumes "origin_ok A a B" and A: "evolves A A' fa" and B: "evolves B B' fb"
    and "\<And>e. fb a e \<Longrightarrow> dom_by A' e"
  shows "origin_ok A' a B'"
  unfolding origin_ok_def
proof (intro impI allI)
  fix k e
  assume "entry_of B' k = Some e" "bm_get (st_origins B') k = Some a"
  then consider "entry_of B k = Some e" "bm_get (st_origins B) k = Some a" | "fb a e"
    using evolvesD[OF B, of k] by auto
  then show "dom_by A' e"
    using assms(1,4) evolves_dom[OF A] by cases (auto simp: origin_ok_def)
qed

lemma delta_ok_evolves:
  assumes "delta_ok A B out" and A: "evolves A A' fa" and B: "evolves B B' fb"
  shows "delta_ok A' B' out"
  unfolding delta_ok_def
proof (intro conjI ballI allI impI)
  fix e assume "e \<in> set (od_entries out)"
  then show "dom_by B' e" using assms(1) evolves_dom[OF B] by (simp add: delta_ok_def)
next
  show "pc_epoch (od_cursor out) = st_epoch B'" "pc_clock (od_cursor out) \<le> st_sequence B'"
    using assms(1) B by (auto simp: delta_ok_def evolves_def)
next
  fix k e
  assume e: "entry_of B' k = Some e" and s: "sequence_of k B' \<le> pc_clock (od_cursor out)"
  have "\<not> st_sequence B < sequence_of k B'" using s assms(1) by (auto simp: delta_ok_def)
  then have "entry_of B k = Some e" "sequence_of k B \<le> pc_clock (od_cursor out)"
    using evolvesD[OF B, of k] e s by auto
  then show "dom_by A' e \<or> (\<exists>x\<in>set (od_entries out). e_key x = e_key e \<and> e_clock e \<le> e_clock x)"
    using assms(1) evolves_dom[OF A] by (auto simp: delta_ok_def)
qed

section \<open>The invariant of the network\<close>

fun packet_entries :: "packet \<Rightarrow> entry list" where
  "packet_entries (Request a b cur) = []"
| "packet_entries (Reply b a out acked) = od_entries out"
| "packet_entries (Push a b reply) = od_entries reply"

definition universe :: "network \<Rightarrow> entry set" where
  "universe net =
     {e. \<exists>d k. entry_of (nodes net d) k = Some e} \<union> (\<Union>p\<in>flight net. set (packet_entries p))"

text \<open>No device has stamped a clock beyond its counter, and a clock stands for one entry.\<close>

definition universe_ok :: "network \<Rightarrow> bool" where
  "universe_ok net \<longleftrightarrow>
     clock_determines e_key e_clock (universe net) \<and>
     (\<forall>e\<in>universe net. clk_counter (e_clock e) \<le> st_counter (nodes net (clk_device (e_clock e))))"

fun packet_ok :: "(string \<Rightarrow> sync_state) \<Rightarrow> packet \<Rightarrow> bool" where
  "packet_ok n (Request a b cur) = (a \<noteq> b \<and> cursor_ok (n a) (n b) cur)"
| "packet_ok n (Reply b a out acked) =
     (a \<noteq> b \<and> delta_ok (n a) (n b) out \<and> cursor_ok (n b) (n a) acked)"
| "packet_ok n (Push a b reply) = (a \<noteq> b \<and> delta_ok (n b) (n a) reply)"

definition net_ok :: "network \<Rightarrow> bool" where
  "net_ok net \<longleftrightarrow>
     (\<forall>d. state_ok (nodes net d) \<and> st_device_id (nodes net d) = d) \<and>
     (\<forall>a b. a \<noteq> b \<longrightarrow> cursor_ok (nodes net a) (nodes net b) (get_peer_cursor b (nodes net a)) \<and>
        origin_ok (nodes net a) a (nodes net b)) \<and>
     (\<forall>p\<in>flight net. packet_ok (nodes net) p) \<and> universe_ok net"

lemma packet_ok_evolves:
  assumes "packet_ok n p" and "\<And>x. evolves (n x) (n' x) (f x)"
  shows "packet_ok n' p"
  using assms
  by (cases p) (auto intro: cursor_ok_evolves[OF _ assms(2) assms(2)] delta_ok_evolves[OF _ assms(2) assms(2)])

text \<open>One device changes and some messages are sent.\<close>

lemma net_ok_deliver:
  assumes net: "net_ok net" and ok: "state_ok s" and dev: "st_device_id s = d"
    and ev: "evolves (nodes net d) s (\<lambda>a e. a \<noteq> d \<longrightarrow> dom_by (nodes net a) e)"
    and cur: "\<And>b. b \<noteq> d \<Longrightarrow> cursor_ok s (nodes net b) (get_peer_cursor b s)"
    and ps: "\<And>p. p \<in> ps \<Longrightarrow> packet_ok ((nodes net)(d := s)) p"
    and u: "universe_ok (deliver d s ps net)"
  shows "net_ok (deliver d s ps net)"
proof -
  let ?n = "(nodes net)(d := s)"
  let ?f = "\<lambda>x. if x = d then (\<lambda>a e. a \<noteq> d \<longrightarrow> dom_by (nodes net a) e) else (\<lambda>_ _. False)"
  have all: "evolves (nodes net x) (?n x) (?f x)" for x
    using ev evolves_refl by auto
  have pair: "cursor_ok (?n a) (?n b) (get_peer_cursor b (?n a)) \<and> origin_ok (?n a) a (?n b)"
    if "a \<noteq> b" for a b
  proof
    have old: "cursor_ok (nodes net a) (nodes net b) (get_peer_cursor b (nodes net a))"
      "origin_ok (nodes net a) a (nodes net b)"
      using net that by (auto simp: net_ok_def)
    show "cursor_ok (?n a) (?n b) (get_peer_cursor b (?n a))"
    proof (cases "a = d")
      case True
      then show ?thesis using cur[of b] that by simp
    next
      case False
      then show ?thesis using cursor_ok_evolves[OF old(1) all all] by simp
    qed
    show "origin_ok (?n a) a (?n b)"
      by (rule origin_ok_evolves[OF old(2) all all]) (use that in \<open>auto split: if_splits\<close>)
  qed
  have "packet_ok ?n p" if "p \<in> flight net" for p
  proof -
    have "packet_ok (nodes net) p" using net that by (simp add: net_ok_def)
    then show ?thesis by (rule packet_ok_evolves[where f = ?f]) (rule all)
  qed
  then show ?thesis
    using net ok dev pair ps u by (auto simp: net_ok_def deliver_def)
qed

lemma universe_ok_shrink:
  assumes "universe_ok net" and "universe net' \<subseteq> universe net"
    and "\<And>d. st_counter (nodes net d) \<le> st_counter (nodes net' d)"
  shows "universe_ok net'"
  using assms clock_determines_subset unfolding universe_ok_def by (meson order_trans subsetD)

lemma st_counter_puts_mono: "st_counter s \<le> st_counter (fold lww_put es s)"
proof (induction es arbitrary: s)
  case (Cons e es)
  have "st_counter s \<le> st_counter (lww_put e s)"
    by (auto simp: lww_put_def apply_entry_def Let_def split: option.splits)
  then show ?case using Cons[of "lww_put e s"] by simp
qed simp

lemma st_counter_merged: "st_counter s \<le> st_counter (merged d es s)"
  using st_counter_puts_mono[of "s\<lparr>st_inbound_origin := Some d\<rparr>" es] by (simp add: merged_def)

lemma client_section_lww:
  assumes "client_section lww_applier b acked remote es s () = (Inr (reply, n), t, ())"
  shows "t = set_peer_cursor b remote (merged b es s) \<and>
    od_entries reply = fst (outbound_for b acked s) \<and> od_cursor reply = current_cursor s"
proof -
  obtain m where "inbound lww_applier b es s () = (Inr m, merged b es s, ())"
    using inbound_lww[where x = "()"] by blast
  then show ?thesis using assms by (auto simp: client_section_def Let_def split: prod.splits)
qed

lemma server_receive_lww:
  assumes "server_receive lww_applier a (Some c) es s () = (Inr n, t, ())"
  shows "t = set_peer_cursor a c (merged a es s)"
proof -
  obtain m where "inbound lww_applier a es s () = (Inr m, merged a es s, ())"
    using inbound_lww[where x = "()"] by blast
  then show ?thesis using assms by (auto simp: server_receive_def Let_def lww_applier_def)
qed

lemma server_export_lww:
  assumes "server_export lww_applier a cur s () = (Inr (out, acked), t, ())"
  shows "t = s \<and> od_entries out = fst (outbound_for a cur s) \<and>
    od_cursor out = current_cursor s \<and> acked = get_peer_cursor a s"
  using assms by (auto simp: server_export_def lww_applier_def split: prod.splits)

lemma delta_ok_eq:
  "od_entries x = od_entries y \<Longrightarrow> od_cursor x = od_cursor y \<Longrightarrow> delta_ok A B x = delta_ok A B y"
  by (simp add: delta_ok_def)

lemma outbound_ok:
  assumes "state_ok B" and "cursor_ok A B cur" and "origin_ok A a B"
    and "od_entries out = fst (outbound_for a cur B)" and "od_cursor out = current_cursor B"
  shows "delta_ok A B out"
  using outbound_delta_ok[OF assms(1-3), of False] delta_ok_eq[of out "\<lparr>od_entries = fst (outbound_for a cur B),
    od_cursor = current_cursor B, od_full = False\<rparr>" A B] assms(4,5) by simp

lemma outbound_source:
  assumes "state_ok B" and "e \<in> set (fst (outbound_for a cur B))"
  shows "\<exists>k. entry_of B k = Some e"
proof -
  have "e \<in> set (state_snapshot B)"
    using assms(2) by (auto simp: outbound_for_def Let_def delta_since_def state_snapshot_def bm_values_def
        split: if_splits)
  then show ?thesis using set_state_snapshot[OF assms(1)] by blast
qed

section \<open>Every step keeps the invariant\<close>

lemma net_okD:
  assumes "net_ok net"
  shows "state_ok (nodes net d)" and "st_device_id (nodes net d) = d"
    and "a \<noteq> b \<Longrightarrow> cursor_ok (nodes net a) (nodes net b) (get_peer_cursor b (nodes net a))"
    and "a \<noteq> b \<Longrightarrow> origin_ok (nodes net a) a (nodes net b)"
    and "p \<in> flight net \<Longrightarrow> packet_ok (nodes net) p"
    and "universe_ok net"
  using assms by (auto simp: net_ok_def)

lemma universe_node: "entry_of (nodes net d) k = Some e \<Longrightarrow> e \<in> universe net"
  by (auto simp: universe_def)

lemma universe_packet: "p \<in> flight net \<Longrightarrow> e \<in> set (packet_entries p) \<Longrightarrow> e \<in> universe net"
  by (auto simp: universe_def)

lemma universe_deliver:
  assumes "\<And>k e. entry_of s k = Some e \<Longrightarrow> e \<in> V" and "\<And>p e. p \<in> ps \<Longrightarrow> e \<in> set (packet_entries p) \<Longrightarrow> e \<in> V"
    and "universe net \<subseteq> V"
  shows "universe (deliver d s ps net) \<subseteq> V"
proof
  fix e assume "e \<in> universe (deliver d s ps net)"
  then consider k where "entry_of s k = Some e" | c k where "entry_of (nodes net c) k = Some e"
    | p where "p \<in> ps" "e \<in> set (packet_entries p)" | p where "p \<in> flight net" "e \<in> set (packet_entries p)"
    by (auto simp: universe_def deliver_def split: if_splits)
  then show "e \<in> V" using assms by cases (auto simp: universe_def dest!: subsetD)
qed

lemma net_ok_write:
  assumes net: "net_ok net" and c: "st_counter (nodes net d) \<noteq> u64_max"
    and set: "state_set k v (nodes net d) = (e, s)" and r: "room s"
  shows "net_ok (deliver d s {} net)"
proof (rule net_ok_deliver[OF net])
  let ?s = "nodes net d"
  note ok = net_okD(1)[OF net, of d]
  have s: "s = snd (state_set k v ?s)" using set by simp
  have e: "e = \<lparr>e_key = k, e_value = v, e_clock = LamportClock (sat_inc (st_counter ?s)) d\<rparr>"
    using set net_okD(2)[OF net, of d] by (auto simp: state_set_def Let_def)
  have get: "entry_of s j = (if j = k then Some e else entry_of ?s j)" for j
    using set by (auto simp: state_set_def Let_def entry_of_def bm_get_insert)
  have cursor: "get_peer_cursor b s = get_peer_cursor b ?s" and count: "st_counter s = sat_inc (st_counter ?s)" for b
    using set by (auto simp: state_set_def Let_def get_peer_cursor_def)
  have ev: "evolves ?s s from" for "from" by (rule evolves_set[OF ok set r c])
  show "state_ok s" unfolding s by (rule state_ok_set[OF ok])
  show "st_device_id s = d" using ev net_okD(2)[OF net, of d] by (auto simp: evolves_def)
  show "evolves ?s s (\<lambda>a e. a \<noteq> d \<longrightarrow> dom_by (nodes net a) e)" by (rule ev)
  show "cursor_ok s (nodes net b) (get_peer_cursor b s)" if "b \<noteq> d" for b
    using cursor_ok_evolves[OF net_okD(3)[OF net, of d b] ev evolves_refl] that cursor by auto
  have sub: "universe (deliver d s {} net) \<subseteq> insert e (universe net)"
    by (rule universe_deliver) (auto simp: get intro: universe_node split: if_splits)
  have auth: "clk_counter (e_clock x) \<le> st_counter (nodes net (clk_device (e_clock x)))"
    if "x \<in> universe net" for x
    using net_okD(6)[OF net] that by (auto simp: universe_ok_def)
  have fresh: "e_clock x \<noteq> e_clock e" if "x \<in> universe net" for x
  proof
    assume eq: "e_clock x = e_clock e"
    then have "sat_inc (st_counter ?s) \<le> st_counter ?s" using auth[OF that] by (simp add: e)
    then show False using less_sat_inc_iff[of "st_counter ?s"] c by (metis leD)
  qed
  have "clock_determines e_key e_clock (insert e (universe net))"
    using net_okD(6)[OF net] fresh unfolding universe_ok_def clock_determines_def by (metis insert_iff)
  then have "clock_determines e_key e_clock (universe (deliver d s {} net))"
    by (rule clock_determines_subset[OF _ sub])
  moreover have "clk_counter (e_clock x) \<le> st_counter (nodes (deliver d s {} net) (clk_device (e_clock x)))"
    if "x \<in> universe (deliver d s {} net)" for x
  proof (cases "x = e")
    case True
    then show ?thesis by (simp add: e deliver_def count)
  next
    case False
    then have "x \<in> universe net" using that sub by auto
    from auth[OF this] show ?thesis by (auto simp: deliver_def count intro: le_sat_incI)
  qed
  ultimately show "universe_ok (deliver d s {} net)" by (simp add: universe_ok_def)
qed simp

lemma net_ok_quiet:
  assumes net: "net_ok net" and ps: "\<And>p. p \<in> ps \<Longrightarrow> packet_ok (nodes net) p"
    and src: "\<And>p e. p \<in> ps \<Longrightarrow> e \<in> set (packet_entries p) \<Longrightarrow> e \<in> universe net"
  shows "net_ok (deliver d (nodes net d) ps net)"
proof (rule net_ok_deliver[OF net])
  have "universe (deliver d (nodes net d) ps net) \<subseteq> universe net"
    by (rule universe_deliver) (auto intro: universe_node src)
  then show "universe_ok (deliver d (nodes net d) ps net)"
    by (rule universe_ok_shrink[OF net_okD(6)[OF net]]) (simp add: deliver_def)
qed (use net_okD[OF net] ps evolves_refl in auto)

text \<open>A device merges what a peer sent, sets its cursor for the peer, and may answer.\<close>

lemma net_ok_merge:
  assumes net: "net_ok net" and ne: "a \<noteq> b"
    and out: "delta_ok (nodes net a) (nodes net b) out"
    and u: "\<And>e. e \<in> set (od_entries out) \<Longrightarrow> e \<in> universe net"
    and s_def: "s = set_peer_cursor b (od_cursor out) (merged b (od_entries out) (nodes net a))"
    and r: "room s"
    and ps: "\<And>p. p \<in> ps \<Longrightarrow> packet_ok ((nodes net)(a := s)) p"
    and src: "\<And>p e. p \<in> ps \<Longrightarrow> e \<in> set (packet_entries p) \<Longrightarrow> e \<in> universe net"
  shows "net_ok (deliver a s ps net)"
proof (rule net_ok_deliver[OF net])
  let ?A = "nodes net a" and ?M = "merged b (od_entries out) (nodes net a)"
  note ok = net_okD(1)[OF net, of a]
  show "state_ok s" unfolding s_def by (intro state_ok_set_peer_cursor state_ok_merged ok)
  show "st_device_id s = a" using net_okD(2)[OF net, of a] by (simp add: s_def)
  have "evolves ?A ?M (\<lambda>c e. c \<noteq> a \<longrightarrow> dom_by (nodes net c) e)"
    by (rule evolves_merged[OF ok]) (use r out in \<open>auto simp: s_def room_def delta_ok_def\<close>)
  then show ev: "evolves ?A s (\<lambda>c e. c \<noteq> a \<longrightarrow> dom_by (nodes net c) e)"
    by (simp add: evolves_def s_def)
  show "cursor_ok s (nodes net c) (get_peer_cursor c s)" if "c \<noteq> a" for c
  proof (cases "c = b")
    case True
    have "cursor_ok ?M (nodes net b) (od_cursor out)" by (rule delta_ok_merge[OF ok out])
    then show ?thesis using True by (simp add: s_def cursor_ok_def dom_by_def)
  next
    case False
    then show ?thesis
      using cursor_ok_evolves[OF net_okD(3)[OF net, of a c] ev evolves_refl] that by (simp add: s_def)
  qed
  have "universe (deliver a s ps net) \<subseteq> universe net"
    by (rule universe_deliver)
       (auto simp: s_def dest!: merged_source[OF ok] intro: universe_node u src)
  then show "universe_ok (deliver a s ps net)"
    by (rule universe_ok_shrink[OF net_okD(6)[OF net]])
       (simp add: deliver_def s_def st_counter_merged)
qed (rule ps)

lemma net_ok_step: "net_step net net' \<Longrightarrow> net_ok net \<Longrightarrow> net_ok net'"
proof (induction rule: net_step.induct)
  case (local_write net d k v e s)
  then show ?case using net_ok_write by blast
next
  case (request a b net)
  then show ?case using net_okD(3)[OF request(2)] by (intro net_ok_quiet) auto
next
  case (answer a b cur net out acked s)
  note net = answer(3)
  from net_okD(5)[OF net answer(1)] have ne: "a \<noteq> b" and cur: "cursor_ok (nodes net a) (nodes net b) cur"
    by auto
  from server_export_lww[OF answer(2)] have s: "s = nodes net b"
    and out: "od_entries out = fst (outbound_for a cur (nodes net b))" "od_cursor out = current_cursor (nodes net b)"
    and acked: "acked = get_peer_cursor a (nodes net b)" by auto
  have "delta_ok (nodes net a) (nodes net b) out"
    by (rule outbound_ok[OF net_okD(1)[OF net] cur net_okD(4)[OF net ne] out])
  moreover have "e \<in> universe net" if "e \<in> set (od_entries out)" for e
    using outbound_source[OF net_okD(1)[OF net]] that out(1) universe_node by metis
  ultimately show ?case
    unfolding s using net ne net_okD(3)[OF net, of b a] acked by (intro net_ok_quiet) auto
next
  case (merge b a out acked net reply n s)
  note net = merge(4)
  from net_okD(5)[OF net merge(1)] have ne: "a \<noteq> b" and out: "delta_ok (nodes net a) (nodes net b) out"
    and acked: "cursor_ok (nodes net b) (nodes net a) acked" by auto
  from client_section_lww[OF merge(2)]
  have s: "s = set_peer_cursor b (od_cursor out) (merged b (od_entries out) (nodes net a))"
    and reply: "od_entries reply = fst (outbound_for b acked (nodes net a))"
      "od_cursor reply = current_cursor (nodes net a)" by auto
  have d: "delta_ok (nodes net b) (nodes net a) reply"
    using outbound_ok[OF net_okD(1)[OF net] acked net_okD(4)[OF net, of b a] reply] ne by simp
  have "evolves (nodes net a) (merged b (od_entries out) (nodes net a)) (\<lambda>_ _. True)"
    by (rule evolves_merged[OF net_okD(1)[OF net]]) (use merge(3) s in \<open>auto simp: room_def\<close>)
  then have "evolves (nodes net a) s (\<lambda>_ _. True)" by (simp add: evolves_def s)
  then have "delta_ok (nodes net b) s reply" by (rule delta_ok_evolves[OF d evolves_refl])
  moreover have "e \<in> universe net" if "e \<in> set (od_entries reply)" for e
    using outbound_source[OF net_okD(1)[OF net]] that reply(1) universe_node by metis
  moreover have "e \<in> universe net" if "e \<in> set (od_entries out)" for e
    using universe_packet[OF merge(1)] that by simp
  ultimately show ?case
    using ne by (intro net_ok_merge[OF net ne out _ s merge(3)]) auto
next
  case (receive a b reply net n s)
  note net = receive(4)
  from net_okD(5)[OF net receive(1)] have ne: "b \<noteq> a" and out: "delta_ok (nodes net b) (nodes net a) reply"
    by auto
  show ?case
    by (rule net_ok_merge[OF net ne out _ server_receive_lww[OF receive(2)] receive(3)])
       (use universe_packet[OF receive(1)] in auto)
qed

lemma net_ok_start: "net_ok \<lparr>nodes = (\<lambda>d. state_new (rnd d) d), flight = {}\<rparr>"
proof -
  have get: "entry_of (state_new r d) k = None" for r d k by (simp add: entry_of_def state_new_def)
  have "get_peer_cursor b (state_new r d) = default_cursor" for b r d
    by (simp add: get_peer_cursor_def state_new_def)
  then show ?thesis
    using state_ok_new
    by (auto simp: net_ok_def get cursor_ok_def origin_ok_def default_cursor_def universe_ok_def
        universe_def clock_determines_def) (simp_all add: state_new_def)
qed

lemma reachable_ok: "reachable net \<Longrightarrow> net_ok net"
  by (induction rule: reachable.induct) (auto intro: net_ok_start net_ok_step)

section \<open>Convergence\<close>

lemma dom_by_self: "state_ok s \<Longrightarrow> entry_of s k = Some e \<Longrightarrow> dom_by s e"
  by (auto simp: dom_by_def state_ok_def entry_of_def)

lemma dom_by_cursor [simp]: "dom_by (set_peer_cursor p c s) e = dom_by s e"
  by (simp add: dom_by_def)

lemma dom_by_trans: "dom_by s x \<Longrightarrow> e_key x = e_key e \<Longrightarrow> e_clock e \<le> e_clock x \<Longrightarrow> dom_by s e"
  by (auto simp: dom_by_def intro: order_trans)

lemma exchange_equal:
  assumes net: "net_ok net" and ne: "a \<noteq> b"
    and req: "server_export lww_applier a (get_peer_cursor b (nodes net a)) (nodes net b) () =
      (Inr (out, acked), B, ())"
    and cl: "client_section lww_applier b acked (od_cursor out) (od_entries out) (nodes net a) () =
      (Inr (reply, n), A', ())"
    and rc: "server_receive lww_applier a (Some (od_cursor reply)) (od_entries reply) B () =
      (Inr m, B', ())"
  shows "st_entries A' = st_entries B'"
proof (rule entry_of_ext)
  let ?A = "nodes net a" and ?B = "nodes net b"
  note okA = net_okD(1)[OF net, of a] and okB = net_okD(1)[OF net, of b]
  from server_export_lww[OF req] have B: "B = ?B"
    and out: "od_entries out = fst (outbound_for a (get_peer_cursor b ?A) ?B)" "od_cursor out = current_cursor ?B"
    and acked: "acked = get_peer_cursor a ?B" by auto
  from client_section_lww[OF cl] have A': "A' = set_peer_cursor b (od_cursor out) (merged b (od_entries out) ?A)"
    and reply: "od_entries reply = fst (outbound_for b acked ?A)" "od_cursor reply = current_cursor ?A" by auto
  have B': "B' = set_peer_cursor a (od_cursor reply) (merged a (od_entries reply) ?B)"
    using server_receive_lww[OF rc] B by simp
  have dout: "delta_ok ?A ?B out"
    by (rule outbound_ok[OF okB net_okD(3)[OF net ne] net_okD(4)[OF net ne] out])
  have dback: "delta_ok ?B ?A reply"
    using outbound_ok[OF okA net_okD(3)[OF net, of b a, folded acked] net_okD(4)[OF net, of b a] reply] ne by simp
  show ok': "state_ok A'" "state_ok B'"
    using okA okB by (simp_all add: A' B' state_ok_set_peer_cursor state_ok_merged)
  have seq: "sequence_of k s \<le> st_sequence s" if "state_ok s" "entry_of s k = Some e" for s k e
  proof -
    have "bm_get (st_sequences s) k \<noteq> None" using that unfolding state_ok_def entry_of_def by force
    then show ?thesis using that(1) by (auto simp: state_ok_def sequence_of_def)
  qed
  text \<open>Everything either side holds before or after is dominated on the other side.\<close>
  have AB: "dom_by B' e" if e: "entry_of ?A k = Some e" for k e
  proof -
    have "dom_by ?B e \<or> (\<exists>x\<in>set (od_entries reply). e_key x = e_key e \<and> e_clock e \<le> e_clock x)"
      using dback e seq[OF okA e] unfolding delta_ok_def reply(2) current_cursor_def by auto
    then show ?thesis
      using merged_mono[OF okB] merged_dom[OF okB] dom_by_trans by (auto simp: B') blast+
  qed
  have BA: "dom_by A' e" if e: "entry_of ?B k = Some e" for k e
  proof -
    have "dom_by ?A e \<or> (\<exists>x\<in>set (od_entries out). e_key x = e_key e \<and> e_clock e \<le> e_clock x)"
      using dout e seq[OF okB e] unfolding delta_ok_def out(2) current_cursor_def by auto
    then show ?thesis
      using merged_mono[OF okA] merged_dom[OF okA] dom_by_trans by (auto simp: A') blast+
  qed
  have srcA: "(\<exists>j. entry_of ?A j = Some y) \<or> (\<exists>j. entry_of ?B j = Some y)" if "entry_of A' k = Some y" for k y
    using that merged_source[OF okA] outbound_source[OF okB] out(1) by (simp add: A') metis
  have srcB: "(\<exists>j. entry_of ?A j = Some y) \<or> (\<exists>j. entry_of ?B j = Some y)" if "entry_of B' k = Some y" for k y
    using that merged_source[OF okB] outbound_source[OF okA] reply(1) by (simp add: B') metis
  have keyA: "e_key y = k" if "entry_of A' k = Some y" for k y
    using ok'(1) that by (auto simp: state_ok_def entry_of_def)
  have keyB: "e_key y = k" if "entry_of B' k = Some y" for k y
    using ok'(2) that by (auto simp: state_ok_def entry_of_def)
  have A'B': "dom_by B' y" if "entry_of A' k = Some y" for k y
    using srcA[OF that] AB merged_mono[OF okB] dom_by_self[OF okB] by (auto simp: B')
  have B'A': "dom_by A' y" if "entry_of B' k = Some y" for k y
    using srcB[OF that] BA merged_mono[OF okA] dom_by_self[OF okA] by (auto simp: A')
  fix k
  show "entry_of A' k = entry_of B' k"
  proof (cases "entry_of A' k")
    case None
    then show ?thesis using B'A'[of k] keyB[of k] by (cases "entry_of B' k") (auto simp: dom_by_def)
  next
    case (Some y)
    then obtain z where z: "entry_of B' k = Some z" "e_clock y \<le> e_clock z"
      using A'B'[of k y] keyA[of k y] by (auto simp: dom_by_def)
    then have "e_clock z \<le> e_clock y" using B'A'[of k z] keyB[of k z] Some by (auto simp: dom_by_def)
    moreover have "y \<in> universe net" "z \<in> universe net"
      using srcA[OF Some] srcB[OF z(1)] universe_node by blast+
    ultimately have "y = z"
      using net_okD(6)[OF net] keyA[OF Some] keyB[OF z(1)] z(2)
      by (auto simp: universe_ok_def intro: clock_determinesD)
    then show ?thesis using Some z(1) by simp
  qed
qed

end
