(* ===== verification/Listener.thy ===== *)
theory Listener
  imports Sync_Exchange
begin

text \<open>
  \<open>handle_connection\<close> of \<open>sync.rs\<close>: one inbound connection of the listener. The world is a
  handshake world (channel and handler) with the sync state, the app behind the applier, and
  the events emitted to the sink; addresses and times of the events are left out.
\<close>

datatype sync_event =
    FingerprintChanged identity string
  | InboundSync identity string nat

record ('x, 'h) server_world =
  sw_conn :: "'h pair_world"
  sw_state :: sync_state
  sw_app :: 'x
  sw_locks :: "lock_outcome list"
  sw_events :: "sync_event list"

definition sw_lift :: "'a result \<Rightarrow> ('x, 'h) server_world \<Rightarrow> 'a result \<times> ('x, 'h) server_world" where
  "sw_lift r w = (r, w)"

definition sw_do ::
  "('h pair_world \<Rightarrow> 'a result \<times> 'h pair_world) \<Rightarrow> ('x, 'h) server_world \<Rightarrow>
   'a result \<times> ('x, 'h) server_world" where
  "sw_do f w = (case f (sw_conn w) of (r, p) \<Rightarrow> (r, w\<lparr>sw_conn := p\<rparr>))"

definition sw_with_state ::
  "(sync_state \<Rightarrow> 'x \<Rightarrow> 'a result \<times> sync_state \<times> 'x) \<Rightarrow> ('x, 'h) server_world \<Rightarrow>
   'a result \<times> ('x, 'h) server_world" where
  "sw_with_state f w =
     (case sw_locks w of
        Inl err # rest \<Rightarrow> (Inl err, w\<lparr>sw_locks := rest\<rparr>)
      | Inr others # rest \<Rightarrow>
          (case f (others (sw_state w)) (sw_app w) of
             (r, s, x) \<Rightarrow> (r, w\<lparr>sw_state := s, sw_app := x, sw_locks := rest\<rparr>))
      | [] \<Rightarrow>
          (case f (sw_state w) (sw_app w) of
             (r, s, x) \<Rightarrow> (r, w\<lparr>sw_state := s, sw_app := x\<rparr>)))"

definition sw_ask :: "('h \<Rightarrow> 'a) \<Rightarrow> ('x, 'h) server_world \<Rightarrow> 'a result \<times> ('x, 'h) server_world" where
  "sw_ask f w = sw_do (pw_call (\<lambda>h. (Inr (f h), h))) w"

definition refuse_link :: "identity \<Rightarrow> ('x, 'h) server_world \<Rightarrow> unit result \<times> ('x, 'h) server_world" where
  "refuse_link identity w = sw_do (pw_send (LinkResponse identity False None)) w"

definition serve_link ::
  "'h handler \<Rightarrow> identity \<Rightarrow> app_key \<Rightarrow> string \<Rightarrow> identity \<Rightarrow> bytes option \<Rightarrow> string option \<Rightarrow>
   ('x, 'h) server_world \<Rightarrow> unit result \<times> ('x, 'h) server_world" where
  "serve_link hr identity key fingerprint device remote_key secret w =
     bindS (sw_ask (hd_allow_legacy_link hr) w) (\<lambda>legacy w.
     if \<not> legacy then refuse_link identity w else
     bindS (sw_ask (hd_app_id hr) w) (\<lambda>app w.
     if \<not> matches_app device app then refuse_link identity w else
     bindS (sw_ask (hd_pairing_secret hr) w) (\<lambda>expected w.
     if (case expected of None \<Rightarrow> False
         | Some e \<Rightarrow> (case secret of None \<Rightarrow> '''' | Some p \<Rightarrow> p) \<noteq> e)
     then refuse_link identity w else
     bindS (sw_lift (ok_or (Protocol ''linking request missing app key'') remote_key) w) (\<lambda>key_bytes w.
     bindS (sw_lift (app_key_from_slice key_bytes) w) (\<lambda>incoming_key w.
     bindS (sw_do (pw_call (hd_approve_link_with_fingerprint hr device fingerprint)) w) (\<lambda>accepted w.
     bindS (if accepted \<and> incoming_key \<noteq> key
            then sw_do (pw_call (hd_set_app_key hr incoming_key)) w else (Inr (), w)) (\<lambda>_ w.
     bindS (if accepted
            then bindS (sw_do (pw_call (\<lambda>h. (hd_app_key hr h, h))) w) (\<lambda>k w. (Inr (Some (as_bytes k)), w))
            else (Inr None, w)) (\<lambda>response_key w.
       sw_do (pw_send (LinkResponse identity accepted response_key)) w))))))))"

text \<open>The exchange a linked device asks for. \<open>None\<close>: answered without applying anything.\<close>

definition serve_request ::
  "aead \<Rightarrow> (nat \<Rightarrow> bytes) \<Rightarrow> 'x applier \<Rightarrow> app_key \<Rightarrow> string \<Rightarrow> message \<Rightarrow>
   ('x, 'h) server_world \<Rightarrow> nat option result \<times> ('x, 'h) server_world" where
  "serve_request c rng ap key remote_id m w =
     (case m of
        SnapshotRequest \<Rightarrow>
          bindS (sw_with_state (\<lambda>s x.
                   case ap_before_export ap s x of
                     (Inl err, s', x') \<Rightarrow> (Inl err, s', x')
                   | (Inr _, s', x') \<Rightarrow> (encrypt_entries c rng key (state_snapshot s'), s', x')) w)
            (\<lambda>snapshot w.
          bindS (sw_do (pw_send (Snapshot snapshot)) w) (\<lambda>_ w. (Inr None, w)))
      | Snapshot entries \<Rightarrow>
          bindS (sw_lift (decrypt_entries c key entries) w) (\<lambda>entries w.
          bindS (sw_with_state (server_receive ap remote_id None entries) w) (\<lambda>n w.
          bindS (sw_do (pw_send Ack) w) (\<lambda>_ w. (Inr (Some n), w))))
      | SnapshotSince clock epoch \<Rightarrow>
          bindS (sw_with_state
                   (server_export ap remote_id \<lparr>pc_epoch = epoch, pc_clock = clock\<rparr>) w)
            (\<lambda>(out, acked) w.
          bindS (sw_lift (encrypt_entries c rng key (od_entries out)) w) (\<lambda>encrypted w.
          bindS (sw_do (pw_send (Delta encrypted (pc_clock (od_cursor out)) (pc_epoch (od_cursor out))
                   (pc_clock acked) (pc_epoch acked) (od_full out))) w) (\<lambda>_ w.
          bindS (sw_do pw_recv w) (\<lambda>reply w.
          case reply of
            Delta entries clock epoch _ _ _ \<Rightarrow>
              bindS (sw_lift (decrypt_entries c key entries) w) (\<lambda>entries w.
              bindS (sw_with_state (server_receive ap remote_id
                       (Some \<lparr>pc_epoch = epoch, pc_clock = clock\<rparr>) entries) w) (\<lambda>n w.
              bindS (sw_do (pw_send Ack) w) (\<lambda>_ w. (Inr (Some n), w))))
          | _ \<Rightarrow> (Inl (Protocol ''expected delta''), w)))))
      | _ \<Rightarrow> (Inl (Protocol ''expected snapshot request, snapshot, or snapshot-since''), w))"

definition serve_hello ::
  "aead \<Rightarrow> (nat \<Rightarrow> bytes) \<Rightarrow> 'x applier \<Rightarrow> 'h handler \<Rightarrow> identity \<Rightarrow> app_key \<Rightarrow> string \<Rightarrow> identity \<Rightarrow>
   ('x, 'h) server_world \<Rightarrow> unit result \<times> ('x, 'h) server_world" where
  "serve_hello c rng ap hr identity key fingerprint device w =
     bindS (sw_ask (hd_allow_legacy_link hr) w) (\<lambda>legacy w.
     if \<not> legacy then (Inl (Protocol ''legacy sync disabled on managed listener''), w) else
     bindS (sw_ask (hd_app_id hr) w) (\<lambda>app w.
     if \<not> matches_app device app then (Inl (Protocol ''app id mismatch''), w) else
     bindS (sw_ask (hd_is_linked_with_fingerprint hr device fingerprint) w) (\<lambda>linked w.
     if \<not> linked then
       bindS (sw_ask (hd_is_linked hr device) w) (\<lambda>known w.
       if known
       then (Inl (FingerprintMismatch (id_device device) ''<pinned>'' fingerprint),
             w\<lparr>sw_events := sw_events w @ [FingerprintChanged device fingerprint]\<rparr>)
       else (Inl (Protocol ''device not linked''), w))
     else
       bindS (sw_do (pw_send (hello identity)) w) (\<lambda>_ w.
       bindS (sw_do pw_recv w) (\<lambda>m w.
       bindS (serve_request c rng ap key (id_device device) m w) (\<lambda>applied w.
         case applied of
           None \<Rightarrow> (Inr (), w)
         | Some n \<Rightarrow>
             (Inr (), w\<lparr>sw_events := sw_events w @ [InboundSync device fingerprint n]\<rparr>)))))))"

definition serve_first ::
  "'s pair_crypto \<Rightarrow> bytes \<Rightarrow> aead \<Rightarrow> (nat \<Rightarrow> bytes) \<Rightarrow> 'x applier \<Rightarrow> 'h handler \<Rightarrow> identity \<Rightarrow> string \<Rightarrow>
   app_key \<Rightarrow> string \<Rightarrow> message \<Rightarrow> ('x, 'h) server_world \<Rightarrow> unit result \<times> ('x, 'h) server_world" where
  "serve_first pc seed c rng ap hr identity own_fp key fingerprint m w =
     (case m of
        PairHello ph \<Rightarrow> sw_do (accept_secure pc seed hr (pw_set_budget hr) identity own_fp fingerprint ph) w
      | PairRecover ident peer \<Rightarrow> sw_do (accept_recovery hr (pw_set_budget hr) ident peer identity fingerprint) w
      | LinkRequest device remote_key secret \<Rightarrow>
          serve_link hr identity key fingerprint device remote_key secret w
      | Hello device version \<Rightarrow> serve_hello c rng ap hr identity key fingerprint device w
      | _ \<Rightarrow> (Inl (Protocol ''expected hello or link request''), w))"

definition handle_connection ::
  "'s pair_crypto \<Rightarrow> bytes \<Rightarrow> aead \<Rightarrow> (nat \<Rightarrow> bytes) \<Rightarrow> 'x applier \<Rightarrow> 'h handler \<Rightarrow> identity \<Rightarrow> string \<Rightarrow>
   error option \<Rightarrow> string option \<Rightarrow> ('x, 'h) server_world \<Rightarrow> unit result \<times> ('x, 'h) server_world" where
  "handle_connection pc seed c rng ap hr identity own_fp tls cert w =
     bindS (sw_do (pw_call (\<lambda>h. (hd_app_key hr h, h))) w) (\<lambda>key w.
     bindS (sw_lift (case tls of None \<Rightarrow> Inr () | Some err \<Rightarrow> Inl err) w) (\<lambda>_ w.
     case sw_do pw_recv w of
       (Inl (Io kind e), w) \<Rightarrow> (if is_disconnect kind then Inr () else Inl (Io kind e), w)
     | (Inl err, w) \<Rightarrow> (Inl err, w)
     | (Inr m, w) \<Rightarrow>
         bindS (sw_lift (device_fingerprint cert) w) (\<lambda>fingerprint.
           serve_first pc seed c rng ap hr identity own_fp key fingerprint m)))"

section \<open>What a stranger can do\<close>

text \<open>\<open>keeps\<close>: a computation leaves the sync state and the app behind the applier alone.\<close>

definition keeps :: "(('x, 'h) server_world \<Rightarrow> 'a result \<times> ('x, 'h) server_world) \<Rightarrow> bool" where
  "keeps f \<longleftrightarrow> (\<forall>w. sw_state (snd (f w)) = sw_state w \<and> sw_app (snd (f w)) = sw_app w)"

lemma keeps_bindS [intro]:
  "keeps f \<Longrightarrow> (\<And>x. keeps (g x)) \<Longrightarrow> keeps (\<lambda>w. bindS (f w) g)"
  unfolding keeps_def
proof
  fix w
  assume f: "\<forall>w. sw_state (snd (f w)) = sw_state w \<and> sw_app (snd (f w)) = sw_app w"
    and g: "\<And>x. \<forall>w. sw_state (snd (g x w)) = sw_state w \<and> sw_app (snd (g x w)) = sw_app w"
  obtain r w1 where eq: "f w = (r, w1)" by fastforce
  with f have "sw_state w1 = sw_state w \<and> sw_app w1 = sw_app w" by (metis snd_conv)
  with g show "sw_state (snd (bindS (f w) g)) = sw_state w \<and> sw_app (snd (bindS (f w) g)) = sw_app w"
    by (cases r) (simp_all add: eq)
qed

lemma keeps_pure [intro]: "keeps (\<lambda>w. (r, w))" "keeps (sw_lift r)"
  by (simp_all add: keeps_def sw_lift_def)

lemma keeps_event [intro]: "keeps (\<lambda>w. (r, w\<lparr>sw_events := sw_events w @ evs\<rparr>))"
  by (simp add: keeps_def)

lemma keeps_sw_do [intro]: "keeps (sw_do f)"
  by (auto simp: keeps_def sw_do_def split: prod.splits)

lemma keeps_sw_ask [intro]: "keeps (sw_ask f)"
  unfolding sw_ask_def by (rule keeps_sw_do)

lemma keeps_if [intro]: "keeps f \<Longrightarrow> keeps g \<Longrightarrow> keeps (\<lambda>w. if b then f w else g w)"
  by (simp add: keeps_def)

lemma keeps_refuse [intro]: "keeps (refuse_link i)"
  unfolding refuse_link_def by (rule keeps_sw_do)

lemma keepsD: "keeps f \<Longrightarrow> f w = (r, w') \<Longrightarrow> sw_state w' = sw_state w \<and> sw_app w' = sw_app w"
  by (metis keeps_def snd_conv)

lemma keeps_serve_link: "keeps (serve_link hr identity key fp device remote_key secret)"
  unfolding serve_link_def by (intro keeps_bindS keeps_if keeps_pure keeps_sw_ask keeps_refuse keeps_sw_do)

text \<open>Asked whether it is linked, the handler answers no for this device and certificate.\<close>

definition never_linked :: "'h handler \<Rightarrow> identity \<Rightarrow> string \<Rightarrow> bool" where
  "never_linked hr device fp \<longleftrightarrow> (\<forall>h. \<not> hd_is_linked_with_fingerprint hr device fp h)"

lemma sw_ask_answer: "\<exists>v w'. sw_ask f w = (Inr v, w')"
  by (cases "pw_env (sw_conn w)") (simp_all add: sw_ask_def sw_do_def pw_call_def)

lemma sw_ask_chan: "sw_ask f w = (r, w') \<Longrightarrow> pw_chan (sw_conn w') = pw_chan (sw_conn w)"
  by (cases "pw_env (sw_conn w)") (auto simp: sw_ask_def sw_do_def pw_call_def)

lemma sw_ask_Inr:
  "sw_ask f w = (Inr v, w') \<Longrightarrow> \<exists>h. v = f h"
  by (auto simp: sw_ask_def sw_do_def pw_call_def split: prod.splits list.splits)

text \<open>The part of \<open>serve_hello\<close> before the greeting is sent.\<close>

lemma serve_hello_stranger:
  assumes "never_linked hr device fp"
    and "serve_hello c rng ap hr identity key fp device w = (r, w')"
  shows "(\<exists>err. r = Inl err) \<and> sw_state w' = sw_state w \<and> sw_app w' = sw_app w \<and>
    pw_chan (sw_conn w') = pw_chan (sw_conn w)"
proof -
  have no: "\<not> linked"
    if "sw_ask (hd_is_linked_with_fingerprint hr device fp) v = (Inr linked, v')" for v v' linked
    using sw_ask_Inr[OF that] assms(1) by (auto simp: never_linked_def)
  obtain legacy w1 where 1: "sw_ask (hd_allow_legacy_link hr) w = (Inr legacy, w1)"
    using sw_ask_answer[of "hd_allow_legacy_link hr" w] by blast
  obtain app w2 where 2: "sw_ask (hd_app_id hr) w1 = (Inr app, w2)"
    using sw_ask_answer[of "hd_app_id hr" w1] by blast
  obtain linked w3 where 3: "sw_ask (hd_is_linked_with_fingerprint hr device fp) w2 = (Inr linked, w3)"
    using sw_ask_answer[of "hd_is_linked_with_fingerprint hr device fp" w2] by blast
  obtain known w4 where 4: "sw_ask (hd_is_linked hr device) w3 = (Inr known, w4)"
    using sw_ask_answer[of "hd_is_linked hr device" w3] by blast
  note frames = keepsD[OF keeps_sw_ask 1] keepsD[OF keeps_sw_ask 2] keepsD[OF keeps_sw_ask 3]
    keepsD[OF keeps_sw_ask 4]
  have chans: "pw_chan (sw_conn w1) = pw_chan (sw_conn w)" "pw_chan (sw_conn w2) = pw_chan (sw_conn w1)"
    "pw_chan (sw_conn w3) = pw_chan (sw_conn w2)" "pw_chan (sw_conn w4) = pw_chan (sw_conn w3)"
    using sw_ask_chan[OF 1] sw_ask_chan[OF 2] sw_ask_chan[OF 3] sw_ask_chan[OF 4] by simp_all
  show ?thesis
    using assms(2) no[OF 3] frames chans
    by (auto simp: serve_hello_def 1 2 3 4 split: if_splits)
qed

lemma handle_connection_stranger:
  assumes "\<And>device. never_linked hr device fp"
    and "handle_connection pc seed c rng ap hr identity own_fp tls (Some fp) w = (r, w')"
  shows "sw_state w' = sw_state w \<and> sw_app w' = sw_app w"
proof -
  have hello: "keeps (serve_hello c rng ap hr identity key fp device)" for key device
    unfolding keeps_def using serve_hello_stranger[OF assms(1)] by (metis prod.collapse)
  have first: "keeps (serve_first pc seed c rng ap hr identity own_fp key fp m)" for m key
    unfolding keeps_def
    using hello[of key, unfolded keeps_def] keeps_serve_link[of hr identity key fp, unfolded keeps_def]
      keeps_sw_do[unfolded keeps_def]
    by (cases m) (simp_all add: serve_first_def)
  have body: "keeps (\<lambda>v. bindS (sw_lift (device_fingerprint (Some fp)) v) (\<lambda>fingerprint.
       serve_first pc seed c rng ap hr identity own_fp key fingerprint m))" for m key
    using first by (simp add: device_fingerprint_def sw_lift_def)
  have "keeps (handle_connection pc seed c rng ap hr identity own_fp tls (Some fp))"
    unfolding handle_connection_def
  proof (intro keeps_bindS keeps_sw_do keeps_pure)
    fix key
    show "keeps (\<lambda>w. case sw_do pw_recv w of
       (Inl (Io kind e), w) \<Rightarrow> (if is_disconnect kind then Inr () else Inl (Io kind e), w)
     | (Inl err, w) \<Rightarrow> (Inl err, w)
     | (Inr m, w) \<Rightarrow> bindS (sw_lift (device_fingerprint (Some fp)) w) (\<lambda>fingerprint.
         serve_first pc seed c rng ap hr identity own_fp key fingerprint m))" (is "keeps ?f")
      unfolding keeps_def
    proof
      fix v :: "('b, 'a) server_world"
      obtain q v' where recv: "sw_do pw_recv v = (q, v')" by fastforce
      note same = keepsD[OF keeps_sw_do recv]
      show "sw_state (snd (?f v)) = sw_state v \<and> sw_app (snd (?f v)) = sw_app v"
        using body[of key] same unfolding recv keeps_def
        by (cases q) (auto split: error.splits)
    qed
  qed
  from keepsD[OF this assms(2)] show ?thesis .
qed

end
