(* ===== verification/Wire_Exchange.thy ===== *)
theory Wire_Exchange
  imports Network Listener
begin

text \<open>
  The programs of the two sides against each other: what the listener writes is what the
  client reads and the other way round. An uninterrupted run performs exactly the three
  critical sections of a network exchange, with the entries encrypted in between.
\<close>

definition quiet_client :: "sync_state \<Rightarrow> message result list \<Rightarrow> unit client_world \<Rightarrow> bool" where
  "quiet_client s msgs w \<longleftrightarrow>
     cw_state w = s \<and> cw_locks w = [] \<and> cw_cancel w = [] \<and>
     ch_in (cw_chan w) = msgs \<and> ch_out (cw_chan w) = [] \<and> ch_faults (cw_chan w) = []"

definition quiet_server :: "sync_state \<Rightarrow> message result list \<Rightarrow> (unit, 'h) server_world \<Rightarrow> bool" where
  "quiet_server s msgs w \<longleftrightarrow>
     sw_state w = s \<and> sw_locks w = [] \<and>
     ch_in (pw_chan (sw_conn w)) = msgs \<and> ch_out (pw_chan (sw_conn w)) = [] \<and>
     ch_faults (pw_chan (sw_conn w)) = []"

lemma encrypt_entries_length: "encrypt_entries c rng key es = Inr xs \<Longrightarrow> length xs = length es"
proof -
  have "encrypt_entries_from c rng i key es = Inr xs \<Longrightarrow> length xs = length es" for i es xs
    by (induction es arbitrary: i xs) auto
  then show "encrypt_entries c rng key es = Inr xs \<Longrightarrow> length xs = length es"
    by (simp add: encrypt_entries_def)
qed

text \<open>The messages of a version 2 exchange after the greetings.\<close>

definition delta_message :: "entry list \<Rightarrow> peer_cursor \<Rightarrow> peer_cursor \<Rightarrow> bool \<Rightarrow> message" where
  "delta_message es cur acked full =
     Delta es (pc_clock cur) (pc_epoch cur) (pc_clock acked) (pc_epoch acked) full"

lemma cursor_eta [simp]: "\<lparr>pc_epoch = pc_epoch c, pc_clock = pc_clock c\<rparr> = c"
  by (cases c) simp

lemma server_side:
  assumes c: "aead_sound c" "nonces_ok rng"
    and ex: "server_export lww_applier a cur s () = (Inr (out, acked), s1, ())"
    and enc: "encrypt_entries c rng key (od_entries out) = Inr ct"
    and dec: "decrypt_entries c key ct2 = Inr es2"
    and rc: "server_receive lww_applier a (Some cur2) es2 s1 () = (Inr m, s2, ())"
    and w: "quiet_server s [Inr (delta_message ct2 cur2 acked2 full2)] w"
  shows "\<exists>w'. serve_request c rng lww_applier key a (SnapshotSince (pc_clock cur) (pc_epoch cur)) w
      = (Inr (Some m), w') \<and> sw_state w' = s2 \<and>
    ch_out (pw_chan (sw_conn w')) = [delta_message ct (od_cursor out) acked (od_full out), Ack]"
  using assms
  by (simp add: quiet_server_def serve_request_def sw_with_state_def sw_lift_def sw_do_def
      pw_send_def pw_recv_def chan_read_def chan_write_def delta_message_def)

lemma client_side:
  assumes opts: "so_applier opts = lww_applier" "\<not> so_cancel opts"
    and dec: "decrypt_entries c key ct = Inr es"
    and cl: "client_section lww_applier (id_device remote) acked cur es s () = (Inr (out, n), s1, ())"
    and enc: "encrypt_entries c rng key (od_entries out) = Inr ct2"
    and w: "quiet_client s [Inr (delta_message ct cur acked full), Inr Ack] w"
  shows "\<exists>w' r. client_delta c rng key opts remote fp st w = (Inr r, w') \<and> cw_state w' = s1 \<and>
    ss_entries_received (sy_stats r) = length es \<and> ss_entries_applied (sy_stats r) = n \<and>
    ss_entries_sent (sy_stats r) = length (od_entries out) \<and>
    ch_out (cw_chan w') =
      [SnapshotSince (pc_clock (get_peer_cursor (id_device remote) s))
         (pc_epoch (get_peer_cursor (id_device remote) s)),
       delta_message ct2 (od_cursor out) cur (od_full out)]"
proof -
  have s1: "get_peer_cursor (id_device remote) s1 = cur"
    using client_section_lww[OF cl] by simp
  show ?thesis
    using assms
    by (simp add: quiet_client_def client_delta_def cw_with_state_def cw_lift_def cw_check_cancel_def
        cw_send_def cw_recv_def chan_read_def chan_write_def delta_message_def Let_def s1
        fill_counters_def)
qed

end
