(* ===== verification/Props_Sync.thy ===== *)
theory Props_Sync
  imports Network Wire_Exchange
begin

text \<open>
  The properties of replication: two-way exchanges converge, on the sections the code runs
  under its state lock, and the messages on the wire are exactly those sections.
\<close>

section \<open>A concrete network\<close>

definition demo_start :: network where
  "demo_start = \<lparr>nodes = (\<lambda>d. state_new [1] d), flight = {}\<rparr>"

definition demo_writer :: sync_state where
  "demo_writer = snd (state_set ''k'' [7] (state_new [1] ''a''))"

definition demo_net :: network where
  "demo_net = deliver ''a'' demo_writer {} demo_start"

lemma demo_reachable: "reachable demo_net"
proof -
  have "reachable demo_start" unfolding demo_start_def by (rule reachable.start)
  moreover have "net_step demo_start demo_net" unfolding demo_net_def
    by (rule net_step.local_write[where k = "''k''" and v = "[7]" and e = "fst (state_set ''k'' [7] (state_new [1] ''a''))"])
      (simp_all add: demo_start_def demo_writer_def state_new_def state_set_def Let_def u64_max_def room_def sat_inc_def)
  ultimately show ?thesis by (rule reachable.step)
qed

section \<open>Convergence\<close>

lemma sections_run:
  "server_export lww_applier a cur s () =
     (Inr (\<lparr>od_entries = fst (outbound_for a cur s), od_cursor = current_cursor s, od_full = snd (outbound_for a cur s)\<rparr>,
           get_peer_cursor a s), s, ())"
  "\<exists>out n. client_section lww_applier b acked c es s () =
     (Inr (out, n), set_peer_cursor b c (merged b es s), ())"
  "\<exists>m. server_receive lww_applier a (Some c) es s () = (Inr m, set_peer_cursor a c (merged a es s), ())"
  using inbound_lww[of b es s "()"] inbound_lww[of a es s "()"]
  by (auto simp: server_export_def client_section_def server_receive_def lww_applier_def split_beta Let_def)

text \<open>
  C1: in every reachable network, whatever local writes, interleaved exchanges, lost, late and
  repeated messages led there, a delta exchange between two devices runs through its three
  critical sections without error and leaves both with the same entries.
\<close>

theorem exchange_convergence:
  assumes "reachable net" and "a \<noteq> b"
  shows "\<exists>out acked B reply n A' m B'.
     server_export lww_applier a (get_peer_cursor b (nodes net a)) (nodes net b) () = (Inr (out, acked), B, ()) \<and>
     client_section lww_applier b acked (od_cursor out) (od_entries out) (nodes net a) () = (Inr (reply, n), A', ()) \<and>
     server_receive lww_applier a (Some (od_cursor reply)) (od_entries reply) B () = (Inr m, B', ()) \<and>
     st_entries A' = st_entries B'"
proof -
  obtain out acked B where 1: "server_export lww_applier a (get_peer_cursor b (nodes net a)) (nodes net b) () =
      (Inr (out, acked), B, ())"
    using sections_run(1) by blast
  obtain reply n A' where 2: "client_section lww_applier b acked (od_cursor out) (od_entries out) (nodes net a) () =
      (Inr (reply, n), A', ())"
    using sections_run(2) by blast
  obtain m B' where 3: "server_receive lww_applier a (Some (od_cursor reply)) (od_entries reply) B () = (Inr m, B', ())"
    using sections_run(3) by blast
  have "st_entries A' = st_entries B'"
    by (rule exchange_equal[OF reachable_ok[OF assms(1)] assms(2) 1 2 3])
  then show ?thesis using 1 2 3 by blast
qed

lemma exchange_convergence_witness:
  "\<exists>out acked B reply n A' m B'.
     server_export lww_applier ''a'' (get_peer_cursor ''b'' (nodes demo_net ''a'')) (nodes demo_net ''b'') () =
       (Inr (out, acked), B, ()) \<and>
     client_section lww_applier ''b'' acked (od_cursor out) (od_entries out) (nodes demo_net ''a'') () =
       (Inr (reply, n), A', ()) \<and>
     server_receive lww_applier ''a'' (Some (od_cursor reply)) (od_entries reply) B () = (Inr m, B', ()) \<and>
     st_entries A' = st_entries B'"
  by (rule exchange_convergence[OF demo_reachable]) simp

text \<open>
  C2: in every reachable network each device keeps its state well formed and its own id, and a
  key and a clock name one entry: no two devices, and no message in flight, hold different
  entries for the same key and clock.
\<close>

theorem network_invariant:
  assumes "reachable net"
  shows "state_ok (nodes net d) \<and> st_device_id (nodes net d) = d \<and>
    clock_determines e_key e_clock (universe net)"
  using net_okD[OF reachable_ok[OF assms]] by (simp add: universe_ok_def)

lemma network_invariant_witness:
  "state_ok (nodes demo_net ''a'') \<and> st_device_id (nodes demo_net ''a'') = ''a'' \<and>
   clock_determines e_key e_clock (universe demo_net) \<and>
   \<lparr>e_key = ''k'', e_value = [7], e_clock = LamportClock 1 ''a''\<rparr> \<in> universe demo_net"
proof -
  have "entry_of (nodes demo_net ''a'') ''k'' = Some \<lparr>e_key = ''k'', e_value = [7], e_clock = LamportClock 1 ''a''\<rparr>"
    by (simp add: demo_net_def demo_writer_def deliver_def state_new_def state_set_def Let_def entry_of_def
      sat_inc_def u64_max_def)
  then show ?thesis using network_invariant[OF demo_reachable, of "''a''"] universe_node by blast
qed

section \<open>The programs on the wire\<close>

lemma quiet_worlds:
  "quiet_client s msgs \<lparr>cw_state = s, cw_app = (), cw_locks = [], cw_cancel = [], cw_conns = [],
     cw_chan = \<lparr>ch_in = msgs, ch_out = [], ch_faults = []\<rparr>, cw_bytes = (0, 0), cw_checked = []\<rparr>"
  "quiet_server s msgs \<lparr>sw_conn = \<lparr>pw_chan = \<lparr>ch_in = msgs, ch_out = [], ch_faults = []\<rparr>, pw_handler = h,
     pw_env = [], pw_now = [], pw_cancel = [], pw_timeout = 30\<rparr>, sw_state = s, sw_app = (), sw_locks = [], sw_events = []\<rparr>"
  by (simp_all add: quiet_client_def quiet_server_def)

text \<open>A cipher that refuses no message; the code's cipher only refuses messages of many gigabytes.\<close>

definition encrypts :: "aead \<Rightarrow> bool" where
  "encrypts c \<longleftrightarrow> (\<forall>k n m ad. length n = nonce_len \<longrightarrow> aead_encrypt c k n m ad \<noteq> None)"

lemma encrypt_entries_total:
  assumes "encrypts c" and "nonces_ok rng"
  shows "\<exists>xs. encrypt_entries c rng key es = Inr xs"
proof -
  have "\<exists>xs. encrypt_entries_from c rng i key es = Inr xs" for i
  proof (induction es arbitrary: i)
    case (Cons e es)
    obtain ct where "aead_encrypt c (as_bytes key) (rng i) (e_value e) (entry_aad e) = Some ct"
      using assms by (metis encrypts_def nonces_ok_def option.exhaust)
    then show ?case using Cons[of "Suc i"] by (auto simp: encrypt_entry_def)
  qed simp
  then show ?thesis by (simp add: encrypt_entries_def)
qed

text \<open>
  C8: the client's and the listener's programs, each reading what the other writes, complete a
  version 2 exchange from any reachable network: the client sends its cursor, the listener
  answers with its delta, the client pushes its own, the listener acknowledges, and the two
  states end with the same entries.
\<close>

theorem exchange_over_wire:
  assumes net: "reachable net" and ne: "a \<noteq> b" and remote: "id_device remote = b"
    and opts: "so_applier opts = lww_applier" "\<not> so_cancel opts"
    and c: "aead_sound c" "encrypts c" "nonces_ok rng" "nonces_ok rng2"
  shows "\<exists>question answer push. \<forall>wc ws.
     quiet_client (nodes net a) [Inr answer, Inr Ack] wc \<longrightarrow>
     quiet_server (nodes net b) [Inr push] ws \<longrightarrow>
     (\<exists>wc' ws' r m.
        client_delta c rng key opts remote fp st wc = (Inr r, wc') \<and>
        ch_out (cw_chan wc') = [question, push] \<and>
        serve_request c rng2 lww_applier key a question ws = (Inr (Some m), ws') \<and>
        ch_out (pw_chan (sw_conn ws')) = [answer, Ack] \<and>
        st_entries (cw_state wc') = st_entries (sw_state ws'))"
proof -
  let ?cur = "get_peer_cursor b (nodes net a)"
  obtain out acked B where 1: "server_export lww_applier a ?cur (nodes net b) () = (Inr (out, acked), B, ())"
    using sections_run(1) by blast
  obtain reply n A' where 2: "client_section lww_applier b acked (od_cursor out) (od_entries out) (nodes net a) () =
      (Inr (reply, n), A', ())"
    using sections_run(2) by blast
  obtain m B' where 3: "server_receive lww_applier a (Some (od_cursor reply)) (od_entries reply) B () = (Inr m, B', ())"
    using sections_run(3) by blast
  have eq: "st_entries A' = st_entries B'"
    by (rule exchange_equal[OF reachable_ok[OF net] ne 1 2 3])
  obtain ct where ct: "encrypt_entries c rng2 key (od_entries out) = Inr ct"
    using encrypt_entries_total[OF c(2,4)] by blast
  obtain ct2 where ct2: "encrypt_entries c rng key (od_entries reply) = Inr ct2"
    using encrypt_entries_total[OF c(2,3)] by blast
  note server = server_side[OF c(1,4) 1 ct decrypt_encrypt_entries[OF c(1,3) ct2] 3]
  note client = client_side[OF opts decrypt_encrypt_entries[OF c(1,4) ct] 2[folded remote] ct2]
  show ?thesis
    by (rule exI[of _ "SnapshotSince (pc_clock ?cur) (pc_epoch ?cur)"],
        rule exI[of _ "delta_message ct (od_cursor out) acked (od_full out)"],
        rule exI[of _ "delta_message ct2 (od_cursor reply) (od_cursor out) (od_full reply)"])
      (use client[unfolded remote] server eq in metis)
qed

definition demo_cipher :: aead where
  "demo_cipher = \<lparr>aead_encrypt = (\<lambda>k n m ad. Some m), aead_decrypt = (\<lambda>k n m ad. Some m)\<rparr>"

lemma exchange_over_wire_witness:
  "\<exists>question answer push. \<forall>wc (ws :: (unit, unit) server_world).
     quiet_client (nodes demo_net ''a'') [Inr answer, Inr Ack] wc \<longrightarrow>
     quiet_server (nodes demo_net ''b'') [Inr push] ws \<longrightarrow>
     (\<exists>wc' ws' r m.
        client_delta demo_cipher (\<lambda>_. replicate 24 0) (AppKey [1]) default_options
          \<lparr>id_device = ''b'', id_app = ''x'', id_user = ''u''\<rparr> ''f'' default_stats wc = (Inr r, wc') \<and>
        ch_out (cw_chan wc') = [question, push] \<and>
        serve_request demo_cipher (\<lambda>_. replicate 24 0) lww_applier (AppKey [1]) ''a'' question ws = (Inr (Some m), ws') \<and>
        ch_out (pw_chan (sw_conn ws')) = [answer, Ack] \<and>
        st_entries (cw_state wc') = st_entries (sw_state ws'))"
  by (rule exchange_over_wire[OF demo_reachable])
    (simp_all add: default_options_def aead_sound_def encrypts_def nonces_ok_def nonce_len_def demo_cipher_def)

end
