(* ===== verification/Pair_Safety.thy ===== *)
theory Pair_Safety
  imports Pair_Handshake
begin

text \<open>
  What the enrollment handshake guarantees. Whether a durable commit can depend on the
  handler's \<open>commit_secure_pairing\<close> at all is a question about the peer: replacing that
  function changes a run only after the peer proved knowledge of the invitation secret.
\<close>

lemma bindS_diff: "bindS m f \<noteq> bindS m g \<Longrightarrow> \<exists>x s. m = (Inr x, s) \<and> f x s \<noteq> g x s"
  by (auto simp: bindS_split split: prod.splits sum.splits)

text \<open>A \<open>match\<close> on the next message with one accepted variant.\<close>

lemma expect_PairChallenge [simp]:
  "(case m of PairChallenge a \<Rightarrow> f a | _ \<Rightarrow> (pair_fail t, w)) = (Inr y, w') \<longleftrightarrow>
     (\<exists>a. m = PairChallenge a \<and> f a = (Inr y, w'))"
  by (cases m) auto

lemma expect_PairConfirm [simp]:
  "(case m of PairConfirm a \<Rightarrow> f a | _ \<Rightarrow> (pair_fail t, w)) = (Inr y, w') \<longleftrightarrow>
     (\<exists>a. m = PairConfirm a \<and> f a = (Inr y, w'))"
  by (cases m) auto

lemma expect_PairReady [simp]:
  "(case m of PairReady a \<Rightarrow> f a | _ \<Rightarrow> (pair_fail t, w)) = (Inr y, w') \<longleftrightarrow>
     (\<exists>a. m = PairReady a \<and> f a = (Inr y, w'))"
  by (cases m) auto

lemma expect_PairPrepared [simp]:
  "(case m of PairPrepared a \<Rightarrow> f a | _ \<Rightarrow> (pair_fail t, w)) = (Inr y, w') \<longleftrightarrow>
     (\<exists>a. m = PairPrepared a \<and> f a = (Inr y, w'))"
  by (cases m) auto

lemma expect_PairAccepted [simp]:
  "(case m of PairAccepted a b \<Rightarrow> f a b | _ \<Rightarrow> (pair_fail t, w)) = (Inr y, w') \<longleftrightarrow>
     (\<exists>a b. m = PairAccepted a b \<and> f a b = (Inr y, w'))"
  by (cases m) auto

lemma expect_PairCommit [simp]:
  "(case m of PairCommit a \<Rightarrow> f a | _ \<Rightarrow> (pair_fail t, w)) = (Inr y, w') \<longleftrightarrow>
     (\<exists>a. m = PairCommit a \<and> f a = (Inr y, w'))"
  by (cases m) auto

lemma expect_PairRecovered [simp]:
  "(case m of PairRecovered a b c \<Rightarrow> f a b c | _ \<Rightarrow> (pair_fail t, w)) = (Inr y, w') \<longleftrightarrow>
     (\<exists>a b c. m = PairRecovered a b c \<and> f a b c = (Inr y, w'))"
  by (cases m) auto

lemma pw_lift_Inr [simp]: "pw_lift r w = (Inr x, w') \<longleftrightarrow> r = Inr x \<and> w' = w"
  by (auto simp: pw_lift_def)

lemma pw_guard_Inr [simp]: "pw_guard bad m w = (Inr x, w') \<longleftrightarrow> \<not> bad \<and> w' = w"
  by (auto simp: pw_guard_def)

lemma cf_verify_Inr [simp]: "cf_verify c keys key extra tag = Inr u \<longleftrightarrow> tag = cf_mac c keys key extra"
  by (auto simp: cf_verify_def)

text \<open>Only \<open>pw_recv\<close> takes messages off the channel.\<close>

lemma ch_in_write: "ch_in (snd (chan_write m ch)) = ch_in ch"
  by (auto simp: chan_write_def split: list.splits option.splits)

lemma pw_send_in: "pw_send m w = (r, w') \<Longrightarrow> ch_in (pw_chan w') = ch_in (pw_chan w)"
  using ch_in_write[of m "pw_chan w"] by (auto simp: pw_send_def split: prod.splits)

lemma pw_time_in: "pw_time w = (r, w') \<Longrightarrow> pw_chan w' = pw_chan w"
  by (auto simp: pw_time_def split: list.splits)

lemma pw_call_in: "pw_call f w = (r, w') \<Longrightarrow> pw_chan w' = pw_chan w"
  by (auto simp: pw_call_def split: list.splits prod.splits)

lemma pw_check_cancel_in: "pw_check_cancel w = (r, w') \<Longrightarrow> pw_chan w' = pw_chan w"
  by (auto simp: pw_check_cancel_def split: list.splits)

lemma pw_not_expired_Inr:
  "pw_not_expired invn m w = (Inr x, w') \<Longrightarrow>
   pw_chan w' = pw_chan w \<and> (\<exists>t. fst (pw_time w) = Inr t \<and> t < inv_expires_at invn)"
  by (auto simp: pw_not_expired_def bindS_Inr not_le dest: pw_time_in)

lemma pw_set_budget_Inr: "pw_set_budget hr w = (Inr x, w') \<Longrightarrow> pw_chan w' = pw_chan w"
  by (auto simp: pw_set_budget_def bindS_Inr split: option.splits dest!: pw_call_in)

lemma pw_recv_Inr:
  "pw_recv w = (Inr m, w') \<Longrightarrow>
   ch_in (pw_chan w) = Inr m # ch_in (pw_chan w')"
  by (auto simp: pw_recv_def chan_read_def split: list.splits prod.splits)

lemmas pw_frame = pw_send_in pw_time_in pw_call_in pw_check_cancel_in pw_set_budget_Inr

section \<open>The inviting side\<close>

definition unsigned_challenge :: "identity \<Rightarrow> device_metadata \<Rightarrow> bytes \<Rightarrow> pair_challenge" where
  "unsigned_challenge i md pake =
     \<lparr>pch_identity = i, pch_metadata = md, pch_pake = pake, pch_confirmation = []\<rparr>"

text \<open>
  \<open>client_proved\<close>: the next two messages are the client's confirmation and preparation
  tags, under keys derived from the invitation secret and this transcript.
\<close>

definition client_proved ::
  "'s pair_crypto \<Rightarrow> bytes \<Rightarrow> identity \<Rightarrow> device_metadata \<Rightarrow> pair_hello \<Rightarrow> pairing_invitation \<Rightarrow>
   message result list \<Rightarrow> bool" where
  "client_proved c seed identity metadata ph invn msgs \<longleftrightarrow>
     (\<exists>st pake shared keys rest.
        pk_start_b c seed (inv_secret invn) (fst (pake_ids (inv_id invn)))
          (snd (pake_ids (inv_id invn))) = (st, pake) \<and>
        pk_finish c st (ph_pake ph) = Some shared \<and>
        confirmations_new c shared ph (unsigned_challenge identity metadata pake) = Inr keys \<and>
        msgs = Inr (PairConfirm (cf_mac c keys (cf_client keys) [])) #
               Inr (PairPrepared (cf_mac c keys (cf_prepared keys) [])) # rest)"

definition chan_frame :: "'h authenticated \<Rightarrow> bool" where
  "chan_frame au \<longleftrightarrow> (\<forall>w x w'. au w = (Inr x, w') \<longrightarrow> pw_chan w' = pw_chan w)"

lemma chan_frame_budget [simp]: "chan_frame (pw_set_budget hr)"
  by (auto simp: chan_frame_def dest: pw_set_budget_Inr)

lemma accept_prove_ok:
  assumes "accept_prove c seed hr au identity metadata own_fp ph invn w = (Inr keys, w')"
    and au: "chan_frame au"
  shows "client_proved c seed identity metadata ph invn (ch_in (pw_chan w))"
proof -
  obtain a b where ids: "pake_ids (inv_id invn) = (a, b)" by fastforce
  obtain st pake where start: "pk_start_b c seed (inv_secret invn) a b = (st, pake)" by fastforce
  let ?u = "unsigned_challenge identity metadata pake"
  from assms(1) obtain shared w1 w2 m w3 where
    fin: "pk_finish c st (ph_pake ph) = Some shared" and
    keys: "confirmations_new c shared ph ?u = Inr keys" and
    s1: "pw_send (PairChallenge (?u\<lparr>pch_confirmation := cf_mac c keys (cf_server keys) []\<rparr>)) w = (Inr (), w1)" and
    r1: "pw_recv w1 = (Inr (PairConfirm (cf_mac c keys (cf_client keys) [])), w2)" and
    rest: "\<exists>w4 w5 w6. au w2 = (Inr (), w4) \<and>
       pw_not_expired invn ''invitation expired before preparation readiness'' w4 = (Inr (), w5) \<and>
       pw_send (PairReady (cf_mac c keys (cf_ready keys) [])) w5 = (Inr (), w6) \<and>
       pw_recv w6 = (Inr (PairPrepared (cf_mac c keys (cf_prepared keys) [])), w3)"
    unfolding accept_prove_def unsigned_challenge_def
    by (auto simp: bindS_Inr ids start Let_def)
  then obtain w4 w5 w6 where
    s2: "au w2 = (Inr (), w4)"
      "pw_not_expired invn ''invitation expired before preparation readiness'' w4 = (Inr (), w5)"
      "pw_send (PairReady (cf_mac c keys (cf_ready keys) [])) w5 = (Inr (), w6)"
      "pw_recv w6 = (Inr (PairPrepared (cf_mac c keys (cf_prepared keys) [])), w3)" by blast
  have "pw_chan w4 = pw_chan w2" using au s2(1) by (simp add: chan_frame_def)
  then have "ch_in (pw_chan w2) = ch_in (pw_chan w6)"
    using pw_not_expired_Inr[OF s2(2)] pw_send_in[OF s2(3)] by simp
  then have "ch_in (pw_chan w) = Inr (PairConfirm (cf_mac c keys (cf_client keys) [])) #
      Inr (PairPrepared (cf_mac c keys (cf_prepared keys) [])) # ch_in (pw_chan w3)"
    using pw_send_in[OF s1] pw_recv_Inr[OF r1] pw_recv_Inr[OF s2(4)] by simp
  then show ?thesis
    unfolding client_proved_def ids using start fin keys by auto
qed

lemma budget_commit [simp]: "authenticated_budget (hr\<lparr>hd_commit := f\<rparr>) = authenticated_budget hr"
  by (intro ext) (simp add: authenticated_budget_def split: option.splits)

lemma set_budget_commit [simp]: "pw_set_budget (hr\<lparr>hd_commit := f\<rparr>) = pw_set_budget hr"
  by (intro ext) (simp add: pw_set_budget_def)

lemma accept_prove_commit [simp]:
  "accept_prove c seed (hr\<lparr>hd_commit := f\<rparr>) = accept_prove c seed hr"
  by (intro ext) (unfold accept_prove_def, rule refl)

lemma pw_manager_commit [simp]: "pw_manager (hr\<lparr>hd_commit := f\<rparr>) g h = pw_manager hr g h"
  by (auto simp: pw_manager_def split: option.splits prod.splits)

lemma pw_manager_commit' [simp]: "pw_manager (hr\<lparr>hd_commit := f\<rparr>) = pw_manager hr"
  by (intro ext) (rule pw_manager_commit)

lemma pw_release_commit [simp]: "pw_release (hr\<lparr>hd_commit := f\<rparr>) = pw_release hr"
  by (intro ext) (simp add: pw_release_def)

lemma accept_claimed_commit:
  assumes "accept_claimed c seed hr au identity metadata own_fp fp ph invn w \<noteq>
    accept_claimed c seed (hr\<lparr>hd_commit := f\<rparr>) au identity metadata own_fp fp ph invn w"
    and au: "chan_frame au"
  shows "client_proved c seed identity metadata ph invn (ch_in (pw_chan w))"
proof (cases "accept_prove c seed hr au identity metadata own_fp ph invn w")
  case (Pair r w')
  show ?thesis
  proof (cases r)
    case (Inl e)
    then show ?thesis using assms(1) Pair by (simp add: accept_claimed_def)
  next
    case (Inr keys)
    then show ?thesis using accept_prove_ok[OF _ au] Pair by simp
  qed
qed

lemma accept_secure_commit:
  assumes "accept_secure c seed hr au identity own_fp fp ph w \<noteq>
    accept_secure c seed (hr\<lparr>hd_commit := f\<rparr>) au identity own_fp fp ph w"
    and au: "chan_frame au"
  shows "\<exists>h m m' t metadata invn. hd_pairing hr h = Some m \<and>
    pm_claim (ph_invitation_id ph) t m = (Inr invn, m') \<and>
    client_proved c seed identity metadata ph invn (ch_in (pw_chan w))"
proof -
  let ?claim = "\<lambda>t. pw_manager hr (\<lambda>m h. case pm_claim (ph_invitation_id ph) t m of (r, m') \<Rightarrow> (r, m', h))"
  let ?f = "hr\<lparr>hd_commit := f\<rparr>"
  from assms(1) obtain metadata w1 where
    md: "pw_call (\<lambda>h. (ok_or (Protocol ''managed pairing not enabled'') (hd_device_metadata hr h), h)) w
      = (Inr metadata, w1)" and
    diff1: "(case pw_time w1 of (t, w) \<Rightarrow> bindS (pw_call (?claim t) w) (\<lambda>invn w.
        case accept_claimed c seed hr au identity metadata own_fp fp ph invn w of
          (r, w) \<Rightarrow> (r, pw_release hr (ph_invitation_id ph) w))) \<noteq>
      (case pw_time w1 of (t, w) \<Rightarrow> bindS (pw_call (?claim t) w) (\<lambda>invn w.
        case accept_claimed c seed ?f au identity metadata own_fp fp ph invn w of
          (r, w) \<Rightarrow> (r, pw_release hr (ph_invitation_id ph) w)))"
    unfolding accept_secure_def pw_manager_commit' pw_release_commit handler.simps
    by (auto dest!: bindS_diff)
  obtain t w2 where t: "pw_time w1 = (t, w2)" by fastforce
  from diff1 obtain invn w3 where
    claim: "pw_call (?claim t) w2 = (Inr invn, w3)" and
    "(case accept_claimed c seed hr au identity metadata own_fp fp ph invn w3 of
        (r, w) \<Rightarrow> (r, pw_release hr (ph_invitation_id ph) w)) \<noteq>
     (case accept_claimed c seed ?f au identity metadata own_fp fp ph invn w3 of
        (r, w) \<Rightarrow> (r, pw_release hr (ph_invitation_id ph) w))"
    unfolding t prod.case by (blast dest: bindS_diff)
  then have diff: "accept_claimed c seed hr au identity metadata own_fp fp ph invn w3 \<noteq>
      accept_claimed c seed ?f au identity metadata own_fp fp ph invn w3" by metis
  have "ch_in (pw_chan w3) = ch_in (pw_chan w)"
    using pw_call_in[OF md] pw_time_in[OF t] pw_call_in[OF claim] by simp
  moreover have "\<exists>h m m'. hd_pairing hr h = Some m \<and>
      pm_claim (ph_invitation_id ph) t m = (Inr invn, m')"
    using claim by (auto simp: pw_call_def pw_manager_def split: list.splits prod.splits option.splits)
  ultimately show ?thesis using accept_claimed_commit[OF diff au] by metis
qed

section \<open>The joining side\<close>

text \<open>
  \<open>server_proved\<close>: the next two messages are a challenge carrying the inviter's tag and a
  readiness tag, under keys derived from the invitation secret and this transcript.
\<close>

definition joiner_hello ::
  "identity \<Rightarrow> device_metadata \<Rightarrow> string \<Rightarrow> string \<Rightarrow> pairing_invitation \<Rightarrow> bytes \<Rightarrow> pair_hello" where
  "joiner_hello identity metadata own_fp fingerprint invn pake =
     \<lparr>ph_version = pairing_version, ph_invitation_id = inv_id invn,
      ph_identity = identity, ph_metadata = metadata,
      ph_client_fingerprint = own_fp, ph_server_fingerprint = fingerprint, ph_pake = pake\<rparr>"

definition server_proved ::
  "'s pair_crypto \<Rightarrow> bytes \<Rightarrow> identity \<Rightarrow> device_metadata \<Rightarrow> string \<Rightarrow> string \<Rightarrow> pairing_invitation \<Rightarrow>
   pair_challenge \<Rightarrow> confirmations \<Rightarrow> message result list \<Rightarrow> message result list \<Rightarrow> bool" where
  "server_proved c seed identity metadata own_fp fingerprint invn ch keys msgs rest \<longleftrightarrow>
     (\<exists>st pake shared.
        pk_start_a c seed (inv_secret invn) (fst (pake_ids (inv_id invn)))
          (snd (pake_ids (inv_id invn))) = (st, pake) \<and>
        pk_finish c st (pch_pake ch) = Some shared \<and>
        confirmations_new c shared (joiner_hello identity metadata own_fp fingerprint invn pake) ch
          = Inr keys) \<and>
     pch_confirmation ch = cf_mac c keys (cf_server keys) [] \<and>
     compatible_with (dm_manifest metadata) (dm_manifest (pch_metadata ch)) \<and>
     msgs = Inr (PairChallenge ch) # Inr (PairReady (cf_mac c keys (cf_ready keys) [])) # rest"

lemma link_authenticate_ok:
  assumes "link_authenticate c seed identity metadata own_fp opened invn w = (Inr (fp, ch, keys), w')"
  shows "opened = Inr fp \<and>
    server_proved c seed identity metadata own_fp fp invn ch keys
      (ch_in (pw_chan w)) (ch_in (pw_chan w'))"
proof -
  obtain a b where ids: "pake_ids (inv_id invn) = (a, b)" by fastforce
  obtain st pake where start: "pk_start_a c seed (inv_secret invn) a b = (st, pake)" by fastforce
  let ?ph = "joiner_hello identity metadata own_fp fp invn pake"
  from assms obtain w1 w2 w3 w4 shared where
    e: "pw_not_expired invn ''invitation expired'' w = (Inr (), w1)" and
    opened: "opened = Inr fp" and
    s1: "pw_send (PairHello ?ph) w1 = (Inr (), w2)" and
    r1: "pw_recv w2 = (Inr (PairChallenge ch), w3)" and
    compat: "compatible_with (dm_manifest metadata) (dm_manifest (pch_metadata ch))" and
    fin: "pk_finish c st (pch_pake ch) = Some shared" and
    keys: "confirmations_new c shared ?ph ch = Inr keys" and
    tag: "pch_confirmation ch = cf_mac c keys (cf_server keys) []" and
    s2: "pw_send (PairConfirm (cf_mac c keys (cf_client keys) [])) w3 = (Inr (), w4)" and
    r2: "pw_recv w4 = (Inr (PairReady (cf_mac c keys (cf_ready keys) [])), w')"
    unfolding link_authenticate_def joiner_hello_def
    by (auto simp: bindS_Inr ids start Let_def)
  have "ch_in (pw_chan w) = Inr (PairChallenge ch) #
      Inr (PairReady (cf_mac c keys (cf_ready keys) [])) # ch_in (pw_chan w')"
    using pw_not_expired_Inr[OF e] pw_send_in[OF s1] pw_recv_Inr[OF r1] pw_send_in[OF s2]
      pw_recv_Inr[OF r2] by simp
  then show ?thesis
    unfolding server_proved_def ids using opened start fin keys tag compat by auto
qed

lemma link_prepare_ok:
  assumes "link_prepare c hr invn fp ch keys w = (Inr k, w')"
  shows "ch_in (pw_chan w) = Inr (PairAccepted k (cf_mac c keys (cf_accepted keys) k)) # ch_in (pw_chan w')"
proof -
  from assms obtain w1 w2 w3 w4 w5 w6 where
    b: "pw_set_budget hr w = (Inr (), w1)" and
    c1: "pw_check_cancel w1 = (Inr (), w2)" and
    p: "pw_call (hd_prepare hr (outcome_of invn fp ch)) w2 = (Inr (), w3)" and
    e: "pw_not_expired invn ''invitation expired before preparation proof'' w3 = (Inr (), w4)" and
    c2: "pw_check_cancel w4 = (Inr (), w5)" and
    s: "pw_send (PairPrepared (cf_mac c keys (cf_prepared keys) [])) w5 = (Inr (), w6)" and
    r: "pw_recv w6 = (Inr (PairAccepted k (cf_mac c keys (cf_accepted keys) k)), w')"
    unfolding link_prepare_def by (auto simp: bindS_Inr)
  show ?thesis
    using pw_set_budget_Inr[OF b] pw_check_cancel_in[OF c1] pw_call_in[OF p] pw_not_expired_Inr[OF e]
      pw_check_cancel_in[OF c2] pw_send_in[OF s] pw_recv_Inr[OF r] by simp
qed

lemma hd_prepare_commit: "hd_prepare (hr\<lparr>hd_commit := f\<rparr>) = hd_prepare hr"
  by simp

lemma link_prepare_commit [simp]:
  "link_prepare c (hr\<lparr>hd_commit := f\<rparr>) = link_prepare c hr"
  by (intro ext) (unfold link_prepare_def set_budget_commit hd_prepare_commit, rule refl)

lemma link_inner_commit:
  assumes "link_secure_inner c seed hr identity metadata own_fp opened invn w \<noteq>
    link_secure_inner c seed (hr\<lparr>hd_commit := f\<rparr>) identity metadata own_fp opened invn w"
  shows "\<exists>fp ch keys k rest. opened = Inr fp \<and> length k = 32 \<and>
    server_proved c seed identity metadata own_fp fp invn ch keys (ch_in (pw_chan w))
      (Inr (PairAccepted k (cf_mac c keys (cf_accepted keys) k)) # rest)"
proof -
  from assms obtain fp ch keys w1 where
    a: "link_authenticate c seed identity metadata own_fp opened invn w = (Inr (fp, ch, keys), w1)" and
    d1: "bindS (link_prepare c hr invn fp ch keys w1) (link_commit c hr invn fp ch keys) \<noteq>
         bindS (link_prepare c hr invn fp ch keys w1)
           (link_commit c (hr\<lparr>hd_commit := f\<rparr>) invn fp ch keys)"
    unfolding link_secure_inner_def link_prepare_commit by (auto dest!: bindS_diff)
  from bindS_diff[OF d1] obtain k w2 where
    p: "link_prepare c hr invn fp ch keys w1 = (Inr k, w2)" and
    d2: "link_commit c hr invn fp ch keys k w2 \<noteq> link_commit c (hr\<lparr>hd_commit := f\<rparr>) invn fp ch keys k w2"
    by blast
  have "length k = 32"
    using d2 by (auto simp: link_commit_def app_key_from_slice_def pw_lift_def split: if_splits)
  then show ?thesis
    using link_authenticate_ok[OF a] link_prepare_ok[OF p] by metis
qed

text \<open>The wrapper only adds cancellation checks.\<close>

lemma link_secure_commit:
  assumes "link_secure c seed hr identity metadata own_fp opened invn w \<noteq>
    link_secure c seed (hr\<lparr>hd_commit := f\<rparr>) identity metadata own_fp opened invn w"
  shows "\<exists>fp ch keys k rest. opened = Inr fp \<and> length k = 32 \<and>
    server_proved c seed identity metadata own_fp fp invn ch keys (ch_in (pw_chan w))
      (Inr (PairAccepted k (cf_mac c keys (cf_accepted keys) k)) # rest)"
proof -
  from assms obtain w1 where
    cc: "pw_check_cancel w = (Inr (), w1)" and
    "(case link_secure_inner c seed hr identity metadata own_fp opened invn w1 of
        (r, w) \<Rightarrow> bindS (pw_check_cancel w) (\<lambda>_ w. (r, w))) \<noteq>
     (case link_secure_inner c seed (hr\<lparr>hd_commit := f\<rparr>) identity metadata own_fp opened invn w1 of
        (r, w) \<Rightarrow> bindS (pw_check_cancel w) (\<lambda>_ w. (r, w)))"
    unfolding link_secure_def by (auto dest!: bindS_diff)
  then have "link_secure_inner c seed hr identity metadata own_fp opened invn w1 \<noteq>
      link_secure_inner c seed (hr\<lparr>hd_commit := f\<rparr>) identity metadata own_fp opened invn w1" by metis
  from link_inner_commit[OF this] show ?thesis using pw_check_cancel_in[OF cc] by simp
qed

section \<open>The claim is released\<close>

text \<open>Whatever the outcome, once the claim was taken it is given back at the end.\<close>

definition manager_lens :: "'h handler \<Rightarrow> bool" where
  "manager_lens hr \<longleftrightarrow> (\<forall>m h. hd_pairing hr (hd_put_pairing hr m h) = Some m)"

lemma pw_release_frees:
  assumes "manager_lens hr" and "hd_pairing hr (pw_handler (pw_release hr k w)) = Some m"
    and "\<not> pm_poisoned m" and "bm_get (pm_invitations m) k = Some e"
  shows "\<not> is_claimed e"
  using assms
  by (auto simp: pw_release_def pw_call_def pw_manager_def pm_release_def pm_lock_def manager_lens_def
      bm_get_update split: list.splits option.splits prod.splits sum.splits if_splits)

end
