(* ===== verification/Pair_Liveness.thy ===== *)
theory Pair_Liveness
  imports Pair_Safety
begin

text \<open>
  The two sides of an enrollment against each other: \<open>link_secure\<close> reading what
  \<open>accept_secure\<close> writes and the other way round, with a PAKE whose sides agree, clocks
  before the expiry, no cancellation, and app handlers that accept.
\<close>

definition quiet_channel :: "message list \<Rightarrow> channel" where
  "quiet_channel msgs = \<lparr>ch_in = map Inr msgs, ch_out = [], ch_faults = []\<rparr>"

definition quiet_world :: "message list \<Rightarrow> u64 list \<Rightarrow> 'h \<Rightarrow> 'h pair_world" where
  "quiet_world msgs readings h =
     \<lparr>pw_chan = quiet_channel msgs, pw_handler = h, pw_env = [], pw_now = map Inr readings,
      pw_cancel = [], pw_timeout = 30\<rparr>"

definition budget_ok :: "'h handler \<Rightarrow> 'h \<Rightarrow> bool" where
  "budget_ok hr h \<longleftrightarrow> (\<exists>b. authenticated_budget hr h = Inr b)"

lemmas pair_steps = quiet_world_def quiet_channel_def pw_lift_def pw_guard_def pw_send_def pw_recv_def
  pw_time_def pw_call_def pw_check_cancel_def pw_not_expired_def chan_read_def chan_write_def

lemma set_budget_quiet:
  assumes "budget_ok hr (pw_handler w)" and "pw_env w = []"
  shows "\<exists>n. pw_set_budget hr w = (Inr (), w\<lparr>pw_timeout := n\<rparr>)"
proof -
  obtain b where "authenticated_budget hr (pw_handler w) = Inr b" using assms(1) by (auto simp: budget_ok_def)
  then show ?thesis
    by (cases b) (auto simp: pw_set_budget_def pw_call_def assms(2) intro: exI[of _ "pw_timeout w"])
qed

lemma link_run:
  assumes ids: "validate_identity identity metadata = Inr ()" "validate_identity (pch_identity ch) (pch_metadata ch) = Inr ()"
    and invn: "inv_validate invn = Inr ()" "t1 < inv_expires_at invn" "t2 < inv_expires_at invn" "t3 < inv_expires_at invn"
    and compat: "compatible_with (dm_manifest metadata) (dm_manifest (inv_metadata invn))"
      "compatible_with (dm_manifest metadata) (dm_manifest (pch_metadata ch))"
      "compatible_with (dm_manifest (inv_metadata invn)) (dm_manifest (pch_metadata ch))"
    and pake: "pk_start_a c seed (inv_secret invn) (fst (pake_ids (inv_id invn))) (snd (pake_ids (inv_id invn))) = (st, pa)"
      "valid_pake_message c (pch_pake ch) CHR ''B''" "pk_finish c st (pch_pake ch) = Some shared"
    and keys: "confirmations_new c shared (joiner_hello identity metadata own_fp fp invn pa) ch = Inr keys"
      "pch_confirmation ch = cf_mac c keys (cf_server keys) []"
    and budget: "budget_ok hr h"
    and prep: "hd_prepare hr (outcome_of invn fp ch) h = (Inr (), h1)"
    and com: "hd_commit hr (inv_id invn) (pch_identity ch) (pch_metadata ch) fp (AppKey k) h1 = (Inr (), h2)"
    and k: "length k = 32"
  shows "\<exists>w'. link_secure c seed hr identity metadata own_fp (Inr fp) invn
      (quiet_world [PairChallenge ch, PairReady (cf_mac c keys (cf_ready keys) []),
         PairAccepted k (cf_mac c keys (cf_accepted keys) k), PairComplete] [t1, t2, t3] h)
      = (Inr (outcome_of invn fp ch), w') \<and> pw_handler w' = h2 \<and>
    ch_out (pw_chan w') = [PairHello (joiner_hello identity metadata own_fp fp invn pa),
      PairConfirm (cf_mac c keys (cf_client keys) []), PairPrepared (cf_mac c keys (cf_prepared keys) []),
      PairCommit (cf_mac c keys (cf_commit keys) k)]"
proof -
  let ?hello = "joiner_hello identity metadata own_fp fp invn pa"
  let ?w = "quiet_world [PairChallenge ch, PairReady (cf_mac c keys (cf_ready keys) []),
         PairAccepted k (cf_mac c keys (cf_accepted keys) k), PairComplete] [t1, t2, t3] h"
  let ?w1 = "quiet_world [PairAccepted k (cf_mac c keys (cf_accepted keys) k), PairComplete] [t2, t3] h
    \<lparr>pw_chan := (quiet_channel [PairAccepted k (cf_mac c keys (cf_accepted keys) k), PairComplete])
       \<lparr>ch_out := [PairHello ?hello, PairConfirm (cf_mac c keys (cf_client keys) [])]\<rparr>\<rparr>"
  note late = invn(2-4)[unfolded not_le[symmetric]]
  have auth: "link_authenticate c seed identity metadata own_fp (Inr fp) invn ?w = (Inr (fp, ch, keys), ?w1)"
    using assms late by (simp add: link_authenticate_def pair_steps joiner_hello_def split_beta cf_verify_def)
  obtain n where b: "pw_set_budget hr ?w1 = (Inr (), ?w1\<lparr>pw_timeout := n\<rparr>)"
    using set_budget_quiet[of hr ?w1] budget by (auto simp: quiet_world_def)
  show ?thesis
    using prep com k late
    by (simp add: link_secure_def link_secure_inner_def link_prepare_def link_commit_def cf_verify_def
        auth[unfolded quiet_world_def quiet_channel_def, simplified] b[unfolded quiet_world_def quiet_channel_def, simplified]
        app_key_from_slice_def pair_steps)
qed

text \<open>A claimed invitation commits if the callback does and the clock has not passed the expiry.\<close>

lemma commit_after_claim:
  assumes "pm_claim ident t m = (Inr i, m1)" and "now < inv_expires_at i" and "cb x = (Inr v, x')"
  shows "pm_commit ident (Inr now) cb m1 x =
    (Inr v, m1\<lparr>pm_invitations := bm_remove ident (pm_invitations m1)\<rparr>, x')"
proof -
  have "\<not> pm_poisoned m" using assms(1) by (auto simp: pm_claim_def pm_lock_def split: if_splits)
  then show ?thesis
    using assms(2,3) by (cases rule: pm_claim_ok[OF assms(1)])
      (auto simp: pm_commit_def pm_lock_def bm_get_update not_le)
qed

lemma accept_run:
  assumes ph: "ph_version ph = pairing_version" "ph_client_fingerprint ph = fp" "ph_server_fingerprint ph = own_fp"
      "valid_pake_message c (ph_pake ph) CHR ''A''"
    and ids: "validate_identity (ph_identity ph) (ph_metadata ph) = Inr ()" "validate_identity identity md = Inr ()"
    and compat: "compatible_with (dm_manifest md) (dm_manifest (ph_metadata ph))"
      "compatible_with (dm_manifest md) (dm_manifest (inv_metadata invn))"
    and lens: "manager_lens hr" and meta: "hd_device_metadata hr h = Some md" and m: "hd_pairing hr h = Some m"
    and claim: "pm_claim (ph_invitation_id ph) (Inr t1) m = (Inr invn, m1)" and fpi: "inv_fingerprint invn = own_fp"
    and h1: "h1 = hd_put_pairing hr m1 h"
    and late: "t2 < inv_expires_at invn" "t3 < inv_expires_at invn" "t4 < inv_expires_at invn"
    and pake: "pk_start_b c seed (inv_secret invn) (fst (pake_ids (inv_id invn))) (snd (pake_ids (inv_id invn))) = (st, pb)"
      "pk_finish c st (ph_pake ph) = Some shared"
    and keys: "confirmations_new c shared ph (unsigned_challenge identity md pb) = Inr keys"
    and au: "\<And>w. pw_handler w = h1 \<Longrightarrow> pw_env w = [] \<Longrightarrow> pw_cancel w = [] \<Longrightarrow>
      \<exists>n. au w = (Inr (), w\<lparr>pw_timeout := n\<rparr>)"
    and key: "hd_app_key hr h1 = Inr (AppKey k)"
    and com: "hd_commit hr (ph_invitation_id ph) (ph_identity ph) (ph_metadata ph) fp (AppKey k) h1 = (Inr (), h2)"
    and h3: "h3 = hd_put_pairing hr (m1\<lparr>pm_invitations := bm_remove (ph_invitation_id ph) (pm_invitations m1)\<rparr>) h2"
    and rec: "hd_recover hr (ph_invitation_id ph) (ph_identity ph) fp h3 = Inr (Some md')"
  shows "\<exists>w' m'. accept_secure c seed hr au identity own_fp fp ph
      (quiet_world [PairConfirm (cf_mac c keys (cf_client keys) []), PairPrepared (cf_mac c keys (cf_prepared keys) []),
         PairCommit (cf_mac c keys (cf_commit keys) k)] [t1, t2, t3, t4] h) = (Inr (), w') \<and>
    pw_handler w' = hd_put_pairing hr m' h3 \<and> bm_get (pm_invitations m') (ph_invitation_id ph) = None \<and>
    ch_out (pw_chan w') =
      [PairChallenge ((unsigned_challenge identity md pb)\<lparr>pch_confirmation := cf_mac c keys (cf_server keys) []\<rparr>),
       PairReady (cf_mac c keys (cf_ready keys) []), PairAccepted k (cf_mac c keys (cf_accepted keys) k), PairComplete]"
proof -
  let ?id = "ph_invitation_id ph" and ?u = "unsigned_challenge identity md pb"
  let ?m2 = "m1\<lparr>pm_invitations := bm_remove ?id (pm_invitations m1)\<rparr>"
  let ?in = "[PairPrepared (cf_mac c keys (cf_prepared keys) []), PairCommit (cf_mac c keys (cf_commit keys) k)]"
  let ?w = "quiet_world (PairConfirm (cf_mac c keys (cf_client keys) []) # ?in) [t2, t3, t4] h1"
  let ?b = "quiet_world ?in [t2, t3, t4] h1
    \<lparr>pw_chan := (quiet_channel ?in)\<lparr>ch_out :=
      [PairChallenge (?u\<lparr>pch_confirmation := cf_mac c keys (cf_server keys) []\<rparr>)]\<rparr>\<rparr>"
  note late = late[unfolded not_le[symmetric]]
  obtain n where b: "au ?b = (Inr (), ?b\<lparr>pw_timeout := n\<rparr>)"
    using au[of ?b] by (auto simp: quiet_world_def)
  have un: "\<lparr>pch_identity = identity, pch_metadata = md, pch_pake = pb, pch_confirmation = []\<rparr> = ?u"
    by (simp add: unsigned_challenge_def)
  have prove: "accept_prove c seed hr au identity md own_fp ph invn ?w =
      (Inr keys, quiet_world [PairCommit (cf_mac c keys (cf_commit keys) k)] [t3, t4] h1
        \<lparr>pw_timeout := n, pw_chan := (quiet_channel [PairCommit (cf_mac c keys (cf_commit keys) k)])\<lparr>ch_out :=
          [PairChallenge (?u\<lparr>pch_confirmation := cf_mac c keys (cf_server keys) []\<rparr>),
           PairReady (cf_mac c keys (cf_ready keys) [])]\<rparr>\<rparr>)"
    using fpi compat pake keys late
    by (simp add: accept_prove_def split_beta un cf_verify_def
        b[unfolded quiet_world_def quiet_channel_def, simplified] pair_steps)
  have lens': "hd_pairing hr (hd_put_pairing hr x y) = Some x" for x y using lens by (simp add: manager_lens_def)
  have appr: "approve_pairing hr ph fp h1 = (Inr (AppKey k), h2)" using key com by (simp add: approve_pairing_def)
  have commit: "pw_manager hr (pm_commit ?id (Inr t3) (approve_pairing hr ph fp)) h1 = (Inr (AppKey k), h3)"
    using commit_after_claim[of ?id "Inr t1" m invn m1 t3 "approve_pairing hr ph fp" h1 "AppKey k" h2, OF claim _ appr]
      late(2) by (simp add: pw_manager_def h1 lens' h3 not_le)
  have release: "pw_manager hr (\<lambda>m h. (Inr () :: unit result, pm_release ?id m, h)) h3 =
      (Inr (), hd_put_pairing hr (pm_release ?id ?m2) h3)"
    by (simp add: pw_manager_def h3 lens')
  have gone: "bm_get (pm_invitations (pm_release ?id ?m2)) ?id = None"
    by (auto simp: pm_release_def bm_get_update bm_get_remove split: sum.splits)
  have claimed: "pw_manager hr (\<lambda>m h. case pm_claim ?id (Inr t1) m of (r, m') \<Rightarrow> (r, m', h)) h = (Inr invn, h1)"
    by (simp add: pw_manager_def m claim h1)
  show ?thesis
    using ph ids compat meta late rec
    by (intro exI[of _ "snd (accept_secure c seed hr au identity own_fp fp ph
          (quiet_world (PairConfirm (cf_mac c keys (cf_client keys) []) # ?in) [t1, t2, t3, t4] h))"]
        exI[of _ "pm_release ?id ?m2"])
      (simp add: accept_secure_def accept_claimed_def accept_commit_def pw_release_def claimed commit gone release
        prove[unfolded quiet_world_def quiet_channel_def, simplified] cf_verify_def pair_steps)
qed

end
