(* ===== verification/Demo.thy ===== *)
theory Demo
  imports Pairing_Manager
begin

text \<open>
  Concrete data the properties are applied to: a valid manifest, two devices, an invitation.
\<close>

definition demo_manifest :: app_manifest where
  "demo_manifest =
     \<lparr>m_app_id = ''app'', m_display_name = ''App'', m_schema_version = 1,
      m_adapters = [\<lparr>ad_id = ''notes'', ad_namespace = ''n'', ad_schema = ''s'', ad_transactional = True\<rparr>]\<rparr>"

definition demo_metadata :: device_metadata where
  "demo_metadata =
     \<lparr>dm_display_name = ''Mac'', dm_device_kind = ''desk'', dm_role = ''main'', dm_manifest = demo_manifest\<rparr>"

definition demo_id :: string where
  "demo_id = random_hex (replicate 16 170)"

definition demo_invitation :: pairing_invitation where
  "demo_invitation =
     \<lparr>inv_version = pairing_version, inv_id = demo_id, inv_fingerprint = replicate 64 CHR ''f'',
      inv_metadata = demo_metadata, inv_expires_at = 110, inv_secret = replicate 6 CHR ''7''\<rparr>"

lemma demo_id_eq: "demo_id = replicate 32 CHR ''a''"
proof -
  have "hex_byte 170 = ''aa''"
    by (simp add: hex_byte_def hex_lower_def char_of_eq_iff)
  then show ?thesis by (simp add: demo_id_def random_hex_def numeral_eq_Suc)
qed

lemma demo_valid: "manifest_validate demo_manifest = Inr ()" "metadata_validate demo_metadata = Inr ()"
  by (simp_all add: demo_manifest_def demo_metadata_def metadata_validate_def manifest_validate_def bounded_def)

lemma demo_invitation_valid: "inv_validate demo_invitation = Inr ()"
  by (simp add: inv_validate_def demo_invitation_def demo_id_eq demo_valid is_ascii_hexdigit_def is_ascii_digit_def
      list_all_iff hex_value_def)

definition joiner :: identity where
  "joiner = identity_new ''join'' ''app'' ''user''"

definition inviter :: identity where
  "inviter = identity_new ''host'' ''app'' ''user''"

lemma demo_identities: "validate_identity joiner demo_metadata = Inr ()" "validate_identity inviter demo_metadata = Inr ()"
  using demo_valid(2)
  by (simp_all add: validate_identity_def joiner_def inviter_def identity_new_def bounded_def demo_metadata_def demo_manifest_def)

end
