(* ===== verification/Props_Pairing.thy ===== *)
theory Props_Pairing
  imports Pair_Liveness Listener Demo
begin

text \<open>
  The properties of enrollment: manifests and invitations, the invitation budget under any
  interleaving, and what has to be on the wire before either side commits.
\<close>

section \<open>Contracts and invitations\<close>

text \<open>
  Two valid manifests are compatible exactly when they agree on the app, the schema version
  and the set of adapters (order and display name do not matter), and compatible manifests have
  the same contract digest.
\<close>

theorem compatibility_contract:
  assumes "manifest_validate m = Inr ()" and "manifest_validate n = Inr ()"
  shows "(compatible_with m n \<longleftrightarrow>
      m_app_id m = m_app_id n \<and> m_schema_version m = m_schema_version n \<and>
      set (m_adapters m) = set (m_adapters n)) \<and>
    (compatible_with m n \<longrightarrow> contract_digest json sha m = contract_digest json sha n)"
  using compatible_iff[OF assms] compatible_digest[OF _ assms] by blast

lemma compatibility_contract_witness:
  "compatible_with demo_manifest (demo_manifest\<lparr>m_display_name := ''Other''\<rparr>)"
proof -
  have "manifest_validate (demo_manifest\<lparr>m_display_name := ''Other''\<rparr>) = Inr ()"
    by (simp add: demo_manifest_def manifest_validate_def bounded_def)
  from compatibility_contract[OF demo_valid(1) this] show ?thesis by simp
qed

text \<open>
  an invitation just created can be claimed exactly while the clock reads less than the
  creation time plus the whole seconds of its lifetime; a claim takes one attempt and holds
  the invitation.
\<close>

theorem invitation_lifetime:
  assumes "pm_create rnd (Inr now) t2 md fp ttl secret m = (Inr i, m')"
  shows "pm_claim (inv_id i) (Inr t) m' =
    (if t < sat_add now (ttl_secs ttl)
     then (Inr i, m'\<lparr>pm_invitations := bm_update (inv_id i)
                       (\<lambda>e. e\<lparr>is_attempts := is_attempts e + 1, is_claimed := True\<rparr>) (pm_invitations m')\<rparr>)
     else (pair_fail ''invitation unavailable'', m'))"
proof -
  have exp: "inv_expires_at i = sat_add now (ttl_secs ttl)"
    using assms by (auto simp: pm_create_def Let_def split: if_splits sum.splits)
  show ?thesis
  proof (cases rule: pm_create_cases[OF assms])
    case (3 P j kept)
    moreover have "\<not> pm_poisoned m"
      using assms by (auto simp: pm_create_def Let_def pm_lock_def split: if_splits sum.splits)
    ultimately show ?thesis
      using exp by (auto simp: pm_claim_def pm_lock_def bm_get_insert not_less)
  qed auto
qed

lemma demo_created:
  "pm_create (replicate 16 170) (Inr 100) (Inr 100) demo_metadata (replicate 64 CHR ''f'') 10000000000
     (replicate 6 CHR ''7'') pm_new =
   (Inr demo_invitation,
    pm_new\<lparr>pm_invitations := [(demo_id, \<lparr>is_invitation = demo_invitation, is_attempts = 0, is_claimed = False\<rparr>)]\<rparr>)"
proof -
  have "sat_add 100 (ttl_secs 10000000000) = 110"
    by (simp add: sat_add_def ttl_secs_def)
  then show ?thesis
    using demo_invitation_valid
    by (simp add: pm_create_def Let_def max_ttl_def pm_lock_def pm_new_def bm_retain_def demo_invitation_def demo_id_def)
qed

lemma invitation_lifetime_witness:
  "fst (pm_claim demo_id (Inr 109) (snd (pm_create (replicate 16 170) (Inr 100) (Inr 100) demo_metadata
     (replicate 64 CHR ''f'') 10000000000 (replicate 6 CHR ''7'') pm_new))) = Inr demo_invitation"
proof -
  have "(109 :: u64) < sat_add 100 (ttl_secs 10000000000)"
    by (simp add: sat_add_def ttl_secs_def)
  moreover have "inv_id demo_invitation = demo_id" by (simp add: demo_invitation_def)
  ultimately show ?thesis
    using invitation_lifetime[OF demo_created, of 109] by (simp add: demo_created)
qed

text \<open>A lifetime below one second is accepted but gives an invitation that is already expired.\<close>

lemma subsecond_invitation_dead:
  assumes "pm_create rnd (Inr now) t2 md fp ttl secret m = (Inr i, m')" and "ttl < 1000000000"
  shows "inv_expires_at i = now"
proof -
  have "sat_add now 0 = now" using unat_u64_bound[of now] by (simp add: sat_add_def)
  then show ?thesis
    using assms by (auto simp: pm_create_def Let_def ttl_secs_def split: if_splits sum.splits)
qed

text \<open>
  From an empty manager, whatever calls follow in whatever interleaving, an invitation that
  is not created again is claimed at most five times and committed at most once, and is gone
  once committed.
\<close>

theorem invitation_budget:
  assumes "pm_run pm_new before m" and "pm_run m evs m'" and "Created k \<notin> set evs"
  shows "claims_of k evs \<le> 5 \<and> commits_of k evs \<le> 1 \<and>
    (commits_of k evs = 1 \<longrightarrow> bm_get (pm_invitations m') k = None)"
proof -
  have ok: "pm_ok m" by (rule pm_run_ok[OF assms(1) pm_ok_new])
  have "attempts_left m k \<le> 5" by (auto simp: attempts_left_def split: option.splits)
  moreover have "present m k \<le> 1" by (simp add: present_def)
  ultimately show ?thesis
    using pm_run_budget[OF assms(2) ok assms(3)] pm_run_present[OF assms(2) ok assms(3)]
    by (auto simp: present_eq split: option.splits)
qed

lemma invitation_budget_witness:
  "claims_of demo_id [Claimed demo_id, Other, Claimed demo_id] \<le> 5 \<and>
   commits_of demo_id [Claimed demo_id, Other, Claimed demo_id] \<le> 1"
proof -
  let ?i = "demo_invitation"
  let ?m = "\<lambda>a b. pm_new\<lparr>pm_invitations := [(demo_id, \<lparr>is_invitation = ?i, is_attempts = a, is_claimed = b\<rparr>)]\<rparr>"
  have id: "inv_id ?i = demo_id" and exp: "inv_expires_at ?i = 110" by (simp_all add: demo_invitation_def)
  have created: "pm_run pm_new [Created demo_id] (?m 0 False)"
    using pm_step.create[OF demo_created] by (metis id pm_run.intros)
  have claim: "pm_step (?m a False) (Claimed demo_id) (?m (a + 1) True)" if "\<not> 5 \<le> a" for a
    by (rule pm_step.claim[of _ "Inr 105" _ ?i])
      (use that exp in \<open>simp add: pm_claim_def pm_lock_def pm_new_def bm_update_def\<close>)
  have free: "pm_step (?m a True) Other (?m a False)" for a
    using pm_step.release[of "?m a True" demo_id] by (simp add: pm_release_def pm_lock_def pm_new_def bm_update_def)
  have "pm_run (?m 0 False) [Claimed demo_id, Other, Claimed demo_id] (?m 2 True)"
    by (rule pm_run.more[OF _ pm_run.more[OF free pm_run.more[OF _ pm_run.stop]]])
      (use claim[of 0] claim[of 1] in \<open>simp_all add: word_le_nat_alt\<close>)
  from invitation_budget[OF created this, of demo_id] show ?thesis by simp
qed

section \<open>Two concrete apps\<close>

text \<open>
  A toy PAKE whose secret is the password, and an app that counts its commits, to run the
  handshake on.
\<close>

definition demo_crypto :: "string pair_crypto" where
  "demo_crypto =
     \<lparr>pk_start_a = (\<lambda>seed pw a b. (pw, of_char CHR ''A'' # replicate 32 0)),
      pk_start_b = (\<lambda>seed pw a b. (pw, of_char CHR ''B'' # replicate 32 0)),
      pk_finish = (\<lambda>pw msg. Some (map of_char pw)),
      pk_element = (\<lambda>_. True),
      pk_transcript = (\<lambda>_ _ _ _. Inr [2]),
      pk_sha256 = (\<lambda>bs. bs),
      pk_hkdf = (\<lambda>salt key label. Some (key @ map of_char label)),
      pk_hmac = (\<lambda>key msg. key @ msg)\<rparr>"

definition demo_app :: "(pairing_manager \<times> nat) handler" where
  "demo_app = (default_handler ''app'' (\<lambda>_ _. False) (\<lambda>_ h. (Inr False, h)))
     \<lparr>hd_device_metadata := (\<lambda>_. Some demo_metadata), hd_pairing := (\<lambda>h. Some (fst h)),
      hd_put_pairing := (\<lambda>m h. (m, snd h)), hd_prepare := (\<lambda>_ h. (Inr (), h)),
      hd_commit := (\<lambda>_ _ _ _ _ h. (Inr (), (fst h, Suc (snd h)))),
      hd_recover := (\<lambda>_ _ _ _. Inr (Some demo_metadata)),
      hd_app_key := (\<lambda>_. Inr (AppKey (replicate 32 9)))\<rparr>"

definition demo_open :: pairing_manager where
  "demo_open = pm_new\<lparr>pm_invitations := [(demo_id, \<lparr>is_invitation = demo_invitation, is_attempts = 0, is_claimed = False\<rparr>)]\<rparr>"

lemma demo_fields [simp]:
  "inv_id demo_invitation = demo_id" "inv_expires_at demo_invitation = 110"
  "inv_fingerprint demo_invitation = replicate 64 CHR ''f''" "inv_secret demo_invitation = replicate 6 CHR ''7''"
  "inv_metadata demo_invitation = demo_metadata"
  by (simp_all add: demo_invitation_def)

lemma demo_app_simps:
  "hd_device_metadata demo_app h = Some demo_metadata" "hd_pairing demo_app h = Some (fst h)"
  "hd_put_pairing demo_app m h = (m, snd h)" "hd_prepare demo_app outcome h = (Inr (), h)"
  "hd_commit demo_app ident peer md fp key h = (Inr (), (fst h, Suc (snd h)))"
  "hd_recover demo_app ident peer fp h = Inr (Some demo_metadata)"
  "hd_app_key demo_app h = Inr (AppKey (replicate 32 9))"
  by (simp_all add: demo_app_def default_handler_def)

lemma demo_lens: "manager_lens demo_app"
  by (simp add: manager_lens_def demo_app_def)

lemma demo_claim:
  "t < 110 \<Longrightarrow> pm_claim demo_id (Inr t) demo_open =
     (Inr demo_invitation, pm_new\<lparr>pm_invitations := [(demo_id, \<lparr>is_invitation = demo_invitation, is_attempts = 1, is_claimed = True\<rparr>)]\<rparr>)"
  by (simp add: pm_claim_def demo_open_def pm_lock_def pm_new_def bm_update_def not_le[symmetric])

section \<open>No commit without proof\<close>

text \<open>
  C11: on the listening side the app's durable commit runs only for a client that proved it
  knows the invitation's secret. If, whatever invitation the manager hands out, the incoming
  messages do not start with the confirmation and preparation tags derived from that secret and
  this very transcript, then the run is the same whatever the commit function is.
\<close>

theorem accept_needs_proof:
  assumes "chan_frame au" and "\<And>h m t m' metadata invn.
     hd_pairing hr h = Some m \<Longrightarrow> pm_claim (ph_invitation_id ph) t m = (Inr invn, m') \<Longrightarrow>
     \<not> client_proved c seed identity metadata ph invn (ch_in (pw_chan w))"
  shows "accept_secure c seed hr au identity own_fp fp ph w =
    accept_secure c seed (hr\<lparr>hd_commit := f\<rparr>) au identity own_fp fp ph w"
  using accept_secure_commit[of c seed hr au identity own_fp fp ph w f] assms by blast

lemma accept_needs_proof_witness:
  "let w = quiet_world [Ack] [100, 100] (demo_open, 0);
       ph = joiner_hello joiner demo_metadata ''a'' ''b'' demo_invitation []
   in accept_secure demo_crypto [] demo_app (pw_set_budget demo_app) inviter ''b'' ''a'' ph w =
      accept_secure demo_crypto [] (demo_app\<lparr>hd_commit := (\<lambda>_ _ _ _ _ h. (Inl Cancelled, h))\<rparr>) (pw_set_budget demo_app) inviter ''b'' ''a'' ph w"
  unfolding Let_def
  by (rule accept_needs_proof) (simp_all add: client_proved_def quiet_world_def quiet_channel_def)

text \<open>
  C12: on the joining side the app's durable commit runs only after the inviter, on the pinned
  connection, proved it knows the invitation's secret and delivered a 32-byte group key under a
  valid tag: without such messages the run is the same whatever the commit function is.
\<close>

theorem link_needs_proof:
  assumes "\<And>fp ch keys k rest. opened = Inr fp \<Longrightarrow> length k = 32 \<Longrightarrow>
     \<not> server_proved c seed identity metadata own_fp fp invn ch keys (ch_in (pw_chan w))
        (Inr (PairAccepted k (cf_mac c keys (cf_accepted keys) k)) # rest)"
  shows "link_secure c seed hr identity metadata own_fp opened invn w =
    link_secure c seed (hr\<lparr>hd_commit := f\<rparr>) identity metadata own_fp opened invn w"
  using link_secure_commit[of c seed hr identity metadata own_fp opened invn w f] assms by blast

lemma link_needs_proof_witness:
  "let w = quiet_world [Ack] [100, 100] (demo_open, 0)
   in link_secure demo_crypto [] demo_app joiner demo_metadata ''a'' (Inr ''b'') demo_invitation w =
      link_secure demo_crypto [] (demo_app\<lparr>hd_commit := (\<lambda>_ _ _ _ _ h. (Inl Cancelled, h))\<rparr>) joiner demo_metadata ''a''
        (Inr ''b'') demo_invitation w"
  unfolding Let_def
  by (rule link_needs_proof) (simp add: server_proved_def quiet_world_def quiet_channel_def)

section \<open>Strangers\<close>

text \<open>
  Two runs fit together: the PAKE messages are well formed and both sides finish with the same
  secret, as two SPAKE2 runs over one password do.
\<close>

definition pake_agrees ::
  "'s pair_crypto \<Rightarrow> bytes \<Rightarrow> bytes \<Rightarrow> pairing_invitation \<Rightarrow> bytes \<Rightarrow> bytes \<Rightarrow> bytes \<Rightarrow> bool" where
  "pake_agrees c seed_a seed_b invn pa pb shared \<longleftrightarrow>
     (\<exists>sa sb. pk_start_a c seed_a (inv_secret invn) (fst (pake_ids (inv_id invn))) (snd (pake_ids (inv_id invn))) = (sa, pa) \<and>
        pk_start_b c seed_b (inv_secret invn) (fst (pake_ids (inv_id invn))) (snd (pake_ids (inv_id invn))) = (sb, pb) \<and>
        pk_finish c sa pb = Some shared \<and> pk_finish c sb pa = Some shared) \<and>
     valid_pake_message c pa CHR ''A'' \<and> valid_pake_message c pb CHR ''B''"

lemma confirmations_unsigned:
  "confirmations_new c shared ph ((unsigned_challenge i md pb)\<lparr>pch_confirmation := tag\<rparr>) =
   confirmations_new c shared ph (unsigned_challenge i md pb)"
  by (simp add: confirmations_new_def unsigned_challenge_def)

text \<open>
  C10: an enrollment completes. When the inviter hands out a valid invitation, both devices are
  valid and compatible, the two PAKE runs agree, the clocks stay below the expiry, nobody
  cancels and both apps accept, then the joining run and the inviting run, each reading exactly
  what the other wrote, both succeed, both apps have committed, and the invitation is gone.
\<close>

theorem enrollment_completes:
  assumes ids: "validate_identity id_a md_a = Inr ()" "validate_identity id_b md_b = Inr ()"
    and invn: "inv_validate invn = Inr ()" "inv_fingerprint invn = fp_b" "\<forall>t\<in>{a1, a2, a3, b2, b3, b4}. t < inv_expires_at invn"
    and compat: "compatible_with (dm_manifest md_a) (dm_manifest md_b)"
      "compatible_with (dm_manifest md_b) (dm_manifest (inv_metadata invn))"
    and pake: "pake_agrees c seed_a seed_b invn pa pb shared"
    and keys: "confirmations_new c shared (joiner_hello id_a md_a fp_a fp_b invn pa) (unsigned_challenge id_b md_b pb) = Inr keys"
    and a: "budget_ok hra ha"
      "hd_prepare hra \<lparr>po_invitation_id = inv_id invn, po_identity = id_b, po_metadata = md_b, po_fingerprint = fp_b\<rparr> ha = (Inr (), ha1)"
      "hd_commit hra (inv_id invn) id_b md_b fp_b (AppKey k) ha1 = (Inr (), ha2)" "length k = 32"
    and b: "manager_lens hrb" "hd_device_metadata hrb hb = Some md_b" "hd_pairing hrb hb = Some m"
      "pm_claim (inv_id invn) (Inr b1) m = (Inr invn, m1)" "hb1 = hd_put_pairing hrb m1 hb" "budget_ok hrb hb1"
      "hd_app_key hrb hb1 = Inr (AppKey k)" "hd_commit hrb (inv_id invn) id_a md_a fp_a (AppKey k) hb1 = (Inr (), hb2)"
      "hb3 = hd_put_pairing hrb (m1\<lparr>pm_invitations := bm_remove (inv_id invn) (pm_invitations m1)\<rparr>) hb2"
      "hd_recover hrb (inv_id invn) id_a fp_a hb3 = Inr (Some md')"
  shows "\<exists>sent_a sent_b wa wb m'.
     link_secure c seed_a hra id_a md_a fp_a (Inr fp_b) invn (quiet_world sent_b [a1, a2, a3] ha) =
       (Inr \<lparr>po_invitation_id = inv_id invn, po_identity = id_b, po_metadata = md_b, po_fingerprint = fp_b\<rparr>, wa) \<and>
     accept_secure c seed_b hrb (pw_set_budget hrb) id_b fp_b fp_a (joiner_hello id_a md_a fp_a fp_b invn pa)
       (quiet_world sent_a [b1, b2, b3, b4] hb) = (Inr (), wb) \<and>
     ch_out (pw_chan wa) = PairHello (joiner_hello id_a md_a fp_a fp_b invn pa) # sent_a \<and> ch_out (pw_chan wb) = sent_b \<and>
     pw_handler wa = ha2 \<and> pw_handler wb = hd_put_pairing hrb m' hb3 \<and>
     bm_get (pm_invitations m') (inv_id invn) = None"
proof -
  let ?ph = "joiner_hello id_a md_a fp_a fp_b invn pa"
  let ?ch = "(unsigned_challenge id_b md_b pb)\<lparr>pch_confirmation := cf_mac c keys (cf_server keys) []\<rparr>"
  obtain sa sb where pk: "pk_start_a c seed_a (inv_secret invn) (fst (pake_ids (inv_id invn))) (snd (pake_ids (inv_id invn))) = (sa, pa)"
      "pk_start_b c seed_b (inv_secret invn) (fst (pake_ids (inv_id invn))) (snd (pake_ids (inv_id invn))) = (sb, pb)"
      "pk_finish c sa pb = Some shared" "pk_finish c sb pa = Some shared"
      "valid_pake_message c pa CHR ''A''" "valid_pake_message c pb CHR ''B''"
    using pake by (auto simp: pake_agrees_def)
  have ch: "pch_identity ?ch = id_b" "pch_metadata ?ch = md_b" "pch_pake ?ch = pb"
      "outcome_of invn fp_b ?ch = \<lparr>po_invitation_id = inv_id invn, po_identity = id_b, po_metadata = md_b, po_fingerprint = fp_b\<rparr>"
    by (simp_all add: unsigned_challenge_def outcome_of_def)
  have link: "\<exists>w'. link_secure c seed_a hra id_a md_a fp_a (Inr fp_b) invn
      (quiet_world [PairChallenge ?ch, PairReady (cf_mac c keys (cf_ready keys) []),
         PairAccepted k (cf_mac c keys (cf_accepted keys) k), PairComplete] [a1, a2, a3] ha)
      = (Inr (outcome_of invn fp_b ?ch), w') \<and> pw_handler w' = ha2 \<and>
    ch_out (pw_chan w') = [PairHello ?ph, PairConfirm (cf_mac c keys (cf_client keys) []),
      PairPrepared (cf_mac c keys (cf_prepared keys) []), PairCommit (cf_mac c keys (cf_commit keys) k)]"
    by (rule link_run[where ?h1.0 = ha1 and st = sa and shared = shared])
      (use ids invn compat pk a keys compatible_trans[OF compat] compatible_sym[OF compat(2)] in
        \<open>simp_all add: ch confirmations_unsigned\<close>)
  have accept: "\<exists>w' m'. accept_secure c seed_b hrb (pw_set_budget hrb) id_b fp_b fp_a ?ph
      (quiet_world [PairConfirm (cf_mac c keys (cf_client keys) []), PairPrepared (cf_mac c keys (cf_prepared keys) []),
         PairCommit (cf_mac c keys (cf_commit keys) k)] [b1, b2, b3, b4] hb) = (Inr (), w') \<and>
    pw_handler w' = hd_put_pairing hrb m' hb3 \<and> bm_get (pm_invitations m') (ph_invitation_id ?ph) = None \<and>
    ch_out (pw_chan w') = [PairChallenge ?ch, PairReady (cf_mac c keys (cf_ready keys) []),
      PairAccepted k (cf_mac c keys (cf_accepted keys) k), PairComplete]"
    by (rule accept_run[where m = m and ?m1.0 = m1 and ?h1.0 = hb1 and ?h2.0 = hb2 and md = md_b and invn = invn and st = sb
          and shared = shared and md' = md'])
      (use ids invn compat pk b keys compatible_sym[OF compat(1)] set_budget_quiet[of hrb] in
        \<open>simp_all add: joiner_hello_def\<close>)
  from link accept show ?thesis by (auto simp: ch joiner_hello_def) metis
qed

lemma enrollment_completes_witness:
  "\<exists>sent_a sent_b wa wb m'.
     link_secure demo_crypto [] demo_app joiner demo_metadata ''a'' (Inr (replicate 64 CHR ''f'')) demo_invitation
       (quiet_world sent_b [101, 102, 103] (pm_new, 0)) =
       (Inr \<lparr>po_invitation_id = demo_id, po_identity = inviter, po_metadata = demo_metadata,
          po_fingerprint = replicate 64 CHR ''f''\<rparr>, wa) \<and>
     accept_secure demo_crypto [] demo_app (pw_set_budget demo_app) inviter (replicate 64 CHR ''f'') ''a''
       (joiner_hello joiner demo_metadata ''a'' (replicate 64 CHR ''f'') demo_invitation (of_char CHR ''A'' # replicate 32 0))
       (quiet_world sent_a [101, 102, 103, 104] (demo_open, 0)) = (Inr (), wb) \<and>
     ch_out (pw_chan wa) =
       PairHello (joiner_hello joiner demo_metadata ''a'' (replicate 64 CHR ''f'') demo_invitation
         (of_char CHR ''A'' # replicate 32 0)) # sent_a \<and>
     ch_out (pw_chan wb) = sent_b \<and>
     pw_handler wa = (pm_new, 1) \<and> pw_handler wb = (m', 1) \<and> bm_get (pm_invitations m') demo_id = None"
proof -
  have key: "\<exists>keys. confirmations_new demo_crypto s ph ch = Inr keys" for s ph ch
    by (simp add: confirmations_new_def demo_crypto_def Let_def)
  have agrees: "pake_agrees demo_crypto [] [] demo_invitation (of_char CHR ''A'' # replicate 32 0)
      (of_char CHR ''B'' # replicate 32 0) (map of_char (replicate 6 CHR ''7''))"
    by (simp add: pake_agrees_def demo_crypto_def valid_pake_message_def)
  obtain keys where keys: "confirmations_new demo_crypto (map of_char (replicate 6 CHR ''7''))
      (joiner_hello joiner demo_metadata ''a'' (replicate 64 CHR ''f'') demo_invitation (of_char CHR ''A'' # replicate 32 0))
      (unsigned_challenge inviter demo_metadata (of_char CHR ''B'' # replicate 32 0)) = Inr keys"
    using key by blast
  have budget: "budget_ok demo_app h" for h
    by (simp add: budget_ok_def authenticated_budget_def demo_app_def default_handler_def)
  let ?m1 = "pm_new\<lparr>pm_invitations := [(demo_id, \<lparr>is_invitation = demo_invitation, is_attempts = 1, is_claimed = True\<rparr>)]\<rparr>"
  let ?m2 = "?m1\<lparr>pm_invitations := bm_remove demo_id (pm_invitations ?m1)\<rparr>"
  have claim: "pm_claim demo_id (Inr 101) demo_open = (Inr demo_invitation, ?m1)"
    by (rule demo_claim) simp
  show ?thesis
    using enrollment_completes[OF demo_identities demo_invitation_valid _ _ _ _ agrees keys budget,
        where ?a1.0 = 101 and ?a2.0 = 102 and ?a3.0 = 103 and ?b1.0 = 101 and ?b2.0 = 102 and ?b3.0 = 103 and ?b4.0 = 104
          and ha = "(pm_new, 0)" and ?ha1.0 = "(pm_new, 0)" and ?ha2.0 = "(pm_new, 1)" and k = "replicate 32 9"
          and hb = "(demo_open, 0)" and hrb = demo_app and m = demo_open and ?m1.0 = ?m1 and ?hb1.0 = "(?m1, 0)"
          and ?hb2.0 = "(?m1, 1)" and ?hb3.0 = "(?m2, 1)" and md' = demo_metadata]
      demo_lens claim budget
    by (simp add: demo_app_simps)
qed




end
