(* ===== verification/Record_Key.thy ===== *)
theory Record_Key
  imports Utf8
begin

text \<open>
  Record keys of \<open>record.rs\<close>: \<open>record:<namespace>:<schema>:<entity>:<id>\<close> with each
  component percent-escaped.
\<close>

record record_key_parts =
  kp_namespace :: string
  kp_schema :: string
  kp_entity :: string
  kp_id :: string

definition record_prefix :: string where
  "record_prefix = ''record''"

definition unreserved :: "char \<Rightarrow> bool" where
  "unreserved c =
     ((65 \<le> code c \<and> code c \<le> 90) \<or> (97 \<le> code c \<and> code c \<le> 122) \<or>
      (48 \<le> code c \<and> code c \<le> 57) \<or> c = CHR ''-'' \<or> c = CHR ''_'' \<or> c = CHR ''.'' \<or> c = CHR ''~'')"

definition escape_byte :: "char \<Rightarrow> string" where
  "escape_byte c =
     (if unreserved c then [c]
      else [CHR ''%'', hex_upper (code c div 16), hex_upper (code c mod 16)])"

definition escape_component :: "string \<Rightarrow> string" where
  "escape_component s = concat (map escape_byte s)"

definition bad_escape :: "'a result" where
  "bad_escape = Inl (Protocol ''invalid escape sequence'')"

text \<open>\<open>str::from_utf8(&[hi, lo])\<close>, then \<open>u8::from_str_radix(_, 16)\<close>, which takes a leading \<open>+\<close>.\<close>

definition hex_pair :: "char \<Rightarrow> char \<Rightarrow> char result" where
  "hex_pair hi lo =
     (if \<not> valid_utf8 [hi, lo] then bad_escape
      else if hi = CHR ''+'' then
        (case hex_value lo of None \<Rightarrow> bad_escape | Some l \<Rightarrow> Inr (char_of l))
      else (case hex_value hi of None \<Rightarrow> bad_escape
            | Some h \<Rightarrow> (case hex_value lo of None \<Rightarrow> bad_escape
                         | Some l \<Rightarrow> Inr (char_of (16 * h + l)))))"

fun unescape_bytes :: "string \<Rightarrow> string result" where
  "unescape_bytes [] = Inr []"
| "unescape_bytes (c # s) =
     (if c = CHR ''%'' then
        (case s of
           hi # lo # s' \<Rightarrow>
             bindR (hex_pair hi lo) (\<lambda>v. bindR (unescape_bytes s') (\<lambda>r. Inr (v # r)))
         | _ \<Rightarrow> bad_escape)
      else bindR (unescape_bytes s) (\<lambda>r. Inr (c # r)))"

definition unescape_component :: "string \<Rightarrow> string result" where
  "unescape_component s =
     bindR (unescape_bytes s) (\<lambda>bs.
       if valid_utf8 bs then Inr bs else Inl (Protocol ''invalid utf-8 in record key''))"

definition record_entry_key :: "string \<Rightarrow> string \<Rightarrow> string \<Rightarrow> string \<Rightarrow> string" where
  "record_entry_key namespace schema entity ident =
     record_prefix @ '':'' @ escape_component namespace @ '':'' @ escape_component schema @
     '':'' @ escape_component entity @ '':'' @ escape_component ident"

text \<open>One step of \<open>splitn\<close>: the part before the first colon, and what follows it if any.\<close>

fun split_colon :: "string \<Rightarrow> string \<times> string option" where
  "split_colon [] = ([], None)"
| "split_colon (c # s) =
     (if c = CHR '':'' then ([], Some s)
      else (case split_colon s of (a, b) \<Rightarrow> (c # a, b)))"

definition next_part :: "string \<Rightarrow> string option \<Rightarrow> (string \<times> string option) result" where
  "next_part name rest =
     (case rest of
        None \<Rightarrow> Inl (Protocol (''record key missing '' @ name))
      | Some s \<Rightarrow> Inr (split_colon s))"

definition parse_record_key :: "string \<Rightarrow> record_key_parts option result" where
  "parse_record_key key =
     (if take (length record_prefix) key \<noteq> record_prefix then Inr None
      else case split_colon key of
        (prefix, rest0) \<Rightarrow>
          if prefix \<noteq> record_prefix then Inr None
          else bindR (next_part ''namespace'' rest0) (\<lambda>(namespace, rest1).
               bindR (next_part ''schema'' rest1) (\<lambda>(schema, rest2).
               bindR (next_part ''entity'' rest2) (\<lambda>(entity, rest3).
               bindR (ok_or (Protocol ''record key missing id'') rest3) (\<lambda>ident.
               bindR (unescape_component namespace) (\<lambda>namespace'.
               bindR (unescape_component schema) (\<lambda>schema'.
               bindR (unescape_component entity) (\<lambda>entity'.
               bindR (unescape_component ident) (\<lambda>ident'.
                 Inr (Some \<lparr>kp_namespace = namespace', kp_schema = schema',
                            kp_entity = entity', kp_id = ident'\<rparr>))))))))))"

section \<open>Escaping round trips\<close>

lemma escape_byte_chars: "c \<in> set (escape_byte b) \<Longrightarrow> c \<noteq> CHR '':'' \<and> code c < 128"
proof -
  have "code b div 16 < 16" by (rule less_mult_imp_div_less) simp
  moreover have "code b mod 16 < 16" by simp
  moreover assume "c \<in> set (escape_byte b)"
  ultimately show ?thesis
    by (auto simp: escape_byte_def unreserved_def hex_upper_neq split: if_splits)
qed

lemma escape_component_chars: "c \<in> set (escape_component s) \<Longrightarrow> c \<noteq> CHR '':'' \<and> code c < 128"
  using escape_byte_chars by (auto simp: escape_component_def)

lemma hex_pair_upper: "hex_pair (hex_upper (code c div 16)) (hex_upper (code c mod 16)) = Inr c"
proof -
  have hi: "code c div 16 < 16" by (rule less_mult_imp_div_less) simp
  have lo: "code c mod 16 < 16" by simp
  have "valid_utf8 [hex_upper (code c div 16), hex_upper (code c mod 16)]"
    by (rule valid_utf8_ascii) (auto simp: hex_upper_neq hi lo)
  then show ?thesis
    by (simp add: hex_pair_def hex_upper_neq hi lo hex_value_upper)
qed

lemma unescape_escape_append:
  "unescape_bytes (escape_component s @ t) = bindR (unescape_bytes t) (\<lambda>r. Inr (s @ r))"
proof (induction s)
  case Nil
  then show ?case by (cases "unescape_bytes t") (simp_all add: escape_component_def)
next
  case (Cons c s)
  have split: "escape_component (c # s) = escape_byte c @ escape_component s"
    by (simp add: escape_component_def)
  have pct: "unreserved c \<Longrightarrow> c \<noteq> CHR ''%''" by (auto simp: unreserved_def)
  show ?case
    using Cons.IH pct hex_pair_upper[of c]
    by (cases "unescape_bytes t") (simp_all add: split escape_byte_def)
qed

lemma unescape_escape: "valid_utf8 s \<Longrightarrow> unescape_component (escape_component s) = Inr s"
  using unescape_escape_append[of s "[]"] by (simp add: unescape_component_def)

lemma escape_component_inject: "escape_component s = escape_component t \<Longrightarrow> s = t"
  using unescape_escape_append[of s "[]"] unescape_escape_append[of t "[]"] by simp

lemma split_colon_append:
  "CHR '':'' \<notin> set a \<Longrightarrow> split_colon (a @ CHR '':'' # b) = (a, Some b)"
  by (induction a) auto

lemma split_colon_none: "CHR '':'' \<notin> set a \<Longrightarrow> split_colon a = (a, None)"
  by (induction a) auto

lemma colon_free [simp]: "CHR '':'' \<notin> set (escape_component s)"
  using escape_component_chars by blast

lemma split_record_key:
  "split_colon (record_entry_key n s e i) =
     (record_prefix,
      Some (escape_component n @ '':'' @ escape_component s @ '':'' @ escape_component e @ '':'' @
            escape_component i))"
proof -
  have "CHR '':'' \<notin> set record_prefix" by (simp add: record_prefix_def)
  from split_colon_append[OF this] show ?thesis by (simp add: record_entry_key_def)
qed

lemma parse_record_entry_key:
  assumes "valid_utf8 n" and "valid_utf8 s" and "valid_utf8 e" and "valid_utf8 i"
  shows "parse_record_key (record_entry_key n s e i) =
    Inr (Some \<lparr>kp_namespace = n, kp_schema = s, kp_entity = e, kp_id = i\<rparr>)"
proof -
  have "take (length record_prefix) (record_entry_key n s e i) = record_prefix"
    by (simp add: record_entry_key_def)
  with assms show ?thesis
    by (simp add: parse_record_key_def split_record_key next_part_def split_colon_append
        unescape_escape)
qed

text \<open>The key determines the four components, valid UTF-8 or not.\<close>

lemma record_entry_key_inject:
  assumes "record_entry_key n s e i = record_entry_key n' s' e' i'"
  shows "n = n' \<and> s = s' \<and> e = e' \<and> i = i'"
proof -
  have step: "a = b \<and> x = y"
    if "escape_component a @ CHR '':'' # x = escape_component b @ CHR '':'' # y" for a b x y
  proof -
    have "split_colon (escape_component a @ CHR '':'' # x) =
        split_colon (escape_component b @ CHR '':'' # y)" by (simp only: that)
    then show ?thesis
      by (simp only: split_colon_append[OF colon_free]) (auto dest: escape_component_inject)
  qed
  have "escape_component n @ CHR '':'' # escape_component s @ CHR '':'' # escape_component e @
          CHR '':'' # escape_component i =
        escape_component n' @ CHR '':'' # escape_component s' @ CHR '':'' # escape_component e' @
          CHR '':'' # escape_component i'"
    using assms by (simp add: record_entry_key_def)
  from step[OF this] have n: "n = n'" and rest: "escape_component s @ CHR '':'' #
      escape_component e @ CHR '':'' # escape_component i = escape_component s' @ CHR '':'' #
      escape_component e' @ CHR '':'' # escape_component i'" by auto
  from step[OF rest] have s: "s = s'" and rest: "escape_component e @ CHR '':'' #
      escape_component i = escape_component e' @ CHR '':'' # escape_component i'" by auto
  from step[OF rest] have "e = e'" "escape_component i = escape_component i'" by auto
  then show ?thesis using n s escape_component_inject by blast
qed

end
