(* ===== verification/Records.thy ===== *)
theory Records
  imports Lww Record_Key
begin

text \<open>
  \<open>record.rs\<close>: logical records, their field clocks, and the record view of a sync state.
  \<open>serde_json\<close> is third-party code, so the encoding of a payload is an argument: the
  \<open>payload_codec\<close> holds \<open>serde_json::to_vec\<close> and \<open>serde_json::from_slice\<close> at the type
  \<open>RecordPayload\<close>. Theorems that need it say which payload must decode to itself.
  A \<open>RecordState\<close> is its namespace with the state it borrows; methods that take
  \<open>&mut self\<close> return the state they leave, on the error paths too.
\<close>

record sync_record =
  r_schema :: string
  r_entity :: string
  r_id :: string
  r_fields :: "(string, field_value) bmap"
  r_tombstone :: bool
  r_clock :: lamport_clock
  r_updated_at :: "u64 option"
  r_field_clocks :: "(string, lamport_clock) bmap"

datatype merge_policy =
    LastWriterWins | SetUnion | Counter | ListAppend | AppendOnly | Custom string

record record_payload =
  p_fields :: "(string, field_value) bmap"
  p_tombstone :: bool
  p_updated_at :: "u64 option"
  p_field_clocks :: "(string, lamport_clock) bmap"

record payload_codec =
  encode_payload :: "record_payload \<Rightarrow> bytes result"
  decode_payload :: "bytes \<Rightarrow> record_payload result"

section \<open>Field clocks\<close>

definition field_clock :: "sync_record \<Rightarrow> string \<Rightarrow> lamport_clock" where
  "field_clock r f = (case bm_get (r_field_clocks r) f of None \<Rightarrow> r_clock r | Some c \<Rightarrow> c)"

definition inherited_clock ::
  "sync_record option \<Rightarrow> sync_record \<Rightarrow> string \<Rightarrow> lamport_clock option" where
  "inherited_clock existing r f =
     (case existing of
        None \<Rightarrow> None
      | Some ex \<Rightarrow>
          if r_tombstone ex then None
          else if fv_opt_eq (bm_get (r_fields ex) f) (bm_get (r_fields r) f)
               then Some (field_clock ex f) else None)"

fun stamp_loop :: "string list \<Rightarrow> sync_record option \<Rightarrow> sync_record \<Rightarrow> sync_record" where
  "stamp_loop [] existing r = r"
| "stamp_loop (f # fs) existing r =
     (if bm_has (r_field_clocks r) f then stamp_loop fs existing r
      else let clock = (case inherited_clock existing r f of None \<Rightarrow> r_clock r | Some c \<Rightarrow> c)
           in stamp_loop fs existing
                (r\<lparr>r_field_clocks := bm_insert f clock (r_field_clocks r)\<rparr>))"

definition stamp_field_clocks :: "sync_record option \<Rightarrow> sync_record \<Rightarrow> sync_record" where
  "stamp_field_clocks existing r =
     (let r1 = stamp_loop (bm_keys (r_fields r)) existing r
      in r1\<lparr>r_field_clocks := bm_retain (\<lambda>f _. bm_has (r_fields r1) f) (r_field_clocks r1)\<rparr>)"

section \<open>Records and entries\<close>

definition record_to_entry :: "payload_codec \<Rightarrow> string \<Rightarrow> sync_record \<Rightarrow> entry result" where
  "record_to_entry cd namespace r =
     (let key = record_entry_key namespace (r_schema r) (r_entity r) (r_id r);
          payload = \<lparr>p_fields = r_fields r, p_tombstone = r_tombstone r,
                     p_updated_at = r_updated_at r, p_field_clocks = r_field_clocks r\<rparr>
      in bindR (encode_payload cd payload) (\<lambda>value.
           Inr \<lparr>e_key = key, e_value = value, e_clock = r_clock r\<rparr>))"

definition entry_to_record ::
  "payload_codec \<Rightarrow> entry \<Rightarrow> string \<Rightarrow> sync_record option result" where
  "entry_to_record cd e namespace =
     bindR (parse_record_key (e_key e)) (\<lambda>parsed.
       case parsed of
         None \<Rightarrow> Inr None
       | Some parts \<Rightarrow>
           if kp_namespace parts \<noteq> namespace then Inr None
           else bindR (decode_payload cd (e_value e)) (\<lambda>p.
             Inr (Some \<lparr>r_schema = kp_schema parts, r_entity = kp_entity parts,
                        r_id = kp_id parts, r_fields = p_fields p,
                        r_tombstone = p_tombstone p, r_clock = e_clock e,
                        r_updated_at = p_updated_at p,
                        r_field_clocks = p_field_clocks p\<rparr>)))"

section \<open>\<open>RecordState\<close> and \<open>RecordView\<close>\<close>

definition rs_get ::
  "payload_codec \<Rightarrow> string \<Rightarrow> string \<Rightarrow> string \<Rightarrow> string \<Rightarrow> sync_state \<Rightarrow> sync_record option result" where
  "rs_get cd namespace schema entity ident s =
     (case bm_get (st_entries s) (record_entry_key namespace schema entity ident) of
        Some e \<Rightarrow> entry_to_record cd e namespace
      | None \<Rightarrow> Inr None)"

definition rs_set ::
  "payload_codec \<Rightarrow> string \<Rightarrow> sync_record \<Rightarrow> sync_state \<Rightarrow> entry result \<times> sync_state" where
  "rs_set cd namespace r s =
     (let key = record_entry_key namespace (r_schema r) (r_entity r) (r_id r)
      in case rs_get cd namespace (r_schema r) (r_entity r) (r_id r) s of
           Inl err \<Rightarrow> (Inl err, s)
         | Inr existing \<Rightarrow>
             let next_clock = LamportClock (sat_inc (st_counter s)) (st_device_id s);
                 r1 = stamp_field_clocks existing (r\<lparr>r_clock := next_clock\<rparr>);
                 payload = \<lparr>p_fields = r_fields r1, p_tombstone = r_tombstone r1,
                            p_updated_at = r_updated_at r1, p_field_clocks = r_field_clocks r1\<rparr>
             in case encode_payload cd payload of
                  Inl err \<Rightarrow> (Inl err, s)
                | Inr value \<Rightarrow> (case state_set key value s of (e, s') \<Rightarrow> (Inr e, s')))"

definition rs_apply ::
  "payload_codec \<Rightarrow> string \<Rightarrow> sync_record \<Rightarrow> sync_state \<Rightarrow> bool result \<times> sync_state" where
  "rs_apply cd namespace r s =
     (case rs_get cd namespace (r_schema r) (r_entity r) (r_id r) s of
        Inl err \<Rightarrow> (Inl err, s)
      | Inr existing \<Rightarrow>
          if (case existing of None \<Rightarrow> False | Some ex \<Rightarrow> r_clock r \<le> r_clock ex)
          then (Inr False, s)
          else case record_to_entry cd namespace (stamp_field_clocks existing r) of
                 Inl err \<Rightarrow> (Inl err, s)
               | Inr e \<Rightarrow> (case apply_entry e s of (b, s') \<Rightarrow> (Inr b, s')))"

definition rs_upsert ::
  "payload_codec \<Rightarrow> string \<Rightarrow> sync_record \<Rightarrow> sync_state \<Rightarrow> bool result \<times> sync_state" where
  "rs_upsert cd namespace r s =
     (case rs_get cd namespace (r_schema r) (r_entity r) (r_id r) s of
        Inl err \<Rightarrow> (Inl err, s)
      | Inr existing \<Rightarrow>
          case record_to_entry cd namespace (stamp_field_clocks existing r) of
            Inl err \<Rightarrow> (Inl err, s)
          | Inr e \<Rightarrow> (case upsert_entry e s of (b, s') \<Rightarrow> (Inr b, s')))"

fun view_records :: "payload_codec \<Rightarrow> string \<Rightarrow> entry list \<Rightarrow> sync_record list result" where
  "view_records cd namespace [] = Inr []"
| "view_records cd namespace (e # es) =
     bindR (entry_to_record cd e namespace) (\<lambda>found.
     bindR (view_records cd namespace es) (\<lambda>rs.
       Inr (case found of None \<Rightarrow> rs | Some r \<Rightarrow> r # rs)))"

definition view_snapshot :: "payload_codec \<Rightarrow> string \<Rightarrow> sync_state \<Rightarrow> sync_record list result" where
  "view_snapshot cd namespace s = view_records cd namespace (state_snapshot s)"

definition rs_merge_snapshot ::
  "payload_codec \<Rightarrow> string \<Rightarrow> sync_record list \<Rightarrow> sync_state \<Rightarrow> nat result \<times> sync_state" where
  "rs_merge_snapshot cd namespace incoming s = countS (rs_apply cd namespace) incoming 0 s"

section \<open>Tombstone compaction\<close>

record compaction_policy =
  cp_max_age :: "u64 option"
  cp_max_tombstones :: "nat option"

record compaction_summary =
  cs_total :: nat
  cs_removed :: nat
  cs_retained :: nat

definition tombstone_keys :: "string \<Rightarrow> sync_record list \<Rightarrow> (string \<times> u64 option) list" where
  "tombstone_keys namespace rs =
     map (\<lambda>r. (record_entry_key namespace (r_schema r) (r_entity r) (r_id r), r_updated_at r))
       (filter r_tombstone rs)"

definition expired_keys :: "u64 option \<Rightarrow> u64 \<Rightarrow> (string \<times> u64 option) list \<Rightarrow> string list" where
  "expired_keys max_age now ts =
     (case max_age of
        None \<Rightarrow> []
      | Some age \<Rightarrow>
          map fst (filter (\<lambda>(_, t). case t of None \<Rightarrow> False | Some u \<Rightarrow> age \<le> sat_sub now u) ts))"

definition overflow_candidates ::
  "string list \<Rightarrow> (string \<times> u64 option) list \<Rightarrow> (string \<times> u64) list" where
  "overflow_candidates removed ts =
     filter (\<lambda>(k, _). k \<notin> set removed)
       (List.map_filter (\<lambda>(k, t). map_option (\<lambda>u. (k, u)) t) ts)"

definition overflow_keys ::
  "nat option \<Rightarrow> string list \<Rightarrow> (string \<times> u64 option) list \<Rightarrow> string list" where
  "overflow_keys max_tombstones removed ts =
     (case max_tombstones of
        None \<Rightarrow> []
      | Some m \<Rightarrow>
          let candidates = overflow_candidates removed ts
          in if m < length candidates
             then map fst (take (length candidates - m) (sort_key snd candidates))
             else [])"

fun remove_keys :: "string list \<Rightarrow> nat \<Rightarrow> sync_state \<Rightarrow> nat \<times> sync_state" where
  "remove_keys [] n s = (n, s)"
| "remove_keys (k # ks) n s =
     (case state_remove k s of
        (gone, s') \<Rightarrow> remove_keys ks (if gone = None then n else Suc n) s')"

definition keys_to_remove ::
  "compaction_policy \<Rightarrow> u64 \<Rightarrow> (string \<times> u64 option) list \<Rightarrow> string list" where
  "keys_to_remove policy now ts =
     (let expired = expired_keys (cp_max_age policy) now ts
      in remdups_adj (sort (expired @ overflow_keys (cp_max_tombstones policy) expired ts)))"

definition rs_compact ::
  "payload_codec \<Rightarrow> string \<Rightarrow> compaction_policy \<Rightarrow> u64 \<Rightarrow> sync_state
    \<Rightarrow> compaction_summary result \<times> sync_state" where
  "rs_compact cd namespace policy now s =
     (case view_snapshot cd namespace s of
        Inl err \<Rightarrow> (Inl err, s)
      | Inr snapshot \<Rightarrow>
          let tombstones = tombstone_keys namespace snapshot;
              total = length tombstones
          in case remove_keys (keys_to_remove policy now tombstones) 0 s of
               (removed, s') \<Rightarrow>
                 (Inr \<lparr>cs_total = total, cs_removed = removed, cs_retained = total - removed\<rparr>, s'))"

section \<open>Field clock facts\<close>

definition stamped_clock :: "sync_record option \<Rightarrow> sync_record \<Rightarrow> string \<Rightarrow> lamport_clock" where
  "stamped_clock existing r f =
     (case bm_get (r_field_clocks r) f of
        Some c \<Rightarrow> c
      | None \<Rightarrow> (case inherited_clock existing r f of None \<Rightarrow> r_clock r | Some c \<Rightarrow> c))"

lemma stamp_loop_frame [simp]:
  "r_schema (stamp_loop fs ex r) = r_schema r"
  "r_entity (stamp_loop fs ex r) = r_entity r"
  "r_id (stamp_loop fs ex r) = r_id r"
  "r_fields (stamp_loop fs ex r) = r_fields r"
  "r_tombstone (stamp_loop fs ex r) = r_tombstone r"
  "r_clock (stamp_loop fs ex r) = r_clock r"
  "r_updated_at (stamp_loop fs ex r) = r_updated_at r"
  by (induction fs arbitrary: r) (auto simp: Let_def)

lemma inherited_clock_frame [simp]:
  "inherited_clock ex (r\<lparr>r_field_clocks := m\<rparr>) f = inherited_clock ex r f"
  by (cases ex) (simp_all add: inherited_clock_def)

lemma stamp_loop_clocks:
  "bm_get (r_field_clocks (stamp_loop fs ex r)) f =
     (if bm_has (r_field_clocks r) f \<or> f \<in> set fs then Some (stamped_clock ex r f) else None)"
proof (induction fs arbitrary: r)
  case Nil
  then show ?case by (auto simp: bm_has_def stamped_clock_def)
next
  case (Cons g fs)
  show ?case
  proof (cases "bm_has (r_field_clocks r) g")
    case True
    then show ?thesis using Cons.IH[of r] by auto
  next
    case False
    then have none: "bm_get (r_field_clocks r) g = None" by (simp add: bm_has_def)
    let ?r = "r\<lparr>r_field_clocks := bm_insert g (stamped_clock ex r g) (r_field_clocks r)\<rparr>"
    have step: "stamp_loop (g # fs) ex r = stamp_loop fs ex ?r"
      using False none by (simp add: Let_def stamped_clock_def)
    have "stamped_clock ex ?r f = stamped_clock ex r f"
      by (auto simp: stamped_clock_def bm_get_insert none split: option.splits)
    then show ?thesis
      unfolding step Cons.IH[of ?r] by (auto simp: bm_has_insert)
  qed
qed

lemma stamp_loop_ok: "bm_ok (r_field_clocks r) \<Longrightarrow> bm_ok (r_field_clocks (stamp_loop fs ex r))"
proof (induction fs arbitrary: r)
  case (Cons f fs)
  show ?case
  proof (cases "bm_has (r_field_clocks r) f")
    case False
    then show ?thesis
      using Cons.prems by (simp add: Let_def) (rule Cons.IH, simp add: bm_ok_insert)
  qed (use Cons in simp)
qed simp

lemma stamp_frame [simp]:
  "r_schema (stamp_field_clocks ex r) = r_schema r"
  "r_entity (stamp_field_clocks ex r) = r_entity r"
  "r_id (stamp_field_clocks ex r) = r_id r"
  "r_fields (stamp_field_clocks ex r) = r_fields r"
  "r_tombstone (stamp_field_clocks ex r) = r_tombstone r"
  "r_clock (stamp_field_clocks ex r) = r_clock r"
  "r_updated_at (stamp_field_clocks ex r) = r_updated_at r"
  by (simp_all add: stamp_field_clocks_def Let_def)

lemma stamp_clocks:
  assumes "bm_ok (r_field_clocks r)"
  shows "bm_get (r_field_clocks (stamp_field_clocks ex r)) f =
    (if bm_has (r_fields r) f then Some (stamped_clock ex r f) else None)"
  using stamp_loop_ok[OF assms, of "bm_keys (r_fields r)" ex]
  by (auto simp: stamp_field_clocks_def Let_def bm_get_retain stamp_loop_clocks bm_has_iff bm_keys_def)

lemma stamp_ok: "bm_ok (r_field_clocks r) \<Longrightarrow> bm_ok (r_field_clocks (stamp_field_clocks ex r))"
  by (simp add: stamp_field_clocks_def Let_def bm_ok_retain stamp_loop_ok)

section \<open>Round trip through the entry\<close>

definition payload_of :: "sync_record \<Rightarrow> record_payload" where
  "payload_of r = \<lparr>p_fields = r_fields r, p_tombstone = r_tombstone r,
                   p_updated_at = r_updated_at r, p_field_clocks = r_field_clocks r\<rparr>"

text \<open>The codec reproduces this payload: encoding succeeds and decodes to the payload itself.\<close>

definition codec_keeps :: "payload_codec \<Rightarrow> record_payload \<Rightarrow> bool" where
  "codec_keeps cd p = (\<exists>v. encode_payload cd p = Inr v \<and> decode_payload cd v = Inr p)"

definition utf8_record :: "string \<Rightarrow> sync_record \<Rightarrow> bool" where
  "utf8_record namespace r =
     (valid_utf8 namespace \<and> valid_utf8 (r_schema r) \<and> valid_utf8 (r_entity r) \<and> valid_utf8 (r_id r))"

lemma record_entry_roundtrip:
  assumes "utf8_record ns r" and "codec_keeps cd (payload_of r)"
  shows "\<exists>e. record_to_entry cd ns r = Inr e \<and> entry_to_record cd e ns = Inr (Some r) \<and>
    e_key e = record_entry_key ns (r_schema r) (r_entity r) (r_id r) \<and> e_clock e = r_clock r"
  using assms
  by (auto simp: utf8_record_def codec_keeps_def record_to_entry_def entry_to_record_def
      payload_of_def parse_record_entry_key)

lemma entry_to_record_key:
  assumes "entry_to_record cd e ns = Inr (Some r)"
  shows "parse_record_key (e_key e) = Inr (Some \<lparr>kp_namespace = ns, kp_schema = r_schema r,
     kp_entity = r_entity r, kp_id = r_id r\<rparr>)" and "r_clock r = e_clock e"
  using assms by (auto simp: entry_to_record_def split: option.splits if_splits)

section \<open>The record operations keep the state invariant\<close>

lemma state_ok_rs_set: "state_ok s \<Longrightarrow> state_ok (snd (rs_set cd ns r s))"
  using state_ok_set[of s]
  by (auto simp: rs_set_def Let_def split: sum.splits prod.splits) (metis snd_conv)+

lemma state_ok_rs_apply: "state_ok s \<Longrightarrow> state_ok (snd (rs_apply cd ns r s))"
  using state_ok_apply[of s]
  by (auto simp: rs_apply_def Let_def split: sum.splits prod.splits) (metis snd_conv)+

lemma state_ok_rs_upsert: "state_ok s \<Longrightarrow> state_ok (snd (rs_upsert cd ns r s))"
  using state_ok_upsert[of s]
  by (auto simp: rs_upsert_def Let_def split: sum.splits prod.splits) (metis snd_conv)+

lemma state_ok_rs_merge_snapshot: "state_ok s \<Longrightarrow> state_ok (snd (rs_merge_snapshot cd ns rs s))"
  unfolding rs_merge_snapshot_def by (rule countS_invariant) (auto intro: state_ok_rs_apply)

lemma state_ok_remove_keys: "state_ok s \<Longrightarrow> state_ok (snd (remove_keys ks n s))"
proof (induction ks arbitrary: n s)
  case (Cons k ks)
  then show ?case using state_ok_remove[of s k] by (cases "state_remove k s") auto
qed simp

lemma state_ok_rs_compact: "state_ok s \<Longrightarrow> state_ok (snd (rs_compact cd ns policy now s))"
  using state_ok_remove_keys
  by (auto simp: rs_compact_def Let_def split: sum.splits prod.splits) (metis snd_conv)+

lemmas state_ok_records = state_ok_rs_set state_ok_rs_apply state_ok_rs_upsert
  state_ok_rs_merge_snapshot state_ok_rs_compact

end
