(* ===== verification/Merge.thy ===== *)
theory Merge
  imports Records
begin

text \<open>
  The merge core of \<open>logical.rs\<close>: \<open>merge_field\<close>, \<open>merge_records\<close> and
  \<open>apply_snapshot_with_policy\<close>. The app's custom merge handlers are an argument.
\<close>

type_synonym custom_merge =
  "string \<Rightarrow> string \<Rightarrow> field_value option \<Rightarrow> field_value \<Rightarrow> bool \<Rightarrow> field_value option"

section \<open>One field\<close>

fun lww_pick :: "field_value option \<Rightarrow> field_value \<Rightarrow> bool \<Rightarrow> field_value" where
  "lww_pick existing incoming True = incoming"
| "lww_pick None incoming False = incoming"
| "lww_pick (Some v) incoming False = v"

definition union_maps ::
  "(string, field_value) bmap \<Rightarrow> (string, field_value) bmap \<Rightarrow> (string, field_value) bmap" where
  "union_maps left right =
     fold (\<lambda>(k, v) m. if bm_has m k then m else bm_insert k v m) right left"

definition i64_max :: "u64 \<Rightarrow> u64 \<Rightarrow> u64" where
  "i64_max a b = (if sint b < sint a then a else b)"

definition counter_entry :: "field_value option \<Rightarrow> field_value \<Rightarrow> bool \<Rightarrow> field_value" where
  "counter_entry current value newer =
     (case (current, value) of
        (Some (FI64 a), FI64 b) \<Rightarrow> FI64 (i64_max a b)
      | (Some v, w) \<Rightarrow> (if newer then w else v)
      | (None, w) \<Rightarrow> w)"

definition counter_maps ::
  "bool \<Rightarrow> (string, field_value) bmap \<Rightarrow> (string, field_value) bmap \<Rightarrow> (string, field_value) bmap" where
  "counter_maps newer left right =
     fold (\<lambda>(d, v) m. bm_insert d (counter_entry (bm_get m d) v newer) m) right left"

definition items_of :: "field_value \<Rightarrow> field_value list" where
  "items_of v = (case v of FList xs \<Rightarrow> xs | FNull \<Rightarrow> [] | other \<Rightarrow> [other])"

definition merge_field ::
  "merge_policy \<Rightarrow> string \<Rightarrow> field_value option \<Rightarrow> field_value \<Rightarrow> bool \<Rightarrow> custom_merge \<Rightarrow> field_value" where
  "merge_field policy field existing incoming newer custom =
     (case policy of
        LastWriterWins \<Rightarrow> lww_pick existing incoming newer
      | SetUnion \<Rightarrow>
          (case (existing, incoming) of
             (Some (FList left), FList right) \<Rightarrow> FList (push_unseen left right)
           | (Some (FMap left), FMap right) \<Rightarrow> FMap (union_maps left right)
           | _ \<Rightarrow> lww_pick existing incoming newer)
      | Counter \<Rightarrow>
          (case (existing, incoming) of
             (Some (FMap left), FMap right) \<Rightarrow> FMap (counter_maps newer left right)
           | (Some (FI64 a), FI64 b) \<Rightarrow> (if newer then FI64 b else FI64 a)
           | _ \<Rightarrow> lww_pick existing incoming newer)
      | ListAppend \<Rightarrow>
          (case (existing, incoming) of
             (Some (FList left), FList right) \<Rightarrow> FList (push_unseen left right)
           | _ \<Rightarrow> lww_pick existing incoming newer)
      | AppendOnly \<Rightarrow>
          FList (push_unseen (case existing of None \<Rightarrow> [] | Some v \<Rightarrow> items_of v) (items_of incoming))
      | Custom name \<Rightarrow>
          (case custom name field existing incoming newer of
             Some merged \<Rightarrow> merged
           | None \<Rightarrow> lww_pick existing incoming newer))"

section \<open>One record\<close>

definition field_newer :: "sync_record \<Rightarrow> sync_record \<Rightarrow> string \<Rightarrow> bool" where
  "field_newer existing incoming f =
     (case bm_get (r_fields existing) f of
        Some _ \<Rightarrow> field_clock existing f \<le> field_clock incoming f
      | None \<Rightarrow> True)"

definition merged_clock :: "sync_record \<Rightarrow> sync_record \<Rightarrow> string \<Rightarrow> lamport_clock" where
  "merged_clock existing incoming f =
     (if bm_has (r_fields existing) f
      then max (field_clock existing f) (field_clock incoming f)
      else field_clock incoming f)"

definition base_clocks :: "sync_record \<Rightarrow> (string, lamport_clock) bmap" where
  "base_clocks existing =
     fold (\<lambda>f m. if bm_has m f then m else bm_insert f (r_clock existing) m)
       (bm_keys (r_fields existing)) (r_field_clocks existing)"

fun merge_fields ::
  "(string \<Rightarrow> merge_policy) \<Rightarrow> custom_merge \<Rightarrow> sync_record \<Rightarrow> sync_record \<Rightarrow>
   (string \<times> field_value) list \<Rightarrow>
   (string, field_value) bmap \<times> (string, lamport_clock) bmap \<Rightarrow>
   (string, field_value) bmap \<times> (string, lamport_clock) bmap" where
  "merge_fields policy custom existing incoming [] acc = acc"
| "merge_fields policy custom existing incoming ((f, v) # rest) (vals, clocks) =
     merge_fields policy custom existing incoming rest
       (bm_insert f
          (merge_field (policy f) f (bm_get vals f) v (field_newer existing incoming f) custom)
          vals,
        bm_insert f (merged_clock existing incoming f) clocks)"

definition max_updated_at :: "u64 option \<Rightarrow> u64 option \<Rightarrow> u64 option" where
  "max_updated_at a b =
     (case (a, b) of
        (Some l, Some r) \<Rightarrow> Some (max l r)
      | (Some l, None) \<Rightarrow> Some l
      | (None, Some r) \<Rightarrow> Some r
      | (None, None) \<Rightarrow> None)"

definition merge_records ::
  "(string \<Rightarrow> merge_policy) \<Rightarrow> custom_merge \<Rightarrow> sync_record \<Rightarrow> sync_record \<Rightarrow> sync_record" where
  "merge_records policy custom existing incoming =
     (let newer = r_clock existing \<le> r_clock incoming
      in if r_tombstone existing \<noteq> r_tombstone incoming then
           (if newer then incoming else existing)
         else if r_tombstone existing \<and> r_tombstone incoming then
           (if newer then incoming else existing)
         else case merge_fields policy custom existing incoming (r_fields incoming)
                     (r_fields existing, base_clocks existing) of
           (vals, clocks) \<Rightarrow>
             \<lparr>r_schema = r_schema existing, r_entity = r_entity existing, r_id = r_id existing,
              r_fields = vals, r_tombstone = False,
              r_clock = max (r_clock existing) (r_clock incoming),
              r_updated_at = max_updated_at (r_updated_at existing) (r_updated_at incoming),
              r_field_clocks = clocks\<rparr>)"

section \<open>A batch of records\<close>

definition merge_one ::
  "payload_codec \<Rightarrow> string \<Rightarrow> (string \<Rightarrow> merge_policy) \<Rightarrow> custom_merge \<Rightarrow> sync_record \<Rightarrow>
   sync_state \<Rightarrow> bool result \<times> sync_state" where
  "merge_one cd namespace policy custom r s =
     (case rs_get cd namespace (r_schema r) (r_entity r) (r_id r) s of
        Inl err \<Rightarrow> (Inl err, s)
      | Inr existing \<Rightarrow>
          rs_upsert cd namespace
            (case existing of Some ex \<Rightarrow> merge_records policy custom ex r | None \<Rightarrow> r) s)"

definition apply_snapshot_with_policy ::
  "payload_codec \<Rightarrow> string \<Rightarrow> (string \<Rightarrow> merge_policy) \<Rightarrow> custom_merge \<Rightarrow> sync_record list \<Rightarrow>
   sync_state \<Rightarrow> nat result \<times> sync_state" where
  "apply_snapshot_with_policy cd namespace policy custom incoming s =
     countS (merge_one cd namespace policy custom) incoming 0 s"

section \<open>What the loops compute\<close>

lemma bm_get_union_maps:
  "bm_get (union_maps left right) k =
     (case bm_get left k of Some v \<Rightarrow> Some v | None \<Rightarrow> bm_get right k)"
  unfolding union_maps_def
proof (induction right arbitrary: left)
  case (Cons p right)
  obtain j v where p: "p = (j, v)" by (cases p)
  show ?case
    unfolding p fold.simps comp_def prod.case Cons.IH
    by (auto simp: bm_get_insert bm_has_def split: option.splits)
qed (simp split: option.splits)

lemma bm_ok_union_maps: "bm_ok left \<Longrightarrow> bm_ok (union_maps left right)"
  unfolding union_maps_def
  by (induction right arbitrary: left) (auto intro: bm_intros split: prod.splits)

lemma bm_ok_counter_maps: "bm_ok left \<Longrightarrow> bm_ok (counter_maps newer left right)"
  unfolding counter_maps_def
  by (induction right arbitrary: left) (auto intro: bm_intros split: prod.splits)

lemma bm_get_counter_maps:
  assumes "distinct (map fst right)"
  shows "bm_get (counter_maps newer left right) d =
     (case map_of right d of
        None \<Rightarrow> bm_get left d
      | Some v \<Rightarrow> Some (counter_entry (bm_get left d) v newer))"
  using assms unfolding counter_maps_def
proof (induction right arbitrary: left)
  case (Cons p right)
  obtain j v where p: "p = (j, v)" by (cases p)
  have IH: "bm_get (fold (\<lambda>(d, v) m. bm_insert d (counter_entry (bm_get m d) v newer) m) right m) d =
      (case map_of right d of None \<Rightarrow> bm_get m d
       | Some v \<Rightarrow> Some (counter_entry (bm_get m d) v newer))" for m
    using Cons by simp
  have "map_of right j = None" using Cons.prems by (simp add: p map_of_eq_None_iff)
  then show ?case
    unfolding p fold.simps comp_def prod.case IH
    by (auto simp: bm_get_insert split: option.splits)
qed simp

lemma bm_get_base_clocks:
  "bm_get (base_clocks ex) f =
     (if bm_has (r_field_clocks ex) f \<or> bm_has (r_fields ex) f
      then Some (field_clock ex f) else None)"
proof -
  have "bm_get (fold (\<lambda>f m. if bm_has m f then m else bm_insert f c m) fs m) f =
      (case bm_get m f of Some d \<Rightarrow> Some d | None \<Rightarrow> if f \<in> set fs then Some c else None)"
    for fs and c :: lamport_clock and m
  proof (induction fs arbitrary: m)
    case (Cons g fs)
    show ?case
      unfolding fold.simps comp_def Cons.IH
      by (auto simp: bm_get_insert bm_has_def split: option.splits)
  qed (simp split: option.splits)
  note aux = this
  have keys: "f \<in> set (bm_keys (r_fields ex)) \<longleftrightarrow> bm_has (r_fields ex) f"
    by (simp add: bm_keys_def bm_has_iff)
  show ?thesis
    unfolding base_clocks_def aux keys
    by (auto simp: field_clock_def bm_has_def split: option.splits)
qed

lemma bm_ok_base_clocks: "bm_ok (r_field_clocks ex) \<Longrightarrow> bm_ok (base_clocks ex)"
proof -
  have "bm_ok m \<Longrightarrow> bm_ok (fold (\<lambda>f m. if bm_has m f then m else bm_insert f c m) fs m)"
    for fs :: "string list" and c :: lamport_clock and m
    by (induction fs arbitrary: m) (auto intro: bm_intros)
  then show "bm_ok (r_field_clocks ex) \<Longrightarrow> bm_ok (base_clocks ex)"
    by (simp add: base_clocks_def)
qed

lemma merge_fields_get:
  assumes "distinct (map fst xs)"
  shows "bm_get (fst (merge_fields policy custom ex inc xs acc)) f =
      (case map_of xs f of
         None \<Rightarrow> bm_get (fst acc) f
       | Some v \<Rightarrow> Some (merge_field (policy f) f (bm_get (fst acc) f) v (field_newer ex inc f) custom))
    \<and> bm_get (snd (merge_fields policy custom ex inc xs acc)) f =
      (case map_of xs f of
         None \<Rightarrow> bm_get (snd acc) f
       | Some v \<Rightarrow> Some (merged_clock ex inc f))"
  using assms
proof (induction xs arbitrary: acc)
  case (Cons p xs)
  obtain g v where p: "p = (g, v)" by (cases p)
  obtain a b where acc: "acc = (a, b)" by (cases acc)
  have g: "map_of xs g = None" using Cons.prems by (simp add: p map_of_eq_None_iff)
  have d: "distinct (map fst xs)" using Cons.prems by simp
  show ?case
    using g unfolding p acc merge_fields.simps
    by (auto simp: Cons.IH[OF d] bm_get_insert split: option.splits)
qed simp

lemmas merge_fields_vals = merge_fields_get [THEN conjunct1]
lemmas merge_fields_clocks = merge_fields_get [THEN conjunct2]

lemma merge_fields_ok:
  "bm_ok (fst acc) \<Longrightarrow> bm_ok (snd acc) \<Longrightarrow>
   bm_ok (fst (merge_fields policy custom ex inc xs acc)) \<and>
   bm_ok (snd (merge_fields policy custom ex inc xs acc))"
proof (induction xs arbitrary: acc)
  case (Cons p xs)
  then show ?case by (cases p; cases acc) (simp add: bm_ok_insert)
qed simp

section \<open>Well-formed records\<close>

definition record_ok :: "sync_record \<Rightarrow> bool" where
  "record_ok r \<longleftrightarrow> bm_ok (r_fields r) \<and> bm_ok (r_field_clocks r) \<and>
     (\<forall>f. bm_has (r_field_clocks r) f \<longrightarrow> bm_has (r_fields r) f)"

lemma record_ok_stamp:
  "bm_ok (r_fields r) \<Longrightarrow> bm_ok (r_field_clocks r) \<Longrightarrow> record_ok (stamp_field_clocks ex r)"
  by (auto simp: record_ok_def stamp_ok stamp_clocks bm_has_def)

lemma merge_records_live:
  assumes "\<not> r_tombstone a" and "\<not> r_tombstone b" and "record_ok a" and "record_ok b"
    and m_def: "m = merge_records policy custom a b"
  shows "record_ok m" and "\<not> r_tombstone m"
    and "r_clock m = max (r_clock a) (r_clock b)"
    and "bm_get (r_fields m) f = (case bm_get (r_fields b) f of
           None \<Rightarrow> bm_get (r_fields a) f
         | Some v \<Rightarrow> Some (merge_field (policy f) f (bm_get (r_fields a) f) v (field_newer a b f) custom))"
    and "bm_get (r_field_clocks m) f = (case bm_get (r_fields b) f of
           None \<Rightarrow> (if bm_has (r_fields a) f then Some (field_clock a f) else None)
         | Some v \<Rightarrow> Some (merged_clock a b f))"
proof -
  let ?fc = "merge_fields policy custom a b (r_fields b) (r_fields a, base_clocks a)"
  have m: "m = \<lparr>r_schema = r_schema a, r_entity = r_entity a, r_id = r_id a,
      r_fields = fst ?fc, r_tombstone = False, r_clock = max (r_clock a) (r_clock b),
      r_updated_at = max_updated_at (r_updated_at a) (r_updated_at b), r_field_clocks = snd ?fc\<rparr>"
    using assms(1,2) by (simp add: m_def merge_records_def split: prod.splits)
  have d: "distinct (map fst (r_fields b))"
    using assms(4) bm.entries_distinct by (auto simp: record_ok_def)
  show "\<not> r_tombstone m" "r_clock m = max (r_clock a) (r_clock b)" by (simp_all add: m)
  show fields: "bm_get (r_fields m) f = (case bm_get (r_fields b) f of
           None \<Rightarrow> bm_get (r_fields a) f
         | Some v \<Rightarrow> Some (merge_field (policy f) f (bm_get (r_fields a) f) v (field_newer a b f) custom))"
    for f by (simp add: m merge_fields_vals[OF d] split: option.splits)
  show clocks: "bm_get (r_field_clocks m) f = (case bm_get (r_fields b) f of
           None \<Rightarrow> (if bm_has (r_fields a) f then Some (field_clock a f) else None)
         | Some v \<Rightarrow> Some (merged_clock a b f))" for f
    using assms(3)
    by (auto simp: m merge_fields_clocks[OF d] bm_get_base_clocks record_ok_def split: option.splits)
  have "bm_ok (fst ?fc) \<and> bm_ok (snd ?fc)"
    using assms(3) by (intro merge_fields_ok) (auto simp: record_ok_def bm_ok_base_clocks)
  moreover have "bm_has (r_fields m) f" if "bm_has (r_field_clocks m) f" for f
    using that by (auto simp: bm_has_def fields clocks split: option.splits if_splits)
  ultimately show "record_ok m" by (simp add: record_ok_def m)
qed

end
