(* ===== verification/Merge_Laws.thy ===== *)
theory Merge_Laws
  imports Merge
begin

text \<open>
  What the field-level merge guarantees. The locale \<open>merge_semilattice\<close> is the contract a
  replicated value needs (closed, associative, commutative, idempotent on the versions in
  play); inside it, folding versions in any order and with any repetition gives the same
  value. It is interpreted on \<open>merge_records\<close> with the last-writer-wins policy.
\<close>

locale merge_semilattice =
  fixes join :: "'a \<Rightarrow> 'a \<Rightarrow> 'a"
    and good :: "'a \<Rightarrow> bool"
  assumes good_join: "good x \<Longrightarrow> good y \<Longrightarrow> good (join x y)"
    and assoc: "good x \<Longrightarrow> good y \<Longrightarrow> good z \<Longrightarrow> join (join x y) z = join x (join y z)"
    and commute: "good x \<Longrightarrow> good y \<Longrightarrow> join x y = join y x"
    and idem: "good x \<Longrightarrow> join x x = x"
begin

lemma good_foldl: "good a \<Longrightarrow> \<forall>x\<in>set xs. good x \<Longrightarrow> good (foldl join a xs)"
  by (induction xs arbitrary: a) (auto simp: good_join)

lemma absorb_left: "good x \<Longrightarrow> good y \<Longrightarrow> join x (join x y) = join x y"
  using assoc[of x x y] idem by simp

lemma foldl_above:
  assumes "good a" and "\<forall>x\<in>set xs. good x" and "x \<in> insert a (set xs)"
  shows "join x (foldl join a xs) = foldl join a xs"
  using assms
proof (induction xs arbitrary: a rule: rev_induct)
  case Nil
  then show ?case by (simp add: idem)
next
  case (snoc y ys)
  have f: "good (foldl join a ys)" using snoc.prems by (intro good_foldl) auto
  have y: "good y" using snoc.prems by simp
  show ?case
  proof (cases "x = y")
    case True
    then show ?thesis
      using f y by (simp add: commute[OF f y] absorb_left)
  next
    case False
    then have x: "x \<in> insert a (set ys)" "good x" using snoc.prems by auto
    have "join x (foldl join a ys) = foldl join a ys"
      using snoc.IH snoc.prems x(1) by simp
    then show ?thesis using assoc[OF x(2) f y] by simp
  qed
qed

lemma foldl_least:
  assumes "good a" and "\<forall>x\<in>set xs. good x" and "good z"
    and "\<And>x. x \<in> insert a (set xs) \<Longrightarrow> join x z = z"
  shows "join (foldl join a xs) z = z"
  using assms
proof (induction xs arbitrary: a rule: rev_induct)
  case (snoc y ys)
  have f: "good (foldl join a ys)" using snoc.prems by (intro good_foldl) auto
  have "join (foldl join a ys) z = z" by (rule snoc.IH) (use snoc.prems in auto)
  then show ?case using assoc[OF f, of y z] snoc.prems by simp
qed simp

lemma foldl_order_independent:
  assumes "good a" and "\<forall>x\<in>set xs. good x" and "good b" and "\<forall>x\<in>set ys. good x"
    and "insert a (set xs) = insert b (set ys)"
  shows "foldl join a xs = foldl join b ys"
proof -
  let ?x = "foldl join a xs" and ?y = "foldl join b ys"
  have g: "good ?x" "good ?y" using assms good_foldl by auto
  have "join ?x ?y = ?y"
    using foldl_least[OF assms(1,2) g(2)] foldl_above[OF assms(3,4)] assms(5) by simp
  moreover have "join ?y ?x = ?x"
    using foldl_least[OF assms(3,4) g(1)] foldl_above[OF assms(1,2)] assms(5) by simp
  ultimately show ?thesis using commute[OF g] by simp
qed

end

section \<open>The abstract view of a record\<close>

text \<open>A live record seen field by field: the clock of the last change and the value.\<close>

type_synonym field_view = "string \<Rightarrow> (lamport_clock \<times> field_value) option"

definition view_of :: "sync_record \<Rightarrow> field_view" where
  "view_of r f = map_option (\<lambda>v. (field_clock r f, v)) (bm_get (r_fields r) f)"

text \<open>The specification of the last-writer-wins merge: per field, the larger clock wins.\<close>

definition view_merge :: "field_view \<Rightarrow> field_view \<Rightarrow> field_view" where
  "view_merge a b f =
     (case (a f, b f) of
        (Some (c, v), Some (d, w)) \<Rightarrow> (if c \<le> d then Some (d, w) else Some (c, v))
      | (x, None) \<Rightarrow> x
      | (None, y) \<Rightarrow> y)"

abbreviation lww_policy :: "string \<Rightarrow> merge_policy" where
  "lww_policy \<equiv> (\<lambda>_. LastWriterWins)"

lemma view_merge_assoc: "view_merge (view_merge a b) c = view_merge a (view_merge b c)"
  by (rule ext) (auto simp: view_merge_def split: option.splits)

lemma view_merge_idem: "view_merge a a = a"
  by (rule ext) (auto simp: view_merge_def split: option.splits)

lemma view_merge_commute:
  assumes "\<And>f c v w. a f = Some (c, v) \<Longrightarrow> b f = Some (c, w) \<Longrightarrow> v = w"
  shows "view_merge a b = view_merge b a"
  using assms by (intro ext) (fastforce simp: view_merge_def split: option.splits)

lemma lww_pick_eq: "lww_pick (Some v) w newer = (if newer then w else v)"
  by (cases newer) auto

lemma lww_pick_None [simp]: "lww_pick None w newer = w"
  by (cases newer) auto

lemma view_of_merge:
  assumes "\<not> r_tombstone a" and "\<not> r_tombstone b" and "record_ok a" and "record_ok b"
  shows "view_of (merge_records lww_policy custom a b) = view_merge (view_of a) (view_of b)"
proof
  fix f
  note m = merge_records_live[OF assms refl, where policy = lww_policy and custom = custom]
  show "view_of (merge_records lww_policy custom a b) f = view_merge (view_of a) (view_of b) f"
  proof (cases "bm_get (r_fields b) f")
    case None
    then show ?thesis
      using m(4,5)[of f] by (cases "bm_get (r_fields a) f")
        (auto simp: view_of_def view_merge_def field_clock_def bm_has_def)
  next
    case (Some w)
    then show ?thesis
      using m(4,5)[of f] by (cases "bm_get (r_fields a) f")
        (auto simp: view_of_def view_merge_def field_clock_def[of "merge_records lww_policy custom a b"]
          merged_clock_def bm_has_def merge_field_def lww_pick_eq field_newer_def max_def)
  qed
qed

section \<open>Versions of one record\<close>

text \<open>
  A version in play: live, well-formed, every field stamped (as every stored record is), of
  the given identity, and with values determined by the field clock. The last condition is
  the Lamport-clock assumption: one device never stamps two values with one clock.
\<close>

definition version_of ::
  "string \<Rightarrow> string \<Rightarrow> string \<Rightarrow> (string \<Rightarrow> lamport_clock \<Rightarrow> field_value) \<Rightarrow> sync_record \<Rightarrow> bool" where
  "version_of schema entity ident val r \<longleftrightarrow>
     r_schema r = schema \<and> r_entity r = entity \<and> r_id r = ident \<and> \<not> r_tombstone r \<and>
     record_ok r \<and> (\<forall>f. bm_has (r_fields r) f \<longrightarrow> bm_has (r_field_clocks r) f) \<and>
     (\<forall>f c v. view_of r f = Some (c, v) \<longrightarrow> v = val f c)"

lemma version_val: "version_of sc en i val r \<Longrightarrow> view_of r f = Some (c, v) \<Longrightarrow> v = val f c"
  by (simp add: version_of_def)

lemma version_ext:
  assumes "version_of sc en i val r" and "version_of sc en i val' t"
    and "view_of r = view_of t" and "r_clock r = r_clock t" and "r_updated_at r = r_updated_at t"
  shows "r = t"
proof -
  have fields: "r_fields r = r_fields t"
  proof (rule bm.map_ext)
    show "bm_get (r_fields r) = bm_get (r_fields t)"
    proof
      fix f
      from assms(3) have "view_of r f = view_of t f" by simp
      then show "bm_get (r_fields r) f = bm_get (r_fields t) f"
        by (auto simp: view_of_def map_option_case split: option.splits)
    qed
  qed (use assms(1,2) in \<open>auto simp: version_of_def record_ok_def\<close>)
  have clocks: "r_field_clocks r = r_field_clocks t"
  proof (rule bm.map_ext)
    show "bm_get (r_field_clocks r) = bm_get (r_field_clocks t)"
    proof
      fix f
      have has: "bm_has (r_field_clocks r) f \<longleftrightarrow> bm_has (r_fields r) f"
        "bm_has (r_field_clocks t) f \<longleftrightarrow> bm_has (r_fields t) f"
        using assms(1,2) by (auto simp: version_of_def record_ok_def)
      show "bm_get (r_field_clocks r) f = bm_get (r_field_clocks t) f"
      proof (cases "bm_has (r_fields r) f")
        case True
        then obtain v where v: "bm_get (r_fields r) f = Some v" by (auto simp: bm_has_def)
        have "view_of r f = view_of t f" using assms(3) by simp
        then have "field_clock r f = field_clock t f"
          using v fields by (simp add: view_of_def)
        then show ?thesis
          using has True fields by (auto simp: field_clock_def bm_has_def)
      next
        case False
        then show ?thesis using has fields by (simp add: bm_has_def)
      qed
    qed
  qed (use assms(1,2) in \<open>auto simp: version_of_def record_ok_def\<close>)
  show ?thesis
    using assms fields clocks by (cases r; cases t) (simp add: version_of_def)
qed

lemma version_of_merge:
  assumes a: "version_of sc en i val a" and b: "version_of sc en i val b"
  shows "version_of sc en i val (merge_records lww_policy custom a b)"
proof -
  let ?m = "merge_records lww_policy custom a b"
  have live: "\<not> r_tombstone a" "\<not> r_tombstone b" "record_ok a" "record_ok b"
    using a b by (auto simp: version_of_def)
  note m = merge_records_live[OF live refl, where policy = lww_policy and custom = custom]
  have ids: "r_schema ?m = sc" "r_entity ?m = en" "r_id ?m = i"
    using a live by (simp_all add: version_of_def merge_records_def split: prod.splits)
  have "bm_has (r_fields ?m) f \<longrightarrow> bm_has (r_field_clocks ?m) f" for f
    using m(4,5)[of f] by (auto simp: bm_has_def split: option.splits)
  moreover have "v = val f c" if "view_of ?m f = Some (c, v)" for f c v
    using that a b unfolding view_of_merge[OF live]
    by (fastforce simp: view_merge_def version_of_def split: option.splits if_splits)
  ultimately show ?thesis
    using ids m(1,2) by (simp add: version_of_def)
qed

lemma merge_clock_updated:
  assumes "version_of sc en i val a" and "version_of sc en i val b"
  shows "r_clock (merge_records lww_policy custom a b) = max (r_clock a) (r_clock b)"
    and "r_updated_at (merge_records lww_policy custom a b) =
      max_updated_at (r_updated_at a) (r_updated_at b)"
  using assms by (simp_all add: version_of_def merge_records_def split: prod.splits)

lemma max_updated_at_laws:
  "max_updated_at (max_updated_at x y) z = max_updated_at x (max_updated_at y z)"
  "max_updated_at x y = max_updated_at y x"
  "max_updated_at x x = x"
  by (auto simp: max_updated_at_def max.assoc max.commute max.left_commute split: option.splits)

lemma versions_view:
  "version_of sc en i val a \<Longrightarrow> version_of sc en i val b \<Longrightarrow>
   view_of (merge_records lww_policy custom a b) = view_merge (view_of a) (view_of b)"
  by (rule view_of_merge) (auto simp: version_of_def)

interpretation versions: merge_semilattice "merge_records lww_policy custom" "version_of sc en i val"
  for custom sc en i val
proof
  fix x y z
  assume x: "version_of sc en i val x" and y: "version_of sc en i val y"
  show "version_of sc en i val (merge_records lww_policy custom x y)"
    by (rule version_of_merge[OF x y])
  have comm: "view_merge (view_of x) (view_of y) = view_merge (view_of y) (view_of x)"
    by (rule view_merge_commute) (metis version_val[OF x] version_val[OF y])
  show "merge_records lww_policy custom x y = merge_records lww_policy custom y x"
    by (rule version_ext[OF version_of_merge[OF x y] version_of_merge[OF y x]])
       (simp_all add: versions_view[OF x y] versions_view[OF y x] comm merge_clock_updated[OF x y]
         merge_clock_updated[OF y x] max.commute max_updated_at_laws(2))
  show "merge_records lww_policy custom x x = x"
    by (rule version_ext[OF version_of_merge[OF x x] x])
       (simp_all add: versions_view[OF x x] view_merge_idem merge_clock_updated[OF x x]
         max_updated_at_laws(3))
  assume z: "version_of sc en i val z"
  note xy = version_of_merge[OF x y] and yz = version_of_merge[OF y z]
  show "merge_records lww_policy custom (merge_records lww_policy custom x y) z =
      merge_records lww_policy custom x (merge_records lww_policy custom y z)"
    by (rule version_ext[OF version_of_merge[OF xy z] version_of_merge[OF x yz]])
       (simp_all add: versions_view[OF xy z] versions_view[OF x yz] versions_view[OF x y]
         versions_view[OF y z] view_merge_assoc merge_clock_updated[OF xy z]
         merge_clock_updated[OF x yz] merge_clock_updated[OF x y] merge_clock_updated[OF y z]
         max.assoc max_updated_at_laws(1))
qed

end
