(* ===== verification/Props_State.thy ===== *)
theory Props_State
  imports Records Merge_Laws Crypto_Frame Wire
begin

text \<open>
  The properties of the replicated state: its invariant, local writes and deltas, merging,
  loading, record keys, records, compaction, field merging, entry encryption, and framing.
\<close>

section \<open>The state\<close>






lemma filter_key:
  "distinct (map fst m) \<Longrightarrow> (k, v) \<in> set m \<Longrightarrow> filter (\<lambda>p. fst p = k) m = [(k, v)]"
proof (induction m)
  case (Cons p m)
  show ?case
  proof (cases "fst p = k")
    case True
    then have "k \<notin> fst ` set m" using Cons.prems(1) by auto
    then have "filter (\<lambda>q. fst q = k) m = []" by (auto simp: filter_empty_conv)
    moreover have "p = (k, v)" using Cons.prems True \<open>k \<notin> fst ` set m\<close> by (auto simp: image_iff)
    ultimately show ?thesis by simp
  next
    case False
    then show ?thesis using Cons by auto
  qed
qed simp

text \<open>A delta that selects one key is that key's entry.\<close>

lemma delta_single:
  assumes ok: "state_ok t" and k: "bm_get (st_entries t) k = Some e" and "\<not> is_full_snapshot_request since t"
    and sel: "\<And>j x. (j, x) \<in> set (st_entries t) \<Longrightarrow> (since < sequence_of j t \<and>
      (case peer of Some d \<Rightarrow> bm_get (st_origins t) j \<noteq> Some d | None \<Rightarrow> True)) = (j = k)"
  shows "delta_since since peer t = [e]"
proof -
  have "filter (\<lambda>(j, _). case peer of Some d \<Rightarrow> bm_get (st_origins t) j \<noteq> Some d | None \<Rightarrow> True)
      (filter (\<lambda>(j, _). since < sequence_of j t) (st_entries t)) = filter (\<lambda>p. fst p = k) (st_entries t)"
    unfolding filter_filter
  proof (rule filter_cong[OF refl])
    fix p assume "p \<in> set (st_entries t)"
    then show "((case p of (j, _) \<Rightarrow> since < sequence_of j t) \<and>
        (case p of (j, _) \<Rightarrow> case peer of Some d \<Rightarrow> bm_get (st_origins t) j \<noteq> Some d | None \<Rightarrow> True)) = (fst p = k)"
      using sel[of "fst p" "snd p"] by (simp add: split_beta)
  qed
  also have "\<dots> = [(k, e)]"
    by (rule filter_key[OF _ map_of_SomeD[OF k]]) (use ok in \<open>simp add: state_ok_def bm.entries_distinct\<close>)
  finally show ?thesis using assms(3) by (simp add: delta_since_def)
qed

text \<open>
  a local write is read back, leaves every other key alone, carries a clock above every
  clock in the state, and is exactly what a delta since just before it contains, whichever peer
  asks.
\<close>

theorem local_write:
  assumes ok: "state_ok s" and room: "st_counter s \<noteq> u64_max" "st_sequence s \<noteq> u64_max"
    and set: "state_set k v s = (e, t)"
  shows "state_get k t = Some v \<and> (\<forall>j. j \<noteq> k \<longrightarrow> entry_of t j = entry_of s j) \<and>
    (\<forall>j x. entry_of s j = Some x \<longrightarrow> e_clock x < e_clock e) \<and>
    delta_since (st_sequence s) peer t = [e]"
proof (intro conjI allI impI)
  have t: "st_entries t = bm_insert k e (st_entries s)" "st_sequence t = sat_inc (st_sequence s)"
    "st_sequences t = bm_insert k (sat_inc (st_sequence s)) (st_sequences s)" "bm_get (st_origins t) k = None"
    and e: "e_value e = v" "clk_counter (e_clock e) = sat_inc (st_counter s)"
    using set by (auto simp: state_set_def Let_def)
  have okt: "state_ok t" using state_ok_set[OF ok, of k v] set by simp
  have seq: "n \<le> st_sequence s" if "bm_get (st_sequences s) j = Some n" for j n
    using ok that by (auto simp: state_ok_def)
  have keys: "\<And>j. bm_get (st_entries s) j = None \<longleftrightarrow> bm_get (st_sequences s) j = None"
    using ok by (simp add: state_ok_def)
  show "state_get k t = Some v" by (simp add: state_get_def t bm_get_insert e)
  show "entry_of t j = entry_of s j" if "j \<noteq> k" for j
    using that by (simp add: entry_of_def t bm_get_insert)
  show "e_clock x < e_clock e" if "entry_of s j = Some x" for j x
  proof (rule clock_less_counter)
    have "clk_counter (e_clock x) \<le> st_counter s"
      using ok that by (auto simp: state_ok_def entry_of_def)
    then show "clk_counter (e_clock x) < clk_counter (e_clock e)"
      unfolding e by (rule less_sat_inc[OF _ room(1)])
  qed
  have new: "st_sequence s < sequence_of j t \<longleftrightarrow> j = k" if "bm_get (st_entries t) j \<noteq> None" for j
  proof (cases "j = k")
    case True
    then show ?thesis using room(2) by (simp add: sequence_of_def t bm_get_insert)
  next
    case False
    then have "bm_get (st_sequences s) j \<noteq> None"
      using that keys by (simp add: t bm_get_insert)
    then show ?thesis using seq False by (auto simp: sequence_of_def t bm_get_insert not_less)
  qed
  have part: "\<not> is_full_snapshot_request (st_sequence s) t"
    using ok by (simp add: is_full_snapshot_request_def t state_ok_def not_less)
  show "delta_since (st_sequence s) peer t = [e]"
  proof (rule delta_single[OF okt _ part])
    show "bm_get (st_entries t) k = Some e" by (simp add: t bm_get_insert)
    show "(st_sequence s < sequence_of j t \<and>
        (case peer of Some d \<Rightarrow> bm_get (st_origins t) j \<noteq> Some d | None \<Rightarrow> True)) = (j = k)"
      if "(j, x) \<in> set (st_entries t)" for j x
      using new[of j] t(4) weak_map_of_SomeI[OF that] by (auto split: option.splits)
  qed
qed

lemma local_write_witness:
  "state_get ''k'' (snd (state_set ''k'' [7] (state_new [1] ''a''))) = Some [7]"
proof -
  have "st_counter (state_new [1] ''a'') \<noteq> u64_max" "st_sequence (state_new [1] ''a'') \<noteq> u64_max"
    by (simp_all add: state_new_def u64_max_def)
  from local_write[OF state_ok_new this prod.collapse[symmetric], of "''k''" "[7]" None] show ?thesis by blast
qed

text \<open>
  Merging a snapshot is idempotent and does not depend on the order or repetition of its
  entries, whenever a key and a clock name one entry.
\<close>

theorem merge_order_idempotent:
  assumes "state_ok s" and "set es = set fs"
    and "clock_determines e_key e_clock ({x. \<exists>k. entry_of s k = Some x} \<union> set es)"
  shows "st_entries (snd (merge_snapshot es s)) = st_entries (snd (merge_snapshot fs s)) \<and>
    st_entries (snd (merge_snapshot es (snd (merge_snapshot es s)))) = st_entries (snd (merge_snapshot es s))"
proof -
  have det: "clock_determines e_key e_clock ({x. entry_of s k = Some x} \<union> set es)" for k
    by (rule clock_determines_subset[OF assms(3)]) blast
  have ok: "state_ok (fold lww_put xs s)" for xs by (rule lww.ok_puts[OF assms(1)])
  have 1: "entry_of (fold lww_put es s) k = entry_of (fold lww_put fs s) k" for k
    by (rule lww.order_independent[OF assms(1,2) det])
  have 2: "entry_of (fold lww_put es (fold lww_put es s)) k = entry_of (fold lww_put es s) k" for k
    by (rule lww.idempotent[OF assms(1)])
  show ?thesis
    unfolding merge_snapshot_fold
    using entry_of_ext[OF ok ok 1] entry_of_ext[OF lww.ok_puts[OF ok] ok 2] by blast
qed

lemma merge_order_idempotent_witness:
  "let x = \<lparr>e_key = ''k'', e_value = [1], e_clock = LamportClock 1 ''a''\<rparr>;
       y = \<lparr>e_key = ''k'', e_value = [2], e_clock = LamportClock 2 ''b''\<rparr>
   in st_entries (snd (merge_snapshot [x, y] (state_new [1] ''c''))) =
      st_entries (snd (merge_snapshot [y, x, x] (state_new [1] ''c'')))"
proof -
  let ?x = "\<lparr>e_key = ''k'', e_value = [1], e_clock = LamportClock 1 ''a''\<rparr>"
  let ?y = "\<lparr>e_key = ''k'', e_value = [2], e_clock = LamportClock 2 ''b''\<rparr>"
  have "clock_determines e_key e_clock ({x. \<exists>k. entry_of (state_new [1] ''c'') k = Some x} \<union> set [?x, ?y])"
    by (auto simp: clock_determines_def entry_of_def state_new_def)
  from merge_order_idempotent[OF state_ok_new _ this, of "[?y, ?x, ?x]"] show ?thesis by (auto simp: Let_def)
qed

lemma assign_sequences_frame:
  "st_entries (assign_sequences ks s) = st_entries s" "st_counter (assign_sequences ks s) = st_counter s"
  "st_origins (assign_sequences ks s) = st_origins s" "st_peer_cursors (assign_sequences ks s) = st_peer_cursors s"
  "bm_has (st_sequences (assign_sequences ks s)) k \<longleftrightarrow> bm_has (st_sequences s) k \<or> k \<in> set ks"
  by (induction ks arbitrary: s) (auto simp: Let_def bm_has_insert)

lemma assign_sequences_grows: "st_sequence s \<le> st_sequence (assign_sequences ks s)"
proof (induction ks arbitrary: s)
  case (Cons k ks)
  show ?case by (simp add: Let_def) (rule order_trans[OF _ Cons.IH], simp)
qed simp

lemma assign_sequences_ok: "bm_ok (st_sequences s) \<Longrightarrow> bm_ok (st_sequences (assign_sequences ks s))"
proof (induction ks arbitrary: s)
  case (Cons k ks)
  show ?case by (simp add: Let_def) (rule Cons.IH, simp add: Cons.prems bm_ok_insert)
qed simp

lemma assign_sequences_bound:
  assumes "\<And>k n. bm_get (st_sequences s) k = Some n \<Longrightarrow> n \<le> st_sequence s"
    and "bm_get (st_sequences (assign_sequences ks s)) k = Some n"
  shows "n \<le> st_sequence (assign_sequences ks s)"
  using assms
proof (induction ks arbitrary: s)
  case (Cons j ks)
  let ?s = "s\<lparr>st_sequence := sat_inc (st_sequence s), st_sequences := bm_insert j (sat_inc (st_sequence s)) (st_sequences s)\<rparr>"
  have step: "assign_sequences (j # ks) s = assign_sequences ks ?s" by (simp add: Let_def)
  show ?case
    using Cons.prems(2) unfolding step
    by (rule Cons.IH[rotated]) (auto simp: bm_get_insert split: if_splits intro: le_sat_incI Cons.prems(1))
qed simp

text \<open>
  \<open>normalize\<close> repairs a state file from before delta tracking (no epoch, sequence 0,
  sequences missing): any loaded state whose maps are sorted, whose entries sit under their own
  key below the counter, and whose sequences do not pass the stored one becomes well formed,
  with the same entries.
\<close>

theorem normalize_repairs:
  assumes maps: "bm_ok (st_entries s)" "bm_ok (st_sequences s)" "bm_ok (st_origins s)" "bm_ok (st_peer_cursors s)"
    and entries: "\<forall>k e. bm_get (st_entries s) k = Some e \<longrightarrow> e_key e = k \<and> clk_counter (e_clock e) \<le> st_counter s"
    and seqs: "\<forall>k n. bm_get (st_sequences s) k = Some n \<longrightarrow> n \<le> st_sequence s"
  shows "state_ok (normalize rnd s) \<and> st_entries (normalize rnd s) = st_entries s"
proof -
  define s1 where "s1 = (if st_epoch s = '''' then s\<lparr>st_epoch := random_epoch rnd\<rparr> else s)"
  define s2 where "s2 = (if st_sequence s1 = 0 then s1\<lparr>st_sequence := 1\<rparr> else s1)"
  define s3 where "s3 = assign_sequences (filter (\<lambda>k. \<not> bm_has (st_sequences s2) k) (bm_keys (st_entries s2))) s2"
  have n: "normalize rnd s = s3\<lparr>st_sequences := bm_retain (\<lambda>k _. bm_has (st_entries s3) k) (st_sequences s3),
      st_origins := bm_retain (\<lambda>k _. bm_has (st_entries s3) k) (st_origins s3)\<rparr>"
    by (simp add: normalize_def s1_def s2_def s3_def Let_def)
  have s2: "st_entries s2 = st_entries s" "st_sequences s2 = st_sequences s" "st_origins s2 = st_origins s"
      "st_peer_cursors s2 = st_peer_cursors s" "st_counter s2 = st_counter s" "st_sequence s2 \<noteq> 0"
      "st_sequence s \<le> st_sequence s2"
    by (auto simp: s1_def s2_def)
  have s3: "st_entries s3 = st_entries s" "st_counter s3 = st_counter s" "st_origins s3 = st_origins s"
      "st_peer_cursors s3 = st_peer_cursors s" "st_sequence s2 \<le> st_sequence s3" "bm_ok (st_sequences s3)"
    using maps(2) by (simp_all add: s3_def assign_sequences_frame assign_sequences_grows assign_sequences_ok s2)
  have nz: "st_sequence s3 \<noteq> 0" using s3(5) s2(6) by (metis word_le_0_iff)
  have has: "bm_has (st_sequences s3) k" if "bm_has (st_entries s) k" for k
    unfolding s3_def assign_sequences_frame(5) using that by (auto simp: s2 bm_has_iff bm_keys_def)
  have bound: "k' \<le> st_sequence s3" if "bm_get (st_sequences s3) k = Some k'" for k k'
    unfolding s3_def
    by (rule assign_sequences_bound) (use that seqs s2(2,7) in \<open>auto simp: s3_def intro: order_trans\<close>)
  have none: "bm_get (st_entries s) k = None" if "bm_get (st_sequences s3) k = None" for k
    using has[of k] that by (metis bm_has_def)
  show ?thesis
    unfolding n state_ok_def
    using maps entries bound nz none s3(1-4,6)
    by (auto simp: bm_get_retain bm_has_def intro: bm_ok_retain split: option.splits if_splits)
qed

lemma normalize_repairs_witness:
  "state_ok (normalize [1] ((state_new [] ''a'')\<lparr>st_sequence := 0,
     st_entries := [(''k'', \<lparr>e_key = ''k'', e_value = [1], e_clock = LamportClock 0 ''a''\<rparr>)]\<rparr>))"
  by (rule normalize_repairs[THEN conjunct1]) (auto simp: state_new_def bm_ok_def)

section \<open>Encryption\<close>

text \<open>
  A batch of entries encrypted under a key decrypts under the same key to the same batch,
  each with its key and clock in the clear, for a cipher with its documented round trip and
  nonces of the right length; the same holds for a blob.
\<close>

theorem encryption_roundtrip:
  assumes "aead_sound c" and "nonces_ok rng"
    and "encrypt_entries c rng key es = Inr xs" and "encrypt_blob c (rng 0) key text aad = Inr blob"
  shows "decrypt_entries c key xs = Inr es \<and> decrypt_blob c key blob aad = Inr text"
  using decrypt_encrypt_entries[OF assms(1,2,3)]
    decrypt_encrypt_blob[OF assms(1) _ assms(4)] assms(2) by (simp add: nonces_ok_def)

definition xor_cipher :: aead where
  "xor_cipher =
     \<lparr>aead_encrypt = (\<lambda>k n m ad. Some (map (xor (hd k)) m @ [of_nat (length ad)])),
      aead_decrypt = (\<lambda>k n ct ad. if ct = [] then None else Some (map (xor (hd k)) (butlast ct)))\<rparr>"

lemma xor_twice: "xor a (xor a b) = (b :: u8)"
  by (metis xor.left_neutral xor.assoc xor_self_eq)

lemma encryption_roundtrip_witness:
  "\<exists>xs blob. encrypt_entries xor_cipher (\<lambda>_. replicate 24 1) (AppKey [5])
       [\<lparr>e_key = ''k'', e_value = [1, 2], e_clock = LamportClock 1 ''a''\<rparr>] = Inr xs \<and>
     decrypt_entries xor_cipher (AppKey [5]) xs =
       Inr [\<lparr>e_key = ''k'', e_value = [1, 2], e_clock = LamportClock 1 ''a''\<rparr>] \<and>
     decrypt_blob xor_cipher (AppKey [5]) blob [9] = Inr [7]"
proof -
  let ?e = "\<lparr>e_key = ''k'', e_value = [1, 2], e_clock = LamportClock 1 ''a''\<rparr>"
  have "aead_sound xor_cipher" by (simp add: aead_sound_def xor_cipher_def comp_def xor_twice)
  moreover have "nonces_ok (\<lambda>_. replicate 24 1)" by (simp add: nonces_ok_def nonce_len_def)
  moreover obtain xs where "encrypt_entries xor_cipher (\<lambda>_. replicate 24 1) (AppKey [5]) [?e] = Inr xs"
    by (simp add: encrypt_entries_def encrypt_entry_def xor_cipher_def)
  moreover obtain blob where "encrypt_blob xor_cipher (replicate 24 1) (AppKey [5]) [7] [9] = Inr blob"
    by (simp add: encrypt_blob_def xor_cipher_def)
  ultimately show ?thesis using encryption_roundtrip[of xor_cipher "\<lambda>_. replicate 24 1"] by blast
qed

text \<open>
  the associated data of an encrypted entry determines its key and its clock, so a
  ciphertext can not be moved to another key or given another clock without the cipher seeing
  different associated data.
\<close>

theorem entry_binding:
  assumes "entry_aad d = entry_aad e"
    and "length (e_key d) < 2 ^ 64" and "length (e_key e) < 2 ^ 64"
    and "length (clk_device (e_clock d)) < 2 ^ 64" and "length (clk_device (e_clock e)) < 2 ^ 64"
  shows "e_key d = e_key e \<and> e_clock d = e_clock e"
  by (rule entry_aad_inject[OF assms])

lemma entry_binding_witness:
  "e_clock \<lparr>e_key = ''k'', e_value = [1], e_clock = LamportClock 1 ''a''\<rparr> =
   e_clock \<lparr>e_key = ''k'', e_value = [2], e_clock = LamportClock 1 ''a''\<rparr>"
  by (rule entry_binding[THEN conjunct2]) (simp_all add: entry_aad_def)

section \<open>Framing\<close>

fun write_all :: "message_json \<Rightarrow> message list \<Rightarrow> string \<Rightarrow> string result" where
  "write_all js [] out = Inr out"
| "write_all js (m # ms) out = bindR (write_message js m out) (write_all js ms)"

fun read_all :: "message_json \<Rightarrow> nat \<Rightarrow> nat \<Rightarrow> byte_stream \<Rightarrow> message list result \<times> byte_stream" where
  "read_all js limit 0 s = (Inr [], s)"
| "read_all js limit (Suc n) s =
     bindS (read_message_with_limit js limit s) (\<lambda>m s.
     bindS (read_all js limit n s) (\<lambda>ms s. (Inr (m # ms), s)))"

lemma write_all_prefix:
  "\<forall>m\<in>set ms. \<exists>tx. json_line js m tx \<Longrightarrow>
   \<exists>rest. write_all js ms out = Inr (out @ rest) \<and> write_all js ms [] = Inr rest"
proof (induction ms arbitrary: out)
  case (Cons m ms)
  from Cons.prems obtain tx where tx: "to_json js m = Inr tx" by (auto simp: json_line_def)
  from Cons.prems have ms: "\<forall>m\<in>set ms. \<exists>tx. json_line js m tx" by simp
  from Cons.IH[OF ms, of "out @ tx @ [CHR 0x0A]"] Cons.IH[OF ms, of "tx @ [CHR 0x0A]"]
  show ?case by (auto simp: write_message_def tx)
qed simp

text \<open>
  messages written one after the other on a stream are read back one by one, in order and
  with nothing left over, whatever the stream holds after them, when each has a one-line JSON
  text below the size limit.
\<close>

theorem framing_roundtrip:
  assumes "\<forall>m\<in>set ms. \<exists>tx. json_line js m tx \<and> length tx < limit" and "write_all js ms [] = Inr out"
  shows "read_all js limit (length ms) \<lparr>bs_data = out @ rest, bs_end = e\<rparr> =
    (Inr ms, \<lparr>bs_data = rest, bs_end = e\<rparr>)"
  using assms
proof (induction ms arbitrary: out)
  case (Cons m ms)
  from Cons.prems(1) obtain tx where tx: "json_line js m tx" "length tx < limit" by auto
  from Cons.prems(1) have ms: "\<forall>m\<in>set ms. \<exists>tx. json_line js m tx" by auto
  obtain first where f: "write_message js m [] = Inr first" "write_all js ms first = Inr out"
    using Cons.prems(2) by auto
  obtain more where more: "write_all js ms first = Inr (first @ more)" "write_all js ms [] = Inr more"
    using write_all_prefix[OF ms] by blast
  have "read_message_with_limit js limit \<lparr>bs_data = first @ more @ rest, bs_end = e\<rparr> =
      (Inr m, \<lparr>bs_data = more @ rest, bs_end = e\<rparr>)"
    by (rule read_write_message[OF tx f(1)])
  moreover have "read_all js limit (length ms) \<lparr>bs_data = more @ rest, bs_end = e\<rparr> =
      (Inr ms, \<lparr>bs_data = rest, bs_end = e\<rparr>)"
    by (rule Cons.IH[OF _ more(2)]) (use Cons.prems(1) in simp)
  moreover have "out = first @ more" using f(2) more(1) by simp
  ultimately show ?case by simp
qed simp

definition demo_json :: message_json where
  "demo_json = \<lparr>to_json = (\<lambda>m. Inr (if m = Ack then ''ack'' else ''pending'')),
     from_json = (\<lambda>s. if s = ''ack'' then Inr Ack else Inr ManagedPending)\<rparr>"

lemma framing_roundtrip_witness:
  "\<exists>out. write_all demo_json [Ack, ManagedPending, Ack] [] = Inr out \<and>
     fst (read_all demo_json 100 3 \<lparr>bs_data = out @ ''tail'', bs_end = None\<rparr>) = Inr [Ack, ManagedPending, Ack]"
proof -
  obtain out where out: "write_all demo_json [Ack, ManagedPending, Ack] [] = Inr out"
    by (simp add: write_message_def demo_json_def)
  have "json_line demo_json Ack ''ack''" "json_line demo_json ManagedPending ''pending''"
    by (simp_all add: json_line_def demo_json_def)
  moreover have "length ''ack'' < (100 :: nat)" "length ''pending'' < (100 :: nat)" by simp_all
  ultimately have "\<forall>m\<in>set [Ack, ManagedPending, Ack]. \<exists>tx. json_line demo_json m tx \<and> length tx < 100"
    by (metis insert_iff empty_iff list.set(1,2))
  from framing_roundtrip[OF this out, of "''tail''" None]
  have "fst (read_all demo_json 100 3 \<lparr>bs_data = out @ ''tail'', bs_end = None\<rparr>) = Inr [Ack, ManagedPending, Ack]"
    by (simp add: numeral_3_eq_3)
  with out show ?thesis by blast
qed

end
