(* ===== verification/Props_Records.thy ===== *)
theory Props_Records
  imports Records Merge_Laws
begin

text \<open>
  The properties of logical records: keys, the entry encoding, field clocks, compaction, and
  field-level merging.
\<close>

section \<open>Keys and entries\<close>

text \<open>
  A record key built from valid strings parses back to its parts: the percent-escaping of
  the namespace, schema, entity and id is inverted exactly, and no key collides with another.
\<close>

theorem record_key_roundtrip:
  assumes "valid_utf8 n" and "valid_utf8 s" and "valid_utf8 e" and "valid_utf8 i"
  shows "parse_record_key (record_entry_key n s e i) =
      Inr (Some \<lparr>kp_namespace = n, kp_schema = s, kp_entity = e, kp_id = i\<rparr>) \<and>
    (\<forall>n' s' e' i'. record_entry_key n s e i = record_entry_key n' s' e' i' \<longrightarrow>
       n = n' \<and> s = s' \<and> e = e' \<and> i = i')"
  using parse_record_entry_key[OF assms] record_entry_key_inject[of n s e i] by blast

lemma record_key_roundtrip_witness:
  "parse_record_key (record_entry_key ''app'' ''a:b'' ''x y'' ''%'') =
     Inr (Some \<lparr>kp_namespace = ''app'', kp_schema = ''a:b'', kp_entity = ''x y'', kp_id = ''%''\<rparr>)"
  by (rule record_key_roundtrip[THEN conjunct1]) (rule valid_utf8_ascii, simp)+

definition demo_record :: sync_record where
  "demo_record =
     \<lparr>r_schema = ''s'', r_entity = ''e'', r_id = ''1'', r_fields = [(''f'', FBool True)], r_tombstone = False,
      r_clock = LamportClock 1 ''a'', r_updated_at = None, r_field_clocks = []\<rparr>"

text \<open>
  a record written through \<open>set\<close> gets the next local clock and complete field clocks,
  and is read back unchanged otherwise: every field kept from the stored record with an equal
  value keeps its clock, every other field without an explicit one takes the new clock.
\<close>

theorem set_record_get:
  assumes ok: "bm_ok (r_field_clocks r)" and utf8: "utf8_record ns r"
    and ex: "rs_get cd ns (r_schema r) (r_entity r) (r_id r) s = Inr existing"
    and codec: "codec_keeps cd (payload_of (stamp_field_clocks existing
      (r\<lparr>r_clock := LamportClock (sat_inc (st_counter s)) (st_device_id s)\<rparr>)))"
  shows "\<exists>e t r'. rs_set cd ns r s = (Inr e, t) \<and>
    rs_get cd ns (r_schema r) (r_entity r) (r_id r) t = Inr (Some r') \<and>
    r_clock r' = LamportClock (sat_inc (st_counter s)) (st_device_id s) \<and>
    r_fields r' = r_fields r \<and> r_tombstone r' = r_tombstone r \<and> r_updated_at r' = r_updated_at r \<and>
    (\<forall>f. bm_get (r_field_clocks r') f =
       (if bm_has (r_fields r) f then Some (stamped_clock existing (r\<lparr>r_clock := r_clock r'\<rparr>) f) else None))"
proof -
  let ?c = "LamportClock (sat_inc (st_counter s)) (st_device_id s)"
  let ?r = "stamp_field_clocks existing (r\<lparr>r_clock := ?c\<rparr>)"
  let ?k = "record_entry_key ns (r_schema r) (r_entity r) (r_id r)"
  obtain v where v: "encode_payload cd (payload_of ?r) = Inr v" "decode_payload cd v = Inr (payload_of ?r)"
    using codec by (auto simp: codec_keeps_def)
  obtain e t where st: "state_set ?k v s = (e, t)" by fastforce
  have set: "rs_set cd ns r s = (Inr e, t)"
    using v(1) st by (simp add: rs_set_def Let_def ex payload_of_def)
  have get: "bm_get (st_entries t) ?k = Some \<lparr>e_key = ?k, e_value = v, e_clock = ?c\<rparr>"
    using st by (auto simp: state_set_def Let_def bm_get_insert)
  have "rs_get cd ns (r_schema r) (r_entity r) (r_id r) t = Inr (Some ?r)"
    using utf8 v(2) by (simp add: rs_get_def get entry_to_record_def utf8_record_def parse_record_entry_key payload_of_def)
  moreover have "bm_get (r_field_clocks ?r) f =
      (if bm_has (r_fields r) f then Some (stamped_clock existing (r\<lparr>r_clock := ?c\<rparr>) f) else None)" for f
    using stamp_clocks[of "r\<lparr>r_clock := ?c\<rparr>" existing f] ok by simp
  ultimately show ?thesis using set by (intro exI[of _ e] exI[of _ t] exI[of _ ?r]) simp
qed

lemma set_record_get_witness:
  "\<exists>cd t r'. rs_get cd ''n'' ''s'' ''e'' ''1'' t = Inr (Some r') \<and> r_clock r' = LamportClock 1 ''a'' \<and>
     r_fields r' = [(''f'', FBool True)] \<and> bm_get (r_field_clocks r') ''f'' = Some (LamportClock 1 ''a'')"
proof -
  let ?s = "state_new [1] ''a''"
  let ?r = "stamp_field_clocks None (demo_record\<lparr>r_clock := LamportClock (sat_inc (st_counter ?s)) (st_device_id ?s)\<rparr>)"
  let ?cd = "\<lparr>encode_payload = (\<lambda>_. Inr [1]), decode_payload = (\<lambda>_. Inr (payload_of ?r))\<rparr>"
  have "utf8_record ''n'' demo_record"
    unfolding utf8_record_def demo_record_def by (intro conjI valid_utf8_ascii) simp_all
  moreover have "rs_get ?cd ''n'' (r_schema demo_record) (r_entity demo_record) (r_id demo_record) ?s = Inr None"
    by (simp add: rs_get_def state_new_def)
  moreover have "codec_keeps ?cd (payload_of ?r)" by (simp add: codec_keeps_def)
  moreover have "bm_ok (r_field_clocks demo_record)" by (simp add: demo_record_def)
  ultimately obtain t r' where "rs_get ?cd ''n'' ''s'' ''e'' ''1'' t = Inr (Some r')" "r_clock r' = LamportClock 1 ''a''"
    "r_fields r' = [(''f'', FBool True)]" "bm_get (r_field_clocks r') ''f'' = Some (LamportClock 1 ''a'')"
    using set_record_get[of demo_record "''n''" ?cd ?s None]
    by (auto simp: demo_record_def bm_has_def stamped_clock_def inherited_clock_def state_new_def sat_inc_def u64_max_def)
  then show ?thesis by blast
qed

section \<open>Compaction\<close>

lemma remove_keys_entry:
  "bm_get (st_entries (snd (remove_keys ks n s))) k =
     (if k \<in> set ks then None else bm_get (st_entries s) k)"
proof (induction ks arbitrary: n s)
  case (Cons j ks)
  obtain gone t where t: "state_remove j s = (gone, t)" by fastforce
  then have "bm_get (st_entries t) k = (if k = j then None else bm_get (st_entries s) k)"
    by (auto simp: state_remove_def bm_get_remove)
  then show ?case by (auto simp: t Cons.IH)
qed simp

lemma view_records_set:
  "view_records cd ns es = Inr rs \<Longrightarrow> r \<in> set rs \<longleftrightarrow> (\<exists>e\<in>set es. entry_to_record cd e ns = Inr (Some r))"
proof (induction es arbitrary: rs)
  case (Cons e es)
  then obtain found rest where f: "entry_to_record cd e ns = Inr found" "view_records cd ns es = Inr rest"
    "rs = (case found of None \<Rightarrow> rest | Some x \<Rightarrow> x # rest)" by auto
  show ?case using Cons.IH[OF f(2)] f(1,3) by (auto split: option.splits)
qed simp

text \<open>The keys of the namespace are canonical: what \<open>record_entry_key\<close> makes.\<close>

definition canonical :: "payload_codec \<Rightarrow> string \<Rightarrow> sync_state \<Rightarrow> bool" where
  "canonical cd ns s \<longleftrightarrow> (\<forall>k e r. bm_get (st_entries s) k = Some e \<longrightarrow> entry_to_record cd e ns = Inr (Some r) \<longrightarrow>
     k = record_entry_key ns (r_schema r) (r_entity r) (r_id r))"

lemma keys_to_remove_tombstones:
  "set (keys_to_remove policy now ts) \<subseteq> fst ` set ts"
proof -
  have "set (expired_keys a now ts) \<subseteq> fst ` set ts" for a
    by (auto simp: expired_keys_def image_iff split: option.splits) force
  moreover have "set (overflow_keys m rm ts) \<subseteq> fst ` set ts" for m rm
  proof -
    have "k \<in> fst ` set ts" if "(k, u) \<in> set (take n (sort_key snd (overflow_candidates rm ts)))" for n k u
    proof -
      have "(k, u) \<in> set (overflow_candidates rm ts)" using in_set_takeD[OF that] by simp
      then show ?thesis by (auto simp: overflow_candidates_def List.map_filter_def image_iff) force
    qed
    then show ?thesis by (auto simp: overflow_keys_def Let_def split: option.splits)
  qed
  ultimately show ?thesis by (auto simp: keys_to_remove_def Let_def)
qed

text \<open>
  Compaction of a namespace with canonical keys loses no live data: each key keeps its
  entry, or held a tombstone and is gone; and with an age limit no dated tombstone that old is
  left.
\<close>

theorem compact_only_tombstones:
  assumes ok: "state_ok s" and canon: "canonical cd ns s" and c: "rs_compact cd ns policy now s = (Inr summary, t)"
  shows "(\<forall>k. bm_get (st_entries t) k = bm_get (st_entries s) k \<or>
       bm_get (st_entries t) k = None \<and>
       (\<exists>e r. bm_get (st_entries s) k = Some e \<and> entry_to_record cd e ns = Inr (Some r) \<and> r_tombstone r)) \<and>
    (\<forall>age k e r u. cp_max_age policy = Some age \<longrightarrow> bm_get (st_entries s) k = Some e \<longrightarrow>
       entry_to_record cd e ns = Inr (Some r) \<longrightarrow> r_tombstone r \<longrightarrow> r_updated_at r = Some u \<longrightarrow>
       age \<le> sat_sub now u \<longrightarrow> bm_get (st_entries t) k = None)"
proof -
  obtain rs where rs: "view_snapshot cd ns s = Inr rs"
    and t: "t = snd (remove_keys (keys_to_remove policy now (tombstone_keys ns rs)) 0 s)"
    using c by (auto simp: rs_compact_def Let_def split: sum.splits prod.splits)
  have okm: "bm_ok (st_entries s)" using ok by (simp add: state_ok_def)
  have mem: "r \<in> set rs \<longleftrightarrow> (\<exists>k e. bm_get (st_entries s) k = Some e \<and> entry_to_record cd e ns = Inr (Some r))" for r
    using view_records_set[OF rs[unfolded view_snapshot_def state_snapshot_def]] set_bm_values[OF okm] by blast
  have gone: "\<exists>e r. bm_get (st_entries s) k = Some e \<and> entry_to_record cd e ns = Inr (Some r) \<and> r_tombstone r"
    if "k \<in> set (keys_to_remove policy now (tombstone_keys ns rs))" for k
  proof -
    have "k \<in> fst ` set (tombstone_keys ns rs)" using that keys_to_remove_tombstones by blast
    then obtain r where r: "r \<in> set rs" "r_tombstone r" "k = record_entry_key ns (r_schema r) (r_entity r) (r_id r)"
      by (auto simp: tombstone_keys_def)
    then show ?thesis using mem[of r] canon unfolding canonical_def by blast
  qed
  have old: "k \<in> set (keys_to_remove policy now (tombstone_keys ns rs))"
    if "cp_max_age policy = Some age" "bm_get (st_entries s) k = Some e" "entry_to_record cd e ns = Inr (Some r)"
      "r_tombstone r" "r_updated_at r = Some u" "age \<le> sat_sub now u" for age k e r u
  proof -
    have "r \<in> set rs" using that mem by blast
    moreover have "k = record_entry_key ns (r_schema r) (r_entity r) (r_id r)"
      using that canon unfolding canonical_def by blast
    ultimately have "(k, Some u) \<in> set (tombstone_keys ns rs)" using that(4,5) by (auto simp: tombstone_keys_def image_iff)
    then have "k \<in> set (expired_keys (cp_max_age policy) now (tombstone_keys ns rs))"
      using that(1,6) by (auto simp: expired_keys_def image_iff intro!: bexI[of _ "(k, Some u)"])
    then show ?thesis by (simp add: keys_to_remove_def Let_def)
  qed
  show ?thesis unfolding t remove_keys_entry using gone old by auto
qed

lemma compact_only_tombstones_witness:
  "let k = record_entry_key ''n'' ''s'' ''e'' ''1'';
       p = \<lparr>p_fields = [], p_tombstone = True, p_updated_at = Some 5, p_field_clocks = []\<rparr>;
       cd = \<lparr>encode_payload = (\<lambda>_. Inr [1]), decode_payload = (\<lambda>_. Inr p)\<rparr>;
       s = snd (state_set k [1] (state_new [1] ''a''))
   in bm_get (st_entries s) k \<noteq> None \<and>
      bm_get (st_entries (snd (rs_compact cd ''n'' \<lparr>cp_max_age = Some 10, cp_max_tombstones = None\<rparr> 20 s))) k = None"
proof -
  let ?k = "record_entry_key ''n'' ''s'' ''e'' ''1''"
  let ?p = "\<lparr>p_fields = [], p_tombstone = True, p_updated_at = Some 5, p_field_clocks = []\<rparr>"
  let ?cd = "\<lparr>encode_payload = (\<lambda>_. Inr [1]), decode_payload = (\<lambda>_. Inr ?p)\<rparr>"
  let ?policy = "\<lparr>cp_max_age = Some 10, cp_max_tombstones = None\<rparr>"
  let ?s = "snd (state_set ?k [1] (state_new [1] ''a''))"
  let ?e = "\<lparr>e_key = ?k, e_value = [1], e_clock = LamportClock 1 ''a''\<rparr>"
  let ?r = "\<lparr>r_schema = ''s'', r_entity = ''e'', r_id = ''1'', r_fields = [], r_tombstone = True,
      r_clock = LamportClock 1 ''a'', r_updated_at = Some 5, r_field_clocks = []\<rparr>"
  have entries: "st_entries ?s = [(?k, ?e)]"
    by (simp add: state_set_def state_new_def Let_def sat_inc_def u64_max_def)
  have "parse_record_key ?k = Inr (Some \<lparr>kp_namespace = ''n'', kp_schema = ''s'', kp_entity = ''e'', kp_id = ''1''\<rparr>)"
    by (rule parse_record_entry_key) (rule valid_utf8_ascii, simp)+
  then have rec: "entry_to_record ?cd ?e ''n'' = Inr (Some ?r)"
    by (simp add: entry_to_record_def)
  have canon: "canonical ?cd ''n'' ?s"
    unfolding canonical_def entries using rec by auto
  have view: "view_snapshot ?cd ''n'' ?s = Inr [?r]"
    unfolding view_snapshot_def state_snapshot_def entries using rec by (simp add: bm_values_def)
  obtain removed t where "remove_keys (keys_to_remove ?policy 20 (tombstone_keys ''n'' [?r])) 0 ?s = (removed, t)"
    by fastforce
  then obtain summary where c: "rs_compact ?cd ''n'' ?policy 20 ?s = (Inr summary, t)"
    unfolding rs_compact_def view by (simp add: Let_def)
  have "(10 :: u64) \<le> sat_sub 20 5" by (simp add: sat_sub_def)
  then have "bm_get (st_entries t) ?k = None"
    using compact_only_tombstones[OF state_ok_set[OF state_ok_new] canon c] rec entries by auto
  then show ?thesis using c entries by (simp add: Let_def)
qed

section \<open>Merging\<close>

text \<open>
  C39: the last-writer-wins merge of two live records implements its specification: seen field
  by field it keeps, for each field, the side with the larger field clock, and the record clock
  is the larger of the two.
\<close>

theorem merge_refines_view:
  assumes "\<not> r_tombstone a" and "\<not> r_tombstone b" and "record_ok a" and "record_ok b"
  shows "view_of (merge_records lww_policy custom a b) = view_merge (view_of a) (view_of b) \<and>
    r_clock (merge_records lww_policy custom a b) = max (r_clock a) (r_clock b) \<and>
    record_ok (merge_records lww_policy custom a b)"
  using view_of_merge[OF assms] merge_records_live(1,3)[OF assms refl, where policy = lww_policy and custom = custom]
  by simp

definition demo_version :: "u64 \<Rightarrow> string \<Rightarrow> bool \<Rightarrow> sync_record" where
  "demo_version n f b = demo_record\<lparr>r_clock := LamportClock n ''a'', r_fields := [(f, FBool b)],
     r_field_clocks := [(f, LamportClock n ''a'')]\<rparr>"

lemma demo_version_ok: "record_ok (demo_version n f b)" "\<not> r_tombstone (demo_version n f b)"
  by (simp_all add: record_ok_def demo_version_def demo_record_def bm_ok_def bm_has_def)

lemma merge_refines_view_witness:
  "view_of (merge_records lww_policy (\<lambda>_ _ _ _ _. None) (demo_version 1 ''f'' True) (demo_version 2 ''f'' False)) ''f'' =
     Some (LamportClock 2 ''a'', FBool False)"
proof -
  have "(LamportClock 1 ''a'') \<le> LamportClock 2 ''a''" by (simp add: clock_le_iff)
  then show ?thesis
    using merge_refines_view[OF demo_version_ok(2) demo_version_ok(2) demo_version_ok(1) demo_version_ok(1),
        of "\<lambda>_ _ _ _ _. None" 1 "''f''" True 2 "''f''" False]
    by (simp add: view_merge_def view_of_def demo_version_def field_clock_def)
qed

text \<open>
  the versions of one record converge. Devices that merge the same versions, in any order,
  any number of times and from any of them, hold the same record, when a field's clock
  determines its value.
\<close>

theorem versions_converge:
  assumes "version_of sc en i val a" and "\<forall>x\<in>set xs. version_of sc en i val x"
    and "version_of sc en i val b" and "\<forall>x\<in>set ys. version_of sc en i val x"
    and "insert a (set xs) = insert b (set ys)"
  shows "foldl (merge_records lww_policy custom) a xs = foldl (merge_records lww_policy custom) b ys"
  by (rule versions.foldl_order_independent[OF assms])

lemma versions_converge_witness:
  "foldl (merge_records lww_policy (\<lambda>_ _ _ _ _. None)) (demo_version 1 ''f'' True) [demo_version 2 ''g'' False] =
   foldl (merge_records lww_policy (\<lambda>_ _ _ _ _. None)) (demo_version 2 ''g'' False)
     [demo_version 1 ''f'' True, demo_version 2 ''g'' False]"
proof -
  let ?val = "\<lambda>f c. FBool (clk_counter c = 1)"
  have "version_of ''s'' ''e'' ''1'' ?val (demo_version 1 ''f'' True)"
    "version_of ''s'' ''e'' ''1'' ?val (demo_version 2 ''g'' False)"
    using demo_version_ok
    by (auto simp: version_of_def demo_version_def demo_record_def bm_has_def view_of_def field_clock_def split: if_splits)
  then show ?thesis by (intro versions_converge) auto
qed

text \<open>
  an append-only field never loses an item in a merge of live records: the merged field is
  a list that starts with the items the stored record had and contains every (NaN-free) item of
  the incoming one, and merging the same record in again would add nothing.
\<close>

theorem append_only_keeps:
  assumes live: "\<not> r_tombstone a" "\<not> r_tombstone b" "record_ok a" "record_ok b"
    and policy: "policy f = AppendOnly" and b: "bm_get (r_fields b) f = Some w" and nan: "\<forall>x\<in>set (items_of w). nan_free x"
    and a: "bm_get (r_fields a) f = Some v"
  shows "\<exists>xs. bm_get (r_fields (merge_records policy custom a b)) f = Some (FList xs) \<and>
    (\<exists>new. xs = items_of v @ new \<and> set new \<subseteq> set (items_of w)) \<and>
    (\<forall>x\<in>set (items_of w). fv_contains xs x) \<and> push_unseen xs (items_of w) = xs"
proof -
  have "bm_get (r_fields (merge_records policy custom a b)) f = Some (FList (push_unseen (items_of v) (items_of w)))"
    using merge_records_live(4)[OF live refl, where policy = policy and custom = custom and f = f]
    by (simp add: a b policy merge_field_def)
  then show ?thesis
    using push_unseen_prefix[of "items_of v" "items_of w"] push_unseen_contains[of _ "items_of w" "items_of v"]
      push_unseen_idem[OF nan, of "items_of v"] nan by blast
qed

lemma append_only_keeps_witness:
  "\<exists>xs. bm_get (r_fields (merge_records (\<lambda>_. AppendOnly) (\<lambda>_ _ _ _ _. None)
      (demo_version 1 ''f'' True) (demo_version 2 ''f'' False))) ''f'' = Some (FList xs) \<and> fv_contains xs (FBool False)"
  using append_only_keeps[where a = "demo_version 1 ''f'' True" and b = "demo_version 2 ''f'' False" and f = "''f''"
      and policy = "\<lambda>_. AppendOnly" and custom = "\<lambda>_ _ _ _ _. None" and v = "FBool True" and w = "FBool False",
      OF demo_version_ok(2) demo_version_ok(2) demo_version_ok(1) demo_version_ok(1) refl]
  by (simp add: demo_version_def items_of_def) blast

definition amounts :: "(string, field_value) bmap \<Rightarrow> bool" where
  "amounts m \<longleftrightarrow> bm_ok m \<and> (\<forall>v\<in>set (bm_values m). \<exists>n. v = FI64 n)"

lemma i64_max_commute: "i64_max a b = i64_max b a"
  by (auto simp: i64_max_def not_less signed_word_eqI)

text \<open>
  a counter field (a map from device to amount) merges to the per-device maximum, so the
  merge is the same whichever side is the stored one and whichever is newer.
\<close>

theorem counter_merge_commutes:
  assumes "amounts left" and "amounts right"
  shows "counter_maps newer left right = counter_maps newer' right left \<and>
    (\<forall>d. bm_get (counter_maps newer left right) d =
      (case (bm_get left d, bm_get right d) of
         (Some (FI64 a), Some (FI64 b)) \<Rightarrow> Some (FI64 (if sint b < sint a then a else b))
       | (x, None) \<Rightarrow> x
       | (_, y) \<Rightarrow> y))"
proof -
  have ok: "bm_ok left" "bm_ok right" using assms by (simp_all add: amounts_def)
  have val: "bm_get left d = Some v \<Longrightarrow> \<exists>n. v = FI64 n" "bm_get right d = Some v \<Longrightarrow> \<exists>n. v = FI64 n" for d v
    using assms bm_get_in_values unfolding amounts_def by metis+
  note get = bm_get_counter_maps[OF bm.entries_distinct[OF ok(2)]] bm_get_counter_maps[OF bm.entries_distinct[OF ok(1)]]
  have eq: "bm_get (counter_maps newer left right) d = bm_get (counter_maps newer' right left) d" for d
    by (cases "bm_get left d"; cases "bm_get right d") (auto simp: get counter_entry_def i64_max_commute dest!: val)
  have "bm_get (counter_maps newer left right) d =
      (case (bm_get left d, bm_get right d) of
         (Some (FI64 a), Some (FI64 b)) \<Rightarrow> Some (FI64 (if sint b < sint a then a else b))
       | (x, None) \<Rightarrow> x
       | (_, y) \<Rightarrow> y)" for d
    by (cases "bm_get left d"; cases "bm_get right d") (auto simp: get counter_entry_def i64_max_def dest!: val)
  moreover have "counter_maps newer left right = counter_maps newer' right left"
    by (rule bm.map_ext[OF bm_ok_counter_maps[OF ok(1)] bm_ok_counter_maps[OF ok(2)]]) (simp add: fun_eq_iff eq)
  ultimately show ?thesis by simp
qed

lemma counter_merge_commutes_witness:
  "counter_maps True [(''a'', FI64 3)] [(''a'', FI64 5), (''b'', FI64 1)] =
   counter_maps False [(''a'', FI64 5), (''b'', FI64 1)] [(''a'', FI64 3)]"
proof -
  have "amounts [(''a'', FI64 3)]" "amounts [(''a'', FI64 5), (''b'', FI64 1)]"
    by (simp_all add: amounts_def bm_ok_def bm_values_def)
  from counter_merge_commutes[OF this] show ?thesis by blast
qed

end
