(* ===== verification/Managed_Records.thy ===== *)
theory Managed_Records
  imports Wire Lww
begin

text \<open>
  \<open>session/adapter.rs\<close> and the data of \<open>session/mod.rs\<close>: managed records, transactional
  adapters, the session envelope, and the staging and publication of records. An app's
  \<open>ManagedAdapter\<close> is a record of its hooks; \<open>default_adapter\<close> gives the provided ones. The
  record key is the JSON text of the pair (adapter, id), so the JSON printer is an argument.
\<close>

record managed_record =
  mg_adapter :: string
  mg_id :: string
  mg_value :: bytes
  mg_deleted :: bool
  mg_clock :: lamport_clock

record prepared_change =
  chg_id :: string
  chg_adapter :: string
  chg_expected_revision :: u64
  chg_staged :: "managed_record list"
  chg_recovery :: "managed_record list"

record adapter_inspection =
  ai_records :: nat
  ai_live_records :: nat
  ai_revision :: u64

record managed_adapter =
  ma_descriptor :: adapter_descriptor
  ma_inspect :: "managed_record list \<Rightarrow> u64 \<Rightarrow> adapter_inspection"
  ma_export :: "managed_record list \<Rightarrow> managed_record list result"
  ma_preview :: "managed_record list \<Rightarrow> managed_record list \<Rightarrow> u64 \<Rightarrow> prepared_change result"
  ma_prepare :: "managed_record list \<Rightarrow> managed_record list \<Rightarrow> u64 \<Rightarrow> prepared_change result"
  ma_commit :: "prepared_change \<Rightarrow> u64 \<Rightarrow> managed_record list result"
  ma_recover :: "prepared_change \<Rightarrow> managed_record list result"

definition default_inspect :: "managed_record list \<Rightarrow> u64 \<Rightarrow> adapter_inspection" where
  "default_inspect rs revision =
     \<lparr>ai_records = length rs, ai_live_records = length (filter (\<lambda>r. \<not> mg_deleted r) rs),
      ai_revision = revision\<rparr>"

definition default_commit ::
  "adapter_descriptor \<Rightarrow> prepared_change \<Rightarrow> u64 \<Rightarrow> managed_record list result" where
  "default_commit d p current_revision =
     (if chg_adapter p \<noteq> ad_id d \<or> chg_expected_revision p \<noteq> current_revision
      then fail ''stale adapter transaction'' else Inr (chg_staged p))"

definition default_recover :: "adapter_descriptor \<Rightarrow> prepared_change \<Rightarrow> managed_record list result" where
  "default_recover d p =
     (if chg_adapter p \<noteq> ad_id d then fail ''adapter recovery mismatch'' else Inr (chg_staged p))"

definition default_adapter ::
  "adapter_descriptor \<Rightarrow>
   (managed_record list \<Rightarrow> managed_record list \<Rightarrow> u64 \<Rightarrow> prepared_change result) \<Rightarrow> managed_adapter" where
  "default_adapter d prepare =
     \<lparr>ma_descriptor = d, ma_inspect = default_inspect, ma_export = (\<lambda>rs. Inr rs),
      ma_preview = prepare, ma_prepare = prepare, ma_commit = default_commit d,
      ma_recover = default_recover d\<rparr>"

section \<open>The last-writer-wins \<open>RecordsAdapter\<close>\<close>

definition merge_managed ::
  "string \<Rightarrow> (string, managed_record) bmap \<Rightarrow> managed_record \<Rightarrow> (string, managed_record) bmap result" where
  "merge_managed adapter m next =
     (if mg_adapter next \<noteq> adapter then fail ''record adapter mismatch''
      else case bm_get m (mg_id next) of
             Some old \<Rightarrow>
               (if mg_clock old = mg_clock next \<and> old \<noteq> next
                then fail ''unequal payload at identical logical clock''
                else if mg_clock next \<le> mg_clock old then Inr m
                else Inr (bm_insert (mg_id next) next m))
           | None \<Rightarrow> Inr (bm_insert (mg_id next) next m))"

definition keyed :: "managed_record list \<Rightarrow> (string, managed_record) bmap" where
  "keyed rs = bm_of_list (map (\<lambda>r. (mg_id r, r)) rs)"

definition records_prepare ::
  "string \<Rightarrow> adapter_descriptor \<Rightarrow> managed_record list \<Rightarrow> managed_record list \<Rightarrow> u64 \<Rightarrow>
   prepared_change result" where
  "records_prepare fresh d local incoming revision =
     bindR (foldR (merge_managed (ad_id d)) (keyed local) incoming) (\<lambda>merged.
       Inr \<lparr>chg_id = fresh, chg_adapter = ad_id d, chg_expected_revision = revision,
            chg_staged = bm_values merged, chg_recovery = local\<rparr>)"

definition records_adapter :: "string \<Rightarrow> adapter_descriptor \<Rightarrow> managed_adapter" where
  "records_adapter fresh d = default_adapter d (records_prepare fresh d)"

section \<open>The envelope\<close>

record export_batch =
  eb_checkpoint :: managed_receipt
  eb_records :: "managed_record list"
  eb_full :: bool

record bootstrap_preview =
  bp_token :: string
  bp_peer :: string
  bp_fingerprint :: string
  bp_local_revision :: u64
  bp_batch :: export_batch

datatype peer_state = Waiting | Exchanging | PeerStored | UpToDate | NeedsMerge | NeedsRepair | PeerPaused

datatype session_phase = Stopped | Failed | Running | Paused

record peer =
  pr_identity :: identity
  pr_metadata :: device_metadata
  pr_fingerprint :: string
  pr_addresses :: "socket_addr list"
  pr_stored :: managed_receipt
  pr_applied :: managed_receipt
  pr_incarnation :: string
  pr_transmitted :: managed_receipt
  pr_received :: managed_receipt
  pr_processed :: managed_receipt
  pr_bootstrapped :: bool
  pr_state :: peer_state
  pr_pending :: "bootstrap_preview option"
  pr_revoked :: bool

record recovery_snapshot =
  rv_id :: string
  rv_revision :: u64
  rv_records :: "managed_record list"

record enrollment =
  er_outcome :: pairing_outcome
  er_generation :: u64

record preparation =
  pn_addresses :: "socket_addr list"
  pn_outcome :: pairing_outcome
  pn_generation :: u64

text \<open>The envelope without its journaled transaction; \<open>envelope\<close> ties the recursion.\<close>

record envelope_body =
  en_version :: u32
  en_recovery :: "recovery_snapshot list"
  en_identity :: identity
  en_metadata :: device_metadata
  en_group_key :: bytes
  en_epoch :: string
  en_revision :: u64
  en_local_revision :: u64
  en_sequences :: "(string, u64) bmap"
  en_origins :: "(string, string) bmap"
  en_peers :: "(string, peer) bmap"
  en_enrollments :: "(string, enrollment) bmap"
  en_preparations :: "(string, preparation) bmap"
  en_phase :: session_phase
  en_generation :: u64
  en_records :: "(string, managed_record) bmap"

datatype envelope = Envelope (en_body: envelope_body) (en_prepared: "prepared_transaction option")
  and prepared_transaction =
    PreparedTransaction (pt_id: string) (pt_changes: "prepared_change list") (pt_target: envelope)

definition default_receipt :: managed_receipt where
  "default_receipt = \<lparr>mr_epoch = '''', mr_sequence = 0, mr_proof = []\<rparr>"

text \<open>The configuration, with the functions of library code a session calls.\<close>

record session_config =
  cg_metadata :: device_metadata
  cg_listen :: socket_addr
  cg_advertise :: bool
  cg_adapters :: "(string, managed_adapter) bmap"
  cg_recovery_retention :: nat
  cg_catch_up :: nat
  cg_debounce :: nat
  cg_io_timeout :: nat
  cg_record_key :: "string \<Rightarrow> string \<Rightarrow> string result"
  cg_batch_size :: "export_batch \<Rightarrow> nat option"

definition max_record_bytes :: nat where
  "max_record_bytes = 64 * 1024 * 1024"

definition max_batch_bytes :: nat where
  "max_batch_bytes = 128 * 1024 * 1024"

definition max_ciphertext_bytes :: nat where
  "max_ciphertext_bytes = max_batch_bytes + 41"

definition check_adapter :: "session_config \<Rightarrow> string \<Rightarrow> unit result" where
  "check_adapter cg adapter =
     (if list_ex (\<lambda>a. ad_id a = adapter) (m_adapters (dm_manifest (cg_metadata cg))) then Inr ()
      else fail ''unknown managed adapter'')"

definition of_adapter :: "string \<Rightarrow> managed_record list \<Rightarrow> managed_record list" where
  "of_adapter a rs = filter (\<lambda>r. mg_adapter r = a) rs"

definition local_records :: "string \<Rightarrow> envelope_body \<Rightarrow> managed_record list" where
  "local_records a e = of_adapter a (bm_values (en_records e))"

section \<open>Staging and publishing\<close>

fun validate_after :: "string \<Rightarrow> string set \<Rightarrow> managed_record list \<Rightarrow> string set result" where
  "validate_after adapter ids [] = Inr ids"
| "validate_after adapter ids (r # rs) =
     (if mg_adapter r \<noteq> adapter \<or> mg_id r = [] \<or> 1024 < length (mg_id r)
         \<or> max_record_bytes < length (mg_value r) \<or> mg_id r \<in> ids
      then fail_code InvalidRecord ''invalid adapter staged record''
      else validate_after adapter (insert (mg_id r) ids) rs)"

definition validate_records ::
  "string \<Rightarrow> managed_record list \<Rightarrow> managed_record list \<Rightarrow> unit result" where
  "validate_records adapter before after =
     bindR (validate_after adapter {} after) (\<lambda>ids.
       if list_ex (\<lambda>r. mg_id r \<notin> ids) before
       then fail ''managed adapters must preserve tombstones instead of dropping records''
       else Inr ())"

fun prepare_loop ::
  "envelope_body \<Rightarrow> managed_record list \<Rightarrow> (string \<times> managed_adapter) list \<Rightarrow>
   prepared_change list result" where
  "prepare_loop e incoming [] = Inr []"
| "prepare_loop e incoming ((ident, adapter) # rest) =
     (let local = local_records ident e; inc = of_adapter ident incoming
      in if inc = [] then prepare_loop e incoming rest
         else bindR (ma_prepare adapter local inc (en_revision e)) (\<lambda>staged.
              if chg_adapter staged \<noteq> ident \<or> chg_expected_revision staged \<noteq> en_revision e
                 \<or> chg_recovery staged \<noteq> local
              then fail ''invalid adapter preparation''
              else bindR (validate_records ident local (chg_staged staged)) (\<lambda>_.
                   bindR (prepare_loop e incoming rest) (\<lambda>more. Inr (staged # more)))))"

definition prepare_records ::
  "session_config \<Rightarrow> envelope_body \<Rightarrow> managed_record list \<Rightarrow> prepared_change list result" where
  "prepare_records cg e incoming = prepare_loop e incoming (cg_adapters cg)"

definition publish_one ::
  "session_config \<Rightarrow> string option \<Rightarrow> envelope_body \<Rightarrow> managed_record \<Rightarrow> envelope_body result" where
  "publish_one cg origin e r =
     bindR (cg_record_key cg (mg_adapter r) (mg_id r)) (\<lambda>k.
       if bm_get (en_records e) k = Some r then Inr e
       else bindR (ok_or (Protocol ''revision exhausted'') (checked_inc (en_revision e))) (\<lambda>rev.
         let e1 = e\<lparr>en_revision := rev, en_records := bm_insert k r (en_records e),
                    en_sequences := bm_insert k rev (en_sequences e)\<rparr>
         in Inr (case origin of
                   Some p \<Rightarrow> e1\<lparr>en_origins := bm_insert k p (en_origins e1)\<rparr>
                 | None \<Rightarrow> e1\<lparr>en_origins := bm_remove k (en_origins e1)\<rparr>)))"

definition commit_one ::
  "session_config \<Rightarrow> u64 \<Rightarrow> prepared_change \<Rightarrow> managed_record list result" where
  "commit_one cg expected p =
     bindR (ok_or (Protocol ''adapter missing'') (bm_get (cg_adapters cg) (chg_adapter p))) (\<lambda>adapter.
     bindR (ma_commit adapter p expected) (\<lambda>records.
     bindR (validate_records (chg_adapter p) (chg_recovery p) records) (\<lambda>_. Inr records)))"

definition commit_records ::
  "session_config \<Rightarrow> envelope_body \<Rightarrow> prepared_change list \<Rightarrow> string option \<Rightarrow> envelope_body result" where
  "commit_records cg e prepared origin =
     bindR (traverseR (commit_one cg (en_revision e)) prepared) (\<lambda>results.
       foldR (publish_one cg origin) e (concat results))"

fun preview_loop ::
  "envelope_body \<Rightarrow> managed_record list \<Rightarrow> (string \<times> managed_adapter) list \<Rightarrow> unit result" where
  "preview_loop e incoming [] = Inr ()"
| "preview_loop e incoming ((ident, adapter) # rest) =
     (let local = local_records ident e
      in bindR (ma_preview adapter local (of_adapter ident incoming) (en_revision e)) (\<lambda>p.
           if chg_adapter p \<noteq> ident \<or> chg_expected_revision p \<noteq> en_revision e
              \<or> chg_recovery p \<noteq> local
           then fail ''invalid adapter preview''
           else bindR (validate_records ident local (chg_staged p)) (\<lambda>_.
                preview_loop e incoming rest)))"

definition preview_records ::
  "session_config \<Rightarrow> envelope_body \<Rightarrow> managed_record list \<Rightarrow> unit result" where
  "preview_records cg e incoming = preview_loop e incoming (cg_adapters cg)"

fun export_loop ::
  "managed_record list \<Rightarrow> (string \<times> managed_adapter) list \<Rightarrow> managed_record list result" where
  "export_loop records [] = Inr []"
| "export_loop records ((ident, adapter) # rest) =
     (let selected = of_adapter ident records
      in bindR (ma_export adapter selected) (\<lambda>result.
           if \<not> set result \<subseteq> set selected \<or> \<not> distinct (map mg_id result)
           then fail ''adapter export must preserve selected logical records''
           else bindR (export_loop records rest) (\<lambda>more. Inr (result @ more))))"

definition export_records ::
  "session_config \<Rightarrow> managed_record list \<Rightarrow> managed_record list result" where
  "export_records cg records = export_loop records (cg_adapters cg)"

definition adapter_inspections ::
  "session_config \<Rightarrow> envelope_body \<Rightarrow> (string, adapter_inspection) bmap" where
  "adapter_inspections cg e =
     map (\<lambda>(ident, a). (ident, ma_inspect a (local_records ident e) (en_revision e))) (cg_adapters cg)"

section \<open>Size limits\<close>

text \<open>\<open>session/limits.rs\<close>; the serialized size is \<open>None\<close> when serialization fails.\<close>

definition bounded_json :: "session_config \<Rightarrow> export_batch \<Rightarrow> unit result" where
  "bounded_json cg b =
     (case cg_batch_size cg b of
        Some n \<Rightarrow>
          if n \<le> max_batch_bytes then Inr ()
          else fail_code InvalidRecord ''managed exportable state exceeds 128 MiB serialized batch budget''
      | None \<Rightarrow> fail_code InvalidRecord ''managed exportable state exceeds 128 MiB serialized batch budget'')"

definition limits_batch :: "session_config \<Rightarrow> export_batch \<Rightarrow> unit result" where
  "limits_batch cg b = bounded_json cg b"

definition largest_checkpoint :: managed_receipt where
  "largest_checkpoint =
     \<lparr>mr_epoch = replicate 128 (CHR 0x00), mr_sequence = u64_max, mr_proof = replicate 32 255\<rparr>"

definition limits_state :: "session_config \<Rightarrow> envelope_body \<Rightarrow> unit result" where
  "limits_state cg e =
     (if en_epoch e = [] \<or> 128 < length (en_epoch e)
      then fail_code InvalidRecord ''invalid managed source epoch''
      else if 100000 < length (en_records e)
      then fail_code InvalidRecord ''too many managed records''
      else if list_ex (\<lambda>r. max_record_bytes < length (mg_value r) \<or> mg_id r = []
                 \<or> 1024 < length (mg_id r) \<or> 128 < length (clk_device (mg_clock r))
                 \<or> \<not> list_ex (\<lambda>a. ad_id a = mg_adapter r) (m_adapters (dm_manifest (en_metadata e))))
              (bm_values (en_records e))
      then fail_code InvalidRecord ''invalid managed record or size bound''
      else if max_batch_bytes div 4 * 3 \<le> sum_list (map (\<lambda>r. length (mg_value r)) (bm_values (en_records e)))
      then fail_code InvalidRecord ''managed bytes alone exceed exportable batch budget''
      else bounded_json cg \<lparr>eb_checkpoint = largest_checkpoint,
                            eb_records = bm_values (en_records e), eb_full = False\<rparr>)"

section \<open>The merge as a last-writer-wins store\<close>

definition managed_put :: "managed_record \<Rightarrow> (string, managed_record) bmap \<Rightarrow> (string, managed_record) bmap" where
  "managed_put r m =
     (case bm_get m (mg_id r) of
        Some old \<Rightarrow> if mg_clock r \<le> mg_clock old then m else bm_insert (mg_id r) r m
      | None \<Rightarrow> bm_insert (mg_id r) r m)"

definition managed_ok :: "(string, managed_record) bmap \<Rightarrow> bool" where
  "managed_ok m \<longleftrightarrow> bm_ok m \<and> (\<forall>k r. bm_get m k = Some r \<longrightarrow> mg_id r = k)"

interpretation managed: lww_store bm_get managed_put mg_id mg_clock managed_ok
  by unfold_locales
     (auto simp: managed_put_def managed_ok_def bm_get_insert not_le
       intro: bm_ok_insert split: option.splits if_splits)

lemma merge_managed_Inr:
  "merge_managed a m r = Inr m' \<Longrightarrow> m' = managed_put r m \<and> mg_adapter r = a \<and>
     (\<forall>old. bm_get m (mg_id r) = Some old \<longrightarrow> mg_clock old = mg_clock r \<longrightarrow> old = r)"
  by (auto simp: merge_managed_def managed_put_def split: if_splits option.splits)

lemma merge_managed_fold:
  "foldR (merge_managed a) m rs = Inr m' \<Longrightarrow>
   m' = fold managed_put rs m \<and> (\<forall>r\<in>set rs. mg_adapter r = a)"
  by (induction rs arbitrary: m) (auto dest: merge_managed_Inr)

lemma merge_managed_defined:
  assumes "\<forall>r\<in>set rs. mg_adapter r = a" and "managed_ok m"
    and "clock_determines mg_id mg_clock (set (bm_values m) \<union> set rs)"
  shows "foldR (merge_managed a) m rs = Inr (fold managed_put rs m)"
  using assms
proof (induction rs arbitrary: m)
  case (Cons r rs)
  have "old = r" if "bm_get m (mg_id r) = Some old" "mg_clock old = mg_clock r" for old
    using Cons.prems(2,3) that bm_get_in_values[OF that(1)]
    by (auto simp: managed_ok_def intro: clock_determinesD)
  then have step: "merge_managed a m r = Inr (managed_put r m)"
    using Cons.prems(1) by (auto simp: merge_managed_def managed_put_def split: option.splits)
  have ok: "managed_ok (managed_put r m)" using Cons.prems(2) managed.ok_put by blast
  have "set (bm_values (managed_put r m)) \<subseteq> insert r (set (bm_values m))"
  proof
    fix x assume "x \<in> set (bm_values (managed_put r m))"
    then obtain k where "bm_get (managed_put r m) k = Some x"
      using ok by (auto simp: managed_ok_def set_bm_values)
    then have "x = r \<or> bm_get m k = Some x"
      using managed.get_put[OF Cons.prems(2), of r k] by (auto split: if_splits)
    then show "x \<in> insert r (set (bm_values m))" using bm_get_in_values[of m k x] by auto
  qed
  then have "foldR (merge_managed a) (managed_put r m) rs = Inr (fold managed_put rs (managed_put r m))"
    using Cons.prems(1,3) ok by (intro Cons.IH) (auto intro: clock_determines_subset)
  then show ?case using step by simp
qed simp

lemma managed_ok_keyed: "managed_ok (keyed rs)"
proof -
  have "mg_id r = k" if "map_of (rev (map (\<lambda>r. (mg_id r, r)) rs)) k = Some r" for k r
    using map_of_SomeD[OF that] by auto
  then show ?thesis unfolding managed_ok_def keyed_def bm_get_of_list using bm_ok_of_list by blast
qed

lemma keyed_get:
  assumes "distinct (map mg_id rs)"
  shows "bm_get (keyed rs) k = Some r \<longleftrightarrow> r \<in> set rs \<and> mg_id r = k"
proof -
  let ?ps = "rev (map (\<lambda>r. (mg_id r, r)) rs)"
  have "distinct (map fst ?ps)" using assms by (simp add: comp_def flip: rev_map)
  then have "map_of ?ps k = Some r \<longleftrightarrow> (k, r) \<in> set ?ps" by (rule map_of_eq_Some_iff)
  then show ?thesis by (auto simp: keyed_def bm_get_of_list)
qed

section \<open>Validation and publication\<close>

lemma validate_after_Inr:
  "validate_after a ids rs = Inr ids' \<Longrightarrow>
   ids' = ids \<union> mg_id ` set rs \<and> distinct (map mg_id rs) \<and> ids \<inter> mg_id ` set rs = {} \<and>
   (\<forall>r\<in>set rs. mg_adapter r = a \<and> mg_id r \<noteq> [] \<and> length (mg_id r) \<le> 1024 \<and>
      length (mg_value r) \<le> max_record_bytes)"
proof (induction rs arbitrary: ids)
  case (Cons r rs)
  from Cons.prems have head: "mg_adapter r = a" "mg_id r \<noteq> []" "length (mg_id r) \<le> 1024"
    "length (mg_value r) \<le> max_record_bytes" "mg_id r \<notin> ids"
    and tail: "validate_after a (insert (mg_id r) ids) rs = Inr ids'"
    by (auto split: if_splits)
  from Cons.IH[OF tail] head show ?case by auto
qed simp

lemma validate_records_Inr:
  assumes "validate_records a before after = Inr u"
  shows "distinct (map mg_id after)"
    and "\<forall>r\<in>set after. mg_adapter r = a \<and> mg_id r \<noteq> [] \<and> length (mg_id r) \<le> 1024 \<and>
      length (mg_value r) \<le> max_record_bytes"
    and "mg_id ` set before \<subseteq> mg_id ` set after"
proof -
  from assms obtain ids where v: "validate_after a {} after = Inr ids"
    and k: "\<not> list_ex (\<lambda>r. mg_id r \<notin> ids) before"
    by (auto simp: validate_records_def split: if_splits)
  note w = validate_after_Inr[OF v]
  show "distinct (map mg_id after)"
    "\<forall>r\<in>set after. mg_adapter r = a \<and> mg_id r \<noteq> [] \<and> length (mg_id r) \<le> 1024 \<and>
      length (mg_value r) \<le> max_record_bytes" using w by auto
  show "mg_id ` set before \<subseteq> mg_id ` set after" using w k by (auto simp: list_ex_iff)
qed

text \<open>
  The envelope invariant: sorted maps, every record stored under its key, a sequence for
  exactly the stored keys and none beyond the revision, origins only for stored keys.
\<close>

definition body_ok :: "session_config \<Rightarrow> envelope_body \<Rightarrow> bool" where
  "body_ok cg e \<longleftrightarrow>
     bm_ok (en_records e) \<and> bm_ok (en_sequences e) \<and> bm_ok (en_origins e) \<and> bm_ok (en_peers e) \<and>
     (\<forall>k r. bm_get (en_records e) k = Some r \<longrightarrow> cg_record_key cg (mg_adapter r) (mg_id r) = Inr k) \<and>
     (\<forall>k. bm_get (en_records e) k = None \<longleftrightarrow> bm_get (en_sequences e) k = None) \<and>
     (\<forall>k n. bm_get (en_sequences e) k = Some n \<longrightarrow> n \<le> en_revision e) \<and>
     (\<forall>k. bm_get (en_records e) k = None \<longrightarrow> bm_get (en_origins e) k = None) \<and>
     (\<forall>d p. bm_get (en_peers e) d = Some p \<longrightarrow> id_device (pr_identity p) = d)"

lemma publish_one_cases:
  assumes "publish_one cg origin e r = Inr e'"
  obtains (same) k where "cg_record_key cg (mg_adapter r) (mg_id r) = Inr k"
      "bm_get (en_records e) k = Some r" "e' = e"
  | (new) k where "cg_record_key cg (mg_adapter r) (mg_id r) = Inr k"
      "bm_get (en_records e) k \<noteq> Some r" "en_revision e \<noteq> u64_max"
      "e' = e\<lparr>en_revision := en_revision e + 1, en_records := bm_insert k r (en_records e),
              en_sequences := bm_insert k (en_revision e + 1) (en_sequences e),
              en_origins := (case origin of Some p \<Rightarrow> bm_insert k p (en_origins e)
                             | None \<Rightarrow> bm_remove k (en_origins e))\<rparr>"
proof -
  from assms obtain k where k: "cg_record_key cg (mg_adapter r) (mg_id r) = Inr k"
    by (auto simp: publish_one_def)
  show ?thesis
  proof (cases "bm_get (en_records e) k = Some r")
    case True
    then show ?thesis using assms k by (intro same) (auto simp: publish_one_def)
  next
    case False
    then show ?thesis using assms k
      by (intro new[OF k]) (auto simp: publish_one_def Let_def split: option.splits)
  qed
qed

lemma body_ok_publish:
  assumes "body_ok cg e" and "publish_one cg origin e r = Inr e'"
  shows "body_ok cg e'"
  using assms(2)
proof (cases rule: publish_one_cases)
  case (new k)
  have le: "n \<le> en_revision e + 1" if "n \<le> en_revision e" for n
    using less_plus_1[OF new(3)] that by simp
  show ?thesis
    using assms(1) new(1,4) le
    by (auto simp: body_ok_def bm_get_insert bm_get_remove intro!: bm_ok_insert bm_ok_remove
        split: option.splits if_splits)
qed (use assms(1) in simp)

lemma body_ok_publish_all:
  "body_ok cg e \<Longrightarrow> foldR (publish_one cg origin) e rs = Inr e' \<Longrightarrow> body_ok cg e'"
  by (rule foldR_invariant[of "publish_one cg origin" e rs e' "body_ok cg"]) (auto intro: body_ok_publish)

lemma commit_records_Inr:
  assumes "commit_records cg e prepared origin = Inr e'"
  obtains results where "traverseR (commit_one cg (en_revision e)) prepared = Inr results"
    "foldR (publish_one cg origin) e (concat results) = Inr e'"
  using assms by (auto simp: commit_records_def)

lemma body_ok_commit: "body_ok cg e \<Longrightarrow> commit_records cg e prepared origin = Inr e' \<Longrightarrow> body_ok cg e'"
  by (elim commit_records_Inr) (rule body_ok_publish_all)

text \<open>Publication never removes a record and never lowers the revision.\<close>

lemma publish_one_grows:
  assumes "publish_one cg origin e r = Inr e'"
  shows "en_revision e \<le> en_revision e' \<and> (bm_has (en_records e) k \<longrightarrow> bm_has (en_records e') k)"
  using assms
proof (cases rule: publish_one_cases)
  case (new k')
  then show ?thesis using less_plus_1[OF new(3)] by (auto simp: bm_has_insert)
qed simp

lemma publish_all_grows:
  assumes "foldR (publish_one cg origin) e rs = Inr e'"
  shows "en_revision e \<le> en_revision e' \<and> (bm_has (en_records e) k \<longrightarrow> bm_has (en_records e') k)"
proof -
  have "(\<lambda>t. en_revision e \<le> en_revision t \<and> (bm_has (en_records e) k \<longrightarrow> bm_has (en_records t) k)) e'"
    by (rule foldR_invariant[OF assms]) (auto dest!: publish_one_grows[where k = k])
  then show ?thesis by simp
qed

text \<open>What publication leaves alone.\<close>

lemma publish_one_frame:
  assumes "publish_one cg origin e r = Inr e'"
  shows "en_peers e' = en_peers e \<and> en_identity e' = en_identity e \<and> en_metadata e' = en_metadata e \<and>
    en_epoch e' = en_epoch e \<and> en_group_key e' = en_group_key e \<and> en_phase e' = en_phase e \<and>
    en_generation e' = en_generation e \<and> en_local_revision e' = en_local_revision e \<and>
    en_recovery e' = en_recovery e \<and> en_enrollments e' = en_enrollments e \<and>
    en_preparations e' = en_preparations e"
  using assms by (cases rule: publish_one_cases) auto

lemma commit_records_frame:
  assumes "commit_records cg e prepared origin = Inr e'"
  shows "en_peers e' = en_peers e \<and> en_identity e' = en_identity e \<and> en_metadata e' = en_metadata e \<and>
    en_epoch e' = en_epoch e \<and> en_group_key e' = en_group_key e \<and> en_phase e' = en_phase e \<and>
    en_generation e' = en_generation e \<and> en_local_revision e' = en_local_revision e \<and>
    en_recovery e' = en_recovery e \<and> en_enrollments e' = en_enrollments e \<and>
    en_preparations e' = en_preparations e"
proof -
  obtain results where pub: "foldR (publish_one cg origin) e (concat results) = Inr e'"
    using assms by (elim commit_records_Inr)
  let ?P = "\<lambda>t. en_peers t = en_peers e \<and> en_identity t = en_identity e \<and> en_metadata t = en_metadata e \<and>
    en_epoch t = en_epoch e \<and> en_group_key t = en_group_key e \<and> en_phase t = en_phase e \<and>
    en_generation t = en_generation e \<and> en_local_revision t = en_local_revision e \<and>
    en_recovery t = en_recovery e \<and> en_enrollments t = en_enrollments e \<and>
    en_preparations t = en_preparations e"
  have "?P e'" by (rule foldR_invariant[OF pub]) (auto dest: publish_one_frame)
  then show ?thesis .
qed

end
