(* ===== verification/Discovery.thy ===== *)
theory Discovery
  imports Manifest Address
begin

text \<open>
  \<open>discovery.rs\<close>: what a device publishes about itself over mDNS and what it makes of what
  others publish. The mDNS daemon is a third-party crate: a browse is the list of what its
  receiver gives until the time is up, a resolved service the record of what the code reads
  of it. The contract digest of a manifest is an argument (\<open>digest\<close>). TXT properties are a
  map; their iteration order is never observed.
\<close>

datatype discovery_source = Mdns | Tailscale | StaticOverlay

record discovered_device =
  dd_identity :: identity
  dd_address :: socket_addr
  dd_source :: discovery_source

record peer_advertisement =
  pa_display_name :: string
  pa_device_kind :: string
  pa_role :: string
  pa_app_display_name :: string
  pa_schema_version :: u32
  pa_contract_digest :: string

record discovered_peer =
  dp_identity :: identity
  dp_addresses :: "socket_addr list"
  dp_advertisement :: "peer_advertisement option"
  dp_invitation :: "pairing_descriptor option"

definition ad_compatible_with ::
  "(app_manifest \<Rightarrow> string result) \<Rightarrow> peer_advertisement \<Rightarrow> app_manifest \<Rightarrow> bool result" where
  "ad_compatible_with digest ad m =
     (if pa_schema_version ad = m_schema_version m
      then bindR (digest m) (\<lambda>d. Inr (pa_contract_digest ad = d))
      else Inr False)"

section \<open>Publishing\<close>

text \<open>Discovery's own bound on a published or parsed text.\<close>

definition text_ok :: "string \<Rightarrow> bool" where
  "text_ok s = (s \<noteq> [] \<and> length s \<le> 128 \<and> \<not> has_control s)"

definition put_field ::
  "(string, string) bmap \<Rightarrow> string \<times> string \<Rightarrow> (string, string) bmap result" where
  "put_field p kv =
     (if \<not> text_ok (snd kv) then Inl (Protocol ''invalid discovery field'')
      else Inr (bm_insert (fst kv) (snd kv) p))"

definition metadata_properties ::
  "(app_manifest \<Rightarrow> string result) \<Rightarrow> identity \<Rightarrow> device_metadata \<Rightarrow> (string, string) bmap result" where
  "metadata_properties digest i d =
     bindR (metadata_validate d) (\<lambda>_.
     if id_app i \<noteq> m_app_id (dm_manifest d)
     then Inl (Protocol ''discovery manifest identity mismatch'')
     else bindR (digest (dm_manifest d)) (\<lambda>contract.
       foldR put_field []
         [(''app_id'', id_app i), (''device_id'', id_device i), (''user_id'', id_user i),
          (''name'', dm_display_name d), (''kind'', dm_device_kind d), (''role'', dm_role d),
          (''app_name'', m_display_name (dm_manifest d)),
          (''schema'', show_nat (unat (m_schema_version (dm_manifest d)))),
          (''contract'', contract), (''managed'', ''1'')]))"

definition platform_properties ::
  "(app_manifest \<Rightarrow> string result) \<Rightarrow> identity \<Rightarrow> device_metadata \<Rightarrow> pairing_descriptor option \<Rightarrow>
   (string, string) bmap result" where
  "platform_properties digest i d invitation =
     bindR (metadata_properties digest i d) (\<lambda>p.
       case invitation of
         None \<Rightarrow> Inr p
       | Some v \<Rightarrow>
           bindR (with_code v d ''000000'') (\<lambda>_. Inr
             (bm_insert ''pair_expires'' (show_nat (unat (pd_expires_at v)))
             (bm_insert ''pair_fp'' (pd_fingerprint v)
             (bm_insert ''pair_id'' (pd_id v)
             (bm_insert ''pair_version'' (show_nat (unat (pd_version v))) p))))))"

text \<open>The interfaces are what the operating system lists; a listener on all of them is
  reachable at each that is no loopback, or else at the loopback address.\<close>

definition local_ips :: "ip_addr list result \<Rightarrow> ip_addr \<Rightarrow> ip_addr list result" where
  "local_ips ifaces listen =
     (if \<not> ip_is_unspecified listen then Inr [listen]
      else bindR ifaces (\<lambda>all.
        let ips = filter (\<lambda>ip. \<not> ip_is_loopback ip) all
        in Inr (if ips = [] then [IpV4 localhost_v4] else ips)))"

record service_info =
  sv_instance :: string
  sv_host :: string
  sv_ips :: "ip_addr list"
  sv_port :: "16 word"
  sv_properties :: "(string, string) bmap"

definition managed_service ::
  "(app_manifest \<Rightarrow> string result) \<Rightarrow> ip_addr list result \<Rightarrow> identity \<Rightarrow> socket_addr \<Rightarrow>
   device_metadata \<Rightarrow> pairing_descriptor option \<Rightarrow> service_info result" where
  "managed_service digest ifaces i listen d invitation =
     bindR (platform_properties digest i d invitation) (\<lambda>p.
     bindR (local_ips ifaces (sock_ip listen)) (\<lambda>ips. Inr
       \<lparr>sv_instance = id_device i, sv_host = id_device i @ ''.local.'', sv_ips = ips,
        sv_port = sock_port listen, sv_properties = p\<rparr>))"

section \<open>Parsing\<close>

text \<open>\<open>str::parse\<close> of an unsigned integer below \<open>bound\<close>: digits after an optional plus.\<close>

fun digits_value :: "nat \<Rightarrow> string \<Rightarrow> nat option" where
  "digits_value n [] = Some n"
| "digits_value n (c # s) =
     (if is_ascii_digit c then digits_value (10 * n + (code c - 48)) s else None)"

definition parse_uint :: "nat \<Rightarrow> string \<Rightarrow> nat option" where
  "parse_uint bound s =
     (let ds = (if s \<noteq> [] \<and> hd s = CHR ''+'' then tl s else s)
      in if ds = [] then None
         else case digits_value 0 ds of
                None \<Rightarrow> None | Some n \<Rightarrow> if n < bound then Some n else None)"

text \<open>Addresses come with the interface scope of the IPv6 ones, in the daemon's set order.\<close>

datatype scoped_ip = ScopedV4 u32 | ScopedV6 "128 word" u32

fun scoped_address :: "scoped_ip \<Rightarrow> 16 word \<Rightarrow> socket_addr" where
  "scoped_address (ScopedV4 ip) port = SockV4 ip port"
| "scoped_address (ScopedV6 ip index) port = SockV6 ip port 0 index"

fun address_rank :: "scoped_ip \<Rightarrow> nat" where
  "address_rank (ScopedV4 ip) = 0"
| "address_rank (ScopedV6 ip index) = (if \<not> ip6_is_link_local ip then 1 else 2)"

record resolved_service =
  rs_fullname :: string
  rs_port :: "16 word"
  rs_addresses :: "scoped_ip list"
  rs_properties :: "(string, string) bmap"

text \<open>\<open>min_by_key\<close>: the first of the least.\<close>

fun first_least :: "('a \<Rightarrow> nat) \<Rightarrow> 'a list \<Rightarrow> 'a option" where
  "first_least f [] = None"
| "first_least f (x # xs) =
     (case first_least f xs of
        None \<Rightarrow> Some x | Some y \<Rightarrow> if f x \<le> f y then Some x else Some y)"

definition pick_address :: "resolved_service \<Rightarrow> socket_addr option" where
  "pick_address info =
     map_option (\<lambda>ip. scoped_address ip (rs_port info)) (first_least address_rank (rs_addresses info))"

definition parse_service_info :: "resolved_service \<Rightarrow> string \<Rightarrow> discovered_device option" where
  "parse_service_info info expected =
     (case bm_get (rs_properties info) ''app_id'' of
        None \<Rightarrow> None
      | Some app \<Rightarrow>
          if app \<noteq> expected then None
          else case (bm_get (rs_properties info) ''device_id'', bm_get (rs_properties info) ''user_id'',
                     pick_address info) of
                 (Some device, Some user, Some address) \<Rightarrow>
                   Some \<lparr>dd_identity = identity_new device app user, dd_address = address, dd_source = Mdns\<rparr>
               | _ \<Rightarrow> None)"

definition txt_field :: "resolved_service \<Rightarrow> string \<Rightarrow> string option" where
  "txt_field info k =
     (case bm_get (rs_properties info) k of
        None \<Rightarrow> None | Some s \<Rightarrow> if text_ok s then Some s else None)"

definition hex_field :: "nat \<Rightarrow> resolved_service \<Rightarrow> string \<Rightarrow> string option" where
  "hex_field n info k =
     (case txt_field info k of
        None \<Rightarrow> None
      | Some s \<Rightarrow> if length s = n \<and> list_all is_ascii_hexdigit s then Some s else None)"

definition uint_field :: "nat \<Rightarrow> resolved_service \<Rightarrow> string \<Rightarrow> nat option" where
  "uint_field bound info k =
     (case txt_field info k of None \<Rightarrow> None | Some s \<Rightarrow> parse_uint bound s)"

definition parse_advertisement :: "resolved_service \<Rightarrow> peer_advertisement option" where
  "parse_advertisement info =
     (case (txt_field info ''name'', txt_field info ''kind'', txt_field info ''role'',
            txt_field info ''app_name'', uint_field (2 ^ 32) info ''schema'',
            hex_field 64 info ''contract'') of
        (Some name, Some kind, Some role, Some app, Some schema, Some contract) \<Rightarrow>
          Some \<lparr>pa_display_name = name, pa_device_kind = kind, pa_role = role,
                pa_app_display_name = app, pa_schema_version = of_nat schema,
                pa_contract_digest = contract\<rparr>
      | _ \<Rightarrow> None)"

definition parse_descriptor :: "resolved_service \<Rightarrow> pairing_descriptor option" where
  "parse_descriptor info =
     (case (hex_field 32 info ''pair_id'', hex_field 64 info ''pair_fp'',
            uint_field (2 ^ 64) info ''pair_expires'') of
        (Some ident, Some fp, Some expires) \<Rightarrow>
          Some \<lparr>pd_version = (case uint_field (2 ^ 32) info ''pair_version'' of
                              None \<Rightarrow> 1 | Some v \<Rightarrow> of_nat v),
                pd_id = ident, pd_fingerprint = fp, pd_expires_at = of_nat expires\<rparr>
      | _ \<Rightarrow> None)"

definition parse_peer_info :: "resolved_service \<Rightarrow> string \<Rightarrow> discovered_peer option" where
  "parse_peer_info info app =
     (case parse_service_info info app of
        None \<Rightarrow> None
      | Some device \<Rightarrow>
          let i = dd_identity device;
              addresses = sort_dedup (map (\<lambda>ip. scoped_address ip (rs_port info)) (rs_addresses info))
          in if \<not> text_ok (id_device i) \<or> \<not> text_ok (id_app i) \<or> \<not> text_ok (id_user i) then None
             else Some \<lparr>dp_identity = i,
                        dp_addresses = (if addresses = [] then [dd_address device] else addresses),
                        dp_advertisement = parse_advertisement info,
                        dp_invitation = parse_descriptor info\<rparr>)"

section \<open>Browsing\<close>

definition merge_discovered ::
  "(string, discovered_peer) bmap \<Rightarrow> discovered_peer \<Rightarrow> (string, discovered_peer) bmap" where
  "merge_discovered peers p =
     (let device = id_device (dp_identity p) in
      if bm_has peers device
      then bm_update device (\<lambda>old. old
             \<lparr>dp_addresses := sort_dedup (dp_addresses old @ dp_addresses p),
              dp_advertisement := (if dp_advertisement p \<noteq> None then dp_advertisement p
                                   else dp_advertisement old),
              dp_invitation := dp_invitation p\<rparr>) peers
      else bm_insert device p peers)"

datatype browse_event =
    Resolved resolved_service
  | Removed string string
  | OtherEvent
  | BrowseTimeout
  | BrowseClosed string

fun browse_peers ::
  "string \<Rightarrow> browse_event list \<Rightarrow> (string, discovered_peer) bmap \<Rightarrow> (string, discovered_peer) bmap result" where
  "browse_peers app [] peers = Inr peers"
| "browse_peers app (Resolved info # rest) peers =
     browse_peers app rest
       (case parse_peer_info info app of None \<Rightarrow> peers | Some p \<Rightarrow> merge_discovered peers p)"
| "browse_peers app (BrowseClosed tx # rest) peers = Inl (Protocol tx)"
| "browse_peers app (ev # rest) peers = browse_peers app rest peers"

definition browse_mdns_metadata ::
  "browse_event list result \<Rightarrow> unit result \<Rightarrow> string \<Rightarrow> discovered_peer list result" where
  "browse_mdns_metadata opened closed app =
     bindR opened (\<lambda>events.
     bindR (browse_peers app events []) (\<lambda>peers.
     bindR closed (\<lambda>_. Inr (bm_values peers))))"

fun browse_devices ::
  "string \<Rightarrow> browse_event list \<Rightarrow> (string, discovered_device) bmap \<Rightarrow>
   (string, discovered_device) bmap result" where
  "browse_devices app [] found = Inr found"
| "browse_devices app (Resolved info # rest) found =
     browse_devices app rest
       (case parse_service_info info app of
          None \<Rightarrow> found | Some d \<Rightarrow> bm_insert (id_device (dd_identity d)) d found)"
| "browse_devices app (BrowseClosed tx # rest) found = Inl (Protocol tx)"
| "browse_devices app (ev # rest) found = browse_devices app rest found"

definition browse_mdns ::
  "browse_event list result \<Rightarrow> unit result \<Rightarrow> string \<Rightarrow> discovered_device list result" where
  "browse_mdns opened closed app =
     bindR opened (\<lambda>events.
     bindR (browse_devices app events []) (\<lambda>found.
     bindR closed (\<lambda>_. Inr (bm_values found))))"

definition or_insert_device ::
  "discovered_device \<Rightarrow> (socket_addr, discovered_device) bmap \<Rightarrow> (socket_addr, discovered_device) bmap" where
  "or_insert_device d m = (if bm_has m (dd_address d) then m else bm_insert (dd_address d) d m)"

text \<open>mDNS results win over overlay results at the same address; mDNS may fail if an overlay answers.\<close>

definition discover_devices ::
  "browse_event list result \<Rightarrow> unit result \<Rightarrow> discovered_device list \<Rightarrow> string \<Rightarrow>
   discovered_device list result" where
  "discover_devices opened closed overlays app =
     (let (found, failed) =
        (case browse_mdns opened closed app of
           Inr ds \<Rightarrow> (fold (\<lambda>d. bm_insert (dd_address d) d) ds [], None)
         | Inl err \<Rightarrow> ([], Some err));
          devices = fold or_insert_device overlays found
      in case (devices, failed) of
           ([], Some err) \<Rightarrow> Inl err
         | _ \<Rightarrow> Inr (bm_values devices))"


section \<open>What is published parses back\<close>

lemma digits_value_append:
  "digits_value n (s @ t) = (case digits_value n s of None \<Rightarrow> None | Some m \<Rightarrow> digits_value m t)"
  by (induction s arbitrary: n) auto

lemma digits_value_show: "digits_value 0 (show_nat n) = Some n"
proof (induction n rule: show_nat.induct)
  case (1 n)
  have d: "is_ascii_digit (digit (k mod 10))" for k
    by (simp add: is_ascii_digit_def code_digit)
  show ?case
  proof (cases "n < 10")
    case True
    then have "code (digit n) = 48 + n" using code_digit[of n] by simp
    then show ?thesis using True d[of n] by (simp add: show_nat.simps[of n])
  next
    case False
    then show ?thesis
      using 1 d[of n] by (simp add: show_nat.simps[of n] digits_value_append code_digit)
  qed
qed

lemma show_nat_neq_Nil [simp]: "show_nat n \<noteq> []"
  by (subst show_nat.simps) simp

lemma show_nat_digits: "list_all is_ascii_digit (show_nat n)"
proof (induction n rule: show_nat.induct)
  case (1 n)
  have d: "is_ascii_digit (digit (k mod 10))" for k
    by (simp add: is_ascii_digit_def code_digit)
  show ?case using 1 d[of n] by (subst show_nat.simps) auto
qed

lemma length_show_nat: "n < 10 ^ k \<Longrightarrow> 0 < k \<Longrightarrow> length (show_nat n) \<le> k"
proof (induction k arbitrary: n)
  case (Suc k)
  show ?case
  proof (cases "n < 10")
    case False
    with Suc.prems(1) have "k \<noteq> 0" by (intro notI) simp
    moreover have "n div 10 < 10 ^ k" using Suc.prems(1) by (simp add: less_mult_imp_div_less mult.commute)
    ultimately have "length (show_nat (n div 10)) \<le> k" using Suc.IH by blast
    then show ?thesis using False by (subst show_nat.simps) simp
  qed (subst show_nat.simps, simp)
qed simp

lemma parse_show: "n < bound \<Longrightarrow> parse_uint bound (show_nat n) = Some n"
proof -
  obtain c s where cs: "show_nat n = c # s" by (cases "show_nat n") simp_all
  then have "c \<noteq> CHR ''+''" using show_nat_digits[of n] by (auto simp: is_ascii_digit_def)
  then show "n < bound \<Longrightarrow> parse_uint bound (show_nat n) = Some n"
    using digits_value_show[of n] cs by (simp add: parse_uint_def)
qed

lemma has_control_plain: "\<forall>c\<in>set s. 32 \<le> code c \<and> code c < 127 \<Longrightarrow> \<not> has_control s"
  by (induction s rule: has_control.induct) fastforce+

lemma text_ok_digits: "list_all is_ascii_digit s \<Longrightarrow> s \<noteq> [] \<Longrightarrow> length s \<le> 128 \<Longrightarrow> text_ok s"
  unfolding text_ok_def by (intro conjI has_control_plain) (auto simp: list_all_iff is_ascii_digit_def)

lemma text_ok_hex: "list_all is_ascii_hexdigit s \<Longrightarrow> s \<noteq> [] \<Longrightarrow> length s \<le> 128 \<Longrightarrow> text_ok s"
  unfolding text_ok_def
  by (intro conjI has_control_plain)
     (auto simp: list_all_iff is_ascii_hexdigit_def hex_value_def split: if_splits)

lemma text_ok_show: "n < 2 ^ 64 \<Longrightarrow> text_ok (show_nat n)"
  using length_show_nat[of n 20] show_nat_digits[of n] by (intro text_ok_digits) simp_all


definition digest_ok :: "(app_manifest \<Rightarrow> string result) \<Rightarrow> bool" where
  "digest_ok digest \<longleftrightarrow>
     (\<forall>m d. digest m = Inr d \<longrightarrow> length d = 64 \<and> list_all is_ascii_hexdigit d)"

lemma put_field_Inr: "put_field p kv = Inr q \<longleftrightarrow> text_ok (snd kv) \<and> q = bm_insert (fst kv) (snd kv) p"
  by (auto simp: put_field_def)

lemma metadata_properties_get:
  assumes "metadata_properties digest i d = Inr p"
  obtains c where "digest (dm_manifest d) = Inr c" "id_app i = m_app_id (dm_manifest d)"
    "text_ok (id_app i)" "text_ok (id_device i)" "text_ok (id_user i)" "text_ok (dm_display_name d)"
    "text_ok (dm_device_kind d)" "text_ok (dm_role d)" "text_ok (m_display_name (dm_manifest d))"
    "bm_get p = [''app_id'' \<mapsto> id_app i, ''device_id'' \<mapsto> id_device i, ''user_id'' \<mapsto> id_user i,
       ''name'' \<mapsto> dm_display_name d, ''kind'' \<mapsto> dm_device_kind d, ''role'' \<mapsto> dm_role d,
       ''app_name'' \<mapsto> m_display_name (dm_manifest d),
       ''schema'' \<mapsto> show_nat (unat (m_schema_version (dm_manifest d))),
       ''contract'' \<mapsto> c, ''managed'' \<mapsto> ''1'']"
proof -
  from assms obtain c where c: "digest (dm_manifest d) = Inr c" "id_app i = m_app_id (dm_manifest d)"
    "foldR put_field []
         [(''app_id'', id_app i), (''device_id'', id_device i), (''user_id'', id_user i),
          (''name'', dm_display_name d), (''kind'', dm_device_kind d), (''role'', dm_role d),
          (''app_name'', m_display_name (dm_manifest d)),
          (''schema'', show_nat (unat (m_schema_version (dm_manifest d)))),
          (''contract'', c), (''managed'', ''1'')] = Inr p"
    by (auto simp: metadata_properties_def split: if_splits)
  show thesis
    by (rule that[OF c(1,2)]) (use c(3) in \<open>simp_all only: foldR.simps bindR_Inr put_field_Inr fst_conv snd_conv sum.inject\<close>,
        auto simp: bm_get_insert)
qed


lemma platform_properties_get:
  assumes "platform_properties digest i d invitation = Inr p"
  obtains q where "metadata_properties digest i d = Inr q"
    "bm_get p = (case invitation of None \<Rightarrow> bm_get q | Some v \<Rightarrow> (bm_get q)
       (''pair_version'' \<mapsto> show_nat (unat (pd_version v)), ''pair_id'' \<mapsto> pd_id v,
        ''pair_fp'' \<mapsto> pd_fingerprint v, ''pair_expires'' \<mapsto> show_nat (unat (pd_expires_at v))))"
    "\<forall>v. invitation = Some v \<longrightarrow> length (pd_id v) = 32 \<and> list_all is_ascii_hexdigit (pd_id v) \<and>
       length (pd_fingerprint v) = 64 \<and> list_all is_ascii_hexdigit (pd_fingerprint v)"
proof -
  obtain q where q: "metadata_properties digest i d = Inr q"
    using assms by (auto simp: platform_properties_def)
  show thesis
  proof (rule that[OF q])
    show "bm_get p = (case invitation of None \<Rightarrow> bm_get q | Some v \<Rightarrow> (bm_get q)
       (''pair_version'' \<mapsto> show_nat (unat (pd_version v)), ''pair_id'' \<mapsto> pd_id v,
        ''pair_fp'' \<mapsto> pd_fingerprint v, ''pair_expires'' \<mapsto> show_nat (unat (pd_expires_at v))))"
      using assms q by (auto simp: platform_properties_def bm_get_insert split: option.splits)
  next
    show "\<forall>v. invitation = Some v \<longrightarrow> length (pd_id v) = 32 \<and> list_all is_ascii_hexdigit (pd_id v) \<and>
       length (pd_fingerprint v) = 64 \<and> list_all is_ascii_hexdigit (pd_fingerprint v)"
      using assms q by (auto simp: platform_properties_def with_code_def inv_validate_def Let_def split: if_splits)
  qed
qed

lemma unat_32: "unat (v :: u32) < 2 ^ 32" "unat (v :: u32) < 2 ^ 64"
proof -
  have "unat v < 2 ^ LENGTH(32)" by (rule unsigned_less)
  then show "unat (v :: u32) < 2 ^ 32" "unat (v :: u32) < 2 ^ 64" by simp_all
qed

lemma unat_64: "unat (v :: u64) < 2 ^ 64"
  using unat_u64_bound[of v] by simp

lemma txt_field_Some: "bm_get (rs_properties info) k = Some s \<Longrightarrow> text_ok s \<Longrightarrow> txt_field info k = Some s"
  by (simp add: txt_field_def)

lemma hex_field_Some:
  "bm_get (rs_properties info) k = Some s \<Longrightarrow> length s = n \<Longrightarrow> list_all is_ascii_hexdigit s \<Longrightarrow>
   0 < n \<Longrightarrow> n \<le> 128 \<Longrightarrow> hex_field n info k = Some s"
  using text_ok_hex[of s] by (auto simp: hex_field_def txt_field_def)

lemma uint_field_Some:
  "bm_get (rs_properties info) k = Some (show_nat n) \<Longrightarrow> n < bound \<Longrightarrow> n < 2 ^ 64 \<Longrightarrow>
   uint_field bound info k = Some n"
  by (simp add: uint_field_def txt_field_def text_ok_show parse_show)

lemma published_advertisement:
  assumes "digest_ok digest" and "platform_properties digest i d invitation = Inr (rs_properties info)"
  shows "\<exists>c. digest (dm_manifest d) = Inr c \<and> parse_advertisement info = Some
    \<lparr>pa_display_name = dm_display_name d, pa_device_kind = dm_device_kind d, pa_role = dm_role d,
     pa_app_display_name = m_display_name (dm_manifest d),
     pa_schema_version = m_schema_version (dm_manifest d), pa_contract_digest = c\<rparr>"
proof -
  obtain q where q: "metadata_properties digest i d = Inr q"
    and p: "bm_get (rs_properties info) = (case invitation of None \<Rightarrow> bm_get q | Some v \<Rightarrow> (bm_get q)
       (''pair_version'' \<mapsto> show_nat (unat (pd_version v)), ''pair_id'' \<mapsto> pd_id v,
        ''pair_fp'' \<mapsto> pd_fingerprint v, ''pair_expires'' \<mapsto> show_nat (unat (pd_expires_at v))))"
    using assms(2) by (rule platform_properties_get)
  obtain c where c: "digest (dm_manifest d) = Inr c" "text_ok (dm_display_name d)" "text_ok (dm_device_kind d)"
      "text_ok (dm_role d)" "text_ok (m_display_name (dm_manifest d))"
    and g: "bm_get q = [''app_id'' \<mapsto> id_app i, ''device_id'' \<mapsto> id_device i, ''user_id'' \<mapsto> id_user i,
       ''name'' \<mapsto> dm_display_name d, ''kind'' \<mapsto> dm_device_kind d, ''role'' \<mapsto> dm_role d,
       ''app_name'' \<mapsto> m_display_name (dm_manifest d),
       ''schema'' \<mapsto> show_nat (unat (m_schema_version (dm_manifest d))),
       ''contract'' \<mapsto> c, ''managed'' \<mapsto> ''1'']"
    using q by (rule metadata_properties_get)
  have get: "bm_get (rs_properties info) ''name'' = Some (dm_display_name d)"
    "bm_get (rs_properties info) ''kind'' = Some (dm_device_kind d)"
    "bm_get (rs_properties info) ''role'' = Some (dm_role d)"
    "bm_get (rs_properties info) ''app_name'' = Some (m_display_name (dm_manifest d))"
    "bm_get (rs_properties info) ''schema'' = Some (show_nat (unat (m_schema_version (dm_manifest d))))"
    "bm_get (rs_properties info) ''contract'' = Some c"
    by (simp_all add: p g split: option.split)
  have hex: "length c = 64" "list_all is_ascii_hexdigit c"
    using assms(1) c(1) by (auto simp: digest_ok_def)
  have schema: "uint_field (2 ^ 32) info ''schema'' = Some (unat (m_schema_version (dm_manifest d)))"
    by (rule uint_field_Some[OF get(5)]) (rule unat_32)+
  show ?thesis
    using c(1-5) get hex_field_Some[OF get(6) hex]
    by (simp add: parse_advertisement_def txt_field_Some schema[simplified])
qed

lemma published_descriptor:
  assumes "platform_properties digest i d invitation = Inr (rs_properties info)"
  shows "parse_descriptor info = invitation"
proof -
  obtain q where q: "metadata_properties digest i d = Inr q"
    and p: "bm_get (rs_properties info) = (case invitation of None \<Rightarrow> bm_get q | Some v \<Rightarrow> (bm_get q)
       (''pair_version'' \<mapsto> show_nat (unat (pd_version v)), ''pair_id'' \<mapsto> pd_id v,
        ''pair_fp'' \<mapsto> pd_fingerprint v, ''pair_expires'' \<mapsto> show_nat (unat (pd_expires_at v))))"
    and v: "\<forall>v. invitation = Some v \<longrightarrow> length (pd_id v) = 32 \<and> list_all is_ascii_hexdigit (pd_id v) \<and>
       length (pd_fingerprint v) = 64 \<and> list_all is_ascii_hexdigit (pd_fingerprint v)"
    using assms by (rule platform_properties_get)
  obtain c where g: "bm_get q = [''app_id'' \<mapsto> id_app i, ''device_id'' \<mapsto> id_device i, ''user_id'' \<mapsto> id_user i,
       ''name'' \<mapsto> dm_display_name d, ''kind'' \<mapsto> dm_device_kind d, ''role'' \<mapsto> dm_role d,
       ''app_name'' \<mapsto> m_display_name (dm_manifest d),
       ''schema'' \<mapsto> show_nat (unat (m_schema_version (dm_manifest d))),
       ''contract'' \<mapsto> c, ''managed'' \<mapsto> ''1'']"
    using q by (rule metadata_properties_get)
  show ?thesis
  proof (cases invitation)
    case None
    then show ?thesis by (simp add: parse_descriptor_def hex_field_def txt_field_def p g)
  next
    case (Some v)
    have get: "bm_get (rs_properties info) ''pair_version'' = Some (show_nat (unat (pd_version v)))"
      "bm_get (rs_properties info) ''pair_id'' = Some (pd_id v)"
      "bm_get (rs_properties info) ''pair_fp'' = Some (pd_fingerprint v)"
      "bm_get (rs_properties info) ''pair_expires'' = Some (show_nat (unat (pd_expires_at v)))"
      by (simp_all add: p Some)
    have "uint_field (2 ^ 32) info ''pair_version'' = Some (unat (pd_version v))"
      by (rule uint_field_Some[OF get(1)]) (rule unat_32)+
    note nums = this[simplified] uint_field_Some[OF get(4) unat_64 unat_64, simplified]
    have "hex_field 32 info ''pair_id'' = Some (pd_id v)" "hex_field 64 info ''pair_fp'' = Some (pd_fingerprint v)"
      using hex_field_Some[OF get(2)] hex_field_Some[OF get(3)] v Some
      by simp_all
    then show ?thesis by (simp add: parse_descriptor_def Some nums)
  qed
qed

end
