(* ===== verification/Session_Store.thy ===== *)
theory Session_Store
  imports Managed_Records Pairing_Manager Discovery
begin

text \<open>
  \<open>session/mod.rs\<close>: durable mutation of the envelope. \<open>mutate\<close> runs an operation on a copy,
  journals a transaction when records change, saves, and only then publishes the copy. The
  world holds the envelope in memory and on disk, and the coming outcomes of
  \<open>store::save\<close>, which can fail before its rename (the disk keeps the old envelope) or
  after it (the disk has the new one and the caller still sees an error).
  \<open>sn_published\<close> logs the services handed to the mDNS daemon, \<open>sn_publish_faults\<close> the coming
  outcomes of doing so.
  Mutexes are not poisoned in this model: no modelled operation panics under a lock.
\<close>

datatype diagnostic_action =
    NoAction | CheckPermissions | Retry | RepairPeer | ReviewMerge | GrantPermission
  | CheckSecureStorage | ReviewCompatibility | ReviewRecords | ResolveGroupConflict
  | ReviewConfiguration | WaitAction

datatype permission_state = Allowed | Denied | UnknownPermission

datatype diagnostic_evidence =
    UnknownEvidence | ManagedFailure session_error_code | CommitUncertain | NetworkError
  | CertificateMismatch | Platform string string permission_state | BootstrapRequired

datatype session_event =
    Changed
  | Diagnostic "string option" string diagnostic_action diagnostic_evidence

datatype save_outcome = SaveOk | SaveFailed error | SaveUncertain error

text \<open>A started runtime: its listening address, and whether an mDNS advertiser runs.\<close>

record session_runtime =
  rt_address :: socket_addr
  rt_advertiser :: bool

record session_world =
  sn_envelope :: envelope
  sn_disk :: envelope
  sn_uncertain :: bool
  sn_saves :: "save_outcome list"
  sn_events :: "session_event list"
  sn_diagnostics :: "session_event list"
  sn_woken :: bool
  sn_pairing :: pairing_manager
  sn_invitation :: "pairing_descriptor option"
  sn_runtime :: "session_runtime option"
  sn_discovered :: "(string, discovered_peer) bmap"
  sn_active :: "string set"
  sn_published :: "service_info list"
  sn_publish_faults :: "error option list"

fun is_diagnostic :: "session_event \<Rightarrow> bool" where
  "is_diagnostic Changed = False"
| "is_diagnostic (Diagnostic p m a ev) = True"

definition emit :: "session_event \<Rightarrow> session_world \<Rightarrow> session_world" where
  "emit ev w =
     (let w1 = (if is_diagnostic ev
                then w\<lparr>sn_diagnostics :=
                       (if 128 \<le> length (sn_diagnostics w) then tl (sn_diagnostics w)
                        else sn_diagnostics w) @ [ev]\<rparr>
                else w)
      in w1\<lparr>sn_events := sn_events w1 @ [ev]\<rparr>)"

definition wake :: "session_world \<Rightarrow> session_world" where
  "wake w = w\<lparr>sn_woken := True\<rparr>"

fun code_action :: "session_error_code \<Rightarrow> diagnostic_action" where
  "code_action StorageUnavailable = CheckSecureStorage"
| "code_action IncompatibleSchema = ReviewCompatibility"
| "code_action InvalidRecord = ReviewRecords"
| "code_action InvalidConfiguration = ReviewConfiguration"
| "code_action InvalidAdapter = ReviewConfiguration"
| "code_action InvalidOperation = ReviewConfiguration"
| "code_action GroupConflict = ResolveGroupConflict"
| "code_action StaleBootstrap = ReviewMerge"
| "code_action PeerRevoked = RepairPeer"
| "code_action Busy = WaitAction"
| "code_action StorageCommitUncertain = CheckSecureStorage"

definition diagnostic :: "string option \<Rightarrow> error \<Rightarrow> session_world \<Rightarrow> session_world" where
  "diagnostic p err w =
     (let (action, evidence) =
        (if sn_uncertain w then (CheckSecureStorage, CommitUncertain)
         else case err of
                FingerprintMismatch _ _ _ \<Rightarrow> (RepairPeer, CertificateMismatch)
              | Managed c m \<Rightarrow>
                  if c = StorageCommitUncertain then (CheckSecureStorage, CommitUncertain)
                  else (code_action c, ManagedFailure c)
              | Cancelled \<Rightarrow> (NoAction, UnknownEvidence)
              | _ \<Rightarrow> (Retry, UnknownEvidence))
      in emit (Diagnostic p (error_display err) action evidence) w)"

fun permission_debug :: "permission_state \<Rightarrow> string" where
  "permission_debug Allowed = ''Allowed''"
| "permission_debug Denied = ''Denied''"
| "permission_debug UnknownPermission = ''Unknown''"

definition report_platform_evidence ::
  "string \<Rightarrow> string \<Rightarrow> permission_state \<Rightarrow> session_world \<Rightarrow> session_world" where
  "report_platform_evidence platform permission st w =
     emit (Diagnostic None (permission @ '': '' @ permission_debug st)
       (case st of Allowed \<Rightarrow> NoAction | Denied \<Rightarrow> GrantPermission
        | UnknownPermission \<Rightarrow> CheckPermissions)
       (Platform platform permission st)) w"

definition notify_local_change :: "session_world \<Rightarrow> session_world" where
  "notify_local_change w = emit Changed (wake w)"

definition save_candidate :: "envelope \<Rightarrow> session_world \<Rightarrow> unit result \<times> session_world" where
  "save_candidate e w =
     (let uncertain = (\<lambda>err w. emit (Diagnostic None
              (''Storage commit outcome uncertain: '' @ error_display err @
               ''; close and reopen for recovery'') CheckSecureStorage CommitUncertain)
              (w\<lparr>sn_uncertain := True\<rparr>))
      in case sn_saves w of
           SaveFailed err # rest \<Rightarrow> (Inl err, uncertain err (w\<lparr>sn_saves := rest\<rparr>))
         | SaveUncertain err # rest \<Rightarrow>
             (Inl err, uncertain err (w\<lparr>sn_saves := rest, sn_disk := e\<rparr>))
         | _ \<Rightarrow> (Inr (), w\<lparr>sn_saves := drop 1 (sn_saves w), sn_disk := e\<rparr>))"

section \<open>Recovery of a journaled transaction\<close>

definition recover_change ::
  "session_config \<Rightarrow> envelope_body \<Rightarrow> envelope_body \<Rightarrow> prepared_change \<Rightarrow> unit result" where
  "recover_change cg current target change =
     (if chg_expected_revision change \<noteq> en_revision current
      then fail ''recovery revision mismatch''
      else bindR (ok_or (Protocol ''recovery adapter absent'') (bm_get (cg_adapters cg) (chg_adapter change)))
             (\<lambda>adapter.
           bindR (ma_recover adapter change) (\<lambda>recovered.
             if recovered \<noteq> local_records (chg_adapter change) target
             then fail ''adapter recovery did not reproduce committed candidate''
             else Inr ())))"

definition recover_transaction ::
  "session_config \<Rightarrow> envelope \<Rightarrow> prepared_transaction \<Rightarrow> unit result" where
  "recover_transaction cg current prepared =
     (let target = pt_target prepared in
      bindR (limits_state cg (en_body target)) (\<lambda>_.
        if en_prepared target \<noteq> None \<or> en_identity (en_body target) \<noteq> en_identity (en_body current)
           \<or> pt_id prepared = []
        then fail ''invalid prepared transaction journal''
        else foldR (\<lambda>_ change. recover_change cg (en_body current) (en_body target) change) ()
               (pt_changes prepared)))"

section \<open>\<open>mutate\<close>\<close>

text \<open>Whether some peer of \<open>current\<close> becomes bootstrapped in \<open>candidate\<close>.\<close>

definition newly_bootstrapped :: "envelope_body \<Rightarrow> envelope_body \<Rightarrow> bool" where
  "newly_bootstrapped current candidate =
     list_ex (\<lambda>p. \<not> pr_bootstrapped p \<and>
         (case bm_get (en_peers candidate) (id_device (pr_identity p)) of
            None \<Rightarrow> False | Some next \<Rightarrow> pr_bootstrapped next))
       (bm_values (en_peers current))"

definition keep_recovery ::
  "session_config \<Rightarrow> string \<Rightarrow> envelope_body \<Rightarrow> envelope_body \<Rightarrow> envelope_body" where
  "keep_recovery cg fresh current candidate =
     (let pushed =
        (if newly_bootstrapped current candidate \<and> en_records current \<noteq> []
         then en_recovery candidate @
                [\<lparr>rv_id = fresh, rv_revision = en_revision current,
                  rv_records = bm_values (en_records current)\<rparr>]
         else en_recovery candidate)
      in candidate\<lparr>en_recovery := drop (length pushed - cg_recovery_retention cg) pushed\<rparr>)"

definition journal_changes ::
  "session_config \<Rightarrow> string \<Rightarrow> envelope_body \<Rightarrow> envelope_body \<Rightarrow> prepared_change list" where
  "journal_changes cg fresh current candidate =
     map (\<lambda>a. \<lparr>chg_id = fresh, chg_adapter = a, chg_expected_revision = en_revision current,
              chg_staged = local_records a candidate, chg_recovery = local_records a current\<rparr>)
       (filter (\<lambda>a. local_records a current \<noteq> local_records a candidate) (bm_keys (cg_adapters cg)))"

definition publish :: "envelope \<Rightarrow> session_world \<Rightarrow> session_world" where
  "publish e w = w\<lparr>sn_envelope := e\<rparr>"

definition settle :: "session_config \<Rightarrow> session_world \<Rightarrow> unit result \<times> session_world" where
  "settle cg w =
     (case en_prepared (sn_envelope w) of
        None \<Rightarrow> (Inr (), w)
      | Some prepared \<Rightarrow>
          (case recover_transaction cg (sn_envelope w) prepared of
             Inl err \<Rightarrow> (Inl err, w)
           | Inr _ \<Rightarrow>
               bindS (save_candidate (pt_target prepared) w) (\<lambda>_ w.
                 (Inr (), publish (pt_target prepared) w))))"

definition commit_candidate ::
  "session_config \<Rightarrow> string \<Rightarrow> envelope_body \<Rightarrow> session_world \<Rightarrow> unit result \<times> session_world" where
  "commit_candidate cg fresh candidate w =
     (let current = sn_envelope w in
      if Envelope candidate (en_prepared current) = current then (Inr (), w)
      else if en_records candidate \<noteq> en_records (en_body current) then
        (case limits_state cg candidate of
           Inl err \<Rightarrow> (Inl err, w)
         | Inr _ \<Rightarrow>
             let kept = keep_recovery cg fresh (en_body current) candidate;
                 target = Envelope kept (en_prepared current);
                 prepared = PreparedTransaction fresh
                   (journal_changes cg fresh (en_body current) kept) target;
                 journal = Envelope (en_body current) (Some prepared)
             in bindS (save_candidate journal w) (\<lambda>_ w.
                bindS (save_candidate target (publish journal w)) (\<lambda>_ w.
                  (Inr (), emit Changed (publish target w)))))
      else
        let target = Envelope candidate (en_prepared current)
        in bindS (save_candidate target w) (\<lambda>_ w.
             (Inr (), emit Changed (publish target w))))"

definition mutate ::
  "session_config \<Rightarrow> string \<Rightarrow> (envelope_body \<Rightarrow> ('r \<times> envelope_body) result) \<Rightarrow> session_world \<Rightarrow>
   'r result \<times> session_world" where
  "mutate cg fresh operation w =
     (if sn_uncertain w then
        (fail_code StorageCommitUncertain
           ''storage commit outcome uncertain; close and reopen session for recovery'', w)
      else bindS (settle cg w) (\<lambda>_ w.
        case operation (en_body (sn_envelope w)) of
          Inl err \<Rightarrow> (Inl err, w)
        | Inr (r, candidate) \<Rightarrow>
            bindS (commit_candidate cg fresh candidate w) (\<lambda>_ w. (Inr r, w))))"

section \<open>Local operations\<close>

definition max_counter :: "managed_record list \<Rightarrow> u64" where
  "max_counter rs = fold (\<lambda>r m. max m (clk_counter (mg_clock r))) rs 0"

definition write_op ::
  "session_config \<Rightarrow> string \<Rightarrow> string \<Rightarrow> bytes \<Rightarrow> bool \<Rightarrow> envelope_body \<Rightarrow> (unit \<times> envelope_body) result" where
  "write_op cg adapter ident value deleted e =
     bindR (ok_or (Protocol ''clock exhausted'') (checked_inc (max_counter (bm_values (en_records e)))))
       (\<lambda>counter.
     let incoming = \<lparr>mg_adapter = adapter, mg_id = ident, mg_value = value, mg_deleted = deleted,
                     mg_clock = LamportClock counter (id_device (en_identity e))\<rparr>
     in bindR (prepare_records cg e [incoming]) (\<lambda>prepared.
        bindR (commit_records cg e prepared None) (\<lambda>e1.
        bindR (ok_or (Protocol ''local revision exhausted'') (checked_inc (en_local_revision e1)))
          (\<lambda>rev. Inr ((), e1\<lparr>en_local_revision := rev\<rparr>)))))"

definition session_write ::
  "session_config \<Rightarrow> string \<Rightarrow> string \<Rightarrow> string \<Rightarrow> bytes \<Rightarrow> bool \<Rightarrow> session_world \<Rightarrow>
   unit result \<times> session_world" where
  "session_write cg fresh adapter ident value deleted w =
     (case check_adapter cg adapter of
        Inl err \<Rightarrow> (Inl err, w)
      | Inr _ \<Rightarrow>
          if ident = [] \<or> 1024 < length ident \<or> max_record_bytes < length value
          then (fail_code InvalidRecord ''invalid managed record size'', w)
          else case mutate cg fresh (write_op cg adapter ident value deleted) w of
                 (Inl err, w') \<Rightarrow> (Inl err, w')
               | (Inr u, w') \<Rightarrow> (Inr u, wake w'))"

definition session_set ::
  "session_config \<Rightarrow> string \<Rightarrow> string \<Rightarrow> string \<Rightarrow> bytes \<Rightarrow> session_world \<Rightarrow> unit result \<times> session_world" where
  "session_set cg fresh adapter ident value = session_write cg fresh adapter ident value False"

definition session_delete ::
  "session_config \<Rightarrow> string \<Rightarrow> string \<Rightarrow> string \<Rightarrow> session_world \<Rightarrow> unit result \<times> session_world" where
  "session_delete cg fresh adapter ident = session_write cg fresh adapter ident [] True"

definition session_get ::
  "session_config \<Rightarrow> string \<Rightarrow> string \<Rightarrow> session_world \<Rightarrow> bytes option result" where
  "session_get cg adapter ident w =
     bindR (check_adapter cg adapter) (\<lambda>_.
     bindR (cg_record_key cg adapter ident) (\<lambda>k.
       Inr (case bm_get (en_records (en_body (sn_envelope w))) k of
              None \<Rightarrow> None
            | Some r \<Rightarrow> if mg_deleted r then None else Some (mg_value r))))"

definition session_records ::
  "session_config \<Rightarrow> string \<Rightarrow> session_world \<Rightarrow> managed_record list result" where
  "session_records cg adapter w =
     bindR (check_adapter cg adapter) (\<lambda>_. Inr (local_records adapter (en_body (sn_envelope w))))"

definition import_op ::
  "session_config \<Rightarrow> managed_record list \<Rightarrow> envelope_body \<Rightarrow> (unit \<times> envelope_body) result" where
  "import_op cg records e =
     bindR (prepare_records cg e records) (\<lambda>prepared.
     bindR (commit_records cg e prepared None) (\<lambda>e1.
       if en_revision e1 \<noteq> en_revision e
       then bindR (ok_or (Protocol ''local revision exhausted'') (checked_inc (en_local_revision e1)))
              (\<lambda>rev. Inr ((), e1\<lparr>en_local_revision := rev\<rparr>))
       else Inr ((), e1)))"

definition import_records ::
  "session_config \<Rightarrow> string \<Rightarrow> managed_record list \<Rightarrow> session_world \<Rightarrow> unit result \<times> session_world" where
  "import_records cg fresh records w =
     (case bindR (foldR (\<lambda>_ r. check_adapter cg (mg_adapter r)) () records) (\<lambda>_.
            limits_batch cg \<lparr>eb_checkpoint = default_receipt, eb_records = records, eb_full = False\<rparr>) of
        Inl err \<Rightarrow> (Inl err, w)
      | Inr _ \<Rightarrow>
          (case mutate cg fresh (import_op cg records) w of
             (Inl err, w') \<Rightarrow> (Inl err, w')
           | (Inr u, w') \<Rightarrow> (Inr u, wake w')))"

definition recovery_snapshots :: "session_world \<Rightarrow> recovery_snapshot list" where
  "recovery_snapshots w = en_recovery (en_body (sn_envelope w))"

definition recovery_snapshot_sizes :: "session_world \<Rightarrow> (string \<times> u64 \<times> nat) list" where
  "recovery_snapshot_sizes w =
     map (\<lambda>s. (rv_id s, rv_revision s, length (rv_records s))) (recovery_snapshots w)"

definition prune_recovery_snapshots ::
  "session_config \<Rightarrow> string \<Rightarrow> nat \<Rightarrow> session_world \<Rightarrow> unit result \<times> session_world" where
  "prune_recovery_snapshots cg fresh retain w =
     mutate cg fresh (\<lambda>e. Inr ((),
       e\<lparr>en_recovery := drop (length (en_recovery e) - retain) (en_recovery e)\<rparr>)) w"

section \<open>The application inbox\<close>

record application_inbox =
  ib_revision :: u64
  ib_records :: "managed_record list"
  ib_receipts :: "(string, managed_receipt) bmap"

definition application_inbox_of :: "session_world \<Rightarrow> application_inbox" where
  "application_inbox_of w =
     (let e = en_body (sn_envelope w) in
      \<lparr>ib_revision = en_revision e, ib_records = bm_values (en_records e),
       ib_receipts =
         map (\<lambda>(ident, p). (ident, pr_received p))
           (filter (\<lambda>(_, p). \<not> pr_revoked p \<and> mr_epoch (pr_received p) \<noteq> '''') (en_peers e))\<rparr>)"

text \<open>\<open>processed\<close> moves to a receipt of another epoch, or forward within its epoch.\<close>

definition advance_processed :: "managed_receipt \<Rightarrow> peer \<Rightarrow> peer" where
  "advance_processed receipt p =
     (if mr_epoch (pr_processed p) \<noteq> mr_epoch receipt
         \<or> mr_sequence (pr_processed p) < mr_sequence receipt
      then p\<lparr>pr_processed := receipt\<rparr> else p)"

definition check_receipt :: "envelope_body \<Rightarrow> string \<times> managed_receipt \<Rightarrow> unit result" where
  "check_receipt e ir =
     bindR (ok_or Cancelled (bm_get (en_peers e) (fst ir))) (\<lambda>p.
       if pr_revoked p \<or> mr_epoch (pr_received p) \<noteq> mr_epoch (snd ir)
          \<or> mr_sequence (pr_received p) < mr_sequence (snd ir)
       then fail ''application receipt is outside stored history'' else Inr ())"

definition process_receipt :: "envelope_body \<Rightarrow> string \<times> managed_receipt \<Rightarrow> envelope_body result" where
  "process_receipt e ir =
     bindR (ok_or Cancelled (bm_get (en_peers e) (fst ir))) (\<lambda>_.
       Inr (e\<lparr>en_peers := bm_update (fst ir) (advance_processed (snd ir)) (en_peers e)\<rparr>))"

definition acknowledge_op ::
  "application_inbox \<Rightarrow> envelope_body \<Rightarrow> (unit \<times> envelope_body) result" where
  "acknowledge_op inbox e =
     (if en_revision e < ib_revision inbox
      then fail ''application snapshot revision is in the future''
      else bindR (foldR (\<lambda>_ ir. check_receipt e ir) () (ib_receipts inbox)) (\<lambda>_.
           bindR (foldR process_receipt e (ib_receipts inbox)) (\<lambda>e'. Inr ((), e'))))"

definition acknowledge_inbox ::
  "session_config \<Rightarrow> string \<Rightarrow> application_inbox \<Rightarrow> session_world \<Rightarrow> unit result \<times> session_world" where
  "acknowledge_inbox cg fresh inbox w =
     (case mutate cg fresh (acknowledge_op inbox) w of
        (Inl err, w') \<Rightarrow> (Inl err, w')
      | (Inr u, w') \<Rightarrow> (Inr u, wake w'))"

section \<open>Snapshots for the app\<close>

definition peer_pending :: "session_config \<Rightarrow> envelope_body \<Rightarrow> peer \<Rightarrow> nat result" where
  "peer_pending cg e p =
     (let records = map snd (filter (\<lambda>(k, _).
            mr_epoch (pr_stored p) \<noteq> en_epoch e \<or> en_revision e < mr_sequence (pr_stored p) \<or>
            (mr_sequence (pr_stored p) <
               (case bm_get (en_sequences e) k of None \<Rightarrow> u64_max | Some n \<Rightarrow> n) \<and>
             bm_get (en_origins e) k \<noteq> Some (id_device (pr_identity p)))) (en_records e))
      in bindR (export_records cg records) (\<lambda>rs. Inr (length rs)))"

definition shown_state :: "session_world \<Rightarrow> nat \<Rightarrow> peer \<Rightarrow> peer_state" where
  "shown_state w count p =
     (if pr_revoked p \<or> en_phase (en_body (sn_envelope w)) \<noteq> Running \<or> sn_uncertain w then PeerPaused
      else if pr_pending p \<noteq> None then NeedsMerge
      else if 0 < count \<and> pr_state p = UpToDate then Waiting
      else pr_state p)"

record peer_snapshot =
  ps_identity :: identity
  ps_metadata :: device_metadata
  ps_fingerprint :: string
  ps_revoked :: bool
  ps_pending :: nat
  ps_stored :: managed_receipt
  ps_applied :: managed_receipt
  ps_transmitted :: managed_receipt
  ps_received :: managed_receipt
  ps_processed :: managed_receipt
  ps_state :: peer_state

record session_snapshot =
  ss_identity :: identity
  ss_phase :: session_phase
  ss_local_revision :: u64
  ss_peers :: "peer_snapshot list"
  ss_diagnostics :: "session_event list"

definition snapshot_peer :: "session_config \<Rightarrow> session_world \<Rightarrow> peer \<Rightarrow> peer_snapshot result" where
  "snapshot_peer cg w p =
     bindR (peer_pending cg (en_body (sn_envelope w)) p) (\<lambda>count. Inr
       \<lparr>ps_identity = pr_identity p, ps_metadata = pr_metadata p,
        ps_fingerprint = pr_fingerprint p, ps_revoked = pr_revoked p, ps_pending = count,
        ps_stored = pr_stored p, ps_applied = pr_applied p, ps_transmitted = pr_transmitted p,
        ps_received = pr_received p, ps_processed = pr_processed p,
        ps_state = shown_state w count p\<rparr>)"

definition take_snapshot :: "session_config \<Rightarrow> session_world \<Rightarrow> session_snapshot result" where
  "take_snapshot cg w =
     (let e = en_body (sn_envelope w) in
      bindR (traverseR (snapshot_peer cg w) (bm_values (en_peers e))) (\<lambda>peers. Inr
        \<lparr>ss_identity = en_identity e,
         ss_phase = (if sn_uncertain w then Failed else en_phase e),
         ss_local_revision = en_local_revision e, ss_peers = peers,
         ss_diagnostics = sn_diagnostics w\<rparr>))"

end
