(* ===== verification/Session_Laws.thy ===== *)
theory Session_Laws
  imports Session_Store
begin

text \<open>
  Durability of \<open>mutate\<close>: what memory and disk hold after any outcome, and that a reopen can
  always replay the journal a mutation leaves behind.
\<close>

definition synced :: "session_world \<Rightarrow> bool" where
  "synced w \<longleftrightarrow> \<not> sn_uncertain w \<and> sn_disk w = sn_envelope w"

text \<open>What a reopen serves: the target of a journaled transaction, else the envelope itself.\<close>

definition reopened :: "envelope \<Rightarrow> envelope_body" where
  "reopened e = (case en_prepared e of None \<Rightarrow> en_body e | Some p \<Rightarrow> en_body (pt_target p))"

lemma reopened_simps [simp]:
  "reopened (Envelope b None) = b" "reopened (Envelope b (Some p)) = en_body (pt_target p)"
  by (simp_all add: reopened_def)

lemma emit_frame [simp]:
  "sn_envelope (emit ev w) = sn_envelope w" "sn_disk (emit ev w) = sn_disk w"
  "sn_uncertain (emit ev w) = sn_uncertain w" "sn_saves (emit ev w) = sn_saves w"
  "sn_woken (emit ev w) = sn_woken w"
  by (simp_all add: emit_def Let_def)

lemma publish_frame [simp]:
  "sn_envelope (publish e w) = e" "sn_disk (publish e w) = sn_disk w"
  "sn_uncertain (publish e w) = sn_uncertain w"
  by (simp_all add: publish_def)

lemma wake_frame [simp]:
  "sn_envelope (wake w) = sn_envelope w" "sn_disk (wake w) = sn_disk w"
  "sn_uncertain (wake w) = sn_uncertain w"
  by (simp_all add: wake_def)

lemma save_ok:
  "save_candidate e w = (Inr u, w') \<Longrightarrow>
   sn_disk w' = e \<and> sn_envelope w' = sn_envelope w \<and> sn_uncertain w' = sn_uncertain w"
  by (auto simp: save_candidate_def Let_def split: list.splits save_outcome.splits)

lemma save_err:
  "save_candidate e w = (Inl err, w') \<Longrightarrow>
   sn_uncertain w' \<and> sn_envelope w' = sn_envelope w \<and> sn_disk w' \<in> {sn_disk w, e}"
  by (auto simp: save_candidate_def Let_def split: list.splits save_outcome.splits)

text \<open>The content a mutation tries to publish.\<close>

definition candidate_of ::
  "session_config \<Rightarrow> string \<Rightarrow> envelope_body \<Rightarrow> envelope_body \<Rightarrow> envelope_body" where
  "candidate_of cg fresh current candidate =
     (if en_records candidate \<noteq> en_records current then keep_recovery cg fresh current candidate
      else candidate)"

lemma commit_candidate_ok:
  assumes "synced w" and "en_prepared (sn_envelope w) = None"
    and "commit_candidate cg fresh candidate w = (Inr u, w')"
  shows "synced w' \<and> en_prepared (sn_envelope w') = None \<and>
    en_body (sn_envelope w') = candidate_of cg fresh (en_body (sn_envelope w)) candidate"
  using assms
  by (cases "sn_envelope w")
     (auto simp: commit_candidate_def Let_def synced_def candidate_of_def bindS_Inr dest!: save_ok
       split: if_splits sum.splits)

lemma commit_candidate_err:
  assumes "synced w" and "en_prepared (sn_envelope w) = None"
    and "commit_candidate cg fresh candidate w = (Inl err, w')"
  shows "en_body (sn_envelope w') = en_body (sn_envelope w) \<and>
    reopened (sn_disk w') \<in>
      {en_body (sn_envelope w), candidate_of cg fresh (en_body (sn_envelope w)) candidate} \<and>
    (sn_uncertain w' \<or> w' = w)"
proof -
  let ?c = "sn_envelope w" and ?b = "en_body (sn_envelope w)"
  have c: "?c = Envelope ?b None" using assms(2) by (cases ?c) simp
  let ?k = "candidate_of cg fresh ?b candidate"
  let ?t = "Envelope ?k None"
  let ?j = "Envelope ?b (Some (PreparedTransaction fresh (journal_changes cg fresh ?b ?k) ?t))"
  have disk: "reopened (sn_disk w) = ?b" using assms(1) c by (simp add: synced_def reopened_def assms(2))
  show ?thesis
  proof (cases "Envelope candidate None = ?c")
    case True
    then show ?thesis using assms(3) by (simp add: commit_candidate_def assms(2))
  next
    case False
    show ?thesis
    proof (cases "en_records candidate = en_records ?b")
      case True
      then have "bindS (save_candidate ?t w) (\<lambda>_ w. (Inr (), emit Changed (publish ?t w))) = (Inl err, w')"
        using assms(3) False by (simp add: commit_candidate_def assms(2) candidate_of_def Let_def)
      then have "save_candidate ?t w = (Inl err, w')"
        by (auto simp: bindS_split split: prod.splits sum.splits)
      from save_err[OF this] show ?thesis using disk by auto
    next
      case rec: False
      then have k: "?k = keep_recovery cg fresh ?b candidate" by (simp add: candidate_of_def)
      show ?thesis
      proof (cases "limits_state cg candidate")
        case (Inl e)
        then show ?thesis using assms(3) False rec disk by (simp add: commit_candidate_def assms(2))
      next
        case (Inr u)
        then have run: "bindS (save_candidate ?j w) (\<lambda>_ w.
            bindS (save_candidate ?t (publish ?j w)) (\<lambda>_ w. (Inr (), emit Changed (publish ?t w)))) = (Inl err, w')"
          using assms(3) False rec by (simp add: commit_candidate_def assms(2) k Let_def)
        obtain r1 w1 where s1: "save_candidate ?j w = (r1, w1)" by fastforce
        show ?thesis
        proof (cases r1)
          case (Inl e)
          then have "w' = w1" using run s1 by simp
          then show ?thesis using save_err[OF s1[unfolded Inl]] disk by auto
        next
          case (Inr v)
          obtain r2 w2 where s2: "save_candidate ?t (publish ?j w1) = (r2, w2)" by fastforce
          have "\<exists>e. r2 = Inl e \<and> w' = w2" using run s1 s2 Inr by (cases r2) auto
          then obtain e where e: "r2 = Inl e" "w' = w2" by blast
          show ?thesis
            using save_err[OF s2[unfolded e(1)]] save_ok[OF s1[unfolded Inr]] e(2)
            by auto
        qed
      qed
    qed
  qed
qed

lemma settle_none: "en_prepared (sn_envelope w) = None \<Longrightarrow> settle cg w = (Inr (), w)"
  by (simp add: settle_def)

lemma mutate_settled:
  assumes "\<not> sn_uncertain w" and "en_prepared (sn_envelope w) = None"
  shows "mutate cg fresh op w =
    (case op (en_body (sn_envelope w)) of
       Inl err \<Rightarrow> (Inl err, w)
     | Inr (r, candidate) \<Rightarrow> bindS (commit_candidate cg fresh candidate w) (\<lambda>_ w. (Inr r, w)))"
  using assms by (simp add: mutate_def settle_none)

lemma mutate_Inr:
  assumes "synced w" and "en_prepared (sn_envelope w) = None" and "mutate cg fresh op w = (Inr r, w')"
  obtains candidate where "op (en_body (sn_envelope w)) = Inr (r, candidate)" "synced w'"
    "en_prepared (sn_envelope w') = None"
    "en_body (sn_envelope w') = candidate_of cg fresh (en_body (sn_envelope w)) candidate"
proof -
  have "\<not> sn_uncertain w" using assms(1) by (simp add: synced_def)
  note m = mutate_settled[OF this assms(2), of cg fresh op]
  from assms(3) obtain candidate where op: "op (en_body (sn_envelope w)) = Inr (r, candidate)"
    and com: "commit_candidate cg fresh candidate w = (Inr (), w')"
    unfolding m by (auto simp: bindS_Inr split: sum.splits)
  note c = commit_candidate_ok[OF assms(1,2) com]
  show ?thesis by (rule that[OF op]) (use c in auto)
qed

lemma mutate_Inl:
  assumes "synced w" and "en_prepared (sn_envelope w) = None" and "mutate cg fresh op w = (Inl err, w')"
    and op: "op (en_body (sn_envelope w)) = Inr (r, candidate)"
  shows "en_body (sn_envelope w') = en_body (sn_envelope w) \<and>
    reopened (sn_disk w') \<in>
      {en_body (sn_envelope w), candidate_of cg fresh (en_body (sn_envelope w)) candidate} \<and>
    (sn_uncertain w' \<or> w' = w)"
proof -
  have "\<not> sn_uncertain w" using assms(1) by (simp add: synced_def)
  note m = mutate_settled[OF this assms(2), of cg fresh op]
  have "commit_candidate cg fresh candidate w = (Inl err, w')"
    using assms(3) op unfolding m by (auto simp: bindS_split split: prod.splits sum.splits)
  from commit_candidate_err[OF assms(1,2) this] show ?thesis .
qed

lemma mutate_refused: "sn_uncertain w \<Longrightarrow> mutate cg fresh op w =
   (fail_code StorageCommitUncertain
      ''storage commit outcome uncertain; close and reopen session for recovery'', w)"
  by (simp add: mutate_def)

section \<open>The journal can be replayed\<close>

text \<open>Adapters with the provided \<open>recover\<close>, registered under their own id.\<close>

definition plain_adapters :: "session_config \<Rightarrow> bool" where
  "plain_adapters cg \<longleftrightarrow> bm_ok (cg_adapters cg) \<and>
     (\<forall>k a. bm_get (cg_adapters cg) k = Some a \<longrightarrow>
        ad_id (ma_descriptor a) = k \<and> ma_recover a = default_recover (ma_descriptor a))"

lemma recover_journal_change:
  assumes "plain_adapters cg" and "bm_has (cg_adapters cg) a"
  shows "recover_change cg current target
    \<lparr>chg_id = fresh, chg_adapter = a, chg_expected_revision = en_revision current,
     chg_staged = local_records a target, chg_recovery = local_records a current\<rparr> = Inr ()"
  using assms
  by (auto simp: recover_change_def plain_adapters_def bm_has_def default_recover_def)

lemma journal_recovers:
  assumes "plain_adapters cg" and "fresh \<noteq> []" and "limits_state cg kept = Inr ()"
    and "en_identity kept = en_identity (en_body current)"
  shows "recover_transaction cg current
    (PreparedTransaction fresh (journal_changes cg fresh (en_body current) kept) (Envelope kept None)) = Inr ()"
proof -
  have "foldR (\<lambda>_ change. recover_change cg (en_body current) kept change) () chs = Inr ()"
    if "set chs \<subseteq> set (journal_changes cg fresh (en_body current) kept)" for chs
    using that
  proof (induction chs)
    case (Cons ch chs)
    then obtain a where "bm_has (cg_adapters cg) a" and
      "ch = \<lparr>chg_id = fresh, chg_adapter = a, chg_expected_revision = en_revision (en_body current),
        chg_staged = local_records a kept, chg_recovery = local_records a (en_body current)\<rparr>"
      by (auto simp: journal_changes_def bm_keys_def bm_has_iff)
    then have "recover_change cg (en_body current) kept ch = Inr ()"
      using recover_journal_change[OF assms(1)] by simp
    then show ?case using Cons by simp
  qed simp
  then show ?thesis
    using assms by (simp add: recover_transaction_def Let_def)
qed

section \<open>Read your writes\<close>

lemma max_counter_ge: "r \<in> set rs \<Longrightarrow> clk_counter (mg_clock r) \<le> max_counter rs"
proof -
  have mono: "m \<le> fold (\<lambda>r m. max m (clk_counter (mg_clock r))) rs m" for m :: u64 and rs
    by (induction rs arbitrary: m) (auto intro: order_trans[OF max.cobounded1])
  have "r \<in> set rs \<Longrightarrow> clk_counter (mg_clock r) \<le> fold (\<lambda>r m. max m (clk_counter (mg_clock r))) rs m" for m
    by (induction rs arbitrary: m) (auto intro: order_trans[OF max.cobounded2 mono])
  then show "r \<in> set rs \<Longrightarrow> clk_counter (mg_clock r) \<le> max_counter rs" by (simp add: max_counter_def)
qed

definition key_inj :: "session_config \<Rightarrow> bool" where
  "key_inj cg \<longleftrightarrow> (\<forall>a i b j k. cg_record_key cg a i = Inr k \<longrightarrow> cg_record_key cg b j = Inr k \<longrightarrow> a = b \<and> i = j)"

text \<open>Publishing records with distinct keys: afterwards each is stored under its key.\<close>

lemma publish_all_get:
  assumes "key_inj cg" and "foldR (publish_one cg origin) e rs = Inr e'"
    and "distinct (map (\<lambda>r. (mg_adapter r, mg_id r)) rs)" and "r \<in> set rs"
  shows "\<exists>k. cg_record_key cg (mg_adapter r) (mg_id r) = Inr k \<and> bm_get (en_records e') k = Some r"
  using assms(2-4)
proof (induction rs arbitrary: e)
  case (Cons x rs)
  from Cons.prems(1) obtain e1 where e1: "publish_one cg origin e x = Inr e1"
    and rest: "foldR (publish_one cg origin) e1 rs = Inr e'" by auto
  show ?case
  proof (cases "r \<in> set rs")
    case True
    then show ?thesis using Cons.IH[OF rest] Cons.prems(2) by simp
  next
    case False
    then have rx: "r = x" using Cons.prems(3) by simp
    obtain k where k: "cg_record_key cg (mg_adapter r) (mg_id r) = Inr k" "bm_get (en_records e1) k = Some r"
      using e1 unfolding rx by (cases rule: publish_one_cases) (auto simp: bm_get_insert)
    have "bm_get (en_records e') k = Some r"
    proof (rule foldR_invariant[OF rest, where P = "\<lambda>t. bm_get (en_records t) k = Some r"])
      fix s y s'
      assume s: "bm_get (en_records s) k = Some r" and y: "y \<in> set rs" and p: "publish_one cg origin s y = Inr s'"
      have "(mg_adapter y, mg_id y) \<noteq> (mg_adapter r, mg_id r)"
        using Cons.prems(2) y rx by (metis (no_types, lifting) distinct.simps(2) image_eqI list.set_map list.simps(9))
      then have "cg_record_key cg (mg_adapter y) (mg_id y) \<noteq> Inr k"
        using assms(1) k(1) unfolding key_inj_def by blast
      with p s show "bm_get (en_records s') k = Some r"
        by (cases rule: publish_one_cases) (auto simp: bm_get_insert)
    qed (rule k(2))
    with k(1) show ?thesis by blast
  qed
qed simp

text \<open>The session runs \<open>RecordsAdapter\<close> for this adapter id.\<close>

definition uses_records :: "session_config \<Rightarrow> string \<Rightarrow> bool" where
  "uses_records cg adapter \<longleftrightarrow> bm_ok (cg_adapters cg) \<and>
     (\<exists>fresh d. ad_id d = adapter \<and> bm_get (cg_adapters cg) adapter = Some (records_adapter fresh d))"

lemma of_adapter_single: "of_adapter a [r] = (if mg_adapter r = a then [r] else [])"
  by (simp add: of_adapter_def)

lemma prepare_loop_skip:
  assumes "\<forall>p\<in>set ps. fst p \<noteq> mg_adapter r"
  shows "prepare_loop e [r] ps = Inr []"
  using assms by (induction ps) (auto simp: of_adapter_single Let_def)

lemma prepare_loop_single:
  assumes "distinct (map fst ps)" and "(mg_adapter r, a) \<in> set ps"
    and "prepare_loop e [r] ps = Inr chs"
  shows "\<exists>ch. chs = [ch] \<and> ma_prepare a (local_records (mg_adapter r) e) [r] (en_revision e) = Inr ch \<and>
    chg_adapter ch = mg_adapter r \<and> chg_recovery ch = local_records (mg_adapter r) e \<and>
    chg_expected_revision ch = en_revision e"
  using assms
proof (induction ps arbitrary: chs)
  case (Cons p ps)
  obtain i b where p: "p = (i, b)" by (cases p)
  show ?case
  proof (cases "i = mg_adapter r")
    case True
    have "(mg_adapter r, a) \<in> set ps \<Longrightarrow> mg_adapter r \<in> fst ` set ps"
      by (rule image_eqI[of _ fst "(mg_adapter r, a)"]) simp
    moreover have "mg_adapter r \<notin> fst ` set ps" using Cons.prems(1) p True by simp
    ultimately have "(mg_adapter r, a) \<notin> set ps" by blast
    then have b: "b = a" using Cons.prems(2) p by simp
    have "\<forall>q\<in>set ps. fst q \<noteq> mg_adapter r"
      using Cons.prems(1) p True by (metis distinct.simps(2) fst_conv image_eqI list.set_map list.simps(9))
    then have "prepare_loop e [r] ps = Inr []" by (rule prepare_loop_skip)
    then show ?thesis
      using Cons.prems(3) p True b by (auto simp: of_adapter_single Let_def split: if_splits)
  next
    case False
    then show ?thesis using Cons p by (auto simp: of_adapter_single)
  qed
qed simp

lemma write_op_get:
  assumes ok: "body_ok cg e" and inj: "key_inj cg" and ra: "uses_records cg adapter"
    and w: "write_op cg adapter ident value deleted e = Inr (u, e')"
  shows "\<exists>k r. cg_record_key cg adapter ident = Inr k \<and> bm_get (en_records e') k = Some r \<and>
    mg_value r = value \<and> mg_deleted r = deleted \<and>
    (\<forall>x\<in>set (bm_values (en_records e)). mg_clock x < mg_clock r)"
proof -
  obtain fresh d where d: "ad_id d = adapter" "bm_ok (cg_adapters cg)"
    "bm_get (cg_adapters cg) adapter = Some (records_adapter fresh d)"
    using ra by (auto simp: uses_records_def)
  let ?max = "max_counter (bm_values (en_records e))"
  define r where "r = \<lparr>mg_adapter = adapter, mg_id = ident, mg_value = value, mg_deleted = deleted,
    mg_clock = LamportClock (?max + 1) (id_device (en_identity e))\<rparr>"
  from w obtain chs e1 where nm: "?max \<noteq> u64_max"
    and prep: "prepare_loop e [r] (cg_adapters cg) = Inr chs"
    and com: "commit_records cg e chs None = Inr e1"
    and e': "en_records e' = en_records e1"
    unfolding write_op_def prepare_records_def r_def by (auto simp: Let_def)
  have newer: "mg_clock x < mg_clock r" if "x \<in> set (bm_values (en_records e))" for x
    using max_counter_ge[OF that] less_plus_1[OF nm]
    by (auto simp: r_def intro!: clock_less_counter elim: le_less_trans)
  have mem: "(mg_adapter r, records_adapter fresh d) \<in> set (cg_adapters cg)"
    using d(3) by (auto simp: r_def dest: map_of_SomeD)
  obtain ch where chs: "chs = [ch]"
    and chp: "records_prepare fresh d (local_records adapter e) [r] (en_revision e) = Inr ch"
    and cha: "chg_adapter ch = adapter" "chg_expected_revision ch = en_revision e"
    using prepare_loop_single[OF bm.entries_distinct[OF d(2)] mem prep]
    by (auto simp: records_adapter_def default_adapter_def r_def)
  from chp obtain m where m: "merge_managed adapter (keyed (local_records adapter e)) r = Inr m"
    and staged: "chg_staged ch = bm_values m"
    by (auto simp: records_prepare_def d(1))
  note mp = merge_managed_Inr[OF m]
  have ins: "bm_get m ident = Some r"
  proof -
    have "mg_clock old < mg_clock r" if "bm_get (keyed (local_records adapter e)) ident = Some old" for old
    proof -
      have "old \<in> set (local_records adapter e)"
        using that by (auto simp: keyed_def bm_get_of_list dest!: map_of_SomeD)
      then show ?thesis using newer by (auto simp: local_records_def of_adapter_def)
    qed
    then show ?thesis
      using mp managed.get_put[OF managed_ok_keyed[of "local_records adapter e"], of r ident]
      by (auto simp: r_def)
  qed
  from com obtain results where res: "commit_one cg (en_revision e) ch = Inr results"
    and pub: "foldR (publish_one cg None) e results = Inr e1"
    by (auto simp: commit_records_def chs)
  have results: "results = bm_values m" and val: "validate_records adapter (chg_recovery ch) results = Inr ()"
    using res d(3) cha staged
    by (auto simp: commit_one_def records_adapter_def default_adapter_def default_commit_def d(1)
        split: if_splits)
  note v = validate_records_Inr[OF val]
  have "distinct (map (\<lambda>x. (mg_adapter x, mg_id x)) results)"
  proof -
    have "distinct (map snd (map (\<lambda>x. (mg_adapter x, mg_id x)) results))"
      using v(1) by (simp add: comp_def)
    then show ?thesis by (simp only: distinct_map)
  qed
  moreover have "r \<in> set results" unfolding results by (rule bm_get_in_values[OF ins])
  ultimately have "\<exists>k. cg_record_key cg (mg_adapter r) (mg_id r) = Inr k \<and> bm_get (en_records e1) k = Some r"
    by (rule publish_all_get[OF inj pub])
  then obtain k where "cg_record_key cg adapter ident = Inr k" "bm_get (en_records e1) k = Some r"
    by (auto simp: r_def)
  then show ?thesis using newer e' by (auto simp: r_def)
qed

text \<open>
  What durable mutation promises an invariant of the envelope: \<open>world_ok P w\<close> says that memory,
  the journal in memory and what a reopen would serve from disk all satisfy \<open>P\<close>. Under the
  contract \<open>durable_invariant\<close> every mutation with an operation that keeps \<open>P\<close> keeps
  \<open>world_ok P\<close>, whether it succeeds, is refused, or fails at either save.
\<close>

definition world_ok :: "(envelope_body \<Rightarrow> bool) \<Rightarrow> session_world \<Rightarrow> bool" where
  "world_ok P w \<longleftrightarrow>
     P (en_body (sn_envelope w)) \<and> P (reopened (sn_envelope w)) \<and> P (reopened (sn_disk w))"

definition op_keeps ::
  "(envelope_body \<Rightarrow> bool) \<Rightarrow> (envelope_body \<Rightarrow> ('r \<times> envelope_body) result) \<Rightarrow> bool" where
  "op_keeps P operation \<longleftrightarrow> (\<forall>e r e'. P e \<longrightarrow> operation e = Inr (r, e') \<longrightarrow> P e')"

named_theorems op_keeps \<open>session operations that keep the envelope well formed\<close>

lemma world_ok_frame:
  "sn_envelope w' = sn_envelope w \<Longrightarrow> sn_disk w' = sn_disk w \<Longrightarrow> world_ok P w' = world_ok P w"
  by (simp add: world_ok_def)

lemma world_ok_emit [simp]: "world_ok P (emit ev w) = world_ok P w"
  by (rule world_ok_frame) simp_all

lemma world_ok_diagnostic [simp]: "world_ok P (diagnostic d err w) = world_ok P w"
  by (simp add: diagnostic_def Let_def split: prod.split)

lemma world_ok_wake [simp]: "world_ok P (wake w) = world_ok P w"
  by (rule world_ok_frame) simp_all

lemma world_ok_save:
  assumes "world_ok P w" and "P (reopened e)" and "save_candidate e w = (r, w')"
  shows "world_ok P w'"
  using assms save_ok[of e w _ w'] save_err[of e w _ w']
  by (cases r) (auto simp: world_ok_def)

lemma world_ok_publish:
  "world_ok P w \<Longrightarrow> P (en_body e) \<Longrightarrow> P (reopened e) \<Longrightarrow> world_ok P (publish e w)"
  by (simp add: world_ok_def)

lemma recover_transaction_target:
  "recover_transaction cg current prepared = Inr u \<Longrightarrow> en_prepared (pt_target prepared) = None"
  by (auto simp: recover_transaction_def Let_def split: if_splits)

lemma settle_ok:
  assumes "world_ok P w" and "settle cg w = (r, w')"
  shows "world_ok P w' \<and> (\<forall>u. r = Inr u \<longrightarrow> en_prepared (sn_envelope w') = None)"
proof (cases "en_prepared (sn_envelope w)")
  case None
  then show ?thesis using assms by (simp add: settle_def)
next
  case (Some prepared)
  show ?thesis
  proof (cases "recover_transaction cg (sn_envelope w) prepared")
    case (Inl err)
    then show ?thesis using assms Some by (auto simp: settle_def)
  next
    case (Inr u)
    let ?t = "pt_target prepared"
    have none: "en_prepared ?t = None" using recover_transaction_target[OF Inr] .
    have t: "P (en_body ?t)" using assms(1) Some by (simp add: world_ok_def reopened_def)
    then have rt: "P (reopened ?t)" using none by (simp add: reopened_def)
    obtain s w1 where s: "save_candidate ?t w = (s, w1)" by fastforce
    have w1: "world_ok P w1" by (rule world_ok_save[OF assms(1) rt s])
    show ?thesis
      using assms(2) Some Inr s w1 world_ok_publish[OF w1 t rt] none
      by (cases s) (auto simp: settle_def)
  qed
qed

locale durable_invariant =
  fixes cg :: session_config and P :: "envelope_body \<Rightarrow> bool"
  assumes recovery: "P e \<Longrightarrow> P (e\<lparr>en_recovery := rs\<rparr>)"
begin

lemma candidate_keeps: "P candidate \<Longrightarrow> P (keep_recovery cg fresh current candidate)"
  unfolding keep_recovery_def Let_def by (rule recovery)

lemma commit_keeps:
  assumes w: "world_ok P w" and none: "en_prepared (sn_envelope w) = None" and c: "P candidate"
  shows "world_ok P (snd (commit_candidate cg fresh candidate w))"
proof -
  let ?b = "en_body (sn_envelope w)" and ?k = "keep_recovery cg fresh (en_body (sn_envelope w)) candidate"
  let ?t = "Envelope ?k None"
  let ?j = "Envelope ?b (Some (PreparedTransaction fresh (journal_changes cg fresh ?b ?k) ?t))"
  have b: "P ?b" and k: "P ?k" using w candidate_keeps[OF c] by (simp_all add: world_ok_def)
  have final: "world_ok P (snd (bindS (save_candidate e v) (\<lambda>_ v. (Inr (), emit Changed (publish e v)))))"
    if "world_ok P v" "P (en_body e)" "en_prepared e = None" for e v
  proof -
    have re: "P (reopened e)" using that by (simp add: reopened_def)
    obtain s v1 where s: "save_candidate e v = (s, v1)" by fastforce
    have "world_ok P v1" by (rule world_ok_save[OF that(1) re s])
    then show ?thesis using s world_ok_publish[of P v1 e] that(2) re by (cases s) simp_all
  qed
  have journaled: "world_ok P (snd (bindS (save_candidate ?j w) (\<lambda>_ v.
      bindS (save_candidate ?t (publish ?j v)) (\<lambda>_ v. (Inr (), emit Changed (publish ?t v))))))"
  proof -
    obtain s v where s: "save_candidate ?j w = (s, v)" by fastforce
    have v: "world_ok P v" by (rule world_ok_save[OF w _ s]) (simp add: k)
    show ?thesis
      using final[OF world_ok_publish[OF v, of ?j], of ?t] s v b k by (cases s) simp_all
  qed
  show ?thesis
    using w journaled final[OF w, of "Envelope candidate None"] c
    by (simp add: commit_candidate_def Let_def none split: sum.split)
qed

lemma mutate_keeps:
  assumes w: "world_ok P w" and op: "op_keeps P operation"
  shows "world_ok P (snd (mutate cg fresh operation w))"
proof (cases "sn_uncertain w")
  case False
  obtain s v where s: "settle cg w = (s, v)" by fastforce
  note v = settle_ok[OF w s]
  have "P (en_body (sn_envelope v))" using v by (simp add: world_ok_def)
  then have cand: "P e'" if "operation (en_body (sn_envelope v)) = Inr (r, e')" for r e'
    using op that unfolding op_keeps_def by blast
  have commit: "world_ok P (snd (bindS (commit_candidate cg fresh e' v) (\<lambda>_ w. (Inr r, w))))"
    if "s = Inr u" "operation (en_body (sn_envelope v)) = Inr (r, e')" for u r e'
  proof -
    have "world_ok P (snd (commit_candidate cg fresh e' v))"
      using commit_keeps[of v e' fresh] v that(1) cand[OF that(2)] by simp
    then show ?thesis by (auto simp: bindS_split split: prod.split sum.split)
  qed
  show ?thesis
    using False s v commit by (cases s) (auto simp: mutate_def split: sum.split)
qed (simp add: w mutate_def)

text \<open>The same for a computation that mutates and then only wakes or reports.\<close>

lemma mutate_cases:
  assumes "world_ok P w" and "op_keeps P operation" and "mutate cg fresh operation w = (r, w')"
  shows "world_ok P w'"
  using mutate_keeps[OF assms(1,2), of fresh] assms(3) by simp

end

end
