(* ===== verification/Receipt.thy ===== *)
theory Receipt
  imports Managed_Records Crypto_Frame
begin

text \<open>
  \<open>session/receipt.rs\<close>: checkpoint proofs. A proof is an HMAC, under a key derived from the
  device's storage key, of the enrollment and the position it vouches for. HKDF and HMAC
  are library code and appear as the functions of \<open>receipt_crypto\<close>.
\<close>

record receipt_crypto =
  rc_hkdf :: "bytes \<Rightarrow> bytes \<Rightarrow> string \<Rightarrow> bytes option"
  rc_hmac :: "bytes \<Rightarrow> bytes \<Rightarrow> bytes"

definition receipt_domain :: bytes where
  "receipt_domain = str_bytes ''libresync-managed-receipt-v1''"

definition receipt_fields :: "peer \<Rightarrow> managed_receipt \<Rightarrow> bytes list" where
  "receipt_fields p r =
     [receipt_domain, str_bytes (id_device (pr_identity p)), str_bytes (id_app (pr_identity p)),
      str_bytes (id_user (pr_identity p)), str_bytes (pr_fingerprint p),
      str_bytes (pr_incarnation p), str_bytes (mr_epoch r)]"

definition receipt_input :: "peer \<Rightarrow> managed_receipt \<Rightarrow> bytes" where
  "receipt_input p r =
     concat (map len_prefixed (receipt_fields p r)) @ be_bytes 8 (unat (mr_sequence r))"

definition receipt_mac ::
  "receipt_crypto \<Rightarrow> app_key \<Rightarrow> peer \<Rightarrow> managed_receipt \<Rightarrow> bytes result" where
  "receipt_mac rc storage_key p r =
     bindR (ok_or (Crypto ''receipt key derivation failed'')
              (rc_hkdf rc receipt_domain (as_bytes storage_key) ''private checkpoint proof signing''))
       (\<lambda>key. Inr (rc_hmac rc key (receipt_input p r)))"

definition receipt_mint ::
  "receipt_crypto \<Rightarrow> app_key \<Rightarrow> envelope_body \<Rightarrow> peer \<Rightarrow> managed_receipt result" where
  "receipt_mint rc storage_key e p =
     (let r = \<lparr>mr_epoch = en_epoch e, mr_sequence = en_revision e, mr_proof = []\<rparr>
      in bindR (receipt_mac rc storage_key p r) (\<lambda>proof. Inr (r\<lparr>mr_proof := proof\<rparr>)))"

definition receipt_verify ::
  "receipt_crypto \<Rightarrow> app_key \<Rightarrow> envelope_body \<Rightarrow> peer \<Rightarrow> managed_receipt \<Rightarrow> unit result" where
  "receipt_verify rc storage_key e p r =
     (if pr_revoked p \<or> pr_incarnation p = [] \<or> mr_epoch r \<noteq> en_epoch e
         \<or> en_revision e < mr_sequence r \<or> length (mr_proof r) \<noteq> 32
      then fail ''receipt is outside current enrollment history''
      else bindR (receipt_mac rc storage_key p r) (\<lambda>tag.
             if tag = mr_proof r then Inr ()
             else Inl (Protocol ''checkpoint proof is not authentic for current enrollment'')))"

section \<open>The input of the MAC determines enrollment and position\<close>

text \<open>What a proof vouches for.\<close>

definition enrollment_of :: "peer \<Rightarrow> identity \<times> string \<times> string" where
  "enrollment_of p = (pr_identity p, pr_fingerprint p, pr_incarnation p)"

definition fields_short :: "peer \<Rightarrow> managed_receipt \<Rightarrow> bool" where
  "fields_short p r = list_all (\<lambda>f. length f < 2 ^ 64) (receipt_fields p r)"

lemma concat_len_prefixed_inject:
  assumes "concat (map len_prefixed fs) @ x = concat (map len_prefixed gs) @ y"
    and "length fs = length gs"
    and "list_all (\<lambda>f. length f < 2 ^ 64) fs" and "list_all (\<lambda>f. length f < 2 ^ 64) gs"
  shows "fs = gs \<and> x = y"
  using assms(2,1,3,4)
proof (induction fs gs rule: list_induct2)
  case (Cons f fs g gs)
  have "f = g \<and> concat (map len_prefixed fs) @ x = concat (map len_prefixed gs) @ y"
    using Cons.prems by (intro len_prefixed_inject) simp_all
  then show ?case using Cons by simp
qed simp

lemma receipt_input_inject:
  assumes "receipt_input p r = receipt_input q s" and "fields_short p r" and "fields_short q s"
  shows "enrollment_of p = enrollment_of q \<and> mr_epoch r = mr_epoch s \<and> mr_sequence r = mr_sequence s"
proof -
  have "receipt_fields p r = receipt_fields q s \<and>
      be_bytes 8 (unat (mr_sequence r)) = be_bytes 8 (unat (mr_sequence s))"
    using assms by (intro concat_len_prefixed_inject)
      (simp_all add: receipt_input_def fields_short_def receipt_fields_def)
  moreover from this have "unat (mr_sequence r) = unat (mr_sequence s)"
    using unat_u64_bound[of "mr_sequence r"] unat_u64_bound[of "mr_sequence s"]
    by (intro be_bytes_inject[of 8]) auto
  ultimately show ?thesis
    by (auto simp: receipt_fields_def enrollment_of_def word_unat_eq_iff intro: identity.equality)
qed

lemma receipt_input_cong:
  "enrollment_of p = enrollment_of q \<Longrightarrow> receipt_input p r = receipt_input q (r\<lparr>mr_proof := tag\<rparr>)"
  by (simp add: enrollment_of_def receipt_input_def receipt_fields_def)

lemma verify_mint:
  assumes "receipt_mint rc key e p = Inr r" and "length (mr_proof r) = 32"
    and "en_epoch e' = en_epoch e" and "en_revision e \<le> en_revision e'"
    and "enrollment_of q = enrollment_of p" and "\<not> pr_revoked q" and "pr_incarnation q \<noteq> []"
  shows "receipt_verify rc key e' q r = Inr ()"
proof -
  from assms(1) obtain k where k: "rc_hkdf rc receipt_domain (as_bytes key) ''private checkpoint proof signing'' = Some k"
    and r: "r = \<lparr>mr_epoch = en_epoch e, mr_sequence = en_revision e,
      mr_proof = rc_hmac rc k (receipt_input p \<lparr>mr_epoch = en_epoch e, mr_sequence = en_revision e, mr_proof = []\<rparr>)\<rparr>"
    by (auto simp: receipt_mint_def receipt_mac_def Let_def)
  have "receipt_input q r = receipt_input p \<lparr>mr_epoch = en_epoch e, mr_sequence = en_revision e, mr_proof = []\<rparr>"
    using assms(5) by (simp add: r receipt_input_def receipt_fields_def enrollment_of_def)
  then have "receipt_mac rc key q r = Inr (mr_proof r)" using k r by (simp add: receipt_mac_def)
  then show ?thesis using assms(2-4,6,7) r by (simp add: receipt_verify_def)
qed

lemma verify_ok:
  assumes "receipt_verify rc key e p r = Inr ()"
  shows "\<not> pr_revoked p" "mr_epoch r = en_epoch e" "mr_sequence r \<le> en_revision e"
    "length (mr_proof r) = 32" "receipt_mac rc key p r = Inr (mr_proof r)"
  using assms by (auto simp: receipt_verify_def not_less split: if_splits)

text \<open>
  A receipt minted for one enrollment that verifies for another needs two different inputs of
  the HMAC with the same tag.
\<close>

lemma verify_other_enrollment:
  assumes "receipt_mint rc key e p = Inr m" and "receipt_verify rc key e' q r = Inr ()"
    and "mr_proof r = mr_proof m" and "fields_short p m" and "fields_short q r"
    and "enrollment_of q \<noteq> enrollment_of p \<or> mr_epoch r \<noteq> mr_epoch m \<or> mr_sequence r \<noteq> mr_sequence m"
  shows "\<exists>k x y. x \<noteq> y \<and> rc_hmac rc k x = rc_hmac rc k y"
proof -
  from assms(1) obtain k where k: "rc_hkdf rc receipt_domain (as_bytes key) ''private checkpoint proof signing'' = Some k"
    and m: "mr_proof m = rc_hmac rc k (receipt_input p m)"
    by (auto simp: receipt_mint_def receipt_mac_def receipt_input_def receipt_fields_def Let_def)
  have r: "mr_proof r = rc_hmac rc k (receipt_input q r)"
    using verify_ok(5)[OF assms(2)] k by (simp add: receipt_mac_def)
  have "receipt_input q r \<noteq> receipt_input p m"
    using receipt_input_inject[of q r p m] assms(4-6) by auto
  then show ?thesis using m r assms(3) by metis
qed

end
