(* ===== verification/Session_Pairing.thy ===== *)
theory Session_Pairing
  imports Session_Laws Pair_Safety Receipt
begin

text \<open>
  \<open>session/pairing.rs\<close>: the session as the handler behind an enrollment. \<open>sh\<close> is the
  \<open>Handler\<close>: the generation it was made in, the expected inviter, the addresses to
  remember and the recovery and repair flags. \<open>rng\<close> gives the \<open>random_id\<close> calls of one
  operation, each call its own index.
\<close>

record session_handler =
  sh_generation :: u64
  sh_expected :: "identity option"
  sh_addresses :: "socket_addr list"
  sh_recovering :: bool
  sh_repair :: bool

record session_invitation =
  si_invitation :: pairing_invitation
  si_identity :: identity
  si_addresses :: "socket_addr list"

definition si_decode ::
  "(string \<Rightarrow> session_invitation result) \<Rightarrow> string \<Rightarrow> session_invitation result" where
  "si_decode json s =
     (if 16 * 1024 < length s then fail ''invitation too large''
      else bindR (json s) (\<lambda>i.
           bindR (inv_validate (si_invitation i)) (\<lambda>_.
             if si_addresses i = [] \<or> 32 < length (si_addresses i)
                \<or> id_app (si_identity i) \<noteq> m_app_id (dm_manifest (inv_metadata (si_invitation i)))
             then fail ''invalid invitation destination'' else Inr i)))"

definition sh_check :: "session_handler \<Rightarrow> envelope_body \<Rightarrow> unit result" where
  "sh_check sh e =
     (if en_phase e \<noteq> Running \<or> en_generation e \<noteq> sh_generation sh then Inl Cancelled else Inr ())"

definition sh_validate ::
  "session_config \<Rightarrow> session_handler \<Rightarrow> envelope_body \<Rightarrow> pairing_outcome \<Rightarrow> unit result" where
  "sh_validate cg sh e outcome =
     bindR (sh_check sh e) (\<lambda>_.
       if (case sh_expected sh of None \<Rightarrow> False | Some i \<Rightarrow> i \<noteq> po_identity outcome)
       then fail ''authenticated inviter differs from invitation destination''
       else if \<not> compatible_with (dm_manifest (cg_metadata cg)) (dm_manifest (po_metadata outcome))
               \<or> id_app (po_identity outcome) \<noteq> id_app (en_identity e)
               \<or> id_device (po_identity outcome) = id_device (en_identity e)
       then fail ''incompatible enrollment identity or schema''
       else case bm_get (en_peers e) (id_device (po_identity outcome)) of
              None \<Rightarrow> Inr ()
            | Some p \<Rightarrow>
                if (pr_revoked p \<or> pr_fingerprint p \<noteq> po_fingerprint outcome) \<and> \<not> sh_repair sh
                then fail ''peer revoked or fingerprint changed; explicit repair required''
                else Inr ())"

section \<open>Preparing and committing an enrollment\<close>

definition prepare_op ::
  "session_config \<Rightarrow> session_handler \<Rightarrow> pairing_outcome \<Rightarrow> envelope_body \<Rightarrow>
   (unit \<times> envelope_body) result" where
  "prepare_op cg sh outcome e =
     bindR (sh_validate cg sh e outcome) (\<lambda>_.
       Inr ((), e\<lparr>en_preparations := bm_insert (po_invitation_id outcome)
                   \<lparr>pn_addresses = sh_addresses sh, pn_outcome = outcome,
                    pn_generation = sh_generation sh\<rparr> (en_preparations e)\<rparr>))"

fun renew_incarnations ::
  "(nat \<Rightarrow> string) \<Rightarrow> nat \<Rightarrow> (string, peer) bmap \<Rightarrow> (string, peer) bmap" where
  "renew_incarnations rng i [] = []"
| "renew_incarnations rng i ((d, p) # ps) =
     (d, p\<lparr>pr_incarnation := rng i\<rparr>) # renew_incarnations rng (Suc i) ps"

definition new_peer :: "identity \<Rightarrow> device_metadata \<Rightarrow> string \<Rightarrow> string \<Rightarrow> peer" where
  "new_peer ident metadata fp incarnation =
     \<lparr>pr_identity = ident, pr_metadata = metadata, pr_fingerprint = fp, pr_addresses = [],
      pr_stored = default_receipt, pr_applied = default_receipt, pr_incarnation = incarnation,
      pr_transmitted = default_receipt, pr_received = default_receipt,
      pr_processed = default_receipt, pr_bootstrapped = False, pr_state = Waiting,
      pr_pending = None, pr_revoked = False\<rparr>"

text \<open>Re-enrollment keeps only the known addresses of the old peer.\<close>

definition reset_peer :: "identity \<Rightarrow> device_metadata \<Rightarrow> string \<Rightarrow> string \<Rightarrow> peer \<Rightarrow> peer" where
  "reset_peer ident metadata fp incarnation p =
     p\<lparr>pr_identity := ident, pr_metadata := metadata, pr_fingerprint := fp, pr_revoked := False,
       pr_stored := default_receipt, pr_applied := default_receipt,
       pr_incarnation := incarnation, pr_transmitted := default_receipt,
       pr_received := default_receipt, pr_processed := default_receipt,
       pr_bootstrapped := False, pr_pending := None, pr_state := Waiting\<rparr>"

definition commit_allowed ::
  "session_config \<Rightarrow> session_handler \<Rightarrow> pairing_outcome \<Rightarrow> app_key \<Rightarrow> envelope_body \<Rightarrow> unit result" where
  "commit_allowed cg sh outcome key e =
     bindR (sh_validate cg sh e outcome) (\<lambda>_.
       if en_group_key e \<noteq> as_bytes key \<and> list_ex (\<lambda>p. \<not> pr_revoked p) (bm_values (en_peers e))
       then fail_code GroupConflict ''cannot replace transport key of an enrolled group''
       else case bm_get (en_preparations e) (po_invitation_id outcome) of
              None \<Rightarrow> Inr ()
            | Some p \<Rightarrow>
                if \<not> sh_recovering sh \<and> pn_generation p \<noteq> sh_generation sh \<or> pn_outcome p \<noteq> outcome
                then fail ''pairing preparation changed'' else Inr ())"

definition of_device :: "string \<Rightarrow> pairing_outcome \<Rightarrow> bool" where
  "of_device d outcome = (id_device (po_identity outcome) = d)"

text \<open>A replaced group key gives every peer a new incarnation.\<close>

definition enroll_peers :: "(nat \<Rightarrow> string) \<Rightarrow> app_key \<Rightarrow> envelope_body \<Rightarrow> (string, peer) bmap" where
  "enroll_peers rng key e =
     (if en_group_key e \<noteq> as_bytes key then renew_incarnations rng 0 (en_peers e) else en_peers e)"

definition enroll ::
  "session_handler \<Rightarrow> (nat \<Rightarrow> string) \<Rightarrow> pairing_outcome \<Rightarrow> app_key \<Rightarrow> envelope_body \<Rightarrow> envelope_body" where
  "enroll sh rng outcome key e =
     (let invitation = po_invitation_id outcome;
          ident = po_identity outcome; device = id_device ident;
          metadata = po_metadata outcome; fp = po_fingerprint outcome;
          peers = enroll_peers rng key e;
          fresh = (case bm_get (en_enrollments e) invitation of
                     None \<Rightarrow> True | Some j \<Rightarrow> er_outcome j \<noteq> outcome);
          existed = bm_has peers device;
          entered = (if existed then peers
                     else bm_insert device (new_peer ident metadata fp (rng (length peers))) peers);
          (kept, reset) =
            (if fresh \<and> (sh_repair sh \<or> existed)
             then (bm_retain (\<lambda>_ j. \<not> of_device device (er_outcome j)) (en_enrollments e),
                   bm_update device (reset_peer ident metadata fp (rng (Suc (length peers)))) entered)
             else (en_enrollments e, entered))
      in e\<lparr>en_group_key := as_bytes key, en_peers := reset,
           en_enrollments := bm_insert invitation
             \<lparr>er_outcome = outcome, er_generation = sh_generation sh\<rparr> kept,
           en_preparations := bm_remove invitation (en_preparations e)\<rparr>)"

definition commit_op ::
  "session_config \<Rightarrow> session_handler \<Rightarrow> (nat \<Rightarrow> string) \<Rightarrow> pairing_outcome \<Rightarrow> app_key \<Rightarrow>
   envelope_body \<Rightarrow> (unit \<times> envelope_body) result" where
  "commit_op cg sh rng outcome key e =
     bindR (commit_allowed cg sh outcome key e) (\<lambda>_. Inr ((), enroll sh rng outcome key e))"

text \<open>Whether \<open>mutate\<close> runs its operation, and the operation succeeds.\<close>

definition closure_reached ::
  "session_config \<Rightarrow> (envelope_body \<Rightarrow> ('r \<times> envelope_body) result) \<Rightarrow> session_world \<Rightarrow> bool" where
  "closure_reached cg operation w =
     (\<not> sn_uncertain w \<and>
      (case settle cg w of
         (Inl _, _) \<Rightarrow> False
       | (Inr _, w1) \<Rightarrow> is_ok (operation (en_body (sn_envelope w1)))))"

definition session_prepare ::
  "session_config \<Rightarrow> session_handler \<Rightarrow> string \<Rightarrow> pairing_outcome \<Rightarrow> session_world \<Rightarrow>
   unit result \<times> session_world" where
  "session_prepare cg sh fresh outcome w = mutate cg fresh (prepare_op cg sh outcome) w"

text \<open>The wake-up is the last statement of the committed closure.\<close>

definition session_commit ::
  "session_config \<Rightarrow> session_handler \<Rightarrow> string \<Rightarrow> (nat \<Rightarrow> string) \<Rightarrow> string \<Rightarrow> identity \<Rightarrow>
   device_metadata \<Rightarrow> string \<Rightarrow> app_key \<Rightarrow> session_world \<Rightarrow> unit result \<times> session_world" where
  "session_commit cg sh fresh rng invitation ident metadata fp key w =
     (let operation = commit_op cg sh rng
            \<lparr>po_invitation_id = invitation, po_identity = ident, po_metadata = metadata,
             po_fingerprint = fp\<rparr> key
      in case mutate cg fresh operation w of
           (r, w') \<Rightarrow> (r, if closure_reached cg operation w then wake w' else w'))"

definition session_recover ::
  "session_handler \<Rightarrow> string \<Rightarrow> identity \<Rightarrow> string \<Rightarrow> session_world \<Rightarrow> device_metadata option result" where
  "session_recover sh invitation ident fp w =
     (let e = en_body (sn_envelope w) in
      bindR (sh_check sh e) (\<lambda>_. Inr
        (case bm_get (en_enrollments e) invitation of
           None \<Rightarrow> None
         | Some j \<Rightarrow>
             if po_identity (er_outcome j) = ident \<and> po_fingerprint (er_outcome j) = fp \<and>
                (case bm_get (en_peers e) (id_device ident) of
                   None \<Rightarrow> False | Some p \<Rightarrow> \<not> pr_revoked p \<and> pr_fingerprint p = fp)
             then Some (po_metadata (er_outcome j)) else None)))"

definition session_is_linked :: "session_handler \<Rightarrow> identity \<Rightarrow> session_world \<Rightarrow> bool" where
  "session_is_linked sh ident w =
     (let e = en_body (sn_envelope w) in
      is_ok (sh_check sh e) \<and>
      (case bm_get (en_peers e) (id_device ident) of
         None \<Rightarrow> False | Some p \<Rightarrow> \<not> pr_revoked p \<and> pr_identity p = ident))"

definition session_is_linked_with_fingerprint ::
  "session_handler \<Rightarrow> identity \<Rightarrow> string \<Rightarrow> session_world \<Rightarrow> bool" where
  "session_is_linked_with_fingerprint sh ident fp w =
     (let e = en_body (sn_envelope w) in
      is_ok (sh_check sh e) \<and>
      (case bm_get (en_peers e) (id_device ident) of
         None \<Rightarrow> False
       | Some p \<Rightarrow> \<not> pr_revoked p \<and> pr_identity p = ident \<and> pr_fingerprint p = fp))"

text \<open>The session as a \<open>DeviceHandler\<close>.\<close>

definition session_device_handler ::
  "session_config \<Rightarrow> session_handler \<Rightarrow> string \<Rightarrow> (nat \<Rightarrow> string) \<Rightarrow> session_world handler" where
  "session_device_handler cg sh fresh rng =
     \<lparr>hd_app_id = (\<lambda>_. m_app_id (dm_manifest (cg_metadata cg))),
      hd_allow_legacy_link = (\<lambda>_. False),
      hd_device_metadata = (\<lambda>_. Some (cg_metadata cg)),
      hd_pairing = (\<lambda>w. Some (sn_pairing w)),
      hd_put_pairing = (\<lambda>m w. w\<lparr>sn_pairing := m\<rparr>),
      hd_io_timeout = (\<lambda>_. Some (cg_io_timeout cg)),
      hd_prepare = session_prepare cg sh fresh,
      hd_commit = session_commit cg sh fresh rng,
      hd_recover = session_recover sh,
      hd_app_key = (\<lambda>w. app_key_from_slice (en_group_key (en_body (sn_envelope w)))),
      hd_set_app_key = (\<lambda>_ w. (Inl (Protocol ''app key updates not supported''), w)),
      hd_is_linked = session_is_linked sh,
      hd_is_linked_with_fingerprint = session_is_linked_with_fingerprint sh,
      hd_approve_link_with_fingerprint = (\<lambda>_ _ w. (Inr False, w)),
      hd_pairing_secret = (\<lambda>_. None)\<rparr>"


section \<open>What enrollment keeps\<close>

text \<open>Every journaled enrollment has its peer, live and under the pin it was enrolled with.\<close>

definition enroll_ok :: "envelope_body \<Rightarrow> bool" where
  "enroll_ok e \<longleftrightarrow>
     bm_ok (en_peers e) \<and> bm_ok (en_enrollments e) \<and> bm_ok (en_preparations e) \<and>
     (\<forall>d p. bm_get (en_peers e) d = Some p \<longrightarrow> id_device (pr_identity p) = d) \<and>
     (\<forall>k j. bm_get (en_enrollments e) k = Some j \<longrightarrow>
        (\<exists>p. bm_get (en_peers e) (id_device (po_identity (er_outcome j))) = Some p \<and>
           \<not> pr_revoked p \<and> pr_identity p = po_identity (er_outcome j) \<and>
           pr_fingerprint p = po_fingerprint (er_outcome j)))"

lemma renew_keys [simp]: "map fst (renew_incarnations rng i m) = map fst m"
  by (induction rng i m rule: renew_incarnations.induct) auto

lemma bm_ok_renew: "bm_ok m \<Longrightarrow> bm_ok (renew_incarnations rng i m)"
  by (simp add: bm_ok_def)

lemma length_renew [simp]: "length (renew_incarnations rng i m) = length m"
  by (metis renew_keys length_map)

lemma renew_get:
  "bm_get (renew_incarnations rng i m) d = Some q \<Longrightarrow>
   \<exists>p inc. bm_get m d = Some p \<and> q = p\<lparr>pr_incarnation := inc\<rparr>"
  by (induction rng i m rule: renew_incarnations.induct) (auto split: if_splits)

lemma renew_get_Some:
  "bm_get m d = Some p \<Longrightarrow> \<exists>inc. bm_get (renew_incarnations rng i m) d = Some (p\<lparr>pr_incarnation := inc\<rparr>)"
  by (induction rng i m rule: renew_incarnations.induct) (auto split: if_splits)

lemma renew_has [simp]: "bm_has (renew_incarnations rng i m) d = bm_has m d"
  by (simp add: bm_has_iff)

lemma sh_check_Inr [simp]:
  "sh_check sh e = Inr u \<longleftrightarrow> en_phase e = Running \<and> en_generation e = sh_generation sh"
  by (auto simp: sh_check_def)

lemma sh_validate_Inr:
  assumes "sh_validate cg sh e outcome = Inr u"
  shows "en_phase e = Running" "en_generation e = sh_generation sh"
    "sh_expected sh \<noteq> None \<Longrightarrow> sh_expected sh = Some (po_identity outcome)"
    "compatible_with (dm_manifest (cg_metadata cg)) (dm_manifest (po_metadata outcome))"
    "id_app (po_identity outcome) = id_app (en_identity e)"
    "id_device (po_identity outcome) \<noteq> id_device (en_identity e)"
    "bm_get (en_peers e) (id_device (po_identity outcome)) = Some p \<Longrightarrow> \<not> sh_repair sh \<Longrightarrow>
      \<not> pr_revoked p \<and> pr_fingerprint p = po_fingerprint outcome"
  using assms by (auto simp: sh_validate_def split: if_splits option.splits)

lemma commit_allowed_Inr:
  assumes "commit_allowed cg sh outcome key e = Inr u"
  shows "sh_validate cg sh e outcome = Inr ()"
    "en_group_key e = as_bytes key \<or> (\<forall>p\<in>set (bm_values (en_peers e)). pr_revoked p)"
    "bm_get (en_preparations e) (po_invitation_id outcome) = Some p \<Longrightarrow> pn_outcome p = outcome"
  using assms
  by (auto simp: commit_allowed_def list_ex_iff fail_code_def split: if_splits option.splits)

lemma enroll_peers_get:
  assumes "bm_get (enroll_peers rng key e) d = Some q"
  shows "\<exists>p inc. bm_get (en_peers e) d = Some p \<and> q = p\<lparr>pr_incarnation := inc\<rparr>"
proof (cases "en_group_key e = as_bytes key")
  case True
  then show ?thesis using assms
    by (intro exI[of _ q] exI[of _ "pr_incarnation q"]) (simp add: enroll_peers_def)
next
  case False
  then have "bm_get (renew_incarnations rng 0 (en_peers e)) d = Some q"
    using assms by (simp add: enroll_peers_def)
  then show ?thesis by (rule renew_get)
qed

lemma enroll_peers_get_Some:
  assumes "bm_get (en_peers e) d = Some p"
  shows "\<exists>inc. bm_get (enroll_peers rng key e) d = Some (p\<lparr>pr_incarnation := inc\<rparr>)"
proof (cases "en_group_key e = as_bytes key")
  case True
  then show ?thesis using assms
    by (intro exI[of _ "pr_incarnation p"]) (simp add: enroll_peers_def)
next
  case False
  then show ?thesis using renew_get_Some[OF assms] by (simp add: enroll_peers_def)
qed

lemma bm_ok_enroll_peers: "bm_ok (en_peers e) \<Longrightarrow> bm_ok (enroll_peers rng key e)"
  by (simp add: enroll_peers_def bm_ok_renew)

lemma enroll_peers_has [simp]: "bm_has (enroll_peers rng key e) d = bm_has (en_peers e) d"
  by (simp add: enroll_peers_def)

text \<open>The peer entry after an enrollment: entered, reset, or kept as it was.\<close>

lemma enroll_frame:
  "en_records (enroll sh rng outcome key e) = en_records e"
  "en_revision (enroll sh rng outcome key e) = en_revision e"
  "en_identity (enroll sh rng outcome key e) = en_identity e"
  "en_phase (enroll sh rng outcome key e) = en_phase e"
  "en_generation (enroll sh rng outcome key e) = en_generation e"
  "en_group_key (enroll sh rng outcome key e) = as_bytes key"
  by (simp_all add: enroll_def Let_def split: prod.splits)

definition already_enrolled :: "pairing_outcome \<Rightarrow> envelope_body \<Rightarrow> bool" where
  "already_enrolled outcome e \<longleftrightarrow>
     (\<exists>j. bm_get (en_enrollments e) (po_invitation_id outcome) = Some j \<and> er_outcome j = outcome)"

lemma enroll_peer:
  assumes "enroll_ok e"
  shows "\<exists>p. bm_get (en_peers (enroll sh rng outcome key e)) (id_device (po_identity outcome)) = Some p \<and>
    \<not> pr_revoked p \<and> pr_identity p = po_identity outcome \<and> pr_fingerprint p = po_fingerprint outcome \<and>
    (\<not> already_enrolled outcome e \<longrightarrow> \<not> pr_bootstrapped p \<and> pr_received p = default_receipt \<and>
       pr_stored p = default_receipt \<and> pr_applied p = default_receipt)"
proof -
  let ?d = "id_device (po_identity outcome)" and ?ps = "enroll_peers rng key e"
  let ?fresh = "case bm_get (en_enrollments e) (po_invitation_id outcome) of
     None \<Rightarrow> True | Some j \<Rightarrow> er_outcome j \<noteq> outcome"
  have fresh: "?fresh \<longleftrightarrow> \<not> already_enrolled outcome e"
    by (auto simp: already_enrolled_def split: option.splits)
  show ?thesis
  proof (cases "bm_get (en_peers e) ?d")
    case None
    then have no: "\<not> bm_has (en_peers e) ?d" by (simp add: bm_has_def)
    show ?thesis
      using no fresh by (simp add: enroll_def Let_def bm_get_insert bm_get_update new_peer_def reset_peer_def)
  next
    case (Some p)
    then have has: "bm_has (en_peers e) ?d" by (simp add: bm_has_def)
    obtain inc where inc: "bm_get ?ps ?d = Some (p\<lparr>pr_incarnation := inc\<rparr>)"
      using enroll_peers_get_Some[OF Some] by blast
    show ?thesis
    proof (cases "already_enrolled outcome e")
      case False
      then show ?thesis
        using has fresh inc by (simp add: enroll_def Let_def bm_get_update reset_peer_def)
    next
      case True
      then have "\<not> pr_revoked p \<and> pr_identity p = po_identity outcome \<and>
          pr_fingerprint p = po_fingerprint outcome"
        using assms Some unfolding enroll_ok_def already_enrolled_def by fastforce
      then show ?thesis using has fresh inc True by (simp add: enroll_def Let_def)
    qed
  qed
qed

lemma enroll_other:
  assumes "d \<noteq> id_device (po_identity outcome)"
    and "bm_get (en_peers (enroll sh rng outcome key e)) d = Some q"
  shows "\<exists>p inc. bm_get (en_peers e) d = Some p \<and> q = p\<lparr>pr_incarnation := inc\<rparr>"
  using assms
  by (intro enroll_peers_get)
     (auto simp: enroll_def Let_def bm_get_insert bm_get_update split: if_splits)

lemma enroll_other_Some:
  assumes "d \<noteq> id_device (po_identity outcome)" and "bm_get (en_peers e) d = Some p"
  shows "\<exists>inc. bm_get (en_peers (enroll sh rng outcome key e)) d = Some (p\<lparr>pr_incarnation := inc\<rparr>)"
  using assms enroll_peers_get_Some[OF assms(2), of rng key]
  by (auto simp: enroll_def Let_def bm_get_insert bm_get_update)

text \<open>The enrollments after: the new one, and of the others those that were kept.\<close>

lemma enroll_enrollments:
  assumes "enroll_ok e" and "k \<noteq> po_invitation_id outcome"
    and "bm_get (en_enrollments (enroll sh rng outcome key e)) k = Some j"
  shows "bm_get (en_enrollments e) k = Some j \<and>
    (of_device (id_device (po_identity outcome)) (er_outcome j) \<longrightarrow> already_enrolled outcome e)"
proof -
  let ?d = "id_device (po_identity outcome)"
  let ?fresh = "case bm_get (en_enrollments e) (po_invitation_id outcome) of
     None \<Rightarrow> True | Some j \<Rightarrow> er_outcome j \<noteq> outcome"
  let ?drop = "?fresh \<and> (sh_repair sh \<or> bm_has (en_peers e) ?d)"
  have fresh: "\<not> ?fresh \<Longrightarrow> already_enrolled outcome e"
    by (auto simp: already_enrolled_def split: option.splits)
  have ok: "bm_ok (en_enrollments e)" using assms(1) by (simp add: enroll_ok_def)
  have after: "en_enrollments (enroll sh rng outcome key e) =
      bm_insert (po_invitation_id outcome) \<lparr>er_outcome = outcome, er_generation = sh_generation sh\<rparr>
        (if ?drop then bm_retain (\<lambda>_ j. \<not> of_device ?d (er_outcome j)) (en_enrollments e)
         else en_enrollments e)"
    unfolding enroll_def Let_def enroll_peers_has by (cases ?drop) (simp, simp, blast)
  show ?thesis
  proof (cases ?drop)
    case True
    then show ?thesis using assms(2,3) unfolding after
      by (auto simp: bm_get_insert bm_get_retain[OF ok] split: option.splits if_splits)
  next
    case False
    then have get: "bm_get (en_enrollments e) k = Some j"
      using assms(2,3) unfolding after by (simp only: if_False bm_get_insert) simp
    have "already_enrolled outcome e" if "of_device ?d (er_outcome j)"
    proof -
      have "bm_has (en_peers e) ?d"
        using assms(1) get that unfolding enroll_ok_def of_device_def bm_has_def
        by (metis option.distinct(1))
      then show ?thesis using False fresh by blast
    qed
    with get show ?thesis by blast
  qed
qed

lemma enroll_own:
  "bm_get (en_enrollments (enroll sh rng outcome key e)) (po_invitation_id outcome) =
   Some \<lparr>er_outcome = outcome, er_generation = sh_generation sh\<rparr>"
  by (simp add: enroll_def Let_def bm_get_insert split: prod.splits)

lemma enroll_ok_enroll:
  assumes "enroll_ok e"
  shows "enroll_ok (enroll sh rng outcome key e)"
proof -
  let ?e = "enroll sh rng outcome key e" and ?d = "id_device (po_identity outcome)"
  obtain p where p: "bm_get (en_peers ?e) ?d = Some p" "\<not> pr_revoked p"
    "pr_identity p = po_identity outcome" "pr_fingerprint p = po_fingerprint outcome"
    using enroll_peer[OF assms] by blast
  have own: "bm_ok (en_peers ?e) \<and> bm_ok (en_enrollments ?e) \<and> bm_ok (en_preparations ?e)"
    using assms
    by (auto simp: enroll_def Let_def enroll_ok_def intro!: bm_intros bm_ok_enroll_peers)
  have ids: "id_device (pr_identity q) = d" if q: "bm_get (en_peers ?e) d = Some q" for d q
  proof (cases "d = ?d")
    case False
    obtain r inc where "bm_get (en_peers e) d = Some r" "q = r\<lparr>pr_incarnation := inc\<rparr>"
      using enroll_other[OF False q] by blast
    then show ?thesis using assms by (simp add: enroll_ok_def)
  qed (use p q in simp)
  have "\<exists>q. bm_get (en_peers ?e) (id_device (po_identity (er_outcome j))) = Some q \<and> \<not> pr_revoked q \<and>
      pr_identity q = po_identity (er_outcome j) \<and> pr_fingerprint q = po_fingerprint (er_outcome j)"
    if j: "bm_get (en_enrollments ?e) k = Some j" for k j
  proof (cases "k = po_invitation_id outcome")
    case True
    then have "er_outcome j = outcome" using j enroll_own by force
    then show ?thesis using p by blast
  next
    case False
    note old = enroll_enrollments[OF assms False j]
    obtain q where q: "bm_get (en_peers e) (id_device (po_identity (er_outcome j))) = Some q"
      "\<not> pr_revoked q" "pr_identity q = po_identity (er_outcome j)"
      "pr_fingerprint q = po_fingerprint (er_outcome j)"
      using assms old unfolding enroll_ok_def by blast
    show ?thesis
    proof (cases "id_device (po_identity (er_outcome j)) = ?d")
      case True
      then have "already_enrolled outcome e" using old by (simp add: of_device_def)
      then obtain i where "bm_get (en_enrollments e) (po_invitation_id outcome) = Some i" "er_outcome i = outcome"
        by (auto simp: already_enrolled_def)
      then have "pr_identity q = po_identity outcome \<and> pr_fingerprint q = po_fingerprint outcome"
        using assms q(1) True unfolding enroll_ok_def by fastforce
      then show ?thesis using p q True by metis
    next
      case False
      then show ?thesis using enroll_other_Some[OF False q(1), of sh rng key] q by auto
    qed
  qed
  then show ?thesis using own ids unfolding enroll_ok_def by blast
qed

lemma commit_op_Inr:
  "commit_op cg sh rng outcome key e = Inr (u, e') \<longleftrightarrow>
     commit_allowed cg sh outcome key e = Inr () \<and> e' = enroll sh rng outcome key e"
  by (auto simp: commit_op_def)

lemma prepare_op_Inr:
  "prepare_op cg sh outcome e = Inr (u, e') \<longleftrightarrow>
     sh_validate cg sh e outcome = Inr () \<and>
     e' = e\<lparr>en_preparations := bm_insert (po_invitation_id outcome)
             \<lparr>pn_addresses = sh_addresses sh, pn_outcome = outcome,
              pn_generation = sh_generation sh\<rparr> (en_preparations e)\<rparr>"
  by (auto simp: prepare_op_def)

lemma enroll_ok_prepare:
  "enroll_ok e \<Longrightarrow> prepare_op cg sh outcome e = Inr (u, e') \<Longrightarrow> enroll_ok e'"
  by (auto simp: prepare_op_Inr enroll_ok_def intro: bm_intros)

end
