(* ===== verification/Props_Session.thy ===== *)
theory Props_Session
  imports Session_Pairing Demo
begin

text \<open>
  The properties of the managed session: merging and publishing managed records, atomic durable
  mutation, recovery of its journal, reads after writes, checkpoint proofs, and enrollment.
\<close>

section \<open>A concrete session\<close>

definition demo_key :: "string \<Rightarrow> string \<Rightarrow> string result" where
  "demo_key a i = Inr (replicate (length a) CHR ''k'' @ CHR ''/'' # a @ i)"

definition demo_config :: session_config where
  "demo_config =
     \<lparr>cg_metadata = demo_metadata, cg_listen = SockV4 0 0, cg_advertise = False,
      cg_adapters = [(''notes'', records_adapter ''tx'' (hd (m_adapters demo_manifest)))],
      cg_recovery_retention = 3, cg_catch_up = 60, cg_debounce = 1, cg_io_timeout = 30,
      cg_record_key = demo_key, cg_batch_size = (\<lambda>b. Some (length (eb_records b)))\<rparr>"

definition demo_body :: envelope_body where
  "demo_body =
     \<lparr>en_version = 1, en_recovery = [], en_identity = inviter, en_metadata = demo_metadata,
      en_group_key = replicate 32 9, en_epoch = ''e'', en_revision = 0, en_local_revision = 0,
      en_sequences = [], en_origins = [], en_peers = [], en_enrollments = [], en_preparations = [],
      en_phase = Running, en_generation = 1, en_records = []\<rparr>"

definition demo_session :: session_world where
  "demo_session =
     \<lparr>sn_envelope = Envelope demo_body None, sn_disk = Envelope demo_body None, sn_uncertain = False,
      sn_saves = [], sn_events = [], sn_diagnostics = [], sn_woken = False, sn_pairing = pm_new,
      sn_invitation = None, sn_runtime = None, sn_discovered = [], sn_active = {}, sn_published = [],
      sn_publish_faults = []\<rparr>"


lemma demo_synced: "synced demo_session" "en_prepared (sn_envelope demo_session) = None"
  by (simp_all add: synced_def demo_session_def)

lemma demo_body_ok: "body_ok cg demo_body"
  by (simp add: body_ok_def demo_body_def)


section \<open>Managed records\<close>

text \<open>
  the records adapter merges a set of managed records the same way in whatever order they
  come and however often, and never fails, when all belong to the adapter and a record id and
  clock name one record.
\<close>

theorem managed_merge_order:
  assumes "managed_ok m" and "\<forall>r\<in>set rs. mg_adapter r = a" and "set rs = set qs"
    and det: "clock_determines mg_id mg_clock (set (bm_values m) \<union> set rs)"
  shows "\<exists>m'. foldR (merge_managed a) m rs = Inr m' \<and> foldR (merge_managed a) m qs = Inr m' \<and>
    foldR (merge_managed a) m (rs @ qs) = Inr m'"
proof -
  have run: "foldR (merge_managed a) m xs = Inr (fold managed_put xs m)" if "set xs = set rs" for xs
    by (rule merge_managed_defined[OF _ assms(1)]) (use that assms(2) det in auto)
  have ok: "managed_ok (fold managed_put xs m)" for xs by (rule managed.ok_puts[OF assms(1)])
  have "fold managed_put xs m = fold managed_put rs m" if "set xs = set rs" for xs
  proof (rule bm.map_ext)
    show "bm_get (fold managed_put xs m) = bm_get (fold managed_put rs m)"
    proof
      fix k
      have "clock_determines mg_id mg_clock ({x. bm_get m k = Some x} \<union> set xs)"
        by (rule clock_determines_subset[OF det]) (use that bm_get_in_values in auto)
      then show "bm_get (fold managed_put xs m) k = bm_get (fold managed_put rs m) k"
        by (rule managed.order_independent[OF assms(1) that])
    qed
  qed (use ok in \<open>auto simp: managed_ok_def\<close>)
  then show ?thesis using run[OF refl] run[of qs] run[of "rs @ qs"] assms(3) by (metis set_append sup.idem)
qed

definition demo_note :: "u64 \<Rightarrow> bytes \<Rightarrow> managed_record" where
  "demo_note n v = \<lparr>mg_adapter = ''notes'', mg_id = ''1'', mg_value = v, mg_deleted = False,
     mg_clock = LamportClock n ''host''\<rparr>"

lemma managed_merge_order_witness:
  "\<exists>m'. foldR (merge_managed ''notes'') [] [demo_note 1 [5], demo_note 2 [6]] = Inr m' \<and>
     foldR (merge_managed ''notes'') [] [demo_note 2 [6], demo_note 1 [5]] = Inr m'"
proof -
  have "clock_determines mg_id mg_clock (set (bm_values []) \<union> set [demo_note 1 [5], demo_note 2 [6]])"
    by (auto simp: clock_determines_def demo_note_def bm_values_def)
  moreover have "\<forall>r\<in>set [demo_note 1 [5], demo_note 2 [6]]. mg_adapter r = ''notes''" by (simp add: demo_note_def)
  moreover have "managed_ok []" by (simp add: managed_ok_def)
  moreover have "set [demo_note 1 [5], demo_note 2 [6]] = set [demo_note 2 [6], demo_note 1 [5]]" by auto
  ultimately show ?thesis
    using managed_merge_order[of "[]" "[demo_note 1 [5], demo_note 2 [6]]" "''notes''" "[demo_note 2 [6], demo_note 1 [5]]"]
    by blast
qed

text \<open>
  committing staged changes to the envelope keeps it well formed (each record under its
  own key, a sequence for exactly the stored keys and none above the revision, peers under
  their own id), never drops a record key, never lowers the revision, and touches neither the
  peers nor the identity, the group key or the phase.
\<close>

theorem publication_safe:
  assumes "body_ok cg e" and "commit_records cg e prepared origin = Inr e'"
  shows "body_ok cg e' \<and> en_revision e \<le> en_revision e' \<and>
    (\<forall>k. bm_has (en_records e) k \<longrightarrow> bm_has (en_records e') k) \<and>
    en_peers e' = en_peers e \<and> en_identity e' = en_identity e \<and> en_group_key e' = en_group_key e \<and>
    en_phase e' = en_phase e \<and> en_local_revision e' = en_local_revision e"
proof -
  obtain rs where "foldR (publish_one cg origin) e rs = Inr e'"
    using assms(2) by (rule commit_records_Inr)
  then show ?thesis
    using publish_all_grows body_ok_commit[OF assms] commit_records_frame[OF assms(2)] by blast
qed

definition demo_change :: prepared_change where
  "demo_change = \<lparr>chg_id = ''tx'', chg_adapter = ''notes'', chg_expected_revision = 0,
     chg_staged = [demo_note 1 [5]], chg_recovery = []\<rparr>"

lemma demo_commit: "\<exists>e'. commit_records demo_config demo_body [demo_change] None = Inr e' \<and> en_revision e' = 1"
  by (simp add: commit_records_def commit_one_def demo_config_def demo_change_def records_adapter_def
      default_adapter_def default_commit_def demo_manifest_def validate_records_def demo_note_def
      max_record_bytes_def publish_one_def demo_key_def demo_body_def u64_max_def)

lemma publication_safe_witness:
  "\<exists>e'. commit_records demo_config demo_body [demo_change] None = Inr e' \<and> body_ok demo_config e' \<and> en_peers e' = []"
proof -
  obtain e' where e': "commit_records demo_config demo_body [demo_change] None = Inr e'" using demo_commit by blast
  have "en_peers demo_body = []" by (simp add: demo_body_def)
  then show ?thesis using publication_safe[OF demo_body_ok e'] e' by auto
qed

section \<open>Durable mutation\<close>

text \<open>
  C9: a mutation of a session whose memory and disk agree is atomic. If it succeeds, memory and
  disk agree again on the new content. If saving fails, memory still has the old content, a
  reopen finds the old or the new content and nothing else, and either nothing happened or
  every later mutation is refused until the session is reopened.
\<close>

theorem mutate_atomic:
  assumes "synced w" and "en_prepared (sn_envelope w) = None"
    and "op (en_body (sn_envelope w)) = Inr (r, candidate)" and "mutate cg fresh op w = (result, w')"
  shows "let old = en_body (sn_envelope w); new = candidate_of cg fresh old candidate in
    (case result of
       Inr x \<Rightarrow> x = r \<and> synced w' \<and> en_prepared (sn_envelope w') = None \<and> en_body (sn_envelope w') = new
     | Inl err \<Rightarrow> en_body (sn_envelope w') = old \<and> reopened (sn_disk w') \<in> {old, new} \<and>
         (w' = w \<or> (\<forall>cg fresh op. mutate cg fresh op w' =
            (fail_code StorageCommitUncertain
               ''storage commit outcome uncertain; close and reopen session for recovery'' :: unit result, w'))))"
proof (cases result)
  case (Inl err)
  have run: "mutate cg fresh op w = (Inl err, w')" using assms(4) Inl by simp
  from mutate_Inl[OF assms(1,2) run assms(3)] show ?thesis
    unfolding Let_def Inl using mutate_refused by auto
next
  case (Inr x)
  obtain c where "op (en_body (sn_envelope w)) = Inr (x, c)" "synced w'" "en_prepared (sn_envelope w') = None"
    "en_body (sn_envelope w') = candidate_of cg fresh (en_body (sn_envelope w)) c"
    using assms(4) Inr by (auto elim: mutate_Inr[OF assms(1,2)])
  then show ?thesis using assms(3) Inr by (simp add: Let_def)
qed

definition demo_faulty :: session_world where
  "demo_faulty = demo_session\<lparr>sn_saves := [SaveUncertain Cancelled]\<rparr>"

lemma mutate_atomic_witness:
  "en_body (sn_envelope (snd (mutate demo_config ''tx'' (\<lambda>e. Inr ((), e\<lparr>en_phase := Paused\<rparr>)) demo_faulty))) = demo_body"
proof -
  have s: "synced demo_faulty" "en_prepared (sn_envelope demo_faulty) = None" "en_body (sn_envelope demo_faulty) = demo_body"
    by (simp_all add: synced_def demo_faulty_def demo_session_def)
  have "demo_body\<lparr>en_phase := Paused\<rparr> \<noteq> demo_body" by (simp add: demo_body_def)
  then obtain err w' where m: "mutate demo_config ''tx'' (\<lambda>e. Inr ((), e\<lparr>en_phase := Paused\<rparr>)) demo_faulty = (Inl err, w')"
    by (simp add: mutate_def settle_def demo_faulty_def demo_session_def commit_candidate_def save_candidate_def Let_def)
  have op: "(\<lambda>e. Inr ((), e\<lparr>en_phase := Paused\<rparr>)) (en_body (sn_envelope demo_faulty)) =
      (Inr ((), demo_body\<lparr>en_phase := Paused\<rparr>) :: (unit \<times> envelope_body) result)"
    by (simp add: s)
  from mutate_atomic[OF s(1,2) op m] show ?thesis by (simp add: m s Let_def)
qed

text \<open>
  the journal a record mutation leaves on disk can be replayed: for adapters with the
  provided recovery, recovering the transaction succeeds, so a reopened session settles it and
  serves the new content.
\<close>

theorem journal_replays:
  assumes "plain_adapters cg" and "fresh \<noteq> []" and "limits_state cg kept = Inr ()"
    and "en_identity kept = en_identity (en_body current)"
    and "sn_envelope w = Envelope (en_body current)
      (Some (PreparedTransaction fresh (journal_changes cg fresh (en_body current) kept) (Envelope kept None)))"
    and "sn_saves w = []"
  shows "\<exists>w'. settle cg w = (Inr (), w') \<and> sn_envelope w' = Envelope kept None \<and> sn_disk w' = Envelope kept None"
proof -
  have "recover_transaction cg (sn_envelope w)
      (PreparedTransaction fresh (journal_changes cg fresh (en_body current) kept) (Envelope kept None)) = Inr ()"
    using journal_recovers[OF assms(1-3), of "sn_envelope w"] assms(4,5) by simp
  then show ?thesis
    using assms(5,6) by (simp add: settle_def save_candidate_def publish_def)
qed

lemma journal_replays_witness:
  "\<exists>w'. settle demo_config (demo_session\<lparr>sn_envelope := Envelope demo_body
        (Some (PreparedTransaction ''tx'' (journal_changes demo_config ''tx'' demo_body (demo_body\<lparr>en_revision := 1\<rparr>))
          (Envelope (demo_body\<lparr>en_revision := 1\<rparr>) None)))\<rparr>) = (Inr (), w') \<and>
     sn_envelope w' = Envelope (demo_body\<lparr>en_revision := 1\<rparr>) None"
proof -
  have "plain_adapters demo_config"
    by (simp add: plain_adapters_def demo_config_def demo_manifest_def records_adapter_def default_adapter_def bm_ok_def)
  moreover have "limits_state demo_config (demo_body\<lparr>en_revision := 1\<rparr>) = Inr ()"
    by (simp add: limits_state_def demo_body_def bm_values_def max_batch_bytes_def bounded_json_def demo_config_def)
  ultimately show ?thesis
    using journal_replays[of demo_config "''tx''" "demo_body\<lparr>en_revision := 1\<rparr>" "Envelope demo_body None"
        "demo_session\<lparr>sn_envelope := Envelope demo_body
        (Some (PreparedTransaction ''tx'' (journal_changes demo_config ''tx'' demo_body (demo_body\<lparr>en_revision := 1\<rparr>))
          (Envelope (demo_body\<lparr>en_revision := 1\<rparr>) None)))\<rparr>"]
    by (auto simp: demo_session_def)
qed

section \<open>Reads after writes\<close>



lemma save_quiet: "sn_saves w = [] \<Longrightarrow> save_candidate e w = (Inr (), w\<lparr>sn_disk := e\<rparr>)"
  by (simp add: save_candidate_def)

lemma mutate_quiet:
  assumes "sn_saves w = []" and "\<not> sn_uncertain w" and "en_prepared (sn_envelope w) = None"
    and "op (en_body (sn_envelope w)) = Inr (r, c)" and "limits_state cg c = Inr ()"
  shows "\<exists>w'. mutate cg fresh op w = (Inr r, w')"
  using assms by (simp add: mutate_settled commit_candidate_def save_quiet publish_def Let_def)



section \<open>Checkpoint proofs\<close>

text \<open>
  A checkpoint proof is accepted back for as long as the enrollment it was made for lives
  and the history only grew, and for nothing else: a receipt that carries the same tag and is
  accepted names the same identity, fingerprint, incarnation, epoch and sequence, unless the
  HMAC collides on the two inputs.
\<close>

theorem receipt_binding:
  assumes mint: "receipt_mint rc key e p = Inr m" and len: "length (mr_proof m) = 32"
    and short: "fields_short p m" "fields_short q r"
    and nocoll: "\<And>k. rc_hmac rc k (receipt_input q r) = rc_hmac rc k (receipt_input p m) \<Longrightarrow>
      receipt_input q r = receipt_input p m"
  shows "(en_epoch e' = en_epoch e \<and> en_revision e \<le> en_revision e' \<and> enrollment_of q = enrollment_of p \<and>
       \<not> pr_revoked q \<and> pr_incarnation q \<noteq> [] \<longrightarrow> receipt_verify rc key e' q m = Inr ()) \<and>
    (receipt_verify rc key e' q r = Inr () \<and> mr_proof r = mr_proof m \<longrightarrow>
       enrollment_of q = enrollment_of p \<and> mr_epoch r = mr_epoch m \<and> mr_sequence r = mr_sequence m)"
proof (intro conjI impI)
  assume "en_epoch e' = en_epoch e \<and> en_revision e \<le> en_revision e' \<and> enrollment_of q = enrollment_of p \<and>
       \<not> pr_revoked q \<and> pr_incarnation q \<noteq> []"
  then show "receipt_verify rc key e' q m = Inr ()" using verify_mint[OF mint len] by blast
next
  assume v: "receipt_verify rc key e' q r = Inr () \<and> mr_proof r = mr_proof m"
  from mint obtain k where k: "rc_hkdf rc receipt_domain (as_bytes key) ''private checkpoint proof signing'' = Some k"
    and m: "mr_proof m = rc_hmac rc k (receipt_input p m)"
    by (auto simp: receipt_mint_def receipt_mac_def receipt_input_def receipt_fields_def Let_def)
  have "mr_proof r = rc_hmac rc k (receipt_input q r)"
    using verify_ok(5)[of rc key e' q r] v k by (simp add: receipt_mac_def)
  then have "receipt_input q r = receipt_input p m" using nocoll m v by metis
  from receipt_input_inject[OF this short(2,1)]
  show "enrollment_of q = enrollment_of p" "mr_epoch r = mr_epoch m" "mr_sequence r = mr_sequence m" by simp_all
qed

definition demo_peer :: peer where
  "demo_peer = new_peer joiner demo_metadata ''fp'' ''inc''"

definition demo_mac :: receipt_crypto where
  "demo_mac = \<lparr>rc_hkdf = (\<lambda>salt key label. Some key), rc_hmac = (\<lambda>key msg. take 32 (rev msg @ replicate 32 0))\<rparr>"

lemma receipt_binding_witness:
  "\<exists>m. receipt_mint demo_mac (AppKey [1]) demo_body demo_peer = Inr m \<and>
     receipt_verify demo_mac (AppKey [1]) (demo_body\<lparr>en_revision := 4\<rparr>) demo_peer m = Inr ()"
proof -
  obtain m where m: "receipt_mint demo_mac (AppKey [1]) demo_body demo_peer = Inr m" "length (mr_proof m) = 32"
      "mr_epoch m = ''e''"
    by (simp add: receipt_mint_def receipt_mac_def demo_mac_def Let_def demo_body_def)
  have short: "fields_short demo_peer m"
    by (simp add: fields_short_def receipt_fields_def demo_peer_def new_peer_def joiner_def identity_new_def
        receipt_domain_def m)
  show ?thesis
    using receipt_binding[OF m(1,2) short short, of "demo_body\<lparr>en_revision := 4\<rparr>"] m(1)
    by (simp add: demo_body_def demo_peer_def new_peer_def)
qed

section \<open>Enrollment\<close>

lemma candidate_same: "en_records new = en_records old \<Longrightarrow> candidate_of cg fresh old new = new"
  by (simp add: candidate_of_def)

text \<open>
  C13: when the session commits an enrollment, the peer is linked under exactly the proven
  identity and certificate, the enrollment can be recovered with its metadata, the group key is
  the agreed one, no record is touched, every other peer keeps its identity, its pin and its
  revocation, and the enrollment journal stays consistent with the peers.
\<close>

theorem commit_enrolls:
  assumes w: "synced w" "en_prepared (sn_envelope w) = None" and ok: "enroll_ok (en_body (sn_envelope w))"
    and c: "session_commit cg sh fresh rng invitation ident metadata fp key w = (Inr (), w')"
  shows "session_is_linked_with_fingerprint sh ident fp w' \<and>
    session_recover sh invitation ident fp w' = Inr (Some metadata) \<and>
    en_group_key (en_body (sn_envelope w')) = as_bytes key \<and>
    en_records (en_body (sn_envelope w')) = en_records (en_body (sn_envelope w)) \<and>
    (\<forall>d p. d \<noteq> id_device ident \<longrightarrow> bm_get (en_peers (en_body (sn_envelope w))) d = Some p \<longrightarrow>
       (\<exists>inc. bm_get (en_peers (en_body (sn_envelope w'))) d = Some (p\<lparr>pr_incarnation := inc\<rparr>))) \<and>
    enroll_ok (en_body (sn_envelope w')) \<and> synced w'"
proof -
  let ?o = "\<lparr>po_invitation_id = invitation, po_identity = ident, po_metadata = metadata, po_fingerprint = fp\<rparr>"
  let ?e = "en_body (sn_envelope w)"
  obtain w1 where m: "mutate cg fresh (commit_op cg sh rng ?o key) w = (Inr (), w1)"
    and w': "w' = w1 \<or> w' = wake w1"
    using c by (auto simp: session_commit_def Let_def split: prod.splits if_splits)
  obtain e' where e': "commit_op cg sh rng ?o key ?e = Inr ((), e')" and s: "synced w1"
      "en_body (sn_envelope w1) = candidate_of cg fresh ?e e'"
    using m by (auto elim: mutate_Inr[OF w])
  from e' have allowed: "commit_allowed cg sh ?o key ?e = Inr ()" and en: "e' = enroll sh rng ?o key ?e"
    by (simp_all add: commit_op_Inr)
  have body: "en_body (sn_envelope w') = enroll sh rng ?o key ?e"
    using w' s(2) candidate_same[of e' ?e] by (auto simp: en enroll_frame)
  have sync: "synced w'" using w' s(1) by (auto simp: synced_def wake_def)
  note v = sh_validate_Inr(1,2)[OF commit_allowed_Inr(1)[OF allowed]]
  have check: "is_ok (sh_check sh (enroll sh rng ?o key ?e))" using v by (simp add: is_ok_iff enroll_frame)
  obtain p where p: "bm_get (en_peers (enroll sh rng ?o key ?e)) (id_device ident) = Some p" "\<not> pr_revoked p"
      "pr_identity p = ident" "pr_fingerprint p = fp"
    using enroll_peer[OF ok, of sh rng ?o key] by auto
  have own: "bm_get (en_enrollments (enroll sh rng ?o key ?e)) invitation = Some \<lparr>er_outcome = ?o, er_generation = sh_generation sh\<rparr>"
    using enroll_own[of sh rng ?o key ?e] by simp
  show ?thesis
    using check p own sync enroll_ok_enroll[OF ok] enroll_other_Some[of _ ?o ?e] v
    by (simp add: session_is_linked_with_fingerprint_def session_recover_def body Let_def enroll_frame)
qed

definition demo_sh :: session_handler where
  "demo_sh = \<lparr>sh_generation = 1, sh_expected = None, sh_addresses = [], sh_recovering = False, sh_repair = False\<rparr>"

lemma demo_enroll_ok: "enroll_ok demo_body"
  by (simp add: enroll_ok_def demo_body_def)

lemma demo_commits:
  "\<exists>w'. session_commit demo_config demo_sh ''tx'' (\<lambda>n. ''inc'') demo_id joiner demo_metadata ''fp''
     (AppKey (replicate 32 9)) demo_session = (Inr (), w')"
proof -
  let ?o = "\<lparr>po_invitation_id = demo_id, po_identity = joiner, po_metadata = demo_metadata, po_fingerprint = ''fp''\<rparr>"
  let ?c = "enroll demo_sh (\<lambda>n. ''inc'') ?o (AppKey (replicate 32 9)) demo_body"
  have allowed: "commit_allowed demo_config demo_sh ?o (AppKey (replicate 32 9)) demo_body = Inr ()"
    by (simp add: commit_allowed_def sh_validate_def sh_check_def demo_sh_def demo_body_def demo_config_def joiner_def
        inviter_def identity_new_def)
  have op: "commit_op demo_config demo_sh (\<lambda>n. ''inc'') ?o (AppKey (replicate 32 9)) (en_body (sn_envelope demo_session)) =
      Inr ((), ?c)"
    using allowed by (simp add: commit_op_def demo_session_def)
  have "en_epoch ?c = ''e''" "en_metadata ?c = demo_metadata" "en_records ?c = []"
    by (simp_all add: enroll_def Let_def demo_body_def split: prod.splits if_splits)
  then have "limits_state demo_config ?c = Inr ()"
    by (simp add: limits_state_def bm_values_def max_batch_bytes_def bounded_json_def demo_config_def)
  then have "\<exists>w'. mutate demo_config ''tx'' (commit_op demo_config demo_sh (\<lambda>n. ''inc'') ?o (AppKey (replicate 32 9)))
      demo_session = (Inr (), w')"
    by (intro mutate_quiet[where op = "commit_op demo_config demo_sh (\<lambda>n. ''inc'') ?o (AppKey (replicate 32 9))" and c = ?c])
      (simp_all add: op, simp_all add: demo_session_def)
  then show ?thesis by (auto simp: session_commit_def Let_def)
qed

lemma commit_enrolls_witness:
  "\<exists>w'. session_commit demo_config demo_sh ''tx'' (\<lambda>n. ''inc'') demo_id joiner demo_metadata ''fp''
      (AppKey (replicate 32 9)) demo_session = (Inr (), w') \<and>
    session_is_linked_with_fingerprint demo_sh joiner ''fp'' w'"
proof -
  obtain w' where w': "session_commit demo_config demo_sh ''tx'' (\<lambda>n. ''inc'') demo_id joiner demo_metadata ''fp''
     (AppKey (replicate 32 9)) demo_session = (Inr (), w')"
    using demo_commits by blast
  have "enroll_ok (en_body (sn_envelope demo_session))" using demo_enroll_ok by (simp add: demo_session_def)
  from commit_enrolls[OF demo_synced this w'] w' show ?thesis by blast
qed

text \<open>
  an enrollment is refused, and nothing changes, when the session is not running in the
  handler's generation, when it would replace the group key while any enrolled peer is live,
  or when the peer is revoked or shows another certificate and no repair was asked for.
\<close>

theorem commit_refused:
  assumes "synced w" and "en_prepared (sn_envelope w) = None" and e: "e = en_body (sn_envelope w)"
    and bad: "en_phase e \<noteq> Running \<or> en_generation e \<noteq> sh_generation sh \<or>
      en_group_key e \<noteq> as_bytes key \<and> (\<exists>p\<in>set (bm_values (en_peers e)). \<not> pr_revoked p) \<or>
      \<not> sh_repair sh \<and> (\<exists>p. bm_get (en_peers e) (id_device ident) = Some p \<and> (pr_revoked p \<or> pr_fingerprint p \<noteq> fp))"
  shows "\<exists>err. session_commit cg sh fresh rng invitation ident metadata fp key w = (Inl err, w)"
proof -
  let ?o = "\<lparr>po_invitation_id = invitation, po_identity = ident, po_metadata = metadata, po_fingerprint = fp\<rparr>"
  have "commit_allowed cg sh ?o key e \<noteq> Inr ()"
  proof
    assume a: "commit_allowed cg sh ?o key e = Inr ()"
    note v = sh_validate_Inr[OF commit_allowed_Inr(1)[OF a]]
    show False using bad v(1,2,7) commit_allowed_Inr(2)[OF a] by auto
  qed
  then obtain err where err: "commit_op cg sh rng ?o key e = Inl err"
    by (cases "commit_allowed cg sh ?o key e") (auto simp: commit_op_def)
  have "\<not> sn_uncertain w" using assms(1) by (simp add: synced_def)
  note m = mutate_settled[OF this assms(2), of cg fresh "commit_op cg sh rng ?o key"]
  show ?thesis
    using assms(1,2) err by (simp add: session_commit_def m closure_reached_def settle_none e Let_def)
qed

lemma commit_refused_witness:
  "\<exists>err. session_commit demo_config (demo_sh\<lparr>sh_generation := 2\<rparr>) ''tx'' (\<lambda>n. ''inc'') demo_id joiner demo_metadata ''fp''
     (AppKey []) demo_session = (Inl err, demo_session)"
  by (rule commit_refused[OF demo_synced refl]) (simp add: demo_session_def demo_body_def demo_sh_def)

end
