(* ===== verification/Session_Network.thy ===== *)
theory Session_Network
  imports Session_Pairing
begin

text \<open>
  \<open>session/network.rs\<close>: the exchange between enrolled sessions. A connection runs in the
  world of a handshake (\<open>pair_world\<close>) over the session: messages in and out, what other
  threads do to the session between two calls, cancellation, and the time-out in force.
  \<open>session_env\<close> holds the library code and operating system a session calls. \<open>rng\<close> gives the
  \<open>random_id\<close> calls of one operation, each its own index, and \<open>nonce\<close> the nonce of its blob.
\<close>

record session_env =
  se_receipts :: receipt_crypto
  se_storage_key :: app_key
  se_fingerprint :: string
  se_aead :: aead
  se_to_json :: "export_batch \<Rightarrow> bytes result"
  se_from_json :: "bytes \<Rightarrow> export_batch result"
  se_interfaces :: "ip_addr list result"
  se_digest :: "app_manifest \<Rightarrow> string result"

definition delta_aad :: bytes where
  "delta_aad = str_bytes ''libresync-managed-delta-v1''"

definition listen_addresses :: "ip_addr list result \<Rightarrow> socket_addr \<Rightarrow> socket_addr list result" where
  "listen_addresses ifaces addr =
     (if \<not> ip_is_unspecified (sock_ip addr) then Inr [addr]
      else bindR ifaces (\<lambda>all. Inr
        (map (\<lambda>ip. sock_new ip (sock_port addr)) (filter (\<lambda>ip. \<not> ip_is_loopback ip) all)
           @ [SockV4 localhost_v4 (sock_port addr)])))"

section \<open>Who may exchange\<close>

definition session_context :: "envelope_body \<Rightarrow> session_handler result" where
  "session_context e =
     (if en_phase e \<noteq> Running then Inl Cancelled
      else Inr \<lparr>sh_generation = en_generation e, sh_expected = None, sh_addresses = [],
                sh_recovering = False, sh_repair = False\<rparr>)"

definition peer_check :: "session_handler \<Rightarrow> identity \<Rightarrow> string \<Rightarrow> envelope_body \<Rightarrow> unit result" where
  "peer_check sh i fp e =
     (if en_phase e \<noteq> Running \<or> en_generation e \<noteq> sh_generation sh then Inl Cancelled
      else bindR (ok_or (Protocol ''peer is not enrolled'') (bm_get (en_peers e) (id_device i))) (\<lambda>p.
        if pr_revoked p \<or> pr_state p = PeerPaused \<or> pr_state p = NeedsRepair \<or> pr_identity p \<noteq> i
           \<or> pr_fingerprint p \<noteq> fp
        then fail_code PeerRevoked ''peer is revoked, paused or changed'' else Inr ()))"

definition with_peer :: "string \<Rightarrow> (peer \<Rightarrow> peer) \<Rightarrow> envelope_body \<Rightarrow> envelope_body result" where
  "with_peer device f e =
     bindR (ok_or Cancelled (bm_get (en_peers e) device)) (\<lambda>_.
       Inr (e\<lparr>en_peers := bm_update device f (en_peers e)\<rparr>))"

text \<open>A receipt moves to another epoch, or forward within its epoch.\<close>

definition advance_receipt :: "managed_receipt \<Rightarrow> managed_receipt \<Rightarrow> managed_receipt" where
  "advance_receipt r old =
     (if mr_epoch old \<noteq> mr_epoch r \<or> mr_sequence old < mr_sequence r then r else old)"

section \<open>Hello\<close>

text \<open>Cursor hints that carry no proof of this enrollment count as none.\<close>

definition vetted_cursor ::
  "session_env \<Rightarrow> envelope_body \<Rightarrow> peer \<Rightarrow> managed_receipt \<Rightarrow> managed_receipt" where
  "vetted_cursor se e p cursor =
     (if cursor = default_receipt \<or> is_ok (receipt_verify (se_receipts se) (se_storage_key se) e p cursor)
      then cursor else default_receipt)"

text \<open>A proven \<open>processed\<close> receipt also proves durable storage.\<close>

definition advance_proven :: "managed_receipt \<Rightarrow> peer \<Rightarrow> peer" where
  "advance_proven r p =
     p\<lparr>pr_stored := advance_receipt r (pr_stored p), pr_applied := advance_receipt r (pr_applied p)\<rparr>"

definition present_peer :: "socket_addr list \<Rightarrow> device_metadata \<Rightarrow> peer \<Rightarrow> peer" where
  "present_peer addresses metadata p =
     p\<lparr>pr_addresses := addresses,
       pr_metadata := (pr_metadata p)\<lparr>dm_display_name := dm_display_name metadata,
         dm_device_kind := dm_device_kind metadata, dm_role := dm_role metadata\<rparr>\<rparr>"

definition authenticate_op ::
  "session_env \<Rightarrow> session_handler \<Rightarrow> string \<Rightarrow> identity \<Rightarrow> device_metadata \<Rightarrow> managed_receipt \<Rightarrow>
   managed_receipt \<Rightarrow> socket_addr list \<Rightarrow> envelope_body \<Rightarrow>
   ((peer \<times> managed_receipt) \<times> envelope_body) result" where
  "authenticate_op se sh fp i metadata cursor processed addresses e =
     bindR (peer_check sh i fp e) (\<lambda>_.
     bindR (metadata_validate metadata) (\<lambda>_.
     bindR (ok_or Cancelled (bm_get (en_peers e) (id_device i))) (\<lambda>current.
       let proven = processed \<noteq> default_receipt \<and>
             is_ok (receipt_verify (se_receipts se) (se_storage_key se) e current processed);
           p = present_peer addresses metadata
             (if proven then advance_proven processed current else current)
       in Inr ((p, vetted_cursor se e current cursor),
               e\<lparr>en_peers := bm_update (id_device i) (\<lambda>_. p) (en_peers e)\<rparr>))))"

text \<open>The error the closure of \<open>authenticate\<close> reports, when it gets to check \<open>processed\<close>.\<close>

definition processed_refused ::
  "session_env \<Rightarrow> session_handler \<Rightarrow> string \<Rightarrow> identity \<Rightarrow> device_metadata \<Rightarrow> managed_receipt \<Rightarrow>
   envelope_body \<Rightarrow> error option" where
  "processed_refused se sh fp i metadata processed e =
     (case bindR (peer_check sh i fp e) (\<lambda>_. metadata_validate metadata) of
        Inl _ \<Rightarrow> None
      | Inr _ \<Rightarrow>
          (case bm_get (en_peers e) (id_device i) of
             None \<Rightarrow> None
           | Some p \<Rightarrow>
               if processed = default_receipt then None
               else case receipt_verify (se_receipts se) (se_storage_key se) e p processed of
                      Inl err \<Rightarrow> Some err | Inr _ \<Rightarrow> None))"

text \<open>\<open>mutate\<close> with a closure that emits a diagnostic while it runs.\<close>

definition mutate_noting ::
  "session_config \<Rightarrow> string \<Rightarrow> string \<Rightarrow> (envelope_body \<Rightarrow> error option) \<Rightarrow>
   (envelope_body \<Rightarrow> ('r \<times> envelope_body) result) \<Rightarrow> session_world \<Rightarrow> 'r result \<times> session_world" where
  "mutate_noting cg fresh device note operation w =
     (let noted =
        (if sn_uncertain w then None
         else case settle cg w of
                (Inl _, _) \<Rightarrow> None | (Inr _, w1) \<Rightarrow> note (en_body (sn_envelope w1)))
      in mutate cg fresh operation
           (case noted of None \<Rightarrow> w | Some err \<Rightarrow> diagnostic (Some device) err w))"

definition session_authenticate ::
  "session_env \<Rightarrow> session_config \<Rightarrow> session_handler \<Rightarrow> string \<Rightarrow> string \<Rightarrow> message \<Rightarrow> session_world \<Rightarrow>
   (peer \<times> managed_receipt) result \<times> session_world" where
  "session_authenticate se cg sh fresh fp m w =
     (case m of
        ManagedHello i metadata cursor processed addresses \<Rightarrow>
          if 32 < length addresses
             \<or> \<not> compatible_with (dm_manifest (cg_metadata cg)) (dm_manifest metadata)
          then (fail_code IncompatibleSchema ''incompatible managed schema'', w)
          else mutate_noting cg fresh (id_device i) (processed_refused se sh fp i metadata processed)
                 (authenticate_op se sh fp i metadata cursor processed addresses) w
      | _ \<Rightarrow> (fail ''expected authenticated managed hello'', w))"

definition managed_hello ::
  "session_env \<Rightarrow> session_config \<Rightarrow> peer \<Rightarrow> socket_addr \<Rightarrow> envelope_body \<Rightarrow> message result" where
  "managed_hello se cg p address e =
     bindR (listen_addresses (se_interfaces se) address) (\<lambda>addresses. Inr
       (ManagedHello (en_identity e) (cg_metadata cg) (pr_received p) (pr_processed p) addresses))"

section \<open>Sending\<close>

definition record_sequence :: "envelope_body \<Rightarrow> string \<Rightarrow> u64" where
  "record_sequence e k = (case bm_get (en_sequences e) k of None \<Rightarrow> u64_max | Some n \<Rightarrow> n)"

definition export_full :: "managed_receipt \<Rightarrow> envelope_body \<Rightarrow> bool" where
  "export_full cursor e = (mr_epoch cursor \<noteq> en_epoch e \<or> en_revision e < mr_sequence cursor)"

text \<open>A delta has what came after the cursor, but not what the peer itself sent.\<close>

definition export_selected :: "string \<Rightarrow> managed_receipt \<Rightarrow> envelope_body \<Rightarrow> managed_record list" where
  "export_selected device cursor e =
     map snd (filter (\<lambda>(k, _). export_full cursor e \<or>
         mr_sequence cursor < record_sequence e k \<and> bm_get (en_origins e) k \<noteq> Some device) (en_records e))"

definition export_op ::
  "session_env \<Rightarrow> session_config \<Rightarrow> session_handler \<Rightarrow> peer \<Rightarrow> managed_receipt \<Rightarrow> envelope_body \<Rightarrow>
   (export_batch \<times> envelope_body) result" where
  "export_op se cg sh p cursor e =
     bindR (peer_check sh (pr_identity p) (pr_fingerprint p) e) (\<lambda>_.
     bindR (ok_or Cancelled (bm_get (en_peers e) (id_device (pr_identity p)))) (\<lambda>current.
     bindR (receipt_mint (se_receipts se) (se_storage_key se) e current) (\<lambda>checkpoint.
     bindR (export_records cg (export_selected (id_device (pr_identity p)) cursor e)) (\<lambda>records.
       let batch = \<lparr>eb_checkpoint = checkpoint, eb_records = records, eb_full = export_full cursor e\<rparr>
       in bindR (limits_batch cg batch) (\<lambda>_. Inr (batch, e))))))"

definition transmitted_op ::
  "session_handler \<Rightarrow> peer \<Rightarrow> managed_receipt \<Rightarrow> envelope_body \<Rightarrow> (unit \<times> envelope_body) result" where
  "transmitted_op sh p checkpoint e =
     bindR (peer_check sh (pr_identity p) (pr_fingerprint p) e) (\<lambda>_.
     bindR (with_peer (id_device (pr_identity p)) (\<lambda>p. p\<lparr>pr_transmitted := checkpoint\<rparr>) e) (\<lambda>e'.
       Inr ((), e')))"

definition acked_peer :: "managed_receipt \<Rightarrow> ack_disposition \<Rightarrow> peer \<Rightarrow> peer" where
  "acked_peer receipt disposition p =
     (let applied = (if disposition = Applied then receipt else pr_applied p)
      in p\<lparr>pr_stored := advance_receipt receipt (pr_stored p), pr_applied := applied,
           pr_state := (if pr_pending p \<noteq> None then NeedsMerge
             else if mr_epoch applied = mr_epoch receipt \<and> mr_sequence receipt \<le> mr_sequence applied
             then UpToDate else PeerStored)\<rparr>)"

definition acked_op ::
  "session_env \<Rightarrow> session_handler \<Rightarrow> peer \<Rightarrow> managed_receipt \<Rightarrow> ack_disposition \<Rightarrow> envelope_body \<Rightarrow>
   (unit \<times> envelope_body) result" where
  "acked_op se sh p receipt disposition e =
     bindR (peer_check sh (pr_identity p) (pr_fingerprint p) e) (\<lambda>_.
     bindR (ok_or Cancelled (bm_get (en_peers e) (id_device (pr_identity p)))) (\<lambda>current.
     bindR (receipt_verify (se_receipts se) (se_storage_key se) e current receipt) (\<lambda>_.
     bindR (with_peer (id_device (pr_identity p)) (acked_peer receipt disposition) e) (\<lambda>e'.
       Inr ((), e')))))"

definition group_key :: "session_world \<Rightarrow> app_key result \<times> session_world" where
  "group_key w = (app_key_from_slice (en_group_key (en_body (sn_envelope w))), w)"

definition send_batch ::
  "session_env \<Rightarrow> session_config \<Rightarrow> session_handler \<Rightarrow> (nat \<Rightarrow> string) \<Rightarrow> bytes \<Rightarrow> peer \<Rightarrow>
   managed_receipt \<Rightarrow> session_world pair_world \<Rightarrow> unit result \<times> session_world pair_world" where
  "send_batch se cg sh rng nonce p cursor w =
     bindS (pw_call (mutate cg (rng 0) (export_op se cg sh p cursor)) w) (\<lambda>batch w.
     bindS (pw_call group_key w) (\<lambda>key w.
     bindS (pw_lift (se_to_json se batch) w) (\<lambda>plain w.
     bindS (pw_lift (encrypt_blob (se_aead se) nonce key plain delta_aad) w) (\<lambda>encrypted w.
     bindS (pw_send (ManagedDelta encrypted) w) (\<lambda>_ w.
     bindS (pw_call (mutate cg (rng 1) (transmitted_op sh p (eb_checkpoint batch))) w) (\<lambda>_ w.
     bindS (pw_recv w) (\<lambda>m w.
     case m of
       ManagedAck receipt disposition \<Rightarrow>
         if receipt \<noteq> eb_checkpoint batch
         then (fail ''receipt does not match captured export'', w)
         else pw_call (mutate cg (rng 2) (acked_op se sh p receipt disposition)) w
     | ManagedPending \<Rightarrow> (Inr (), w)
     | _ \<Rightarrow> (fail ''expected exact managed receipt'', w))))))))"

section \<open>Receiving\<close>

fun validate_batch_records ::
  "session_config \<Rightarrow> envelope_body \<Rightarrow> string set \<Rightarrow> managed_record list \<Rightarrow> unit result" where
  "validate_batch_records cg e ids [] = Inr ()"
| "validate_batch_records cg e ids (r # rs) =
     (if mg_id r = [] \<or> 1024 < length (mg_id r) \<or> max_record_bytes < length (mg_value r)
      then fail ''invalid managed record''
      else bindR (cg_record_key cg (mg_adapter r) (mg_id r)) (\<lambda>k.
        if k \<in> ids \<or> \<not> list_ex (\<lambda>a. ad_id a = mg_adapter r) (m_adapters (dm_manifest (en_metadata e)))
        then fail ''invalid managed record''
        else validate_batch_records cg e (insert k ids) rs))"

definition validate_batch :: "session_config \<Rightarrow> envelope_body \<Rightarrow> export_batch \<Rightarrow> unit result" where
  "validate_batch cg e batch =
     (if mr_epoch (eb_checkpoint batch) = [] \<or> 128 < length (mr_epoch (eb_checkpoint batch))
         \<or> length (mr_proof (eb_checkpoint batch)) \<noteq> 32 \<or> 100000 < length (eb_records batch)
      then fail ''invalid managed batch''
      else validate_batch_records cg e {} (eb_records batch))"

definition apply_batch ::
  "session_config \<Rightarrow> export_batch \<Rightarrow> string \<Rightarrow> envelope_body \<Rightarrow> envelope_body result" where
  "apply_batch cg batch device e =
     bindR (prepare_records cg e (eb_records batch)) (\<lambda>prepared.
     bindR (commit_records cg e prepared (Some device)) (\<lambda>e1.
       with_peer device (\<lambda>p. p\<lparr>pr_received := eb_checkpoint batch, pr_bootstrapped := True,
                              pr_pending := None\<rparr>) e1))"

definition already_received :: "export_batch \<Rightarrow> peer \<Rightarrow> bool" where
  "already_received batch p =
     (mr_epoch (pr_received p) = mr_epoch (eb_checkpoint batch) \<and>
      mr_sequence (eb_checkpoint batch) \<le> mr_sequence (pr_received p))"

definition hold_for_review :: "string \<Rightarrow> export_batch \<Rightarrow> peer \<Rightarrow> envelope_body \<Rightarrow> peer \<Rightarrow> peer" where
  "hold_for_review token batch sender e p =
     p\<lparr>pr_pending :=
         (if (case pr_pending p of
                None \<Rightarrow> True
              | Some old \<Rightarrow> bp_batch old \<noteq> batch \<or> bp_local_revision old \<noteq> en_revision e)
          then Some \<lparr>bp_token = token, bp_peer = id_device (pr_identity sender),
                     bp_fingerprint = pr_fingerprint sender, bp_local_revision = en_revision e,
                     bp_batch = batch\<rparr>
          else pr_pending p),
       pr_state := NeedsMerge\<rparr>"

text \<open>\<open>None\<close>: the first batch over existing records waits for the user's decision.\<close>

definition receive_op ::
  "session_config \<Rightarrow> session_handler \<Rightarrow> string \<Rightarrow> peer \<Rightarrow> export_batch \<Rightarrow> envelope_body \<Rightarrow>
   (managed_receipt option \<times> envelope_body) result" where
  "receive_op cg sh token sender batch e =
     (let device = id_device (pr_identity sender) in
      bindR (peer_check sh (pr_identity sender) (pr_fingerprint sender) e) (\<lambda>_.
      bindR (ok_or Cancelled (bm_get (en_peers e) device)) (\<lambda>p.
        if already_received batch p then Inr (Some (eb_checkpoint batch), e)
        else bindR (validate_batch cg e batch) (\<lambda>_.
          if \<not> pr_bootstrapped p \<and> \<not> eb_full batch
          then fail ''first managed batch must be an authoritative full snapshot''
          else bindR (preview_records cg e (eb_records batch)) (\<lambda>_.
            if \<not> pr_bootstrapped p \<and> en_records e \<noteq> [] \<and> eb_records batch \<noteq> []
            then bindR (with_peer device (hold_for_review token batch sender e) e) (\<lambda>e'.
                   Inr (None, e'))
            else bindR (apply_batch cg batch device e) (\<lambda>e'.
                   Inr (Some (eb_checkpoint batch), e')))))))"

definition open_batch :: "session_env \<Rightarrow> session_config \<Rightarrow> app_key \<Rightarrow> bytes \<Rightarrow> export_batch result" where
  "open_batch se cg key encrypted =
     (if max_ciphertext_bytes < length encrypted
      then fail_code InvalidRecord ''managed ciphertext exceeds batch bound''
      else bindR (decrypt_blob (se_aead se) key encrypted delta_aad) (\<lambda>plain.
        if max_batch_bytes < length plain
        then fail_code InvalidRecord ''managed plaintext exceeds batch bound''
        else bindR (se_from_json se plain) (\<lambda>batch.
             bindR (limits_batch cg batch) (\<lambda>_. Inr batch))))"

definition review_event :: "string \<Rightarrow> session_event" where
  "review_event device =
     Diagnostic (Some device) ''Review incoming records before merging existing local data''
       ReviewMerge BootstrapRequired"

definition receive_batch ::
  "session_env \<Rightarrow> session_config \<Rightarrow> session_handler \<Rightarrow> (nat \<Rightarrow> string) \<Rightarrow> peer \<Rightarrow>
   session_world pair_world \<Rightarrow> unit result \<times> session_world pair_world" where
  "receive_batch se cg sh rng p w =
     bindS (pw_recv w) (\<lambda>m w.
     case m of ManagedDelta encrypted \<Rightarrow>
       bindS (pw_call group_key w) (\<lambda>key w.
       bindS (pw_lift (open_batch se cg key encrypted) w) (\<lambda>batch w.
       bindS (pw_call (mutate cg (rng 0) (receive_op cg sh (rng 1) p batch)) w) (\<lambda>receipt w.
       case receipt of
         Some r \<Rightarrow> pw_send (ManagedAck r Stored) w
       | None \<Rightarrow>
           bindS (pw_call (\<lambda>s. (Inr (), emit (review_event (id_device (pr_identity p))) s)) w) (\<lambda>_ w.
             pw_send ManagedPending w))))
     | _ \<Rightarrow> (fail ''expected managed delta'', w))"

section \<open>A whole connection\<close>

definition operation_guard :: "session_world \<Rightarrow> unit result \<times> session_world" where
  "operation_guard w =
     (if en_phase (en_body (sn_envelope w)) \<noteq> Running then Inl Cancelled else Inr (), w)"

definition authenticated_timeouts ::
  "session_config \<Rightarrow> 'h pair_world \<Rightarrow> unit result \<times> 'h pair_world" where
  "authenticated_timeouts cg w =
     bindS (pw_check_cancel w) (\<lambda>_ w. (Inr (), w\<lparr>pw_timeout := cg_io_timeout cg\<rparr>))"

text \<open>The random ids of the \<open>i\<close>-th part of a connection.\<close>

definition part :: "nat \<Rightarrow> (nat \<Rightarrow> string) \<Rightarrow> nat \<Rightarrow> string" where
  "part i rng n = rng (4 * n + i)"

definition client_exchange ::
  "session_env \<Rightarrow> session_config \<Rightarrow> session_handler \<Rightarrow> (nat \<Rightarrow> string) \<Rightarrow> bytes \<Rightarrow> socket_addr \<Rightarrow>
   peer \<Rightarrow> session_world pair_world \<Rightarrow> unit result \<times> session_world pair_world" where
  "client_exchange se cg sh rng nonce own p w =
     bindS (authenticated_timeouts cg w) (\<lambda>_ w.
     bindS (pw_call (\<lambda>s. (managed_hello se cg p own (en_body (sn_envelope s)), s)) w) (\<lambda>greeting w.
     bindS (pw_send greeting w) (\<lambda>_ w.
     bindS (pw_recv w) (\<lambda>m w.
     bindS (pw_call (session_authenticate se cg sh (rng 0) (pr_fingerprint p) m) w) (\<lambda>(remote, cursor) w.
     bindS (send_batch se cg sh (part 1 rng) nonce remote cursor w) (\<lambda>_ w.
       receive_batch se cg sh (part 2 rng) remote w))))))"

text \<open>
  \<open>outbound\<close> tries the known addresses in turn. \<open>conns\<close> is what opening the \<open>i\<close>-th pinned
  connection gives: an error, or the messages of that connection.
\<close>

fun outbound_targets ::
  "session_env \<Rightarrow> session_config \<Rightarrow> session_handler \<Rightarrow> (nat \<Rightarrow> string) \<Rightarrow> bytes \<Rightarrow> socket_addr \<Rightarrow>
   peer \<Rightarrow> (nat \<Rightarrow> error + channel) \<Rightarrow> nat \<Rightarrow> error \<Rightarrow> socket_addr list \<Rightarrow> session_world pair_world \<Rightarrow>
   unit result \<times> session_world pair_world" where
  "outbound_targets se cg sh rng nonce own p conns i recent [] w = (Inl recent, w)"
| "outbound_targets se cg sh rng nonce own p conns i recent (target # rest) w =
     bindS (pw_check_cancel w) (\<lambda>_ w.
     bindS (pw_call operation_guard w) (\<lambda>_ w.
     case conns i of
       Inl err \<Rightarrow> outbound_targets se cg sh rng nonce own p conns (Suc i) err rest w
     | Inr ch \<Rightarrow> client_exchange se cg sh rng nonce own p (w\<lparr>pw_chan := ch\<rparr>)))"

definition endpoint_hints ::
  "identity \<Rightarrow> socket_addr list \<Rightarrow> session_world \<Rightarrow> socket_addr list" where
  "endpoint_hints i fallback w =
     (case bm_get (sn_discovered w) (id_device i) of
        None \<Rightarrow> fallback
      | Some p \<Rightarrow> if dp_identity p = i \<and> dp_addresses p \<noteq> [] then dp_addresses p else fallback)"

definition session_outbound ::
  "session_env \<Rightarrow> session_config \<Rightarrow> (nat \<Rightarrow> string) \<Rightarrow> bytes \<Rightarrow> socket_addr \<Rightarrow> peer \<Rightarrow>
   (nat \<Rightarrow> error + channel) \<Rightarrow> session_world pair_world \<Rightarrow> unit result \<times> session_world pair_world" where
  "session_outbound se cg rng nonce own p conns w =
     bindS (pw_call (\<lambda>s. (session_context (en_body (sn_envelope s)), s)) w) (\<lambda>sh w.
     bindS (pw_call (\<lambda>s. (Inr (endpoint_hints (pr_identity p) (pr_addresses p) s), s)) w) (\<lambda>targets w.
       outbound_targets se cg sh rng nonce own p conns 0
         (Protocol ''peer destination not yet known'') targets w))"

definition serve_managed ::
  "session_env \<Rightarrow> session_config \<Rightarrow> session_handler \<Rightarrow> (nat \<Rightarrow> string) \<Rightarrow> bytes \<Rightarrow> string \<Rightarrow> message \<Rightarrow>
   session_world pair_world \<Rightarrow> unit result \<times> session_world pair_world" where
  "serve_managed se cg sh rng nonce fp m w =
     bindS (pw_check_cancel w) (\<lambda>_ w.
     case m of ManagedHello i metadata cursor processed addresses \<Rightarrow>
       bindS (pw_call (\<lambda>s. (peer_check sh i fp (en_body (sn_envelope s)), s)) w) (\<lambda>_ w.
       let w = w\<lparr>pw_timeout := cg_io_timeout cg\<rparr> in
       bindS (pw_call (session_authenticate se cg sh (rng 0) fp m) w) (\<lambda>(p, cursor) w.
       bindS (pw_call (\<lambda>s. (ok_or Cancelled (map_option rt_address (sn_runtime s)), s)) w) (\<lambda>own w.
       bindS (pw_call (\<lambda>s. (managed_hello se cg p own (en_body (sn_envelope s)), s)) w) (\<lambda>greeting w.
       bindS (pw_send greeting w) (\<lambda>_ w.
       bindS (receive_batch se cg sh (part 2 rng) p w) (\<lambda>_ w.
         send_batch se cg sh (part 1 rng) nonce p cursor w))))))
     | _ \<Rightarrow> (fail ''expected authenticated managed hello'', w))"

text \<open>
  \<open>inbound\<close> after the TLS handshake; \<open>cert\<close> is the fingerprint of the certificate the client
  presented.
\<close>

definition session_inbound ::
  "'s pair_crypto \<Rightarrow> bytes \<Rightarrow> session_env \<Rightarrow> session_config \<Rightarrow> (nat \<Rightarrow> string) \<Rightarrow> bytes \<Rightarrow>
   string result \<Rightarrow> session_world pair_world \<Rightarrow> unit result \<times> session_world pair_world" where
  "session_inbound pc seed se cg rng nonce cert w =
     bindS (pw_check_cancel w) (\<lambda>_ w.
     bindS (pw_recv w) (\<lambda>m w.
     bindS (pw_lift cert w) (\<lambda>fp w.
     bindS (pw_check_cancel w) (\<lambda>_ w.
     bindS (pw_call (\<lambda>s. (session_context (en_body (sn_envelope s)), s)) w) (\<lambda>sh w.
     bindS (pw_call (\<lambda>s. (Inr (en_identity (en_body (sn_envelope s))), s)) w) (\<lambda>identity w.
     case m of
       PairHello ph \<Rightarrow>
         accept_secure pc seed (session_device_handler cg sh (rng 0) (part 1 rng))
           (authenticated_timeouts cg) identity (se_fingerprint se) fp ph w
     | PairRecover ident peer \<Rightarrow>
         accept_recovery (session_device_handler cg sh (rng 0) (part 1 rng))
           (authenticated_timeouts cg) ident peer identity fp w
     | _ \<Rightarrow> serve_managed se cg sh rng nonce fp m w))))))"

end
