(* ===== verification/Session_Runtime.thy ===== *)
theory Session_Runtime
  imports Session_Network
begin

text \<open>
  The life of a session's runtime and of its peers: \<open>start\<close>, \<open>stop\<close>, removal, pausing and
  repair of a peer (\<open>session/network.rs\<close>), the decision on a first batch, and invitations,
  connecting and recovery (\<open>session/pairing.rs\<close>). What the operating system and the worker
  threads answer is an argument: \<open>bound\<close> the listener's address, \<open>browse\<close> the opening of the
  mDNS browser, \<open>teardown\<close> the failures of joining workers and closing the advertiser.
\<close>

section \<open>Advertising\<close>

definition publish_service ::
  "session_env \<Rightarrow> session_config \<Rightarrow> socket_addr \<Rightarrow> pairing_descriptor option \<Rightarrow> session_world \<Rightarrow>
   unit result \<times> session_world" where
  "publish_service se cg address descriptor w =
     (case managed_service (se_digest se) (se_interfaces se) (en_identity (en_body (sn_envelope w)))
             address (cg_metadata cg) descriptor of
        Inl err \<Rightarrow> (Inl err, w)
      | Inr service \<Rightarrow>
          (case sn_publish_faults w of
             Some err # rest \<Rightarrow> (Inl err, w\<lparr>sn_publish_faults := rest\<rparr>)
           | _ \<Rightarrow> (Inr (), w\<lparr>sn_published := sn_published w @ [service],
                          sn_publish_faults := drop 1 (sn_publish_faults w)\<rparr>)))"

definition refresh_advertisement ::
  "session_env \<Rightarrow> session_config \<Rightarrow> session_world \<Rightarrow> unit result \<times> session_world" where
  "refresh_advertisement se cg w =
     (if \<not> cg_advertise cg then (Inr (), w)
      else case sn_runtime w of
             None \<Rightarrow> (Inr (), w)
           | Some r \<Rightarrow>
               if rt_advertiser r then publish_service se cg (rt_address r) (sn_invitation w) w
               else (Inr (), w))"

section \<open>Start and stop\<close>

definition next_generation :: "envelope_body \<Rightarrow> u64 result" where
  "next_generation e = ok_or (Protocol ''generation exhausted'') (checked_inc (en_generation e))"

definition start_op :: "envelope_body \<Rightarrow> (unit \<times> envelope_body) result" where
  "start_op e =
     bindR (next_generation e) (\<lambda>g. Inr ((), e\<lparr>en_generation := g, en_phase := Running\<rparr>))"

definition start_advertiser ::
  "session_env \<Rightarrow> session_config \<Rightarrow> socket_addr \<Rightarrow> session_world \<Rightarrow> bool \<times> session_world" where
  "start_advertiser se cg address w =
     (if cg_advertise cg
      then case publish_service se cg address None w of
             (Inr _, w) \<Rightarrow> (True, w)
           | (Inl err, w) \<Rightarrow> (False, diagnostic None err w)
      else (False, w))"

definition session_start ::
  "session_env \<Rightarrow> session_config \<Rightarrow> string \<Rightarrow> socket_addr result \<Rightarrow> unit result \<Rightarrow> session_world \<Rightarrow>
   socket_addr result \<times> session_world" where
  "session_start se cg fresh bound browse w =
     (case sn_runtime w of
        Some r \<Rightarrow> (Inr (rt_address r), w)
      | None \<Rightarrow>
          bindS (bound, w) (\<lambda>address w.
          bindS (mutate cg fresh start_op w) (\<lambda>_ w.
          case start_advertiser se cg address w of (advertiser, w) \<Rightarrow>
          bindS (if advertiser then browse else Inr (), w) (\<lambda>_ w.
            (Inr address,
             w\<lparr>sn_runtime := Some \<lparr>rt_address = address, rt_advertiser = advertiser\<rparr>\<rparr>)))))"

definition session_address :: "session_world \<Rightarrow> socket_addr result" where
  "session_address w =
     ok_or (Protocol ''session is not running'') (map_option rt_address (sn_runtime w))"

definition stop_op :: "session_phase \<Rightarrow> envelope_body \<Rightarrow> (unit \<times> envelope_body) result" where
  "stop_op phase e =
     (if en_phase e \<noteq> phase
      then bindR (next_generation e) (\<lambda>g. Inr ((), e\<lparr>en_generation := g, en_phase := phase\<rparr>))
      else Inr ((), e))"

fun joined :: "string list \<Rightarrow> string" where
  "joined [] = ''''"
| "joined [s] = s"
| "joined (s # t # rest) = s @ ''; '' @ joined (t # rest)"

fun cleanup_result :: "error list \<Rightarrow> unit result" where
  "cleanup_result [] = Inr ()"
| "cleanup_result [err] = Inl err"
| "cleanup_result errs = Inl (Protocol (''shutdown cleanup errors: '' @ joined (map error_display errs)))"

fun failure_of :: "'a result \<Rightarrow> error list" where
  "failure_of (Inl err) = [err]"
| "failure_of (Inr x) = []"

text \<open>Every step runs, whatever failed before it; the failures are collected.\<close>

definition session_stop ::
  "session_config \<Rightarrow> string \<Rightarrow> session_phase \<Rightarrow> error list \<Rightarrow> session_world \<Rightarrow>
   unit result \<times> session_world" where
  "session_stop cg fresh phase teardown w =
     (case mutate cg fresh (stop_op phase) w of (r1, w1) \<Rightarrow>
      case pm_close (sn_pairing w1) of (r2, m) \<Rightarrow>
      let w2 = w1\<lparr>sn_pairing := m, sn_invitation := None\<rparr>;
          (late, w3) = (case sn_runtime w2 of
             None \<Rightarrow> ([], w2) | Some _ \<Rightarrow> (teardown, wake (w2\<lparr>sn_runtime := None\<rparr>)))
      in (cleanup_result (failure_of r1 @ failure_of r2 @ late), w3))"

definition session_pause ::
  "session_config \<Rightarrow> string \<Rightarrow> error list \<Rightarrow> session_world \<Rightarrow> unit result \<times> session_world" where
  "session_pause cg fresh teardown w = session_stop cg fresh Paused teardown w"

definition session_shutdown ::
  "session_config \<Rightarrow> string \<Rightarrow> error list \<Rightarrow> session_world \<Rightarrow> unit result \<times> session_world" where
  "session_shutdown cg fresh teardown w = session_stop cg fresh Stopped teardown w"

definition session_resume ::
  "session_env \<Rightarrow> session_config \<Rightarrow> string \<Rightarrow> socket_addr result \<Rightarrow> unit result \<Rightarrow> session_world \<Rightarrow>
   socket_addr result \<times> session_world" where
  "session_resume se cg fresh bound browse w = session_start se cg fresh bound browse w"

section \<open>The first batch of a peer\<close>

datatype bootstrap_decision = MergeBatch | CancelBatch

definition bootstrap_preview_of :: "string \<Rightarrow> session_world \<Rightarrow> bootstrap_preview option result" where
  "bootstrap_preview_of device w =
     bindR (ok_or (Protocol ''unknown peer'') (bm_get (en_peers (en_body (sn_envelope w))) device))
       (\<lambda>p. Inr (pr_pending p))"

definition resolve_op ::
  "session_config \<Rightarrow> bootstrap_preview \<Rightarrow> bootstrap_decision \<Rightarrow> envelope_body \<Rightarrow>
   (unit \<times> envelope_body) result" where
  "resolve_op cg preview decision e =
     bindR (ok_or Cancelled (bm_get (en_peers e) (bp_peer preview))) (\<lambda>p.
       if pr_revoked p \<or> pr_fingerprint p \<noteq> bp_fingerprint preview
          \<or> en_revision e \<noteq> bp_local_revision preview
          \<or> (case pr_pending p of
               None \<Rightarrow> True
             | Some v \<Rightarrow> bp_token v \<noteq> bp_token preview \<or> bp_batch v \<noteq> bp_batch preview)
       then fail_code StaleBootstrap ''stale bootstrap preview''
       else case decision of
              CancelBatch \<Rightarrow>
                bindR (with_peer (bp_peer preview)
                         (\<lambda>p. p\<lparr>pr_pending := None, pr_state := PeerPaused\<rparr>) e) (\<lambda>e'. Inr ((), e'))
            | MergeBatch \<Rightarrow>
                bindR (validate_batch cg e (bp_batch preview)) (\<lambda>_.
                bindR (apply_batch cg (bp_batch preview) (bp_peer preview) e) (\<lambda>e'. Inr ((), e'))))"

definition waking ::
  "(session_world \<Rightarrow> 'r result \<times> session_world) \<Rightarrow> session_world \<Rightarrow> 'r result \<times> session_world" where
  "waking f w = bindS (f w) (\<lambda>x w. (Inr x, wake w))"

definition resolve_bootstrap ::
  "session_config \<Rightarrow> string \<Rightarrow> bootstrap_preview \<Rightarrow> bootstrap_decision \<Rightarrow> session_world \<Rightarrow>
   unit result \<times> session_world" where
  "resolve_bootstrap cg fresh preview decision w =
     waking (mutate cg fresh (resolve_op cg preview decision)) w"

definition acknowledge_peer_op ::
  "string \<Rightarrow> managed_receipt \<Rightarrow> envelope_body \<Rightarrow> (unit \<times> envelope_body) result" where
  "acknowledge_peer_op device receipt e =
     bindR (ok_or Cancelled (bm_get (en_peers e) device)) (\<lambda>p.
       if pr_revoked p \<or> mr_epoch (pr_received p) \<noteq> mr_epoch receipt
          \<or> mr_sequence (pr_received p) < mr_sequence receipt
       then fail ''processing receipt is outside stored source history''
       else bindR (with_peer device (advance_processed receipt) e) (\<lambda>e'. Inr ((), e')))"

definition acknowledge_applied ::
  "session_config \<Rightarrow> string \<Rightarrow> string \<Rightarrow> managed_receipt \<Rightarrow> session_world \<Rightarrow>
   unit result \<times> session_world" where
  "acknowledge_applied cg fresh device receipt w =
     waking (mutate cg fresh (acknowledge_peer_op device receipt)) w"

definition stored_inbound_receipt :: "string \<Rightarrow> session_world \<Rightarrow> managed_receipt result" where
  "stored_inbound_receipt device w =
     bindR (ok_or Cancelled (bm_get (en_peers (en_body (sn_envelope w))) device))
       (\<lambda>p. Inr (pr_received p))"

section \<open>Removing, pausing and resuming a peer\<close>

definition remove_op :: "string \<Rightarrow> string \<Rightarrow> envelope_body \<Rightarrow> (unit \<times> envelope_body) result" where
  "remove_op incarnation device e =
     bindR (ok_or (Protocol ''unknown peer'') (bm_get (en_peers e) device)) (\<lambda>_.
     bindR (next_generation e) (\<lambda>g. Inr ((), e
       \<lparr>en_peers := bm_update device (\<lambda>p. p\<lparr>pr_revoked := True, pr_incarnation := incarnation,
                      pr_state := PeerPaused, pr_pending := None\<rparr>) (en_peers e),
        en_generation := g,
        en_enrollments := bm_retain (\<lambda>_ j. \<not> of_device device (er_outcome j)) (en_enrollments e),
        en_preparations := bm_retain (\<lambda>_ j. \<not> of_device device (pn_outcome j)) (en_preparations e)\<rparr>)))"

definition pause_peer_op :: "string \<Rightarrow> envelope_body \<Rightarrow> (unit \<times> envelope_body) result" where
  "pause_peer_op device e =
     bindR (with_peer device (\<lambda>p. p\<lparr>pr_state := PeerPaused\<rparr>) e) (\<lambda>e1.
     bindR (next_generation e1) (\<lambda>g. Inr ((), e1\<lparr>en_generation := g\<rparr>)))"

definition resume_peer_op :: "string \<Rightarrow> envelope_body \<Rightarrow> (unit \<times> envelope_body) result" where
  "resume_peer_op device e =
     bindR (ok_or Cancelled (bm_get (en_peers e) device)) (\<lambda>p.
       if pr_revoked p then fail ''removed peer requires explicit repair''
       else bindR (with_peer device (\<lambda>p. p\<lparr>pr_state := Waiting\<rparr>) e) (\<lambda>e'. Inr ((), e')))"

definition is_running :: "session_world \<Rightarrow> bool" where
  "is_running w = (en_phase (en_body (sn_envelope w)) = Running)"

text \<open>The mutation, then a restart of the runtime when it was running before.\<close>

definition fenced ::
  "session_env \<Rightarrow> session_config \<Rightarrow> (nat \<Rightarrow> string) \<Rightarrow> error list \<Rightarrow> socket_addr result \<Rightarrow> unit result \<Rightarrow>
   (session_world \<Rightarrow> unit result \<times> session_world) \<Rightarrow> session_world \<Rightarrow> unit result \<times> session_world" where
  "fenced se cg rng teardown bound browse f w =
     (let running = is_running w in
      bindS (f w) (\<lambda>_ w.
      bindS (session_shutdown cg (rng 0) teardown w) (\<lambda>_ w.
        if running
        then bindS (session_start se cg (rng 1) bound browse w) (\<lambda>_ w. (Inr (), w))
        else (Inr (), w))))"

definition remove_peer ::
  "session_env \<Rightarrow> session_config \<Rightarrow> (nat \<Rightarrow> string) \<Rightarrow> error list \<Rightarrow> socket_addr result \<Rightarrow> unit result \<Rightarrow>
   string \<Rightarrow> session_world \<Rightarrow> unit result \<times> session_world" where
  "remove_peer se cg rng teardown bound browse device w =
     fenced se cg rng teardown bound browse (mutate cg (rng 2) (remove_op (rng 3) device)) w"

definition pause_peer ::
  "session_env \<Rightarrow> session_config \<Rightarrow> (nat \<Rightarrow> string) \<Rightarrow> error list \<Rightarrow> socket_addr result \<Rightarrow> unit result \<Rightarrow>
   string \<Rightarrow> session_world \<Rightarrow> unit result \<times> session_world" where
  "pause_peer se cg rng teardown bound browse device w =
     fenced se cg rng teardown bound browse (mutate cg (rng 2) (pause_peer_op device)) w"

definition resume_peer ::
  "session_config \<Rightarrow> string \<Rightarrow> string \<Rightarrow> session_world \<Rightarrow> unit result \<times> session_world" where
  "resume_peer cg fresh device w = waking (mutate cg fresh (resume_peer_op device)) w"

end
