(* ===== verification/Session_Connect.thy ===== *)
theory Session_Connect
  imports Session_Runtime
begin

text \<open>
  \<open>session/pairing.rs\<close>: creating invitations, connecting with one, and recovering the
  enrollments a crash interrupted. \<open>conns\<close> gives what opening the \<open>i\<close>-th connection
  yields: the fingerprint of the certificate shown (or an error) and the messages on it.
\<close>

type_synonym pair_conns = "nat \<Rightarrow> string result \<times> channel"

section \<open>Invitations\<close>

text \<open>\<open>created\<close> is the manager's answer with its new state; \<open>None\<close>: it drew no code number.\<close>

definition publish_invitation ::
  "session_env \<Rightarrow> session_config \<Rightarrow> socket_addr \<Rightarrow> identity \<Rightarrow>
   pairing_invitation result \<times> pairing_manager \<Rightarrow> session_world \<Rightarrow>
   session_invitation result \<times> session_world" where
  "publish_invitation se cg address identity created w =
     bindS (fst created, w\<lparr>sn_pairing := snd created\<rparr>) (\<lambda>invitation w.
     bindS (listen_addresses (se_interfaces se) address, w) (\<lambda>addresses w.
     let w = w\<lparr>sn_invitation := Some (inv_descriptor invitation)\<rparr> in
     bindS (refresh_advertisement se cg w) (\<lambda>_ w.
       (Inr \<lparr>si_invitation = invitation, si_identity = identity, si_addresses = addresses\<rparr>, w))))"

definition inviting ::
  "session_world \<Rightarrow> (socket_addr \<times> identity) result" where
  "inviting w =
     bindR (session_address w) (\<lambda>address.
       if \<not> is_running w then fail ''session is not running''
       else Inr (address, en_identity (en_body (sn_envelope w))))"

definition create_invitation ::
  "session_env \<Rightarrow> session_config \<Rightarrow> bytes \<Rightarrow> bytes \<Rightarrow> reading \<Rightarrow> reading \<Rightarrow> nat \<Rightarrow> session_world \<Rightarrow>
   session_invitation result \<times> session_world" where
  "create_invitation se cg rnd32 rnd16 t1 t2 ttl w =
     bindS (inviting w, w) (\<lambda>(address, identity) w.
       publish_invitation se cg address identity
         (pm_create_invitation rnd32 rnd16 t1 t2 (cg_metadata cg) (se_fingerprint se) ttl (sn_pairing w)) w)"

definition create_code_invitation ::
  "session_env \<Rightarrow> session_config \<Rightarrow> u32 list \<Rightarrow> bytes \<Rightarrow> reading \<Rightarrow> reading \<Rightarrow> nat \<Rightarrow> session_world \<Rightarrow>
   (session_invitation result \<times> session_world) option" where
  "create_code_invitation se cg draws rnd16 t1 t2 ttl w =
     (case inviting w of
        Inl err \<Rightarrow> Some (Inl err, w)
      | Inr (address, identity) \<Rightarrow>
          map_option (\<lambda>created. publish_invitation se cg address identity created w)
            (pm_create_code_invitation draws rnd16 t1 t2 (cg_metadata cg) (se_fingerprint se) ttl
               (sn_pairing w)))"

definition close_pairing ::
  "session_env \<Rightarrow> session_config \<Rightarrow> session_world \<Rightarrow> unit result \<times> session_world" where
  "close_pairing se cg w =
     (case pm_close (sn_pairing w) of
        (Inl err, m) \<Rightarrow> (Inl err, w\<lparr>sn_pairing := m\<rparr>)
      | (Inr _, m) \<Rightarrow> refresh_advertisement se cg (w\<lparr>sn_pairing := m, sn_invitation := None\<rparr>))"

section \<open>Connecting\<close>

text \<open>The peer's known addresses, written by a handler of this generation.\<close>

definition remember_op ::
  "session_handler \<Rightarrow> error \<Rightarrow> string \<Rightarrow> socket_addr list \<Rightarrow> envelope_body \<Rightarrow>
   (unit \<times> envelope_body) result" where
  "remember_op sh missing device addresses e =
     bindR (sh_check sh e) (\<lambda>_.
     bindR (ok_or missing (bm_get (en_peers e) device)) (\<lambda>_.
       Inr ((), e\<lparr>en_peers := bm_update device (\<lambda>p. p\<lparr>pr_addresses := addresses\<rparr>) (en_peers e)\<rparr>)))"

fun connect_addresses ::
  "'s pair_crypto \<Rightarrow> bytes \<Rightarrow> session_env \<Rightarrow> session_config \<Rightarrow> session_handler \<Rightarrow>
   (nat \<Rightarrow> nat \<Rightarrow> string) \<Rightarrow> identity \<Rightarrow> session_invitation \<Rightarrow> pair_conns \<Rightarrow> nat \<Rightarrow> error \<Rightarrow>
   socket_addr list \<Rightarrow> session_world pair_world \<Rightarrow>
   pairing_outcome result \<times> session_world pair_world" where
  "connect_addresses pc seed se cg sh rng identity iv conns i recent [] w =
     bindS (pw_call (\<lambda>s. (Inr (), diagnostic (Some (id_device (si_identity iv))) recent s)) w)
       (\<lambda>_ w. (Inl recent, w))"
| "connect_addresses pc seed se cg sh rng identity iv conns i recent (address # rest) w =
     (case link_secure pc seed (session_device_handler cg sh (rng i 0) (part 1 (rng i))) identity
             (cg_metadata cg) (se_fingerprint se) (fst (conns i)) (si_invitation iv)
             (w\<lparr>pw_chan := snd (conns i)\<rparr>) of
        (Inl err, w) \<Rightarrow>
          connect_addresses pc seed se cg sh rng identity iv conns (Suc i) err rest w
      | (Inr outcome, w) \<Rightarrow>
          bindS (pw_call (waking (mutate cg (rng i 2)
                   (remember_op sh (Protocol ''enrollment missing'')
                      (id_device (po_identity outcome)) (si_addresses iv)))) w) (\<lambda>_ w.
            (Inr outcome, w)))"

text \<open>\<open>ActivePairing\<close>: one operation per invitation; dropping the guard wakes the scheduler.\<close>

definition enter_pairing :: "string \<Rightarrow> session_world \<Rightarrow> unit result \<times> session_world" where
  "enter_pairing ident w =
     (if ident \<in> sn_active w then (fail_code Busy ''pairing operation already running'', w)
      else (Inr (), w\<lparr>sn_active := insert ident (sn_active w)\<rparr>))"

definition leave_pairing :: "string \<Rightarrow> session_world \<Rightarrow> unit result \<times> session_world" where
  "leave_pairing ident w = (Inr (), wake (w\<lparr>sn_active := sn_active w - {ident}\<rparr>))"

definition connect_handler :: "session_world \<Rightarrow> session_invitation \<Rightarrow> bool \<Rightarrow>
   (identity \<times> session_handler) result" where
  "connect_handler w iv repair =
     (if \<not> is_running w then fail ''session is not running''
      else case sn_runtime w of
             None \<Rightarrow> Inl Cancelled
           | Some _ \<Rightarrow> Inr (en_identity (en_body (sn_envelope w)),
               \<lparr>sh_generation = en_generation (en_body (sn_envelope w)),
                sh_expected = Some (si_identity iv), sh_addresses = si_addresses iv,
                sh_recovering = False, sh_repair = repair\<rparr>))"

definition connect_active ::
  "'s pair_crypto \<Rightarrow> bytes \<Rightarrow> session_env \<Rightarrow> session_config \<Rightarrow> (nat \<Rightarrow> nat \<Rightarrow> string) \<Rightarrow>
   session_invitation \<Rightarrow> bool \<Rightarrow> pair_conns \<Rightarrow> session_world pair_world \<Rightarrow>
   pairing_outcome result \<times> session_world pair_world" where
  "connect_active pc seed se cg rng iv repair conns w =
     bindS (pw_call operation_guard w) (\<lambda>_ w.
     bindS (pw_call (\<lambda>s. (connect_handler s iv repair, s)) w) (\<lambda>(identity, sh) w.
       connect_addresses pc seed se cg sh rng identity iv conns 0
         (Protocol ''invitation has no endpoints'') (si_addresses iv) w))"

definition connect_inner ::
  "'s pair_crypto \<Rightarrow> bytes \<Rightarrow> session_env \<Rightarrow> session_config \<Rightarrow> (nat \<Rightarrow> nat \<Rightarrow> string) \<Rightarrow>
   session_invitation \<Rightarrow> bool \<Rightarrow> pair_conns \<Rightarrow> session_world pair_world \<Rightarrow>
   pairing_outcome result \<times> session_world pair_world" where
  "connect_inner pc seed se cg rng iv repair conns w =
     bindS (pw_lift (inv_validate (si_invitation iv)) w) (\<lambda>_ w.
     if \<not> compatible_with (dm_manifest (cg_metadata cg)) (dm_manifest (inv_metadata (si_invitation iv)))
     then (fail_code IncompatibleSchema ''incompatible invitation schema'', w)
     else
       bindS (pw_call (enter_pairing (inv_id (si_invitation iv))) w) (\<lambda>_ w.
       case connect_active pc seed se cg rng iv repair conns w of (r, w) \<Rightarrow>
         (r, snd (pw_call (leave_pairing (inv_id (si_invitation iv))) w))))"

definition session_connect ::
  "'s pair_crypto \<Rightarrow> bytes \<Rightarrow> session_env \<Rightarrow> session_config \<Rightarrow> (nat \<Rightarrow> nat \<Rightarrow> string) \<Rightarrow>
   session_invitation \<Rightarrow> pair_conns \<Rightarrow> session_world pair_world \<Rightarrow>
   pairing_outcome result \<times> session_world pair_world" where
  "session_connect pc seed se cg rng iv conns w = connect_inner pc seed se cg rng iv False conns w"

text \<open>Repair of a peer: remove it, then enroll it again whatever certificate it shows.\<close>

definition repair_peer ::
  "'s pair_crypto \<Rightarrow> bytes \<Rightarrow> session_env \<Rightarrow> session_config \<Rightarrow> (nat \<Rightarrow> nat \<Rightarrow> string) \<Rightarrow>
   (nat \<Rightarrow> string) \<Rightarrow> error list \<Rightarrow> socket_addr result \<Rightarrow> unit result \<Rightarrow> string \<Rightarrow>
   session_invitation \<Rightarrow> pair_conns \<Rightarrow> session_world pair_world \<Rightarrow>
   pairing_outcome result \<times> session_world pair_world" where
  "repair_peer pc seed se cg rng ids teardown bound browse device iv conns w =
     (if id_device (si_identity iv) \<noteq> device
      then (fail ''repair invitation belongs to another device'', w)
      else bindS (pw_call (remove_peer se cg ids teardown bound browse device) w) (\<lambda>_ w.
           connect_inner pc seed se cg rng iv True conns w))"

definition connect_code ::
  "'s pair_crypto \<Rightarrow> bytes \<Rightarrow> session_env \<Rightarrow> session_config \<Rightarrow> (nat \<Rightarrow> nat \<Rightarrow> string) \<Rightarrow>
   discovered_peer \<Rightarrow> string \<Rightarrow> pair_conns \<Rightarrow> session_world pair_world \<Rightarrow>
   pairing_outcome result \<times> session_world pair_world" where
  "connect_code pc seed se cg rng p pin conns w =
     bindS (pw_lift (ok_or (Protocol ''peer has no managed metadata'') (dp_advertisement p)) w) (\<lambda>ad w.
     bindS (if id_app (dp_identity p) \<noteq> m_app_id (dm_manifest (cg_metadata cg)) then (Inr False, w)
            else pw_lift (ad_compatible_with (se_digest se) ad (dm_manifest (cg_metadata cg))) w)
       (\<lambda>compatible w.
     if \<not> compatible then (fail ''incompatible discovered app schema'', w)
     else
       bindS (pw_lift (ok_or (Protocol ''peer pairing is closed'') (dp_invitation p)) w) (\<lambda>descriptor w.
       bindS (pw_lift (with_code descriptor
                \<lparr>dm_display_name = pa_display_name ad, dm_device_kind = pa_device_kind ad,
                 dm_role = pa_role ad, dm_manifest = dm_manifest (cg_metadata cg)\<rparr> pin) w)
         (\<lambda>invitation w.
         session_connect pc seed se cg rng
           \<lparr>si_invitation = invitation, si_identity = dp_identity p, si_addresses = dp_addresses p\<rparr>
           conns w))))"

section \<open>Recovery of interrupted enrollments\<close>

fun recover_addresses ::
  "session_env \<Rightarrow> session_config \<Rightarrow> session_handler \<Rightarrow> (nat \<Rightarrow> nat \<Rightarrow> string) \<Rightarrow> identity \<Rightarrow>
   preparation \<Rightarrow> socket_addr list \<Rightarrow> pair_conns \<Rightarrow> nat \<Rightarrow> socket_addr list \<Rightarrow>
   session_world pair_world \<Rightarrow> unit result \<times> session_world pair_world" where
  "recover_addresses se cg sh rng identity pending hints conns i [] w = (Inr (), w)"
| "recover_addresses se cg sh rng identity pending hints conns i (address # rest) w =
     (case recover_secure_link (session_device_handler cg sh (rng i 0) (part 1 (rng i))) identity
             (cg_metadata cg) (fst (conns i)) (pn_outcome pending) (w\<lparr>pw_chan := snd (conns i)\<rparr>) of
        (Inr outcome, w) \<Rightarrow>
          pw_call (mutate cg (rng i 2)
            (remember_op sh Cancelled (id_device (po_identity outcome)) hints)) w
      | (Inl err, w) \<Rightarrow>
          bindS (pw_call (\<lambda>s. (Inr (),
                   diagnostic (Some (id_device (po_identity (pn_outcome pending)))) err s)) w) (\<lambda>_ w.
            recover_addresses se cg sh rng identity pending hints conns (Suc i) rest w))"

definition recovery_handler :: "preparation \<Rightarrow> socket_addr list \<Rightarrow> envelope_body \<Rightarrow> session_handler" where
  "recovery_handler pending hints e =
     \<lparr>sh_generation = en_generation e, sh_expected = Some (po_identity (pn_outcome pending)),
      sh_addresses = hints, sh_recovering = True, sh_repair = False\<rparr>"

fun recover_each ::
  "session_env \<Rightarrow> session_config \<Rightarrow> (nat \<Rightarrow> nat \<Rightarrow> nat \<Rightarrow> string) \<Rightarrow> string set \<Rightarrow>
   (nat \<Rightarrow> pair_conns) \<Rightarrow> nat \<Rightarrow> preparation list \<Rightarrow> session_world pair_world \<Rightarrow>
   unit result \<times> session_world pair_world" where
  "recover_each se cg rng active conns n [] w = (Inr (), w)"
| "recover_each se cg rng active conns n (pending # rest) w =
     bindS (pw_call (\<lambda>s. (Inr (endpoint_hints (po_identity (pn_outcome pending)) (pn_addresses pending) s),
              s)) w) (\<lambda>hints w.
     if po_invitation_id (pn_outcome pending) \<in> active
     then recover_each se cg rng active conns (Suc n) rest w
     else
       bindS (pw_check_cancel w) (\<lambda>_ w.
       bindS (pw_call operation_guard w) (\<lambda>_ w.
       bindS (pw_call (\<lambda>s. (Inr (en_body (sn_envelope s)), s)) w) (\<lambda>e w.
       bindS (recover_addresses se cg (recovery_handler pending hints e) (rng n) (en_identity e)
                pending hints (conns n) 0 hints w) (\<lambda>_ w.
         recover_each se cg rng active conns (Suc n) rest w)))))"

definition recover_pending ::
  "session_env \<Rightarrow> session_config \<Rightarrow> (nat \<Rightarrow> nat \<Rightarrow> nat \<Rightarrow> string) \<Rightarrow> (nat \<Rightarrow> pair_conns) \<Rightarrow>
   session_world pair_world \<Rightarrow> unit result \<times> session_world pair_world" where
  "recover_pending se cg rng conns w =
     bindS (pw_call (\<lambda>s. (Inr (bm_values (en_preparations (en_body (sn_envelope s)))), s)) w)
       (\<lambda>preparations w.
     bindS (pw_call (\<lambda>s. (Inr (sn_active s), s)) w) (\<lambda>active w.
       recover_each se cg rng active conns 0 preparations w))"

definition recover_pairing ::
  "session_env \<Rightarrow> session_config \<Rightarrow> (nat \<Rightarrow> nat \<Rightarrow> nat \<Rightarrow> string) \<Rightarrow> (nat \<Rightarrow> pair_conns) \<Rightarrow>
   session_world pair_world \<Rightarrow> unit result \<times> session_world pair_world" where
  "recover_pairing se cg rng conns w =
     bindS (pw_call operation_guard w) (\<lambda>_ w. recover_pending se cg rng conns w)"

definition pending_pairings :: "session_world \<Rightarrow> pairing_outcome list" where
  "pending_pairings w = map pn_outcome (bm_values (en_preparations (en_body (sn_envelope w))))"

end
