(* ===== verification/Session_Platform.thy ===== *)
theory Session_Platform
  imports Session_Connect
begin

text \<open>
  Discovery and scheduling of a session: what it advertises and takes in through the platform
  (\<open>session/mod.rs\<close>), the reactions of its mDNS thread, and the rounds of its scheduler
  (\<open>session/network.rs\<close>). Times are readings of the monotonic clock in milliseconds.
\<close>

section \<open>Platform discovery\<close>

record platform_advertisement =
  pf_service_type :: string
  pf_instance :: string
  pf_port :: "16 word"
  pf_ipv6 :: bool
  pf_txt :: "(string, string) bmap"

definition open_invitation :: "reading \<Rightarrow> session_world \<Rightarrow> pairing_descriptor option" where
  "open_invitation now w =
     (case sn_invitation w of
        None \<Rightarrow> None
      | Some d \<Rightarrow> if pm_is_open (pd_id d) now (sn_pairing w) then Some d else None)"

definition platform_advertisement_of ::
  "session_env \<Rightarrow> session_config \<Rightarrow> reading \<Rightarrow> session_world \<Rightarrow> platform_advertisement result" where
  "platform_advertisement_of se cg now w =
     bindR (session_address w) (\<lambda>address.
       let identity = en_identity (en_body (sn_envelope w))
       in bindR (platform_properties (se_digest se) identity (cg_metadata cg) (open_invitation now w))
            (\<lambda>txt. Inr
              \<lparr>pf_service_type = ''_libresync._tcp.'', pf_instance = id_device identity,
               pf_port = sock_port address, pf_ipv6 = sock_is_ipv6 address, pf_txt = txt\<rparr>))"

definition ingest_checks :: "identity \<Rightarrow> discovered_peer \<Rightarrow> unit result" where
  "ingest_checks own p =
     (if id_app (dp_identity p) \<noteq> id_app own \<or> \<not> text_ok (id_device (dp_identity p))
         \<or> \<not> text_ok (id_user (dp_identity p)) \<or> dp_addresses p = [] \<or> 32 < length (dp_addresses p)
      then fail_code InvalidConfiguration ''invalid platform discovery hint''
      else bindR (ok_or (Managed InvalidConfiguration ''missing platform metadata'') (dp_advertisement p))
        (\<lambda>ad.
        if \<not> text_ok (pa_display_name ad) \<or> \<not> text_ok (pa_device_kind ad) \<or> \<not> text_ok (pa_role ad)
           \<or> \<not> text_ok (pa_app_display_name ad) \<or> length (pa_contract_digest ad) \<noteq> 64
           \<or> \<not> list_all is_ascii_hexdigit (pa_contract_digest ad)
        then fail_code InvalidConfiguration ''invalid platform metadata''
        else if (case dp_invitation p of
                   None \<Rightarrow> False
                 | Some d \<Rightarrow> length (pd_id d) \<noteq> 32 \<or> \<not> list_all is_ascii_hexdigit (pd_id d)
                     \<or> length (pd_fingerprint d) \<noteq> 64 \<or> \<not> list_all is_ascii_hexdigit (pd_fingerprint d))
        then fail_code InvalidConfiguration ''invalid pairing hints''
        else Inr ()))"

definition usable_addresses :: "bool \<Rightarrow> socket_addr list \<Rightarrow> socket_addr list" where
  "usable_addresses ipv6 as =
     sort_dedup (filter (\<lambda>a. sock_port a \<noteq> 0 \<and> \<not> ip_is_unspecified (sock_ip a)
                           \<and> \<not> ip_is_multicast (sock_ip a) \<and> (ipv6 \<or> sock_is_ipv4 a)) as)"

definition ingest_platform_discovery ::
  "discovered_peer \<Rightarrow> session_world \<Rightarrow> unit result \<times> session_world" where
  "ingest_platform_discovery p w =
     (let own = en_identity (en_body (sn_envelope w)); device = id_device (dp_identity p)
      in if dp_identity p = own then (Inr (), w)
         else bindS (ingest_checks own p, w) (\<lambda>_ w.
              bindS (session_address w, w) (\<lambda>address w.
                let p = p\<lparr>dp_addresses := usable_addresses (sock_is_ipv6 address) (dp_addresses p)\<rparr>
                in if dp_addresses p = [] then (Inr (), w)
                   else if 256 \<le> length (sn_discovered w) \<and> \<not> bm_has (sn_discovered w) device
                   then (fail_code Busy ''platform discovery capacity reached'', w)
                   else if bm_get (sn_discovered w) device = Some p then (Inr (), w)
                   else (Inr (), wake (emit Changed
                          (w\<lparr>sn_discovered := bm_insert device p (sn_discovered w)\<rparr>))))))"

definition withdraw_platform_discovery :: "string \<Rightarrow> session_world \<Rightarrow> session_world" where
  "withdraw_platform_discovery device w =
     emit Changed (w\<lparr>sn_discovered := bm_remove device (sn_discovered w)\<rparr>)"

definition discovered_peers :: "session_world \<Rightarrow> discovered_peer list" where
  "discovered_peers w = bm_values (sn_discovered w)"

section \<open>The mDNS thread\<close>

definition hints_peer :: "discovered_peer \<Rightarrow> peer \<Rightarrow> bool" where
  "hints_peer d p =
     (\<not> pr_revoked p \<and> pr_identity p = dp_identity d \<and> dp_addresses d \<noteq> []
      \<and> pr_addresses p \<noteq> dp_addresses d)"

definition hints_preparation :: "discovered_peer \<Rightarrow> preparation \<Rightarrow> bool" where
  "hints_preparation d pending =
     (po_identity (pn_outcome pending) = dp_identity d \<and> dp_addresses d \<noteq> []
      \<and> pn_addresses pending \<noteq> dp_addresses d)"

definition hint_op :: "discovered_peer \<Rightarrow> envelope_body \<Rightarrow> (bool \<times> envelope_body) result" where
  "hint_op d e =
     (let device = id_device (dp_identity d);
          moved = (case bm_get (en_peers e) device of None \<Rightarrow> False | Some p \<Rightarrow> hints_peer d p)
      in Inr (moved \<or> list_ex (hints_preparation d) (bm_values (en_preparations e)),
              e\<lparr>en_peers := bm_update device
                   (\<lambda>p. if hints_peer d p then p\<lparr>pr_addresses := dp_addresses d\<rparr> else p) (en_peers e),
                en_preparations := bm_map
                   (\<lambda>pending. if hints_preparation d pending
                              then pending\<lparr>pn_addresses := dp_addresses d\<rparr> else pending)
                   (en_preparations e)\<rparr>))"

text \<open>The names under which services were resolved, for the events that remove them.\<close>

type_synonym fullnames = "(string, string) bmap"

definition peer_resolved ::
  "session_config \<Rightarrow> string \<Rightarrow> identity \<Rightarrow> resolved_service \<Rightarrow> fullnames \<Rightarrow> session_world \<Rightarrow>
   fullnames \<times> session_world" where
  "peer_resolved cg fresh own info names w =
     (case parse_peer_info info (m_app_id (dm_manifest (cg_metadata cg))) of
        None \<Rightarrow> (names, w)
      | Some d \<Rightarrow>
          if dp_identity d = own then (names, w)
          else
            let device = id_device (dp_identity d);
                known = (bm_get (sn_discovered w) device = Some d);
                w1 = w\<lparr>sn_discovered := bm_insert device d (sn_discovered w)\<rparr>;
                w2 = (if known then w1 else emit Changed w1)
            in (bm_insert (rs_fullname info) device names,
                case mutate cg fresh (hint_op d) w2 of
                  (Inr True, w3) \<Rightarrow> wake w3
                | (Inr False, w3) \<Rightarrow> w3
                | (Inl err, w3) \<Rightarrow> diagnostic None err w3))"

definition peer_vanished :: "string \<Rightarrow> fullnames \<Rightarrow> session_world \<Rightarrow> fullnames \<times> session_world" where
  "peer_vanished name names w =
     (case bm_get names name of
        None \<Rightarrow> (names, w)
      | Some device \<Rightarrow>
          (bm_remove name names,
           emit Changed (w\<lparr>sn_discovered := bm_remove device (sn_discovered w)\<rparr>)))"

definition retire_invitation ::
  "session_env \<Rightarrow> session_config \<Rightarrow> reading \<Rightarrow> session_world \<Rightarrow> session_world" where
  "retire_invitation se cg now w =
     (case sn_invitation w of
        None \<Rightarrow> w
      | Some d \<Rightarrow>
          if pm_is_open (pd_id d) now (sn_pairing w) then w
          else case refresh_advertisement se cg (w\<lparr>sn_invitation := None\<rparr>) of
                 (Inr _, w') \<Rightarrow> w'
               | (Inl err, w') \<Rightarrow> diagnostic None err w')"

text \<open>One turn of the thread; \<open>None\<close>: the browser closed and the thread ends.\<close>

definition discovery_turn ::
  "session_env \<Rightarrow> session_config \<Rightarrow> string \<Rightarrow> identity \<Rightarrow> reading \<Rightarrow> browse_event \<Rightarrow> fullnames \<Rightarrow>
   session_world \<Rightarrow> fullnames option \<times> session_world" where
  "discovery_turn se cg fresh own now ev names w =
     (case ev of
        BrowseClosed tx \<Rightarrow>
          (None, diagnostic None (Protocol (''discovery browser closed: '' @ tx)) w)
      | _ \<Rightarrow>
          (case (case ev of
                   Resolved info \<Rightarrow> peer_resolved cg fresh own info names w
                 | Removed ty name \<Rightarrow> peer_vanished name names w
                 | _ \<Rightarrow> (names, w)) of
             (names', w') \<Rightarrow> (Some names', retire_invitation se cg now w')))"

section \<open>The scheduler\<close>

type_synonym retries = "(string, nat \<times> nat) bmap"

definition scheduled_peers :: "envelope_body \<Rightarrow> peer list" where
  "scheduled_peers e =
     filter (\<lambda>p. \<not> pr_revoked p \<and> pr_state p \<noteq> PeerPaused \<and> pr_state p \<noteq> NeedsRepair)
       (bm_values (en_peers e))"

definition retain_retries :: "peer list \<Rightarrow> retries \<Rightarrow> retries" where
  "retain_retries peers r = bm_retain (\<lambda>device _. list_ex (\<lambda>p. id_device (pr_identity p) = device) peers) r"

fun is_mismatch :: "error \<Rightarrow> bool" where
  "is_mismatch (FingerprintMismatch a b c) = True"
| "is_mismatch _ = False"

definition unreachable_op :: "string \<Rightarrow> error \<Rightarrow> envelope_body \<Rightarrow> (unit \<times> envelope_body) result" where
  "unreachable_op device err e =
     Inr ((), e\<lparr>en_peers := bm_update device
       (\<lambda>p. if pr_revoked p then p
            else p\<lparr>pr_state := (if is_mismatch err then NeedsRepair else Waiting)\<rparr>) (en_peers e)\<rparr>)"

text \<open>Exponential back-off: 200 ms doubling up to 6.4 s.\<close>

definition next_retry :: "string \<Rightarrow> nat \<Rightarrow> retries \<Rightarrow> retries" where
  "next_retry device now r =
     (let attempt = min ((case bm_get r device of None \<Rightarrow> 0 | Some (n, _) \<Rightarrow> n) + 1) 6
      in bm_insert device (attempt, now + 100 * 2 ^ attempt) r)"

definition must_wait :: "retries \<Rightarrow> string \<Rightarrow> nat \<Rightarrow> bool" where
  "must_wait r device now = (case bm_get r device of None \<Rightarrow> False | Some (_, due) \<Rightarrow> now < due)"

text \<open>
  The peers of one round. \<open>clocks\<close> gives the two clock readings for each peer, \<open>conns\<close> its
  connections. A cancelled scheduler leaves the round.
\<close>

fun contact_peers ::
  "session_env \<Rightarrow> session_config \<Rightarrow> (nat \<Rightarrow> nat \<Rightarrow> string) \<Rightarrow> (nat \<Rightarrow> bytes) \<Rightarrow> socket_addr \<Rightarrow>
   (nat \<Rightarrow> nat \<times> nat) \<Rightarrow> (nat \<Rightarrow> nat \<Rightarrow> error + channel) \<Rightarrow> nat \<Rightarrow> peer list \<Rightarrow> retries \<Rightarrow>
   session_world pair_world \<Rightarrow> retries \<times> session_world pair_world" where
  "contact_peers se cg rng nonces own clocks conns n [] r w = (r, w)"
| "contact_peers se cg rng nonces own clocks conns n (p # rest) r w =
     (let device = id_device (pr_identity p) in
      case pw_check_cancel w of
        (Inl _, w) \<Rightarrow> (r, w)
      | (Inr _, w) \<Rightarrow>
          if must_wait r device (fst (clocks n))
          then contact_peers se cg rng nonces own clocks conns (Suc n) rest r w
          else case session_outbound se cg (rng n) (nonces n) own p (conns n) w of
                 (Inr _, w) \<Rightarrow>
                   contact_peers se cg rng nonces own clocks conns (Suc n) rest (bm_remove device r) w
               | (Inl err, w) \<Rightarrow>
                   (case pw_check_cancel w of
                      (Inl _, w) \<Rightarrow> (r, w)
                    | (Inr _, w) \<Rightarrow>
                        contact_peers se cg rng nonces own clocks conns (Suc n) rest
                          (next_retry device (snd (clocks n)) r)
                          (snd (pw_call (\<lambda>s. (Inr () :: unit result, diagnostic (Some device) err
                             (snd (mutate cg (rng n 3) (unreachable_op device err) s)))) w))))"

text \<open>What is left to sleep: to the next retry, at most the catch-up interval.\<close>

definition retry_wait :: "nat \<Rightarrow> nat \<Rightarrow> retries \<Rightarrow> nat" where
  "retry_wait catch_up now r =
     (case r of
        [] \<Rightarrow> catch_up
      | _ \<Rightarrow> min catch_up (Min (set (map (\<lambda>(_, _, due). due - now) r))))"

definition scheduler_round ::
  "session_env \<Rightarrow> session_config \<Rightarrow> (nat \<Rightarrow> nat \<Rightarrow> string) \<Rightarrow> (nat \<Rightarrow> bytes) \<Rightarrow> socket_addr \<Rightarrow>
   (nat \<Rightarrow> nat \<times> nat) \<Rightarrow> (nat \<Rightarrow> nat \<Rightarrow> error + channel) \<Rightarrow> retries \<Rightarrow> session_world pair_world \<Rightarrow>
   retries \<times> session_world pair_world" where
  "scheduler_round se cg rng nonces own clocks conns r w =
     (case pw_call (\<lambda>s. (Inr (scheduled_peers (en_body (sn_envelope s))) :: peer list result, s)) w of
        (Inr peers, w) \<Rightarrow> contact_peers se cg rng nonces own clocks conns 0 peers (retain_retries peers r) w
      | (Inl _, w) \<Rightarrow> (r, w))"

end
