(* ===== verification/Session_Invariant.thy ===== *)
theory Session_Invariant
  imports Session_Laws Session_Platform
begin

text \<open>
  The invariant of a session's envelope, \<open>session_ok\<close>: its maps are sorted and agree with each
  other (\<open>body_ok\<close>), every enrollment has its live peer (\<open>enroll_ok\<close>), and every peer's receipts,
  held batch and state fit together (\<open>peers_ok\<close>). Each operation a session runs under
  \<open>mutate\<close> keeps it.
\<close>

definition receipt_ok :: "envelope_body \<Rightarrow> managed_receipt \<Rightarrow> bool" where
  "receipt_ok e r \<longleftrightarrow> (mr_epoch r = en_epoch e \<longrightarrow> mr_sequence r \<le> en_revision e)"

definition pending_ok :: "string \<Rightarrow> peer \<Rightarrow> bool" where
  "pending_ok d p \<longleftrightarrow>
     (case pr_pending p of
        None \<Rightarrow> True
      | Some v \<Rightarrow> bp_peer v = d \<and> bp_fingerprint v = pr_fingerprint p \<and> \<not> pr_bootstrapped p)"

text \<open>A removed peer is paused and holds nothing; one not bootstrapped has received nothing.\<close>

definition peer_ok :: "envelope_body \<Rightarrow> string \<Rightarrow> peer \<Rightarrow> bool" where
  "peer_ok e d p \<longleftrightarrow>
     receipt_ok e (pr_stored p) \<and> receipt_ok e (pr_applied p) \<and> pending_ok d p \<and>
     (pr_revoked p \<longrightarrow> pr_state p = PeerPaused \<and> pr_pending p = None) \<and>
     (\<not> pr_bootstrapped p \<longrightarrow> pr_received p = default_receipt)"

definition peers_ok :: "envelope_body \<Rightarrow> bool" where
  "peers_ok e \<longleftrightarrow>
     bm_get (en_peers e) (id_device (en_identity e)) = None \<and>
     (\<forall>d p. bm_get (en_peers e) d = Some p \<longrightarrow> peer_ok e d p)"

definition session_ok :: "session_config \<Rightarrow> envelope_body \<Rightarrow> bool" where
  "session_ok cg e \<longleftrightarrow> body_ok cg e \<and> enroll_ok e \<and> peers_ok e"

lemma session_ok_frame:
  assumes "session_ok cg e"
    and "en_records e' = en_records e" "en_sequences e' = en_sequences e" "en_origins e' = en_origins e"
      "en_revision e' = en_revision e" "en_peers e' = en_peers e" "en_epoch e' = en_epoch e"
      "en_identity e' = en_identity e" "en_enrollments e' = en_enrollments e"
    and "bm_ok (en_preparations e')"
  shows "session_ok cg e'"
  using assms
  by (simp add: session_ok_def body_ok_def enroll_ok_def peers_ok_def peer_ok_def receipt_ok_def)

lemma session_ok_simps:
  assumes "session_ok cg e"
  shows "bm_ok (en_peers e)" "bm_ok (en_preparations e)" "bm_ok (en_enrollments e)"
    "bm_get (en_peers e) d = Some p \<Longrightarrow> peer_ok e d p \<and> id_device (pr_identity p) = d"
  using assms by (auto simp: session_ok_def body_ok_def enroll_ok_def peers_ok_def)

interpretation durable: durable_invariant cg "session_ok cg" for cg
  by unfold_locales
    (rule session_ok_frame, auto dest: session_ok_simps(2))

section \<open>Peers\<close>

text \<open>An update of one peer that keeps who it is.\<close>

lemma session_ok_peer:
  assumes ok: "session_ok cg e"
    and f: "\<And>p. bm_get (en_peers e) d = Some p \<Longrightarrow> peer_ok e d p \<Longrightarrow>
      peer_ok e d (f p) \<and> pr_identity (f p) = pr_identity p \<and> pr_fingerprint (f p) = pr_fingerprint p \<and>
      pr_revoked (f p) = pr_revoked p"
  shows "session_ok cg (e\<lparr>en_peers := bm_update d f (en_peers e)\<rparr>)"
proof -
  let ?e = "e\<lparr>en_peers := bm_update d f (en_peers e)\<rparr>"
  have same: "peer_ok ?e = peer_ok e" by (auto simp: peer_ok_def receipt_ok_def fun_eq_iff)
  have get: "\<exists>p. bm_get (en_peers e) d' = Some p \<and> peer_ok e d' q \<and> pr_identity q = pr_identity p \<and>
      pr_fingerprint q = pr_fingerprint p \<and> pr_revoked q = pr_revoked p"
    if "bm_get (en_peers ?e) d' = Some q" for d' q
    using that f session_ok_simps(4)[OF ok] by (auto simp: bm_get_update split: if_splits)
  have keep: "\<exists>q. bm_get (en_peers ?e) d' = Some q \<and> pr_identity q = pr_identity p \<and>
      pr_fingerprint q = pr_fingerprint p \<and> pr_revoked q = pr_revoked p"
    if p: "bm_get (en_peers e) d' = Some p" for d' p
  proof (cases "d' = d")
    case True
    then show ?thesis using p f[of p] session_ok_simps(4)[OF ok p] by (auto simp: bm_get_update)
  qed (use p in \<open>auto simp: bm_get_update\<close>)
  have ids: "id_device (pr_identity q) = d'" if "bm_get (en_peers ?e) d' = Some q" for d' q
    using get[OF that] session_ok_simps(4)[OF ok] by auto
  then have b: "body_ok cg ?e" using ok
    by (simp add: session_ok_def body_ok_def bm_ok_update)
  have "\<exists>p. bm_get (en_peers ?e) (id_device (po_identity (er_outcome j))) = Some p \<and>
           \<not> pr_revoked p \<and> pr_identity p = po_identity (er_outcome j) \<and>
           pr_fingerprint p = po_fingerprint (er_outcome j)"
    if j: "bm_get (en_enrollments e) k = Some j" for k j
  proof -
    obtain p where "bm_get (en_peers e) (id_device (po_identity (er_outcome j))) = Some p"
      "\<not> pr_revoked p" "pr_identity p = po_identity (er_outcome j)" "pr_fingerprint p = po_fingerprint (er_outcome j)"
      using ok j unfolding session_ok_def enroll_ok_def by blast
    then show ?thesis using keep by metis
  qed
  then have en: "enroll_ok ?e"
    using ok b unfolding session_ok_def enroll_ok_def body_ok_def by simp
  have "peers_ok ?e"
  proof -
    have "bm_get (en_peers ?e) (id_device (en_identity ?e)) = None"
      using ok by (auto simp: session_ok_def peers_ok_def bm_get_update)
    moreover have "peer_ok ?e d' q" if "bm_get (en_peers ?e) d' = Some q" for d' q
      unfolding same using get[OF that] by blast
    ultimately show ?thesis unfolding peers_ok_def by blast
  qed
  then show ?thesis using b en by (simp add: session_ok_def)
qed

lemma with_peer_ok:
  assumes "session_ok cg e" and "with_peer d f e = Inr e'"
    and "\<And>p. bm_get (en_peers e) d = Some p \<Longrightarrow> peer_ok e d p \<Longrightarrow>
      peer_ok e d (f p) \<and> pr_identity (f p) = pr_identity p \<and> pr_fingerprint (f p) = pr_fingerprint p \<and>
      pr_revoked (f p) = pr_revoked p"
  shows "session_ok cg e'"
  using assms by (auto simp: with_peer_def intro!: session_ok_peer)

lemma peer_check_Inr:
  "peer_check sh i fp e = Inr u \<longleftrightarrow>
     en_phase e = Running \<and> en_generation e = sh_generation sh \<and>
     (\<exists>p. bm_get (en_peers e) (id_device i) = Some p \<and> \<not> pr_revoked p \<and> pr_state p \<noteq> PeerPaused \<and>
        pr_state p \<noteq> NeedsRepair \<and> pr_identity p = i \<and> pr_fingerprint p = fp)"
  by (auto simp: peer_check_def fail_code_def)


section \<open>Records\<close>

lemma session_ok_commit:
  assumes "session_ok cg e" and "commit_records cg e prepared origin = Inr e'"
  shows "session_ok cg e'"
proof -
  note frame = commit_records_frame[OF assms(2)]
  obtain results where "foldR (publish_one cg origin) e (concat results) = Inr e'"
    by (rule commit_records_Inr[OF assms(2)])
  then have "en_revision e \<le> en_revision e'" using publish_all_grows by blast
  then have "peer_ok e' d p" if "peer_ok e d p" for d p
    using that frame by (auto simp: peer_ok_def receipt_ok_def)
  moreover have "en_preparations e' = en_preparations e" using frame by simp
  ultimately show ?thesis
    using assms(1) body_ok_commit[OF _ assms(2)] frame
    by (auto simp: session_ok_def enroll_ok_def peers_ok_def)
qed

lemma op_keepsI:
  "(\<And>e r e'. P e \<Longrightarrow> operation e = Inr (r, e') \<Longrightarrow> P e') \<Longrightarrow> op_keeps P operation"
  unfolding op_keeps_def by blast

lemma local_revision_keeps: "session_ok cg e \<Longrightarrow> session_ok cg (e\<lparr>en_local_revision := n\<rparr>)"
  by (rule session_ok_frame) (auto dest: session_ok_simps(2))

lemma write_keeps [op_keeps]: "op_keeps (session_ok cg) (write_op cg adapter ident value deleted)"
proof (rule op_keepsI)
  fix e r e' assume ok: "session_ok cg e" and "write_op cg adapter ident value deleted e = Inr (r, e')"
  then obtain prepared e1 rev where e1: "commit_records cg e prepared None = Inr e1"
    and e': "e' = e1\<lparr>en_local_revision := rev\<rparr>"
    by (auto simp: write_op_def Let_def)
  show "session_ok cg e'"
    unfolding e' by (rule local_revision_keeps[OF session_ok_commit[OF ok e1]])
qed

lemma import_keeps [op_keeps]: "op_keeps (session_ok cg) (import_op cg records)"
proof (rule op_keepsI)
  fix e r e' assume ok: "session_ok cg e" and "import_op cg records e = Inr (r, e')"
  then obtain prepared e1 where e1: "commit_records cg e prepared None = Inr e1"
    and e': "e' = e1 \<or> (\<exists>n. e' = e1\<lparr>en_local_revision := n\<rparr>)"
    by (auto simp: import_op_def split: if_splits)
  from session_ok_commit[OF ok e1] have "session_ok cg e1" .
  then show "session_ok cg e'"
    using e' local_revision_keeps by blast
qed

lemma prune_keeps [op_keeps]: "op_keeps (session_ok cg) (\<lambda>e. Inr (u, e\<lparr>en_recovery := f e\<rparr>))"
  by (rule op_keepsI) (auto intro: durable.recovery)

lemma apply_keeps:
  assumes "session_ok cg e" and "apply_batch cg batch d e = Inr e'"
  shows "session_ok cg e'"
proof -
  obtain prepared e1 where e1: "commit_records cg e prepared (Some d) = Inr e1"
    and e': "with_peer d (\<lambda>p. p\<lparr>pr_received := eb_checkpoint batch, pr_bootstrapped := True,
        pr_pending := None\<rparr>) e1 = Inr e'"
    using assms(2) by (auto simp: apply_batch_def)
  show ?thesis
    using session_ok_commit[OF assms(1) e1] e'
    by (rule with_peer_ok) (auto simp: peer_ok_def pending_ok_def)
qed

section \<open>Life of the session\<close>

lemma generation_keeps:
  "session_ok cg e \<Longrightarrow> session_ok cg (e\<lparr>en_generation := g, en_phase := ph\<rparr>)"
  "session_ok cg e \<Longrightarrow> session_ok cg (e\<lparr>en_generation := g\<rparr>)"
  by (auto intro!: session_ok_frame[of cg e] dest: session_ok_simps(2))

lemma start_keeps [op_keeps]: "op_keeps (session_ok cg) start_op"
  by (rule op_keepsI) (auto simp: start_op_def intro: generation_keeps)

lemma stop_keeps [op_keeps]: "op_keeps (session_ok cg) (stop_op phase)"
  by (rule op_keepsI) (auto simp: stop_op_def intro: generation_keeps split: if_splits)

section \<open>Receipts and batches\<close>

lemma advance_processed_frame [simp]:
  "pr_identity (advance_processed r p) = pr_identity p"
  "pr_fingerprint (advance_processed r p) = pr_fingerprint p"
  "pr_revoked (advance_processed r p) = pr_revoked p"
  "peer_ok e d (advance_processed r p) = peer_ok e d p"
  by (simp_all add: advance_processed_def peer_ok_def pending_ok_def split: option.split)

lemma process_keeps:
  assumes "session_ok cg e" and "process_receipt e ir = Inr e'"
  shows "session_ok cg e'"
  using assms
  by (auto simp: process_receipt_def intro!: session_ok_peer)

lemma acknowledge_keeps [op_keeps]: "op_keeps (session_ok cg) (acknowledge_op inbox)"
proof (rule op_keepsI)
  fix e r e' assume ok: "session_ok cg e" and "acknowledge_op inbox e = Inr (r, e')"
  then have "foldR process_receipt e (ib_receipts inbox) = Inr e'"
    by (auto simp: acknowledge_op_def split: if_splits)
  then show "session_ok cg e'"
    by (rule foldR_invariant) (use ok process_keeps in auto)
qed

lemma acknowledge_peer_keeps [op_keeps]: "op_keeps (session_ok cg) (acknowledge_peer_op d receipt)"
  by (rule op_keepsI)
    (auto simp: acknowledge_peer_op_def split: if_splits elim!: with_peer_ok)

lemma receipt_ok_verified:
  "receipt_verify rc key e p r = Inr u \<Longrightarrow> receipt_ok e r"
  using verify_ok[of rc key e p r] by (simp add: receipt_ok_def)

lemma receipt_ok_advance: "receipt_ok e r \<Longrightarrow> receipt_ok e old \<Longrightarrow> receipt_ok e (advance_receipt r old)"
  by (simp add: advance_receipt_def)

lemma acked_keeps [op_keeps]: "op_keeps (session_ok cg) (acked_op se sh p receipt disposition)"
  by (rule op_keepsI)
    (auto simp: acked_op_def acked_peer_def peer_ok_def pending_ok_def Let_def peer_check_Inr
      dest!: receipt_ok_verified intro!: receipt_ok_advance split: if_splits option.splits elim!: with_peer_ok)

lemma transmitted_keeps [op_keeps]: "op_keeps (session_ok cg) (transmitted_op sh p checkpoint)"
  by (rule op_keepsI)
    (auto simp: transmitted_op_def peer_ok_def pending_ok_def split: option.splits elim!: with_peer_ok)

lemma export_keeps [op_keeps]: "op_keeps (session_ok cg) (export_op se cg sh p cursor)"
  by (rule op_keepsI) (auto simp: export_op_def Let_def)

lemma authenticate_keeps [op_keeps]:
  "op_keeps (session_ok cg) (authenticate_op se sh fp i metadata cursor processed addresses)"
proof (rule op_keepsI)
  fix e r e' assume ok: "session_ok cg e"
    and "authenticate_op se sh fp i metadata cursor processed addresses e = Inr (r, e')"
  then obtain current f where current: "bm_get (en_peers e) (id_device i) = Some current"
    and f: "f = (\<lambda>_. present_peer addresses metadata
      (if processed \<noteq> default_receipt \<and>
          is_ok (receipt_verify (se_receipts se) (se_storage_key se) e current processed)
       then advance_proven processed current else current))"
    and e': "e' = e\<lparr>en_peers := bm_update (id_device i) f (en_peers e)\<rparr>"
    by (auto simp: authenticate_op_def Let_def)
  show "session_ok cg e'"
    unfolding e' using ok
    by (rule session_ok_peer)
      (use current in \<open>auto simp: f present_peer_def advance_proven_def peer_ok_def pending_ok_def is_ok_iff
        dest!: receipt_ok_verified intro!: receipt_ok_advance split: option.splits\<close>)
qed

lemma receive_keeps [op_keeps]: "op_keeps (session_ok cg) (receive_op cg sh token sender batch)"
proof (rule op_keepsI)
  fix e r e' assume ok: "session_ok cg e" and r: "receive_op cg sh token sender batch e = Inr (r, e')"
  let ?d = "id_device (pr_identity sender)"
  obtain p where p: "bm_get (en_peers e) ?d = Some p" "\<not> pr_revoked p" "pr_fingerprint p = pr_fingerprint sender"
    using r by (auto simp: receive_op_def Let_def peer_check_Inr)
  consider "e' = e" | "apply_batch cg batch ?d e = Inr e'"
    | "with_peer ?d (hold_for_review token batch sender e) e = Inr e'" "\<not> pr_bootstrapped p"
    using r p by (auto simp: receive_op_def Let_def split: if_splits)
  then show "session_ok cg e'"
  proof cases
    case 3
    from ok 3(1) show ?thesis
      by (rule with_peer_ok)
        (use p 3(2) in \<open>auto simp: hold_for_review_def peer_ok_def pending_ok_def split: option.splits\<close>)
  qed (use ok apply_keeps in auto)
qed

lemma resolve_keeps [op_keeps]: "op_keeps (session_ok cg) (resolve_op cg preview decision)"
proof (rule op_keepsI)
  fix e r e' assume ok: "session_ok cg e" and r: "resolve_op cg preview decision e = Inr (r, e')"
  show "session_ok cg e'"
  proof (cases decision)
    case MergeBatch
    then have "apply_batch cg (bp_batch preview) (bp_peer preview) e = Inr e'"
      using r by (auto simp: resolve_op_def fail_code_def split: if_splits)
    then show ?thesis using ok apply_keeps by blast
  next
    case CancelBatch
    then show ?thesis using ok r
      by (auto simp: resolve_op_def fail_code_def peer_ok_def pending_ok_def split: if_splits elim!: with_peer_ok)
  qed
qed


section \<open>Life of a peer\<close>

lemma remove_keeps [op_keeps]: "op_keeps (session_ok cg) (remove_op incarnation d)"
proof (rule op_keepsI)
  fix e r e' assume ok: "session_ok cg e" and "remove_op incarnation d e = Inr (r, e')"
  then obtain g where e': "e' = e
    \<lparr>en_peers := bm_update d (\<lambda>p. p\<lparr>pr_revoked := True, pr_incarnation := incarnation,
                      pr_state := PeerPaused, pr_pending := None\<rparr>) (en_peers e),
     en_generation := g,
     en_enrollments := bm_retain (\<lambda>_ j. \<not> of_device d (er_outcome j)) (en_enrollments e),
     en_preparations := bm_retain (\<lambda>_ j. \<not> of_device d (pn_outcome j)) (en_preparations e)\<rparr>"
    by (auto simp: remove_op_def)
  note sorted = session_ok_simps(1-3)[OF ok]
  have "body_ok cg e'"
    using ok by (auto simp: session_ok_def body_ok_def e' bm_get_update bm_ok_update split: if_splits)
  moreover have "enroll_ok e'"
    using ok sorted
    by (auto simp: session_ok_def enroll_ok_def e' bm_get_update bm_get_retain of_device_def bm_intros
        split: if_splits option.splits)
  moreover have "peers_ok e'"
    using ok
    by (auto simp: session_ok_def peers_ok_def peer_ok_def receipt_ok_def pending_ok_def e' bm_get_update
        split: if_splits)
  ultimately show "session_ok cg e'" by (simp add: session_ok_def)
qed

lemma pause_peer_keeps [op_keeps]: "op_keeps (session_ok cg) (pause_peer_op d)"
proof (rule op_keepsI)
  fix e r e' assume ok: "session_ok cg e" and "pause_peer_op d e = Inr (r, e')"
  then obtain e1 g where e1: "with_peer d (\<lambda>p. p\<lparr>pr_state := PeerPaused\<rparr>) e = Inr e1"
    and e': "e' = e1\<lparr>en_generation := g\<rparr>"
    by (auto simp: pause_peer_op_def)
  from ok e1 have "session_ok cg e1"
    by (rule with_peer_ok) (auto simp: peer_ok_def pending_ok_def split: option.splits)
  then show "session_ok cg e'" unfolding e' by (rule generation_keeps)
qed

lemma resume_peer_keeps [op_keeps]: "op_keeps (session_ok cg) (resume_peer_op d)"
  by (rule op_keepsI)
    (auto simp: resume_peer_op_def peer_ok_def pending_ok_def split: if_splits option.splits elim!: with_peer_ok)

lemma unreachable_keeps [op_keeps]: "op_keeps (session_ok cg) (unreachable_op d err)"
proof (rule op_keepsI)
  fix e r e' assume ok: "session_ok cg e" and "unreachable_op d err e = Inr (r, e')"
  then obtain f where f: "f = (\<lambda>p. if pr_revoked p then p
        else p\<lparr>pr_state := (if is_mismatch err then NeedsRepair else Waiting)\<rparr>)"
    and e': "e' = e\<lparr>en_peers := bm_update d f (en_peers e)\<rparr>"
    by (auto simp: unreachable_op_def)
  show "session_ok cg e'"
    unfolding e' using ok
    by (rule session_ok_peer) (auto simp: f peer_ok_def pending_ok_def split: option.splits if_splits)
qed

lemma remember_keeps [op_keeps]: "op_keeps (session_ok cg) (remember_op sh missing d addresses)"
  by (rule op_keepsI)
    (auto simp: remember_op_def peer_ok_def pending_ok_def split: option.splits intro!: session_ok_peer)

lemma hint_keeps [op_keeps]: "op_keeps (session_ok cg) (hint_op d)"
proof (rule op_keepsI)
  fix e r e' assume ok: "session_ok cg e" and "hint_op d e = Inr (r, e')"
  then obtain f g where f: "f = (\<lambda>p. if hints_peer d p then p\<lparr>pr_addresses := dp_addresses d\<rparr> else p)"
    and e': "e' = e\<lparr>en_peers := bm_update (id_device (dp_identity d)) f (en_peers e),
        en_preparations := bm_map g (en_preparations e)\<rparr>"
    by (auto simp: hint_op_def Let_def)
  let ?e = "e\<lparr>en_peers := bm_update (id_device (dp_identity d)) f (en_peers e)\<rparr>"
  have "session_ok cg ?e"
    using ok by (rule session_ok_peer)
      (auto simp: f hints_peer_def peer_ok_def pending_ok_def split: option.splits)
  then show "session_ok cg e'"
    by (rule session_ok_frame) (simp_all add: e' bm_ok_map session_ok_simps(2)[OF ok])
qed

section \<open>Enrollment\<close>

lemma prepare_keeps [op_keeps]: "op_keeps (session_ok cg) (prepare_op cg sh outcome)"
proof (rule op_keepsI)
  fix e r e' assume ok: "session_ok cg e" and "prepare_op cg sh outcome e = Inr (r, e')"
  then have e': "e' = e\<lparr>en_preparations := bm_insert (po_invitation_id outcome)
             \<lparr>pn_addresses = sh_addresses sh, pn_outcome = outcome,
              pn_generation = sh_generation sh\<rparr> (en_preparations e)\<rparr>"
    by (simp add: prepare_op_Inr)
  show "session_ok cg e'"
    by (rule session_ok_frame[OF ok]) (simp_all add: e' bm_ok_insert session_ok_simps(2)[OF ok])
qed

lemma enroll_peer_cases:
  assumes "enroll_ok e"
    and "bm_get (en_peers (enroll sh rng outcome key e)) (id_device (po_identity outcome)) = Some q"
  shows "pr_pending q = None \<and> \<not> pr_bootstrapped q \<and> \<not> pr_revoked q \<and> pr_received q = default_receipt \<and>
      pr_stored q = default_receipt \<and> pr_applied q = default_receipt \<or>
    (\<exists>p inc. bm_get (en_peers e) (id_device (po_identity outcome)) = Some p \<and> q = p\<lparr>pr_incarnation := inc\<rparr>)"
proof (cases "bm_get (en_peers e) (id_device (po_identity outcome))")
  case None
  then have "\<not> bm_has (en_peers e) (id_device (po_identity outcome))" by (simp add: bm_has_def)
  then show ?thesis using assms(2)
    by (auto simp: enroll_def Let_def bm_get_insert bm_get_update new_peer_def reset_peer_def
        split: option.splits if_splits)
next
  case (Some p)
  then have has: "bm_has (en_peers e) (id_device (po_identity outcome))" by (simp add: bm_has_def)
  obtain inc where "bm_get (enroll_peers rng key e) (id_device (po_identity outcome)) = Some (p\<lparr>pr_incarnation := inc\<rparr>)"
    using enroll_peers_get_Some[OF Some] by blast
  then show ?thesis using assms(2) has Some
    by (auto simp: enroll_def Let_def bm_get_update reset_peer_def split: if_splits)
qed

lemma enroll_keeps:
  assumes "session_ok cg e" and "id_device (po_identity outcome) \<noteq> id_device (en_identity e)"
  shows "session_ok cg (enroll sh rng outcome key e)"
proof -
  let ?e = "enroll sh rng outcome key e" and ?d = "id_device (po_identity outcome)"
  have ok: "enroll_ok e" "peers_ok e" "body_ok cg e" using assms(1) by (simp_all add: session_ok_def)
  have en: "enroll_ok ?e" using ok(1) by (rule enroll_ok_enroll)
  have epoch: "en_epoch ?e = en_epoch e" "en_sequences ?e = en_sequences e" "en_origins ?e = en_origins e"
    by (simp_all add: enroll_def Let_def split: prod.splits)
  have zero: "receipt_ok ?e default_receipt" by (simp add: receipt_ok_def default_receipt_def)
  have kept: "peer_ok ?e d (p\<lparr>pr_incarnation := inc\<rparr>)" if "bm_get (en_peers e) d = Some p" for d p inc
    using that ok(2)
    by (auto simp: peers_ok_def peer_ok_def receipt_ok_def pending_ok_def epoch enroll_frame split: option.splits)
  have "peer_ok ?e d q" if q: "bm_get (en_peers ?e) d = Some q" for d q
  proof (cases "d = ?d")
    case True
    from enroll_peer_cases[OF ok(1) q[unfolded True]] show ?thesis
    proof
      assume "pr_pending q = None \<and> \<not> pr_bootstrapped q \<and> \<not> pr_revoked q \<and>
        pr_received q = default_receipt \<and> pr_stored q = default_receipt \<and> pr_applied q = default_receipt"
      then show ?thesis using zero by (simp add: peer_ok_def pending_ok_def)
    qed (use kept True in blast)
  qed (use enroll_other[OF _ q] kept in blast)
  moreover have "bm_get (en_peers ?e) (id_device (en_identity e)) = None"
    using enroll_other[of "id_device (en_identity e)" outcome sh rng key e] ok(2) assms(2)
    by (fastforce simp: peers_ok_def)
  ultimately have "peers_ok ?e" by (auto simp: peers_ok_def enroll_frame)
  moreover have "body_ok cg ?e"
    using ok(3) en by (simp add: body_ok_def enroll_ok_def enroll_frame epoch)
  ultimately show ?thesis using en by (simp add: session_ok_def)
qed

lemma commit_op_keeps [op_keeps]: "op_keeps (session_ok cg) (commit_op cg sh rng outcome key)"
proof (rule op_keepsI)
  fix e r e' assume ok: "session_ok cg e" and c: "commit_op cg sh rng outcome key e = Inr (r, e')"
  from c have "commit_allowed cg sh outcome key e = Inr ()" and e': "e' = enroll sh rng outcome key e"
    by (simp_all add: commit_op_Inr)
  then have "sh_validate cg sh e outcome = Inr ()" using commit_allowed_Inr(1) by blast
  then show "session_ok cg e'" unfolding e' using enroll_keeps[OF ok] sh_validate_Inr(6) by blast
qed

end
