(* ===== verification/Pair_Contract.thy ===== *)
theory Pair_Contract
  imports Pair_Handshake
begin

text \<open>
  What a handshake may do to the app behind it. \<open>pw_keeps P f\<close>: a computation in a handshake
  world leaves the app in \<open>P\<close>, whatever messages arrive and whatever other threads do between
  its calls, as long as they keep \<open>P\<close> too. The locale \<open>handler_contract\<close> is what an app
  promises of its handler; under it no handshake, on either side, leaves \<open>P\<close>.
\<close>

definition pw_ok :: "('h \<Rightarrow> bool) \<Rightarrow> 'h pair_world \<Rightarrow> bool" where
  "pw_ok P w \<longleftrightarrow> P (pw_handler w) \<and> (\<forall>g\<in>set (pw_env w). \<forall>h. P h \<longrightarrow> P (g h))"

abbreviation pw_keeps :: "('h \<Rightarrow> bool) \<Rightarrow> ('h pair_world \<Rightarrow> 'r \<times> 'h pair_world) \<Rightarrow> bool" where
  "pw_keeps P f \<equiv> stays (pw_ok P) f"

lemma stays_message [stays]:
  "(\<And>x1 x2. stays Q (fHello x1 x2)) \<Longrightarrow>
   (\<And>x1 x2 x3. stays Q (fLinkRequest x1 x2 x3)) \<Longrightarrow>
   (\<And>x1 x2 x3. stays Q (fLinkResponse x1 x2 x3)) \<Longrightarrow>
   (\<And>x1. stays Q (fPairHello x1)) \<Longrightarrow>
   (\<And>x1. stays Q (fPairChallenge x1)) \<Longrightarrow>
   (\<And>x1. stays Q (fPairConfirm x1)) \<Longrightarrow>
   (\<And>x1. stays Q (fPairReady x1)) \<Longrightarrow>
   (\<And>x1. stays Q (fPairPrepared x1)) \<Longrightarrow>
   (\<And>x1 x2. stays Q (fPairAccepted x1 x2)) \<Longrightarrow>
   (\<And>x1. stays Q (fPairCommit x1)) \<Longrightarrow>
   stays Q fPairComplete \<Longrightarrow>
   (\<And>x1 x2. stays Q (fPairRecover x1 x2)) \<Longrightarrow>
   (\<And>x1 x2 x3. stays Q (fPairRecovered x1 x2 x3)) \<Longrightarrow>
   (\<And>x1 x2 x3 x4 x5. stays Q (fManagedHello x1 x2 x3 x4 x5)) \<Longrightarrow>
   (\<And>x1. stays Q (fManagedDelta x1)) \<Longrightarrow>
   (\<And>x1 x2. stays Q (fManagedAck x1 x2)) \<Longrightarrow>
   stays Q fManagedPending \<Longrightarrow> stays Q fSnapshotRequest \<Longrightarrow>
   (\<And>x1. stays Q (fSnapshot x1)) \<Longrightarrow> stays Q fAck \<Longrightarrow>
   (\<And>x1 x2. stays Q (fSnapshotSince x1 x2)) \<Longrightarrow>
   (\<And>x1 x2 x3 x4 x5 x6. stays Q (fDelta x1 x2 x3 x4 x5 x6)) \<Longrightarrow>
   stays Q (\<lambda>w. case m of
     Hello x1 x2 \<Rightarrow> fHello x1 x2 w |
     LinkRequest x1 x2 x3 \<Rightarrow> fLinkRequest x1 x2 x3 w |
     LinkResponse x1 x2 x3 \<Rightarrow> fLinkResponse x1 x2 x3 w |
     PairHello x1 \<Rightarrow> fPairHello x1 w |
     PairChallenge x1 \<Rightarrow> fPairChallenge x1 w |
     PairConfirm x1 \<Rightarrow> fPairConfirm x1 w |
     PairReady x1 \<Rightarrow> fPairReady x1 w |
     PairPrepared x1 \<Rightarrow> fPairPrepared x1 w |
     PairAccepted x1 x2 \<Rightarrow> fPairAccepted x1 x2 w |
     PairCommit x1 \<Rightarrow> fPairCommit x1 w |
     PairComplete \<Rightarrow> fPairComplete w |
     PairRecover x1 x2 \<Rightarrow> fPairRecover x1 x2 w |
     PairRecovered x1 x2 x3 \<Rightarrow> fPairRecovered x1 x2 x3 w |
     ManagedHello x1 x2 x3 x4 x5 \<Rightarrow> fManagedHello x1 x2 x3 x4 x5 w |
     ManagedDelta x1 \<Rightarrow> fManagedDelta x1 w |
     ManagedAck x1 x2 \<Rightarrow> fManagedAck x1 x2 w |
     ManagedPending \<Rightarrow> fManagedPending w |
     SnapshotRequest \<Rightarrow> fSnapshotRequest w |
     Snapshot x1 \<Rightarrow> fSnapshot x1 w | Ack \<Rightarrow> fAck w |
     SnapshotSince x1 x2 \<Rightarrow> fSnapshotSince x1 x2 w |
     Delta x1 x2 x3 x4 x5 x6 \<Rightarrow> fDelta x1 x2 x3 x4 x5 x6 w)"
  by (cases m) simp_all

lemma pw_keeps_frame:
  "(\<And>w. pw_handler (snd (f w)) = pw_handler w \<and> set (pw_env (snd (f w))) \<subseteq> set (pw_env w)) \<Longrightarrow> pw_keeps P f"
  unfolding stays_def pw_ok_def by (metis subsetD)

lemma pw_keeps_send [stays]: "pw_keeps P (pw_send m)"
  by (rule pw_keeps_frame) (simp add: pw_send_def split: prod.split)

lemma pw_keeps_recv [stays]: "pw_keeps P pw_recv"
  by (rule pw_keeps_frame) (simp add: pw_recv_def split: prod.split)

lemma pw_keeps_time [stays]: "pw_keeps P pw_time"
  by (rule pw_keeps_frame) (simp add: pw_time_def split: list.split)

lemma pw_keeps_check_cancel [stays]: "pw_keeps P pw_check_cancel"
  by (rule pw_keeps_frame) (simp add: pw_check_cancel_def split: list.split)

lemma pw_keeps_lift [stays]: "pw_keeps P (pw_lift r)"
  by (rule pw_keeps_frame) (simp add: pw_lift_def)

lemma pw_keeps_guard [stays]: "pw_keeps P (pw_guard b m)"
  by (rule pw_keeps_frame) (simp add: pw_guard_def)

lemma pw_keeps_update [stays]:
  "pw_keeps P (\<lambda>w. (r, w\<lparr>pw_timeout := n\<rparr>))" "pw_keeps P (\<lambda>w. (r, w\<lparr>pw_chan := ch\<rparr>))"
  by (simp_all add: stays_def pw_ok_def)

lemma pw_keeps_chan [stays]: "pw_keeps P f \<Longrightarrow> pw_keeps P (\<lambda>w. f (w\<lparr>pw_chan := ch\<rparr>))"
  unfolding stays_def
proof (intro allI impI)
  fix w assume f: "\<forall>w. pw_ok P w \<longrightarrow> pw_ok P (snd (f w))" and "pw_ok P w"
  then have "pw_ok P (w\<lparr>pw_chan := ch\<rparr>)" by (simp add: pw_ok_def)
  then show "pw_ok P (snd (f (w\<lparr>pw_chan := ch\<rparr>)))" using f by blast
qed

lemma pw_keeps_timeout [stays]: "pw_keeps P f \<Longrightarrow> pw_keeps P (\<lambda>w. f (w\<lparr>pw_timeout := n\<rparr>))"
  unfolding stays_def
proof (intro allI impI)
  fix w assume f: "\<forall>w. pw_ok P w \<longrightarrow> pw_ok P (snd (f w))" and "pw_ok P w"
  then have "pw_ok P (w\<lparr>pw_timeout := n\<rparr>)" by (simp add: pw_ok_def)
  then show "pw_ok P (snd (f (w\<lparr>pw_timeout := n\<rparr>)))" using f by blast
qed

lemma pw_keeps_call [stays]:
  assumes "stays P f"
  shows "pw_keeps P (pw_call f)"
  using assms by (auto simp: stays_def pw_ok_def pw_call_def split: list.splits prod.splits)

lemma pw_keeps_not_expired [stays]: "pw_keeps P (pw_not_expired invn m)"
  unfolding pw_not_expired_def[abs_def] by (intro stays)

lemma pw_keeps_budget [stays]: "pw_keeps P (pw_set_budget hr)"
  unfolding pw_set_budget_def[abs_def] by (intro stays)

section \<open>The handler's promise\<close>

locale handler_contract =
  fixes hr :: "'h handler" and P :: "'h \<Rightarrow> bool"
  assumes prepare: "stays P (hd_prepare hr outcome)"
    and commit: "stays P (hd_commit hr ident i md fp key)"
    and put_pairing: "P h \<Longrightarrow> P (hd_put_pairing hr m h)"
begin

lemma keeps_manager:
  assumes "\<And>m h. P h \<Longrightarrow> P (snd (snd (f m h)))"
  shows "pw_keeps P (pw_call (pw_manager hr f))"
  using assms by (intro pw_keeps_call staysI)
    (auto simp: pw_manager_def put_pairing split: option.splits prod.splits, metis put_pairing snd_conv)

lemma keeps_approve: "P h \<Longrightarrow> P (snd (approve_pairing hr ph fp h))"
  using stays_apply[OF commit]
  by (auto simp: approve_pairing_def split: sum.splits prod.splits) (metis snd_conv)+

lemma keeps_pm_commit: "P h \<Longrightarrow> P (snd (snd (pm_commit ident t (approve_pairing hr ph fp) m h)))"
  using keeps_approve[of h ph fp]
  by (auto simp: pm_commit_def pair_fail_def split: sum.splits option.splits prod.splits)

lemma keeps_link: "pw_keeps P (link_secure c seed hr i md own_fp opened invn)"
proof -
  have auth: "pw_keeps P (link_authenticate c seed i md own_fp opened invn)"
    unfolding link_authenticate_def[abs_def] Let_def by (intro stays)
  have prep: "pw_keeps P (link_prepare c hr invn fp ch keys)" for fp ch keys
    unfolding link_prepare_def[abs_def] by (intro stays prepare)
  have comm: "pw_keeps P (link_commit c hr invn fp ch keys k)" for fp ch keys k
    unfolding link_commit_def[abs_def] by (intro stays commit)
  show ?thesis
    unfolding link_secure_def[abs_def] link_secure_inner_def[abs_def] by (intro stays auth prep comm)
qed

lemma keeps_accept:
  assumes "pw_keeps P au"
  shows "pw_keeps P (accept_secure c seed hr au i own_fp fp ph)"
proof -
  have prove: "pw_keeps P (accept_prove c seed hr au i md own_fp ph invn)" for md invn
    unfolding accept_prove_def[abs_def] Let_def by (intro stays assms)
  have comm: "pw_keeps P (accept_commit c hr fp ph invn keys)" for invn keys
    unfolding accept_commit_def[abs_def] by (intro stays keeps_manager keeps_pm_commit)
  have claimed: "pw_keeps P (accept_claimed c seed hr au i md own_fp fp ph invn)" for md invn
    unfolding accept_claimed_def[abs_def] by (intro stays prove comm)
  have release: "pw_keeps P (\<lambda>w. (r, pw_release hr ident w))" for r ident
    using keeps_manager[of "\<lambda>m h. (Inr () :: unit result, pm_release ident m, h)"]
    by (simp add: stays_def pw_release_def)
  show ?thesis
    unfolding accept_secure_def[abs_def]
    by (intro stays claimed release keeps_manager) (simp split: prod.split)
qed

lemma keeps_recover: "pw_keeps P (recover_secure_link hr i md opened previous)"
  unfolding recover_secure_link_def[abs_def] recover_secure_link_inner_def[abs_def]
  by (intro stays commit)

lemma keeps_accept_recovery:
  assumes "pw_keeps P au"
  shows "pw_keeps P (accept_recovery hr au ident p i fp)"
  unfolding accept_recovery_def[abs_def] by (intro stays assms)

end

end
