(* ===== verification/Session_Run.thy ===== *)
theory Session_Run
  imports Session_Invariant Pair_Contract
begin

text \<open>
  Everything a session can do: \<open>session_run\<close> is the closure of its API calls, its scheduler and
  discovery threads and the connections it serves, each with arbitrary arguments and arbitrary
  peers, where the calls of a connection interleave with runs of other threads. Every run keeps
  the invariant in memory and on disk.
\<close>

abbreviation sane :: "session_config \<Rightarrow> session_world \<Rightarrow> bool" where
  "sane cg \<equiv> world_ok (session_ok cg)"

section \<open>Operations of the app\<close>

lemma mutate_stays [stays]: "op_keeps (session_ok cg) operation \<Longrightarrow> stays (sane cg) (mutate cg fresh operation)"
  by (rule staysI) (rule durable.mutate_keeps)

lemma wake_stays [stays]: "stays (sane cg) (\<lambda>w. (r, wake w))"
  by (simp add: stays_def)

lemma waking_stays [stays]:
  assumes "stays (sane cg) f"
  shows "stays (sane cg) (waking f)"
  unfolding waking_def[abs_def] by (intro stays assms)

lemma diagnostic_stays [stays]: "stays (sane cg) (\<lambda>w. (r, diagnostic d err w))"
  by (simp add: stays_def)

lemma emit_stays [stays]: "stays (sane cg) (\<lambda>w. (r, emit ev w))"
  by (simp add: stays_def)

lemma sane_frame [simp]:
  "sane cg (w\<lparr>sn_pairing := m\<rparr>) = sane cg w"
  "sane cg (w\<lparr>sn_invitation := iv\<rparr>) = sane cg w"
  "sane cg (w\<lparr>sn_runtime := rt\<rparr>) = sane cg w"
  "sane cg (w\<lparr>sn_discovered := ds\<rparr>) = sane cg w"
  "sane cg (w\<lparr>sn_active := act\<rparr>) = sane cg w"
  "sane cg (w\<lparr>sn_published := ps\<rparr>) = sane cg w"
  "sane cg (w\<lparr>sn_publish_faults := fs\<rparr>) = sane cg w"
  by (simp_all add: world_ok_def)

lemma write_stays: "stays (sane cg) (session_write cg fresh adapter ident value deleted)"
  unfolding session_write_def[abs_def] by (intro stays op_keeps)

lemma import_stays: "stays (sane cg) (import_records cg fresh records)"
  unfolding import_records_def[abs_def] by (intro stays op_keeps)

lemma prune_stays: "stays (sane cg) (prune_recovery_snapshots cg fresh retain)"
  unfolding prune_recovery_snapshots_def[abs_def] by (intro stays op_keeps)

lemma acknowledge_stays: "stays (sane cg) (acknowledge_inbox cg fresh inbox)"
  unfolding acknowledge_inbox_def[abs_def] by (intro stays op_keeps)

lemma publish_service_stays [stays]: "stays (sane cg) (publish_service se cg address descriptor)"
  by (rule staysI) (auto simp: publish_service_def split: sum.split list.split option.split)

lemma refresh_stays [stays]: "stays (sane cg) (refresh_advertisement se cg)"
proof (rule staysI)
  fix s assume "sane cg s"
  then show "sane cg (snd (refresh_advertisement se cg s))"
    using stays_apply[OF publish_service_stays] by (auto simp: refresh_advertisement_def split: option.split)
qed

lemma advertiser_stays [stays]: "stays (sane cg) (start_advertiser se cg address)"
proof (rule staysI)
  fix s assume s: "sane cg s"
  show "sane cg (snd (start_advertiser se cg address s))"
    using s stays_apply[OF publish_service_stays s, of se address None]
    by (auto simp: start_advertiser_def split: prod.split sum.split)
qed

lemma start_stays [stays]: "stays (sane cg) (session_start se cg fresh bound browse)"
proof (rule staysI)
  fix w assume w: "sane cg w"
  have start: "stays (sane cg) (\<lambda>w. bindS (bound, w) (\<lambda>address w.
          bindS (mutate cg fresh start_op w) (\<lambda>_ w.
          case start_advertiser se cg address w of (advertiser, w) \<Rightarrow>
          bindS (if advertiser then browse else Inr (), w) (\<lambda>_ w.
            (Inr address,
             w\<lparr>sn_runtime := Some \<lparr>rt_address = address, rt_advertiser = advertiser\<rparr>\<rparr>)))))"
    by (intro stays op_keeps) (simp add: stays_def)
  show "sane cg (snd (session_start se cg fresh bound browse w))"
    using w stays_apply[OF start w] unfolding session_start_def by (cases "sn_runtime w") simp_all
qed

lemma stop_stays [stays]: "stays (sane cg) (session_stop cg fresh phase teardown)"
proof (rule staysI)
  fix w assume w: "sane cg w"
  obtain r w1 where m: "mutate cg fresh (stop_op phase) w = (r, w1)" by fastforce
  have "sane cg w1" using staysD[OF mutate_stays[OF stop_keeps] w m] .
  then show "sane cg (snd (session_stop cg fresh phase teardown w))"
    using m by (auto simp: session_stop_def Let_def split: prod.split option.split)
qed

lemma fenced_stays [stays]:
  assumes "stays (sane cg) f"
  shows "stays (sane cg) (fenced se cg rng teardown bound browse f)"
proof (rule staysI)
  fix w assume w: "sane cg w"
  have "stays (sane cg) (\<lambda>w. bindS (f w) (\<lambda>_ w.
      bindS (session_shutdown cg (rng 0) teardown w) (\<lambda>_ w.
        if running
        then bindS (session_start se cg (rng 1) bound browse w) (\<lambda>_ w. (Inr (), w))
        else (Inr (), w))))" for running
    unfolding session_shutdown_def by (intro stays assms)
  from stays_apply[OF this w] show "sane cg (snd (fenced se cg rng teardown bound browse f w))"
    unfolding fenced_def Let_def .
qed

lemma remove_stays [stays]: "stays (sane cg) (remove_peer se cg rng teardown bound browse d)"
  unfolding remove_peer_def[abs_def] by (intro stays op_keeps)

lemma pause_stays: "stays (sane cg) (pause_peer se cg rng teardown bound browse d)"
  unfolding pause_peer_def[abs_def] by (intro stays op_keeps)

lemma resume_stays: "stays (sane cg) (resume_peer cg fresh d)"
  unfolding resume_peer_def[abs_def] by (intro stays op_keeps)

lemma resolve_stays: "stays (sane cg) (resolve_bootstrap cg fresh preview decision)"
  unfolding resolve_bootstrap_def[abs_def] by (intro stays op_keeps)

lemma acknowledge_applied_stays: "stays (sane cg) (acknowledge_applied cg fresh d receipt)"
  unfolding acknowledge_applied_def[abs_def] by (intro stays op_keeps)

section \<open>Invitations and discovery\<close>

lemma publish_invitation_stays: "stays (sane cg) (publish_invitation se cg address identity created)"
proof (rule staysI)
  fix w assume w: "sane cg w"
  have "stays (sane cg) (\<lambda>w. bindS (fst created, w) (\<lambda>invitation w.
     bindS (listen_addresses (se_interfaces se) address, w) (\<lambda>addresses w.
     bindS (refresh_advertisement se cg (w\<lparr>sn_invitation := Some (inv_descriptor invitation)\<rparr>)) (\<lambda>_ w.
       (Inr \<lparr>si_invitation = invitation, si_identity = identity, si_addresses = addresses\<rparr>, w)))))"
    by (intro stays) (use stays_apply[OF refresh_stays] in \<open>simp add: stays_def\<close>)
  from stays_apply[OF this, of "w\<lparr>sn_pairing := snd created\<rparr>"] w
  show "sane cg (snd (publish_invitation se cg address identity created w))"
    by (simp add: publish_invitation_def Let_def)
qed

lemma create_invitation_stays: "stays (sane cg) (create_invitation se cg rnd32 rnd16 t1 t2 ttl)"
proof (rule staysI)
  fix w assume w: "sane cg w"
  then show "sane cg (snd (create_invitation se cg rnd32 rnd16 t1 t2 ttl w))"
    using stays_apply[OF publish_invitation_stays w]
    by (cases "inviting w") (auto simp: create_invitation_def split: prod.split)
qed

lemma create_code_invitation_sane:
  "sane cg w \<Longrightarrow> create_code_invitation se cg draws rnd16 t1 t2 ttl w = Some (r, w') \<Longrightarrow> sane cg w'"
  using stays_apply[OF publish_invitation_stays, of cg w]
  by (auto simp: create_code_invitation_def split: sum.splits) (metis snd_conv)

lemma close_stays: "stays (sane cg) (close_pairing se cg)"
proof (rule staysI)
  fix w assume "sane cg w"
  then show "sane cg (snd (close_pairing se cg w))"
    using stays_apply[OF refresh_stays]
    by (auto simp: close_pairing_def split: prod.split sum.split)
qed

lemma ingest_stays: "stays (sane cg) (ingest_platform_discovery p)"
  by (rule staysI) (auto simp: ingest_platform_discovery_def Let_def bindS_split split: sum.split prod.split)

lemma retire_sane: "sane cg w \<Longrightarrow> sane cg (retire_invitation se cg now w)"
proof -
  assume w: "sane cg w"
  then have "sane cg (snd (refresh_advertisement se cg (w\<lparr>sn_invitation := None\<rparr>)))"
    by (intro stays_apply[OF refresh_stays]) simp
  then show ?thesis using w
    by (auto simp: retire_invitation_def split: option.split prod.split sum.split)
qed

lemma resolved_stays: "stays (sane cg) (peer_resolved cg fresh own info names)"
proof (rule staysI)
  fix w assume w: "sane cg w"
  have "sane cg (snd (mutate cg fresh (hint_op d) v))" if "sane cg v" for d v
    using stays_apply[OF mutate_stays[OF hint_keeps] that] .
  then show "sane cg (snd (peer_resolved cg fresh own info names w))"
    using w
    by (auto simp: peer_resolved_def Let_def split: option.split prod.split sum.split bool.split)
      (metis sane_frame(4) world_ok_emit snd_conv)+
qed

lemma discovery_stays: "stays (sane cg) (discovery_turn se cg fresh own now ev names)"
proof (rule staysI)
  fix w assume w: "sane cg w"
  have v: "sane cg (snd (peer_vanished name names w))" for name
    using w by (auto simp: peer_vanished_def split: option.split)
  note r = stays_apply[OF resolved_stays w, of fresh own _ names]
  show "sane cg (snd (discovery_turn se cg fresh own now ev names w))"
    using w r v by (auto simp: discovery_turn_def intro!: retire_sane split: browse_event.split prod.split)
      (metis snd_conv)+
qed


section \<open>Connections\<close>

interpretation session_handler: handler_contract "session_device_handler cg sh fresh rng" "sane cg"
  for cg sh fresh rng
proof
  show "stays (sane cg) (hd_prepare (session_device_handler cg sh fresh rng) outcome)" for outcome
    unfolding session_device_handler_def session_prepare_def[abs_def] handler.simps
    by (intro stays op_keeps)
  show "stays (sane cg) (hd_commit (session_device_handler cg sh fresh rng) ident i md fp key)"
    for ident i md fp key
  proof (rule staysI)
    fix w assume w: "sane cg w"
    let ?o = "\<lparr>po_invitation_id = ident, po_identity = i, po_metadata = md, po_fingerprint = fp\<rparr>"
    obtain r w' where m: "mutate cg fresh (commit_op cg sh rng ?o key) w = (r, w')" by fastforce
    have "sane cg w'" using staysD[OF mutate_stays[OF commit_op_keeps] w m] .
    then show "sane cg (snd (hd_commit (session_device_handler cg sh fresh rng) ident i md fp key w))"
      using m by (simp add: session_device_handler_def session_commit_def Let_def)
  qed
qed (simp add: session_device_handler_def)

lemma timeouts_stays [stays]: "pw_keeps P (authenticated_timeouts cg)"
  unfolding authenticated_timeouts_def[abs_def] by (intro stays)

lemma authenticated_stays [stays]: "stays (sane cg) (session_authenticate se cg sh fresh fp m)"
proof -
  have noting: "stays (sane cg) (mutate_noting cg fresh d noted operation)"
    if "op_keeps (session_ok cg) operation" for d noted and operation :: "envelope_body \<Rightarrow> ('b \<times> envelope_body) result"
  proof (rule staysI)
    fix w assume w: "sane cg w"
    then have "sane cg (case e of None \<Rightarrow> w | Some err \<Rightarrow> diagnostic (Some d) err w)" for e
      by (simp split: option.split)
    then show "sane cg (snd (mutate_noting cg fresh d noted operation w))"
      using stays_apply[OF mutate_stays[OF that]] by (simp add: mutate_noting_def Let_def)
  qed
  show ?thesis
    unfolding session_authenticate_def[abs_def] by (intro stays noting op_keeps)
qed

lemma group_key_stays [stays]: "stays Q group_key"
  unfolding group_key_def[abs_def] by (intro stays)

lemma guard_stays [stays]: "stays Q operation_guard"
  unfolding operation_guard_def[abs_def] by (intro stays)

lemma send_stays [stays]: "pw_keeps (sane cg) (send_batch se cg sh rng nonce p cursor)"
  unfolding send_batch_def[abs_def] by (intro stays op_keeps)

lemma receive_stays [stays]: "pw_keeps (sane cg) (receive_batch se cg sh rng p)"
  unfolding receive_batch_def[abs_def] by (intro stays op_keeps)

lemma client_stays [stays]: "pw_keeps (sane cg) (client_exchange se cg sh rng nonce own p)"
  unfolding client_exchange_def[abs_def] by (intro stays)

lemma targets_stays [stays]:
  "pw_keeps (sane cg) (outbound_targets se cg sh rng nonce own p conns i recent targets)"
proof (induction targets arbitrary: i recent)
  case Nil
  then show ?case by (simp add: stays)
next
  case (Cons target rest)
  show ?case unfolding outbound_targets.simps(2)[abs_def] by (intro stays Cons)
qed

lemma outbound_stays [stays]: "pw_keeps (sane cg) (session_outbound se cg rng nonce own p conns)"
  unfolding session_outbound_def[abs_def] by (intro stays)

lemma serve_stays [stays]: "pw_keeps (sane cg) (serve_managed se cg sh rng nonce fp m)"
  unfolding serve_managed_def[abs_def] Let_def by (intro stays)

lemma inbound_stays: "pw_keeps (sane cg) (session_inbound pc seed se cg rng nonce cert)"
  unfolding session_inbound_def[abs_def]
  by (intro stays session_handler.keeps_accept session_handler.keeps_accept_recovery)

lemma connect_addresses_stays [stays]:
  "pw_keeps (sane cg) (connect_addresses pc seed se cg sh rng identity iv conns i recent addresses)"
proof (induction addresses arbitrary: i recent)
  case Nil
  then show ?case unfolding connect_addresses.simps(1)[abs_def] by (intro stays)
next
  case (Cons address rest)
  show ?case
    unfolding connect_addresses.simps(2)[abs_def]
    by (intro stays Cons session_handler.keeps_link op_keeps)
qed

lemma enter_stays [stays]: "stays (sane cg) (enter_pairing ident)"
  by (rule staysI) (simp add: enter_pairing_def)

lemma leave_stays [stays]: "stays (sane cg) (leave_pairing ident)"
  by (rule staysI) (simp add: leave_pairing_def)

lemma connect_stays [stays]: "pw_keeps (sane cg) (connect_inner pc seed se cg rng iv repair conns)"
proof -
  have active: "pw_keeps (sane cg) (connect_active pc seed se cg rng iv repair conns)"
    unfolding connect_active_def[abs_def] by (intro stays)
  have leave: "pw_keeps (sane cg) (\<lambda>w. (r, snd (pw_call (leave_pairing ident) w)))" for r ident
    using pw_keeps_call[OF leave_stays, of cg ident] by (simp add: stays_def)
  show ?thesis
    unfolding connect_inner_def[abs_def] by (intro stays active leave)
qed

lemma session_connect_stays [stays]: "pw_keeps (sane cg) (session_connect pc seed se cg rng iv conns)"
  unfolding session_connect_def[abs_def] by (intro stays)

lemma repair_stays:
  "pw_keeps (sane cg) (repair_peer pc seed se cg rng ids teardown bound browse d iv conns)"
  unfolding repair_peer_def[abs_def] by (intro stays)

lemma connect_code_stays: "pw_keeps (sane cg) (connect_code pc seed se cg rng p pin conns)"
  unfolding connect_code_def[abs_def] by (intro stays)

lemma recover_addresses_stays [stays]:
  "pw_keeps (sane cg) (recover_addresses se cg sh rng identity pending hints conns i addresses)"
proof (induction addresses arbitrary: i)
  case Nil
  then show ?case unfolding recover_addresses.simps(1)[abs_def] by (intro stays)
next
  case (Cons address rest)
  show ?case
    unfolding recover_addresses.simps(2)[abs_def]
    by (intro stays Cons session_handler.keeps_recover op_keeps)
qed

lemma recover_each_stays [stays]: "pw_keeps (sane cg) (recover_each se cg rng active conns n pendings)"
proof (induction pendings arbitrary: n)
  case Nil
  then show ?case unfolding recover_each.simps(1)[abs_def] by (intro stays)
next
  case (Cons pending rest)
  show ?case unfolding recover_each.simps(2)[abs_def] by (intro stays Cons)
qed

lemma recover_pending_stays [stays]: "pw_keeps (sane cg) (recover_pending se cg rng conns)"
  unfolding recover_pending_def[abs_def] by (intro stays)

lemma recover_pairing_stays: "pw_keeps (sane cg) (recover_pairing se cg rng conns)"
  unfolding recover_pairing_def[abs_def] by (intro stays)

lemma contact_stays [stays]: "pw_keeps (sane cg) (contact_peers se cg rng nonces own clocks conns n peers r)"
proof (induction peers arbitrary: n r)
  case Nil
  then show ?case by (simp add: stays)
next
  case (Cons p rest)
  have down: "stays (sane cg) (\<lambda>s. (Inr () :: unit result, diagnostic (Some d) err
      (snd (mutate cg fresh (unreachable_op d err) s))))" for d err fresh
    using stays_apply[OF mutate_stays[OF unreachable_keeps]] by (simp add: stays_def)
  have later: "pw_keeps (sane cg) (\<lambda>w. contact_peers se cg rng nonces own clocks conns (Suc n) rest r
      (snd (pw_call (\<lambda>s. (Inr () :: unit result, diagnostic (Some d) err
        (snd (mutate cg fresh (unreachable_op d err) s)))) w)))" for d err fresh r
    using Cons stays_apply[OF pw_keeps_call[OF down]] by (simp add: stays_def)
  show ?case
    unfolding contact_peers.simps(2)[abs_def] Let_def by (intro stays Cons later)
qed

lemma scheduler_stays: "pw_keeps (sane cg) (scheduler_round se cg rng nonces own clocks conns r)"
  unfolding scheduler_round_def[abs_def] by (intro stays)


section \<open>Runs\<close>

text \<open>A thread of the session that works on a connection, from app state \<open>w\<close> to \<open>w'\<close>.\<close>

definition thread ::
  "(session_world pair_world \<Rightarrow> 'r \<times> session_world pair_world) \<Rightarrow> session_world pair_world \<Rightarrow>
   session_world \<Rightarrow> session_world \<Rightarrow> bool" where
  "thread f c w w' \<longleftrightarrow> pw_handler c = w \<and> pw_handler (snd (f c)) = w'"

inductive session_run ::
  "'s pair_crypto \<Rightarrow> session_env \<Rightarrow> session_config \<Rightarrow> session_world \<Rightarrow> session_world \<Rightarrow> bool"
  for pc se cg where
  run_done: "session_run pc se cg w w"
| run_then: "session_run pc se cg w v \<Longrightarrow> session_run pc se cg v u \<Longrightarrow> session_run pc se cg w u"
| run_write: "session_run pc se cg w (snd (session_write cg fresh adapter ident value deleted w))"
| run_import: "session_run pc se cg w (snd (import_records cg fresh records w))"
| run_prune: "session_run pc se cg w (snd (prune_recovery_snapshots cg fresh retain w))"
| run_acknowledge: "session_run pc se cg w (snd (acknowledge_inbox cg fresh inbox w))"
| run_report: "session_run pc se cg w (report_platform_evidence platform permission st w)"
| run_notify: "session_run pc se cg w (notify_local_change w)"
| run_start: "session_run pc se cg w (snd (session_start se cg fresh bound browse w))"
| run_stop: "session_run pc se cg w (snd (session_stop cg fresh phase teardown w))"
| run_resolve: "session_run pc se cg w (snd (resolve_bootstrap cg fresh preview decision w))"
| run_applied: "session_run pc se cg w (snd (acknowledge_applied cg fresh d receipt w))"
| run_remove: "session_run pc se cg w (snd (remove_peer se cg rng teardown bound browse d w))"
| run_pause: "session_run pc se cg w (snd (pause_peer se cg rng teardown bound browse d w))"
| run_resume: "session_run pc se cg w (snd (resume_peer cg fresh d w))"
| run_invite: "session_run pc se cg w (snd (create_invitation se cg rnd32 rnd16 t1 t2 ttl w))"
| run_invite_code: "create_code_invitation se cg draws rnd16 t1 t2 ttl w = Some (r, w') \<Longrightarrow> session_run pc se cg w w'"
| run_close: "session_run pc se cg w (snd (close_pairing se cg w))"
| run_ingest: "session_run pc se cg w (snd (ingest_platform_discovery found w))"
| run_withdraw: "session_run pc se cg w (withdraw_platform_discovery d w)"
| run_discovery: "session_run pc se cg w (snd (discovery_turn se cg fresh own now ev names w))"
| run_inbound: "\<forall>g\<in>set (pw_env c). \<forall>s. session_run pc se cg s (g s) \<Longrightarrow>
    thread (session_inbound pc seed se cg rng nonce cert) c w w' \<Longrightarrow> session_run pc se cg w w'"
| run_scheduler: "\<forall>g\<in>set (pw_env c). \<forall>s. session_run pc se cg s (g s) \<Longrightarrow>
    thread (scheduler_round se cg rngs nonces own clocks targets r) c w w' \<Longrightarrow> session_run pc se cg w w'"
| run_connect: "\<forall>g\<in>set (pw_env c). \<forall>s. session_run pc se cg s (g s) \<Longrightarrow>
    thread (session_connect pc seed se cg rngs iv conns) c w w' \<Longrightarrow> session_run pc se cg w w'"
| run_connect_code: "\<forall>g\<in>set (pw_env c). \<forall>s. session_run pc se cg s (g s) \<Longrightarrow>
    thread (connect_code pc seed se cg rngs found pin conns) c w w' \<Longrightarrow> session_run pc se cg w w'"
| run_repair: "\<forall>g\<in>set (pw_env c). \<forall>s. session_run pc se cg s (g s) \<Longrightarrow>
    thread (repair_peer pc seed se cg rngs ids teardown bound browse d iv conns) c w w' \<Longrightarrow>
    session_run pc se cg w w'"
| run_recover: "\<forall>g\<in>set (pw_env c). \<forall>s. session_run pc se cg s (g s) \<Longrightarrow>
    thread (recover_pairing se cg rngss many) c w w' \<Longrightarrow> session_run pc se cg w w'"

lemma thread_sane:
  assumes "pw_keeps (sane cg) f" and "thread f c w w'" and "sane cg w"
    and "\<forall>g\<in>set (pw_env c). \<forall>s. sane cg s \<longrightarrow> sane cg (g s)"
  shows "sane cg w'"
  using assms(2-4) stays_apply[OF assms(1), of c] by (auto simp: thread_def pw_ok_def)

lemma run_sane: "session_run pc se cg w w' \<Longrightarrow> sane cg w \<Longrightarrow> sane cg w'"
proof (induction rule: session_run.induct)
  case (run_invite_code draws rnd16 t1 t2 ttl w r w')
  then show ?case using create_code_invitation_sane by blast
next
  case (run_inbound c seed rng nonce cert w w')
  then show ?case by (intro thread_sane[OF inbound_stays run_inbound(2)]) auto
next
  case (run_scheduler c rngs nonces own clocks targets r w w')
  then show ?case by (intro thread_sane[OF scheduler_stays run_scheduler(2)]) auto
next
  case (run_connect c seed rngs iv conns w w')
  then show ?case by (intro thread_sane[OF session_connect_stays run_connect(2)]) auto
next
  case (run_connect_code c seed rngs found pin conns w w')
  then show ?case by (intro thread_sane[OF connect_code_stays run_connect_code(2)]) auto
next
  case (run_repair c seed rngs ids teardown bound browse d iv conns w w')
  then show ?case by (intro thread_sane[OF repair_stays run_repair(2)]) auto
next
  case (run_recover c rngss many w w')
  then show ?case by (intro thread_sane[OF recover_pairing_stays run_recover(2)]) auto
qed (simp_all add: stays_apply write_stays import_stays prune_stays acknowledge_stays start_stays stop_stays
  resolve_stays acknowledge_applied_stays remove_stays pause_stays resume_stays create_invitation_stays
  close_stays ingest_stays discovery_stays report_platform_evidence_def notify_local_change_def
  withdraw_platform_discovery_def)

end
