(* ===== verification/Session_Open.thy ===== *)
theory Session_Open
  imports Session_Platform
begin

text \<open>
  Opening a session (\<open>session/mod.rs\<close>) and its storage (\<open>session/store.rs\<close>): the identity kept
  in the key store, the encrypted envelope file \<open>session.enc\<close>, its atomic replacement, and the recovery of a
  journaled transaction at open. \<open>store_env\<close> holds the library code, key store and file
  system a session opens with; a file operation of \<open>save\<close> that fails is an input.
\<close>

record device_keys =
  dk_cert :: bytes
  dk_key :: bytes
  dk_fingerprint :: string

record identity_bundle =
  ib_identity :: identity
  ib_certificate :: bytes
  ib_private_key :: bytes
  ib_storage_key :: bytes

record store_env =
  st_path :: string
  st_sha256 :: "bytes \<Rightarrow> bytes"
  st_aead :: aead
  st_lease :: "unit result"
  st_get :: "string \<Rightarrow> bytes option result"
  st_set :: "string \<Rightarrow> bytes \<Rightarrow> unit result"
  st_exists :: bool
  st_file :: "bytes option result"
  st_bundle_json :: "identity_bundle \<Rightarrow> bytes result"
  st_json_bundle :: "bytes \<Rightarrow> identity_bundle result"
  st_envelope_json :: "envelope \<Rightarrow> bytes result"
  st_json_envelope :: "bytes \<Rightarrow> envelope result"
  st_generate :: "identity \<Rightarrow> (bytes \<times> bytes) result"
  st_usable :: "bytes \<Rightarrow> bytes \<Rightarrow> unit result"
  st_storage_key :: "app_key result"
  st_group_key :: "app_key result"
  st_entropy :: "(u8 \<times> u8) result"

section \<open>Keys and files\<close>

definition fingerprint_cert :: "(bytes \<Rightarrow> bytes) \<Rightarrow> bytes \<Rightarrow> string" where
  "fingerprint_cert sha256 cert = concat (map hex_byte (sha256 cert))"

definition keys_from_der :: "(bytes \<Rightarrow> bytes) \<Rightarrow> bytes \<Rightarrow> bytes \<Rightarrow> device_keys" where
  "keys_from_der sha256 cert key =
     \<lparr>dk_cert = cert, dk_key = key, dk_fingerprint = fingerprint_cert sha256 cert\<rparr>"

definition store_aad :: "session_config \<Rightarrow> bytes" where
  "store_aad cg = str_bytes (''libresync-managed-store-v1:'' @ m_app_id (dm_manifest (cg_metadata cg)))"

definition identity_name :: "store_env \<Rightarrow> string" where
  "identity_name st =
     ''managed-'' @ concat (map hex_byte (st_sha256 st (str_bytes (st_path st)))) @ ''-identity-v1''"

definition new_bundle :: "store_env \<Rightarrow> session_config \<Rightarrow> string \<Rightarrow> identity_bundle result" where
  "new_bundle st cg ident =
     (if st_exists st then fail ''secure storage identity absent for existing state''
      else
        let i = identity_new (''device-'' @ ident) (m_app_id (dm_manifest (cg_metadata cg))) ''managed''
        in bindR (st_generate st i) (\<lambda>(cert, key).
           bindR (st_storage_key st) (\<lambda>storage.
           let bundle = \<lparr>ib_identity = i, ib_certificate = cert, ib_private_key = key,
                         ib_storage_key = as_bytes storage\<rparr>
           in bindR (st_bundle_json st bundle) (\<lambda>json.
              bindR (st_set st (identity_name st) json) (\<lambda>_. Inr bundle)))))"

definition store_identity ::
  "store_env \<Rightarrow> session_config \<Rightarrow> string \<Rightarrow> (identity \<times> device_keys \<times> app_key) result" where
  "store_identity st cg ident =
     bindR (st_get st (identity_name st)) (\<lambda>found.
     bindR (case found of Some bs \<Rightarrow> st_json_bundle st bs | None \<Rightarrow> new_bundle st cg ident) (\<lambda>b.
       if ib_certificate b = [] \<or> ib_private_key b = []
          \<or> id_app (ib_identity b) \<noteq> m_app_id (dm_manifest (cg_metadata cg))
       then fail ''incomplete secure storage identity''
       else bindR (st_usable st (ib_certificate b) (ib_private_key b)) (\<lambda>_.
            bindR (app_key_from_slice (ib_storage_key b)) (\<lambda>key.
              Inr (ib_identity b, keys_from_der (st_sha256 st) (ib_certificate b) (ib_private_key b), key)))))"

definition store_load :: "store_env \<Rightarrow> session_config \<Rightarrow> app_key \<Rightarrow> envelope option result" where
  "store_load st cg key =
     bindR (st_file st) (\<lambda>found.
       case found of
         None \<Rightarrow> Inr None
       | Some bs \<Rightarrow>
           bindR (decrypt_blob (st_aead st) key bs (store_aad cg)) (\<lambda>plain.
           bindR (st_json_envelope st plain) (\<lambda>e.
             if en_version (en_body e) \<noteq> 1 then fail ''unsupported session journal version''
             else Inr (Some e))))"

text \<open>
  The file system under \<open>save\<close>: the session file, whether the temporary file is there, and
  the coming failures, one for each operation in order.
\<close>

record store_fs =
  fs_file :: "bytes option"
  fs_temp :: bool
  fs_faults :: "error option list"

definition fs_do :: "(store_fs \<Rightarrow> store_fs) \<Rightarrow> store_fs \<Rightarrow> unit result \<times> store_fs" where
  "fs_do f fs =
     (let rest = fs\<lparr>fs_faults := drop 1 (fs_faults fs)\<rparr>
      in case fs_faults fs of Some err # _ \<Rightarrow> (Inl err, rest) | _ \<Rightarrow> (Inr (), f rest))"

definition replace_file ::
  "store_env \<Rightarrow> bytes \<Rightarrow> session_config \<Rightarrow> app_key \<Rightarrow> envelope \<Rightarrow> store_fs \<Rightarrow> unit result \<times> store_fs" where
  "replace_file st nonce cg key e fs =
     bindS (fs_do (\<lambda>fs. fs\<lparr>fs_temp := True\<rparr>) fs) (\<lambda>_ fs.
     bindS (st_envelope_json st e, fs) (\<lambda>plain fs.
     bindS (encrypt_blob (st_aead st) nonce key plain (store_aad cg), fs) (\<lambda>cipher fs.
     bindS (fs_do (\<lambda>fs. fs) fs) (\<lambda>_ fs.
     bindS (fs_do (\<lambda>fs. fs) fs) (\<lambda>_ fs.
     bindS (fs_do (\<lambda>fs. fs\<lparr>fs_file := Some cipher, fs_temp := False\<rparr>) fs) (\<lambda>_ fs.
     bindS (fs_do (\<lambda>fs. fs) fs) (\<lambda>_ fs.
       fs_do (\<lambda>fs. fs) fs)))))))"

text \<open>
  Directory and permissions, then temporary file, write, fsync, rename, fsync of the directory;
  after a failure the temporary file is removed if possible.
\<close>

definition store_save ::
  "store_env \<Rightarrow> bytes \<Rightarrow> session_config \<Rightarrow> app_key \<Rightarrow> envelope \<Rightarrow> store_fs \<Rightarrow> unit result \<times> store_fs" where
  "store_save st nonce cg key e fs =
     bindS (fs_do (\<lambda>fs. fs) fs) (\<lambda>_ fs.
     bindS (fs_do (\<lambda>fs. fs) fs) (\<lambda>_ fs.
       case replace_file st nonce cg key e fs of
         (Inl err, fs) \<Rightarrow> (Inl err, snd (fs_do (\<lambda>fs. fs\<lparr>fs_temp := False\<rparr>) fs))
       | (Inr _, fs) \<Rightarrow> (Inr (), fs)))"

section \<open>Open\<close>

definition adjectives :: "string list" where
  "adjectives =
     [''Bright'', ''Calm'', ''Clever'', ''Cozy'', ''Curious'', ''Daring'', ''Gentle'', ''Golden'',
      ''Happy'', ''Jolly'', ''Kind'', ''Lively'', ''Lucky'', ''Mellow'', ''Merry'', ''Nimble'',
      ''Patient'', ''Playful'', ''Quiet'', ''Radiant'', ''Rosy'', ''Silver'', ''Snug'', ''Solar'',
      ''Spry'', ''Steady'', ''Sunny'', ''Swift'', ''Tender'', ''Vivid'', ''Warm'', ''Wise'']"

definition nouns :: "string list" where
  "nouns =
     [''Acorn'', ''Apricot'', ''Avocado'', ''Badger'', ''Birch'', ''Blossom'', ''Cedar'', ''Cherry'',
      ''Clover'', ''Coral'', ''Dolphin'', ''Falcon'', ''Fern'', ''Finch'', ''Fox'', ''Heron'',
      ''Juniper'', ''Kiwi'', ''Lark'', ''Maple'', ''Meadow'', ''Otter'', ''Panda'', ''Peach'',
      ''Pebble'', ''Pine'', ''Robin'', ''Sparrow'', ''Spruce'', ''Tulip'', ''Willow'', ''Wren'']"

definition friendly_name :: "(u8 \<times> u8) result \<Rightarrow> string result" where
  "friendly_name entropy =
     bindR entropy (\<lambda>(a, b). Inr
       (adjectives ! (unat a mod 32) @ '' '' @ nouns ! (unat b mod 32)))"

definition is_automatic :: "session_config \<Rightarrow> bool" where
  "is_automatic cg = (dm_display_name (cg_metadata cg) = [])"

definition named :: "string \<Rightarrow> session_config \<Rightarrow> session_config" where
  "named name cg = cg\<lparr>cg_metadata := (cg_metadata cg)\<lparr>dm_display_name := name\<rparr>\<rparr>"

definition check_config :: "session_config \<Rightarrow> unit result" where
  "check_config cg =
     bindR (metadata_validate (cg_metadata (if is_automatic cg then named ''Managed device'' cg else cg)))
       (\<lambda>_.
       let declared = m_adapters (dm_manifest (cg_metadata cg)) in
       if length (cg_adapters cg) \<noteq> length declared
          \<or> list_ex (\<lambda>d. case bm_get (cg_adapters cg) (ad_id d) of
                            None \<Rightarrow> True | Some a \<Rightarrow> ma_descriptor a \<noteq> d) declared
       then fail_code InvalidConfiguration ''registered adapters differ from manifest''
       else if cg_recovery_retention cg < 1 \<or> 100 < cg_recovery_retention cg \<or> cg_catch_up cg = 0
          \<or> 5 * 1000000000 < cg_debounce cg \<or> cg_io_timeout cg = 0
          \<or> 300 * 1000000000 < cg_io_timeout cg
       then fail_code InvalidConfiguration ''invalid managed scheduling intervals''
       else Inr ())"

definition fresh_envelope ::
  "store_env \<Rightarrow> session_config \<Rightarrow> string \<Rightarrow> identity \<Rightarrow> (session_config \<times> envelope) result" where
  "fresh_envelope st cg epoch i =
     bindR (if is_automatic cg
            then bindR (friendly_name (st_entropy st)) (\<lambda>name. Inr (named name cg)) else Inr cg) (\<lambda>cg.
     bindR (st_group_key st) (\<lambda>key. Inr (cg, Envelope
       \<lparr>en_version = 1, en_recovery = [], en_identity = i, en_metadata = cg_metadata cg,
        en_group_key = as_bytes key, en_epoch = epoch, en_revision = 0, en_local_revision = 0,
        en_sequences = [], en_origins = [], en_peers = [], en_enrollments = [], en_preparations = [],
        en_phase = Stopped, en_generation = 0, en_records = []\<rparr> None)))"

definition loaded_envelope ::
  "store_env \<Rightarrow> session_config \<Rightarrow> string \<Rightarrow> identity \<Rightarrow> app_key \<Rightarrow> (session_config \<times> envelope) result" where
  "loaded_envelope st cg epoch i key =
     bindR (store_load st cg key) (\<lambda>found.
       case found of
         None \<Rightarrow> fresh_envelope st cg epoch i
       | Some e \<Rightarrow>
           if en_identity (en_body e) \<noteq> i
              \<or> \<not> compatible_with (dm_manifest (en_metadata (en_body e))) (dm_manifest (cg_metadata cg))
           then fail ''session identity or manifest changed''
           else Inr (cg, e))"

definition recovered_envelope :: "session_config \<Rightarrow> envelope \<Rightarrow> envelope result" where
  "recovered_envelope cg e =
     (case en_prepared e of
        None \<Rightarrow> Inr e
      | Some prepared \<Rightarrow> bindR (recover_transaction cg e prepared) (\<lambda>_. Inr (pt_target prepared)))"

text \<open>The name that counts, the checks, and the new generation of the stopped session.\<close>

definition ready_envelope ::
  "bool \<Rightarrow> session_config \<Rightarrow> envelope \<Rightarrow> (session_config \<times> envelope) result" where
  "ready_envelope automatic cg e =
     (let stored = en_metadata (en_body e);
          cg' = (if automatic then named (dm_display_name stored) cg else cg);
          md = (if automatic then stored
                else stored\<lparr>dm_display_name := dm_display_name (cg_metadata cg)\<rparr>);
          b = (en_body e)\<lparr>en_metadata := md\<rparr>
      in bindR (metadata_validate (cg_metadata cg')) (\<lambda>_.
         bindR (metadata_validate md) (\<lambda>_.
         bindR (limits_state cg' b) (\<lambda>_.
         bindR (next_generation b) (\<lambda>g.
           Inr (cg', Envelope (b\<lparr>en_phase := Stopped, en_generation := g\<rparr>) (en_prepared e)))))))"

definition opened_world :: "envelope \<Rightarrow> save_outcome list \<Rightarrow> session_world" where
  "opened_world e saves =
     \<lparr>sn_envelope = e, sn_disk = e, sn_uncertain = False, sn_saves = saves, sn_events = [],
      sn_diagnostics = [], sn_woken = False, sn_pairing = pm_new, sn_invitation = None,
      sn_runtime = None, sn_discovered = [], sn_active = {}, sn_published = [],
      sn_publish_faults = []\<rparr>"

text \<open>\<open>saves\<close> are the outcomes of the coming saves, the first the one at the end of \<open>open\<close>.\<close>

definition session_open ::
  "store_env \<Rightarrow> session_config \<Rightarrow> string \<Rightarrow> string \<Rightarrow> save_outcome list \<Rightarrow>
   (session_config \<times> device_keys \<times> session_world) result" where
  "session_open st cg ident epoch saves =
     bindR (check_config cg) (\<lambda>_.
     bindR (st_lease st) (\<lambda>_.
       if list_ex (\<lambda>a. \<not> ad_transactional a) (m_adapters (dm_manifest (cg_metadata cg)))
       then fail ''managed adapter must support transactions''
       else
         bindR (store_identity st cg ident) (\<lambda>(i, keys, key).
         bindR (loaded_envelope st cg epoch i key) (\<lambda>(cg1, e).
         bindR (recovered_envelope cg1 e) (\<lambda>e1.
         bindR (ready_envelope (is_automatic cg) cg1 e1) (\<lambda>(cg2, e2).
           case saves of
             SaveFailed err # _ \<Rightarrow> Inl err
           | SaveUncertain err # _ \<Rightarrow> Inl err
           | _ \<Rightarrow> Inr (cg2, keys, opened_world e2 (drop 1 saves))))))))"

definition session_config_new :: "string \<Rightarrow> device_metadata \<Rightarrow> (string \<Rightarrow> string \<Rightarrow> string result) \<Rightarrow>
  (export_batch \<Rightarrow> nat option) \<Rightarrow> session_config" where
  "session_config_new fresh metadata record_key batch_size =
     \<lparr>cg_metadata = metadata, cg_listen = SockV4 0 0, cg_advertise = True,
      cg_adapters = bm_of_list (map (\<lambda>d. (ad_id d, records_adapter fresh d))
                                  (m_adapters (dm_manifest metadata))),
      cg_recovery_retention = 20, cg_catch_up = 2 * 1000000000, cg_debounce = 50 * 1000000,
      cg_io_timeout = 60 * 1000000000, cg_record_key = record_key, cg_batch_size = batch_size\<rparr>"

end
