(* ===== verification/Props_Open.thy ===== *)
theory Props_Open
  imports Session_Run Session_Open Props_Session Props_Pairing
begin

text \<open>
  The properties of a session across its life: what opening a stored session restores, that every
  run of an opened session keeps its invariant, and that storage replaces the session file whole.
\<close>

section \<open>What \<open>open\<close> does\<close>

lemma session_ok_config: "cg_record_key cg' = cg_record_key cg \<Longrightarrow> session_ok cg' e = session_ok cg e"
  by (simp add: session_ok_def body_ok_def)

lemma named_key [simp]: "cg_record_key (named name cg) = cg_record_key cg"
  by (simp add: named_def)

lemma session_ok_fresh:
  "fresh_envelope st cg epoch i = Inr (cg', e) \<Longrightarrow>
     en_prepared e = None \<and> session_ok cg (en_body e) \<and> cg_record_key cg' = cg_record_key cg"
  by (auto simp: fresh_envelope_def session_ok_def body_ok_def enroll_ok_def peers_ok_def split: if_splits)

lemma first_save_Inr:
  "(case saves of SaveFailed err # _ \<Rightarrow> Inl err | SaveUncertain err # _ \<Rightarrow> Inl err | _ \<Rightarrow> Inr x) = Inr y \<longleftrightarrow>
     x = y \<and> (saves = [] \<or> hd saves = SaveOk)"
  by (cases saves; cases "hd saves") auto

lemma session_open_Inr:
  assumes "session_open st cg ident epoch saves = Inr (cg', keys, w)"
  obtains i key cg1 e e1 e2 where "loaded_envelope st cg epoch i key = Inr (cg1, e)"
    "recovered_envelope cg1 e = Inr e1" "ready_envelope (is_automatic cg) cg1 e1 = Inr (cg', e2)"
    "w = opened_world e2 (drop 1 saves)"
  using assms
  by (auto simp: session_open_def first_save_Inr split: if_splits prod.splits)

lemma recovered_is_reopened:
  assumes "recovered_envelope cg e = Inr e1"
  shows "en_body e1 = reopened e \<and> en_prepared e1 = None"
proof (cases "en_prepared e")
  case None
  then show ?thesis using assms by (simp add: recovered_envelope_def reopened_def)
next
  case (Some p)
  then show ?thesis using assms recover_transaction_target
    by (auto simp: recovered_envelope_def reopened_def)
qed

text \<open>The stored content under the configured name, stopped and in its next generation.\<close>

definition restarted :: "string \<Rightarrow> envelope_body \<Rightarrow> envelope_body" where
  "restarted name e =
     e\<lparr>en_metadata := (en_metadata e)\<lparr>dm_display_name := name\<rparr>, en_phase := Stopped,
       en_generation := en_generation e + 1\<rparr>"

lemma ready_is_restarted:
  assumes "ready_envelope automatic cg e = Inr (cg', e')"
  shows "cg_record_key cg' = cg_record_key cg \<and> en_prepared e' = en_prepared e \<and>
    en_body e' = restarted (if automatic then dm_display_name (en_metadata (en_body e))
      else dm_display_name (cg_metadata cg)) (en_body e)"
  using assms
  by (auto simp: ready_envelope_def Let_def next_generation_def restarted_def)

lemma session_ok_restarted: "session_ok cg e \<Longrightarrow> session_ok cg (restarted name e)"
  by (rule session_ok_frame) (auto simp: restarted_def dest: session_ok_simps(2))

lemma opened_sane:
  assumes "session_open st cg ident epoch saves = Inr (cg', keys, w)"
    and "\<And>key e. store_load st cg key = Inr (Some e) \<Longrightarrow> session_ok cg (reopened e)"
  shows "sane cg' w"
proof -
  obtain i key cg1 e e1 e2 where load: "loaded_envelope st cg epoch i key = Inr (cg1, e)"
    and rec: "recovered_envelope cg1 e = Inr e1"
    and ready: "ready_envelope (is_automatic cg) cg1 e1 = Inr (cg', e2)"
    and w: "w = opened_world e2 (drop 1 saves)"
    using assms(1) by (rule session_open_Inr)
  have e: "session_ok cg (reopened e) \<and> cg_record_key cg1 = cg_record_key cg"
  proof (cases "store_load st cg key")
    case (Inr found)
    then show ?thesis using load session_ok_fresh[of st cg epoch i] assms(2)
      by (cases found) (fastforce simp: loaded_envelope_def reopened_def fail_def split: if_splits)+
  qed (use load in \<open>simp add: loaded_envelope_def\<close>)
  note r = recovered_is_reopened[OF rec] ready_is_restarted[OF ready]
  have "session_ok cg' (en_body e2) \<and> reopened e2 = en_body e2"
    using e r session_ok_config[of cg' cg] by (auto simp: session_ok_restarted reopened_def)
  then show ?thesis by (simp add: w world_ok_def opened_world_def)
qed

section \<open>The invariant of a session\<close>

text \<open>
  C4: a session that opens on no file, or on a file whose content satisfies \<open>session_ok\<close>, keeps
  \<open>session_ok\<close> through every run, both in memory and in what the disk would reopen to: whatever
  the app calls, whatever peers send over its connections, however saves fail, and however its
  threads interleave. So maps stay sorted and consistent, enrollments have live peers, the
  device is never its own peer, stored and applied receipts never exceed the own revision, a
  held first batch belongs to its peer and pin, and a removed peer stays paused and empty.
\<close>

theorem session_always_ok:
  assumes "session_open st cg ident epoch saves = Inr (cg', keys, w)"
    and "\<forall>key e. store_load st cg key = Inr (Some e) \<longrightarrow> session_ok cg (reopened e)"
    and "session_run pc se cg' w w'"
  shows "session_ok cg' (en_body (sn_envelope w')) \<and> session_ok cg' (reopened (sn_disk w'))"
  using run_sane[OF assms(3) opened_sane[OF assms(1)]] assms(2) by (simp add: world_ok_def)


text \<open>A store and a session environment with transparent cipher and tables for JSON.\<close>

definition demo_aead :: aead where
  "demo_aead = \<lparr>aead_encrypt = (\<lambda>k n m a. Some m), aead_decrypt = (\<lambda>k n m a. Some m)\<rparr>"

definition demo_bundle :: identity_bundle where
  "demo_bundle =
     \<lparr>ib_identity = inviter, ib_certificate = [1], ib_private_key = [2], ib_storage_key = replicate 32 3\<rparr>"

definition demo_store :: store_env where
  "demo_store =
     \<lparr>st_path = ''/s'', st_sha256 = (\<lambda>bs. bs), st_aead = demo_aead, st_lease = Inr (),
      st_get = (\<lambda>_. Inr (Some [])), st_set = (\<lambda>_ _. Inr ()), st_exists = False, st_file = Inr None,
      st_bundle_json = (\<lambda>_. Inr []), st_json_bundle = (\<lambda>_. Inr demo_bundle),
      st_envelope_json = (\<lambda>_. Inr [1]), st_json_envelope = (\<lambda>_. Inr (Envelope demo_body None)),
      st_generate = (\<lambda>_. Inr ([1], [2])), st_usable = (\<lambda>_ _. Inr ()),
      st_storage_key = Inr (AppKey (replicate 32 3)), st_group_key = Inr (AppKey (replicate 32 9)),
      st_entropy = Inr (0, 0)\<rparr>"

definition demo_env :: session_env where
  "demo_env =
     \<lparr>se_receipts = demo_mac, se_storage_key = AppKey (replicate 32 3), se_fingerprint = replicate 64 CHR ''f'',
      se_aead = demo_aead, se_to_json = (\<lambda>_. Inr []), se_from_json = (\<lambda>_. fail ''no batch''),
      se_interfaces = Inr [], se_digest = (\<lambda>_. Inr (replicate 64 CHR ''0''))\<rparr>"

lemma demo_check_config: "check_config demo_config = Inr ()"
  using demo_valid(2)
  by (simp add: check_config_def demo_config_def is_automatic_def demo_metadata_def demo_manifest_def
      records_adapter_def default_adapter_def)

lemma demo_store_identity:
  "\<exists>keys. store_identity st demo_config ident = Inr (inviter, keys, AppKey (replicate 32 3))"
  if "st_get st = st_get demo_store" "st_json_bundle st = st_json_bundle demo_store" "st_usable st = st_usable demo_store"
  using that
  by (simp add: store_identity_def demo_store_def demo_bundle_def inviter_def identity_new_def demo_config_def
      demo_metadata_def demo_manifest_def app_key_from_slice_def)

lemma demo_ready:
  "ready_envelope False demo_config (Envelope b None) =
     Inr (demo_config, Envelope (b\<lparr>en_phase := Stopped, en_generation := en_generation b + 1\<rparr>) None)"
  if "en_metadata b = demo_metadata" "en_epoch b = ''e''" "en_records b = []" "en_generation b \<noteq> u64_max"
  using that demo_valid(2)
  by (simp add: ready_envelope_def Let_def demo_config_def limits_state_def bounded_json_def next_generation_def
      max_batch_bytes_def bm_values_def)

lemma demo_opens:
  "\<exists>keys w. session_open demo_store demo_config ident ''e'' [] = Inr (demo_config, keys, w) \<and>
     sn_envelope w = Envelope (demo_body\<lparr>en_phase := Stopped, en_generation := 1\<rparr>) None"
proof -
  let ?b = "demo_body\<lparr>en_phase := Stopped, en_generation := 0\<rparr>"
  obtain keys where identity: "store_identity demo_store demo_config ident = Inr (inviter, keys, AppKey (replicate 32 3))"
    using demo_store_identity[of demo_store ident] by blast
  have "fresh_envelope demo_store demo_config ''e'' inviter = Inr (demo_config, Envelope ?b None)"
    by (simp add: fresh_envelope_def demo_store_def demo_body_def demo_config_def is_automatic_def demo_metadata_def)
  then have load: "loaded_envelope demo_store demo_config ''e'' inviter (AppKey (replicate 32 3)) =
      Inr (demo_config, Envelope ?b None)"
    by (simp add: loaded_envelope_def store_load_def) (simp add: demo_store_def)
  have ready: "ready_envelope False demo_config (Envelope ?b None) =
      Inr (demo_config, Envelope (?b\<lparr>en_phase := Stopped, en_generation := 1\<rparr>) None)"
    using demo_ready[of ?b] by (simp add: demo_body_def u64_max_def)
  have flags: "is_automatic demo_config = False" "st_lease demo_store = Inr ()"
    "list_ex (\<lambda>a. \<not> ad_transactional a) (m_adapters (dm_manifest (cg_metadata demo_config))) = False"
    by (simp_all add: is_automatic_def demo_config_def demo_metadata_def demo_manifest_def demo_store_def)
  show ?thesis
    by (simp add: session_open_def demo_check_config identity load ready flags recovered_envelope_def opened_world_def)
qed

lemma session_always_ok_witness:
  "\<exists>keys w. session_open demo_store demo_config ''d'' ''e'' [] = Inr (demo_config, keys, w) \<and>
     session_ok demo_config (en_body (sn_envelope (snd (session_set demo_config ''t'' ''notes'' ''1'' [5] w))))"
proof -
  obtain keys w where opened: "session_open demo_store demo_config ''d'' ''e'' [] = Inr (demo_config, keys, w)"
    using demo_opens by blast
  have none: "\<forall>key e. store_load demo_store demo_config key = Inr (Some e) \<longrightarrow> session_ok demo_config (reopened e)"
    by (simp add: store_load_def demo_store_def)
  have "session_run demo_crypto demo_env demo_config w (snd (session_set demo_config ''t'' ''notes'' ''1'' [5] w))"
    unfolding session_set_def by (rule run_write)
  from session_always_ok[OF opened none this] opened show ?thesis by blast
qed

section \<open>A crash between any two writes\<close>

text \<open>
  C5: whatever happens to the saves of a mutation, opening the session again from what is on
  disk restores either the content before the mutation or the content after it, stopped, in the
  next generation and under the configured name; and the content after it if the mutation
  reported success. Nothing in between is ever visible after a restart.
\<close>

theorem crash_then_reopen:
  assumes "synced w" and "en_prepared (sn_envelope w) = None"
    and "op (en_body (sn_envelope w)) = Inr (r, candidate)" and "mutate cg fresh op w = (result, w')"
    and "\<forall>key. store_load st cg key = Inr (Some (sn_disk w'))"
    and "session_open st cg ident epoch saves = Inr (cg', keys, w'')"
  shows "\<exists>name b. en_body (sn_envelope w'') = restarted name b \<and> en_prepared (sn_envelope w'') = None \<and>
    b \<in> {en_body (sn_envelope w), candidate_of cg fresh (en_body (sn_envelope w)) candidate} \<and>
    (is_ok result \<longrightarrow> b = candidate_of cg fresh (en_body (sn_envelope w)) candidate) \<and>
    (name = dm_display_name (if is_automatic cg then en_metadata b else cg_metadata cg))"
proof -
  let ?new = "candidate_of cg fresh (en_body (sn_envelope w)) candidate"
  have disk: "reopened (sn_disk w') \<in> {en_body (sn_envelope w), ?new} \<and>
      (is_ok result \<longrightarrow> reopened (sn_disk w') = ?new)"
  proof (cases result)
    case (Inl err)
    with assms(4) have "mutate cg fresh op w = (Inl err, w')" by simp
    from mutate_Inl[OF assms(1,2) this assms(3)] show ?thesis by (simp add: Inl)
  next
    case (Inr x)
    with assms(4) have "mutate cg fresh op w = (Inr x, w')" by simp
    then obtain c where "op (en_body (sn_envelope w)) = Inr (x, c)" "synced w'"
      "en_prepared (sn_envelope w') = None" "en_body (sn_envelope w') = candidate_of cg fresh (en_body (sn_envelope w)) c"
      by (rule mutate_Inr[OF assms(1,2)])
    then show ?thesis using assms(3) by (auto simp: synced_def reopened_def)
  qed
  obtain i key cg1 e e1 e2 where load: "loaded_envelope st cg epoch i key = Inr (cg1, e)"
    and rec: "recovered_envelope cg1 e = Inr e1"
    and ready: "ready_envelope (is_automatic cg) cg1 e1 = Inr (cg', e2)"
    and w: "w'' = opened_world e2 (drop 1 saves)"
    using assms(6) by (rule session_open_Inr)
  have e: "e = sn_disk w' \<and> cg1 = cg"
    using load assms(5) by (simp add: loaded_envelope_def fail_def split: if_splits)
  note r = recovered_is_reopened[OF rec] ready_is_restarted[OF ready]
  show ?thesis
    using e r disk w
    by (intro exI[of _ "if is_automatic cg then dm_display_name (en_metadata (reopened (sn_disk w')))
        else dm_display_name (cg_metadata cg)"] exI[of _ "reopened (sn_disk w')"])
      (auto simp: opened_world_def)
qed

definition demo_reopen :: "session_world \<Rightarrow> store_env" where
  "demo_reopen w = demo_store
     \<lparr>st_file := Inr (Some (blob_version # replicate 24 0)), st_exists := True,
      st_json_envelope := (\<lambda>_. Inr (sn_disk w))\<rparr>"

lemma demo_reopens:
  assumes "sn_disk w = Envelope b None" and "en_version b = 1" and "en_identity b = inviter"
    and "en_metadata b = demo_metadata" "en_epoch b = ''e''" "en_records b = []" "en_generation b \<noteq> u64_max"
  shows "\<forall>key. store_load (demo_reopen w) demo_config key = Inr (Some (sn_disk w))"
    "\<exists>keys. session_open (demo_reopen w) demo_config ident epoch [] = Inr (demo_config, keys,
       opened_world (Envelope (b\<lparr>en_phase := Stopped, en_generation := en_generation b + 1\<rparr>) None) [])"
proof -
  show load: "\<forall>key. store_load (demo_reopen w) demo_config key = Inr (Some (sn_disk w))"
    by (simp add: store_load_def demo_reopen_def demo_store_def demo_aead_def decrypt_blob_def nonce_len_def assms)
  obtain keys where identity: "store_identity (demo_reopen w) demo_config ident = Inr (inviter, keys, AppKey (replicate 32 3))"
    using demo_store_identity[of "demo_reopen w" ident] by (auto simp: demo_reopen_def)
  have same: "compatible_with (dm_manifest demo_metadata) (dm_manifest demo_metadata)"
    by (simp add: compatible_with_def)
  have flags: "is_automatic demo_config = False" "st_lease (demo_reopen w) = Inr ()"
    "list_ex (\<lambda>a. \<not> ad_transactional a) (m_adapters (dm_manifest (cg_metadata demo_config))) = False"
    "cg_metadata demo_config = demo_metadata"
    by (simp_all add: is_automatic_def demo_config_def demo_metadata_def demo_manifest_def demo_reopen_def demo_store_def)
  have loaded: "loaded_envelope (demo_reopen w) demo_config epoch inviter (AppKey (replicate 32 3)) =
      Inr (demo_config, Envelope b None)"
    using load same by (simp add: loaded_envelope_def assms flags)
  show "\<exists>keys. session_open (demo_reopen w) demo_config ident epoch [] = Inr (demo_config, keys,
       opened_world (Envelope (b\<lparr>en_phase := Stopped, en_generation := en_generation b + 1\<rparr>) None) [])"
    using demo_ready[OF assms(4-7)]
    by (simp add: session_open_def demo_check_config identity loaded flags(1-3) recovered_envelope_def)
qed

lemma crash_then_reopen_witness:
  "\<exists>keys w' w''. snd (mutate demo_config ''tx'' (\<lambda>e. Inr ((), e\<lparr>en_phase := Paused\<rparr>)) demo_faulty) = w' \<and>
     session_open (demo_reopen w') demo_config ''d'' ''e'' [] = Inr (demo_config, keys, w'') \<and>
     (\<exists>name b. en_body (sn_envelope w'') = restarted name b \<and> b \<in> {demo_body, demo_body\<lparr>en_phase := Paused\<rparr>})"
proof -
  have s: "synced demo_faulty" "en_prepared (sn_envelope demo_faulty) = None" "en_body (sn_envelope demo_faulty) = demo_body"
    by (simp_all add: synced_def demo_faulty_def demo_session_def)
  have neq: "demo_body\<lparr>en_phase := Paused\<rparr> \<noteq> demo_body" by (simp add: demo_body_def)
  obtain res w' where m: "mutate demo_config ''tx'' (\<lambda>e. Inr ((), e\<lparr>en_phase := Paused\<rparr>)) demo_faulty = (res, w')"
    by fastforce
  have disk: "sn_disk w' = Envelope (demo_body\<lparr>en_phase := Paused\<rparr>) None"
    using m neq
    by (auto simp: mutate_def settle_def demo_faulty_def demo_session_def commit_candidate_def save_candidate_def Let_def)
  have op: "(\<lambda>e. Inr ((), e\<lparr>en_phase := Paused\<rparr>)) (en_body (sn_envelope demo_faulty)) =
      (Inr ((), demo_body\<lparr>en_phase := Paused\<rparr>) :: (unit \<times> envelope_body) result)"
    by (simp add: s)
  have b: "en_version (demo_body\<lparr>en_phase := Paused\<rparr>) = 1" "en_identity (demo_body\<lparr>en_phase := Paused\<rparr>) = inviter"
    "en_metadata (demo_body\<lparr>en_phase := Paused\<rparr>) = demo_metadata" "en_epoch (demo_body\<lparr>en_phase := Paused\<rparr>) = ''e''"
    "en_records (demo_body\<lparr>en_phase := Paused\<rparr>) = []" "en_generation (demo_body\<lparr>en_phase := Paused\<rparr>) \<noteq> u64_max"
    by (simp_all add: demo_body_def u64_max_def)
  note re = demo_reopens[OF disk b]
  obtain keys w'' where opened: "session_open (demo_reopen w') demo_config ''d'' ''e'' [] = Inr (demo_config, keys, w'')"
    using re(2) by blast
  have "candidate_of demo_config ''tx'' demo_body (demo_body\<lparr>en_phase := Paused\<rparr>) = demo_body\<lparr>en_phase := Paused\<rparr>"
    by (simp add: candidate_of_def demo_body_def)
  with crash_then_reopen[OF s(1,2) op m re(1) opened]
  have "\<exists>name b. en_body (sn_envelope w'') = restarted name b \<and> b \<in> {demo_body, demo_body\<lparr>en_phase := Paused\<rparr>}"
    by (metis s(3))
  then show ?thesis using m opened by auto
qed

text \<open>The file system as the store of the next open finds it.\<close>

definition on_disk :: "store_fs \<Rightarrow> store_env \<Rightarrow> store_env" where
  "on_disk fs st = st\<lparr>st_file := Inr (fs_file fs), st_exists := fs_file fs \<noteq> None\<rparr>"

lemma fs_do_cases:
  assumes "fs_do f fs = (r, fs')"
  obtains (failed) err rest where "r = Inl err" "fs' = fs\<lparr>fs_faults := rest\<rparr>"
    | (ran) rest where "r = Inr ()" "fs' = f (fs\<lparr>fs_faults := rest\<rparr>)"
  using assms by (auto simp: fs_do_def Let_def split: list.splits option.splits)

lemma fs_skip [simp]: "fs_file (snd (fs_do (\<lambda>fs. fs) fs)) = fs_file fs"
  by (cases "fs_do (\<lambda>fs. fs) fs") (auto elim: fs_do_cases)

lemma fs_temp_file [simp]: "fs_file (snd (fs_do (\<lambda>fs. fs\<lparr>fs_temp := b\<rparr>) fs)) = fs_file fs"
  by (cases "fs_do (\<lambda>fs. fs\<lparr>fs_temp := b\<rparr>) fs") (auto elim: fs_do_cases)


lemma replace_file_cases:
  assumes "replace_file st nonce cg key e fs = (r, fs')"
  shows "fs_file fs' = fs_file fs \<and> r \<noteq> Inr () \<or>
    (\<exists>plain cipher. st_envelope_json st e = Inr plain \<and>
       encrypt_blob (st_aead st) nonce key plain (store_aad cg) = Inr cipher \<and>
       fs_file fs' = Some cipher \<and> \<not> fs_temp fs')"
  using assms unfolding replace_file_def
  by (auto simp: bindS_split split: prod.splits sum.splits elim!: fs_do_cases)

text \<open>
  C22: saving an envelope replaces the session file as a whole, whichever of its file operations
  fails: the next load finds either what it would have found before or exactly the saved
  envelope, the latter whenever the save reported success, and then no temporary file is left.
  The cipher and the JSON text are only assumed to invert on this envelope.
\<close>

theorem save_then_load:
  assumes "aead_sound (st_aead st)" and "length nonce = nonce_len" and "en_version (en_body e) = 1"
    and "\<forall>plain. st_envelope_json st e = Inr plain \<longrightarrow> st_json_envelope st plain = Inr e"
    and "store_load (on_disk fs st) cg key = old"
    and "store_save st nonce cg key e fs = (r, fs')"
  shows "store_load (on_disk fs' st) cg key \<in> {old, Inr (Some e)} \<and>
    (r = Inr () \<longrightarrow> store_load (on_disk fs' st) cg key = Inr (Some e) \<and> \<not> fs_temp fs')"
proof -
  obtain s1 f1 where s1: "fs_do (\<lambda>fs. fs) fs = (s1, f1)" by fastforce
  obtain s2 f2 where s2: "fs_do (\<lambda>fs. fs) f1 = (s2, f2)" by fastforce
  obtain s3 f3 where s3: "replace_file st nonce cg key e f2 = (s3, f3)" by fastforce
  obtain s4 f4 where s4: "fs_do (\<lambda>fs. fs\<lparr>fs_temp := False\<rparr>) f3 = (s4, f4)" by fastforce
  have kept: "fs_file f1 = fs_file fs" "fs_file f2 = fs_file fs" "fs_file f4 = fs_file f3"
    using fs_skip[of fs] fs_skip[of f1] fs_temp_file[of False f3] by (simp_all add: s1 s2 s4)
  have load: "store_load (on_disk fs' st) cg key =
      (case fs_file fs' of None \<Rightarrow> Inr None | Some bs \<Rightarrow>
         bindR (decrypt_blob (st_aead st) key bs (store_aad cg)) (\<lambda>plain.
         bindR (st_json_envelope st plain) (\<lambda>e.
           if en_version (en_body e) \<noteq> 1 then fail ''unsupported session journal version''
           else Inr (Some e))))" for fs'
    by (cases "fs_file fs'") (simp_all add: store_load_def on_disk_def)
  have new: "store_load (on_disk fs'' st) cg key = Inr (Some e)"
    if "st_envelope_json st e = Inr plain" "encrypt_blob (st_aead st) nonce key plain (store_aad cg) = Inr cipher"
      "fs_file fs'' = Some cipher" for plain cipher fs''
    using that decrypt_encrypt_blob[OF assms(1,2) that(2)] assms(3,4) by (simp add: load)
  have same: "store_load (on_disk fs'' st) cg key = old" if "fs_file fs'' = fs_file fs" for fs''
    using assms(5) that by (simp add: load)
  have fs': "fs_file fs' = fs_file fs \<and> r \<noteq> Inr () \<or> fs_file fs' = fs_file f3 \<and> (r = Inr () \<longrightarrow> fs' = f3 \<and> s3 = Inr ())"
    using assms(6) kept unfolding store_save_def
    by (cases s1; cases s2; cases s3) (auto simp: s1 s2 s3 s4)
  from replace_file_cases[OF s3] show ?thesis
    using fs' kept new same by (elim disjE) (metis insertCI insert_iff)+
qed


lemma save_then_load_witness:
  "\<exists>fs'. store_save (demo_reopen demo_session) (replicate 24 0) demo_config (AppKey []) (sn_disk demo_session)
       \<lparr>fs_file = None, fs_temp = False, fs_faults = []\<rparr> = (Inr (), fs') \<and>
     store_load (on_disk fs' (demo_reopen demo_session)) demo_config (AppKey []) = Inr (Some (sn_disk demo_session))"
proof -
  let ?st = "demo_reopen demo_session" and ?fs = "\<lparr>fs_file = None, fs_temp = False, fs_faults = []\<rparr>"
  have sound: "aead_sound (st_aead ?st)" "length (replicate 24 (0 :: u8)) = nonce_len"
    by (simp_all add: aead_sound_def demo_reopen_def demo_store_def demo_aead_def nonce_len_def)
  have e: "en_version (en_body (sn_disk demo_session)) = 1"
    "\<forall>plain. st_envelope_json ?st (sn_disk demo_session) = Inr plain \<longrightarrow>
       st_json_envelope ?st plain = Inr (sn_disk demo_session)"
    by (simp_all add: demo_session_def demo_body_def demo_reopen_def)
  obtain fs' where run: "store_save ?st (replicate 24 0) demo_config (AppKey []) (sn_disk demo_session) ?fs = (Inr (), fs')"
    by (simp add: store_save_def replace_file_def fs_do_def encrypt_blob_def Let_def demo_reopen_def demo_store_def demo_aead_def)
  from save_then_load[OF sound e refl run] run show ?thesis by blast
qed

end
