(* ===== verification/Props_Managed.thy ===== *)
theory Props_Managed
  imports Props_Open
begin

text \<open>
  The properties of the exchange between managed sessions: removing a peer, consent to a first
  batch, acknowledged deltas, and published discovery records.
\<close>

lemma mutate_body:
  assumes "synced w" and "en_prepared (sn_envelope w) = None" and "mutate cg fresh op w = (Inr r, w')"
  shows "\<exists>c rs. op (en_body (sn_envelope w)) = Inr (r, c) \<and> synced w' \<and> en_prepared (sn_envelope w') = None \<and>
    en_body (sn_envelope w') = c\<lparr>en_recovery := rs\<rparr>"
proof -
  obtain c where c: "op (en_body (sn_envelope w)) = Inr (r, c)" "synced w'" "en_prepared (sn_envelope w') = None"
    "en_body (sn_envelope w') = candidate_of cg fresh (en_body (sn_envelope w)) c"
    using assms by (rule mutate_Inr)
  have "\<exists>rs. candidate_of cg fresh e c = c\<lparr>en_recovery := rs\<rparr>" for e
    by (cases "en_records c \<noteq> en_records e")
      (auto simp: candidate_of_def keep_recovery_def Let_def intro: exI[of _ "en_recovery c"])
  then show ?thesis using c by metis
qed

text \<open>A session on which every save succeeds.\<close>

definition settled :: "session_world \<Rightarrow> bool" where
  "settled w \<longleftrightarrow> synced w \<and> en_prepared (sn_envelope w) = None \<and> sn_saves w = []"

lemma mutate_settles:
  assumes "settled w" and "op (en_body (sn_envelope w)) = Inr (r, c)"
    and "en_records c = en_records (en_body (sn_envelope w)) \<or> limits_state cg c = Inr ()"
  shows "\<exists>w'. mutate cg fresh op w = (Inr r, w') \<and> settled w' \<and> sn_runtime w' = sn_runtime w \<and>
    en_body (sn_envelope w') = candidate_of cg fresh (en_body (sn_envelope w)) c"
proof -
  obtain b where w: "sn_envelope w = Envelope b None" "sn_disk w = Envelope b None" "\<not> sn_uncertain w" "sn_saves w = []"
    using assms(1) by (cases "sn_envelope w") (auto simp: settled_def synced_def)
  have run: "mutate cg fresh op w = bindS (commit_candidate cg fresh c w) (\<lambda>_ w. (Inr r, w))"
    using mutate_settled[of w cg fresh op] w assms(2) by simp
  have "\<exists>w'. commit_candidate cg fresh c w = (Inr (), w') \<and> sn_saves w' = [] \<and> sn_runtime w' = sn_runtime w"
    using assms(3) w
    by (auto simp: commit_candidate_def Let_def save_candidate_def publish_def emit_def)
  then obtain w' where c: "commit_candidate cg fresh c w = (Inr (), w')" "sn_saves w' = []" "sn_runtime w' = sn_runtime w"
    by blast
  have "synced w" "en_prepared (sn_envelope w) = None" using assms(1) by (simp_all add: settled_def)
  from commit_candidate_ok[OF this c(1)] show ?thesis
    using run c by (intro exI[of _ w']) (simp add: settled_def)
qed

section \<open>Removing a peer\<close>

text \<open>What starting and stopping change of an envelope: phase and generation, which never falls.\<close>

definition later :: "envelope_body \<Rightarrow> envelope_body \<Rightarrow> bool" where
  "later b b' \<longleftrightarrow> en_generation b \<le> en_generation b' \<and>
     (\<exists>g ph rs. b' = b\<lparr>en_generation := g, en_phase := ph, en_recovery := rs\<rparr>)"

lemma later_trans: "later a b \<Longrightarrow> later b c \<Longrightarrow> later a c"
  by (auto simp: later_def) (intro exI, rule refl)

lemma mutate_later:
  assumes "synced w" and "en_prepared (sn_envelope w) = None" and "mutate cg fresh op w = (Inr r, w')"
    and "\<And>e r e'. op e = Inr (r, e') \<Longrightarrow> later e e'"
  shows "synced w' \<and> en_prepared (sn_envelope w') = None \<and>
    later (en_body (sn_envelope w)) (en_body (sn_envelope w'))"
proof -
  obtain c rs where c: "op (en_body (sn_envelope w)) = Inr (r, c)" "synced w'" "en_prepared (sn_envelope w') = None"
    "en_body (sn_envelope w') = c\<lparr>en_recovery := rs\<rparr>"
    using mutate_body[OF assms(1-3)] by blast
  have "later c (c\<lparr>en_recovery := rs\<rparr>)"
    unfolding later_def by (intro conjI exI[of _ "en_generation c"] exI[of _ "en_phase c"] exI[of _ rs]) simp_all
  then show ?thesis using c assms(4)[OF c(1)] later_trans by simp
qed

lemma generation_later:
  assumes "checked_inc (en_generation e) = Some g"
  shows "later e (e\<lparr>en_generation := g, en_phase := ph\<rparr>)"
  unfolding later_def
  using checked_inc_less[OF assms]
  by (intro conjI exI[of _ g] exI[of _ ph] exI[of _ "en_recovery e"]) simp_all

lemma later_refl [simp]: "later e e"
  unfolding later_def
  by (intro conjI exI[of _ "en_generation e"] exI[of _ "en_phase e"] exI[of _ "en_recovery e"]) simp_all

lemma start_op_later: "start_op e = Inr (r, e') \<Longrightarrow> later e e'"
  by (auto simp: start_op_def next_generation_def simp del: checked_inc_Some intro: generation_later)

lemma stop_op_later: "stop_op ph e = Inr (r, e') \<Longrightarrow> later e e'"
  by (auto simp: stop_op_def next_generation_def simp del: checked_inc_Some intro: generation_later split: if_splits)

lemma cleanup_Inr: "cleanup_result errs = Inr u \<longleftrightarrow> errs = []"
  by (cases errs rule: cleanup_result.cases) auto

lemma failure_Nil: "failure_of r = [] \<longleftrightarrow> is_ok r"
  by (cases r) auto

lemma session_stop_later:
  assumes "synced w" "en_prepared (sn_envelope w) = None" "session_stop cg fresh ph teardown w = (Inr (), w')"
  shows "synced w' \<and> en_prepared (sn_envelope w') = None \<and>
    later (en_body (sn_envelope w)) (en_body (sn_envelope w'))"
proof -
  obtain r1 w1 where m: "mutate cg fresh (stop_op ph) w = (r1, w1)" by fastforce
  have "is_ok r1" and w': "sn_envelope w' = sn_envelope w1 \<and> sn_disk w' = sn_disk w1 \<and> sn_uncertain w' = sn_uncertain w1"
    using assms(3) m
    by (auto simp: session_stop_def Let_def cleanup_Inr failure_Nil split: prod.splits option.splits)
  then obtain u where "r1 = Inr u" by (auto simp: is_ok_iff)
  from mutate_later[OF assms(1,2) m[unfolded this] stop_op_later] show ?thesis
    using w' by (simp add: synced_def)
qed

lemma session_start_later:
  assumes "synced w" "en_prepared (sn_envelope w) = None" "session_start se cg fresh bound browse w = (Inr a, w')"
  shows "later (en_body (sn_envelope w)) (en_body (sn_envelope w'))"
proof (cases "sn_runtime w")
  case None
  then obtain w1 where m: "mutate cg fresh start_op w = (Inr (), w1)"
    and w': "sn_envelope w' = sn_envelope (snd (start_advertiser se cg a w1))"
    using assms(3) by (auto simp: session_start_def bindS_split split: prod.splits sum.splits)
  have "sn_envelope (snd (start_advertiser se cg a w1)) = sn_envelope w1"
    by (auto simp: start_advertiser_def publish_service_def diagnostic_def Let_def
        split: sum.splits list.splits option.splits prod.splits)
  then show ?thesis using mutate_later[OF assms(1,2) m start_op_later] w' by simp
qed (use assms(3) in \<open>simp add: session_start_def\<close>)


lemma later_frame:
  "later b b' \<Longrightarrow> en_peers b' = en_peers b \<and> en_enrollments b' = en_enrollments b \<and>
     en_preparations b' = en_preparations b \<and> en_records b' = en_records b \<and>
     en_generation b \<le> en_generation b'"
  by (auto simp: later_def)

lemma fenced_later:
  assumes "synced w" "en_prepared (sn_envelope w) = None"
    and "fenced se cg rng teardown bound browse (mutate cg fresh op) w = (Inr (), w')"
  shows "\<exists>c. op (en_body (sn_envelope w)) = Inr ((), c) \<and> later c (en_body (sn_envelope w'))"
proof -
  obtain w1 where m: "mutate cg fresh op w = (Inr (), w1)"
    and rest: "bindS (session_shutdown cg (rng 0) teardown w1) (\<lambda>_ v.
        if is_running w then bindS (session_start se cg (rng 1) bound browse v) (\<lambda>_ v. (Inr (), v))
        else (Inr (), v)) = (Inr (), w')"
    using assms(3) by (auto simp: fenced_def Let_def bindS_Inr)
  then obtain w2 where stop: "session_stop cg (rng 0) Stopped teardown w1 = (Inr (), w2)"
    and last_step: "w' = w2 \<or> (\<exists>a. session_start se cg (rng 1) bound browse w2 = (Inr a, w'))"
    by (auto simp: bindS_Inr session_shutdown_def split: if_splits)
  obtain c rs where c: "op (en_body (sn_envelope w)) = Inr ((), c)" and w1: "synced w1" "en_prepared (sn_envelope w1) = None"
    "en_body (sn_envelope w1) = c\<lparr>en_recovery := rs\<rparr>"
    using mutate_body[OF assms(1,2) m] by blast
  note w2 = session_stop_later[OF w1(1,2) stop]
  have "later (en_body (sn_envelope w2)) (en_body (sn_envelope w'))"
    using last_step session_start_later[of w2] w2 by auto
  moreover have "later c (c\<lparr>en_recovery := rs\<rparr>)"
    unfolding later_def by (intro conjI exI[of _ "en_generation c"] exI[of _ "en_phase c"] exI[of _ rs]) simp_all
  ultimately show ?thesis using c w1(3) w2 later_trans by metis
qed

lemma check_refuses:
  "bm_get (en_peers e) (id_device i) = Some p \<Longrightarrow> pr_revoked p \<Longrightarrow> \<exists>err. peer_check sh i fp e = Inl err"
  by (auto simp: peer_check_def fail_code_def)

lemma serve_revoked:
  assumes "bm_get (en_peers (en_body (sn_envelope (pw_handler c)))) (id_device i) = Some p" and "pr_revoked p"
    and "pw_env c = []"
  shows "\<not> is_ok (fst (serve_managed se cg sh rng nonce fp (ManagedHello i md cur pro as) c)) \<and>
    pw_handler (snd (serve_managed se cg sh rng nonce fp (ManagedHello i md cur pro as) c)) = pw_handler c"
proof -
  obtain err where "peer_check sh i fp (en_body (sn_envelope (pw_handler c))) = Inl err"
    using check_refuses[OF assms(1,2)] by blast
  then show ?thesis
    using assms(3)
    by (auto simp: serve_managed_def pw_check_cancel_def pw_call_def split: list.split)
qed

text \<open>
  C6: removing a peer of a well-formed session fences it. Afterwards the peer is revoked, with
  every journaled enrollment and preparation for it gone and no batch held; the generation has
  grown, so that every handler made before is refused; the scheduler no longer contacts the
  peer; and a connection that presents the peer's identity, under whatever certificate and with
  whatever messages, ends in an error without changing the session. No record is touched.
\<close>

theorem removed_peer_refused:
  assumes "synced w" and "en_prepared (sn_envelope w) = None" and "session_ok cg (en_body (sn_envelope w))"
    and "remove_peer se cg rng teardown bound browse d w = (Inr (), w')"
  shows "let e = en_body (sn_envelope w); e' = en_body (sn_envelope w') in
    (\<exists>p. bm_get (en_peers e') d = Some p \<and> pr_revoked p \<and> pr_pending p = None) \<and>
    (\<forall>k j. bm_get (en_enrollments e') k = Some j \<longrightarrow> \<not> of_device d (er_outcome j)) \<and>
    (\<forall>k j. bm_get (en_preparations e') k = Some j \<longrightarrow> \<not> of_device d (pn_outcome j)) \<and>
    en_generation e < en_generation e' \<and>
    (\<forall>sh i fp. sh_generation sh \<le> en_generation e \<longrightarrow> peer_check sh i fp e' = Inl Cancelled \<and> sh_check sh e' = Inl Cancelled) \<and>
    (\<forall>p\<in>set (scheduled_peers e'). id_device (pr_identity p) \<noteq> d) \<and>
    (\<forall>c sh fp i md cur pro as. pw_handler c = w' \<longrightarrow> pw_env c = [] \<longrightarrow> id_device i = d \<longrightarrow>
       (case serve_managed se cg sh rng nonce fp (ManagedHello i md cur pro as) c of
          (r, c') \<Rightarrow> \<not> is_ok r \<and> pw_handler c' = w')) \<and>
    en_records e' = en_records e"
proof -
  let ?e = "en_body (sn_envelope w)" and ?e' = "en_body (sn_envelope w')"
  obtain c where c: "remove_op (rng 3) d ?e = Inr ((), c)" and lt: "later c ?e'"
    using fenced_later[OF assms(1,2) assms(4)[unfolded remove_peer_def]] by blast
  obtain p g where p: "bm_get (en_peers ?e) d = Some p" and g: "checked_inc (en_generation ?e) = Some g"
    and c_eq: "c = ?e\<lparr>en_peers := bm_update d (\<lambda>p. p\<lparr>pr_revoked := True, pr_incarnation := rng 3,
                      pr_state := PeerPaused, pr_pending := None\<rparr>) (en_peers ?e),
        en_generation := g,
        en_enrollments := bm_retain (\<lambda>_ j. \<not> of_device d (er_outcome j)) (en_enrollments ?e),
        en_preparations := bm_retain (\<lambda>_ j. \<not> of_device d (pn_outcome j)) (en_preparations ?e)\<rparr>"
    using c by (auto simp: remove_op_def next_generation_def)
  have ok': "session_ok cg c"
    using op_keeps_def[of "session_ok cg" "remove_op (rng 3) d"] remove_keeps[of cg "rng 3" d] assms(3) c by blast
  note frame = later_frame[OF lt]
  obtain q where q: "bm_get (en_peers ?e') d = Some q" "pr_revoked q" "pr_pending q = None"
    using p frame by (simp add: c_eq bm_get_update)
  have gone: "\<forall>k j. bm_get (en_enrollments ?e') k = Some j \<longrightarrow> \<not> of_device d (er_outcome j)"
    "\<forall>k j. bm_get (en_preparations ?e') k = Some j \<longrightarrow> \<not> of_device d (pn_outcome j)"
    using frame session_ok_simps(2,3)[OF assms(3)]
    by (auto simp: c_eq bm_get_retain split: option.splits if_splits)
  have newer: "en_generation ?e < en_generation ?e'"
    using checked_inc_less[OF g] frame by (auto simp: c_eq intro: less_le_trans)
  have stale: "\<forall>sh i fp. sh_generation sh \<le> en_generation ?e \<longrightarrow>
      peer_check sh i fp ?e' = Inl Cancelled \<and> sh_check sh ?e' = Inl Cancelled"
    using newer by (auto simp: peer_check_def sh_check_def)
  have idle: "\<forall>r\<in>set (scheduled_peers ?e'). id_device (pr_identity r) \<noteq> d"
  proof
    fix r assume r: "r \<in> set (scheduled_peers ?e')"
    obtain k where "bm_get (en_peers c) k = Some r" "\<not> pr_revoked r"
      using r frame session_ok_simps(1)[OF ok'] by (auto simp: scheduled_peers_def set_bm_values)
    then show "id_device (pr_identity r) \<noteq> d" using q frame session_ok_simps(4)[OF ok', of k r] by auto
  qed
  have serve: "\<forall>ch sh fp i md cur pro as. pw_handler ch = w' \<longrightarrow> pw_env ch = [] \<longrightarrow> id_device i = d \<longrightarrow>
     (case serve_managed se cg sh rng nonce fp (ManagedHello i md cur pro as) ch of
        (r, ch') \<Rightarrow> \<not> is_ok r \<and> pw_handler ch' = w')"
  proof (intro allI impI)
    fix sh fp md cur pro as and i :: identity and ch :: "session_world pair_world" assume "pw_handler ch = w'" "pw_env ch = []" "id_device i = d"
    then show "case serve_managed se cg sh rng nonce fp (ManagedHello i md cur pro as) ch of
        (r, ch') \<Rightarrow> \<not> is_ok r \<and> pw_handler ch' = w'"
      using serve_revoked[of ch i q se cg sh rng nonce fp md cur pro as] q by (auto split: prod.split)
  qed
  have records: "en_records ?e' = en_records ?e" using frame by (simp add: c_eq)
  have "\<exists>p. bm_get (en_peers ?e') d = Some p \<and> pr_revoked p \<and> pr_pending p = None" using q by blast
  with gone newer stale idle serve records show ?thesis
    unfolding Let_def by - (intro conjI; assumption)
qed

text \<open>The demo session with one enrolled peer, and its envelope.\<close>

definition demo_linked :: envelope_body where
  "demo_linked = demo_body\<lparr>en_peers := [(''join'', demo_peer)]\<rparr>"

definition in_memory :: "envelope_body \<Rightarrow> session_world" where
  "in_memory b = demo_session\<lparr>sn_envelope := Envelope b None, sn_disk := Envelope b None\<rparr>"

lemma settled_in_memory [simp]: "settled (in_memory b)" "en_body (sn_envelope (in_memory b)) = b"
  "sn_runtime (in_memory b) = None"
  by (simp_all add: settled_def synced_def in_memory_def demo_session_def)

lemma demo_linked_ok: "session_ok cg demo_linked"
  by (auto simp: session_ok_def body_ok_def enroll_ok_def peers_ok_def peer_ok_def pending_ok_def receipt_ok_def
      demo_linked_def demo_body_def demo_peer_def new_peer_def joiner_def inviter_def identity_new_def
      default_receipt_def bm_ok_def)

lemma removed_peer_refused_witness:
  "\<exists>w'. remove_peer demo_env demo_config (\<lambda>n. ''r'') [] (Inr (SockV4 1 2)) (Inr ()) ''join'' (in_memory demo_linked)
       = (Inr (), w') \<and>
     (\<exists>p. bm_get (en_peers (en_body (sn_envelope w'))) ''join'' = Some p \<and> pr_revoked p)"
proof -
  have "fst (remove_peer demo_env demo_config (\<lambda>n. ''r'') [] (Inr (SockV4 1 2)) (Inr ()) ''join'' (in_memory demo_linked))
      = Inr ()"
    by code_simp
  then obtain w' where run: "remove_peer demo_env demo_config (\<lambda>n. ''r'') [] (Inr (SockV4 1 2)) (Inr ()) ''join''
      (in_memory demo_linked) = (Inr (), w')"
    by (metis prod.collapse)
  have "synced (in_memory demo_linked)" "en_prepared (sn_envelope (in_memory demo_linked)) = None"
    "session_ok demo_config (en_body (sn_envelope (in_memory demo_linked)))"
    using settled_in_memory[of demo_linked] demo_linked_ok by (simp_all add: settled_def)
  from removed_peer_refused[OF this run, where nonce = "[]"] run show ?thesis by (auto simp: Let_def)
qed


section \<open>The first batch of a peer\<close>

lemma receive_holds:
  assumes ok: "session_ok cg e" and run: "receive_op cg sh token sender batch e = Inr (r, e')"
    and p: "bm_get (en_peers e) (id_device (pr_identity sender)) = Some p" "\<not> pr_bootstrapped p"
    and full: "en_records e \<noteq> []" "eb_records batch \<noteq> []" "mr_epoch (eb_checkpoint batch) \<noteq> ''''"
  shows "r = None \<and> with_peer (id_device (pr_identity sender)) (hold_for_review token batch sender e) e = Inr e'"
proof -
  have "pr_received p = default_receipt"
    using session_ok_simps(4)[OF ok p(1)] p(2) by (simp add: peer_ok_def)
  then have "\<not> already_received batch p" using full(3) by (auto simp: already_received_def default_receipt_def)
  then show ?thesis using run p full by (auto simp: receive_op_def Let_def split: if_splits)
qed

lemma merge_bootstraps:
  assumes ok: "session_ok cg e" and run: "resolve_op cg preview MergeBatch e = Inr (u, e')"
  obtains q v where "bm_get (en_peers e) (bp_peer preview) = Some q" "\<not> pr_revoked q" "pr_pending q = Some v"
    "bp_token v = bp_token preview" "bp_batch v = bp_batch preview" "pr_fingerprint q = bp_fingerprint preview"
    "en_revision e = bp_local_revision preview" "newly_bootstrapped e e'"
proof -
  obtain q v where q: "bm_get (en_peers e) (bp_peer preview) = Some q" "\<not> pr_revoked q" "pr_pending q = Some v"
    "bp_token v = bp_token preview" "bp_batch v = bp_batch preview" "pr_fingerprint q = bp_fingerprint preview"
    "en_revision e = bp_local_revision preview"
    and app: "apply_batch cg (bp_batch preview) (bp_peer preview) e = Inr e'"
    using run by (auto simp: resolve_op_def fail_code_def split: if_splits option.splits)
  have q': "\<not> pr_bootstrapped q" "id_device (pr_identity q) = bp_peer preview"
    using session_ok_simps(4)[OF ok q(1)] q(3) by (auto simp: peer_ok_def pending_ok_def)
  obtain prepared e1 where e1: "commit_records cg e prepared (Some (bp_peer preview)) = Inr e1"
    and e': "with_peer (bp_peer preview) (\<lambda>p. p\<lparr>pr_received := eb_checkpoint (bp_batch preview),
        pr_bootstrapped := True, pr_pending := None\<rparr>) e1 = Inr e'"
    using app by (auto simp: apply_batch_def)
  have "en_peers e1 = en_peers e" using commit_records_frame[OF e1] by simp
  then have "\<exists>p. bm_get (en_peers e') (bp_peer preview) = Some p \<and> pr_bootstrapped p"
    using e' q(1) by (auto simp: with_peer_def bm_get_update)
  then have "newly_bootstrapped e e'"
    using bm_get_in_values[OF q(1)] q' by (auto simp: newly_bootstrapped_def list_ex_iff split: option.split intro!: bexI[of _ q])
  then show ?thesis using that q by blast
qed

lemma snapshot_kept:
  assumes "newly_bootstrapped e c" and "en_records e \<noteq> []" and "0 < cg_recovery_retention cg"
  shows "\<exists>s\<in>set (en_recovery (keep_recovery cg fresh e c)). rv_records s = bm_values (en_records e)"
proof -
  let ?s = "\<lparr>rv_id = fresh, rv_revision = en_revision e, rv_records = bm_values (en_records e)\<rparr>"
  let ?pushed = "en_recovery c @ [?s]"
  have "drop (length ?pushed - cg_recovery_retention cg) ?pushed =
      drop (length ?pushed - cg_recovery_retention cg) (en_recovery c) @ [?s]"
    using assms(3) by simp
  then show ?thesis using assms(1,2) by (simp add: keep_recovery_def Let_def)
qed

text \<open>
  C7: the first batch of a newly enrolled peer never mixes with existing records on its own.
  A session that has records only stores such a batch beside the peer, for review: nothing but
  that peer's entry changes and the sender gets no receipt. Whatever happens later, a merge goes
  through only for a preview whose token, batch, pin and own revision are still the current
  ones, of a peer not removed since; and when the merge changes records, the records from before
  it are among the recovery snapshots.
\<close>

theorem bootstrap_needs_consent:
  assumes "session_ok cg e" and "receive_op cg sh token sender batch e = Inr (r, e')"
    and "bm_get (en_peers e) (id_device (pr_identity sender)) = Some p" and "\<not> pr_bootstrapped p"
    and "en_records e \<noteq> []" and "eb_records batch \<noteq> []" and "mr_epoch (eb_checkpoint batch) \<noteq> ''''"
  shows "r = None \<and> (\<exists>ps. e' = e\<lparr>en_peers := ps\<rparr> \<and>
      (\<forall>d. d \<noteq> id_device (pr_identity sender) \<longrightarrow> bm_get ps d = bm_get (en_peers e) d)) \<and>
    (\<exists>q v. bm_get (en_peers e') (id_device (pr_identity sender)) = Some q \<and> pr_pending q = Some v \<and>
       bp_batch v = batch \<and> bp_local_revision v = en_revision e \<and> \<not> pr_bootstrapped q) \<and>
    (\<forall>w fresh preview w'. settled w \<longrightarrow> session_ok cg (en_body (sn_envelope w)) \<longrightarrow>
       resolve_bootstrap cg fresh preview MergeBatch w = (Inr (), w') \<longrightarrow>
       (let b = en_body (sn_envelope w); b' = en_body (sn_envelope w') in
        en_revision b = bp_local_revision preview \<and>
        (\<exists>q v. bm_get (en_peers b) (bp_peer preview) = Some q \<and> \<not> pr_revoked q \<and> pr_pending q = Some v \<and>
           bp_token v = bp_token preview \<and> bp_batch v = bp_batch preview \<and> pr_fingerprint q = bp_fingerprint preview) \<and>
        (en_records b' \<noteq> en_records b \<longrightarrow> en_records b \<noteq> [] \<longrightarrow> 0 < cg_recovery_retention cg \<longrightarrow>
           (\<exists>s\<in>set (en_recovery b'). rv_records s = bm_values (en_records b)))))"
proof -
  let ?d = "id_device (pr_identity sender)"
  have hold: "r = None" "with_peer ?d (hold_for_review token batch sender e) e = Inr e'"
    using receive_holds[OF assms] by auto
  then have e': "e' = e\<lparr>en_peers := bm_update ?d (hold_for_review token batch sender e) (en_peers e)\<rparr>"
    by (auto simp: with_peer_def)
  have held: "\<exists>q v. bm_get (en_peers e') ?d = Some q \<and> pr_pending q = Some v \<and> bp_batch v = batch \<and>
      bp_local_revision v = en_revision e \<and> \<not> pr_bootstrapped q"
    using assms(3,4) by (auto simp: e' bm_get_update hold_for_review_def split: option.split)
  have merge: "let b = en_body (sn_envelope w); b' = en_body (sn_envelope w') in
        en_revision b = bp_local_revision preview \<and>
        (\<exists>q v. bm_get (en_peers b) (bp_peer preview) = Some q \<and> \<not> pr_revoked q \<and> pr_pending q = Some v \<and>
           bp_token v = bp_token preview \<and> bp_batch v = bp_batch preview \<and> pr_fingerprint q = bp_fingerprint preview) \<and>
        (en_records b' \<noteq> en_records b \<longrightarrow> en_records b \<noteq> [] \<longrightarrow> 0 < cg_recovery_retention cg \<longrightarrow>
           (\<exists>s\<in>set (en_recovery b'). rv_records s = bm_values (en_records b)))"
    if w: "settled w" "session_ok cg (en_body (sn_envelope w))"
      and run: "resolve_bootstrap cg fresh preview MergeBatch w = (Inr (), w')" for w fresh preview w'
  proof -
    obtain w1 where m: "mutate cg fresh (resolve_op cg preview MergeBatch) w = (Inr (), w1)" and w': "w' = wake w1"
      using run by (auto simp: resolve_bootstrap_def waking_def bindS_Inr)
    obtain c where c: "resolve_op cg preview MergeBatch (en_body (sn_envelope w)) = Inr ((), c)"
      "en_body (sn_envelope w1) = candidate_of cg fresh (en_body (sn_envelope w)) c"
      using w(1) m by (auto simp: settled_def elim: mutate_Inr)
    obtain q v where q: "bm_get (en_peers (en_body (sn_envelope w))) (bp_peer preview) = Some q" "\<not> pr_revoked q"
      "pr_pending q = Some v" "bp_token v = bp_token preview" "bp_batch v = bp_batch preview"
      "pr_fingerprint q = bp_fingerprint preview" "en_revision (en_body (sn_envelope w)) = bp_local_revision preview"
      "newly_bootstrapped (en_body (sn_envelope w)) c"
      using merge_bootstraps[OF w(2) c(1)] by blast
    have "\<exists>s\<in>set (en_recovery (en_body (sn_envelope w1))). rv_records s = bm_values (en_records (en_body (sn_envelope w)))"
      if "en_records (en_body (sn_envelope w1)) \<noteq> en_records (en_body (sn_envelope w))"
        "en_records (en_body (sn_envelope w)) \<noteq> []" "0 < cg_recovery_retention cg"
      using that snapshot_kept[OF q(8) that(2,3), of fresh] unfolding c(2) candidate_of_def
      by (simp split: if_splits)
    then show ?thesis unfolding Let_def w' using q(1-7) by auto
  qed
  show ?thesis
    using hold(1) held merge
    by (intro conjI exI[of _ "en_peers e'"]) (simp_all add: e' bm_get_update)
qed


definition demo_stocked :: envelope_body where
  "demo_stocked = demo_linked
     \<lparr>en_revision := 1, en_records := [(''kkkkk/notes1'', demo_note 1 [5])],
      en_sequences := [(''kkkkk/notes1'', 1)]\<rparr>"

definition demo_batch :: export_batch where
  "demo_batch = \<lparr>eb_checkpoint = \<lparr>mr_epoch = ''f'', mr_sequence = 1, mr_proof = replicate 32 0\<rparr>,
     eb_records = [demo_note 2 [6]], eb_full = True\<rparr>"

lemma demo_stocked_ok: "session_ok demo_config demo_stocked"
proof -
  have "body_ok demo_config demo_stocked"
    by (auto simp: body_ok_def demo_stocked_def demo_linked_def demo_body_def demo_config_def demo_key_def demo_note_def
        demo_peer_def new_peer_def joiner_def identity_new_def bm_ok_def numeral_eq_Suc)
  moreover have "peers_ok demo_stocked"
    by (auto simp: peers_ok_def peer_ok_def pending_ok_def receipt_ok_def demo_stocked_def demo_linked_def demo_body_def
        demo_peer_def new_peer_def joiner_def inviter_def identity_new_def default_receipt_def split: if_splits)
  moreover have "enroll_ok demo_stocked"
    using demo_linked_ok[of demo_config] by (simp add: session_ok_def enroll_ok_def demo_stocked_def)
  ultimately show ?thesis by (simp add: session_ok_def)
qed

lemmas demo_peers = demo_peer_def new_peer_def joiner_def inviter_def identity_new_def

lemmas demo_states = demo_stocked_def demo_linked_def demo_body_def demo_peers demo_config_def demo_metadata_def
  demo_manifest_def

lemma bootstrap_needs_consent_witness:
  "\<exists>e' q v. receive_op demo_config (projr (session_context demo_stocked)) ''t'' demo_peer demo_batch demo_stocked
       = Inr (None, e') \<and>
     en_records e' = en_records demo_stocked \<and>
     bm_get (en_peers e') ''join'' = Some q \<and> pr_pending q = Some v \<and> bp_batch v = demo_batch"
proof -
  have merged: "foldR (merge_managed ''notes'') (keyed [demo_note 1 [5]]) [demo_note 2 [6]] = Inr [(''1'', demo_note 2 [6])]"
    by code_simp
  have fields: "mg_adapter (demo_note n v) = ''notes''" "mg_id (demo_note n v) = ''1''" "mg_value (demo_note n v) = v" for n v
    by (simp_all add: demo_note_def)
  have "is_ok (receive_op demo_config (projr (session_context demo_stocked)) ''t'' demo_peer demo_batch demo_stocked)"
    by (simp add: receive_op_def Let_def session_context_def peer_check_def already_received_def validate_batch_def
        preview_records_def local_records_def of_adapter_def records_adapter_def default_adapter_def records_prepare_def
        merged[simplified] validate_records_def with_peer_def demo_states demo_batch_def fields
        demo_key_def max_record_bytes_def bm_values_def default_receipt_def is_ok_iff)
  then obtain r e' where run: "receive_op demo_config (projr (session_context demo_stocked)) ''t'' demo_peer
      demo_batch demo_stocked = Inr (r, e')"
    by (auto simp: is_ok_iff)
  have p: "bm_get (en_peers demo_stocked) (id_device (pr_identity demo_peer)) = Some demo_peer" "\<not> pr_bootstrapped demo_peer"
    by (simp_all add: demo_stocked_def demo_linked_def demo_peer_def new_peer_def joiner_def identity_new_def)
  have ne: "en_records demo_stocked \<noteq> []" "eb_records demo_batch \<noteq> []" "mr_epoch (eb_checkpoint demo_batch) \<noteq> ''''"
    by (simp_all add: demo_stocked_def demo_batch_def)
  have dev: "id_device (pr_identity demo_peer) = ''join''"
    by (simp add: demo_peer_def new_peer_def joiner_def identity_new_def)
  note held = bootstrap_needs_consent[OF demo_stocked_ok run p ne, unfolded dev]
  obtain q v where q: "bm_get (en_peers e') ''join'' = Some q" "pr_pending q = Some v" "bp_batch v = demo_batch"
    using held by blast
  have "r = None" "en_records e' = en_records demo_stocked" using held by auto
  then show ?thesis using run q by blast
qed

section \<open>Acknowledged deltas\<close>

lemma record_sequence_le:
  assumes "body_ok cg e" and "bm_get (en_records e) k = Some x"
  shows "record_sequence e k \<le> en_revision e"
proof -
  have "(bm_get (en_records e) k = None) = (bm_get (en_sequences e) k = None)"
    and le: "\<forall>n. bm_get (en_sequences e) k = Some n \<longrightarrow> n \<le> en_revision e"
    using assms(1) unfolding body_ok_def by blast+
  then obtain n where "bm_get (en_sequences e) k = Some n" using assms(2) by auto
  then show ?thesis using le by (simp add: record_sequence_def)
qed

lemma published_origin:
  assumes "foldR (publish_one cg (Some d)) e rs = Inr e'"
    and "\<And>k x. bm_get (en_records e) k = Some x \<Longrightarrow> record_sequence e k \<le> n \<or> bm_get (en_origins e) k = Some d"
    and "bm_get (en_records e') k = Some x"
  shows "record_sequence e' k \<le> n \<or> bm_get (en_origins e') k = Some d"
proof -
  let ?P = "\<lambda>e. \<forall>k x. bm_get (en_records e) k = Some x \<longrightarrow> record_sequence e k \<le> n \<or> bm_get (en_origins e) k = Some d"
  have "?P e'"
  proof (rule foldR_invariant[OF assms(1), where P = ?P])
    show "?P e" using assms(2) by blast
    fix s r s' assume P: "?P s" and "publish_one cg (Some d) s r = Inr s'"
    from this(2) show "?P s'"
      by (cases rule: publish_one_cases) (use P in \<open>auto simp: record_sequence_def bm_get_insert\<close>)
  qed
  then show ?thesis using assms(3) by blast
qed

lemma export_nothing:
  "export_records cg [] = Inr rs \<Longrightarrow> rs = []"
proof -
  have "export_loop [] ps = Inr rs \<Longrightarrow> rs = []" for ps rs
    by (induction ps arbitrary: rs) (auto simp: of_adapter_def split: if_splits)
  then show "export_records cg [] = Inr rs \<Longrightarrow> rs = []" by (simp add: export_records_def)
qed

text \<open>
  An exchange that was acknowledged leaves nothing to send. Once a peer holds the receipt
  minted for it in some state of a well-formed session, and the session has since applied
  batches of that peer only, an export against that receipt is a delta with no records: the
  peer's own records are not echoed, and what the receipt covers is not sent again.
\<close>

theorem acknowledged_export_empty:
  assumes "session_ok cg e" and "receipt_mint (se_receipts se) (se_storage_key se) e q = Inr receipt"
    and "foldR (\<lambda>e batch. apply_batch cg batch (id_device (pr_identity p)) e) e batches = Inr e'"
    and "export_op se cg sh p receipt e' = Inr (out, e'')"
  shows "eb_records out = [] \<and> \<not> eb_full out"
proof -
  let ?d = "id_device (pr_identity p)"
  let ?P = "\<lambda>t. en_epoch t = en_epoch e \<and> en_revision e \<le> en_revision t \<and> bm_ok (en_records t) \<and> body_ok cg t \<and>
    (\<forall>k x. bm_get (en_records t) k = Some x \<longrightarrow> record_sequence t k \<le> en_revision e \<or> bm_get (en_origins t) k = Some ?d)"
  have receipt: "mr_epoch receipt = en_epoch e" "mr_sequence receipt = en_revision e"
    using assms(2) by (auto simp: receipt_mint_def Let_def)
  have "?P e'"
  proof (rule foldR_invariant[OF assms(3), where P = ?P])
    have b: "body_ok cg e" using assms(1) by (simp add: session_ok_def)
    moreover from this have "bm_ok (en_records e)" by (simp add: body_ok_def)
    ultimately show "?P e" using record_sequence_le[OF b] by blast
  next
    fix s batch s' assume P: "?P s" and "apply_batch cg batch ?d s = Inr s'"
    then obtain prepared s1 f where c: "commit_records cg s prepared (Some ?d) = Inr s1"
      and s': "s' = s1\<lparr>en_peers := bm_update ?d f (en_peers s1)\<rparr>"
      and f: "f = (\<lambda>p. p\<lparr>pr_received := eb_checkpoint batch, pr_bootstrapped := True, pr_pending := None\<rparr>)"
      by (auto simp: apply_batch_def with_peer_def)
    obtain results where pub: "foldR (publish_one cg (Some ?d)) s (concat results) = Inr s1"
      by (rule commit_records_Inr[OF c])
    have ok: "body_ok cg s1" using P body_ok_commit[OF _ c] by blast
    then have "body_ok cg s'"
      by (auto simp: s' f body_ok_def bm_get_update bm_ok_update split: if_splits)
    moreover have "en_revision s \<le> en_revision s1" using publish_all_grows[OF pub] by blast
    moreover have "bm_ok (en_records s1)" using ok by (simp add: body_ok_def)
    moreover have "record_sequence s1 k \<le> en_revision e \<or> bm_get (en_origins s1) k = Some ?d"
      if "bm_get (en_records s1) k = Some x" for k x
      using published_origin[OF pub _ that] P by blast
    ultimately show "?P s'"
      using P commit_records_frame[OF c] by (auto simp: s' record_sequence_def)
  qed
  then have P: "?P e'" .
  have full: "\<not> export_full receipt e'" using P receipt by (auto simp: export_full_def)
  moreover have "export_selected ?d receipt e' = []"
  proof -
    have sorted: "bm_ok (en_records e')" using P by blast
    have "record_sequence e' k \<le> en_revision e \<or> bm_get (en_origins e') k = Some ?d"
      if "(k, x) \<in> set (en_records e')" for k x
    proof -
      have "bm_get (en_records e') k = Some x" using that bm.entries_iff[OF sorted, of k x] by simp
      then show ?thesis using P by blast
    qed
    then show ?thesis using full receipt by (fastforce simp: export_selected_def filter_empty_conv not_less)
  qed
  ultimately show ?thesis using assms(4) export_nothing by (auto simp: export_op_def Let_def)
qed


lemma acknowledged_export_empty_witness:
  "\<exists>receipt out. receipt_mint demo_mac (AppKey (replicate 32 3)) demo_stocked demo_peer = Inr receipt \<and>
     export_op demo_env demo_config (projr (session_context demo_stocked)) demo_peer receipt demo_stocked
       = Inr (out, demo_stocked) \<and> eb_records out = []"
proof -
  obtain receipt where r: "receipt_mint demo_mac (AppKey (replicate 32 3)) demo_stocked demo_peer = Inr receipt"
    by (simp add: receipt_mint_def receipt_mac_def demo_mac_def Let_def)
  have sel: "export_selected ''join'' receipt demo_stocked = []"
    using r by (auto simp: receipt_mint_def Let_def export_selected_def export_full_def record_sequence_def demo_states)
  have "\<exists>out. export_op demo_env demo_config (projr (session_context demo_stocked)) demo_peer receipt demo_stocked
      = Inr (out, demo_stocked)"
    using r sel
    by (simp add: export_op_def Let_def session_context_def peer_check_def demo_states demo_env_def export_records_def
        of_adapter_def records_adapter_def default_adapter_def limits_batch_def bounded_json_def)
  then obtain out where out: "export_op demo_env demo_config (projr (session_context demo_stocked)) demo_peer receipt
      demo_stocked = Inr (out, demo_stocked)" by blast
  have "receipt_mint (se_receipts demo_env) (se_storage_key demo_env) demo_stocked demo_peer = Inr receipt"
    using r by (simp add: demo_env_def)
  from acknowledged_export_empty[OF demo_stocked_ok this, of demo_peer "[]" demo_stocked, OF _ out] r out
  show ?thesis by auto
qed

section \<open>Discovery\<close>

text \<open>
  What a device publishes through mDNS is what another device discovers. For a SHA-256 that
  prints 64 hex digits, parsing the published service gives back the identity, the invitation
  descriptor and an advertisement compatible with the publisher's own manifest, at every address
  the daemon resolved and no other; the platform hook accepts that peer; and a device of another
  app sees nothing.
\<close>

theorem published_roundtrip:
  assumes "digest_ok digest" and "managed_service digest ifaces i listen d invitation = Inr service"
    and "rs_properties info = sv_properties service" and "rs_addresses info \<noteq> []"
  shows "(\<exists>p ad. parse_peer_info info (id_app i) = Some p \<and> dp_identity p = i \<and>
      dp_invitation p = invitation \<and> dp_advertisement p = Some ad \<and>
      ad_compatible_with digest ad (dm_manifest d) = Inr True \<and>
      set (dp_addresses p) = (\<lambda>ip. scoped_address ip (rs_port info)) ` set (rs_addresses info) \<and>
      (\<forall>own. id_app own = id_app i \<longrightarrow> length (rs_addresses info) \<le> 32 \<longrightarrow> ingest_checks own p = Inr ())) \<and>
    (\<forall>app. app \<noteq> id_app i \<longrightarrow> parse_peer_info info app = None)"
proof -
  have pp: "platform_properties digest i d invitation = Inr (rs_properties info)"
    using assms(2,3) by (auto simp: managed_service_def)
  obtain q where q: "metadata_properties digest i d = Inr q"
    and p: "bm_get (rs_properties info) = (case invitation of None \<Rightarrow> bm_get q | Some v \<Rightarrow> (bm_get q)
       (''pair_version'' \<mapsto> show_nat (unat (pd_version v)), ''pair_id'' \<mapsto> pd_id v,
        ''pair_fp'' \<mapsto> pd_fingerprint v, ''pair_expires'' \<mapsto> show_nat (unat (pd_expires_at v))))"
    and v: "\<forall>v. invitation = Some v \<longrightarrow> length (pd_id v) = 32 \<and> list_all is_ascii_hexdigit (pd_id v) \<and>
       length (pd_fingerprint v) = 64 \<and> list_all is_ascii_hexdigit (pd_fingerprint v)"
    using pp by (rule platform_properties_get)
  obtain c where c: "digest (dm_manifest d) = Inr c" "text_ok (id_app i)" "text_ok (id_device i)" "text_ok (id_user i)"
    "text_ok (dm_display_name d)" "text_ok (dm_device_kind d)" "text_ok (dm_role d)" "text_ok (m_display_name (dm_manifest d))"
    and g: "bm_get q = [''app_id'' \<mapsto> id_app i, ''device_id'' \<mapsto> id_device i, ''user_id'' \<mapsto> id_user i,
       ''name'' \<mapsto> dm_display_name d, ''kind'' \<mapsto> dm_device_kind d, ''role'' \<mapsto> dm_role d,
       ''app_name'' \<mapsto> m_display_name (dm_manifest d),
       ''schema'' \<mapsto> show_nat (unat (m_schema_version (dm_manifest d))),
       ''contract'' \<mapsto> c, ''managed'' \<mapsto> ''1'']"
    using q by (rule metadata_properties_get)
  have get: "bm_get (rs_properties info) ''app_id'' = Some (id_app i)"
    "bm_get (rs_properties info) ''device_id'' = Some (id_device i)"
    "bm_get (rs_properties info) ''user_id'' = Some (id_user i)"
    by (simp_all add: p g split: option.split)
  have "\<exists>ip. first_least address_rank (rs_addresses info) = Some ip"
    using assms(4) by (cases "rs_addresses info") (auto split: option.split)
  then obtain address where address: "pick_address info = Some address" by (auto simp: pick_address_def)
  have service: "parse_service_info info app =
      (if app = id_app i then Some \<lparr>dd_identity = i, dd_address = address, dd_source = Mdns\<rparr> else None)" for app
    by (auto simp: parse_service_info_def get address identity_new_def)
  let ?ad = "\<lparr>pa_display_name = dm_display_name d, pa_device_kind = dm_device_kind d, pa_role = dm_role d,
     pa_app_display_name = m_display_name (dm_manifest d),
     pa_schema_version = m_schema_version (dm_manifest d), pa_contract_digest = c\<rparr>"
  have ad: "parse_advertisement info = Some ?ad"
    using published_advertisement[OF assms(1) pp] c(1) by auto
  let ?as = "sort_dedup (map (\<lambda>ip. scoped_address ip (rs_port info)) (rs_addresses info))"
  let ?p = "\<lparr>dp_identity = i, dp_addresses = ?as, dp_advertisement = Some ?ad, dp_invitation = invitation\<rparr>"
  have parsed: "parse_peer_info info (id_app i) = Some ?p"
    using c(2-4) assms(4) by (simp add: parse_peer_info_def service Let_def ad published_descriptor[OF pp])
  have hex: "length c = 64" "list_all is_ascii_hexdigit c" using assms(1) c(1) by (auto simp: digest_ok_def)
  have short: "length ?as \<le> length (rs_addresses info)"
    unfolding sort_dedup_def by (rule order_trans[OF remdups_adj_length]) simp
  have "ingest_checks own ?p = Inr ()" if "id_app own = id_app i" "length (rs_addresses info) \<le> 32" for own :: identity
    using that c hex v short assms(4) by (auto simp: ingest_checks_def split: option.split)
  moreover have "ad_compatible_with digest ?ad (dm_manifest d) = Inr True"
    by (simp add: ad_compatible_with_def c(1))
  moreover have "parse_peer_info info app = None" if "app \<noteq> id_app i" for app
    using that by (simp add: parse_peer_info_def service)
  ultimately show ?thesis using parsed by (intro conjI exI[of _ ?p] exI[of _ ?ad]) auto
qed

definition demo_service :: "(string, string) bmap \<Rightarrow> resolved_service" where
  "demo_service ps = \<lparr>rs_fullname = ''host._libresync'', rs_port = 4000, rs_addresses = [ScopedV4 7], rs_properties = ps\<rparr>"

lemma published_roundtrip_witness:
  "\<exists>service p. managed_service (\<lambda>_. Inr (replicate 64 CHR ''0'')) (Inr []) inviter (SockV4 7 4000) demo_metadata
       (Some (inv_descriptor demo_invitation)) = Inr service \<and>
     parse_peer_info (demo_service (sv_properties service)) ''app'' = Some p \<and> dp_identity p = inviter \<and>
     dp_invitation p = Some (inv_descriptor demo_invitation) \<and> set (dp_addresses p) = {SockV4 7 4000}"
proof -
  let ?digest = "\<lambda>_. Inr (replicate 64 CHR ''0'') :: string result"
  let ?invitation = "Some (inv_descriptor demo_invitation)"
  have ok: "digest_ok ?digest"
    by (simp add: digest_ok_def list_all_iff is_ascii_hexdigit_def is_ascii_digit_def hex_value_def)
  have fields: "text_ok ''app''" "text_ok ''host''" "text_ok ''user''" "text_ok ''Mac''" "text_ok ''desk''" "text_ok ''main''"
    "text_ok ''App''" "text_ok ''1''" "text_ok (replicate 64 CHR ''0'')"
    by (simp_all add: text_ok_def numeral_eq_Suc)
  have one: "show_nat (Suc 0) = ''1''" by (simp add: show_nat.simps digit_def char_of_eq_iff)
  have "\<exists>p. metadata_properties ?digest inviter demo_metadata = Inr p"
    using demo_valid(2) fields one
    by (simp add: metadata_properties_def inviter_def identity_new_def demo_metadata_def demo_manifest_def put_field_def)
  moreover have "\<exists>v. with_code (inv_descriptor demo_invitation) demo_metadata ''000000'' = Inr v"
    using demo_valid(2)
    by (simp add: with_code_def inv_validate_def inv_descriptor_def demo_invitation_def demo_id_eq list_all_iff
        is_ascii_hexdigit_def is_ascii_digit_def hex_value_def)
  ultimately obtain service where service: "managed_service ?digest (Inr []) inviter (SockV4 7 4000) demo_metadata ?invitation = Inr service"
    by (auto simp: managed_service_def platform_properties_def local_ips_def)
  from published_roundtrip[OF ok service, of "demo_service (sv_properties service)"] service show ?thesis
    by (auto simp: demo_service_def inviter_def identity_new_def)
qed

end
