(* ===== verification/Session_Merge.thy ===== *)
theory Session_Merge
  imports Session_Invariant
begin

text \<open>
  What committing a batch does when every adapter of the app is a \<open>RecordsAdapter\<close>: each key
  keeps its record, sequence and origin, or takes a record of the batch that is no older, under
  a sequence beyond the old revision; and every record of the batch ends up stored or superseded.
\<close>

definition records_app :: "session_config \<Rightarrow> bool" where
  "records_app cg \<longleftrightarrow> key_inj cg \<and> bm_ok (cg_adapters cg) \<and>
     (\<forall>a x. bm_get (cg_adapters cg) a = Some x \<longrightarrow> (\<exists>fresh d. ad_id d = a \<and> x = records_adapter fresh d))"

definition stored_after :: "envelope_body \<Rightarrow> string \<Rightarrow> managed_record \<Rightarrow> bool" where
  "stored_after e k x \<longleftrightarrow> (\<exists>y. bm_get (en_records e) k = Some y \<and> mg_clock x \<le> mg_clock y)"

text \<open>
  \<open>advances e e' from\<close>: going from \<open>e\<close> to \<open>e'\<close>, a key keeps its record, sequence and origin, or
  holds one at least as new under a sequence beyond \<open>en_revision e\<close>, with \<open>from\<close> true of its
  origin and the record.
\<close>

definition advances ::
  "envelope_body \<Rightarrow> envelope_body \<Rightarrow> (string \<Rightarrow> string option \<Rightarrow> managed_record \<Rightarrow> bool) \<Rightarrow> bool" where
  "advances e e' from \<longleftrightarrow> en_revision e \<le> en_revision e' \<and>
     (\<forall>k. bm_get (en_records e') k = bm_get (en_records e) k \<and>
          record_sequence e' k = record_sequence e k \<and> bm_get (en_origins e') k = bm_get (en_origins e) k \<or>
        (\<exists>x. bm_get (en_records e') k = Some x \<and> (\<forall>y. bm_get (en_records e) k = Some y \<longrightarrow> mg_clock y \<le> mg_clock x) \<and>
          en_revision e < record_sequence e' k \<and> from k (bm_get (en_origins e') k) x))"

lemma advances_refl: "advances e e from"
  by (simp add: advances_def)

lemma advancesD:
  assumes "advances e e' from"
  shows "bm_get (en_records e') k = bm_get (en_records e) k \<and>
      record_sequence e' k = record_sequence e k \<and> bm_get (en_origins e') k = bm_get (en_origins e) k \<or>
    (\<exists>x. bm_get (en_records e') k = Some x \<and> (\<forall>y. bm_get (en_records e) k = Some y \<longrightarrow> mg_clock y \<le> mg_clock x) \<and>
      en_revision e < record_sequence e' k \<and> from k (bm_get (en_origins e') k) x)"
  using assms unfolding advances_def by blast

lemma advances_stored: "advances e e' from \<Longrightarrow> stored_after e k x \<Longrightarrow> stored_after e' k x"
  using advancesD[of e e' "from" k] by (auto simp: stored_after_def intro: order_trans)

section \<open>Publishing distinct records\<close>

lemma publish_one_get:
  assumes "publish_one cg origin e r = Inr e'"
  obtains k where "cg_record_key cg (mg_adapter r) (mg_id r) = Inr k" "bm_get (en_records e') k = Some r"
    "bm_get (en_records e) k = Some r \<longrightarrow> e' = e"
    "bm_get (en_records e) k \<noteq> Some r \<longrightarrow> en_revision e < record_sequence e' k \<and>
       en_revision e < en_revision e' \<and> bm_get (en_origins e') k = origin"
    "\<forall>j. j \<noteq> k \<longrightarrow> bm_get (en_records e') j = bm_get (en_records e) j \<and>
       record_sequence e' j = record_sequence e j \<and> bm_get (en_origins e') j = bm_get (en_origins e) j"
  using assms
proof (cases rule: publish_one_cases)
  case (new k)
  have "en_revision e < en_revision e + 1" using new(3) by (rule less_plus_1)
  then show ?thesis using new
    by (intro that[of k])
       (auto simp: record_sequence_def bm_get_insert bm_get_remove split: option.splits)
qed (rule that, auto)

lemma publish_distinct:
  assumes "key_inj cg" and "foldR (publish_one cg origin) e rs = Inr e'"
    and "distinct (map (\<lambda>r. (mg_adapter r, mg_id r)) rs)"
  shows "bm_get (en_records e') k = bm_get (en_records e) k \<and>
      record_sequence e' k = record_sequence e k \<and> bm_get (en_origins e') k = bm_get (en_origins e) k \<or>
    (\<exists>r\<in>set rs. cg_record_key cg (mg_adapter r) (mg_id r) = Inr k \<and> bm_get (en_records e) k \<noteq> Some r \<and>
      bm_get (en_records e') k = Some r \<and> en_revision e < record_sequence e' k \<and> bm_get (en_origins e') k = origin)"
  using assms(2,3)
proof (induction rs arbitrary: e)
  case (Cons r rs)
  from Cons.prems(1) obtain e1 where one: "publish_one cg origin e r = Inr e1"
    and rest: "foldR (publish_one cg origin) e1 rs = Inr e'" by auto
  obtain j where j: "cg_record_key cg (mg_adapter r) (mg_id r) = Inr j"
    "bm_get (en_records e1) j = Some r" "bm_get (en_records e) j = Some r \<longrightarrow> e1 = e"
    "bm_get (en_records e) j \<noteq> Some r \<longrightarrow> en_revision e < record_sequence e1 j \<and>
       en_revision e < en_revision e1 \<and> bm_get (en_origins e1) j = origin"
    "\<forall>i. i \<noteq> j \<longrightarrow> bm_get (en_records e1) i = bm_get (en_records e) i \<and>
       record_sequence e1 i = record_sequence e i \<and> bm_get (en_origins e1) i = bm_get (en_origins e) i"
    using one by (rule publish_one_get)
  have le: "en_revision e \<le> en_revision e1" using publish_one_grows[OF one] by blast
  have other: "cg_record_key cg (mg_adapter x) (mg_id x) \<noteq> Inr j" if "x \<in> set rs" for x
  proof
    assume "cg_record_key cg (mg_adapter x) (mg_id x) = Inr j"
    then have "(mg_adapter x, mg_id x) = (mg_adapter r, mg_id r)"
      using assms(1) j(1) unfolding key_inj_def by blast
    moreover have "(mg_adapter r, mg_id r) \<notin> (\<lambda>r. (mg_adapter r, mg_id r)) ` set rs"
      using Cons.prems(2) by simp
    ultimately show False
      using imageI[OF that, of "\<lambda>r. (mg_adapter r, mg_id r)"] by (simp only: simp_thms)
  qed
  note IH = Cons.IH[OF rest]
  have dist: "distinct (map (\<lambda>r. (mg_adapter r, mg_id r)) rs)" using Cons.prems(2) by simp
  show ?case
  proof (cases "k = j")
    case True
    have same: "bm_get (en_records e') j = bm_get (en_records e1) j \<and>
        record_sequence e' j = record_sequence e1 j \<and> bm_get (en_origins e') j = bm_get (en_origins e1) j"
      using IH[OF dist] other True by blast
    then show ?thesis
      using j True by (cases "bm_get (en_records e) j = Some r") auto
  next
    case False
    then show ?thesis using IH[OF dist] j(5) False le
      by (auto intro: le_less_trans)
  qed
qed simp

section \<open>Committing what was prepared\<close>

text \<open>The records an adapter stages for a batch.\<close>

definition merged_of :: "envelope_body \<Rightarrow> managed_record list \<Rightarrow> string \<Rightarrow> managed_record list" where
  "merged_of e inc a = bm_values (fold managed_put (of_adapter a inc) (keyed (local_records a e)))"

lemma records_appD:
  assumes "records_app cg" and "(a, x) \<in> set (cg_adapters cg)"
  obtains fresh d where "ad_id d = a" "x = records_adapter fresh d" "bm_get (cg_adapters cg) a = Some x"
proof -
  have x: "bm_get (cg_adapters cg) a = Some x"
    using assms bm.entries_iff[of "cg_adapters cg" a x] by (simp add: records_app_def)
  then obtain fresh d where "ad_id d = a" "x = records_adapter fresh d"
    using assms(1) unfolding records_app_def by blast
  then show ?thesis using x that by blast
qed

lemma commit_staged:
  assumes "records_app cg" and "(a, x) \<in> set (cg_adapters cg)"
    and "ma_prepare x (local_records a e) (of_adapter a inc) (en_revision e) = Inr ch"
    and "commit_one cg (en_revision e) ch = Inr rs"
  shows "rs = merged_of e inc a \<and> (\<forall>r\<in>set rs. mg_adapter r = a) \<and> distinct (map mg_id rs)"
proof -
  obtain fresh d where d: "ad_id d = a" "x = records_adapter fresh d" "bm_get (cg_adapters cg) a = Some x"
    by (rule records_appD[OF assms(1,2)])
  have prep: "records_prepare fresh d (local_records a e) (of_adapter a inc) (en_revision e) = Inr ch"
    using assms(3) by (simp add: d(2) records_adapter_def default_adapter_def)
  then obtain m where m: "foldR (merge_managed a) (keyed (local_records a e)) (of_adapter a inc) = Inr m"
    and ch: "chg_adapter ch = a" "chg_expected_revision ch = en_revision e" "chg_staged ch = bm_values m"
    by (auto simp: records_prepare_def d(1))
  have "rs = bm_values m" and val: "validate_records a (chg_recovery ch) rs = Inr ()"
    using assms(4) d(3) ch
    by (auto simp: commit_one_def d(2) records_adapter_def default_adapter_def default_commit_def d(1) split: if_splits)
  moreover have "m = fold managed_put (of_adapter a inc) (keyed (local_records a e))"
    using merge_managed_fold[OF m] by blast
  ultimately show ?thesis using validate_records_Inr[OF val] by (auto simp: merged_of_def)
qed

lemma commit_loop:
  assumes "records_app cg"
  shows "prepare_loop e inc ps = Inr chs \<Longrightarrow> traverseR (commit_one cg (en_revision e)) chs = Inr results \<Longrightarrow>
    set ps \<subseteq> set (cg_adapters cg) \<Longrightarrow> distinct (map fst ps) \<Longrightarrow>
    concat results = concat (map (\<lambda>(a, _). if of_adapter a inc = [] then [] else merged_of e inc a) ps) \<and>
    (\<forall>r\<in>set (concat results). mg_adapter r \<in> fst ` set ps) \<and>
    distinct (map (\<lambda>r. (mg_adapter r, mg_id r)) (concat results))"
proof (induction ps arbitrary: chs results)
  case (Cons p ps)
  obtain a x where p: "p = (a, x)" by (cases p)
  have mem: "(a, x) \<in> set (cg_adapters cg)" using Cons.prems(3) p by auto
  have sub: "set ps \<subseteq> set (cg_adapters cg)" "distinct (map fst ps)" "a \<notin> fst ` set ps"
    using Cons.prems(3,4) p by auto
  show ?case
  proof (cases "of_adapter a inc = []")
    case True
    then have "prepare_loop e inc ps = Inr chs" using Cons.prems(1) p by (simp add: Let_def)
    note IH = Cons.IH[OF this Cons.prems(2) sub(1,2)]
    have "\<forall>r\<in>set (concat results). mg_adapter r \<in> fst ` set (p # ps)"
      using conjunct1[OF conjunct2[OF IH]] by auto
    moreover have "concat results =
        concat (map (\<lambda>(a, _). if of_adapter a inc = [] then [] else merged_of e inc a) (p # ps))"
      using IH True by (simp add: p)
    ultimately show ?thesis using IH by blast
  next
    case False
    then obtain ch rest where ch: "ma_prepare x (local_records a e) (of_adapter a inc) (en_revision e) = Inr ch"
      and rest: "prepare_loop e inc ps = Inr rest" and chs: "chs = ch # rest"
      using Cons.prems(1) p by (auto simp: Let_def split: if_splits)
    obtain rs more where rs: "commit_one cg (en_revision e) ch = Inr rs"
      and more: "traverseR (commit_one cg (en_revision e)) rest = Inr more" and results: "results = rs # more"
      using Cons.prems(2) by (auto simp: chs)
    note one = commit_staged[OF assms mem ch rs]
    note IH = Cons.IH[OF rest more sub(1,2)]
    have inj: "inj_on (\<lambda>r. (mg_adapter r, mg_id r)) (set rs)"
      using one by (auto simp: distinct_map inj_on_def)
    then have "distinct (map (\<lambda>r. (mg_adapter r, mg_id r)) rs)"
      unfolding distinct_map using one[unfolded distinct_map] by blast
    moreover have "(\<lambda>r. (mg_adapter r, mg_id r)) ` set rs \<inter>
        (\<lambda>r. (mg_adapter r, mg_id r)) ` set (concat more) = {}"
      using one IH sub(3) by fastforce
    ultimately have "distinct (map (\<lambda>r. (mg_adapter r, mg_id r)) (concat results))"
      unfolding results concat.simps map_append distinct_append set_map using IH by blast
    moreover have "\<forall>r\<in>set (concat results). mg_adapter r \<in> fst ` set (p # ps)"
      using one conjunct1[OF conjunct2[OF IH]] by (auto simp: results p)
    moreover have "concat results = concat (map (\<lambda>(a, _). if of_adapter a inc = [] then [] else merged_of e inc a) (p # ps))"
      using one IH False by (simp add: results p)
    ultimately show ?thesis by blast
  qed
qed simp

lemma merged_of_source:
  assumes "r \<in> set (merged_of e inc a)"
  shows "r \<in> set (local_records a e) \<or> r \<in> set (of_adapter a inc)"
proof -
  let ?m = "fold managed_put (of_adapter a inc) (keyed (local_records a e))"
  have ok: "managed_ok ?m" by (rule managed.ok_puts[OF managed_ok_keyed])
  then obtain i where "bm_get ?m i = Some r"
    using assms by (auto simp: merged_of_def set_bm_values managed_ok_def)
  from managed.puts_source[OF managed_ok_keyed this] show ?thesis
    by (auto simp: keyed_def bm_get_of_list dest!: map_of_SomeD)
qed

lemma local_records_iff:
  assumes "body_ok cg e"
  shows "r \<in> set (local_records a e) \<longleftrightarrow> mg_adapter r = a \<and> (\<exists>k. bm_get (en_records e) k = Some r)"
  using assms by (auto simp: local_records_def of_adapter_def set_bm_values body_ok_def)

lemma merged_of_newest:
  assumes "r \<in> set (merged_of e inc a)" and "mg_id x = mg_id r"
    and "bm_get (keyed (local_records a e)) (mg_id r) = Some x \<or> x \<in> set (of_adapter a inc)"
  shows "mg_clock x \<le> mg_clock r"
proof -
  let ?m = "fold managed_put (of_adapter a inc) (keyed (local_records a e))"
  have ok: "managed_ok ?m" by (rule managed.ok_puts[OF managed_ok_keyed])
  then obtain i where i: "bm_get ?m i = Some r"
    using assms(1) by (auto simp: merged_of_def set_bm_values managed_ok_def)
  then have "mg_id r = i" using ok unfolding managed_ok_def by blast
  then show ?thesis
    using managed.puts_greatest[OF managed_ok_keyed i, of x] assms(2,3) by blast
qed

lemma merged_of_covers:
  assumes "x \<in> set (of_adapter a inc)"
  shows "\<exists>r\<in>set (merged_of e inc a). mg_id r = mg_id x \<and> mg_clock x \<le> mg_clock r"
proof -
  let ?m = "fold managed_put (of_adapter a inc) (keyed (local_records a e))"
  have ok: "managed_ok ?m" by (rule managed.ok_puts[OF managed_ok_keyed])
  obtain r where r: "bm_get ?m (mg_id x) = Some r" "mg_clock x \<le> mg_clock r"
    using managed.puts_covers[OF managed_ok_keyed assms] by blast
  then have "r \<in> set (merged_of e inc a)" by (auto simp: merged_of_def intro: bm_get_in_values)
  moreover have "mg_id r = mg_id x" using ok r(1) unfolding managed_ok_def by blast
  ultimately show ?thesis using r(2) by blast
qed

text \<open>No two local records share an id.\<close>

lemma local_keyed:
  assumes "body_ok cg e" and "key_inj cg" and "bm_get (en_records e) k = Some x"
  shows "bm_get (keyed (local_records (mg_adapter x) e)) (mg_id x) = Some x"
proof -
  let ?l = "local_records (mg_adapter x) e"
  have x: "x \<in> set ?l" using assms(3) local_records_iff[OF assms(1)] by blast
  then have "bm_get (keyed ?l) (mg_id x) \<noteq> None"
    by (auto simp: keyed_def bm_get_of_list map_of_eq_None_iff image_image)
  then obtain y where y: "bm_get (keyed ?l) (mg_id x) = Some y" by blast
  then have "y \<in> set ?l" "mg_id y = mg_id x"
    by (auto simp: keyed_def bm_get_of_list dest!: map_of_SomeD)
  then obtain j where j: "bm_get (en_records e) j = Some y" "mg_adapter y = mg_adapter x" "mg_id y = mg_id x"
    using local_records_iff[OF assms(1)] by blast
  have key: "cg_record_key cg (mg_adapter r) (mg_id r) = Inr i" if "bm_get (en_records e) i = Some r" for i r
    using assms(1) that unfolding body_ok_def by blast
  have "j = k" using key[OF j(1)] key[OF assms(3)] j(2,3) by simp
  then show ?thesis using y j(1) assms(3) by simp
qed

text \<open>The whole of it, for a batch of any origin.\<close>

lemma commit_advances:
  assumes app: "records_app cg" and ok: "body_ok cg e"
    and prep: "prepare_records cg e inc = Inr chs" and com: "commit_records cg e chs origin = Inr e'"
  shows "advances e e' (\<lambda>k q x. q = origin \<and> x \<in> set inc \<and> bm_has (cg_adapters cg) (mg_adapter x) \<and>
      cg_record_key cg (mg_adapter x) (mg_id x) = Inr k)"
    and "x \<in> set inc \<Longrightarrow> bm_has (cg_adapters cg) (mg_adapter x) \<Longrightarrow>
      \<exists>k. cg_record_key cg (mg_adapter x) (mg_id x) = Inr k \<and> stored_after e' k x"
proof -
  have inj: "key_inj cg" and ba: "bm_ok (cg_adapters cg)" using app by (auto simp: records_app_def)
  obtain results where res: "traverseR (commit_one cg (en_revision e)) chs = Inr results"
    and pub: "foldR (publish_one cg origin) e (concat results) = Inr e'"
    using com by (rule commit_records_Inr)
  note loop = commit_loop[OF app prep[unfolded prepare_records_def] res order_refl bm.entries_distinct[OF ba]]
  let ?rs = "concat results"
  have dist: "distinct (map (\<lambda>r. (mg_adapter r, mg_id r)) ?rs)" using loop by blast
  have mem: "r \<in> set ?rs \<longleftrightarrow> bm_has (cg_adapters cg) (mg_adapter r) \<and> of_adapter (mg_adapter r) inc \<noteq> [] \<and>
      r \<in> set (merged_of e inc (mg_adapter r))" for r
  proof -
    have ad: "mg_adapter r = a" if "r \<in> set (merged_of e inc a)" for a
      using merged_of_source[OF that] by (auto simp: local_records_def of_adapter_def)
    have "r \<in> set ?rs \<longleftrightarrow> (\<exists>a y. (a, y) \<in> set (cg_adapters cg) \<and> of_adapter a inc \<noteq> [] \<and> r \<in> set (merged_of e inc a))"
      unfolding conjunct1[OF loop] by (auto split: if_splits)
    also have "\<dots> \<longleftrightarrow> (\<exists>a. bm_has (cg_adapters cg) a \<and> of_adapter a inc \<noteq> [] \<and> r \<in> set (merged_of e inc a))"
      unfolding bm_has_iff set_map by force
    finally show ?thesis using ad by blast
  qed
  have key: "cg_record_key cg (mg_adapter r) (mg_id r) = Inr i" if "bm_get (en_records e) i = Some r" for i r
    using ok that unfolding body_ok_def by blast
  have new: "r \<in> set inc \<and> (\<forall>y. bm_get (en_records e) k = Some y \<longrightarrow> mg_clock y \<le> mg_clock r)"
    if r: "r \<in> set ?rs" and k: "cg_record_key cg (mg_adapter r) (mg_id r) = Inr k"
      and ne: "bm_get (en_records e) k \<noteq> Some r" for r k
  proof -
    have m: "r \<in> set (merged_of e inc (mg_adapter r))" using r mem by blast
    have "r \<notin> set (local_records (mg_adapter r) e)"
      using local_records_iff[OF ok] key k ne by (metis sum.inject(2))
    then have "r \<in> set inc" using merged_of_source[OF m] by (simp add: of_adapter_def)
    moreover have "mg_clock y \<le> mg_clock r" if y: "bm_get (en_records e) k = Some y" for y
    proof -
      have "mg_adapter y = mg_adapter r \<and> mg_id y = mg_id r"
        using inj key[OF y] k unfolding key_inj_def by blast
      then show ?thesis using merged_of_newest[OF m, of y] local_keyed[OF ok inj y] by simp
    qed
    ultimately show ?thesis by blast
  qed
  show "advances e e' (\<lambda>k q x. q = origin \<and> x \<in> set inc \<and> bm_has (cg_adapters cg) (mg_adapter x) \<and>
      cg_record_key cg (mg_adapter x) (mg_id x) = Inr k)"
    unfolding advances_def
  proof (intro conjI allI)
    show "en_revision e \<le> en_revision e'" using publish_all_grows[OF pub] by blast
    fix k
    from publish_distinct[OF inj pub dist, of k]
    show "bm_get (en_records e') k = bm_get (en_records e) k \<and>
          record_sequence e' k = record_sequence e k \<and> bm_get (en_origins e') k = bm_get (en_origins e) k \<or>
        (\<exists>x. bm_get (en_records e') k = Some x \<and> (\<forall>y. bm_get (en_records e) k = Some y \<longrightarrow> mg_clock y \<le> mg_clock x) \<and>
          en_revision e < record_sequence e' k \<and> bm_get (en_origins e') k = origin \<and> x \<in> set inc \<and>
          bm_has (cg_adapters cg) (mg_adapter x) \<and> cg_record_key cg (mg_adapter x) (mg_id x) = Inr k)"
      using new mem by blast
  qed
  show "\<exists>k. cg_record_key cg (mg_adapter x) (mg_id x) = Inr k \<and> stored_after e' k x"
    if x: "x \<in> set inc" "bm_has (cg_adapters cg) (mg_adapter x)"
  proof -
    have of: "x \<in> set (of_adapter (mg_adapter x) inc)" using x(1) by (simp add: of_adapter_def)
    then obtain r where r: "r \<in> set (merged_of e inc (mg_adapter x))" "mg_id r = mg_id x" "mg_clock x \<le> mg_clock r"
      using merged_of_covers by blast
    have ad: "mg_adapter r = mg_adapter x"
      using merged_of_source[OF r(1)] by (auto simp: local_records_def of_adapter_def)
    have "r \<in> set ?rs" unfolding mem ad using of r(1) x(2) by auto
    from publish_all_get[OF inj pub dist this] show ?thesis
      using r(2,3) ad by (auto simp: stored_after_def)
  qed
qed

section \<open>Local writes and applied batches\<close>

lemma stored_self: "bm_get (en_records e) k = Some x \<Longrightarrow> stored_after e k x"
  by (simp add: stored_after_def)

lemma advances_frame:
  assumes "advances e e' from" and "en_records f = en_records e'" "en_sequences f = en_sequences e'"
    "en_origins f = en_origins e'" "en_revision f = en_revision e'"
  shows "advances e f from"
  using assms by (simp add: advances_def record_sequence_def)

lemma write_advances:
  assumes "records_app cg" and "body_ok cg e" and w: "write_op cg adapter ident value deleted e = Inr (u, e')"
  obtains r where "max_counter (bm_values (en_records e)) \<noteq> u64_max"
    "mg_clock r = LamportClock (max_counter (bm_values (en_records e)) + 1) (id_device (en_identity e))"
    "advances e e' (\<lambda>k q x. q = None \<and> x = r \<and> bm_has (cg_adapters cg) (mg_adapter x))"
    "en_peers e' = en_peers e" "en_epoch e' = en_epoch e" "en_identity e' = en_identity e"
proof -
  let ?max = "max_counter (bm_values (en_records e))"
  define r where "r = \<lparr>mg_adapter = adapter, mg_id = ident, mg_value = value, mg_deleted = deleted,
    mg_clock = LamportClock (?max + 1) (id_device (en_identity e))\<rparr>"
  from w obtain chs e1 rev where nm: "?max \<noteq> u64_max"
    and prep: "prepare_records cg e [r] = Inr chs" and com: "commit_records cg e chs None = Inr e1"
    and e': "e' = e1\<lparr>en_local_revision := rev\<rparr>"
    unfolding write_op_def r_def by (auto simp: Let_def)
  have "advances e e1 (\<lambda>k q x. q = None \<and> x = r \<and> bm_has (cg_adapters cg) (mg_adapter x))"
    using commit_advances(1)[OF assms(1,2) prep com] by (simp add: advances_def) blast
  then have "advances e e' (\<lambda>k q x. q = None \<and> x = r \<and> bm_has (cg_adapters cg) (mg_adapter x))"
    by (rule advances_frame) (simp_all add: e')
  then show ?thesis
    using nm commit_records_frame[OF com] by (intro that[of r]) (simp_all add: r_def e')
qed

lemma apply_advances:
  assumes "records_app cg" and "body_ok cg e" and a: "apply_batch cg batch d e = Inr e'"
  shows "advances e e' (\<lambda>k q x. q = Some d \<and> x \<in> set (eb_records batch) \<and>
      bm_has (cg_adapters cg) (mg_adapter x) \<and> cg_record_key cg (mg_adapter x) (mg_id x) = Inr k)"
    and "x \<in> set (eb_records batch) \<Longrightarrow> bm_has (cg_adapters cg) (mg_adapter x) \<Longrightarrow>
      \<exists>k. cg_record_key cg (mg_adapter x) (mg_id x) = Inr k \<and> stored_after e' k x"
    and "en_epoch e' = en_epoch e \<and> en_identity e' = en_identity e \<and>
      en_peers e' = bm_update d (\<lambda>p. p\<lparr>pr_received := eb_checkpoint batch, pr_bootstrapped := True,
        pr_pending := None\<rparr>) (en_peers e)"
proof -
  obtain chs e1 where prep: "prepare_records cg e (eb_records batch) = Inr chs"
    and com: "commit_records cg e chs (Some d) = Inr e1"
    and e': "e' = e1\<lparr>en_peers := bm_update d (\<lambda>p. p\<lparr>pr_received := eb_checkpoint batch,
        pr_bootstrapped := True, pr_pending := None\<rparr>) (en_peers e1)\<rparr>"
    using a by (auto simp: apply_batch_def with_peer_def)
  show "advances e e' (\<lambda>k q x. q = Some d \<and> x \<in> set (eb_records batch) \<and>
      bm_has (cg_adapters cg) (mg_adapter x) \<and> cg_record_key cg (mg_adapter x) (mg_id x) = Inr k)"
    by (rule advances_frame[OF commit_advances(1)[OF assms(1,2) prep com]]) (simp_all add: e')
  show "\<exists>k. cg_record_key cg (mg_adapter x) (mg_id x) = Inr k \<and> stored_after e' k x"
    if "x \<in> set (eb_records batch)" "bm_has (cg_adapters cg) (mg_adapter x)"
    using commit_advances(2)[OF assms(1,2) prep com that] by (simp add: stored_after_def e')
  show "en_epoch e' = en_epoch e \<and> en_identity e' = en_identity e \<and>
      en_peers e' = bm_update d (\<lambda>p. p\<lparr>pr_received := eb_checkpoint batch, pr_bootstrapped := True,
        pr_pending := None\<rparr>) (en_peers e)"
    using commit_records_frame[OF com] by (simp add: e')
qed

text \<open>The largest counter a device has seen only grows.\<close>

lemma max_counter_le: "(\<forall>r\<in>set rs. clk_counter (mg_clock r) \<le> n) \<Longrightarrow> max_counter rs \<le> n"
proof -
  have "m \<le> n \<Longrightarrow> \<forall>r\<in>set rs. clk_counter (mg_clock r) \<le> n \<Longrightarrow>
      fold (\<lambda>r m. max m (clk_counter (mg_clock r))) rs m \<le> n" for m
    by (induction rs arbitrary: m) auto
  then show "\<forall>r\<in>set rs. clk_counter (mg_clock r) \<le> n \<Longrightarrow> max_counter rs \<le> n"
    by (simp add: max_counter_def)
qed

lemma advances_counter:
  assumes "advances e e' from" and "bm_ok (en_records e)"
  shows "max_counter (bm_values (en_records e)) \<le> max_counter (bm_values (en_records e'))"
proof (rule max_counter_le, rule ballI)
  fix r assume "r \<in> set (bm_values (en_records e))"
  then obtain k where "bm_get (en_records e) k = Some r" using assms(2) by (auto simp: set_bm_values)
  from advances_stored[OF assms(1) stored_self[OF this]]
  obtain y where y: "bm_get (en_records e') k = Some y" "mg_clock r \<le> mg_clock y"
    by (auto simp: stored_after_def)
  have "clk_counter (mg_clock r) \<le> clk_counter (mg_clock y)" by (rule clock_le_counter[OF y(2)])
  also have "\<dots> \<le> max_counter (bm_values (en_records e'))"
    by (rule max_counter_ge[OF bm_get_in_values[OF y(1)]])
  finally show "clk_counter (mg_clock r) \<le> max_counter (bm_values (en_records e'))" .
qed

end
