(* ===== verification/Session_Mesh.thy ===== *)
theory Session_Mesh
  imports Session_Merge
begin

text \<open>
  Many sessions of one app that write locally and exchange batches. A step is one operation a
  session runs under \<open>mutate\<close>, on the envelope of one device: a \<open>chore\<close> is any that leaves the
  records alone, the others write, greet, export, receive, and decide on a held batch. Whatever
  was sent stays in flight: it may arrive late, more than once, in any order, or never.
\<close>

inductive chore :: "session_env \<Rightarrow> session_config \<Rightarrow> envelope_body \<Rightarrow> envelope_body \<Rightarrow> bool"
  for se cg where
  "start_op e = Inr ((), e') \<Longrightarrow> chore se cg e e'"
| "stop_op phase e = Inr ((), e') \<Longrightarrow> chore se cg e e'"
| "acknowledge_op inbox e = Inr ((), e') \<Longrightarrow> chore se cg e e'"
| "acknowledge_peer_op d receipt e = Inr ((), e') \<Longrightarrow> chore se cg e e'"
| "transmitted_op sh p checkpoint e = Inr ((), e') \<Longrightarrow> chore se cg e e'"
| "acked_op se sh p receipt disposition e = Inr ((), e') \<Longrightarrow> chore se cg e e'"
| "remove_op incarnation d e = Inr ((), e') \<Longrightarrow> chore se cg e e'"
| "pause_peer_op d e = Inr ((), e') \<Longrightarrow> chore se cg e e'"
| "resume_peer_op d e = Inr ((), e') \<Longrightarrow> chore se cg e e'"
| "unreachable_op d err e = Inr ((), e') \<Longrightarrow> chore se cg e e'"
| "remember_op sh missing d addresses e = Inr ((), e') \<Longrightarrow> chore se cg e e'"
| "hint_op found e = Inr (moved, e') \<Longrightarrow> chore se cg e e'"
| "prepare_op cg sh outcome e = Inr ((), e') \<Longrightarrow> chore se cg e e'"
| "commit_op cg sh rng outcome key e = Inr ((), e') \<Longrightarrow> chore se cg e e'"
| "chore se cg e (e\<lparr>en_recovery := snapshots\<rparr>)"

text \<open>What a chore keeps: the records, and for each peer what was received and is held, if not reset.\<close>

definition same_peer :: "peer \<Rightarrow> peer \<Rightarrow> bool" where
  "same_peer p q \<longleftrightarrow> pr_received q = pr_received p \<and> (pr_pending q = None \<or> pr_pending q = pr_pending p)"

definition same_data :: "envelope_body \<Rightarrow> envelope_body \<Rightarrow> bool" where
  "same_data e e' \<longleftrightarrow>
     en_records e' = en_records e \<and> en_sequences e' = en_sequences e \<and> en_origins e' = en_origins e \<and>
     en_revision e' = en_revision e \<and> en_epoch e' = en_epoch e \<and> en_identity e' = en_identity e \<and>
     (\<forall>d q. bm_get (en_peers e') d = Some q \<longrightarrow>
        pr_received q = default_receipt \<and> pr_pending q = None \<or>
        (\<exists>p. bm_get (en_peers e) d = Some p \<and> same_peer p q))"

lemma same_data_refl: "en_peers e' = en_peers e \<Longrightarrow> en_records e' = en_records e \<Longrightarrow>
    en_sequences e' = en_sequences e \<Longrightarrow> en_origins e' = en_origins e \<Longrightarrow> en_revision e' = en_revision e \<Longrightarrow>
    en_epoch e' = en_epoch e \<Longrightarrow> en_identity e' = en_identity e \<Longrightarrow> same_data e e'"
  by (simp add: same_data_def same_peer_def)

lemma same_data_update:
  assumes "en_peers e' = bm_update d f (en_peers e)" and "\<And>p. same_peer p (f p)"
    and "en_records e' = en_records e" "en_sequences e' = en_sequences e" "en_origins e' = en_origins e"
      "en_revision e' = en_revision e" "en_epoch e' = en_epoch e" "en_identity e' = en_identity e"
  shows "same_data e e'"
proof -
  have "\<exists>p. bm_get (en_peers e) k = Some p \<and> same_peer p q" if "bm_get (en_peers e') k = Some q" for k q
    using that assms(2) by (auto simp: assms(1) bm_get_update same_peer_def split: if_splits)
  then show ?thesis using assms(3-8) by (simp add: same_data_def)
qed

lemma same_peer_refl [simp]: "same_peer p p"
  by (simp add: same_peer_def)

lemma same_data_trans: "same_data a b \<Longrightarrow> same_data b c \<Longrightarrow> same_data a c"
  unfolding same_data_def same_peer_def by (simp, metis)

lemma process_same: "process_receipt e ir = Inr e' \<Longrightarrow> same_data e e'"
  unfolding process_receipt_def
  by (auto intro!: same_data_update[where f = "advance_processed (snd ir)"]
      simp: same_peer_def advance_processed_def)

lemma enroll_same: "same_data e (enroll sh rng outcome key e)"
proof -
  have "pr_received q = default_receipt \<and> pr_pending q = None \<or> (\<exists>p. bm_get (en_peers e) d = Some p \<and> same_peer p q)"
    if q: "bm_get (en_peers (enroll sh rng outcome key e)) d = Some q" for d q
  proof -
    have "pr_received q = default_receipt \<and> pr_pending q = None \<or> bm_get (enroll_peers rng key e) d = Some q"
      using q by (auto simp: enroll_def Let_def new_peer_def reset_peer_def bm_get_update bm_get_insert
          split: if_splits prod.splits)
    moreover have "\<exists>p. bm_get (en_peers e) d = Some p \<and> same_peer p q"
      if enrolled: "bm_get (enroll_peers rng key e) d = Some q"
    proof -
      obtain p inc where p: "bm_get (en_peers e) d = Some p" "q = p\<lparr>pr_incarnation := inc\<rparr>"
        using enroll_peers_get[OF enrolled] by blast
      have "same_peer p (p\<lparr>pr_incarnation := inc\<rparr>)" by (simp add: same_peer_def)
      then show ?thesis using p by blast
    qed
    ultimately show ?thesis by blast
  qed
  then show ?thesis
    by (simp add: same_data_def enroll_frame) (simp add: enroll_def Let_def split: prod.splits)
qed

lemma chore_same: "chore se cg e e' \<Longrightarrow> same_data e e'"
proof (induction rule: chore.induct)
  case (3 inbox e e')
  then have "foldR process_receipt e (ib_receipts inbox) = Inr e'"
    by (auto simp: acknowledge_op_def split: if_splits)
  then show ?case
    by (rule foldR_invariant) (auto intro: same_data_refl same_data_trans process_same)
next
  case (12 found e moved e')
  then show ?case
    by (auto simp: hint_op_def Let_def same_peer_def intro!: same_data_update)
next
  case (14 sh rng outcome key e e')
  then show ?case using enroll_same by (auto simp: commit_op_def)
next
  case (1 e e')
  then show ?case by (auto simp: start_op_def intro!: same_data_refl)
next
  case (2 phase e e')
  then show ?case by (auto simp: stop_op_def intro!: same_data_refl split: if_splits)
next
  case (13 sh outcome e e')
  then show ?case by (auto simp: prepare_op_def intro!: same_data_refl)
next
  case (15 e snapshots)
  then show ?case by (auto intro!: same_data_refl)
qed (auto simp: acknowledge_peer_op_def transmitted_op_def acked_op_def acked_peer_def remove_op_def
    pause_peer_op_def resume_peer_op_def unreachable_op_def remember_op_def Let_def with_peer_def
    same_peer_def advance_processed_def intro!: same_data_update split: if_splits)

lemma session_op_ok:
  "op_keeps (session_ok cg) f \<Longrightarrow> session_ok cg e \<Longrightarrow> f e = Inr (r, e') \<Longrightarrow> session_ok cg e'"
  unfolding op_keeps_def by blast

lemma chore_ok: "chore se cg e e' \<Longrightarrow> session_ok cg e \<Longrightarrow> session_ok cg e'"
  by (induction rule: chore.induct)
    ((rule session_op_ok, rule op_keeps, assumption, assumption) | (rule durable.recovery, assumption))+

section \<open>The mesh\<close>

datatype parcel =
    Greeting string string managed_receipt
  | Granted string peer managed_receipt
  | Batch string string export_batch

record mesh =
  mh_nodes :: "string \<Rightarrow> envelope_body"
  mh_flight :: "parcel set"

definition mesh_put :: "string \<Rightarrow> envelope_body \<Rightarrow> parcel set \<Rightarrow> mesh \<Rightarrow> mesh" where
  "mesh_put d e ps m = \<lparr>mh_nodes = (mh_nodes m)(d := e), mh_flight = mh_flight m \<union> ps\<rparr>"

inductive mesh_step ::
  "(string \<Rightarrow> session_env) \<Rightarrow> (string \<Rightarrow> session_config) \<Rightarrow> mesh \<Rightarrow> mesh \<Rightarrow> bool"
  for ses cgs where
  mesh_chore: "chore (ses d) (cgs d) (mh_nodes m d) e \<Longrightarrow> mesh_step ses cgs m (mesh_put d e {} m)"
| mesh_write: "write_op (cgs d) adapter ident value deleted (mh_nodes m d) = Inr ((), e) \<Longrightarrow>
    mesh_step ses cgs m (mesh_put d e {} m)"
| mesh_greet: "bm_get (en_peers (mh_nodes m b)) a = Some p \<Longrightarrow>
    mesh_step ses cgs m (mesh_put b (mh_nodes m b) {Greeting b a (pr_received p)} m)"
| mesh_admit: "Greeting (id_device i) a r \<in> mh_flight m \<Longrightarrow>
    authenticate_op (ses a) sh fp i metadata r processed addresses (mh_nodes m a) = Inr ((p, cursor), e) \<Longrightarrow>
    mesh_step ses cgs m (mesh_put a e {Granted a p cursor} m)"
| mesh_export: "Granted a p cursor \<in> mh_flight m \<Longrightarrow>
    export_op (ses a) (cgs a) sh p cursor (mh_nodes m a) = Inr (batch, e) \<Longrightarrow>
    mesh_step ses cgs m (mesh_put a e {Batch a (id_device (pr_identity p)) batch} m)"
| mesh_receive: "Batch (id_device (pr_identity sender)) b batch \<in> mh_flight m \<Longrightarrow>
    receive_op (cgs b) sh token sender batch (mh_nodes m b) = Inr (ack, e) \<Longrightarrow>
    mesh_step ses cgs m (mesh_put b e {} m)"
| mesh_resolve: "resolve_op (cgs b) preview decision (mh_nodes m b) = Inr ((), e) \<Longrightarrow>
    mesh_step ses cgs m (mesh_put b e {} m)"

text \<open>One app on every device: the same record keys and adapter ids, all plain record adapters.\<close>

definition one_app :: "(string \<Rightarrow> session_config) \<Rightarrow> bool" where
  "one_app cgs \<longleftrightarrow> (\<forall>d. records_app (cgs d)) \<and>
     (\<forall>d d'. cg_record_key (cgs d) = cg_record_key (cgs d') \<and>
        (\<forall>a. bm_has (cg_adapters (cgs d)) a = bm_has (cg_adapters (cgs d')) a))"

text \<open>Devices start without records, with peers they have exchanged nothing with.\<close>

definition mesh_start :: "(string \<Rightarrow> session_config) \<Rightarrow> mesh \<Rightarrow> bool" where
  "mesh_start cgs m \<longleftrightarrow> mh_flight m = {} \<and>
     (\<forall>d. session_ok (cgs d) (mh_nodes m d) \<and> id_device (en_identity (mh_nodes m d)) = d \<and>
        en_epoch (mh_nodes m d) \<noteq> '''' \<and> en_records (mh_nodes m d) = [] \<and>
        (\<forall>q p. bm_get (en_peers (mh_nodes m d)) q = Some p \<longrightarrow>
           pr_received p = default_receipt \<and> pr_pending p = None))"

inductive mesh_run ::
  "(string \<Rightarrow> session_env) \<Rightarrow> (string \<Rightarrow> session_config) \<Rightarrow> mesh \<Rightarrow> bool"
  for ses cgs where
  mesh_begin: "mesh_start cgs m \<Longrightarrow> mesh_run ses cgs m"
| mesh_go: "mesh_run ses cgs m \<Longrightarrow> mesh_step ses cgs m m' \<Longrightarrow> mesh_run ses cgs m'"

section \<open>The invariant\<close>

text \<open>
  \<open>received_ok B A r\<close>: a receipt of \<open>A\<close> held by \<open>B\<close> covers records \<open>B\<close> has stored. \<open>batch_ok B A
  cg batch\<close>: once \<open>B\<close> applies it, \<open>B\<close> is covered up to its checkpoint.
\<close>

definition covered :: "envelope_body \<Rightarrow> envelope_body \<Rightarrow> string \<Rightarrow> managed_record \<Rightarrow> managed_receipt \<Rightarrow> bool" where
  "covered B A k x r \<longleftrightarrow> (bm_get (en_records A) k = Some x \<and> record_sequence A k \<le> mr_sequence r \<longrightarrow>
     stored_after B k x)"

definition received_ok :: "envelope_body \<Rightarrow> envelope_body \<Rightarrow> managed_receipt \<Rightarrow> bool" where
  "received_ok B A r \<longleftrightarrow>
     (mr_epoch r = en_epoch A \<longrightarrow> mr_sequence r \<le> en_revision A \<and> (\<forall>k x. covered B A k x r))"

definition batch_ok :: "session_config \<Rightarrow> envelope_body \<Rightarrow> envelope_body \<Rightarrow> export_batch \<Rightarrow> bool" where
  "batch_ok cg B A batch \<longleftrightarrow>
     mr_epoch (eb_checkpoint batch) = en_epoch A \<and> mr_sequence (eb_checkpoint batch) \<le> en_revision A \<and>
     (\<forall>x\<in>set (eb_records batch). bm_has (cg_adapters cg) (mg_adapter x) \<and>
        (\<exists>k. cg_record_key cg (mg_adapter x) (mg_id x) = Inr k \<and> stored_after A k x)) \<and>
     (\<forall>k x. covered B A k x (eb_checkpoint batch) \<or>
        (\<exists>y\<in>set (eb_records batch). cg_record_key cg (mg_adapter y) (mg_id y) = Inr k \<and> mg_clock x \<le> mg_clock y))"

definition origins_ok :: "envelope_body \<Rightarrow> string \<Rightarrow> envelope_body \<Rightarrow> bool" where
  "origins_ok B b A \<longleftrightarrow>
     (\<forall>k x. bm_get (en_records A) k = Some x \<longrightarrow> bm_get (en_origins A) k = Some b \<longrightarrow> stored_after B k x)"

definition node_ok :: "(string \<Rightarrow> session_config) \<Rightarrow> string \<Rightarrow> envelope_body \<Rightarrow> bool" where
  "node_ok cgs d e \<longleftrightarrow> session_ok (cgs d) e \<and> id_device (en_identity e) = d \<and> en_epoch e \<noteq> '''' \<and>
     (\<forall>k x. bm_get (en_records e) k = Some x \<longrightarrow> bm_has (cg_adapters (cgs d)) (mg_adapter x))"

fun parcel_ok :: "(string \<Rightarrow> session_config) \<Rightarrow> (string \<Rightarrow> envelope_body) \<Rightarrow> parcel \<Rightarrow> bool" where
  "parcel_ok cgs n (Greeting b a r) = received_ok (n b) (n a) r"
| "parcel_ok cgs n (Granted a p r) = received_ok (n (id_device (pr_identity p))) (n a) r"
| "parcel_ok cgs n (Batch a b batch) = (a \<noteq> b \<and> batch_ok (cgs b) (n b) (n a) batch)"

fun parcel_records :: "parcel \<Rightarrow> managed_record list" where
  "parcel_records (Batch a b batch) = eb_records batch"
| "parcel_records _ = []"

definition peers_covered :: "mesh \<Rightarrow> string \<Rightarrow> envelope_body \<Rightarrow> bool" where
  "peers_covered m b e \<longleftrightarrow>
     (\<forall>a p. bm_get (en_peers e) a = Some p \<longrightarrow> a \<noteq> b \<longrightarrow> received_ok e (mh_nodes m a) (pr_received p)) \<and>
     (\<forall>a p v. bm_get (en_peers e) a = Some p \<longrightarrow> pr_pending p = Some v \<longrightarrow> Batch a b (bp_batch v) \<in> mh_flight m)"

text \<open>Every record anywhere; a clock stands for one record, by a device that has counted that far.\<close>

definition mesh_records :: "mesh \<Rightarrow> managed_record set" where
  "mesh_records m = {x. (\<exists>d k. bm_get (en_records (mh_nodes m d)) k = Some x) \<or>
     (\<exists>p\<in>mh_flight m. x \<in> set (parcel_records p))}"

definition clocks_ok :: "mesh \<Rightarrow> bool" where
  "clocks_ok m \<longleftrightarrow> clock_determines (\<lambda>x. (mg_adapter x, mg_id x)) mg_clock (mesh_records m) \<and>
     (\<forall>x\<in>mesh_records m. clk_counter (mg_clock x) \<le>
        max_counter (bm_values (en_records (mh_nodes m (clk_device (mg_clock x))))))"

definition mesh_ok :: "(string \<Rightarrow> session_config) \<Rightarrow> mesh \<Rightarrow> bool" where
  "mesh_ok cgs m \<longleftrightarrow>
     (\<forall>d. node_ok cgs d (mh_nodes m d) \<and> peers_covered m d (mh_nodes m d)) \<and>
     (\<forall>a b. origins_ok (mh_nodes m b) b (mh_nodes m a)) \<and>
     (\<forall>p\<in>mh_flight m. parcel_ok cgs (mh_nodes m) p) \<and> clocks_ok m"

lemma mesh_okD:
  assumes "mesh_ok cgs m"
  shows "node_ok cgs d (mh_nodes m d)" "peers_covered m d (mh_nodes m d)"
    "origins_ok (mh_nodes m b) b (mh_nodes m a)"
    "p \<in> mh_flight m \<Longrightarrow> parcel_ok cgs (mh_nodes m) p" "clocks_ok m"
  using assms by (auto simp: mesh_ok_def)

section \<open>Monotonicity\<close>

lemma covered_mono:
  assumes "covered B A k x r" and "mr_sequence r \<le> en_revision A"
    and B: "advances B B' f" and A: "advances A A' g"
  shows "covered B' A' k x r"
  unfolding covered_def
proof (intro impI, elim conjE)
  assume x: "bm_get (en_records A') k = Some x" and le: "record_sequence A' k \<le> mr_sequence r"
  then have "\<not> en_revision A < record_sequence A' k" using assms(2) by (meson le_less_trans not_less order_trans)
  then have "bm_get (en_records A) k = Some x" "record_sequence A k \<le> mr_sequence r"
    using advancesD[OF A, of k] x le by auto
  then show "stored_after B' k x"
    using assms(1) advances_stored[OF B] by (auto simp: covered_def)
qed

lemma received_ok_mono:
  assumes "received_ok B A r" and B: "advances B B' f" and A: "advances A A' g" and "en_epoch A' = en_epoch A"
  shows "received_ok B' A' r"
proof -
  have "en_revision A \<le> en_revision A'" using A by (simp add: advances_def)
  then show ?thesis
    using assms(1,4) covered_mono[OF _ _ B A] by (auto simp: received_ok_def)
qed

lemma batch_ok_mono:
  assumes "batch_ok cg B A batch" and B: "advances B B' f" and A: "advances A A' g" and "en_epoch A' = en_epoch A"
  shows "batch_ok cg B' A' batch"
proof -
  have r: "mr_sequence (eb_checkpoint batch) \<le> en_revision A" using assms(1) by (simp add: batch_ok_def)
  moreover have "en_revision A \<le> en_revision A'" using A by (simp add: advances_def)
  ultimately have "mr_sequence (eb_checkpoint batch) \<le> en_revision A'" by (rule order_trans)
  then show ?thesis
    using assms(1,4) covered_mono[OF _ r B A] advances_stored[OF A] unfolding batch_ok_def by metis
qed

section \<open>A step keeps the invariant\<close>

lemma mesh_put_simps [simp]:
  "mh_nodes (mesh_put d e ps m) = (mh_nodes m)(d := e)" "mh_flight (mesh_put d e ps m) = mh_flight m \<union> ps"
  by (simp_all add: mesh_put_def)

lemma node_okD:
  assumes "node_ok cgs d e"
  shows "session_ok (cgs d) e" "body_ok (cgs d) e" "id_device (en_identity e) = d" "en_epoch e \<noteq> ''''"
    "bm_get (en_records e) k = Some x \<Longrightarrow> bm_has (cg_adapters (cgs d)) (mg_adapter x)"
    "bm_get (en_peers e) a = Some p \<Longrightarrow> a \<noteq> d"
  using assms by (auto simp: node_ok_def session_ok_def peers_ok_def)

lemma one_appD:
  assumes "one_app cgs"
  shows "records_app (cgs d)" "cg_record_key (cgs d) = cg_record_key (cgs d')"
    "bm_has (cg_adapters (cgs d)) a = bm_has (cg_adapters (cgs d')) a"
  using assms by (auto simp: one_app_def)

lemma mesh_ok_put:
  assumes m: "mesh_ok cgs m" and node: "node_ok cgs d e" and epoch: "en_epoch e = en_epoch (mh_nodes m d)"
    and adv: "advances (mh_nodes m d) e (\<lambda>k q x. \<forall>b. q = Some b \<longrightarrow> stored_after (mh_nodes m b) k x)"
    and peers: "peers_covered (mesh_put d e ps m) d e"
    and parcels: "\<And>p. p \<in> ps \<Longrightarrow> parcel_ok cgs ((mh_nodes m)(d := e)) p"
    and clocks: "clocks_ok (mesh_put d e ps m)"
  shows "mesh_ok cgs (mesh_put d e ps m)"
proof -
  let ?n = "mh_nodes m" and ?n' = "(mh_nodes m)(d := e)"
  define f where "f c = (if c = d then (\<lambda>k q x. \<forall>b. q = Some b \<longrightarrow> stored_after (?n b) k x) else (\<lambda>_ _ _. False))" for c
  have adv': "advances (?n c) (?n' c) (f c)" for c
    using adv advances_refl by (simp add: f_def)
  have epoch': "en_epoch (?n' c) = en_epoch (?n c)" for c using epoch by simp
  have kept: "peers_covered (mesh_put d e ps m) c (?n' c)" if c: "c \<noteq> d" for c
    unfolding peers_covered_def
  proof (intro conjI allI impI)
    fix a p assume p: "bm_get (en_peers (?n' c)) a = Some p" "a \<noteq> c"
    then have "received_ok (?n c) (?n a) (pr_received p)"
      using mesh_okD(2)[OF m, of c] c by (simp add: peers_covered_def)
    from received_ok_mono[OF this adv' adv' epoch']
    show "received_ok (?n' c) (mh_nodes (mesh_put d e ps m) a) (pr_received p)" by simp
  next
    fix a p v assume "bm_get (en_peers (?n' c)) a = Some p" "pr_pending p = Some v"
    then show "Batch a c (bp_batch v) \<in> mh_flight (mesh_put d e ps m)"
      using mesh_okD(2)[OF m, of c] c by (simp add: peers_covered_def)
  qed
  have p: "peers_covered (mesh_put d e ps m) c (?n' c)" for c using peers kept[of c] by (cases "c = d") simp_all
  have "origins_ok (?n' b) b (?n' a)" for a b
    unfolding origins_ok_def
  proof (intro allI impI)
    fix k x assume x: "bm_get (en_records (?n' a)) k = Some x" and b: "bm_get (en_origins (?n' a)) k = Some b"
    then have "stored_after (?n b) k x"
      using advancesD[OF adv'[of a], of k] mesh_okD(3)[OF m, of b a]
      by (auto simp: f_def origins_ok_def split: if_splits)
    then show "stored_after (?n' b) k x" by (rule advances_stored[OF adv'])
  qed
  moreover have "parcel_ok cgs ?n' p" if "p \<in> mh_flight m" for p
    using mesh_okD(4)[OF m that]
    by (cases p) (auto simp del: fun_upd_apply intro: received_ok_mono[OF _ adv' adv' epoch']
        batch_ok_mono[OF _ adv' adv' epoch'])
  moreover have "node_ok cgs c (?n' c)" for c using mesh_okD(1)[OF m, of c] node by simp
  ultimately show ?thesis using p parcels clocks by (auto simp: mesh_ok_def)
qed

text \<open>The clocks survive when nothing new is stored or sent.\<close>

lemma clocks_ok_put:
  assumes c: "clocks_ok m" and ok: "bm_ok (en_records (mh_nodes m d))"
    and adv: "advances (mh_nodes m d) e f"
    and new: "\<And>k x. bm_get (en_records e) k = Some x \<Longrightarrow> x \<in> mesh_records m"
    and sent: "\<And>p x. p \<in> ps \<Longrightarrow> x \<in> set (parcel_records p) \<Longrightarrow> x \<in> mesh_records m"
  shows "clocks_ok (mesh_put d e ps m)"
proof -
  have sub: "mesh_records (mesh_put d e ps m) \<subseteq> mesh_records m"
  proof
    fix x assume "x \<in> mesh_records (mesh_put d e ps m)"
    then consider (at) c k where "bm_get (en_records (((mh_nodes m)(d := e)) c)) k = Some x"
      | (old) p where "p \<in> mh_flight m" "x \<in> set (parcel_records p)"
      | (sent) p where "p \<in> ps" "x \<in> set (parcel_records p)"
      unfolding mesh_records_def by (simp del: fun_upd_apply) blast
    then show "x \<in> mesh_records m"
    proof cases
      case at
      then show ?thesis using new by (cases "c = d") (auto simp: mesh_records_def)
    next
      case old
      then show ?thesis by (auto simp: mesh_records_def)
    qed (rule sent)
  qed
  have count: "max_counter (bm_values (en_records (mh_nodes m c))) \<le>
      max_counter (bm_values (en_records (mh_nodes (mesh_put d e ps m) c)))" for c
    using advances_counter[OF adv ok] by simp
  show ?thesis
    unfolding clocks_ok_def
  proof (intro conjI ballI)
    show "clock_determines (\<lambda>x. (mg_adapter x, mg_id x)) mg_clock (mesh_records (mesh_put d e ps m))"
      by (rule clock_determines_subset[OF _ sub]) (use c in \<open>simp add: clocks_ok_def\<close>)
    fix x assume "x \<in> mesh_records (mesh_put d e ps m)"
    then have "clk_counter (mg_clock x) \<le>
        max_counter (bm_values (en_records (mh_nodes m (clk_device (mg_clock x)))))"
      using c sub by (auto simp: clocks_ok_def)
    then show "clk_counter (mg_clock x) \<le>
        max_counter (bm_values (en_records (mh_nodes (mesh_put d e ps m) (clk_device (mg_clock x)))))"
      using count by (rule order_trans)
  qed
qed

lemma received_default: "en_epoch A \<noteq> '''' \<Longrightarrow> received_ok B A default_receipt"
  by (simp add: received_ok_def default_receipt_def)

lemma mesh_record_at: "bm_get (en_records (mh_nodes m d)) k = Some x \<Longrightarrow> x \<in> mesh_records m"
  by (auto simp: mesh_records_def)

lemma mesh_record_sent: "p \<in> mh_flight m \<Longrightarrow> x \<in> set (parcel_records p) \<Longrightarrow> x \<in> mesh_records m"
  by (auto simp: mesh_records_def)

text \<open>A device does something that leaves its records alone, and may send parcels.\<close>

lemma mesh_ok_same:
  assumes m: "mesh_ok cgs m" and same: "same_data (mh_nodes m d) e" and ok: "session_ok (cgs d) e"
    and parcels: "\<And>p. p \<in> ps \<Longrightarrow> parcel_ok cgs ((mh_nodes m)(d := e)) p"
    and sent: "\<And>p x. p \<in> ps \<Longrightarrow> x \<in> set (parcel_records p) \<Longrightarrow> x \<in> mesh_records m"
  shows "mesh_ok cgs (mesh_put d e ps m)"
proof (rule mesh_ok_put[OF m])
  let ?e = "mh_nodes m d"
  note node = mesh_okD(1)[OF m, of d]
  have eq: "en_records e = en_records ?e" "en_sequences e = en_sequences ?e" "en_origins e = en_origins ?e"
    "en_revision e = en_revision ?e" "en_epoch e = en_epoch ?e" "en_identity e = en_identity ?e"
    using same by (simp_all add: same_data_def)
  have adv: "advances ?e e f" for f by (rule advances_frame[OF advances_refl]) (simp_all add: eq)
  then show "advances ?e e (\<lambda>k q x. \<forall>b. q = Some b \<longrightarrow> stored_after (mh_nodes m b) k x)" .
  show "node_ok cgs d e" using node ok by (auto simp: node_ok_def eq)
  show "en_epoch e = en_epoch ?e" by (rule eq)
  show "peers_covered (mesh_put d e ps m) d e"
    unfolding peers_covered_def
  proof (intro conjI allI impI)
    fix a q assume q: "bm_get (en_peers e) a = Some q" and ne: "a \<noteq> d"
    have def: "received_ok e (mh_nodes m a) default_receipt"
      by (rule received_default) (use node_okD(4)[OF mesh_okD(1)[OF m]] in blast)
    have "received_ok e (mh_nodes m a) (pr_received p)" if "bm_get (en_peers ?e) a = Some p" for p
      using mesh_okD(2)[OF m, of d] that ne received_ok_mono[OF _ adv advances_refl refl]
      by (auto simp: peers_covered_def)
    then show "received_ok e (mh_nodes (mesh_put d e ps m) a) (pr_received q)"
      using same q def ne unfolding same_data_def same_peer_def by simp metis
  next
    fix a q v assume "bm_get (en_peers e) a = Some q" "pr_pending q = Some v"
    then obtain p where "bm_get (en_peers ?e) a = Some p" "pr_pending p = Some v"
      using same unfolding same_data_def same_peer_def by (metis option.distinct(1))
    then show "Batch a d (bp_batch v) \<in> mh_flight (mesh_put d e ps m)"
      using mesh_okD(2)[OF m, of d] by (simp add: peers_covered_def)
  qed
  show "clocks_ok (mesh_put d e ps m)"
    by (rule clocks_ok_put[OF mesh_okD(5)[OF m] _ adv])
      (use node_okD(2)[OF node] in \<open>auto simp: body_ok_def eq intro: mesh_record_at sent\<close>)
qed (rule parcels)

lemma mesh_ok_chore:
  assumes "mesh_ok cgs m" and "chore (ses d) (cgs d) (mh_nodes m d) e"
  shows "mesh_ok cgs (mesh_put d e {} m)"
  using chore_same[OF assms(2)] chore_ok[OF assms(2) node_okD(1)[OF mesh_okD(1)[OF assms(1)]]]
  by (intro mesh_ok_same[OF assms(1)]) auto

lemma mesh_ok_greet:
  assumes "mesh_ok cgs m" and p: "bm_get (en_peers (mh_nodes m b)) a = Some p"
  shows "mesh_ok cgs (mesh_put b (mh_nodes m b) {Greeting b a (pr_received p)} m)"
proof (rule mesh_ok_same[OF assms(1)])
  note node = mesh_okD(1)[OF assms(1), of b]
  show "same_data (mh_nodes m b) (mh_nodes m b)" by (rule same_data_refl) simp_all
  show "session_ok (cgs b) (mh_nodes m b)" by (rule node_okD(1)[OF node])
  have "a \<noteq> b" by (rule node_okD(6)[OF node p])
  then show "parcel_ok cgs ((mh_nodes m)(b := mh_nodes m b)) q" if "q \<in> {Greeting b a (pr_received p)}" for q
    using that p mesh_okD(2)[OF assms(1), of b] by (simp add: peers_covered_def)
qed simp

lemma mesh_ok_admit:
  assumes m: "mesh_ok cgs m" and g: "Greeting (id_device i) a r \<in> mh_flight m"
    and op: "authenticate_op se sh fp i metadata r processed addresses (mh_nodes m a) = Inr ((p, cursor), e)"
  shows "mesh_ok cgs (mesh_put a e {Granted a p cursor} m)"
proof (rule mesh_ok_same[OF m])
  let ?e = "mh_nodes m a"
  note node = mesh_okD(1)[OF m, of a]
  obtain current where cur: "bm_get (en_peers ?e) (id_device i) = Some current"
    and check: "peer_check sh i fp ?e = Inr ()"
    and p: "p = present_peer addresses metadata current \<or>
      p = present_peer addresses metadata (advance_proven processed current)"
    and cursor: "cursor = vetted_cursor se ?e current r"
    and e: "e = ?e\<lparr>en_peers := bm_update (id_device i) (\<lambda>_. p) (en_peers ?e)\<rparr>"
    using op by (auto simp: authenticate_op_def Let_def)
  have sp: "same_peer current p" "pr_identity p = pr_identity current"
    using p by (auto simp: same_peer_def present_peer_def advance_proven_def)
  then show same: "same_data ?e e"
    using cur by (auto simp: same_data_def e bm_get_update split: if_splits)
  show "session_ok (cgs a) e"
    by (rule session_op_ok[OF authenticate_keeps node_okD(1)[OF node] op])
  have id: "id_device (pr_identity p) = id_device i"
    using check cur sp(2) by (auto simp: peer_check_Inr)
  have ne: "id_device i \<noteq> a" by (rule node_okD(6)[OF node cur])
  have adv: "advances ?e e f" for f
    by (rule advances_frame[OF advances_refl]) (simp_all add: e)
  have "received_ok (mh_nodes m (id_device i)) ?e r" using mesh_okD(4)[OF m g] by simp
  moreover have "received_ok (mh_nodes m (id_device i)) ?e default_receipt"
    by (rule received_default) (rule node_okD(4)[OF node])
  ultimately have "received_ok (mh_nodes m (id_device i)) ?e cursor"
    by (simp add: cursor vetted_cursor_def)
  then have "received_ok (mh_nodes m (id_device i)) e cursor"
    by (rule received_ok_mono[OF _ advances_refl adv]) (simp add: e)
  then show "parcel_ok cgs ((mh_nodes m)(a := e)) q" if "q \<in> {Granted a p cursor}" for q
    using that ne by (simp add: id)
qed simp

lemma export_loop_set:
  assumes "records_app cg"
  shows "export_loop rs ps = Inr out \<Longrightarrow> set ps \<subseteq> set (cg_adapters cg) \<Longrightarrow>
    set out = {r \<in> set rs. mg_adapter r \<in> fst ` set ps}"
proof (induction ps arbitrary: out)
  case (Cons p ps)
  obtain a x where p: "p = (a, x)" by (cases p)
  have "(a, x) \<in> set (cg_adapters cg)" using Cons.prems(2) p by simp
  then obtain fresh d where "x = records_adapter fresh d" by (rule records_appD[OF assms])
  then have "ma_export x (of_adapter a rs) = Inr (of_adapter a rs)"
    by (simp add: records_adapter_def default_adapter_def)
  then obtain more where "export_loop rs ps = Inr more" "out = of_adapter a rs @ more"
    using Cons.prems(1) p by (auto simp: Let_def split: if_splits)
  with Cons.IH[of more] Cons.prems(2) p show ?case by (auto simp: of_adapter_def)
qed simp

lemma mesh_ok_export:
  assumes app: "one_app cgs" and m: "mesh_ok cgs m" and g: "Granted a p cursor \<in> mh_flight m"
    and op: "export_op se (cgs a) sh p cursor (mh_nodes m a) = Inr (batch, e)"
  shows "mesh_ok cgs (mesh_put a e {Batch a (id_device (pr_identity p)) batch} m)"
proof -
  let ?A = "mh_nodes m a" and ?b = "id_device (pr_identity p)" and ?cg = "cgs a"
  let ?B = "mh_nodes m ?b"
  note node = mesh_okD(1)[OF m, of a]
  have body: "body_ok ?cg ?A" by (rule node_okD(2)[OF node])
  obtain q records where e: "e = ?A" and check: "peer_check sh (pr_identity p) (pr_fingerprint p) ?A = Inr ()"
    and mint: "receipt_mint (se_receipts se) (se_storage_key se) ?A q = Inr (eb_checkpoint batch)"
    and exp: "export_records ?cg (export_selected ?b cursor ?A) = Inr (eb_records batch)"
    using op by (auto simp: export_op_def Let_def)
  have cp: "mr_epoch (eb_checkpoint batch) = en_epoch ?A" "mr_sequence (eb_checkpoint batch) = en_revision ?A"
    using mint by (auto simp: receipt_mint_def Let_def dest!: sym[of _ "eb_checkpoint batch"])
  have ne: "a \<noteq> ?b" using check node_okD(6)[OF node] by (auto simp: peer_check_Inr)
  have key: "cg_record_key ?cg (mg_adapter x) (mg_id x) = Inr k" if "bm_get (en_records ?A) k = Some x" for k x
    using body that unfolding body_ok_def by blast
  have sorted: "bm_ok (en_records ?A)" using body by (simp add: body_ok_def)
  have sel: "x \<in> set (eb_records batch) \<longleftrightarrow> bm_has (cg_adapters ?cg) (mg_adapter x) \<and>
      (\<exists>k. bm_get (en_records ?A) k = Some x \<and> (export_full cursor ?A \<or>
         mr_sequence cursor < record_sequence ?A k \<and> bm_get (en_origins ?A) k \<noteq> Some ?b))" for x
    using export_loop_set[OF one_appD(1)[OF app] exp[unfolded export_records_def] order_refl]
    by (auto simp: export_selected_def bm_has_iff bm.entries_iff[OF sorted] image_iff)
  have "batch_ok (cgs ?b) ?B ?A batch"
    unfolding batch_ok_def
  proof (intro conjI ballI allI)
    fix x assume "x \<in> set (eb_records batch)"
    then obtain k where k: "bm_get (en_records ?A) k = Some x" and h: "bm_has (cg_adapters ?cg) (mg_adapter x)"
      using sel by blast
    show "bm_has (cg_adapters (cgs ?b)) (mg_adapter x)" using h one_appD(3)[OF app, of a] by blast
    show "\<exists>k. cg_record_key (cgs ?b) (mg_adapter x) (mg_id x) = Inr k \<and> stored_after ?A k x"
      using key[OF k] stored_self[OF k] one_appD(2)[OF app, of a ?b] by auto
  next
    fix k x
    show "covered ?B ?A k x (eb_checkpoint batch) \<or> (\<exists>y\<in>set (eb_records batch).
        cg_record_key (cgs ?b) (mg_adapter y) (mg_id y) = Inr k \<and> mg_clock x \<le> mg_clock y)"
    proof (cases "bm_get (en_records ?A) k = Some x \<and> x \<notin> set (eb_records batch)")
      case True
      then have "\<not> export_full cursor ?A \<and> (record_sequence ?A k \<le> mr_sequence cursor \<or>
          bm_get (en_origins ?A) k = Some ?b)"
        using sel node_okD(5)[OF node] by (auto simp: not_less)
      moreover have "covered ?B ?A k x cursor" if "mr_epoch cursor = en_epoch ?A"
        using mesh_okD(4)[OF m g] that by (simp add: received_ok_def)
      ultimately have "stored_after ?B k x"
        using mesh_okD(3)[OF m, of ?b a] True by (auto simp: export_full_def covered_def origins_ok_def)
      then show ?thesis by (simp add: covered_def)
    next
      case False
      then show ?thesis
        using key one_appD(2)[OF app, of a ?b] by (auto simp: covered_def)
    qed
  qed (simp_all add: cp)
  then have ok: "parcel_ok cgs ((mh_nodes m)(a := e)) (Batch a ?b batch)" using ne e by simp
  have src: "x \<in> mesh_records m" if "x \<in> set (eb_records batch)" for x
    using that sel mesh_record_at by blast
  show ?thesis
    by (rule mesh_ok_same[OF m])
      (use ok src node_okD(1)[OF node] e in \<open>auto intro!: same_data_refl\<close>)
qed

text \<open>Applying a batch that was sent.\<close>

lemma mesh_ok_apply:
  assumes app: "one_app cgs" and m: "mesh_ok cgs m" and g: "Batch a b batch \<in> mh_flight m"
    and op: "apply_batch (cgs b) batch a (mh_nodes m b) = Inr e"
  shows "mesh_ok cgs (mesh_put b e {} m)"
proof (rule mesh_ok_put[OF m])
  let ?B = "mh_nodes m b" and ?A = "mh_nodes m a"
  note node = mesh_okD(1)[OF m, of b]
  note body = node_okD(2)[OF node]
  note adv = apply_advances(1)[OF one_appD(1)[OF app] body op]
  note frame = apply_advances(3)[OF one_appD(1)[OF app] body op]
  have ne: "a \<noteq> b" and bok: "batch_ok (cgs b) ?B ?A batch" using mesh_okD(4)[OF m g] by simp_all
  have stored: "stored_after e k y" if "y \<in> set (eb_records batch)"
    "cg_record_key (cgs b) (mg_adapter y) (mg_id y) = Inr k" for k y
    using apply_advances(2)[OF one_appD(1)[OF app] body op that(1)] bok that by (auto simp: batch_ok_def)
  show "node_ok cgs b e"
    using node apply_keeps[OF node_okD(1)[OF node] op] frame advancesD[OF adv] unfolding node_ok_def
    by (metis option.inject)
  show "en_epoch e = en_epoch ?B" using frame by simp
  show "advances ?B e (\<lambda>k q x. \<forall>c. q = Some c \<longrightarrow> stored_after (mh_nodes m c) k x)"
  proof -
    have "stored_after ?A k x" if "x \<in> set (eb_records batch)"
      "cg_record_key (cgs b) (mg_adapter x) (mg_id x) = Inr k" for k x
      using bok that unfolding batch_ok_def by auto
    then show ?thesis using adv unfolding advances_def by (metis (no_types, lifting) option.inject)
  qed
  have reached: "received_ok e ?A (eb_checkpoint batch)"
  proof -
    have "covered e ?A k x (eb_checkpoint batch)" for k x
    proof -
      consider "covered ?B ?A k x (eb_checkpoint batch)" | y where "y \<in> set (eb_records batch)"
        "cg_record_key (cgs b) (mg_adapter y) (mg_id y) = Inr k" "mg_clock x \<le> mg_clock y"
        using bok unfolding batch_ok_def by blast
      then show ?thesis
      proof cases
        case 1
        then show ?thesis using advances_stored[OF adv] by (auto simp: covered_def)
      next
        case 2
        then show ?thesis using stored[OF 2(1,2)] by (auto simp: covered_def stored_after_def intro: order_trans)
      qed
    qed
    then show ?thesis using bok by (simp add: received_ok_def batch_ok_def)
  qed
  show "peers_covered (mesh_put b e {} m) b e"
    unfolding peers_covered_def
  proof (intro conjI allI impI)
    fix c p assume p: "bm_get (en_peers e) c = Some p" and cb: "c \<noteq> b"
    show "received_ok e (mh_nodes (mesh_put b e {} m) c) (pr_received p)"
    proof (cases "c = a")
      case True
      then show ?thesis using p frame reached ne by (auto simp: bm_get_update)
    next
      case False
      then have "bm_get (en_peers ?B) c = Some p" using p frame by (simp add: bm_get_update)
      then have "received_ok ?B (mh_nodes m c) (pr_received p)"
        using mesh_okD(2)[OF m, of b] cb by (simp add: peers_covered_def)
      then show ?thesis using received_ok_mono[OF _ adv advances_refl refl] cb by simp
    qed
  next
    fix c p v assume "bm_get (en_peers e) c = Some p" "pr_pending p = Some v"
    then have "bm_get (en_peers ?B) c = Some p" using frame by (auto simp: bm_get_update split: if_splits)
    then show "Batch c b (bp_batch v) \<in> mh_flight (mesh_put b e {} m)"
      using mesh_okD(2)[OF m, of b] \<open>pr_pending p = Some v\<close> by (simp add: peers_covered_def)
  qed
  show "clocks_ok (mesh_put b e {} m)"
  proof (rule clocks_ok_put[OF mesh_okD(5)[OF m] _ adv])
    fix k x assume "bm_get (en_records e) k = Some x"
    then show "x \<in> mesh_records m"
      using advancesD[OF adv, of k] mesh_record_at mesh_record_sent[OF g, of x] by auto
  qed (use body in \<open>simp_all add: body_ok_def\<close>)
qed simp

lemma mesh_ok_receive:
  assumes app: "one_app cgs" and m: "mesh_ok cgs m"
    and g: "Batch (id_device (pr_identity sender)) b batch \<in> mh_flight m"
    and op: "receive_op (cgs b) sh token sender batch (mh_nodes m b) = Inr (ack, e)"
  shows "mesh_ok cgs (mesh_put b e {} m)"
proof -
  let ?B = "mh_nodes m b" and ?a = "id_device (pr_identity sender)"
  note node = mesh_okD(1)[OF m, of b]
  have ok: "session_ok (cgs b) e" by (rule session_op_ok[OF receive_keeps node_okD(1)[OF node] op])
  consider (skip) "e = ?B" | (hold) "with_peer ?a (hold_for_review token batch sender ?B) ?B = Inr e"
    | (applied) "apply_batch (cgs b) batch ?a ?B = Inr e"
    using op by (auto simp: receive_op_def Let_def split: if_splits)
  then show ?thesis
  proof cases
    case skip
    then show ?thesis using ok by (intro mesh_ok_same[OF m]) (auto intro: same_data_refl)
  next
    case applied
    then show ?thesis by (rule mesh_ok_apply[OF app m g])
  next
    case hold
    let ?e = "?B\<lparr>en_peers := en_peers e\<rparr>"
    have e: "e = ?B\<lparr>en_peers := bm_update ?a (hold_for_review token batch sender ?B) (en_peers ?B)\<rparr>"
      using hold by (auto simp: with_peer_def)
    have adv: "advances ?B e f" for f by (rule advances_frame[OF advances_refl]) (simp_all add: e)
    have held: "Batch c b (bp_batch v) \<in> mh_flight m"
      if q: "bm_get (en_peers e) c = Some p" "pr_pending p = Some v" for c p v
    proof -
      obtain p0 where p0: "bm_get (en_peers ?B) c = Some p0"
        "p = p0 \<or> c = ?a \<and> p = hold_for_review token batch sender ?B p0"
        using q(1) by (cases "c = ?a") (auto simp: e bm_get_update)
      then have "pr_pending p0 = Some v \<or> c = ?a \<and> bp_batch v = batch"
        using q(2) by (auto simp: hold_for_review_def split: if_splits)
      then show ?thesis
        using g p0(1) mesh_okD(2)[OF m, of b] by (auto simp: peers_covered_def)
    qed
    show ?thesis
    proof (rule mesh_ok_put[OF m _ _ adv])
      show "node_ok cgs b e" using node ok by (simp add: node_ok_def e)
      have "received_ok e (mh_nodes m c) (pr_received p)"
        if q: "bm_get (en_peers e) c = Some p" "c \<noteq> b" for c p
      proof -
        obtain p0 where "bm_get (en_peers ?B) c = Some p0" "pr_received p = pr_received p0"
          using q(1) by (cases "c = ?a") (auto simp: e bm_get_update hold_for_review_def)
        then have "received_ok ?B (mh_nodes m c) (pr_received p)"
          using mesh_okD(2)[OF m, of b] q(2) by (simp add: peers_covered_def)
        then show ?thesis by (rule received_ok_mono[OF _ adv advances_refl refl])
      qed
      then show "peers_covered (mesh_put b e {} m) b e"
        using held by (simp add: peers_covered_def)
      show "clocks_ok (mesh_put b e {} m)"
        by (rule clocks_ok_put[OF mesh_okD(5)[OF m] _ adv])
          (use node_okD(2)[OF node] in \<open>auto simp: body_ok_def e intro: mesh_record_at\<close>)
    qed (simp_all add: e)
  qed
qed

lemma mesh_ok_resolve:
  assumes app: "one_app cgs" and m: "mesh_ok cgs m"
    and op: "resolve_op (cgs b) preview decision (mh_nodes m b) = Inr ((), e)"
  shows "mesh_ok cgs (mesh_put b e {} m)"
proof (cases decision)
  case CancelBatch
  then have "same_data (mh_nodes m b) e"
    using op by (auto simp: resolve_op_def fail_code_def with_peer_def same_peer_def
        intro!: same_data_update split: if_splits)
  moreover have "session_ok (cgs b) e"
    by (rule session_op_ok[OF resolve_keeps node_okD(1)[OF mesh_okD(1)[OF m]] op])
  ultimately show ?thesis by (intro mesh_ok_same[OF m]) auto
next
  case MergeBatch
  then obtain p v where p: "bm_get (en_peers (mh_nodes m b)) (bp_peer preview) = Some p"
      "pr_pending p = Some v" "bp_batch v = bp_batch preview"
    and a: "apply_batch (cgs b) (bp_batch preview) (bp_peer preview) (mh_nodes m b) = Inr e"
    using op by (auto simp: resolve_op_def fail_code_def split: if_splits option.splits)
  have "Batch (bp_peer preview) b (bp_batch preview) \<in> mh_flight m"
    using mesh_okD(2)[OF m, of b] p unfolding peers_covered_def by metis
  from mesh_ok_apply[OF app m this a] show ?thesis .
qed

lemma mesh_ok_write:
  assumes app: "one_app cgs" and m: "mesh_ok cgs m"
    and op: "write_op (cgs d) adapter ident value deleted (mh_nodes m d) = Inr ((), e)"
  shows "mesh_ok cgs (mesh_put d e {} m)"
proof -
  let ?e = "mh_nodes m d"
  note node = mesh_okD(1)[OF m, of d]
  let ?max = "\<lambda>e. max_counter (bm_values (en_records e))"
  obtain r where max: "?max ?e \<noteq> u64_max"
    and clock: "mg_clock r = LamportClock (?max ?e + 1) (id_device (en_identity ?e))"
    and adv: "advances ?e e (\<lambda>k q x. q = None \<and> x = r \<and> bm_has (cg_adapters (cgs d)) (mg_adapter x))"
    and frame: "en_peers e = en_peers ?e" "en_epoch e = en_epoch ?e" "en_identity e = en_identity ?e"
    by (rule write_advances[OF one_appD(1)[OF app] node_okD(2)[OF node] op])
  have ok: "session_ok (cgs d) e" by (rule session_op_ok[OF write_keeps node_okD(1)[OF node] op])
  have dev: "clk_device (mg_clock r) = d" using clock node_okD(3)[OF node] by simp
  show ?thesis
  proof (rule mesh_ok_put[OF m])
    show "node_ok cgs d e"
      using node ok frame advancesD[OF adv] unfolding node_ok_def by (metis option.inject)
    show "advances ?e e (\<lambda>k q x. \<forall>b. q = Some b \<longrightarrow> stored_after (mh_nodes m b) k x)"
      using adv unfolding advances_def by (metis (no_types, lifting) option.distinct(1))
    show "peers_covered (mesh_put d e {} m) d e"
      using mesh_okD(2)[OF m, of d] received_ok_mono[OF _ adv advances_refl refl]
      by (simp add: peers_covered_def frame)
    have sub: "x \<in> mesh_records m \<or> x = r \<and> r \<in> set (bm_values (en_records e))"
      if x: "x \<in> mesh_records (mesh_put d e {} m)" for x
    proof -
      consider c k where "bm_get (en_records (((mh_nodes m)(d := e)) c)) k = Some x"
        | p where "p \<in> mh_flight m" "x \<in> set (parcel_records p)"
        using x unfolding mesh_records_def by (simp del: fun_upd_apply) blast
      then show ?thesis
      proof cases
        case 1
        then show ?thesis
          using advancesD[OF adv, of k] mesh_record_at[of m c k x] mesh_record_at[of m d k x]
          by (cases "c = d") (auto intro: bm_get_in_values)
      qed (auto intro: mesh_record_sent)
    qed
    have count: "?max (mh_nodes m c) \<le> ?max (((mh_nodes m)(d := e)) c)" for c
      using advances_counter[OF adv] node_okD(2)[OF node] by (simp add: body_ok_def)
    have old: "clk_counter (mg_clock x) \<le> ?max (mh_nodes m (clk_device (mg_clock x)))" if "x \<in> mesh_records m" for x
      using mesh_okD(5)[OF m] that by (simp add: clocks_ok_def)
    have fresh: "mg_clock x \<noteq> mg_clock r" if "x \<in> mesh_records m" for x
      using old[OF that] clock dev less_plus_1[OF max] by auto
    have "clock_determines (\<lambda>x. (mg_adapter x, mg_id x)) mg_clock (insert r (mesh_records m))"
      unfolding clock_determines_def
    proof (intro ballI impI)
      fix x y assume "x \<in> insert r (mesh_records m)" "y \<in> insert r (mesh_records m)"
        and "(mg_adapter x, mg_id x) = (mg_adapter y, mg_id y)" "mg_clock x = mg_clock y"
      then show "x = y"
        using mesh_okD(5)[OF m] fresh[of x] fresh[of y]
        by (cases "x = r"; cases "y = r") (auto simp: clocks_ok_def intro: clock_determinesD)
    qed
    then have "clock_determines (\<lambda>x. (mg_adapter x, mg_id x)) mg_clock (mesh_records (mesh_put d e {} m))"
      by (rule clock_determines_subset) (use sub in auto)
    moreover have "clk_counter (mg_clock x) \<le> ?max (((mh_nodes m)(d := e)) (clk_device (mg_clock x)))"
      if x: "x \<in> mesh_records (mesh_put d e {} m)" for x
    proof (cases "x \<in> mesh_records m")
      case True
      then show ?thesis using old count order_trans by blast
    next
      case False
      then show ?thesis using sub[OF x] dev max_counter_ge by auto
    qed
    ultimately show "clocks_ok (mesh_put d e {} m)" by (simp add: clocks_ok_def)
  qed (simp_all add: frame)
qed

lemma mesh_ok_step:
  assumes "one_app cgs"
  shows "mesh_step ses cgs m m' \<Longrightarrow> mesh_ok cgs m \<Longrightarrow> mesh_ok cgs m'"
  by (induction rule: mesh_step.induct)
    (blast intro: mesh_ok_chore mesh_ok_write[OF assms] mesh_ok_greet mesh_ok_admit mesh_ok_export[OF assms]
       mesh_ok_receive[OF assms] mesh_ok_resolve[OF assms])+

lemma mesh_ok_start: "mesh_start cgs m \<Longrightarrow> mesh_ok cgs m"
  by (auto simp: mesh_start_def mesh_ok_def node_ok_def peers_covered_def origins_ok_def clocks_ok_def
      mesh_records_def clock_determines_def intro: received_default)

lemma mesh_run_ok: "mesh_run ses cgs m \<Longrightarrow> one_app cgs \<Longrightarrow> mesh_ok cgs m"
  by (induction rule: mesh_run.induct) (auto intro: mesh_ok_start mesh_ok_step)

end
