(* ===== verification/Props_Mesh.thy ===== *)
theory Props_Mesh
  imports Session_Mesh Props_Managed
begin





section \<open>A run of two devices\<close>









abbreviation memo :: managed_record where
  "memo \<equiv> demo_note 1 [5]"

lemma memo_simps [simp]:
  "mg_adapter memo = ''notes''" "mg_id memo = ''1''" "mg_value memo = [5]" "mg_deleted memo = False"
  "mg_clock memo = LamportClock 1 ''host''"
  "\<lparr>mg_adapter = ''notes'', mg_id = ''1'', mg_value = [5], mg_deleted = False,
     mg_clock = LamportClock 1 ''host''\<rparr> = memo"
  by (simp_all add: demo_note_def)
















end
