(* ===== verification/Data_Adapter.thy ===== *)
theory Data_Adapter
  imports Sync_Exchange
begin

text \<open>
  \<open>adapter.rs\<close>: the \<open>DataAdapter\<close> trait as a record of its methods with the provided bodies,
  and the \<open>AdapterRouter\<close>, the applier that hands every inbound entry to the adapter owning its
  key. \<open>'x\<close> is what the adapters keep outside the state of the device (files, an app's store).
  A poisoned registry is not modelled: no code panics while it holds the lock.
\<close>

datatype adapter_kind = Document | Sqlite | Logical | CustomKind string

record adapter_cache =
  ac_last_bytes :: "bytes option"
  ac_last_wal :: "bytes option"
  ac_last_shm :: "bytes option"

definition empty_cache :: adapter_cache where
  "empty_cache = \<lparr>ac_last_bytes = None, ac_last_wal = None, ac_last_shm = None\<rparr>"

record adapter_capabilities =
  cap_logical :: bool
  cap_snapshot :: bool
  cap_delta :: bool
  cap_watch :: bool

definition snapshot_only :: adapter_capabilities where
  "snapshot_only = \<lparr>cap_logical = False, cap_snapshot = True, cap_delta = False, cap_watch = False\<rparr>"

definition logical_snapshot :: adapter_capabilities where
  "logical_snapshot = \<lparr>cap_logical = True, cap_snapshot = True, cap_delta = False, cap_watch = False\<rparr>"

record 'x data_adapter =
  da_id :: string
  da_kind :: adapter_kind
  da_capabilities :: adapter_capabilities
  da_load_into_state :: "sync_state \<Rightarrow> 'x \<Rightarrow> unit result \<times> sync_state \<times> 'x"
  da_apply_from_state :: "sync_state \<Rightarrow> 'x \<Rightarrow> unit result \<times> 'x"
  da_sync_tick :: "sync_state \<Rightarrow> adapter_cache \<Rightarrow> 'x \<Rightarrow> unit result \<times> sync_state \<times> adapter_cache \<times> 'x"
  da_export_snapshot :: "sync_state \<Rightarrow> entry list result"
  da_export_delta :: "sync_state \<Rightarrow> entry list result"
  da_apply_entries :: "entry list \<Rightarrow> sync_state \<Rightarrow> 'x \<Rightarrow> nat result \<times> sync_state \<times> 'x"
  da_owns_key :: "string \<Rightarrow> bool"

text \<open>The provided methods.\<close>

definition default_sync_tick ::
  "(sync_state \<Rightarrow> 'x \<Rightarrow> unit result \<times> sync_state \<times> 'x) \<Rightarrow> (sync_state \<Rightarrow> 'x \<Rightarrow> unit result \<times> 'x) \<Rightarrow>
   sync_state \<Rightarrow> adapter_cache \<Rightarrow> 'x \<Rightarrow> unit result \<times> sync_state \<times> adapter_cache \<times> 'x" where
  "default_sync_tick load store s cache x =
     (case load s x of
        (Inl e, s, x) \<Rightarrow> (Inl e, s, cache, x)
      | (Inr _, s, x) \<Rightarrow> (case store s x of (r, x) \<Rightarrow> (r, s, cache, x)))"

definition default_apply_entries ::
  "entry list \<Rightarrow> sync_state \<Rightarrow> 'x \<Rightarrow> nat result \<times> sync_state \<times> 'x" where
  "default_apply_entries es s x = (case merge_snapshot es s of (n, s) \<Rightarrow> (Inr n, s, x))"

definition default_data_adapter ::
  "string \<Rightarrow> adapter_kind \<Rightarrow> (sync_state \<Rightarrow> 'x \<Rightarrow> unit result \<times> sync_state \<times> 'x) \<Rightarrow>
   (sync_state \<Rightarrow> 'x \<Rightarrow> unit result \<times> 'x) \<Rightarrow> 'x data_adapter" where
  "default_data_adapter ident kind load store =
     \<lparr>da_id = ident, da_kind = kind, da_capabilities = snapshot_only,
      da_load_into_state = load, da_apply_from_state = store,
      da_sync_tick = default_sync_tick load store,
      da_export_snapshot = (\<lambda>s. Inr (state_snapshot s)),
      da_export_delta = (\<lambda>s. Inr (state_snapshot s)),
      da_apply_entries = default_apply_entries,
      da_owns_key = (\<lambda>_. False)\<rparr>"

section \<open>The router\<close>

text \<open>
  The registry is a hash map from adapter ids; every use of it sorts by id, so the model keeps it
  as an ordered map.
\<close>

type_synonym 'x router = "(string, 'x data_adapter) bmap"

definition router_register :: "'x data_adapter \<Rightarrow> 'x router \<Rightarrow> unit result \<times> 'x router" where
  "router_register a r =
     (if bm_has r (da_id a)
      then (Inl (Protocol (''adapter already registered: '' @ da_id a)), r)
      else (Inr (), bm_insert (da_id a) a r))"

definition router_adapter :: "string \<Rightarrow> 'x router \<Rightarrow> 'x data_adapter option" where
  "router_adapter ident r = bm_get r ident"

definition router_adapters :: "'x router \<Rightarrow> 'x data_adapter list" where
  "router_adapters r = bm_values r"

fun position :: "('a \<Rightarrow> bool) \<Rightarrow> 'a list \<Rightarrow> nat option" where
  "position P [] = None"
| "position P (x # xs) = (if P x then Some 0 else map_option Suc (position P xs))"

text \<open>One bucket per adapter, in their order, and the entries nobody owns.\<close>

fun route_entries ::
  "'x data_adapter list \<Rightarrow> entry list \<Rightarrow> entry list list \<times> entry list \<Rightarrow> entry list list \<times> entry list" where
  "route_entries adapters [] (buckets, unowned) = (buckets, unowned)"
| "route_entries adapters (e # es) (buckets, unowned) =
     route_entries adapters es
       (case position (\<lambda>a. da_owns_key a (e_key e)) adapters of
          Some i \<Rightarrow> (buckets[i := buckets ! i @ [e]], unowned)
        | None \<Rightarrow> (buckets, unowned @ [e]))"

fun apply_buckets ::
  "('x data_adapter \<times> entry list) list \<Rightarrow> nat \<Rightarrow> sync_state \<Rightarrow> 'x \<Rightarrow> nat result \<times> sync_state \<times> 'x" where
  "apply_buckets [] applied s x = (Inr applied, s, x)"
| "apply_buckets ((a, bucket) # rest) applied s x =
     (if bucket = [] then apply_buckets rest applied s x
      else case da_apply_entries a bucket s x of
             (Inl e, s, x) \<Rightarrow> (Inl e, s, x)
           | (Inr n, s, x) \<Rightarrow> apply_buckets rest (applied + n) s x)"

definition router_apply_inbound ::
  "'x router \<Rightarrow> entry list \<Rightarrow> sync_state \<Rightarrow> 'x \<Rightarrow> nat result \<times> sync_state \<times> 'x" where
  "router_apply_inbound r es s x =
     (let adapters = router_adapters r
      in case route_entries adapters es (replicate (length adapters) [], []) of
           (buckets, unowned) \<Rightarrow>
             (case apply_buckets (zip adapters buckets) 0 s x of
                (Inl e, s, x) \<Rightarrow> (Inl e, s, x)
              | (Inr applied, s, x) \<Rightarrow>
                  (case merge_snapshot unowned s of (n, s) \<Rightarrow> (Inr (applied + n), s, x))))"

fun load_all :: "'x data_adapter list \<Rightarrow> sync_state \<Rightarrow> 'x \<Rightarrow> unit result \<times> sync_state \<times> 'x" where
  "load_all [] s x = (Inr (), s, x)"
| "load_all (a # as) s x =
     (case da_load_into_state a s x of
        (Inl e, s, x) \<Rightarrow> (Inl e, s, x)
      | (Inr _, s, x) \<Rightarrow> load_all as s x)"

fun store_all :: "'x data_adapter list \<Rightarrow> sync_state \<Rightarrow> 'x \<Rightarrow> unit result \<times> 'x" where
  "store_all [] s x = (Inr (), x)"
| "store_all (a # as) s x =
     (case da_apply_from_state a s x of
        (Inl e, x) \<Rightarrow> (Inl e, x)
      | (Inr _, x) \<Rightarrow> store_all as s x)"

definition router_before_export :: "'x router \<Rightarrow> sync_state \<Rightarrow> 'x \<Rightarrow> unit result \<times> sync_state \<times> 'x" where
  "router_before_export r s x = load_all (router_adapters r) s x"

definition router_after_apply :: "'x router \<Rightarrow> sync_state \<Rightarrow> 'x \<Rightarrow> unit result \<times> 'x" where
  "router_after_apply r s x = store_all (router_adapters r) s x"

definition router_applier :: "'x router \<Rightarrow> 'x applier" where
  "router_applier r =
     \<lparr>ap_apply_inbound = router_apply_inbound r, ap_before_export = router_before_export r,
      ap_after_apply = router_after_apply r\<rparr>"

end
