(* ===== verification/Files.thy ===== *)
theory Files
  imports Sync_State
begin

text \<open>
  The part of \<open>std::fs\<close> the adapters use. The world maps a path to the bytes of its file;
  \<open>fw_faults\<close> holds the outcomes of the coming system calls: \<open>None\<close> (or the end of the list)
  lets the call go through, a fault makes it return an error, and a failed write leaves the file
  as the fault says. Directories are not part of the world: creating one either succeeds or fails.
  \<open>fw_events\<close> are the notifications a file watcher has received and not yet handed over.
\<close>

record fs_fault =
  ff_error :: error
  ff_file :: "bytes option"

record file_world =
  fw_files :: "string \<Rightarrow> bytes option"
  fw_faults :: "fs_fault option list"
  fw_events :: "(string + unit) list"

text \<open>Apps keep more than files; the operations work on every extension of the record.\<close>

type_synonym 'z files = "'z file_world_scheme"

definition next_fault :: "'z files \<Rightarrow> fs_fault option \<times> 'z files" where
  "next_fault w =
     (case fw_faults w of [] \<Rightarrow> (None, w) | f # fs \<Rightarrow> (f, w\<lparr>fw_faults := fs\<rparr>))"

definition path_exists :: "string \<Rightarrow> 'z files \<Rightarrow> bool" where
  "path_exists p w = (fw_files w p \<noteq> None)"

definition not_found :: error where
  "not_found = Io NotFound ''No such file or directory (os error 2)''"

definition fs_read :: "string \<Rightarrow> 'z files \<Rightarrow> bytes result \<times> 'z files" where
  "fs_read p w =
     (case next_fault w of
        (Some f, w) \<Rightarrow> (Inl (ff_error f), w)
      | (None, w) \<Rightarrow> (ok_or not_found (fw_files w p), w))"

definition fs_write :: "string \<Rightarrow> bytes \<Rightarrow> 'z files \<Rightarrow> unit result \<times> 'z files" where
  "fs_write p bs w =
     (case next_fault w of
        (Some f, w) \<Rightarrow> (Inl (ff_error f), w\<lparr>fw_files := (fw_files w)(p := ff_file f)\<rparr>)
      | (None, w) \<Rightarrow> (Inr (), w\<lparr>fw_files := (fw_files w)(p := Some bs)\<rparr>))"

definition fs_remove_file :: "string \<Rightarrow> 'z files \<Rightarrow> unit result \<times> 'z files" where
  "fs_remove_file p w =
     (case next_fault w of
        (Some f, w) \<Rightarrow> (Inl (ff_error f), w)
      | (None, w) \<Rightarrow>
          (if path_exists p w then (Inr (), w\<lparr>fw_files := (fw_files w)(p := None)\<rparr>)
           else (Inl not_found, w)))"

definition fs_create_dir_all :: "'z files \<Rightarrow> unit result \<times> 'z files" where
  "fs_create_dir_all w =
     (case next_fault w of (Some f, w) \<Rightarrow> (Inl (ff_error f), w) | (None, w) \<Rightarrow> (Inr (), w))"

text \<open>\<open>Path::parent\<close> is \<open>None\<close> for the empty path and for a root.\<close>

definition has_parent :: "string \<Rightarrow> bool" where
  "has_parent p = list_ex (\<lambda>c. c \<noteq> CHR ''/'') p"

definition ensure_file_with_default :: "string \<Rightarrow> bytes \<Rightarrow> 'z files \<Rightarrow> unit result \<times> 'z files" where
  "ensure_file_with_default p default_bytes w =
     (if path_exists p w then (Inr (), w)
      else bindS (if has_parent p then fs_create_dir_all w else (Inr (), w)) (\<lambda>_ w.
           fs_write p default_bytes w))"

text \<open>Files beside the state of a device: \<open>on_files\<close> runs a file operation in that world.\<close>

definition on_files ::
  "('z files \<Rightarrow> 'a result \<times> 'z files) \<Rightarrow> 's \<times> 'z files \<Rightarrow> 'a result \<times> 's \<times> 'z files" where
  "on_files f sw = (case sw of (s, w) \<Rightarrow> case f w of (r, w) \<Rightarrow> (r, s, w))"

section \<open>Calls that meet no fault\<close>

definition no_faults :: "'z files \<Rightarrow> bool" where
  "no_faults w = (fw_faults w = [])"

named_theorems fs_simps \<open>file operations in a world without faults\<close>

lemma next_fault_none [fs_simps]: "no_faults w \<Longrightarrow> next_fault w = (None, w)"
  by (simp add: no_faults_def next_fault_def)

lemma no_faults_files [simp]: "no_faults (w\<lparr>fw_files := f\<rparr>) = no_faults w"
  by (simp add: no_faults_def)

lemma no_faults_events [simp]: "no_faults (w\<lparr>fw_events := f\<rparr>) = no_faults w"
  by (simp add: no_faults_def)

lemma fs_read_ok [fs_simps]: "no_faults w \<Longrightarrow> fs_read p w = (ok_or not_found (fw_files w p), w)"
  by (simp add: fs_read_def next_fault_none)

lemma fs_write_ok [fs_simps]:
  "no_faults w \<Longrightarrow> fs_write p bs w = (Inr (), w\<lparr>fw_files := (fw_files w)(p := Some bs)\<rparr>)"
  by (simp add: fs_write_def next_fault_none)

lemma fs_remove_ok [fs_simps]:
  "no_faults w \<Longrightarrow> snd (fs_remove_file p w) = w\<lparr>fw_files := (fw_files w)(p := None)\<rparr>"
  by (auto simp: fs_remove_file_def next_fault_none path_exists_def fun_upd_idem)

text \<open>The file after it was ensured: its bytes, or the default.\<close>

definition content_or :: "bytes \<Rightarrow> string \<Rightarrow> 'z files \<Rightarrow> bytes" where
  "content_or d p w = (case fw_files w p of None \<Rightarrow> d | Some bs \<Rightarrow> bs)"

lemma ensure_ok [fs_simps]:
  "no_faults w \<Longrightarrow> ensure_file_with_default p d w =
     (Inr (), w\<lparr>fw_files := (fw_files w)(p := Some (content_or d p w))\<rparr>)"
  by (auto simp: ensure_file_with_default_def path_exists_def content_or_def fs_create_dir_all_def
      fs_write_ok next_fault_none fun_upd_idem)

end
