(* ===== verification/Sqlite_Delta.thy ===== *)
theory Sqlite_Delta
  imports Sync_State Utf8
begin

text \<open>
  The page delta of the SQLite file adapter (\<open>adapter.rs\<close>): which pages of a database file
  differ from the base every device already has, their binary encoding, the decoder with its
  bounds checks, and the reconstruction of the file. Lengths and offsets are \<open>usize\<close> values of
  a 64-bit target, kept as natural numbers; page numbers and sizes on the wire have their width.
\<close>

record page_delta =
  pg_index :: u32
  pg_bytes :: bytes

record sqlite_delta =
  sd_page_size :: u32
  sd_file_size :: u64
  sd_pages :: "page_delta list"

definition sqlite_delta_magic :: bytes where
  "sqlite_delta_magic = str_bytes ''LSD1''"

section \<open>The encoding\<close>

fun encode_pages :: "page_delta list \<Rightarrow> bytes result" where
  "encode_pages [] = Inr []"
| "encode_pages (p # ps) =
     (if 2 ^ 32 \<le> length (pg_bytes p) then Inl (Protocol ''sqlite delta page is too large'')
      else bindR (encode_pages ps) (\<lambda>rest.
        Inr (le_bytes 4 (unat (pg_index p)) @ le_bytes 4 (length (pg_bytes p)) @ pg_bytes p @ rest)))"

definition encode_sqlite_delta :: "sqlite_delta \<Rightarrow> bytes result" where
  "encode_sqlite_delta d =
     (if 2 ^ 32 \<le> length (sd_pages d) then Inl (Protocol ''sqlite delta has too many pages'')
      else bindR (encode_pages (sd_pages d)) (\<lambda>body.
        Inr (sqlite_delta_magic @ le_bytes 4 (unat (sd_page_size d)) @
             le_bytes 8 (unat (sd_file_size d)) @ le_bytes 4 (length (sd_pages d)) @ body)))"

text \<open>Readers take the bytes and an offset into them, and return the advanced offset.\<close>

definition read_delta_bytes :: "bytes \<Rightarrow> nat \<Rightarrow> nat \<Rightarrow> (bytes \<times> nat) result" where
  "read_delta_bytes bs off n =
     (if off + n < 2 ^ 64 \<and> off + n \<le> length bs then Inr (take n (drop off bs), off + n)
      else Inl (Protocol ''truncated sqlite delta''))"

definition read_delta_u32 :: "bytes \<Rightarrow> nat \<Rightarrow> (u32 \<times> nat) result" where
  "read_delta_u32 bs off =
     bindR (read_delta_bytes bs off 4) (\<lambda>(raw, off). Inr (of_nat (of_le raw), off))"

definition read_delta_u64 :: "bytes \<Rightarrow> nat \<Rightarrow> (u64 \<times> nat) result" where
  "read_delta_u64 bs off =
     bindR (read_delta_bytes bs off 8) (\<lambda>(raw, off). Inr (of_nat (of_le raw), off))"

definition checked_add :: "u64 \<Rightarrow> u64 \<Rightarrow> u64 option" where
  "checked_add a b = (if 2 ^ 64 \<le> unat a + unat b then None else Some (a + b))"

definition page_start :: "u32 \<Rightarrow> u32 \<Rightarrow> u64" where
  "page_start index page_size = ucast index * ucast page_size"

definition decode_page :: "u32 \<Rightarrow> u64 \<Rightarrow> bytes \<Rightarrow> nat \<Rightarrow> (page_delta \<times> nat) result" where
  "decode_page page_size file_size bs off =
     bindR (read_delta_u32 bs off) (\<lambda>(index, off).
     bindR (read_delta_u32 bs off) (\<lambda>(page_len, off).
       if page_size < page_len then Inl (Protocol ''sqlite delta page exceeds page size'')
       else bindR (ok_or (Protocol ''sqlite delta page offset overflow'')
                     (checked_add (page_start index page_size) (ucast page_len))) (\<lambda>end_at.
         if file_size < end_at then Inl (Protocol ''sqlite delta page exceeds file size'')
         else bindR (read_delta_bytes bs off (unat page_len)) (\<lambda>(page_bytes, off).
           Inr (\<lparr>pg_index = index, pg_bytes = page_bytes\<rparr>, off)))))"

fun decode_pages :: "nat \<Rightarrow> u32 \<Rightarrow> u64 \<Rightarrow> bytes \<Rightarrow> nat \<Rightarrow> (page_delta list \<times> nat) result" where
  "decode_pages 0 page_size file_size bs off = Inr ([], off)"
| "decode_pages (Suc n) page_size file_size bs off =
     bindR (decode_page page_size file_size bs off) (\<lambda>(p, off).
     bindR (decode_pages n page_size file_size bs off) (\<lambda>(ps, off). Inr (p # ps, off)))"

definition decode_sqlite_delta :: "bytes \<Rightarrow> sqlite_delta result" where
  "decode_sqlite_delta bs =
     bindR (read_delta_bytes bs 0 (length sqlite_delta_magic)) (\<lambda>(magic, off).
     if magic \<noteq> sqlite_delta_magic then Inl (Protocol ''invalid sqlite delta encoding'')
     else
     bindR (read_delta_u32 bs off) (\<lambda>(page_size, off).
     bindR (read_delta_u64 bs off) (\<lambda>(file_size, off).
     bindR (read_delta_u32 bs off) (\<lambda>(page_count, off).
     if page_size = 0 then Inl (Protocol ''sqlite delta page size must be nonzero'')
     else if 2 ^ 64 \<le> unat file_size then Inl (Protocol ''sqlite delta file size is too large'')
     else if (length bs - off) div 8 < unat page_count
     then Inl (Protocol ''sqlite delta page count exceeds encoded pages'')
     else
     bindR (decode_pages (unat page_count) page_size file_size bs off) (\<lambda>(pages, off).
     if off \<noteq> length bs then Inl (Protocol ''trailing sqlite delta bytes'')
     else Inr \<lparr>sd_page_size = page_size, sd_file_size = file_size, sd_pages = pages\<rparr>)))))"

section \<open>Pages\<close>

text \<open>\<open>Vec::resize(n, 0)\<close>.\<close>

definition resize :: "nat \<Rightarrow> bytes \<Rightarrow> bytes" where
  "resize n xs = take n xs @ replicate (n - length xs) 0"

definition page_of :: "nat \<Rightarrow> bytes \<Rightarrow> nat \<Rightarrow> bytes" where
  "page_of page_size xs index =
     (let start = index * page_size
      in if start < length xs then take (min (start + page_size) (length xs) - start) (drop start xs)
         else [])"

definition delta_pages :: "bytes \<Rightarrow> bytes \<Rightarrow> nat \<Rightarrow> nat list \<Rightarrow> page_delta list" where
  "delta_pages base current page_size indices =
     concat (map (\<lambda>index.
       if page_of page_size base index \<noteq> page_of page_size current index
       then [\<lparr>pg_index = of_nat index, pg_bytes = page_of page_size current index\<rparr>] else []) indices)"

definition page_count :: "nat \<Rightarrow> bytes \<Rightarrow> nat" where
  "page_count page_size xs = (length xs + page_size - 1) div page_size"

definition compute_page_delta :: "bytes \<Rightarrow> bytes \<Rightarrow> nat \<Rightarrow> sqlite_delta" where
  "compute_page_delta base current page_size =
     \<lparr>sd_page_size = of_nat page_size, sd_file_size = of_nat (length current),
      sd_pages = delta_pages base current page_size [0..<page_count page_size current]\<rparr>"

definition write_page :: "nat \<Rightarrow> page_delta \<Rightarrow> bytes \<Rightarrow> bytes" where
  "write_page page_size p out =
     (let start = unat (pg_index p) * page_size;
          end_at = start + length (pg_bytes p);
          out = (if length out < end_at then resize end_at out else out)
      in take start out @ pg_bytes p @ drop end_at out)"

definition apply_page_delta :: "bytes \<Rightarrow> sqlite_delta \<Rightarrow> bytes" where
  "apply_page_delta base d =
     fold (write_page (unat (sd_page_size d))) (sd_pages d) (resize (unat (sd_file_size d)) base)"

section \<open>Integers on the wire\<close>

lemma le_bytes_of_le: "le_bytes (length bs) (of_le bs) = bs"
proof (induction bs)
  case (Cons b bs)
  have "unat b < 2 ^ LENGTH(8)" by (rule unsigned_less)
  then show ?case using Cons by simp
qed simp

lemma of_nat_u32: "n < 2 ^ 32 \<Longrightarrow> unat (of_nat n :: u32) = n"
  using take_bit_nat_eq_self_iff[of 32 n] by (simp add: unsigned_of_nat)

lemma of_nat_u64: "n < 2 ^ 64 \<Longrightarrow> unat (of_nat n :: u64) = n"
  using take_bit_nat_eq_self_iff[of 64 n] by (simp add: unsigned_of_nat)

lemma u32_bound: "unat (w :: u32) < 2 ^ 32"
  using unsigned_less[of w, where ?'a = nat] by simp

lemma u64_bound: "unat (w :: u64) < 2 ^ 64"
  using unsigned_less[of w, where ?'a = nat] by simp

lemma u32_of_le_le_bytes [simp]: "of_nat (of_le (le_bytes 4 (unat w))) = (w :: u32)"
  using u32_bound[of w] by (simp add: of_le_le_bytes)

lemma u64_of_le_le_bytes [simp]: "of_nat (of_le (le_bytes 8 (unat w))) = (w :: u64)"
  using u64_bound[of w] by (simp add: of_le_le_bytes)

lemma le_bytes_u32_of_le: "length raw = 4 \<Longrightarrow> le_bytes 4 (unat (of_nat (of_le raw) :: u32)) = raw"
  using of_le_bound[of raw] le_bytes_of_le[of raw] by (simp add: of_nat_u32)

lemma le_bytes_u64_of_le: "length raw = 8 \<Longrightarrow> le_bytes 8 (unat (of_nat (of_le raw) :: u64)) = raw"
  using of_le_bound[of raw] le_bytes_of_le[of raw] by (simp add: of_nat_u64)

lemma unat_ucast_u64 [simp]: "unat (ucast (l :: u32) :: u64) = unat l"
  using u32_bound[of l] by (simp add: unsigned_ucast_eq take_bit_nat_eq_self)

text \<open>The last byte a page may touch never overflows: the overflow branch is not reachable.\<close>

lemma unat_page_start: "unat (page_start i p) = unat i * unat p"
proof -
  have "unat i * unat p \<le> (2 ^ 32 - 1) * (2 ^ 32 - 1)"
    using u32_bound[of i] u32_bound[of p] by (intro mult_le_mono) simp_all
  then have "unat i * unat p < 2 ^ 64" by simp
  then show ?thesis
    by (simp add: page_start_def unat_word_ariths)
qed

lemma page_end_fits: "unat (page_start i p) + unat (ucast l :: u64) < 2 ^ 64"
  for l :: u32
proof -
  have "unat i * unat p \<le> (2 ^ 32 - 1) * (2 ^ 32 - 1)"
    using u32_bound[of i] u32_bound[of p] by (intro mult_le_mono) simp_all
  then show ?thesis using u32_bound[of l] by (simp add: unat_page_start)
qed

lemma checked_add_page:
  "checked_add (page_start i p) (ucast (l :: u32)) = Some (page_start i p + ucast l)"
  using page_end_fits[of i p l] by (simp add: checked_add_def)

lemma unat_page_end: "unat (page_start i p + ucast (l :: u32)) = unat i * unat p + unat l"
  using page_end_fits[of i p l]
  by (simp add: unat_word_ariths unat_page_start)

section \<open>Decoding what was encoded\<close>

text \<open>A page lies inside the file it belongs to, and fits a page of the wire format.\<close>

definition page_fits :: "nat \<Rightarrow> nat \<Rightarrow> page_delta \<Rightarrow> bool" where
  "page_fits page_size file_size p \<longleftrightarrow>
     length (pg_bytes p) \<le> page_size \<and>
     unat (pg_index p) * page_size + length (pg_bytes p) \<le> file_size"

definition delta_ok :: "sqlite_delta \<Rightarrow> bool" where
  "delta_ok d \<longleftrightarrow>
     sd_page_size d \<noteq> 0 \<and>
     list_all (page_fits (unat (sd_page_size d)) (unat (sd_file_size d))) (sd_pages d)"

lemma read_delta_bytes_iff:
  assumes "length bs < 2 ^ 64"
  shows "read_delta_bytes bs off n = Inr (xs, off') \<longleftrightarrow>
    off + n \<le> length bs \<and> xs = take n (drop off bs) \<and> off' = off + n"
  using assms by (auto simp: read_delta_bytes_def)

lemma read_delta_bytes_at:
  assumes "length (pre @ xs @ post) < 2 ^ 64" and "off = length pre" and "n = length xs"
  shows "read_delta_bytes (pre @ xs @ post) off n = Inr (xs, off + n)"
  using assms by (simp add: read_delta_bytes_def)

lemma read_delta_u32_at:
  assumes "length (pre @ le_bytes 4 (unat w) @ post) < 2 ^ 64" and "off = length pre"
  shows "read_delta_u32 (pre @ le_bytes 4 (unat w) @ post) off = Inr (w, off + 4)"
  using read_delta_bytes_at[OF assms, of 4] by (simp add: read_delta_u32_def)

lemma read_delta_u64_at:
  assumes "length (pre @ le_bytes 8 (unat w) @ post) < 2 ^ 64" and "off = length pre"
  shows "read_delta_u64 (pre @ le_bytes 8 (unat w) @ post) off = Inr (w, off + 8)"
  using read_delta_bytes_at[OF assms, of 8] by (simp add: read_delta_u64_def)

definition page_bytes_at :: "page_delta \<Rightarrow> bytes" where
  "page_bytes_at p = le_bytes 4 (unat (pg_index p)) @ le_bytes 4 (length (pg_bytes p)) @ pg_bytes p"

lemma decode_page_at:
  assumes "length (pg_bytes p) < 2 ^ 32" and "page_fits (unat psz) (unat fsz) p"
    and "length (pre @ page_bytes_at p @ post) < 2 ^ 64"
  shows "decode_page psz fsz (pre @ page_bytes_at p @ post) (length pre) =
    Inr (p, length pre + length (page_bytes_at p))"
proof -
  let ?i = "le_bytes 4 (unat (pg_index p))"
  define l :: u32 where "l = of_nat (length (pg_bytes p))"
  have l: "unat l = length (pg_bytes p)" using assms(1) by (simp add: l_def of_nat_u32)
  let ?l = "le_bytes 4 (unat l)"
  have eq: "pre @ page_bytes_at p @ post = pre @ ?i @ ?l @ pg_bytes p @ post"
    by (simp add: page_bytes_at_def l)
  have len: "length pre + 8 + length (pg_bytes p) + length post < 2 ^ 64"
    using assms(3) by (simp add: page_bytes_at_def)
  have r1: "read_delta_u32 (pre @ ?i @ ?l @ pg_bytes p @ post) (length pre) =
      Inr (pg_index p, length pre + 4)"
    using len by (intro read_delta_u32_at) simp_all
  have r2: "read_delta_u32 (pre @ ?i @ ?l @ pg_bytes p @ post) (length pre + 4) =
      Inr (l, length pre + 8)"
    using len read_delta_u32_at[of "pre @ ?i" l "pg_bytes p @ post"] by simp
  have r3: "read_delta_bytes (pre @ ?i @ ?l @ pg_bytes p @ post) (length pre + 8) (unat l) =
      Inr (pg_bytes p, length pre + 8 + length (pg_bytes p))"
    using len l read_delta_bytes_at[of "pre @ ?i @ ?l" "pg_bytes p" post] by simp
  have "\<not> psz < l" "\<not> fsz < page_start (pg_index p) psz + ucast l"
    using assms(2) l by (simp_all add: word_less_nat_alt unat_page_end page_fits_def)
  then show ?thesis
    unfolding eq by (simp add: decode_page_def r1 r2 r3 checked_add_page page_bytes_at_def)
qed

lemma encode_pages_Cons:
  "encode_pages (p # ps) = Inr body \<longleftrightarrow>
     length (pg_bytes p) < 2 ^ 32 \<and>
     (\<exists>rest. encode_pages ps = Inr rest \<and> body = page_bytes_at p @ rest)"
  by (auto simp: page_bytes_at_def)

lemma decode_pages_at:
  assumes "encode_pages ps = Inr body" and "list_all (page_fits (unat psz) (unat fsz)) ps"
    and "length (pre @ body @ post) < 2 ^ 64"
  shows "decode_pages (length ps) psz fsz (pre @ body @ post) (length pre) =
    Inr (ps, length pre + length body)"
  using assms
proof (induction ps arbitrary: pre body)
  case (Cons p ps)
  then obtain rest where p: "length (pg_bytes p) < 2 ^ 32" "encode_pages ps = Inr rest"
    "body = page_bytes_at p @ rest"
    by (auto simp only: encode_pages_Cons)
  have "decode_page psz fsz (pre @ page_bytes_at p @ rest @ post) (length pre) =
      Inr (p, length pre + length (page_bytes_at p))"
    using Cons.prems p by (intro decode_page_at) simp_all
  moreover have "decode_pages (length ps) psz fsz ((pre @ page_bytes_at p) @ rest @ post)
      (length (pre @ page_bytes_at p)) = Inr (ps, length (pre @ page_bytes_at p) + length rest)"
    using Cons.prems p by (intro Cons.IH) simp_all
  ultimately show ?case using p by simp
qed simp

lemma encode_pages_length: "encode_pages ps = Inr body \<Longrightarrow> 8 * length ps \<le> length body"
proof (induction ps arbitrary: body)
  case (Cons p ps)
  then obtain rest where "encode_pages ps = Inr rest" "body = page_bytes_at p @ rest"
    by (auto simp only: encode_pages_Cons)
  with Cons.IH[of rest] show ?case by (simp add: page_bytes_at_def)
qed simp

lemma decode_encode:
  assumes "encode_sqlite_delta d = Inr bs" and "delta_ok d" and "length bs < 2 ^ 64"
  shows "decode_sqlite_delta bs = Inr d"
proof -
  define c :: u32 where "c = of_nat (length (sd_pages d))"
  let ?m = sqlite_delta_magic and ?p = "le_bytes 4 (unat (sd_page_size d))"
    and ?f = "le_bytes 8 (unat (sd_file_size d))" and ?c = "le_bytes 4 (unat c)"
  obtain body where b: "length (sd_pages d) < 2 ^ 32" "encode_pages (sd_pages d) = Inr body"
    and bs': "bs = ?m @ ?p @ ?f @ le_bytes 4 (length (sd_pages d)) @ body"
    using assms(1) by (auto simp: encode_sqlite_delta_def split: if_splits)
  have c: "unat c = length (sd_pages d)" using b(1) by (simp add: c_def of_nat_u32)
  then have bs: "bs = ?m @ ?p @ ?f @ ?c @ body" using bs' by simp
  have m: "length ?m = 4" by (simp add: sqlite_delta_magic_def str_bytes_def)
  have len: "20 + length body < 2 ^ 64" "length bs = 20 + length body"
    using assms(3) bs m by simp_all
  have r0: "read_delta_bytes bs 0 4 = Inr (?m, 4)"
    using len(1) m by (simp add: read_delta_bytes_def bs)
  have r1: "read_delta_u32 bs 4 = Inr (sd_page_size d, 8)"
    using read_delta_u32_at[OF _ refl, of ?m "sd_page_size d" "?f @ ?c @ body"] len(1) m
    by (simp add: bs)
  have r2: "read_delta_u64 bs 8 = Inr (sd_file_size d, 16)"
    using read_delta_u64_at[OF _ refl, of "?m @ ?p" "sd_file_size d" "?c @ body"] len(1) m by (simp add: bs)
  have r3: "read_delta_u32 bs 16 = Inr (c, 20)"
    using read_delta_u32_at[OF _ refl, of "?m @ ?p @ ?f" c body] len(1) m by (simp add: bs)
  have r4: "decode_pages (unat c) (sd_page_size d) (sd_file_size d) bs 20 =
      Inr (sd_pages d, length bs)"
    using decode_pages_at[OF b(2), of "sd_page_size d" "sd_file_size d" "?m @ ?p @ ?f @ ?c" "[]"]
      assms(2) len(1) m c by (simp add: delta_ok_def bs)
  have "\<not> (length bs - 20) div 8 < unat c"
    using encode_pages_length[OF b(2)] len c by simp
  moreover have "sd_page_size d \<noteq> 0" using assms(2) by (simp add: delta_ok_def)
  ultimately show ?thesis
    using u64_bound[of "sd_file_size d"]
    by (simp add: decode_sqlite_delta_def m r0 r1 r2 r3 r4)
qed

section \<open>Every accepted encoding is canonical\<close>

lemma read_delta_bytesD:
  assumes "read_delta_bytes bs off n = Inr (xs, off')"
  shows "off' = off + n \<and> off' \<le> length bs \<and> length xs = n \<and> drop off bs = xs @ drop off' bs"
  using assms by (auto simp: read_delta_bytes_def split: if_splits)
    (metis add.commute append_take_drop_id drop_drop)

lemma read_delta_u32D:
  assumes "read_delta_u32 bs off = Inr (w, off')"
  shows "off' = off + 4 \<and> off' \<le> length bs \<and> drop off bs = le_bytes 4 (unat w) @ drop off' bs"
  using assms read_delta_bytesD[of bs off 4]
  by (auto simp: read_delta_u32_def le_bytes_u32_of_le)

lemma read_delta_u64D:
  assumes "read_delta_u64 bs off = Inr (w, off')"
  shows "off' = off + 8 \<and> off' \<le> length bs \<and> drop off bs = le_bytes 8 (unat w) @ drop off' bs"
  using assms read_delta_bytesD[of bs off 8]
  by (auto simp: read_delta_u64_def le_bytes_u64_of_le)

lemma decode_pageD:
  assumes "decode_page psz fsz bs off = Inr (p, off')"
  shows "page_fits (unat psz) (unat fsz) p \<and> length (pg_bytes p) < 2 ^ 32 \<and>
    off' \<le> length bs \<and> drop off bs = page_bytes_at p @ drop off' bs"
proof -
  from assms obtain i l o1 o2 xs where
    r: "read_delta_u32 bs off = Inr (i, o1)" "read_delta_u32 bs o1 = Inr (l, o2)"
      "read_delta_bytes bs o2 (unat l) = Inr (xs, off')"
    and le: "\<not> psz < l" "\<not> fsz < page_start i psz + ucast l"
    and p: "p = \<lparr>pg_index = i, pg_bytes = xs\<rparr>"
    by (auto simp: decode_page_def checked_add_page split: if_splits)
  have xs: "length xs = unat l" using read_delta_bytesD[OF r(3)] by simp
  have "unat l \<le> unat psz" "unat i * unat psz + unat l \<le> unat fsz"
    using le by (simp_all add: not_less word_le_nat_alt unat_page_end)
  then show ?thesis
    using read_delta_u32D[OF r(1)] read_delta_u32D[OF r(2)] read_delta_bytesD[OF r(3)] xs
      u32_bound[of l]
    by (simp add: p page_fits_def page_bytes_at_def)
qed

lemma decode_pagesD:
  assumes "decode_pages n psz fsz bs off = Inr (ps, off')" and "off \<le> length bs"
  shows "length ps = n \<and> list_all (page_fits (unat psz) (unat fsz)) ps \<and> off' \<le> length bs \<and>
    (\<exists>body. encode_pages ps = Inr body \<and> drop off bs = body @ drop off' bs)"
  using assms
proof (induction n arbitrary: off ps)
  case (Suc n)
  then obtain p o1 rest where p: "decode_page psz fsz bs off = Inr (p, o1)"
    and rest: "decode_pages n psz fsz bs o1 = Inr (rest, off')" and ps: "ps = p # rest" by auto
  note D = decode_pageD[OF p]
  with Suc.IH[OF rest] obtain body where
    IH: "length rest = n" "list_all (page_fits (unat psz) (unat fsz)) rest" "off' \<le> length bs"
      "encode_pages rest = Inr body" "drop o1 bs = body @ drop off' bs" by blast
  have "encode_pages ps = Inr (page_bytes_at p @ body)"
    using D IH by (simp only: ps encode_pages_Cons) blast
  then show ?case using D IH ps by simp
qed simp

lemma decodeD:
  assumes "decode_sqlite_delta bs = Inr d"
  shows "encode_sqlite_delta d = Inr bs \<and> delta_ok d"
proof -
  from assms obtain m o0 psz o1 fsz o2 c o3 ps where
    r: "read_delta_bytes bs 0 (length m) = Inr (m, o0)" "m = sqlite_delta_magic"
      "read_delta_u32 bs o0 = Inr (psz, o1)" "read_delta_u64 bs o1 = Inr (fsz, o2)"
      "read_delta_u32 bs o2 = Inr (c, o3)" "psz \<noteq> 0"
      "decode_pages (unat c) psz fsz bs o3 = Inr (ps, length bs)"
    and d: "d = \<lparr>sd_page_size = psz, sd_file_size = fsz, sd_pages = ps\<rparr>"
    by (auto simp: decode_sqlite_delta_def split: if_splits)
  note D = read_delta_bytesD[OF r(1)] read_delta_u32D[OF r(3)] read_delta_u64D[OF r(4)]
    read_delta_u32D[OF r(5)]
  obtain body where ps: "length ps = unat c" "list_all (page_fits (unat psz) (unat fsz)) ps"
    "encode_pages ps = Inr body" "drop o3 bs = body"
    using decode_pagesD[OF r(7)] D(4) by auto
  have parts: "drop 0 bs = m @ drop o0 bs" "drop o0 bs = le_bytes 4 (unat psz) @ drop o1 bs"
    "drop o1 bs = le_bytes 8 (unat fsz) @ drop o2 bs" "drop o2 bs = le_bytes 4 (unat c) @ drop o3 bs"
    using D by blast+
  have "drop 0 bs = m @ le_bytes 4 (unat psz) @ le_bytes 8 (unat fsz) @ le_bytes 4 (unat c) @ body"
    by (simp only: parts ps(4) append_assoc)
  then show ?thesis
    using ps r(2,6) u32_bound[of c] by (simp add: encode_sqlite_delta_def d delta_ok_def)
qed

text \<open>Decoding accepts exactly the encodings of deltas that stay inside their file.\<close>

lemma decode_iff:
  assumes "length bs < 2 ^ 64"
  shows "decode_sqlite_delta bs = Inr d \<longleftrightarrow> encode_sqlite_delta d = Inr bs \<and> delta_ok d"
  using decodeD decode_encode assms by blast

section \<open>Rebuilding the file\<close>

lemma length_resize [simp]: "length (resize n xs) = n"
  by (simp add: resize_def)

lemma nth_resize: "j < n \<Longrightarrow> resize n xs ! j = (if j < length xs then xs ! j else 0)"
  by (auto simp: resize_def nth_append)

lemma page_of_alt: "page_of psz xs i = take psz (drop (i * psz) xs)"
proof (cases "i * psz < length xs")
  case True
  then show ?thesis by (cases "i * psz + psz \<le> length xs") (simp_all add: page_of_def)
qed (simp add: page_of_def)

lemma length_page_of: "length (page_of psz xs i) = min psz (length xs - i * psz)"
  by (simp add: page_of_alt min.commute)

lemma nth_page_of: "j < length (page_of psz xs i) \<Longrightarrow> page_of psz xs i ! j = xs ! (i * psz + j)"
  by (simp add: page_of_alt less_diff_conv add.commute nth_drop)

lemma write_page_inside:
  assumes "page_fits psz (length out) p"
  shows "length (write_page psz p out) = length out"
    and "j < length out \<Longrightarrow> write_page psz p out ! j =
      (if unat (pg_index p) * psz \<le> j \<and> j < unat (pg_index p) * psz + length (pg_bytes p)
       then pg_bytes p ! (j - unat (pg_index p) * psz) else out ! j)"
  using assms by (auto simp: write_page_def page_fits_def nth_append Let_def)

lemma length_write_pages:
  "list_all (page_fits psz (length out)) ps \<Longrightarrow> length (fold (write_page psz) ps out) = length out"
proof (induction ps arbitrary: out)
  case (Cons p ps)
  then show ?case using Cons.IH[of "write_page psz p out"] by (simp add: write_page_inside(1))
qed simp

text \<open>A decoded delta never writes outside the file it announces.\<close>

lemma length_apply_page_delta:
  "delta_ok d \<Longrightarrow> length (apply_page_delta base d) = unat (sd_file_size d)"
  using length_write_pages[of "unat (sd_page_size d)" "resize (unat (sd_file_size d)) base"]
  by (simp add: apply_page_delta_def delta_ok_def)

lemma delta_pages_snoc:
  "delta_pages base cur psz [0..<Suc k] = delta_pages base cur psz [0..<k] @
     (if page_of psz base k \<noteq> page_of psz cur k
      then [\<lparr>pg_index = of_nat k, pg_bytes = page_of psz cur k\<rparr>] else [])"
  by (simp add: delta_pages_def)

lemma computed_page_fits:
  assumes "k < 2 ^ 32"
  shows "page_fits psz (length cur) \<lparr>pg_index = of_nat k, pg_bytes = page_of psz cur k\<rparr>
    \<longleftrightarrow> k * psz \<le> length cur"
  using assms by (auto simp: page_fits_def of_nat_u32 length_page_of)

lemma same_page_nth:
  assumes "page_of psz base k = page_of psz cur k" and "k * psz \<le> j" and "j < Suc k * psz"
    and "j < length cur"
  shows "j < length base \<and> base ! j = cur ! j"
proof -
  have j: "j - k * psz < length (page_of psz cur k)" "k * psz + (j - k * psz) = j"
    using assms(2-4) by (auto simp: length_page_of)
  moreover have "j - k * psz < length (page_of psz base k)" using j(1) assms(1) by simp
  then have "j < length base" using assms(2) by (auto simp: length_page_of)
  ultimately show ?thesis
    using nth_page_of[of "j - k * psz" psz cur k] nth_page_of[of "j - k * psz" psz base k] assms(1)
    by simp
qed

lemma write_computed_pages:
  fixes base cur :: bytes
  assumes "k * psz < length cur + psz" and "k \<le> 2 ^ 32"
  defines "out \<equiv> fold (write_page psz) (delta_pages base cur psz [0..<k]) (resize (length cur) base)"
  shows "length out = length cur \<and>
    (\<forall>j < length cur. out ! j = (if j < k * psz then cur ! j else resize (length cur) base ! j))"
  using assms(1,2) unfolding out_def
proof (induction k)
  case (Suc k)
  let ?out = "fold (write_page psz) (delta_pages base cur psz [0..<k]) (resize (length cur) base)"
  have start: "k * psz \<le> length cur" "k < 2 ^ 32" using Suc.prems by simp_all
  have IH: "length ?out = length cur"
    "j < length cur \<Longrightarrow> ?out ! j = (if j < k * psz then cur ! j else resize (length cur) base ! j)" for j
    using Suc.IH start Suc.prems by auto
  show ?case
  proof (cases "page_of psz base k = page_of psz cur k")
    case True
    then show ?thesis
      using IH same_page_nth[OF True] by (auto simp: delta_pages_snoc nth_resize simp del: upt_Suc)
  next
    case False
    let ?p = "\<lparr>pg_index = of_nat k, pg_bytes = page_of psz cur k\<rparr>"
    have fits: "page_fits psz (length ?out) ?p" using start IH(1) by (simp add: computed_page_fits)
    have len: "length (write_page psz ?p ?out) = length cur"
      using write_page_inside(1)[OF fits] IH(1) by simp
    have at: "write_page psz ?p ?out ! j =
        (if j < Suc k * psz then cur ! j else resize (length cur) base ! j)" if "j < length cur" for j
    proof -
      have "k * psz \<le> j \<and> j < k * psz + length (page_of psz cur k) \<longleftrightarrow> k * psz \<le> j \<and> j < Suc k * psz"
        using that by (auto simp: length_page_of)
      moreover have "page_of psz cur k ! (j - k * psz) = cur ! j"
        if "k * psz \<le> j \<and> j < k * psz + length (page_of psz cur k)"
        using that nth_page_of[of "j - k * psz" psz cur k] by auto
      ultimately show ?thesis
        using write_page_inside(2)[OF fits, of j] IH that start by (auto simp: of_nat_u32)
    qed
    show ?thesis using False len at by (simp add: delta_pages_snoc del: upt_Suc)
  qed
qed (simp add: delta_pages_def)

lemma page_count_bounds:
  assumes "0 < psz"
  shows "length xs \<le> page_count psz xs * psz" and "page_count psz xs * psz < length xs + psz"
proof -
  let ?n = "length xs + psz - 1"
  have "page_count psz xs * psz + ?n mod psz = ?n" by (simp add: page_count_def)
  moreover have "?n mod psz < psz" using assms by simp
  ultimately show "length xs \<le> page_count psz xs * psz" "page_count psz xs * psz < length xs + psz"
    using assms by linarith+
qed

text \<open>A file whose pages can be numbered with 32 bits, at a page size of the wire format.\<close>

definition sizes_ok :: "nat \<Rightarrow> bytes \<Rightarrow> bool" where
  "sizes_ok page_size xs \<longleftrightarrow>
     0 < page_size \<and> page_size < 2 ^ 32 \<and> page_count page_size xs < 2 ^ 32"

lemma sizes_ok_length: "sizes_ok psz xs \<Longrightarrow> length xs < 2 ^ 64"
proof -
  assume ok: "sizes_ok psz xs"
  then have "length xs \<le> page_count psz xs * psz"
    using page_count_bounds(1) by (simp add: sizes_ok_def)
  also have "\<dots> \<le> (2 ^ 32 - 1) * (2 ^ 32 - 1)"
    using ok by (intro mult_le_mono) (simp_all add: sizes_ok_def)
  finally show ?thesis by simp
qed

lemma apply_compute:
  assumes "sizes_ok psz cur"
  shows "apply_page_delta base (compute_page_delta base cur psz) = cur"
proof -
  note ok = assms[unfolded sizes_ok_def]
  note b = page_count_bounds[of psz cur]
  have "length (apply_page_delta base (compute_page_delta base cur psz)) = length cur \<and>
    (\<forall>j < length cur. apply_page_delta base (compute_page_delta base cur psz) ! j = cur ! j)"
    using write_computed_pages[of "page_count psz cur" psz cur base] ok b sizes_ok_length[OF assms]
    by (simp add: apply_page_delta_def compute_page_delta_def of_nat_u32 of_nat_u64)
  then show ?thesis by (intro nth_equalityI) auto
qed

lemma delta_pages_fit:
  assumes "sizes_ok psz cur" and "k \<le> page_count psz cur"
  shows "list_all (page_fits psz (length cur)) (delta_pages base cur psz [0..<k]) \<and>
    length (delta_pages base cur psz [0..<k]) \<le> k \<and>
    (\<forall>p \<in> set (delta_pages base cur psz [0..<k]). length (pg_bytes p) \<le> psz)"
  using assms(2)
proof (induction k)
  case (Suc k)
  have "Suc k * psz \<le> page_count psz cur * psz" using Suc.prems by (rule mult_le_mono1)
  then have "k * psz \<le> length cur"
    using page_count_bounds(2)[of psz cur] assms(1) by (simp add: sizes_ok_def)
  then show ?case
    using Suc assms(1) computed_page_fits[of k psz cur]
    by (auto simp: delta_pages_snoc sizes_ok_def length_page_of simp del: upt_Suc)
qed (simp add: delta_pages_def)

lemma computed_delta_ok: "sizes_ok psz cur \<Longrightarrow> delta_ok (compute_page_delta base cur psz)"
  using delta_pages_fit[of psz cur "page_count psz cur" base] sizes_ok_length[of psz cur]
  by (auto simp: delta_ok_def compute_page_delta_def sizes_ok_def of_nat_u32 of_nat_u64
      word_unat_eq_iff)

lemma encode_pages_total:
  "(\<forall>p \<in> set ps. length (pg_bytes p) < 2 ^ 32) \<Longrightarrow> \<exists>body. encode_pages ps = Inr body"
  by (induction ps) (auto simp del: encode_pages.simps(2) simp: encode_pages_Cons)

lemma encode_computed: "sizes_ok psz cur \<Longrightarrow> \<exists>bs. encode_sqlite_delta (compute_page_delta base cur psz) = Inr bs"
proof -
  assume ok: "sizes_ok psz cur"
  let ?ps = "delta_pages base cur psz [0..<page_count psz cur]"
  have "length ?ps < 2 ^ 32" "\<forall>p \<in> set ?ps. length (pg_bytes p) < 2 ^ 32"
    using delta_pages_fit[OF ok, of "page_count psz cur" base] ok by (auto simp: sizes_ok_def)
  then show ?thesis
    using encode_pages_total[of ?ps] by (auto simp: encode_sqlite_delta_def compute_page_delta_def)
qed

end
