(* ===== verification/File_Adapters.thy ===== *)
theory File_Adapters
  imports Data_Adapter Files Sqlite_Delta
begin

text \<open>
  The file-backed adapters of \<open>adapter.rs\<close>: a JSON document, an SQLite database with its WAL and
  shared-memory files (and, when asked for, a page delta), and a watched file. Each is a record of
  its fields; \<open>json_adapter\<close>, \<open>sqlite_adapter\<close> and \<open>watched_adapter\<close> are their \<open>DataAdapter\<close>
  implementations. A value is kept in the state under the adapter's key.
\<close>

text \<open>The code sets a key only when its value differs.\<close>

definition set_changed :: "string \<Rightarrow> bytes \<Rightarrow> sync_state \<Rightarrow> sync_state" where
  "set_changed key bs s = (if state_get key s \<noteq> Some bs then snd (state_set key bs s) else s)"

lemma state_ok_set_changed: "state_ok s \<Longrightarrow> state_ok (set_changed k v s)"
  by (simp add: set_changed_def state_ok_set)

section \<open>JSON documents\<close>

record json_file =
  jf_id :: string
  jf_path :: string
  jf_key :: string

definition json_new :: "string \<Rightarrow> string \<Rightarrow> json_file" where
  "json_new ident path = \<lparr>jf_id = ident, jf_path = path, jf_key = ident\<rparr>"

definition json_with_key :: "string \<Rightarrow> json_file \<Rightarrow> json_file" where
  "json_with_key key a = a\<lparr>jf_key := key\<rparr>"

definition json_ensure_file :: "json_file \<Rightarrow> 'z files \<Rightarrow> unit result \<times> 'z files" where
  "json_ensure_file a w = ensure_file_with_default (jf_path a) (str_bytes ''{}'') w"

definition json_load_into_state ::
  "json_file \<Rightarrow> sync_state \<Rightarrow> 'z files \<Rightarrow> unit result \<times> sync_state \<times> 'z files" where
  "json_load_into_state a s w =
     bindS (on_files (json_ensure_file a) (s, w)) (\<lambda>_ sw.
     bindS (on_files (fs_read (jf_path a)) sw) (\<lambda>bs (s, w).
       (Inr (), set_changed (jf_key a) bs s, w)))"

definition json_apply_from_state ::
  "json_file \<Rightarrow> sync_state \<Rightarrow> 'z files \<Rightarrow> unit result \<times> 'z files" where
  "json_apply_from_state a s w =
     (case state_get (jf_key a) s of
        None \<Rightarrow> (Inr (), w)
      | Some bs \<Rightarrow>
          bindS (json_ensure_file a w) (\<lambda>_ w.
          bindS (fs_read (jf_path a) w) (\<lambda>existing w.
            if existing \<noteq> bs then fs_write (jf_path a) bs w else (Inr (), w))))"

text \<open>A value the cache does not name is written to the file, and remembered.\<close>

definition tick_write ::
  "string \<Rightarrow> bytes option \<Rightarrow> sync_state \<times> adapter_cache \<times> 'z files \<Rightarrow>
   unit result \<times> sync_state \<times> adapter_cache \<times> 'z files" where
  "tick_write path bytes scw =
     (case (bytes, scw) of
        (None, _) \<Rightarrow> (Inr (), scw)
      | (Some bs, (s, c, w)) \<Rightarrow>
          if ac_last_bytes c = Some bs then (Inr (), scw)
          else (case fs_write path bs w of
                  (Inl e, w) \<Rightarrow> (Inl e, s, c, w)
                | (Inr _, w) \<Rightarrow> (Inr (), s, c\<lparr>ac_last_bytes := Some bs\<rparr>, w)))"

definition on_tick ::
  "('z files \<Rightarrow> 'a result \<times> 'z files) \<Rightarrow> sync_state \<times> adapter_cache \<times> 'z files \<Rightarrow>
   'a result \<times> sync_state \<times> adapter_cache \<times> 'z files" where
  "on_tick f scw = (case scw of (s, c, w) \<Rightarrow> case f w of (r, w) \<Rightarrow> (r, s, c, w))"

definition json_sync_tick ::
  "json_file \<Rightarrow> sync_state \<Rightarrow> adapter_cache \<Rightarrow> 'z files \<Rightarrow>
   unit result \<times> sync_state \<times> adapter_cache \<times> 'z files" where
  "json_sync_tick a s c w =
     bindS (on_tick (json_ensure_file a) (s, c, w)) (\<lambda>_ scw.
     bindS (tick_write (jf_path a) (state_get (jf_key a) (fst scw)) scw) (\<lambda>_ scw.
     bindS (on_tick (fs_read (jf_path a)) scw) (\<lambda>bs (s, c, w).
       (Inr (), set_changed (jf_key a) bs s, c, w))))"

definition json_adapter :: "json_file \<Rightarrow> 'z files data_adapter" where
  "json_adapter a =
     (default_data_adapter (jf_id a) Document (json_load_into_state a) (json_apply_from_state a))
     \<lparr>da_sync_tick := json_sync_tick a, da_owns_key := (\<lambda>k. k = jf_key a)\<rparr>"

section \<open>Watched files\<close>

record watched_file =
  wf_id :: string
  wf_path :: string
  wf_key :: string
  wf_default_bytes :: bytes

text \<open>
  The watcher is the \<open>notify\<close> crate: \<open>watcher\<close> is what creating it and watching the path end in.
\<close>

definition watched_new_with_default ::
  "unit result \<Rightarrow> string \<Rightarrow> string \<Rightarrow> bytes \<Rightarrow> 'z files \<Rightarrow> watched_file result \<times> 'z files" where
  "watched_new_with_default watcher ident path default_bytes w =
     bindS (ensure_file_with_default path default_bytes w) (\<lambda>_ w.
     bindS (watcher, w) (\<lambda>_ w.
       (Inr \<lparr>wf_id = ident, wf_path = path, wf_key = ident, wf_default_bytes = default_bytes\<rparr>, w)))"

definition watched_new ::
  "unit result \<Rightarrow> string \<Rightarrow> string \<Rightarrow> 'z files \<Rightarrow> watched_file result \<times> 'z files" where
  "watched_new watcher ident path w = watched_new_with_default watcher ident path [] w"

definition watched_new_json ::
  "unit result \<Rightarrow> string \<Rightarrow> string \<Rightarrow> 'z files \<Rightarrow> watched_file result \<times> 'z files" where
  "watched_new_json watcher ident path w =
     watched_new_with_default watcher ident path (str_bytes ''{}'') w"

definition watched_with_key :: "string \<Rightarrow> watched_file \<Rightarrow> watched_file" where
  "watched_with_key key a = a\<lparr>wf_key := key\<rparr>"

definition watched_ensure_file :: "watched_file \<Rightarrow> 'z files \<Rightarrow> unit result \<times> 'z files" where
  "watched_ensure_file a w = ensure_file_with_default (wf_path a) (wf_default_bytes a) w"

text \<open>The receive loop: notifications are taken until the queue is empty or one is an error.\<close>

fun drain_loop :: "(string + unit) list \<Rightarrow> bool \<Rightarrow> bool result \<times> (string + unit) list" where
  "drain_loop [] changed = (Inr changed, [])"
| "drain_loop (Inl message # rest) changed = (Inl (Protocol message), rest)"
| "drain_loop (Inr _ # rest) changed = drain_loop rest True"

definition drain_events :: "'z files \<Rightarrow> bool result \<times> 'z files" where
  "drain_events w =
     (case drain_loop (fw_events w) False of (r, rest) \<Rightarrow> (r, w\<lparr>fw_events := rest\<rparr>))"

definition watched_load_into_state ::
  "watched_file \<Rightarrow> sync_state \<Rightarrow> 'z files \<Rightarrow> unit result \<times> sync_state \<times> 'z files" where
  "watched_load_into_state a s w =
     bindS (on_files (watched_ensure_file a) (s, w)) (\<lambda>_ sw.
     bindS (on_files (fs_read (wf_path a)) sw) (\<lambda>bs (s, w).
       (Inr (), set_changed (wf_key a) bs s, w)))"

definition watched_apply_from_state ::
  "watched_file \<Rightarrow> sync_state \<Rightarrow> 'z files \<Rightarrow> unit result \<times> 'z files" where
  "watched_apply_from_state a s w =
     (case state_get (wf_key a) s of
        None \<Rightarrow> (Inr (), w)
      | Some bs \<Rightarrow>
          bindS (watched_ensure_file a w) (\<lambda>_ w.
          bindS (fs_read (wf_path a) w) (\<lambda>existing w.
            if existing \<noteq> bs then fs_write (wf_path a) bs w else (Inr (), w))))"

definition watched_sync_tick ::
  "watched_file \<Rightarrow> sync_state \<Rightarrow> adapter_cache \<Rightarrow> 'z files \<Rightarrow>
   unit result \<times> sync_state \<times> adapter_cache \<times> 'z files" where
  "watched_sync_tick a s c w =
     bindS (on_tick (watched_ensure_file a) (s, c, w)) (\<lambda>_ scw.
     bindS (tick_write (wf_path a) (state_get (wf_key a) (fst scw)) scw) (\<lambda>_ (s, c, w).
       let unread = (ac_last_bytes c = None)
       in bindS (on_tick drain_events (s, c, w)) (\<lambda>changed scw.
          if unread \<or> changed then
            bindS (on_tick (fs_read (wf_path a)) scw) (\<lambda>bs (s, c, w).
              (Inr (), set_changed (wf_key a) bs s, c\<lparr>ac_last_bytes := Some bs\<rparr>, w))
          else (Inr (), scw))))"

definition watched_adapter :: "watched_file \<Rightarrow> 'z files data_adapter" where
  "watched_adapter a =
     (default_data_adapter (wf_id a) Document (watched_load_into_state a) (watched_apply_from_state a))
     \<lparr>da_capabilities := snapshot_only\<lparr>cap_watch := True\<rparr>, da_sync_tick := watched_sync_tick a,
      da_owns_key := (\<lambda>k. k = wf_key a)\<rparr>"

section \<open>SQLite files\<close>

record sqlite_file =
  sq_id :: string
  sq_path :: string
  sq_key :: string
  sq_page_delta :: "nat option"

definition sqlite_new :: "string \<Rightarrow> string \<Rightarrow> sqlite_file" where
  "sqlite_new ident path = \<lparr>sq_id = ident, sq_path = path, sq_key = ident, sq_page_delta = None\<rparr>"

definition sqlite_with_key :: "string \<Rightarrow> sqlite_file \<Rightarrow> sqlite_file" where
  "sqlite_with_key key a = a\<lparr>sq_key := key\<rparr>"

definition with_page_delta :: "nat \<Rightarrow> sqlite_file \<Rightarrow> sqlite_file" where
  "with_page_delta page_size a = a\<lparr>sq_page_delta := Some (max page_size 512)\<rparr>"

definition wal_path :: "sqlite_file \<Rightarrow> string" where
  "wal_path a = sq_path a @ ''-wal''"

definition shm_path :: "sqlite_file \<Rightarrow> string" where
  "shm_path a = sq_path a @ ''-shm''"

definition wal_key :: "sqlite_file \<Rightarrow> string" where
  "wal_key a = sq_key a @ '':wal''"

definition shm_key :: "sqlite_file \<Rightarrow> string" where
  "shm_key a = sq_key a @ '':shm''"

definition delta_key :: "sqlite_file \<Rightarrow> string" where
  "delta_key a = sq_key a @ '':delta''"

definition sqlite_ensure_file :: "sqlite_file \<Rightarrow> 'z files \<Rightarrow> unit result \<times> 'z files" where
  "sqlite_ensure_file a w = ensure_file_with_default (sq_path a) [] w"

definition update_state_with_sqlite_bytes ::
  "sqlite_file \<Rightarrow> bytes \<Rightarrow> sync_state \<Rightarrow> unit result \<times> sync_state" where
  "update_state_with_sqlite_bytes a bs s =
     (case (sq_page_delta a, state_get (sq_key a) s) of
        (Some page_size, Some base) \<Rightarrow>
          (let delta = compute_page_delta base bs page_size
           in if sd_pages delta \<noteq> [] then
                (case encode_sqlite_delta delta of
                   Inl e \<Rightarrow> (Inl e, s)
                 | Inr delta_bytes \<Rightarrow>
                     if length delta_bytes < length bs
                     then (Inr (), set_changed (delta_key a) delta_bytes s)
                     else (Inr (),
                       (if state_get (delta_key a) s \<noteq> Some []
                        then snd (state_set (delta_key a) [] (set_changed (sq_key a) bs s))
                        else set_changed (sq_key a) bs s)))
              else (Inr (), set_changed (delta_key a) [] s))
      | _ \<Rightarrow> (Inr (), set_changed (sq_key a) bs s))"

definition bytes_from_state :: "sqlite_file \<Rightarrow> sync_state \<Rightarrow> bytes option" where
  "bytes_from_state a s =
     (let base = state_get (sq_key a) s
      in case state_get (delta_key a) s of
           None \<Rightarrow> base
         | Some delta_bytes \<Rightarrow>
             if delta_bytes = [] then base
             else (case (base, decode_sqlite_delta delta_bytes) of
                     (Some b, Inr delta) \<Rightarrow> Some (apply_page_delta b delta)
                   | _ \<Rightarrow> base))"

text \<open>The WAL and shared-memory files: an absent file and an empty value stand for each other.\<close>

definition read_if_exists :: "string \<Rightarrow> 'z files \<Rightarrow> bytes result \<times> 'z files" where
  "read_if_exists path w = (if path_exists path w then fs_read path w else (Inr [], w))"

definition write_or_remove :: "string \<Rightarrow> bytes \<Rightarrow> 'z files \<Rightarrow> unit result \<times> 'z files" where
  "write_or_remove path bs w =
     (if bs = [] then (Inr (), snd (fs_remove_file path w)) else fs_write path bs w)"

definition sqlite_load_into_state ::
  "sqlite_file \<Rightarrow> sync_state \<Rightarrow> 'z files \<Rightarrow> unit result \<times> sync_state \<times> 'z files" where
  "sqlite_load_into_state a s w =
     bindS (on_files (sqlite_ensure_file a) (s, w)) (\<lambda>_ sw.
     bindS (on_files (fs_read (sq_path a)) sw) (\<lambda>bs (s, w).
     bindS (case update_state_with_sqlite_bytes a bs s of (r, s) \<Rightarrow> (r, s, w)) (\<lambda>_ sw.
     bindS (on_files (read_if_exists (wal_path a)) sw) (\<lambda>wal (s, w).
     bindS (on_files (read_if_exists (shm_path a)) (set_changed (wal_key a) wal s, w)) (\<lambda>shm (s, w).
       (Inr (), set_changed (shm_key a) shm s, w))))))"

definition store_side ::
  "string \<Rightarrow> bytes option \<Rightarrow> 'z files \<Rightarrow> unit result \<times> 'z files" where
  "store_side path bytes w =
     (case bytes of None \<Rightarrow> (Inr (), w) | Some bs \<Rightarrow> write_or_remove path bs w)"

definition sqlite_apply_from_state ::
  "sqlite_file \<Rightarrow> sync_state \<Rightarrow> 'z files \<Rightarrow> unit result \<times> 'z files" where
  "sqlite_apply_from_state a s w =
     bindS (case bytes_from_state a s of
              None \<Rightarrow> (Inr (), w)
            | Some bs \<Rightarrow>
                bindS (sqlite_ensure_file a w) (\<lambda>_ w.
                bindS (fs_read (sq_path a) w) (\<lambda>existing w.
                  if existing \<noteq> bs then fs_write (sq_path a) bs w else (Inr (), w)))) (\<lambda>_ w.
     bindS (store_side (wal_path a) (state_get (wal_key a) s) w) (\<lambda>_ w.
       store_side (shm_path a) (state_get (shm_key a) s) w))"

text \<open>
  A side value the cache does not name goes to its file: \<open>get\<close> and \<open>put\<close> are the cache's field.
\<close>

definition tick_side ::
  "(adapter_cache \<Rightarrow> bytes option) \<Rightarrow> (bytes \<Rightarrow> adapter_cache \<Rightarrow> adapter_cache) \<Rightarrow> string \<Rightarrow> bytes option \<Rightarrow>
   sync_state \<times> adapter_cache \<times> 'z files \<Rightarrow> unit result \<times> sync_state \<times> adapter_cache \<times> 'z files" where
  "tick_side get put path bytes scw =
     (case (bytes, scw) of
        (None, _) \<Rightarrow> (Inr (), scw)
      | (Some bs, (s, c, w)) \<Rightarrow>
          if get c = Some bs then (Inr (), scw)
          else (case write_or_remove path bs w of
                  (Inl e, w) \<Rightarrow> (Inl e, s, c, w)
                | (Inr _, w) \<Rightarrow> (Inr (), s, put bs c, w)))"

definition put_wal :: "bytes \<Rightarrow> adapter_cache \<Rightarrow> adapter_cache" where
  "put_wal bs c = c\<lparr>ac_last_wal := Some bs\<rparr>"

definition put_shm :: "bytes \<Rightarrow> adapter_cache \<Rightarrow> adapter_cache" where
  "put_shm bs c = c\<lparr>ac_last_shm := Some bs\<rparr>"

definition sqlite_sync_tick ::
  "sqlite_file \<Rightarrow> sync_state \<Rightarrow> adapter_cache \<Rightarrow> 'z files \<Rightarrow>
   unit result \<times> sync_state \<times> adapter_cache \<times> 'z files" where
  "sqlite_sync_tick a s c w =
     bindS (on_tick (sqlite_ensure_file a) (s, c, w)) (\<lambda>_ scw.
     bindS (tick_write (sq_path a) (bytes_from_state a s) scw) (\<lambda>_ scw.
     bindS (tick_side ac_last_wal put_wal (wal_path a) (state_get (wal_key a) s) scw) (\<lambda>_ scw.
     bindS (tick_side ac_last_shm put_shm (shm_path a) (state_get (shm_key a) s) scw) (\<lambda>_ scw.
     bindS (on_tick (fs_read (sq_path a)) scw) (\<lambda>bs (s, c, w).
     bindS (case update_state_with_sqlite_bytes a bs s of (r, s) \<Rightarrow> (r, s, c, w)) (\<lambda>_ scw.
     bindS (on_tick (read_if_exists (wal_path a)) scw) (\<lambda>wal (s, c, w).
     bindS (on_tick (read_if_exists (shm_path a)) (set_changed (wal_key a) wal s, put_wal wal c, w))
       (\<lambda>shm (s, c, w). (Inr (), set_changed (shm_key a) shm s, put_shm shm c, w)))))))))"

definition sqlite_adapter :: "sqlite_file \<Rightarrow> 'z files data_adapter" where
  "sqlite_adapter a =
     (default_data_adapter (sq_id a) Sqlite (sqlite_load_into_state a) (sqlite_apply_from_state a))
     \<lparr>da_capabilities := snapshot_only\<lparr>cap_delta := True\<rparr>, da_sync_tick := sqlite_sync_tick a,
      da_owns_key := (\<lambda>k. k = sq_key a \<or> k = wal_key a \<or> k = shm_key a \<or> k = delta_key a)\<rparr>"

end
