(* ===== verification/File_Laws.thy ===== *)
theory File_Laws
  imports File_Adapters
begin

text \<open>
  Laws of the file-backed adapters: reading a value back from the state, what a load puts there,
  what a store leaves in the files, and what one tick of the watcher does.
\<close>

section \<open>Values in the state\<close>

lemma state_get_set:
  "state_get k (snd (state_set j v s)) = (if k = j then Some v else state_get k s)"
  by (simp add: state_get_def state_set_def Let_def bm_get_insert)

lemma state_get_set_changed [simp]:
  "state_get k (set_changed j v s) = (if k = j then Some v else state_get k s)"
  by (simp add: set_changed_def state_get_set)

lemma sqlite_keys_distinct [simp]:
  "wal_key a \<noteq> sq_key a" "shm_key a \<noteq> sq_key a" "delta_key a \<noteq> sq_key a"
  "sq_key a \<noteq> wal_key a" "sq_key a \<noteq> shm_key a" "sq_key a \<noteq> delta_key a"
  "wal_key a \<noteq> shm_key a" "shm_key a \<noteq> wal_key a" "wal_key a \<noteq> delta_key a"
  "delta_key a \<noteq> wal_key a" "shm_key a \<noteq> delta_key a" "delta_key a \<noteq> shm_key a"
  by (auto simp: wal_key_def shm_key_def delta_key_def)

lemma sqlite_paths_distinct [simp]:
  "wal_path a \<noteq> sq_path a" "shm_path a \<noteq> sq_path a" "sq_path a \<noteq> wal_path a"
  "sq_path a \<noteq> shm_path a" "wal_path a \<noteq> shm_path a" "shm_path a \<noteq> wal_path a"
  by (auto simp: wal_path_def shm_path_def)

section \<open>When no page differs\<close>

lemma delta_pages_empty:
  "delta_pages base cur psz is = [] \<longleftrightarrow> (\<forall>i\<in>set is. page_of psz base i = page_of psz cur i)"
  by (auto simp: delta_pages_def)

lemma no_delta_pages:
  assumes "0 < psz"
  shows "sd_pages (compute_page_delta base cur psz) = [] \<longleftrightarrow>
    cur = base \<or> length cur < length base \<and> psz dvd length cur \<and> cur = take (length cur) base"
    (is "?none \<longleftrightarrow> ?prefix")
proof
  assume ?none
  then have same: "page_of psz base i = page_of psz cur i" if "i < page_count psz cur" for i
    using that by (simp add: compute_page_delta_def delta_pages_empty)
  have at: "j < length base \<and> base ! j = cur ! j" if j: "j < length cur" for j
  proof -
    let ?i = "j div psz"
    have i: "?i * psz \<le> j" "j < Suc ?i * psz"
      using assms by (simp_all add: dividend_less_div_times add.commute)
    have "?i * psz < page_count psz cur * psz"
      using i(1) j page_count_bounds(1)[OF assms, of cur] by linarith
    then have "?i < page_count psz cur" by simp
    then show ?thesis using same_page_nth[OF same i(1,2) j] by simp
  qed
  have le: "length cur \<le> length base"
    using at by (metis le_less_linear less_irrefl)
  have pre: "cur = take (length cur) base"
    using at le by (intro nth_equalityI) auto
  have "psz dvd length cur" if less: "length cur < length base"
  proof (rule ccontr)
    assume "\<not> psz dvd length cur"
    let ?i = "length cur div psz"
    have lt: "?i * psz < length cur"
      using \<open>\<not> psz dvd length cur\<close> by (metis div_times_less_eq_dividend dvd_triv_right le_neq_implies_less)
    have gt: "length cur < Suc ?i * psz" using assms by (simp add: dividend_less_div_times add.commute)
    have "?i * psz < page_count psz cur * psz"
      using lt page_count_bounds(1)[OF assms, of cur] by linarith
    then have "length (page_of psz base ?i) = length (page_of psz cur ?i)" using same by simp
    then show False using lt gt less by (auto simp: length_page_of min_def split: if_splits)
  qed
  then show ?prefix using le pre by (metis le_neq_implies_less take_all_iff order_refl)
next
  assume ?prefix
  then show ?none
  proof
    assume prefix: "length cur < length base \<and> psz dvd length cur \<and> cur = take (length cur) base"
    define n where "n = length cur div psz"
    have n: "length cur = n * psz" using prefix by (simp add: n_def)
    then have pre: "cur = take (n * psz) base" using prefix by simp
    have "page_count psz cur * psz < Suc n * psz" using page_count_bounds(2)[OF assms, of cur] n by simp
    then have count: "page_count psz cur < Suc n" by (simp only: mult_less_cancel2)
    have "page_of psz base i = page_of psz cur i" if "i < page_count psz cur" for i
    proof -
      have "Suc i * psz \<le> n * psz" using that count by (intro mult_le_mono1) simp
      then show ?thesis by (simp add: page_of_alt pre drop_take min_def)
    qed
    then show ?thesis by (simp add: compute_page_delta_def delta_pages_empty)
  qed (simp add: compute_page_delta_def delta_pages_empty)
qed
section \<open>A database in the state\<close>

definition no_pending :: "sqlite_file \<Rightarrow> sync_state \<Rightarrow> bool" where
  "no_pending a s \<longleftrightarrow> state_get (delta_key a) s \<in> {None, Some []}"

definition truncates :: "nat \<Rightarrow> bytes \<Rightarrow> bytes \<Rightarrow> bool" where
  "truncates psz base bs \<longleftrightarrow>
     length bs < length base \<and> psz dvd length bs \<and> bs = take (length bs) base"

text \<open>The bytes a load of \<open>bs\<close> makes the state stand for.\<close>

definition loaded_bytes :: "sqlite_file \<Rightarrow> sync_state \<Rightarrow> bytes \<Rightarrow> bytes" where
  "loaded_bytes a s bs =
     (case (sq_page_delta a, state_get (sq_key a) s) of
        (Some psz, Some base) \<Rightarrow> if truncates psz base bs then base else bs
      | _ \<Rightarrow> bs)"

definition loadable :: "sqlite_file \<Rightarrow> sync_state \<Rightarrow> bytes \<Rightarrow> bool" where
  "loadable a s bs \<longleftrightarrow>
     (\<forall>psz. sq_page_delta a = Some psz \<longrightarrow> sizes_ok psz bs) \<and>
     (sq_page_delta a = None \<or> state_get (sq_key a) s = None \<longrightarrow> no_pending a s)"

lemma bytes_from_state_base:
  "no_pending a s \<Longrightarrow> bytes_from_state a s = state_get (sq_key a) s"
  by (auto simp: no_pending_def bytes_from_state_def)

lemma bytes_from_state_delta:
  assumes "state_get (sq_key a) s = Some base" and "encode_sqlite_delta d = Inr x" and "delta_ok d"
    and "length x < 2 ^ 64" and "state_get (delta_key a) s = Some x"
  shows "bytes_from_state a s = Some (apply_page_delta base d)"
proof -
  have "x \<noteq> []" using assms(2)
    by (auto simp: encode_sqlite_delta_def sqlite_delta_magic_def str_bytes_def split: if_splits)
  then show ?thesis
    using assms decode_encode[of d x] by (simp add: bytes_from_state_def)
qed

lemma update_delta:
  assumes psz: "sq_page_delta a = Some psz" and base: "state_get (sq_key a) s = Some base"
    and ok: "sizes_ok psz bs"
  shows "\<exists>t. update_state_with_sqlite_bytes a bs s = (Inr (), t) \<and>
    bytes_from_state a t = Some (if truncates psz base bs then base else bs) \<and>
    (\<forall>k. k \<noteq> sq_key a \<longrightarrow> k \<noteq> delta_key a \<longrightarrow> state_get k t = state_get k s)"
proof -
  let ?d = "compute_page_delta base bs psz"
  obtain x where x: "encode_sqlite_delta ?d = Inr x" using encode_computed[OF ok] by blast
  have pos: "0 < psz" using ok by (simp add: sizes_ok_def)
  show ?thesis
  proof (cases "sd_pages ?d = []")
    case True
    then have "bs = base \<or> truncates psz base bs"
      using no_delta_pages[OF pos] by (simp add: truncates_def)
    then have "Some (if truncates psz base bs then base else bs) = Some base" by auto
    then show ?thesis
      using True psz base
      by (simp add: update_state_with_sqlite_bytes_def bytes_from_state_def Let_def)
  next
    case False
    then have eq: "(if truncates psz base bs then base else bs) = bs"
      using no_delta_pages[OF pos, of base bs] by (auto simp: truncates_def)
    show ?thesis
    proof (cases "length x < length bs")
      case True
      let ?t = "set_changed (delta_key a) x s"
      have "bytes_from_state a ?t = Some (apply_page_delta base ?d)"
        using base x computed_delta_ok[OF ok] True sizes_ok_length[OF ok]
        by (intro bytes_from_state_delta) simp_all
      then show ?thesis
        using False True psz base x apply_compute[OF ok] eq
        by (simp add: update_state_with_sqlite_bytes_def Let_def)
    next
      case full: False
      then show ?thesis
        using False psz base x eq
        by (simp add: update_state_with_sqlite_bytes_def Let_def bytes_from_state_def state_get_set)
    qed
  qed
qed

lemma update_reads_back:
  assumes "loadable a s bs"
  shows "\<exists>t. update_state_with_sqlite_bytes a bs s = (Inr (), t) \<and>
    bytes_from_state a t = Some (loaded_bytes a s bs) \<and>
    (\<forall>k. k \<noteq> sq_key a \<longrightarrow> k \<noteq> delta_key a \<longrightarrow> state_get k t = state_get k s)"
proof (cases "sq_page_delta a = None \<or> state_get (sq_key a) s = None")
  case True
  then have "no_pending a s" using assms by (simp add: loadable_def)
  then have "no_pending a (set_changed (sq_key a) bs s)" by (simp add: no_pending_def)
  then show ?thesis
    using True by (auto simp: update_state_with_sqlite_bytes_def loaded_bytes_def
        bytes_from_state_base split: option.splits)
next
  case False
  then obtain psz base where "sq_page_delta a = Some psz" "state_get (sq_key a) s = Some base"
    by auto
  then show ?thesis using update_delta[of a psz s base bs] assms by (simp add: loadable_def loaded_bytes_def)
qed

section \<open>Loading and storing the files\<close>

lemma on_files_ok: "f w = (r, w') \<Longrightarrow> on_files f (s, w) = (r, s, w')"
  by (simp add: on_files_def)

lemma read_if_exists_ok [fs_simps]:
  "no_faults w \<Longrightarrow> read_if_exists p w = (Inr (content_or [] p w), w)"
  by (auto simp: read_if_exists_def path_exists_def content_or_def fs_read_ok)

lemma write_or_remove_ok [fs_simps]:
  "no_faults w \<Longrightarrow> write_or_remove p bs w =
     (Inr (), w\<lparr>fw_files := (fw_files w)(p := if bs = [] then None else Some bs)\<rparr>)"
  by (simp add: write_or_remove_def fs_remove_ok fs_write_ok)

text \<open>What a load without faults puts into the state, and leaves in the files.\<close>

lemma sqlite_load_ok:
  assumes "no_faults w" and "loadable a s (content_or [] (sq_path a) w)"
  shows "\<exists>t. sqlite_load_into_state a s w =
      (Inr (), t, w\<lparr>fw_files := (fw_files w)(sq_path a := Some (content_or [] (sq_path a) w))\<rparr>) \<and>
    bytes_from_state a t = Some (loaded_bytes a s (content_or [] (sq_path a) w)) \<and>
    state_get (wal_key a) t = Some (content_or [] (wal_path a) w) \<and>
    state_get (shm_key a) t = Some (content_or [] (shm_path a) w)"
proof -
  let ?bs = "content_or [] (sq_path a) w"
  from update_reads_back[OF assms(2)] obtain t where
    t: "update_state_with_sqlite_bytes a ?bs s = (Inr (), t)" "bytes_from_state a t = Some (loaded_bytes a s ?bs)"
    by blast
  let ?w = "w\<lparr>fw_files := (fw_files w)(sq_path a := Some ?bs)\<rparr>"
  have w: "no_faults ?w" "content_or [] (wal_path a) ?w = content_or [] (wal_path a) w"
    "content_or [] (shm_path a) ?w = content_or [] (shm_path a) w" "fw_files ?w (sq_path a) = Some ?bs"
    using assms(1) by (simp_all add: content_or_def)
  have "bytes_from_state a (set_changed (shm_key a) y (set_changed (wal_key a) x t)) = bytes_from_state a t"
    for x y by (simp add: bytes_from_state_def)
  then show ?thesis
    using t w assms(1)
    by (simp add: sqlite_load_into_state_def sqlite_ensure_file_def on_files_def fs_simps)
qed

lemma sqlite_store_ok:
  assumes "no_faults w" and "bytes_from_state a s = Some bs"
    and "state_get (wal_key a) s = Some wal" and "state_get (shm_key a) s = Some shm"
  shows "\<exists>w'. sqlite_apply_from_state a s w = (Inr (), w') \<and> fw_files w' (sq_path a) = Some bs \<and>
    fw_files w' (wal_path a) = (if wal = [] then None else Some wal) \<and>
    fw_files w' (shm_path a) = (if shm = [] then None else Some shm) \<and>
    (\<forall>p. p \<notin> {sq_path a, wal_path a, shm_path a} \<longrightarrow> fw_files w' p = fw_files w p)"
  using assms
  by (simp add: sqlite_apply_from_state_def sqlite_ensure_file_def store_side_def fs_simps)

section \<open>One tick\<close>

text \<open>The value a tick settles on: a state value the cache does not name, else the file.\<close>

definition tick_value :: "bytes option \<Rightarrow> bytes option \<Rightarrow> bytes \<Rightarrow> bytes" where
  "tick_value stored cached content =
     (case stored of None \<Rightarrow> content | Some bs \<Rightarrow> if cached = Some bs then content else bs)"

definition tick_cache :: "bytes option \<Rightarrow> adapter_cache \<Rightarrow> adapter_cache" where
  "tick_cache stored c =
     (case stored of None \<Rightarrow> c | Some bs \<Rightarrow> c\<lparr>ac_last_bytes := Some bs\<rparr>)"

lemma tick_write_ok:
  assumes "no_faults w" and "fw_files w path = Some content"
  shows "tick_write path stored (s, c, w) =
    (Inr (), s, tick_cache stored c,
     w\<lparr>fw_files := (fw_files w)(path := Some (tick_value stored (ac_last_bytes c) content))\<rparr>)"
  using assms
  by (auto simp: tick_write_def tick_value_def tick_cache_def fs_write_ok fun_upd_idem split: option.splits)

lemma json_tick_ok:
  fixes a :: json_file and c :: adapter_cache and s :: sync_state
  assumes "no_faults w"
  defines "v \<equiv> tick_value (state_get (jf_key a) s) (ac_last_bytes c)
                 (content_or (str_bytes ''{}'') (jf_path a) w)"
  shows "json_sync_tick a s c w =
    (Inr (), set_changed (jf_key a) v s, tick_cache (state_get (jf_key a) s) c,
     w\<lparr>fw_files := (fw_files w)(jf_path a := Some v)\<rparr>)"
proof -
  let ?x = "content_or (str_bytes ''{}'') (jf_path a) w"
  let ?w = "w\<lparr>fw_files := (fw_files w)(jf_path a := Some ?x)\<rparr>"
  have "tick_write (jf_path a) (state_get (jf_key a) s) (s, c, ?w) =
      (Inr (), s, tick_cache (state_get (jf_key a) s) c, w\<lparr>fw_files := (fw_files w)(jf_path a := Some v)\<rparr>)"
    using tick_write_ok[of ?w "jf_path a" ?x] assms(1) by (simp add: v_def)
  then show ?thesis
    using assms(1) by (simp add: json_sync_tick_def json_ensure_file_def on_tick_def fs_simps)
qed

lemma drain_loop_ok: "list_all (\<lambda>ev. ev = Inr ()) evs \<Longrightarrow> drain_loop evs b = (Inr (b \<or> evs \<noteq> []), [])"
  by (induction evs arbitrary: b) auto

lemma drain_ok:
  "list_all (\<lambda>ev. ev = Inr ()) (fw_events w) \<Longrightarrow>
   drain_events w = (Inr (fw_events w \<noteq> []), w\<lparr>fw_events := []\<rparr>)"
  by (simp add: drain_events_def drain_loop_ok)

text \<open>A watched file whose change was notified: the tick takes it in and remembers it.\<close>

lemma watched_tick_changed:
  fixes a :: watched_file and c :: adapter_cache and s :: sync_state
  assumes "no_faults w" and "list_all (\<lambda>ev. ev = Inr ()) (fw_events w)" and "fw_events w \<noteq> []"
  defines "v \<equiv> tick_value (state_get (wf_key a) s) (ac_last_bytes c)
                 (content_or (wf_default_bytes a) (wf_path a) w)"
  shows "watched_sync_tick a s c w =
    (Inr (), set_changed (wf_key a) v s,
     (tick_cache (state_get (wf_key a) s) c)\<lparr>ac_last_bytes := Some v\<rparr>,
     w\<lparr>fw_files := (fw_files w)(wf_path a := Some v), fw_events := []\<rparr>)"
proof -
  let ?x = "content_or (wf_default_bytes a) (wf_path a) w"
  let ?w = "w\<lparr>fw_files := (fw_files w)(wf_path a := Some ?x)\<rparr>"
  have "tick_write (wf_path a) (state_get (wf_key a) s) (s, c, ?w) =
      (Inr (), s, tick_cache (state_get (wf_key a) s) c, w\<lparr>fw_files := (fw_files w)(wf_path a := Some v)\<rparr>)"
    using tick_write_ok[of ?w "wf_path a" ?x] assms(1) by (simp add: v_def)
  then show ?thesis
    using assms(1-3)
    by (simp add: watched_sync_tick_def watched_ensure_file_def on_tick_def fs_simps drain_ok)
qed

section \<open>The adapters merge by last writer\<close>

lemma file_adapters_default [simp]:
  "da_apply_entries (json_adapter j) = default_apply_entries"
  "da_apply_entries (watched_adapter v) = default_apply_entries"
  "da_apply_entries (sqlite_adapter q) = default_apply_entries"
  by (simp_all add: json_adapter_def watched_adapter_def sqlite_adapter_def default_data_adapter_def)

end
