(* ===== verification/Router.thy ===== *)
theory Router
  imports Data_Adapter Lww "HOL-Library.Multiset"
begin

text \<open>
  Laws of the adapter router: which adapter an entry goes to, that no entry is lost or handed over
  twice, and that a router whose adapters keep the provided \<open>apply_entries\<close> merges like the
  last-writer-wins applier.
\<close>

section \<open>Routing\<close>

definition owner_of :: "'x data_adapter list \<Rightarrow> entry \<Rightarrow> nat option" where
  "owner_of adapters e = position (\<lambda>a. da_owns_key a (e_key e)) adapters"

lemma position_Some:
  "position P xs = Some i \<longleftrightarrow> i < length xs \<and> P (xs ! i) \<and> (\<forall>j<i. \<not> P (xs ! j))"
proof (induction xs arbitrary: i)
  case (Cons x xs)
  then show ?case by (cases i) (auto simp: nth_Cons split: nat.splits)
qed simp

lemma position_None: "position P xs = None \<longleftrightarrow> (\<forall>x\<in>set xs. \<not> P x)"
  by (induction xs) auto

lemma route_entries_spec:
  assumes "length bs = length as" and "route_entries as es (bs, us) = (bs', us')"
  shows "length bs' = length as \<and> us' = us @ filter (\<lambda>e. owner_of as e = None) es \<and>
    (\<forall>i < length as. bs' ! i = bs ! i @ filter (\<lambda>e. owner_of as e = Some i) es)"
  using assms
proof (induction es arbitrary: bs us)
  case (Cons e es)
  show ?case
  proof (cases "owner_of as e")
    case None
    then show ?thesis using Cons.prems Cons.IH[of bs "us @ [e]"] by (simp add: owner_of_def)
  next
    case (Some i)
    then have "i < length as" by (simp add: owner_of_def position_Some)
    then show ?thesis
      using Some Cons.prems Cons.IH[of "bs[i := bs ! i @ [e]]" us]
      by (auto simp: owner_of_def nth_list_update)
  qed
qed simp

lemma route_all:
  assumes "route_entries as es (replicate (length as) [], []) = (bs, us)"
  shows "bs = map (\<lambda>i. filter (\<lambda>e. owner_of as e = Some i) es) [0..<length as]"
    and "us = filter (\<lambda>e. owner_of as e = None) es"
proof -
  note spec = route_entries_spec[OF _ assms, of, simplified]
  show "us = filter (\<lambda>e. owner_of as e = None) es" using spec by simp
  show "bs = map (\<lambda>i. filter (\<lambda>e. owner_of as e = Some i) es) [0..<length as]"
    using spec by (intro nth_equalityI) auto
qed

lemma owner_bound: "owner_of as e = Some i \<Longrightarrow> i < length as"
  by (simp add: owner_of_def position_Some)

lemma mset_buckets:
  "mset (concat (map (\<lambda>i. filter (\<lambda>e. f e = Some i) es) [0..<n])) =
   filter_mset (\<lambda>e. f e \<in> Some ` {..<n}) (mset es)"
  by (induction n) (auto intro!: multiset_eqI simp: lessThan_Suc)

lemma mset_route:
  assumes "route_entries as es (replicate (length as) [], []) = (bs, us)"
  shows "mset (concat bs @ us) = mset es"
proof -
  have "owner_of as e \<in> Some ` {..<length as} \<longleftrightarrow> owner_of as e \<noteq> None" for e
    using owner_bound by fastforce
  then show ?thesis
    by (auto simp: route_all[OF assms] mset_buckets intro!: multiset_eqI simp del: not_None_eq)
qed

text \<open>Entries of one key stay together and in order.\<close>

lemma filter_key_bucket:
  assumes "\<And>e. key e = k \<Longrightarrow> f e = c"
  shows "filter (\<lambda>e. key e = k) (filter (\<lambda>e. f e = d) es) =
    (if c = d then filter (\<lambda>e. key e = k) es else [])"
  using assms by (induction es) auto

lemma filter_key_concat:
  assumes "\<And>e. key e = k \<Longrightarrow> f e = c"
  shows "filter (\<lambda>e. key e = k) (concat (map (\<lambda>i. filter (\<lambda>e. f e = Some i) es) [0..<n])) =
    (case c of None \<Rightarrow> [] | Some i \<Rightarrow> if i < n then filter (\<lambda>e. key e = k) es else [])"
  by (induction n) (auto simp: filter_key_bucket[OF assms] split: option.splits simp del: filter_filter)

lemma filter_key_route:
  assumes "route_entries as es (replicate (length as) [], []) = (bs, us)"
  shows "filter (\<lambda>e. e_key e = k) (concat bs @ us) = filter (\<lambda>e. e_key e = k) es"
proof -
  define c where "c = position (\<lambda>a. da_owns_key a k) as"
  have c: "owner_of as e = c" if "e_key e = k" for e using that by (simp add: owner_of_def c_def)
  have "\<And>i. c = Some i \<Longrightarrow> i < length as" by (simp add: c_def position_Some)
  then show ?thesis
    by (auto simp: route_all[OF assms] filter_key_concat[where f="owner_of as", OF c]
        filter_key_bucket[where f="owner_of as", OF c] split: option.splits simp del: filter_filter)
qed

section \<open>Merging\<close>

context lww_store
begin

definition keep_newer :: "'e \<Rightarrow> 'e option \<Rightarrow> 'e option" where
  "keep_newer e x = (case x of None \<Rightarrow> Some e | Some y \<Rightarrow> if clk y < clk e then Some e else Some y)"

text \<open>What is stored under a key depends on the entries of that key alone.\<close>

lemma puts_of_key:
  assumes "ok s"
  shows "get (fold put es s) k = fold keep_newer (filter (\<lambda>e. key e = k) es) (get s k)"
  using assms
proof (induction es arbitrary: s)
  case (Cons e es)
  have "get (put e s) k = (if key e = k then keep_newer e (get s k) else get s k)"
    using Cons.prems by (auto simp: get_put keep_newer_def split: option.splits)
  then show ?case using Cons ok_put by simp
qed simp

lemma puts_regroup:
  assumes "ok s" and "\<And>k. filter (\<lambda>e. key e = k) es = filter (\<lambda>e. key e = k) fs"
  shows "get (fold put es s) k = get (fold put fs s) k"
  using assms by (simp add: puts_of_key)

end

lemma counter_put: "st_counter (lww_put e s) = max (st_counter s) (clk_counter (e_clock e))"
  by (auto simp: lww_put_def apply_entry_def Let_def observe_clock_def max_def split: option.splits)

lemma counter_puts:
  "st_counter (fold lww_put es s) = Max (set (st_counter s # map (\<lambda>e. clk_counter (e_clock e)) es))"
proof -
  have "st_counter (fold lww_put es s) = fold max (map (\<lambda>e. clk_counter (e_clock e)) es) (st_counter s)"
    by (induction es arbitrary: s) (simp_all add: counter_put max.commute)
  then show ?thesis by (simp only: Max.set_eq_fold)
qed

section \<open>Routers over default adapters\<close>

lemma default_apply_fold:
  "default_apply_entries es s x = (Inr (fst (merge_snapshot es s)), fold lww_put es s, x)"
  by (simp add: default_apply_entries_def merge_snapshot_fold[symmetric] split: prod.split)

lemma apply_buckets_default:
  assumes "list_all (\<lambda>a. da_apply_entries a = default_apply_entries) as" and "length bs = length as"
  shows "\<exists>n. apply_buckets (zip as bs) m s x = (Inr n, fold lww_put (concat bs) s, x)"
  using assms
proof (induction as arbitrary: bs m s)
  case (Cons a as)
  then obtain b rest where bs: "bs = b # rest" "length rest = length as" by (cases bs) auto
  have "\<exists>n. apply_buckets (zip as rest) k t x = (Inr n, fold lww_put (concat rest) t, x)" for k t
    by (rule Cons.IH) (use Cons.prems bs in simp_all)
  moreover have "da_apply_entries a = default_apply_entries" using Cons.prems by simp
  ultimately show ?case by (simp add: bs default_apply_fold)
qed simp

lemma router_default:
  assumes "list_all (\<lambda>a. da_apply_entries a = default_apply_entries) (router_adapters r)"
  shows "\<exists>n fs. router_apply_inbound r es s x = (Inr n, fold lww_put fs s, x) \<and> mset fs = mset es \<and>
    (\<forall>k. filter (\<lambda>e. e_key e = k) fs = filter (\<lambda>e. e_key e = k) es)"
proof -
  let ?as = "router_adapters r"
  obtain bs us where route: "route_entries ?as es (replicate (length ?as) [], []) = (bs, us)"
    by (cases "route_entries ?as es (replicate (length ?as) [], [])") auto
  have "length bs = length ?as" by (simp add: route_all(1)[OF route])
  with apply_buckets_default[OF assms] obtain m where
    "apply_buckets (zip ?as bs) 0 s x = (Inr m, fold lww_put (concat bs) s, x)" by blast
  then have "\<exists>n. router_apply_inbound r es s x = (Inr n, fold lww_put (concat bs @ us) s, x)"
    by (simp add: router_apply_inbound_def Let_def route split: prod.split)
      (metis merge_snapshot_fold snd_conv)
  then show ?thesis using mset_route[OF route] filter_key_route[OF route] by blast
qed

end
