(* ===== verification/Props_Adapter.thy ===== *)
theory Props_Adapter
  imports File_Laws Router
begin

text \<open>
  Properties of the adapters: the SQLite page delta, what travels between the files of two
  devices, the router, and the ticks of the file watchers.
\<close>

section \<open>The SQLite page delta\<close>

text \<open>
  C28: a byte string is accepted as a page delta exactly when it is the encoding of the delta it
  decodes to, and that delta has a page size and only pages inside its file; so applying it to any
  base gives a file of exactly the announced size and no write falls outside of it.
\<close>

theorem sqlite_delta_canonical:
  assumes "length bs < 2 ^ 64"
  shows "(decode_sqlite_delta bs = Inr d \<longleftrightarrow> encode_sqlite_delta d = Inr bs \<and> delta_ok d) \<and>
    (decode_sqlite_delta bs = Inr d \<longrightarrow> length (apply_page_delta base d) = unat (sd_file_size d))"
  using decode_iff[OF assms] length_apply_page_delta by blast

definition sample_delta :: sqlite_delta where
  "sample_delta = \<lparr>sd_page_size = 2, sd_file_size = 3, sd_pages = [\<lparr>pg_index = 1, pg_bytes = [9]\<rparr>]\<rparr>"

definition sample_bytes :: bytes where
  "sample_bytes = sqlite_delta_magic @ [2,0,0,0, 3,0,0,0,0,0,0,0, 1,0,0,0, 1,0,0,0, 1,0,0,0, 9]"

lemma wire_widths: "(4 :: nat) = Suc (Suc (Suc (Suc 0)))" "(8 :: nat) = Suc (Suc (Suc (Suc (Suc (Suc (Suc (Suc 0)))))))"
  by simp_all

lemma sample_encodes: "encode_sqlite_delta sample_delta = Inr sample_bytes"
  by (simp add: encode_sqlite_delta_def sample_delta_def sample_bytes_def) (simp add: wire_widths)

lemma sqlite_delta_canonical_witness:
  "decode_sqlite_delta sample_bytes = Inr sample_delta \<and> length (apply_page_delta [1, 2, 3, 4, 5] sample_delta) = 3"
proof -
  have "length sample_bytes < 2 ^ 64" by (simp add: sample_bytes_def sqlite_delta_magic_def str_bytes_def)
  moreover have "delta_ok sample_delta" by (simp add: delta_ok_def sample_delta_def page_fits_def)
  ultimately show ?thesis
    using sqlite_delta_canonical[of sample_bytes sample_delta "[1, 2, 3, 4, 5]"] sample_encodes
    by (simp add: sample_delta_def)
qed

text \<open>
  C29: for every base and every file whose pages can be numbered on the wire, the computed delta
  can be encoded, and what a device decodes rebuilds the file from the base byte by byte, also when
  the file has grown or shrunk.
\<close>

theorem page_delta_rebuilds:
  assumes "sizes_ok psz cur"
  shows "\<exists>bs. encode_sqlite_delta (compute_page_delta base cur psz) = Inr bs \<and>
    (length bs < 2 ^ 64 \<longrightarrow>
      (\<exists>d. decode_sqlite_delta bs = Inr d \<and> apply_page_delta base d = cur))"
  using encode_computed[OF assms] decode_encode computed_delta_ok[OF assms] apply_compute[OF assms]
  by blast

lemma page_delta_rebuilds_witness:
  "\<exists>bs. encode_sqlite_delta (compute_page_delta [1, 2, 3, 4, 5] [1, 2, 9] 2) = Inr bs \<and>
    (length bs < 2 ^ 64 \<longrightarrow>
      (\<exists>d. decode_sqlite_delta bs = Inr d \<and> apply_page_delta [1, 2, 3, 4, 5] d = [1, 2, 9]))"
  by (rule page_delta_rebuilds) (simp add: sizes_ok_def page_count_def)

section \<open>Files of two devices\<close>

definition sample_db :: sqlite_file where
  "sample_db = with_page_delta 100 (sqlite_new ''db'' ''/a/db'')"

definition sample_state :: sync_state where
  "sample_state = snd (state_set ''db'' [1, 2, 3] (state_new [1] ''a''))"

definition sample_files :: file_world where
  "sample_files = \<lparr>fw_files = [''/a/db'' \<mapsto> [1, 9, 3, 4], ''/a/db-wal'' \<mapsto> [7]], fw_faults = [], fw_events = []\<rparr>"



text \<open>
  without faults, what a device with page deltas reads back after loading a file is that
  file, except for exactly one kind of file: one cut from the base at a page boundary. For that one
  no page differs, the delta is cleared, and the state keeps standing for the base.
\<close>

theorem sqlite_truncation:
  assumes "sq_page_delta a = Some psz" and "state_get (sq_key a) s = Some base" and "sizes_ok psz bs"
  shows "\<exists>t. update_state_with_sqlite_bytes a bs s = (Inr (), t) \<and>
    (bytes_from_state a t = Some bs \<longleftrightarrow>
      \<not> (length bs < length base \<and> psz dvd length bs \<and> bs = take (length bs) base))"
  using update_delta[OF assms] by (force simp: truncates_def)

lemma sqlite_truncation_witness:
  "\<exists>t. update_state_with_sqlite_bytes sample_db [] sample_state = (Inr (), t) \<and>
    bytes_from_state sample_db t \<noteq> Some []"
proof -
  have "sq_page_delta sample_db = Some 512" "state_get (sq_key sample_db) sample_state = Some [1, 2, 3]"
    "sizes_ok 512 []"
    by (simp_all add: sample_db_def sample_state_def with_page_delta_def sqlite_new_def state_get_set
        sizes_ok_def page_count_def)
  from sqlite_truncation[OF this] show ?thesis by auto
qed

section \<open>The router\<close>

text \<open>
  C27: a router whose adapters keep the provided \<open>apply_entries\<close> (the file adapters do) leaves
  the same entries and the same counter as the last-writer-wins applier, whichever keys its
  adapters own, although it regroups the batch by adapter; and it does not fail.
\<close>

theorem router_refines_lww:
  assumes "state_ok s"
    and "list_all (\<lambda>a. da_apply_entries a = default_apply_entries) (router_adapters r)"
  shows "\<exists>n t. ap_apply_inbound (router_applier r) es s x = (Inr n, t, x) \<and>
    st_entries t = st_entries (snd (merge_snapshot es s)) \<and>
    st_counter t = st_counter (snd (merge_snapshot es s))"
proof -
  obtain n fs where run: "router_apply_inbound r es s x = (Inr n, fold lww_put fs s, x)"
    and same: "mset fs = mset es" "\<And>k. filter (\<lambda>e. e_key e = k) fs = filter (\<lambda>e. e_key e = k) es"
    using router_default[OF assms(2)] by blast
  have ok: "state_ok (fold lww_put xs s)" for xs by (rule lww.ok_puts[OF assms(1)])
  have "set fs = set es" using same(1) by (metis set_mset_mset)
  then have "st_counter (fold lww_put fs s) = st_counter (fold lww_put es s)"
    by (simp add: counter_puts)
  moreover have "st_entries (fold lww_put fs s) = st_entries (fold lww_put es s)"
    by (rule entry_of_ext[OF ok ok lww.puts_regroup[OF assms(1) same(2)]])
  ultimately show ?thesis using run by (simp add: router_applier_def merge_snapshot_fold)
qed

definition sample_router :: "file_world router" where
  "sample_router =
     snd (router_register (sqlite_adapter (sqlite_new ''db'' ''/db''))
       (snd (router_register (json_adapter (json_new ''j'' ''/j'')) [])))"

definition sample_entry :: "string \<Rightarrow> nat \<Rightarrow> entry" where
  "sample_entry k n = \<lparr>e_key = k, e_value = [of_nat n], e_clock = LamportClock (of_nat n) ''p''\<rparr>"

lemma router_refines_lww_witness:
  "\<exists>n t. ap_apply_inbound (router_applier sample_router)
      [sample_entry ''j'' 1, sample_entry ''db:wal'' 2, sample_entry ''other'' 3, sample_entry ''j'' 4]
      (state_new [1] ''a'') sample_files = (Inr n, t, sample_files) \<and>
    state_get ''j'' t = Some [4] \<and> st_counter t = 4"
proof -
  let ?es = "[sample_entry ''j'' 1, sample_entry ''db:wal'' 2, sample_entry ''other'' 3, sample_entry ''j'' 4]"
  have "list_all (\<lambda>a. da_apply_entries a = default_apply_entries) (router_adapters sample_router)"
    by (simp add: sample_router_def router_register_def router_adapters_def bm_values_def bm_has_def)
  from router_refines_lww[OF state_ok_new this, of ?es "[1]" "''a''" sample_files]
  obtain n t where "ap_apply_inbound (router_applier sample_router) ?es (state_new [1] ''a'') sample_files =
      (Inr n, t, sample_files)" and t: "st_entries t = st_entries (snd (merge_snapshot ?es (state_new [1] ''a'')))"
      "st_counter t = st_counter (snd (merge_snapshot ?es (state_new [1] ''a'')))"
    by blast
  moreover have "state_get ''j'' t = Some [4]" "st_counter t = 4"
    unfolding state_get_def t merge_snapshot_fold counter_puts
    by code_simp+
  ultimately show ?thesis by blast
qed

text \<open>
  every inbound entry is handed over exactly once, to the first adapter in id order that owns
  its key, or to the last-writer-wins merge when none does; entries of one key keep their order.
\<close>

theorem router_exactly_once:
  assumes "route_entries as es (replicate (length as) [], []) = (buckets, unowned)"
  shows "length buckets = length as \<and> mset (concat buckets @ unowned) = mset es \<and>
    (\<forall>i < length as. \<forall>e \<in> set (buckets ! i).
       da_owns_key (as ! i) (e_key e) \<and> (\<forall>j < i. \<not> da_owns_key (as ! j) (e_key e))) \<and>
    (\<forall>e \<in> set unowned. \<forall>a \<in> set as. \<not> da_owns_key a (e_key e)) \<and>
    (\<forall>k. filter (\<lambda>e. e_key e = k) (concat buckets @ unowned) = filter (\<lambda>e. e_key e = k) es)"
proof -
  note route = route_all[OF assms]
  have "\<forall>i < length as. \<forall>e \<in> set (buckets ! i).
      da_owns_key (as ! i) (e_key e) \<and> (\<forall>j < i. \<not> da_owns_key (as ! j) (e_key e))"
    by (simp add: route(1) owner_of_def position_Some)
  moreover have "\<forall>e \<in> set unowned. \<forall>a \<in> set as. \<not> da_owns_key a (e_key e)"
    by (simp add: route(2) owner_of_def position_None)
  ultimately show ?thesis
    using mset_route[OF assms] filter_key_route[OF assms] by (simp add: route(1))
qed

lemma router_exactly_once_witness:
  "let as = router_adapters sample_router;
       r = route_entries as [sample_entry ''j'' 1, sample_entry ''x'' 2] (replicate (length as) [], [])
   in mset (concat (fst r) @ snd r) = {# sample_entry ''j'' 1, sample_entry ''x'' 2 #}"
  using router_exactly_once[OF prod.collapse[symmetric], of "router_adapters sample_router"
      "[sample_entry ''j'' 1, sample_entry ''x'' 2]"] by (simp add: Let_def)

section \<open>Ticks\<close>

text \<open>The app writes its file, the watcher notices, and a tick runs.\<close>

definition app_writes :: "string \<Rightarrow> bytes \<Rightarrow> file_world \<Rightarrow> file_world" where
  "app_writes path bs w =
     w\<lparr>fw_files := (fw_files w)(path := Some bs), fw_events := fw_events w @ [Inr ()]\<rparr>"

definition edit_then_tick ::
  "(sync_state \<Rightarrow> adapter_cache \<Rightarrow> file_world \<Rightarrow> unit result \<times> sync_state \<times> adapter_cache \<times> file_world) \<Rightarrow>
   string \<Rightarrow> bytes \<Rightarrow> sync_state \<times> adapter_cache \<times> file_world \<Rightarrow>
   sync_state \<times> adapter_cache \<times> file_world" where
  "edit_then_tick tick path bs scw =
     (case scw of (s, c, w) \<Rightarrow> snd (tick s c (app_writes path bs w)))"

text \<open>State, cache and file hold the same value, and nothing is waiting.\<close>

definition settled :: "watched_file \<Rightarrow> bytes \<Rightarrow> sync_state \<times> adapter_cache \<times> file_world \<Rightarrow> bool" where
  "settled a v scw =
     (case scw of (s, c, w) \<Rightarrow>
        no_faults w \<and> fw_events w = [] \<and> state_get (wf_key a) s = Some v \<and>
        ac_last_bytes c = Some v \<and> fw_files w (wf_path a) = Some v)"

text \<open>
  C38: no edit of a watched file is lost: from a settled device, after any sequence of edits, each
  noticed and followed by a tick, state, cache and file hold the last edit.
\<close>

theorem watched_edits_survive:
  assumes "settled a v scw"
  shows "settled a (last (v # edits)) (fold (edit_then_tick (watched_sync_tick a) (wf_path a)) edits scw)"
  using assms
proof (induction edits arbitrary: v scw)
  case (Cons u edits)
  obtain s c w where scw: "scw = (s, c, w)" by (cases scw) auto
  have "settled a u (edit_then_tick (watched_sync_tick a) (wf_path a) u scw)"
    using Cons.prems watched_tick_changed[of "app_writes (wf_path a) u w" a s c]
    by (simp add: scw settled_def edit_then_tick_def app_writes_def no_faults_def tick_value_def
        tick_cache_def content_or_def)
  from Cons.IH[OF this] show ?case by simp
qed simp

definition sample_watch :: watched_file where
  "sample_watch = \<lparr>wf_id = ''n'', wf_path = ''/n'', wf_key = ''n'', wf_default_bytes = []\<rparr>"

definition settled_sample :: "sync_state \<times> adapter_cache \<times> file_world" where
  "settled_sample = (snd (state_set ''n'' [0] (state_new [1] ''a'')), empty_cache\<lparr>ac_last_bytes := Some [0]\<rparr>,
     \<lparr>fw_files = [''/n'' \<mapsto> [0]], fw_faults = [], fw_events = []\<rparr>)"

lemma watched_edits_survive_witness:
  "settled sample_watch [3]
     (fold (edit_then_tick (watched_sync_tick sample_watch) ''/n'') [[1], [2], [3]] settled_sample)"
proof -
  have "settled sample_watch [0] settled_sample"
    by (simp add: settled_def settled_sample_def sample_watch_def state_get_set no_faults_def)
  from watched_edits_survive[OF this, of "[[1], [2], [3]]"] show ?thesis
    by (simp add: sample_watch_def)
qed

text \<open>
  the JSON adapter's tick does not remember the file it read. After a tick that took in an
  edit of the app, the next edit is overwritten by the next tick with the previous one: the state
  keeps the older value and so does the file.
\<close>

theorem json_second_edit_lost:
  assumes "no_faults w" and "state_get (jf_key a) s = Some v" and "ac_last_bytes c = Some v"
    and "first \<noteq> v"
  shows "\<exists>t d u. json_sync_tick a s c (app_writes (jf_path a) first w) = (Inr (), t, d, u) \<and>
    state_get (jf_key a) t = Some first \<and>
    (\<forall>second. \<exists>t' d' u'. json_sync_tick a t d (app_writes (jf_path a) second u) = (Inr (), t', d', u') \<and>
       state_get (jf_key a) t' = Some first \<and> fw_files u' (jf_path a) = Some first)"
proof -
  have nf: "no_faults (app_writes p bs x)" if "no_faults x" for p bs x
    using that by (simp add: app_writes_def no_faults_def)
  have content: "content_or d' p (app_writes p bs x) = bs" for d' p bs x
    by (simp add: content_or_def app_writes_def)
  show ?thesis
    using assms
    by (simp add: json_tick_ok nf content tick_value_def tick_cache_def)
qed

lemma json_second_edit_lost_witness:
  "\<exists>t d u. json_sync_tick (json_new ''n'' ''/n'') (fst settled_sample) (fst (snd settled_sample))
      (app_writes ''/n'' [1] (snd (snd settled_sample))) = (Inr (), t, d, u) \<and>
    (\<exists>t' d' u'. json_sync_tick (json_new ''n'' ''/n'') t d (app_writes ''/n'' [2] u) = (Inr (), t', d', u') \<and>
       state_get ''n'' t' = Some [1])"
proof -
  have "no_faults (snd (snd settled_sample))"
    "state_get (jf_key (json_new ''n'' ''/n'')) (fst settled_sample) = Some [0]"
    "ac_last_bytes (fst (snd settled_sample)) = Some [0]" "[1] \<noteq> [0 :: u8]"
    by (simp_all add: settled_sample_def no_faults_def json_new_def state_get_set)
  from json_second_edit_lost[OF this] show ?thesis by (simp add: json_new_def) blast
qed

end
