(* ===== verification/Logical_Adapters.thy ===== *)
theory Logical_Adapters
  imports File_Adapters Merge
begin

text \<open>
  Logical adapters: the \<open>LogicalAdapter\<close> trait and its wrapper as a \<open>DataAdapter\<close>
  (\<open>adapter.rs\<close>), and the two adapters of \<open>logical.rs\<close>, one over records in memory and one over
  a JSON file. A \<open>RecordState\<close> is the device's state seen through a namespace, so the hooks take
  that state; \<open>serde_json\<close> is the pair of functions of \<open>records_codec\<close>.
\<close>

section \<open>The trait and its wrapper\<close>

record 'x logical_adapter =
  la_id :: string
  la_namespace :: string
  la_merge_policy :: "string \<Rightarrow> merge_policy"
  la_merge_custom_field :: custom_merge
  la_capabilities :: adapter_capabilities
  la_load_records :: "sync_state \<Rightarrow> 'x \<Rightarrow> unit result \<times> sync_state \<times> 'x"
  la_apply_records :: "sync_state \<Rightarrow> 'x \<Rightarrow> unit result \<times> 'x"
  la_export_snapshot :: "sync_state \<Rightarrow> sync_record list result"
  la_apply_snapshot :: "sync_record list \<Rightarrow> sync_state \<Rightarrow> 'x \<Rightarrow> nat result \<times> sync_state \<times> 'x"

definition on_records ::
  "(sync_state \<Rightarrow> 'r \<times> sync_state) \<Rightarrow> sync_state \<Rightarrow> 'x \<Rightarrow> 'r \<times> sync_state \<times> 'x" where
  "on_records f s x = (case f s of (r, s) \<Rightarrow> (r, s, x))"

text \<open>The provided methods of the trait.\<close>

definition default_logical ::
  "payload_codec \<Rightarrow> string \<Rightarrow> string \<Rightarrow> (sync_state \<Rightarrow> 'x \<Rightarrow> unit result \<times> sync_state \<times> 'x) \<Rightarrow>
   (sync_state \<Rightarrow> 'x \<Rightarrow> unit result \<times> 'x) \<Rightarrow> 'x logical_adapter" where
  "default_logical cd ident namespace load store =
     \<lparr>la_id = ident, la_namespace = namespace, la_merge_policy = (\<lambda>_. LastWriterWins),
      la_merge_custom_field = (\<lambda>_ _ _ _ _. None), la_capabilities = logical_snapshot,
      la_load_records = load, la_apply_records = store,
      la_export_snapshot = view_snapshot cd namespace,
      la_apply_snapshot = (\<lambda>rs. on_records (rs_merge_snapshot cd namespace rs))\<rparr>"

text \<open>
  The wrapper decodes the entries of a batch that belong to its namespace with the loop of a
  view; the first undecodable one is an error.
\<close>

definition wrapper_apply_entries ::
  "payload_codec \<Rightarrow> 'x logical_adapter \<Rightarrow> entry list \<Rightarrow> sync_state \<Rightarrow> 'x \<Rightarrow> nat result \<times> sync_state \<times> 'x" where
  "wrapper_apply_entries cd la es s x =
     (case view_records cd (la_namespace la) es of
        Inl e \<Rightarrow> (Inl e, s, x)
      | Inr rs \<Rightarrow> la_apply_snapshot la rs s x)"

definition wrapper_export_snapshot ::
  "payload_codec \<Rightarrow> 'x logical_adapter \<Rightarrow> sync_state \<Rightarrow> entry list result" where
  "wrapper_export_snapshot cd la s =
     bindR (la_export_snapshot la s) (traverseR (record_to_entry cd (la_namespace la)))"

definition wrapper_owns_key :: "'x logical_adapter \<Rightarrow> string \<Rightarrow> bool" where
  "wrapper_owns_key la key =
     (case parse_record_key key of
        Inr (Some parts) \<Rightarrow> kp_namespace parts = la_namespace la
      | _ \<Rightarrow> False)"

definition logical_wrapper :: "payload_codec \<Rightarrow> 'x logical_adapter \<Rightarrow> 'x data_adapter" where
  "logical_wrapper cd la =
     (default_data_adapter (la_id la) Logical (la_load_records la) (la_apply_records la))
     \<lparr>da_capabilities := la_capabilities la,
      da_export_snapshot := wrapper_export_snapshot cd la,
      da_apply_entries := wrapper_apply_entries cd la,
      da_owns_key := wrapper_owns_key la\<rparr>"

section \<open>What an app configures\<close>

type_synonym merge_handler = "string \<Rightarrow> field_value option \<Rightarrow> field_value \<Rightarrow> bool \<Rightarrow> field_value option"

record logical_config =
  lc_id :: string
  lc_namespace :: string
  lc_merge_policies :: "string \<Rightarrow> merge_policy option"
  lc_custom_merge_handlers :: "string \<Rightarrow> merge_handler option"

definition memory_new :: "string \<Rightarrow> string \<Rightarrow> logical_config" where
  "memory_new ident namespace =
     \<lparr>lc_id = ident, lc_namespace = namespace, lc_merge_policies = Map.empty,
      lc_custom_merge_handlers = Map.empty\<rparr>"

definition with_merge_policy :: "string \<Rightarrow> merge_policy \<Rightarrow> 'z logical_config_scheme \<Rightarrow> 'z logical_config_scheme" where
  "with_merge_policy field policy a = a\<lparr>lc_merge_policies := (lc_merge_policies a)(field := Some policy)\<rparr>"

definition with_custom_merge_handler ::
  "string \<Rightarrow> merge_handler \<Rightarrow> 'z logical_config_scheme \<Rightarrow> 'z logical_config_scheme" where
  "with_custom_merge_handler name handler a =
     a\<lparr>lc_custom_merge_handlers := (lc_custom_merge_handlers a)(name := Some handler)\<rparr>"

definition config_merge_policy :: "'z logical_config_scheme \<Rightarrow> string \<Rightarrow> merge_policy" where
  "config_merge_policy a field =
     (case lc_merge_policies a field of None \<Rightarrow> LastWriterWins | Some p \<Rightarrow> p)"

definition config_merge_custom :: "'z logical_config_scheme \<Rightarrow> custom_merge" where
  "config_merge_custom a name field existing incoming newer =
     (case lc_custom_merge_handlers a name of
        None \<Rightarrow> None
      | Some handler \<Rightarrow> handler field existing incoming newer)"

definition config_apply_snapshot ::
  "payload_codec \<Rightarrow> 'z logical_config_scheme \<Rightarrow> sync_record list \<Rightarrow> sync_state \<Rightarrow> nat result \<times> sync_state" where
  "config_apply_snapshot cd a rs s =
     apply_snapshot_with_policy cd (lc_namespace a) (config_merge_policy a) (config_merge_custom a) rs s"

text \<open>\<open>records.apply(record)?\<close> for each record of a list.\<close>

definition apply_each :: "payload_codec \<Rightarrow> string \<Rightarrow> sync_record list \<Rightarrow> sync_state \<Rightarrow> unit result \<times> sync_state" where
  "apply_each cd namespace rs s =
     forS (\<lambda>r s. bindS (rs_apply cd namespace r s) (\<lambda>_ s. (Inr (), s))) rs s"

section \<open>Records in memory\<close>

text \<open>A record's place, as the list of the three parts the code keys its map by.\<close>

definition record_key :: "sync_record \<Rightarrow> string list" where
  "record_key r = [r_schema r, r_entity r, r_id r]"

type_synonym record_store = "(string list, sync_record) bmap"

text \<open>The app world: files, and one in-memory store per adapter id.\<close>

record app_world = file_world +
  aw_stores :: "string \<Rightarrow> record_store"

definition memory_upsert_record :: "logical_config \<Rightarrow> sync_record \<Rightarrow> app_world \<Rightarrow> app_world" where
  "memory_upsert_record a r x =
     x\<lparr>aw_stores := (aw_stores x)(lc_id a := bm_insert (record_key r) r (aw_stores x (lc_id a)))\<rparr>"

definition memory_record :: "logical_config \<Rightarrow> string \<Rightarrow> string \<Rightarrow> string \<Rightarrow> app_world \<Rightarrow> sync_record option" where
  "memory_record a schema entity ident x = bm_get (aw_stores x (lc_id a)) [schema, entity, ident]"

definition memory_load_records ::
  "payload_codec \<Rightarrow> logical_config \<Rightarrow> sync_state \<Rightarrow> app_world \<Rightarrow> unit result \<times> sync_state \<times> app_world" where
  "memory_load_records cd a s x =
     on_records (apply_each cd (lc_namespace a) (bm_values (aw_stores x (lc_id a)))) s x"

definition store_of :: "sync_record list \<Rightarrow> record_store" where
  "store_of rs = fold (\<lambda>r m. bm_insert (record_key r) r m) rs []"

definition memory_apply_records ::
  "payload_codec \<Rightarrow> logical_config \<Rightarrow> sync_state \<Rightarrow> app_world \<Rightarrow> unit result \<times> app_world" where
  "memory_apply_records cd a s x =
     (case view_snapshot cd (lc_namespace a) s of
        Inl e \<Rightarrow> (Inl e, x)
      | Inr rs \<Rightarrow> (Inr (), x\<lparr>aw_stores := (aw_stores x)(lc_id a := store_of rs)\<rparr>))"

definition memory_logical :: "payload_codec \<Rightarrow> logical_config \<Rightarrow> app_world logical_adapter" where
  "memory_logical cd a =
     (default_logical cd (lc_id a) (lc_namespace a) (memory_load_records cd a) (memory_apply_records cd a))
     \<lparr>la_merge_policy := config_merge_policy a, la_merge_custom_field := config_merge_custom a,
      la_apply_snapshot := (\<lambda>rs. on_records (config_apply_snapshot cd a rs))\<rparr>"

section \<open>Records in a file\<close>

record records_codec =
  rc_to_vec_pretty :: "sync_record list \<Rightarrow> bytes result"
  rc_from_slice :: "bytes \<Rightarrow> sync_record list result"

record file_logical = logical_config +
  fl_path :: string

definition file_logical_new :: "string \<Rightarrow> string \<Rightarrow> string \<Rightarrow> file_logical" where
  "file_logical_new ident namespace path =
     \<lparr>lc_id = ident, lc_namespace = namespace, lc_merge_policies = Map.empty,
      lc_custom_merge_handlers = Map.empty, fl_path = path\<rparr>"

definition file_logical_ensure :: "file_logical \<Rightarrow> 'z files \<Rightarrow> unit result \<times> 'z files" where
  "file_logical_ensure a w = ensure_file_with_default (fl_path a) (str_bytes ''[]'') w"

definition file_load_records ::
  "payload_codec \<Rightarrow> records_codec \<Rightarrow> file_logical \<Rightarrow> sync_state \<Rightarrow> 'z files \<Rightarrow>
   unit result \<times> sync_state \<times> 'z files" where
  "file_load_records cd rc a s w =
     bindS (on_files (file_logical_ensure a) (s, w)) (\<lambda>_ sw.
     bindS (on_files (fs_read (fl_path a)) sw) (\<lambda>data (s, w).
       if data = [] then (Inr (), s, w)
       else (case rc_from_slice rc data of
               Inl e \<Rightarrow> (Inl e, s, w)
             | Inr rs \<Rightarrow> on_records (apply_each cd (lc_namespace a) (sort_key record_key rs)) s w)))"

definition file_apply_records ::
  "payload_codec \<Rightarrow> records_codec \<Rightarrow> file_logical \<Rightarrow> sync_state \<Rightarrow> 'z files \<Rightarrow> unit result \<times> 'z files" where
  "file_apply_records cd rc a s w =
     bindS (file_logical_ensure a w) (\<lambda>_ w.
     bindS (view_snapshot cd (lc_namespace a) s, w) (\<lambda>rs w.
     bindS (rc_to_vec_pretty rc (sort_key record_key rs), w) (\<lambda>data w.
       fs_write (fl_path a) data w)))"

definition file_logical_adapter ::
  "payload_codec \<Rightarrow> records_codec \<Rightarrow> file_logical \<Rightarrow> 'z files logical_adapter" where
  "file_logical_adapter cd rc a =
     (default_logical cd (lc_id a) (lc_namespace a) (file_load_records cd rc a) (file_apply_records cd rc a))
     \<lparr>la_merge_policy := config_merge_policy a, la_merge_custom_field := config_merge_custom a,
      la_apply_snapshot := (\<lambda>rs. on_records (config_apply_snapshot cd a rs))\<rparr>"

end
