(* ===== verification/Adapter_Contract.thy ===== *)
theory Adapter_Contract
  imports Logical_Adapters Router
begin

text \<open>
  What the engine and the router rely on in an adapter, as a locale: its hooks keep the device's
  state well formed, also when they fail half-way. The file-backed and logical adapters of the
  crate provide it, and a router over such adapters is such an applier.
\<close>

locale sound_adapter =
  fixes d :: "'x data_adapter"
  assumes load_keeps: "state_ok s \<Longrightarrow> state_ok (fst (snd (da_load_into_state d s x)))"
    and entries_keep: "state_ok s \<Longrightarrow> state_ok (fst (snd (da_apply_entries d es s x)))"
    and tick_keeps: "state_ok s \<Longrightarrow> state_ok (fst (snd (da_sync_tick d s c x)))"
begin

lemma load_then: "state_ok s \<Longrightarrow> da_load_into_state d s x = (r, s', x') \<Longrightarrow> state_ok s'"
  using load_keeps[of s x] by simp

lemma entries_then: "state_ok s \<Longrightarrow> da_apply_entries d es s x = (r, s', x') \<Longrightarrow> state_ok s'"
  using entries_keep[of s es x] by simp

end

section \<open>Values written by the adapters\<close>

lemma state_ok_update:
  "state_ok s \<Longrightarrow> update_state_with_sqlite_bytes a bs s = (r, t) \<Longrightarrow> state_ok t"
  by (auto simp: update_state_with_sqlite_bytes_def Let_def state_ok_set_changed state_ok_set
      split: option.splits sum.splits if_splits)

lemma default_entries_keep: "state_ok s \<Longrightarrow> state_ok (fst (snd (default_apply_entries es s x)))"
  by (simp add: default_apply_fold lww.ok_puts)

text \<open>File operations and the writing half of a tick leave the state alone.\<close>

lemma on_files_state: "fst (snd (on_files f sw)) = fst sw"
  by (simp add: on_files_def split: prod.split)

lemma on_tick_state: "fst (snd (on_tick f scw)) = fst scw"
  by (simp add: on_tick_def split: prod.split)

lemma tick_write_state: "fst (snd (tick_write p v scw)) = fst scw"
  by (auto simp: tick_write_def split: prod.split option.split sum.split)

lemma tick_side_state: "fst (snd (tick_side get put p v scw)) = fst scw"
  by (auto simp: tick_side_def split: prod.split option.split sum.split)

text \<open>So a chain of them starts the next step from a well-formed state.\<close>

lemma bindS_keeps:
  assumes "state_ok (fst (snd m))" and "\<And>x s w. state_ok s \<Longrightarrow> state_ok (fst (snd (g x (s, w))))"
  shows "state_ok (fst (snd (bindS m g)))"
  using assms by (cases m; cases "fst m") auto

lemmas keeps_steps = on_files_state on_tick_state tick_write_state tick_side_state

section \<open>The file adapters\<close>

lemma json_load_keeps: "state_ok s \<Longrightarrow> state_ok (fst (snd (json_load_into_state a s w)))"
  unfolding json_load_into_state_def
  by (intro bindS_keeps) (simp_all add: keeps_steps state_ok_set_changed)

lemma json_tick_keeps: "state_ok s \<Longrightarrow> state_ok (fst (snd (json_sync_tick a s c w)))"
  unfolding json_sync_tick_def
  by (intro bindS_keeps) (auto simp: keeps_steps state_ok_set_changed)

lemma watched_load_keeps: "state_ok s \<Longrightarrow> state_ok (fst (snd (watched_load_into_state a s w)))"
  unfolding watched_load_into_state_def
  by (intro bindS_keeps) (simp_all add: keeps_steps state_ok_set_changed)

lemma watched_tick_keeps: "state_ok s \<Longrightarrow> state_ok (fst (snd (watched_sync_tick a s c w)))"
  unfolding watched_sync_tick_def Let_def
  by (intro bindS_keeps)
    (auto simp: keeps_steps state_ok_set_changed intro!: bindS_keeps)

lemma sqlite_load_keeps: "state_ok s \<Longrightarrow> state_ok (fst (snd (sqlite_load_into_state a s w)))"
  unfolding sqlite_load_into_state_def
  by (intro bindS_keeps)
    (auto simp: keeps_steps state_ok_set_changed intro!: bindS_keeps dest: state_ok_update split: prod.split)

lemma sqlite_tick_keeps: "state_ok s \<Longrightarrow> state_ok (fst (snd (sqlite_sync_tick a s c w)))"
  unfolding sqlite_sync_tick_def
  by (intro bindS_keeps)
    (auto simp: keeps_steps state_ok_set_changed intro!: bindS_keeps dest: state_ok_update split: prod.split)

lemmas adapter_defs = default_data_adapter_def default_apply_fold

interpretation json: sound_adapter "json_adapter a" for a
  by unfold_locales
    (simp_all add: json_adapter_def adapter_defs json_load_keeps json_tick_keeps lww.ok_puts)

interpretation watched: sound_adapter "watched_adapter a" for a
  by unfold_locales
    (simp_all add: watched_adapter_def adapter_defs watched_load_keeps watched_tick_keeps lww.ok_puts)

interpretation sqlite: sound_adapter "sqlite_adapter a" for a
  by unfold_locales
    (simp_all add: sqlite_adapter_def adapter_defs sqlite_load_keeps sqlite_tick_keeps lww.ok_puts)

section \<open>The logical adapters\<close>

lemma apply_each_keeps: "state_ok s \<Longrightarrow> state_ok (snd (apply_each cd ns rs s))"
  unfolding apply_each_def
proof (rule forS_invariant)
  fix t and r :: sync_record
  assume "state_ok t"
  then show "state_ok (snd (bindS (rs_apply cd ns r t) (\<lambda>_ s. (Inr (), s))))"
    using state_ok_rs_apply[of t cd ns r]
    by (cases "rs_apply cd ns r t"; cases "fst (rs_apply cd ns r t)") simp_all
qed

lemma config_apply_keeps: "state_ok s \<Longrightarrow> state_ok (snd (config_apply_snapshot cd a rs s))"
  unfolding config_apply_snapshot_def apply_snapshot_with_policy_def
  by (rule countS_invariant)
    (auto simp: merge_one_def state_ok_rs_upsert split: sum.split)

lemma on_records_keeps: "state_ok (snd (f s)) \<Longrightarrow> state_ok (fst (snd (on_records f s x)))"
  by (cases "f s") (simp add: on_records_def)

text \<open>A logical adapter whose own hooks keep the state is sound behind its wrapper.\<close>

lemma wrapper_sound:
  assumes load: "\<And>s x. state_ok s \<Longrightarrow> state_ok (fst (snd (la_load_records la s x)))"
    and snap: "\<And>rs s x. state_ok s \<Longrightarrow> state_ok (fst (snd (la_apply_snapshot la rs s x)))"
  shows "sound_adapter (logical_wrapper cd la)"
proof
  fix s :: sync_state and x es c
  assume ok: "state_ok s"
  show "state_ok (fst (snd (da_load_into_state (logical_wrapper cd la) s x)))"
    using load[OF ok] by (simp add: logical_wrapper_def default_data_adapter_def)
  show "state_ok (fst (snd (da_apply_entries (logical_wrapper cd la) es s x)))"
    using snap[OF ok] ok
    by (simp add: logical_wrapper_def default_data_adapter_def wrapper_apply_entries_def split: sum.split)
  show "state_ok (fst (snd (da_sync_tick (logical_wrapper cd la) s c x)))"
    using load[OF ok, of x]
    by (auto simp: logical_wrapper_def default_data_adapter_def default_sync_tick_def
        split: prod.split sum.split)
qed

lemma file_load_keeps: "state_ok s \<Longrightarrow> state_ok (fst (snd (file_load_records cd rc a s w)))"
  unfolding file_load_records_def
  by (intro bindS_keeps)
    (auto simp: keeps_steps intro!: bindS_keeps on_records_keeps apply_each_keeps split: sum.split)

interpretation memory: sound_adapter "logical_wrapper cd (memory_logical cd a)" for cd a
  by (rule wrapper_sound)
    (simp_all add: memory_logical_def default_logical_def memory_load_records_def on_records_keeps
      apply_each_keeps config_apply_keeps)

interpretation filed: sound_adapter "logical_wrapper cd (file_logical_adapter cd rc a)" for cd rc a
  by (rule wrapper_sound)
    (simp_all add: file_logical_adapter_def default_logical_def file_load_keeps on_records_keeps
      config_apply_keeps)

section \<open>Routers over sound adapters\<close>

lemma load_all_keeps:
  assumes "list_all sound_adapter as" and "state_ok s"
  shows "state_ok (fst (snd (load_all as s x)))"
  using assms
proof (induction as arbitrary: s x)
  case (Cons d as)
  then have "sound_adapter d" by simp
  from sound_adapter.load_keeps[OF this, of s x] show ?case
    using Cons by (auto split: prod.split sum.split)
qed simp

lemma apply_buckets_keeps:
  assumes "list_all sound_adapter (map fst bs)" and "state_ok s"
  shows "state_ok (fst (snd (apply_buckets bs n s x)))"
  using assms
proof (induction bs arbitrary: n s x)
  case (Cons p bs)
  obtain d es where p: "p = (d, es)" by (cases p)
  then have d: "sound_adapter d" using Cons.prems by simp
  show ?case
    using Cons p sound_adapter.entries_keep[OF d, of s es x] by (auto split: prod.split sum.split)
qed simp

section \<open>The exchange over any sound applier\<close>

text \<open>
  What the critical sections of an exchange rely on in the applier: its calls keep the state well
  formed however they end.
\<close>

locale sound_applier =
  fixes ap :: "'x applier"
  assumes apply_keeps: "state_ok s \<Longrightarrow> state_ok (fst (snd (ap_apply_inbound ap es s x)))"
    and export_keeps: "state_ok s \<Longrightarrow> state_ok (fst (snd (ap_before_export ap s x)))"
begin

lemma inbound_keeps: "state_ok s \<Longrightarrow> state_ok (fst (snd (inbound ap d es s x)))"
  using apply_keeps[of "s\<lparr>st_inbound_origin := Some d\<rparr>" es x]
  by (auto simp: inbound_def with_inbound_origin_def split: prod.split)

lemma client_section_keeps:
  "state_ok s \<Longrightarrow> state_ok (fst (snd (client_section ap d acked rc es s x)))"
  using inbound_keeps[of s d es x]
  by (auto simp: client_section_def Let_def state_ok_set_peer_cursor split: prod.split sum.split)

lemma server_export_keeps: "state_ok s \<Longrightarrow> state_ok (fst (snd (server_export ap d cursor s x)))"
  using export_keeps[of s x] by (auto simp: server_export_def split: prod.split sum.split)

lemma server_receive_keeps: "state_ok s \<Longrightarrow> state_ok (fst (snd (server_receive ap d rc es s x)))"
  using inbound_keeps[of s d es x]
  by (auto simp: server_receive_def Let_def state_ok_set_peer_cursor split: prod.split sum.split option.split)

end

interpretation lww_sound: sound_applier lww_applier
  by unfold_locales (simp_all add: lww_applier_def merge_snapshot_fold[symmetric] lww.ok_puts
      state_ok_merge_snapshot split: prod.split, metis snd_conv state_ok_merge_snapshot)

lemma router_sound:
  assumes "list_all sound_adapter (router_adapters r)"
  shows "sound_applier (router_applier r)"
proof
  fix s :: sync_state and x es
  assume ok: "state_ok s"
  show "state_ok (fst (snd (ap_before_export (router_applier r) s x)))"
    using load_all_keeps[OF assms ok] by (simp add: router_applier_def router_before_export_def)
  obtain bs us where route: "route_entries (router_adapters r) es (replicate (length (router_adapters r)) [], []) = (bs, us)"
    by fastforce
  have "list_all sound_adapter (map fst (zip (router_adapters r) bs))"
    using assms by (simp add: route_all(1)[OF route])
  from apply_buckets_keeps[OF this ok, of 0 x]
  show "state_ok (fst (snd (ap_apply_inbound (router_applier r) es s x)))"
    by (auto simp: router_applier_def router_apply_inbound_def Let_def route split: prod.split sum.split)
      (metis snd_conv state_ok_merge_snapshot)
qed

end
