(* ===== verification/Props_Logical.thy ===== *)
theory Props_Logical
  imports Adapter_Contract Props_Records
begin

text \<open>
  Properties of logical adapters behind the router: field merges during a synchronization, and
  stores that agree with the state.
\<close>

section \<open>Upserting a merged record\<close>

definition merge_into ::
  "(string \<Rightarrow> merge_policy) \<Rightarrow> custom_merge \<Rightarrow> sync_record \<Rightarrow> sync_record option \<Rightarrow> sync_record" where
  "merge_into policy custom r existing =
     stamp_field_clocks existing
       (case existing of Some ex \<Rightarrow> merge_records policy custom ex r | None \<Rightarrow> r)"

lemma merge_records_place:
  assumes "r_schema ex = r_schema r" and "r_entity ex = r_entity r" and "r_id ex = r_id r"
  shows "r_schema (merge_records policy custom ex r) = r_schema r"
    and "r_entity (merge_records policy custom ex r) = r_entity r"
    and "r_id (merge_records policy custom ex r) = r_id r"
  using assms by (simp_all add: merge_records_def Let_def split: prod.split)

lemma rs_get_place:
  assumes "utf8_record ns r" and "state_ok s"
    and "rs_get cd ns (r_schema r) (r_entity r) (r_id r) s = Inr (Some ex)"
  shows "r_schema ex = r_schema r \<and> r_entity ex = r_entity r \<and> r_id ex = r_id r"
proof -
  let ?k = "record_entry_key ns (r_schema r) (r_entity r) (r_id r)"
  obtain e where e: "bm_get (st_entries s) ?k = Some e" "entry_to_record cd e ns = Inr (Some ex)"
    using assms(3) by (auto simp: rs_get_def split: option.splits)
  have "e_key e = ?k" using assms(2) e(1) by (simp add: state_ok_def)
  then show ?thesis
    using entry_to_record_key(1)[OF e(2)] assms(1) by (simp add: utf8_record_def parse_record_entry_key)
qed

lemma rs_upsert_get:
  assumes "utf8_record ns r" and "rs_get cd ns (r_schema r) (r_entity r) (r_id r) s = Inr existing"
    and "codec_keeps cd (payload_of (stamp_field_clocks existing r))"
  shows "\<exists>b t. rs_upsert cd ns r s = (Inr b, t) \<and>
    rs_get cd ns (r_schema r) (r_entity r) (r_id r) t = Inr (Some (stamp_field_clocks existing r))"
proof -
  let ?k = "record_entry_key ns (r_schema r) (r_entity r) (r_id r)"
  have "utf8_record ns (stamp_field_clocks existing r)" using assms(1) by (simp add: utf8_record_def)
  from record_entry_roundtrip[OF this assms(3)] obtain e where
    e: "record_to_entry cd ns (stamp_field_clocks existing r) = Inr e"
      "entry_to_record cd e ns = Inr (Some (stamp_field_clocks existing r))" "e_key e = ?k" by auto
  obtain b t where t: "upsert_entry e s = (b, t)" by fastforce
  have "bm_get (st_entries t) ?k = Some e"
    using t e(3) by (auto simp: upsert_entry_def Let_def bm_get_insert split: if_splits)
  then have "rs_get cd ns (r_schema r) (r_entity r) (r_id r) t = Inr (Some (stamp_field_clocks existing r))"
    using e(2) by (simp add: rs_get_def)
  then show ?thesis using t e(1) by (simp add: rs_upsert_def assms(2))
qed

lemma merge_one_get:
  assumes "state_ok s" and "utf8_record ns r"
    and "rs_get cd ns (r_schema r) (r_entity r) (r_id r) s = Inr existing"
    and "codec_keeps cd (payload_of (merge_into policy custom r existing))"
  shows "\<exists>b t. merge_one cd ns policy custom r s = (Inr b, t) \<and>
    rs_get cd ns (r_schema r) (r_entity r) (r_id r) t = Inr (Some (merge_into policy custom r existing))"
proof (cases existing)
  case None
  then show ?thesis using rs_upsert_get[of ns r cd s existing] assms by (simp add: merge_one_def merge_into_def)
next
  case (Some ex)
  let ?m = "merge_records policy custom ex r"
  note place = rs_get_place[OF assms(2,1) assms(3)[unfolded Some]]
  have at: "r_schema ?m = r_schema r" "r_entity ?m = r_entity r" "r_id ?m = r_id r"
    using merge_records_place place by simp_all
  show ?thesis
    using rs_upsert_get[of ns ?m cd s existing] assms Some at
    by (simp add: merge_one_def merge_into_def utf8_record_def)
qed

section \<open>A router with one owner\<close>

lemma find_position:
  "find P xs = Some y \<longleftrightarrow> (\<exists>i. position P xs = Some i \<and> xs ! i = y)"
  by (induction xs) auto

lemma apply_buckets_empty:
  "apply_buckets (zip as (replicate n [])) m s x = (Inr m, s, x)"
proof (induction as arbitrary: n)
  case (Cons a as)
  then show ?case by (cases n) simp_all
qed simp

lemma apply_buckets_single:
  assumes "i < length as" and "b \<noteq> []"
  shows "apply_buckets (zip as ((replicate (length as) [])[i := b])) m s x =
    (case da_apply_entries (as ! i) b s x of
       (Inl e, s, x) \<Rightarrow> (Inl e, s, x) | (Inr n, s, x) \<Rightarrow> (Inr (m + n), s, x))"
  using assms
proof (induction as arbitrary: i)
  case (Cons a as)
  have none: "apply_buckets (zip as (replicate (length as) [])) k t y = (Inr k, t, y)" for k t y
    by (rule apply_buckets_empty)
  show ?case
  proof (cases i)
    case 0
    then show ?thesis using Cons.prems none by (simp split: prod.split sum.split)
  next
    case (Suc j)
    then show ?thesis using Cons by simp
  qed
qed simp

lemma router_single:
  assumes "find (\<lambda>a. da_owns_key a (e_key e)) (router_adapters r) = Some d"
  shows "router_apply_inbound r [e] s x = da_apply_entries d [e] s x"
proof -
  obtain i where i: "position (\<lambda>a. da_owns_key a (e_key e)) (router_adapters r) = Some i"
    "router_adapters r ! i = d" using assms by (auto simp: find_position)
  then have "i < length (router_adapters r)" by (simp add: position_Some)
  then show ?thesis
    using i apply_buckets_single[of i "router_adapters r" "[e]" 0 s x]
    by (simp add: router_apply_inbound_def Let_def merge_snapshot_def split: prod.split sum.split)
qed

section \<open>Field merges during a synchronization\<close>

text \<open>
  an inbound record whose key belongs to a logical adapter is merged field by field, with the
  adapter's policies and custom handlers, into the record the device holds, and not overwritten:
  afterwards the device reads the merge of its record with the incoming one, stamped with field
  clocks, whatever other adapters the router has.
\<close>

theorem router_merges_fields:
  assumes "state_ok s" and "utf8_record (lc_namespace a) inc"
    and "record_to_entry cd (lc_namespace a) inc = Inr e" and "codec_keeps cd (payload_of inc)"
    and "find (\<lambda>d. da_owns_key d (e_key e)) (router_adapters r) = Some (logical_wrapper cd (memory_logical cd a))"
    and "rs_get cd (lc_namespace a) (r_schema inc) (r_entity inc) (r_id inc) s = Inr existing"
    and "codec_keeps cd (payload_of (merge_into (config_merge_policy a) (config_merge_custom a) inc existing))"
  shows "\<exists>n t. router_apply_inbound r [e] s x = (Inr n, t, x) \<and>
    rs_get cd (lc_namespace a) (r_schema inc) (r_entity inc) (r_id inc) t =
      Inr (Some (merge_into (config_merge_policy a) (config_merge_custom a) inc existing))"
proof -
  have one: "entry_to_record cd e (lc_namespace a) = Inr (Some inc)"
    using record_entry_roundtrip[OF assms(2,4)] assms(3) by auto
  obtain b t where "merge_one cd (lc_namespace a) (config_merge_policy a) (config_merge_custom a) inc s = (Inr b, t)"
    "rs_get cd (lc_namespace a) (r_schema inc) (r_entity inc) (r_id inc) t =
      Inr (Some (merge_into (config_merge_policy a) (config_merge_custom a) inc existing))"
    using merge_one_get[OF assms(1,2,6,7)] by blast
  then show ?thesis
    using one unfolding router_single[OF assms(5)]
    by (simp add: logical_wrapper_def wrapper_apply_entries_def memory_logical_def default_logical_def
        on_records_def config_apply_snapshot_def apply_snapshot_with_policy_def)
qed

section \<open>Stores agree with the state\<close>

lemma view_record_get:
  assumes "canonical cd ns s" and "state_ok s" and "view_snapshot cd ns s = Inr rs" and "r \<in> set rs"
  shows "rs_get cd ns (r_schema r) (r_entity r) (r_id r) s = Inr (Some r)"
proof -
  obtain e where e: "e \<in> set (state_snapshot s)" "entry_to_record cd e ns = Inr (Some r)"
    using view_records_set assms(3,4) unfolding view_snapshot_def by blast
  then obtain k where k: "bm_get (st_entries s) k = Some e"
    using assms(2) set_bm_values[of "st_entries s" e] by (auto simp: state_snapshot_def state_ok_def)
  then have "k = record_entry_key ns (r_schema r) (r_entity r) (r_id r)"
    using assms(1) e(2) by (simp add: canonical_def)
  then show ?thesis using k e(2) by (simp add: rs_get_def)
qed

lemma apply_each_present:
  assumes "\<forall>r \<in> set rs. rs_get cd ns (r_schema r) (r_entity r) (r_id r) s = Inr (Some r)"
  shows "apply_each cd ns rs s = (Inr (), s)"
  using assms unfolding apply_each_def by (induction rs) (simp_all add: rs_apply_def)

text \<open>
  what a file-backed logical adapter wrote is what it reads: after the merged records were
  stored without faults, loading the file again succeeds and changes nothing in the state, so a
  device does not turn its own write into new entries.
\<close>

theorem file_store_then_load:
  assumes "no_faults w" and "state_ok s" and "canonical cd (lc_namespace a) s"
    and "view_snapshot cd (lc_namespace a) s = Inr rs"
    and "rc_to_vec_pretty rc (sort_key record_key rs) = Inr data"
    and "rc_from_slice rc data = Inr (sort_key record_key rs)" and "data \<noteq> []"
  shows "\<exists>w'. file_apply_records cd rc a s w = (Inr (), w') \<and> fw_files w' (fl_path a) = Some data \<and>
    file_load_records cd rc a s w' = (Inr (), s, w')"
proof -
  let ?w = "w\<lparr>fw_files := (fw_files w)(fl_path a := Some data)\<rparr>"
  have store: "file_apply_records cd rc a s w = (Inr (), ?w)"
    using assms by (simp add: file_apply_records_def file_logical_ensure_def fs_simps)
  have "apply_each cd (lc_namespace a) (sort_key record_key rs) s = (Inr (), s)"
    using view_record_get[OF assms(3,2,4)] by (intro apply_each_present) simp
  moreover have "sort_key record_key (sort_key record_key rs) = sort_key record_key rs"
    by (simp add: sort_key_id_if_sorted)
  ultimately have "file_load_records cd rc a s ?w = (Inr (), s, ?w)"
    using assms(1,6,7)
    by (simp add: file_load_records_def file_logical_ensure_def on_files_def fs_simps content_or_def on_records_def)
  then show ?thesis using store by simp
qed

section \<open>The state under any mix of adapters\<close>

definition crate_adapter :: "payload_codec \<Rightarrow> records_codec \<Rightarrow> app_world data_adapter \<Rightarrow> bool" where
  "crate_adapter cd rc d \<longleftrightarrow>
     (\<exists>a. d = json_adapter a) \<or> (\<exists>a. d = watched_adapter a) \<or> (\<exists>a. d = sqlite_adapter a) \<or>
     (\<exists>a. d = logical_wrapper cd (memory_logical cd a)) \<or>
     (\<exists>a. d = logical_wrapper cd (file_logical_adapter cd rc a))"

text \<open>
  whatever mix of the crate's adapters an app registers, and wherever a file operation, a
  decoding or an adapter fails, every critical section of an exchange leaves the state of the device
  well formed.
\<close>

theorem adapters_keep_state:
  assumes "list_all (crate_adapter cd rc) (router_adapters r)" and "state_ok s"
  shows "state_ok (fst (snd (client_section (router_applier r) d acked cursor es s x))) \<and>
    state_ok (fst (snd (server_export (router_applier r) d cursor s x))) \<and>
    state_ok (fst (snd (server_receive (router_applier r) d received es s x)))"
proof -
  have "sound_adapter a" if "crate_adapter cd rc a" for a
    using that json.sound_adapter_axioms watched.sound_adapter_axioms sqlite.sound_adapter_axioms
      memory.sound_adapter_axioms filed.sound_adapter_axioms
    unfolding crate_adapter_def by blast
  then have "list_all sound_adapter (router_adapters r)" using assms(1) by (auto simp: list_all_iff)
  note sound = router_sound[OF this]
  show ?thesis
    using assms(2) sound_applier.client_section_keeps[OF sound] sound_applier.server_export_keeps[OF sound]
      sound_applier.server_receive_keeps[OF sound] by blast
qed

section \<open>Witnesses\<close>

definition app_start :: app_world where
  "app_start = \<lparr>fw_files = Map.empty, fw_faults = [], fw_events = [], aw_stores = (\<lambda>_. [])\<rparr>"

definition note_here :: sync_record where
  "note_here = \<lparr>r_schema = ''s'', r_entity = ''e'', r_id = ''1'', r_fields = [(''tags'', FList [FBool True])],
     r_tombstone = False, r_clock = LamportClock 4 ''a'', r_updated_at = None, r_field_clocks = []\<rparr>"

definition note_there :: sync_record where
  "note_there = note_here\<lparr>r_fields := [(''tags'', FList [FBool False])], r_clock := LamportClock 3 ''b''\<rparr>"

definition tag_config :: logical_config where
  "tag_config = with_merge_policy ''tags'' SetUnion (memory_new ''m'' ''n'')"

definition tag_merged :: sync_record where
  "tag_merged = merge_into (config_merge_policy tag_config) (config_merge_custom tag_config) note_there (Some note_here)"

definition tag_codec :: payload_codec where
  "tag_codec =
     \<lparr>encode_payload = (\<lambda>p. Inr (if p = payload_of note_here then [1] else if p = payload_of note_there then [2] else [3])),
      decode_payload = (\<lambda>b. Inr (if b = [1] then payload_of note_here else if b = [2] then payload_of note_there
                                else payload_of tag_merged))\<rparr>"

definition tag_key :: string where
  "tag_key = record_entry_key ''n'' ''s'' ''e'' ''1''"

definition tag_state :: sync_state where
  "tag_state = snd (apply_entry \<lparr>e_key = tag_key, e_value = [1], e_clock = LamportClock 4 ''a''\<rparr> (state_new [1] ''a''))"

definition tag_router :: "app_world router" where
  "tag_router =
     snd (router_register (logical_wrapper tag_codec (memory_logical tag_codec tag_config))
       (snd (router_register (json_adapter (json_new ''j'' ''/j'')) [])))"

lemma parse_tag_key:
  "parse_record_key tag_key = Inr (Some \<lparr>kp_namespace = ''n'', kp_schema = ''s'', kp_entity = ''e'', kp_id = ''1''\<rparr>)"
  unfolding tag_key_def by (rule parse_record_entry_key) (rule valid_utf8_ascii, simp)+

lemma tag_keeps: "codec_keeps tag_codec (payload_of note_there)" "codec_keeps tag_codec (payload_of tag_merged)"
  by (simp_all add: codec_keeps_def tag_codec_def)

lemma tag_entries:
  "st_entries tag_state = [(tag_key, \<lparr>e_key = tag_key, e_value = [1], e_clock = LamportClock 4 ''a''\<rparr>)]"
  by (simp add: tag_state_def apply_entry_def Let_def state_new_def observe_clock_def)

lemma tag_decodes:
  "entry_to_record tag_codec \<lparr>e_key = tag_key, e_value = [1], e_clock = LamportClock 4 ''a''\<rparr> ''n'' = Inr (Some note_here)"
  by (simp add: entry_to_record_def parse_tag_key) (simp add: tag_codec_def payload_of_def note_here_def)

lemma tag_existing: "rs_get tag_codec ''n'' ''s'' ''e'' ''1'' tag_state = Inr (Some note_here)"
  by (simp add: rs_get_def tag_entries tag_key_def[symmetric] tag_decodes)

lemma tag_owner:
  "find (\<lambda>d. da_owns_key d tag_key) (router_adapters tag_router) =
     Some (logical_wrapper tag_codec (memory_logical tag_codec tag_config))"
proof -
  have "parse_record_key ''j'' = Inr None" by (simp add: parse_record_key_def record_prefix_def)
  then have "tag_key \<noteq> ''j''" using parse_tag_key by auto
  then show ?thesis
    by (simp add: tag_router_def router_register_def router_adapters_def bm_values_def bm_has_def
        json_adapter_def default_data_adapter_def json_new_def logical_wrapper_def memory_logical_def
        default_logical_def tag_config_def with_merge_policy_def memory_new_def wrapper_owns_key_def parse_tag_key)
qed

lemma tag_merged_fields: "bm_get (r_fields tag_merged) ''tags'' = Some (FList [FBool True, FBool False])"
  unfolding tag_merged_def merge_into_def by code_simp

lemma router_merges_fields_witness:
  "\<exists>e n t r. record_to_entry tag_codec ''n'' note_there = Inr e \<and>
    router_apply_inbound tag_router [e] tag_state app_start = (Inr n, t, app_start) \<and>
    rs_get tag_codec ''n'' ''s'' ''e'' ''1'' t = Inr (Some r) \<and>
    bm_get (r_fields r) ''tags'' = Some (FList [FBool True, FBool False])"
proof -
  have ns: "lc_namespace tag_config = ''n''" by (simp add: tag_config_def with_merge_policy_def memory_new_def)
  have place: "r_schema note_there = ''s''" "r_entity note_there = ''e''" "r_id note_there = ''1''"
    by (simp_all add: note_there_def note_here_def)
  have utf8: "utf8_record ''n'' note_there"
    unfolding utf8_record_def place by (intro conjI valid_utf8_ascii) simp_all
  obtain e where e: "record_to_entry tag_codec ''n'' note_there = Inr e" "e_key e = tag_key"
    using record_entry_roundtrip[OF utf8 tag_keeps(1)] by (auto simp: tag_key_def place)
  have "state_ok tag_state" by (simp add: tag_state_def state_ok_apply state_ok_new)
  from router_merges_fields[OF this, of tag_config note_there tag_codec e tag_router "Some note_here" app_start]
  show ?thesis
    using utf8 e tag_keeps tag_existing tag_owner tag_merged_fields
    by (simp add: ns place tag_merged_def[symmetric]) blast
qed

lemma file_store_then_load_witness:
  "\<exists>rc w'. rc_from_slice rc [91, 93] = Inr [note_here] \<and>
    file_apply_records tag_codec rc (file_logical_new ''f'' ''n'' ''/f'') tag_state
      \<lparr>fw_files = Map.empty, fw_faults = [], fw_events = []\<rparr> = (Inr (), w') \<and>
    file_load_records tag_codec rc (file_logical_new ''f'' ''n'' ''/f'') tag_state w' = (Inr (), tag_state, w')"
proof -
  let ?rc = "\<lparr>rc_to_vec_pretty = (\<lambda>_. Inr [91, 93]), rc_from_slice = (\<lambda>_. Inr [note_here])\<rparr>"
  let ?a = "file_logical_new ''f'' ''n'' ''/f''"
  let ?w = "\<lparr>fw_files = Map.empty, fw_faults = [], fw_events = []\<rparr> :: file_world"
  have ns: "lc_namespace ?a = ''n''" by (simp add: file_logical_new_def)
  have "no_faults ?w" "state_ok tag_state"
    by (simp_all add: no_faults_def tag_state_def state_ok_apply state_ok_new)
  moreover have "record_entry_key ''n'' (r_schema note_here) (r_entity note_here) (r_id note_here) = tag_key"
    by (simp add: tag_key_def note_here_def)
  then have "canonical tag_codec (lc_namespace ?a) tag_state"
    by (auto simp: canonical_def ns tag_entries tag_decodes split: if_splits)
  moreover have "view_snapshot tag_codec (lc_namespace ?a) tag_state = Inr [note_here]"
    by (simp add: view_snapshot_def state_snapshot_def bm_values_def ns tag_entries tag_decodes)
  moreover have "rc_to_vec_pretty ?rc (sort_key record_key [note_here]) = Inr [91, 93]"
    "rc_from_slice ?rc [91, 93] = Inr (sort_key record_key [note_here])" "[91, 93 :: u8] \<noteq> []"
    by simp_all
  ultimately show ?thesis using file_store_then_load[of ?w tag_state tag_codec ?a "[note_here]" ?rc "[91, 93]"]
    by (intro exI[of _ ?rc]) auto
qed

lemma adapters_keep_state_witness:
  "state_ok (fst (snd (server_export (router_applier tag_router) ''b'' default_cursor tag_state app_start))) \<and>
   state_ok (fst (snd (server_receive (router_applier tag_router) ''b'' None
     [\<lparr>e_key = tag_key, e_value = [9], e_clock = LamportClock 9 ''b''\<rparr>] tag_state app_start)))"
proof -
  have "crate_adapter tag_codec rc (logical_wrapper tag_codec (memory_logical tag_codec tag_config))"
    "crate_adapter tag_codec rc (json_adapter (json_new ''j'' ''/j''))" for rc
    by (auto simp: crate_adapter_def)
  then have "list_all (crate_adapter tag_codec rc) (router_adapters tag_router)" for rc
    by (simp add: tag_router_def router_register_def router_adapters_def bm_values_def bm_has_def)
  moreover have "state_ok tag_state" by (simp add: tag_state_def state_ok_apply state_ok_new)
  ultimately show ?thesis using adapters_keep_state by blast
qed

end
