(* ===== verification/Engine.thy ===== *)
theory Engine
  imports Data_Adapter Discovery
begin

text \<open>
  \<open>engine.rs\<close>: the engine of an app that runs without a managed session. It holds the device's
  state, the registered adapters, a listener and the app's device handler, and drives exchanges with
  other devices, reporting to an event sink.

  The engine's state, the app behind its adapters and everything an exchange meets on the way
  (locks taken by other threads, cancellation, connections) are the client world \<open>eg_net\<close> of
  Sync_Exchange. The device handler's own state \<open>'h\<close> does not change during one call, except by
  the call itself. The system clock's readings in events are left out: \<open>dv_seen\<close> only says that a
  time was recorded. Reading the device's keys and starting a listener answer through arguments.
\<close>

section \<open>Data\<close>

record engine_config =
  ec_identity :: identity
  ec_listen_addr :: "socket_addr option"

definition engine_config_new :: "identity \<Rightarrow> engine_config" where
  "engine_config_new i = \<lparr>ec_identity = i, ec_listen_addr = None\<rparr>"

definition with_listen_addr :: "socket_addr \<Rightarrow> engine_config \<Rightarrow> engine_config" where
  "with_listen_addr a c = c\<lparr>ec_listen_addr := Some a\<rparr>"

record device_info =
  dv_identity :: identity
  dv_address :: "socket_addr option"
  dv_seen :: bool
  dv_linked :: bool
  dv_fingerprint :: "string option"

record linking_request =
  lq_device :: device_info
  lq_code :: "string option"

datatype sync_result = SyncSuccess | SyncFailed string

datatype engine_event =
    LinkingRequested linking_request
  | LinkingDecisionRequired linking_request
  | SyncStarted device_info string
  | SyncFinished device_info string sync_result
  | DeviceSeen device_info
  | DeviceOffline device_info
  | ErrorEvent string
  | PeerFingerprintChanged device_info string
  | PeerInboundSync device_info nat
  | SyncStatsEvent device_info string sync_stats
  | LinkFinished socket_addr "device_info option" "string option"
  | DiscoveryFinished "device_info list"
  | ListenerStarted socket_addr
  | ListenerStopped
  | TaskFinished u64 sync_result

text \<open>A request; the cancel token is the one of the world, so only its presence is kept.\<close>

record sync_request =
  rq_address :: socket_addr
  rq_adapter_id :: string
  rq_expected_fingerprint :: "string option"
  rq_expected_device_id :: "string option"
  rq_cancel :: bool

definition sync_request_new :: "socket_addr \<Rightarrow> string \<Rightarrow> sync_request" where
  "sync_request_new address adapter_id =
     \<lparr>rq_address = address, rq_adapter_id = adapter_id, rq_expected_fingerprint = None,
      rq_expected_device_id = None, rq_cancel = False\<rparr>"

definition request_for_device :: "device_info \<Rightarrow> string \<Rightarrow> sync_request result" where
  "request_for_device d adapter_id =
     bindR (ok_or (Protocol ''device has no address'') (dv_address d)) (\<lambda>address.
       Inr \<lparr>rq_address = address, rq_adapter_id = adapter_id,
            rq_expected_fingerprint = dv_fingerprint d,
            rq_expected_device_id = Some (id_device (dv_identity d)), rq_cancel = False\<rparr>)"

record ('x, 'h) engine =
  eg_config :: engine_config
  eg_net :: "'x client_world"
  eg_router :: "'x router"
  eg_sink :: bool
  eg_events :: "engine_event list"
  eg_listener :: bool
  eg_listener_addr :: "socket_addr option"
  eg_handler :: 'h

definition engine_emit :: "engine_event \<Rightarrow> ('x, 'h) engine \<Rightarrow> ('x, 'h) engine" where
  "engine_emit ev e = (if eg_sink e then e\<lparr>eg_events := eg_events e @ [ev]\<rparr> else e)"

abbreviation emit_all :: "engine_event list \<Rightarrow> ('x, 'h) engine \<Rightarrow> ('x, 'h) engine" where
  "emit_all evs e \<equiv> fold engine_emit evs e"

definition own_identity :: "('x, 'h) engine \<Rightarrow> identity" where
  "own_identity e = ec_identity (eg_config e)"

text \<open>Critical sections under the state's lock run in the engine's world.\<close>

definition eg_with_state ::
  "(sync_state \<Rightarrow> 'x \<Rightarrow> 'a result \<times> sync_state \<times> 'x) \<Rightarrow> ('x, 'h) engine \<Rightarrow> 'a result \<times> ('x, 'h) engine" where
  "eg_with_state f e = (case cw_with_state f (eg_net e) of (r, w) \<Rightarrow> (r, e\<lparr>eg_net := w\<rparr>))"

definition register_adapter :: "'x data_adapter \<Rightarrow> ('x, 'h) engine \<Rightarrow> unit result \<times> ('x, 'h) engine" where
  "register_adapter a e = (case router_register a (eg_router e) of (r, t) \<Rightarrow> (r, e\<lparr>eg_router := t\<rparr>))"

section \<open>Listening\<close>

definition start_listening ::
  "'h handler \<Rightarrow> socket_addr result \<Rightarrow> ('x, 'h) engine \<Rightarrow> socket_addr result \<times> ('x, 'h) engine" where
  "start_listening hr started e =
     (if eg_listener e then (Inl (Protocol ''listener already running''), e)
      else bindS (hd_app_key hr (eg_handler e), e) (\<lambda>_ e.
           bindS (ok_or (Protocol ''listen address not set'') (ec_listen_addr (eg_config e)), e) (\<lambda>_ e.
           bindS (started, e) (\<lambda>addr e.
             (Inr addr, engine_emit (ListenerStarted addr)
                (e\<lparr>eg_listener := True, eg_listener_addr := Some addr\<rparr>))))))"

definition stop_listening :: "unit result \<Rightarrow> ('x, 'h) engine \<Rightarrow> unit result \<times> ('x, 'h) engine" where
  "stop_listening stopped e =
     (if \<not> eg_listener e then (Inl (Protocol ''listener not running''), e)
      else bindS (stopped, e\<lparr>eg_listener := False, eg_listener_addr := None\<rparr>) (\<lambda>_ e.
           (Inr (), engine_emit ListenerStopped e)))"

section \<open>Discovery and linking\<close>

definition discovered_info :: "'h handler \<Rightarrow> 'h \<Rightarrow> discovered_device \<Rightarrow> device_info" where
  "discovered_info hr h d =
     \<lparr>dv_identity = dd_identity d, dv_address = Some (dd_address d), dv_seen = True,
      dv_linked = hd_is_linked hr (dd_identity d) h, dv_fingerprint = None\<rparr>"

text \<open>\<open>found\<close> is what \<open>discover_devices\<close> (Discovery) returns for the engine's app.\<close>

definition engine_discover ::
  "'h handler \<Rightarrow> discovered_device list result \<Rightarrow> ('x, 'h) engine \<Rightarrow> device_info list result" where
  "engine_discover hr found e =
     bindR found (\<lambda>devices.
       Inr (map (discovered_info hr (eg_handler e))
              (filter (\<lambda>d. id_device (dd_identity d) \<noteq> id_device (own_identity e)) devices)))"

definition request_link ::
  "'h handler \<Rightarrow> unit result \<Rightarrow> socket_addr \<Rightarrow> bool \<Rightarrow> ('x, 'h) engine \<Rightarrow>
   device_info result \<times> ('x, 'h) engine" where
  "request_link hr device_keys address cancel e =
     bindS (device_keys, e) (\<lambda>_ e.
     bindS (hd_app_key hr (eg_handler e), e) (\<lambda>app_key e.
     bindS (case link_with_device (own_identity e) app_key (hd_pairing_secret hr (eg_handler e))
                   (default_options\<lparr>so_cancel := cancel\<rparr>) (eg_net e) of
              (r, w) \<Rightarrow> (r, e\<lparr>eg_net := w\<rparr>)) (\<lambda>(remote, fingerprint, remote_app_key) e.
     bindS (if remote_app_key \<noteq> app_key
            then (case hd_set_app_key hr remote_app_key (eg_handler e) of (r, h) \<Rightarrow> (r, e\<lparr>eg_handler := h\<rparr>))
            else (Inr (), e)) (\<lambda>_ e.
       (Inr \<lparr>dv_identity = remote, dv_address = Some address, dv_seen = True, dv_linked = True,
             dv_fingerprint = Some fingerprint\<rparr>, e)))))"

definition respond_to_linking :: "linking_request \<Rightarrow> bool \<Rightarrow> unit result" where
  "respond_to_linking request decision =
     Inl (Protocol ''engine API is a sketch and not implemented yet'')"

section \<open>Checking a peer\<close>

text \<open>The result, and the event it emits.\<close>

definition checked_info :: "identity \<Rightarrow> socket_addr option \<Rightarrow> string \<Rightarrow> device_info" where
  "checked_info i address fingerprint =
     \<lparr>dv_identity = i, dv_address = address, dv_seen = True, dv_linked = True,
      dv_fingerprint = Some fingerprint\<rparr>"

definition check_peer_with_handler ::
  "'h handler \<Rightarrow> 'h \<Rightarrow> string \<Rightarrow> identity \<Rightarrow> string \<Rightarrow> socket_addr option \<Rightarrow>
   unit result \<times> engine_event list" where
  "check_peer_with_handler hr h app_id i fingerprint address =
     (if id_app i \<noteq> app_id then (Inl (Protocol ''app id mismatch''), [])
      else if hd_is_linked_with_fingerprint hr i fingerprint h then (Inr (), [])
      else if hd_is_linked hr i h
      then (Inl (FingerprintMismatch (id_device i) ''<pinned>'' fingerprint),
            [PeerFingerprintChanged (checked_info i address fingerprint) fingerprint])
      else (Inl (Protocol ''device not linked''), []))"

text \<open>The check of a sync also announces the exchange, once the peer is accepted.\<close>

definition sync_check ::
  "'h handler \<Rightarrow> 'h \<Rightarrow> string \<Rightarrow> socket_addr \<Rightarrow> string \<Rightarrow> identity \<Rightarrow> string \<Rightarrow>
   unit result \<times> engine_event list" where
  "sync_check hr h app_id address adapter_id i fingerprint =
     (case check_peer_with_handler hr h app_id i fingerprint (Some address) of
        (Inl err, evs) \<Rightarrow> (Inl err, evs)
      | (Inr _, evs) \<Rightarrow>
          (Inr (), evs @ [SyncStarted (checked_info i (Some address) fingerprint) adapter_id]))"

text \<open>
  \<open>sync_with_device_shared\<close> with such a check: the world logs the calls of the check
  (\<open>cw_checked\<close>), and their events follow.
\<close>

definition run_checked ::
  "aead \<Rightarrow> (nat \<Rightarrow> bytes) \<Rightarrow> app_key \<Rightarrow> (identity \<Rightarrow> string \<Rightarrow> unit result \<times> engine_event list) \<Rightarrow>
   'x sync_options \<Rightarrow> ('x, 'h) engine \<Rightarrow> sync_outcome result \<times> ('x, 'h) engine" where
  "run_checked c rng key check opts e =
     (case run_sync c rng (own_identity e) key (\<lambda>i f. fst (check i f)) opts
             ((eg_net e)\<lparr>cw_checked := []\<rparr>) of
        (r, w) \<Rightarrow>
          (r, emit_all (concat (map (\<lambda>(i, f). snd (check i f)) (cw_checked w))) (e\<lparr>eg_net := w\<rparr>)))"

section \<open>One exchange\<close>

definition request_options :: "'x router \<Rightarrow> sync_request \<Rightarrow> 'x sync_options" where
  "request_options r rq =
     \<lparr>so_applier = router_applier r, so_expected_fingerprint = rq_expected_fingerprint rq,
      so_expected_device_id = rq_expected_device_id rq, so_cancel = rq_cancel rq\<rparr>"

definition unreached_info :: "('x, 'h) engine \<Rightarrow> sync_request \<Rightarrow> string \<Rightarrow> device_info" where
  "unreached_info e rq device_id =
     \<lparr>dv_identity = identity_new device_id (id_app (own_identity e)) ''unknown'',
      dv_address = Some (rq_address rq), dv_seen = False, dv_linked = True,
      dv_fingerprint = rq_expected_fingerprint rq\<rparr>"

definition engine_sync ::
  "aead \<Rightarrow> (nat \<Rightarrow> bytes) \<Rightarrow> 'h handler \<Rightarrow> unit result \<Rightarrow> sync_request \<Rightarrow> ('x, 'h) engine \<Rightarrow>
   (device_info \<times> sync_stats) result \<times> ('x, 'h) engine" where
  "engine_sync c rng hr device_keys rq e =
     bindS (ok_or (Protocol (''missing adapter: '' @ rq_adapter_id rq))
              (router_adapter (rq_adapter_id rq) (eg_router e)), e) (\<lambda>adapter e.
     bindS (eg_with_state (da_load_into_state adapter) e) (\<lambda>_ e.
     bindS (device_keys, e) (\<lambda>_ e.
     bindS (hd_app_key hr (eg_handler e), e) (\<lambda>key e.
       case run_checked c rng key
              (sync_check hr (eg_handler e) (id_app (own_identity e)) (rq_address rq) (rq_adapter_id rq))
              (request_options (eg_router e) rq) e of
         (Inl err, e) \<Rightarrow>
           (Inl err,
            (case rq_expected_device_id rq of
               None \<Rightarrow> e
             | Some device_id \<Rightarrow>
                 engine_emit (SyncFinished (unreached_info e rq device_id) (rq_adapter_id rq)
                   (SyncFailed (error_display err))) e))
       | (Inr outcome, e) \<Rightarrow>
           let device = checked_info (sy_identity outcome) (Some (rq_address rq)) (sy_fingerprint outcome)
           in bindS (eg_with_state (\<lambda>s x. case da_apply_from_state adapter s x of (r, x) \<Rightarrow> (r, s, x)) e)
                (\<lambda>_ e. (Inr (device, sy_stats outcome),
                   emit_all [SyncFinished device (rq_adapter_id rq) SyncSuccess,
                     SyncStatsEvent device (rq_adapter_id rq) (sy_stats outcome)] e))))))"

definition sync_now ::
  "aead \<Rightarrow> (nat \<Rightarrow> bytes) \<Rightarrow> 'h handler \<Rightarrow> unit result \<Rightarrow> socket_addr \<Rightarrow> string \<Rightarrow> ('x, 'h) engine \<Rightarrow>
   device_info result \<times> ('x, 'h) engine" where
  "sync_now c rng hr device_keys address adapter_id e =
     bindS (engine_sync c rng hr device_keys (sync_request_new address adapter_id) e)
       (\<lambda>(device, _) e. (Inr device, e))"

definition sync_with_device_info ::
  "aead \<Rightarrow> (nat \<Rightarrow> bytes) \<Rightarrow> 'h handler \<Rightarrow> unit result \<Rightarrow> device_info \<Rightarrow> string \<Rightarrow> ('x, 'h) engine \<Rightarrow>
   (device_info \<times> sync_stats) result \<times> ('x, 'h) engine" where
  "sync_with_device_info c rng hr device_keys d adapter_id e =
     bindS (request_for_device d adapter_id, e) (\<lambda>rq e. engine_sync c rng hr device_keys rq e)"

end
