(* ===== verification/Engine_Loops.thy ===== *)
theory Engine_Loops
  imports Engine
begin

text \<open>
  The engine's background loops (\<open>engine.rs\<close>): \<open>watch\<close>, which ticks one adapter and saves the
  state, and \<open>auto_refresh\<close>, which also synchronises with the linked devices it discovers when the
  adapter's data changed or the refresh interval is over. One pass of a loop is a definition; what
  a pass meets (how saving ends, what discovery finds, the monotonic clock in milliseconds) is its
  input, and a loop runs over the list of its passes.
\<close>

section \<open>Digests\<close>

text \<open>
  Sorting by key and then by clock, as the stable sort by key of the entries sorted by clock.
  \<open>sha\<close> is the SHA-256 of the \<open>sha2\<close> crate.
\<close>

definition sort_entries :: "entry list \<Rightarrow> entry list" where
  "sort_entries es = sort_key e_key (sort_key e_clock es)"

definition hash_entry_input :: "entry \<Rightarrow> bytes" where
  "hash_entry_input e =
     len_prefixed (str_bytes (e_key e)) @ be_bytes 8 (unat (clk_counter (e_clock e))) @
     len_prefixed (str_bytes (clk_device (e_clock e))) @ len_prefixed (e_value e)"

definition hash_input :: "entry list \<Rightarrow> bytes" where
  "hash_input es = concat (map hash_entry_input (sort_entries es))"

definition hash_entries :: "(bytes \<Rightarrow> bytes) \<Rightarrow> entry list \<Rightarrow> bytes" where
  "hash_entries sha es = sha (hash_input es)"

section \<open>Watching one adapter\<close>

datatype poll = PollStop | PollTimeout | PollDisconnected

definition emit_error :: "string \<Rightarrow> ('x, 'h) engine \<Rightarrow> ('x, 'h) engine" where
  "emit_error message e = engine_emit (ErrorEvent message) e"

definition emit_failure :: "string \<Rightarrow> 'a result \<Rightarrow> ('x, 'h) engine \<Rightarrow> ('x, 'h) engine" where
  "emit_failure what r e =
     (case r of Inl err \<Rightarrow> emit_error (what @ error_display err) e | Inr _ \<Rightarrow> e)"

text \<open>
  The tick under the lock: its own error is a value, because only a poisoned lock ends the pass.
  The state is what \<open>save_encrypted\<close> is given.
\<close>

definition tick_section ::
  "'x data_adapter \<Rightarrow> adapter_cache \<Rightarrow> sync_state \<Rightarrow> 'x \<Rightarrow>
   (unit result \<times> adapter_cache \<times> sync_state) result \<times> sync_state \<times> 'x" where
  "tick_section adapter cache s x =
     (case da_sync_tick adapter s cache x of (r, s, c, x) \<Rightarrow> (Inr (r, c, s), s, x))"

definition watch_pass ::
  "'x data_adapter \<Rightarrow> (sync_state \<Rightarrow> unit result) \<Rightarrow> adapter_cache \<times> ('x, 'h) engine \<Rightarrow>
   adapter_cache \<times> ('x, 'h) engine" where
  "watch_pass adapter save ce =
     (case ce of (cache, e) \<Rightarrow>
      case eg_with_state (tick_section adapter cache) e of
        (Inl _, e) \<Rightarrow> (cache, emit_error ''state lock poisoned'' e)
      | (Inr (ticked, cache, s), e) \<Rightarrow>
          (cache, emit_failure ''state save error: '' (save s)
                    (emit_failure ''adapter sync error: '' ticked e)))"

fun watch_loop ::
  "'x data_adapter \<Rightarrow> (poll \<times> (sync_state \<Rightarrow> unit result)) list \<Rightarrow> adapter_cache \<times> ('x, 'h) engine \<Rightarrow>
   adapter_cache \<times> ('x, 'h) engine" where
  "watch_loop adapter [] ce = ce"
| "watch_loop adapter ((signal, save) # rest) ce =
     (if signal = PollTimeout then watch_loop adapter rest (watch_pass adapter save ce) else ce)"

definition watch ::
  "'h handler \<Rightarrow> string \<Rightarrow> (poll \<times> (sync_state \<Rightarrow> unit result)) list \<Rightarrow> ('x, 'h) engine \<Rightarrow>
   unit result \<times> ('x, 'h) engine" where
  "watch hr adapter_id polls e =
     bindS (ok_or (Protocol (''missing adapter: '' @ adapter_id)) (router_adapter adapter_id (eg_router e)), e)
       (\<lambda>adapter e.
     bindS (hd_app_key hr (eg_handler e), e) (\<lambda>_ e.
       (Inr (), snd (watch_loop adapter polls (empty_cache, e)))))"

section \<open>Refreshing automatically\<close>

record refresh_config =
  rf_adapter_id :: string
  rf_poll_interval :: nat
  rf_refresh_interval :: "nat option"
  rf_discover_timeout :: nat
  rf_fallback_addresses :: "socket_addr list"

definition refresh_config_new :: "string \<Rightarrow> refresh_config" where
  "refresh_config_new adapter_id =
     \<lparr>rf_adapter_id = adapter_id, rf_poll_interval = 250, rf_refresh_interval = Some 5000,
      rf_discover_timeout = 2000, rf_fallback_addresses = []\<rparr>"

definition with_poll_interval :: "nat \<Rightarrow> refresh_config \<Rightarrow> refresh_config" where
  "with_poll_interval t c = c\<lparr>rf_poll_interval := t\<rparr>"

definition with_refresh_interval :: "nat \<Rightarrow> refresh_config \<Rightarrow> refresh_config" where
  "with_refresh_interval t c = c\<lparr>rf_refresh_interval := Some t\<rparr>"

definition disable_periodic_refresh :: "refresh_config \<Rightarrow> refresh_config" where
  "disable_periodic_refresh c = c\<lparr>rf_refresh_interval := None\<rparr>"

definition with_discover_timeout :: "nat \<Rightarrow> refresh_config \<Rightarrow> refresh_config" where
  "with_discover_timeout t c = c\<lparr>rf_discover_timeout := t\<rparr>"

definition with_fallback_addresses :: "socket_addr list \<Rightarrow> refresh_config \<Rightarrow> refresh_config" where
  "with_fallback_addresses as c = c\<lparr>rf_fallback_addresses := as\<rparr>"

text \<open>Whom to contact: linked devices found, then the fallbacks, each address once.\<close>

type_synonym candidate = "identity option \<times> socket_addr"

fun add_discovered ::
  "'h handler \<Rightarrow> 'h \<Rightarrow> identity \<Rightarrow> discovered_device list \<Rightarrow> candidate list \<Rightarrow> candidate list" where
  "add_discovered hr h own [] cs = cs"
| "add_discovered hr h own (d # ds) cs =
     add_discovered hr h own ds
       (if id_device (dd_identity d) = id_device own then cs
        else if \<not> hd_is_linked hr (dd_identity d) h then cs
        else if dd_address d \<in> snd ` set cs then cs
        else cs @ [(Some (dd_identity d), dd_address d)])"

fun add_fallbacks :: "socket_addr list \<Rightarrow> candidate list \<Rightarrow> candidate list" where
  "add_fallbacks [] cs = cs"
| "add_fallbacks (a # as) cs =
     add_fallbacks as (if a \<in> snd ` set cs then cs else cs @ [(None, a)])"

definition refresh_candidates ::
  "'h handler \<Rightarrow> 'h \<Rightarrow> identity \<Rightarrow> discovered_device list \<Rightarrow> socket_addr list \<Rightarrow> candidate list" where
  "refresh_candidates hr h own devices fallbacks =
     add_fallbacks fallbacks (add_discovered hr h own devices [])"

definition candidate_info :: "'h handler \<Rightarrow> ('x, 'h) engine \<Rightarrow> candidate \<Rightarrow> device_info" where
  "candidate_info hr e c =
     \<lparr>dv_identity = (case fst c of None \<Rightarrow> identity_new ''unknown'' (id_app (own_identity e)) ''unknown''
                     | Some i \<Rightarrow> i),
      dv_address = Some (snd c), dv_seen = True,
      dv_linked = (case fst c of None \<Rightarrow> False | Some i \<Rightarrow> hd_is_linked hr i (eg_handler e)),
      dv_fingerprint = None\<rparr>"

text \<open>Loading under the lock: again only a poisoned lock is an error of the section.\<close>

definition load_section ::
  "'x data_adapter \<Rightarrow> sync_state \<Rightarrow> 'x \<Rightarrow> unit result result \<times> sync_state \<times> 'x" where
  "load_section adapter s x = (case da_load_into_state adapter s x of (r, s, x) \<Rightarrow> (Inr r, s, x))"

definition refresh_one ::
  "aead \<Rightarrow> (nat \<Rightarrow> bytes) \<Rightarrow> 'h handler \<Rightarrow> 'x data_adapter \<Rightarrow> string \<Rightarrow> candidate \<Rightarrow> ('x, 'h) engine \<Rightarrow>
   bool \<times> ('x, 'h) engine" where
  "refresh_one c rng hr adapter adapter_id cand e =
     (let base = candidate_info hr e cand;
          e = engine_emit (SyncStarted base adapter_id) e
      in case eg_with_state (load_section adapter) e of
           (Inl _, e) \<Rightarrow> (False, emit_error ''state lock poisoned'' e)
         | (Inr (Inl err), e) \<Rightarrow> (False, emit_error (''adapter load error: '' @ error_display err) e)
         | (Inr (Inr _), e) \<Rightarrow>
             (case hd_app_key hr (eg_handler e) of
                Inl err \<Rightarrow> (False, emit_error (''app key error: '' @ error_display err) e)
              | Inr key \<Rightarrow>
                  (case run_checked c rng key
                          (\<lambda>i f. check_peer_with_handler hr (eg_handler e) (id_app (own_identity e)) i f (Some (snd cand)))
                          \<lparr>so_applier = router_applier (eg_router e), so_expected_fingerprint = None,
                           so_expected_device_id = map_option id_device (fst cand), so_cancel = False\<rparr> e of
                     (Inr outcome, e) \<Rightarrow>
                       (let info = base\<lparr>dv_identity := sy_identity outcome,
                                        dv_fingerprint := Some (sy_fingerprint outcome)\<rparr>
                        in (True, emit_all [SyncFinished info adapter_id SyncSuccess,
                                   SyncStatsEvent info adapter_id (sy_stats outcome)] e))
                   | (Inl err, e) \<Rightarrow>
                       (False, engine_emit (SyncFinished base adapter_id (SyncFailed (error_display err))) e))))"

fun refresh_each ::
  "aead \<Rightarrow> (nat \<Rightarrow> bytes) \<Rightarrow> 'h handler \<Rightarrow> 'x data_adapter \<Rightarrow> string \<Rightarrow> candidate list \<Rightarrow> bool \<Rightarrow>
   ('x, 'h) engine \<Rightarrow> bool \<times> ('x, 'h) engine" where
  "refresh_each c rng hr adapter adapter_id [] synced e = (synced, e)"
| "refresh_each c rng hr adapter adapter_id (cand # cands) synced e =
     (case refresh_one c rng hr adapter adapter_id cand e of
        (ok, e) \<Rightarrow> refresh_each c rng hr adapter adapter_id cands (synced \<or> ok) e)"

record refresh_input =
  ri_save :: "sync_state \<Rightarrow> unit result"
  ri_now :: nat
  ri_found :: "discovered_device list result"
  ri_save_after :: "sync_state \<Rightarrow> unit result"
  ri_end :: nat

record refresh_state =
  rs_cache :: adapter_cache
  rs_last_digest :: "bytes option"
  rs_last_refresh :: nat

definition refresh_start :: "refresh_config \<Rightarrow> nat \<Rightarrow> refresh_state" where
  "refresh_start cfg now =
     \<lparr>rs_cache = empty_cache, rs_last_digest = None,
      rs_last_refresh = (case rf_refresh_interval cfg of
                           None \<Rightarrow> now | Some t \<Rightarrow> if t \<le> now then now - t else now)\<rparr>"

text \<open>The first section of a pass: tick, save, and compare the digest of the adapter's data.\<close>

definition digest_of ::
  "(bytes \<Rightarrow> bytes) \<Rightarrow> 'x data_adapter \<Rightarrow> sync_state \<Rightarrow> bytes result" where
  "digest_of sha adapter s = bindR (da_export_snapshot adapter s) (\<lambda>es. Inr (hash_entries sha es))"

definition refresh_local ::
  "(bytes \<Rightarrow> bytes) \<Rightarrow> 'x data_adapter \<Rightarrow> (sync_state \<Rightarrow> unit result) \<Rightarrow> refresh_state \<times> ('x, 'h) engine \<Rightarrow>
   bool option \<times> refresh_state \<times> ('x, 'h) engine" where
  "refresh_local sha adapter save le =
     (case le of (l, e) \<Rightarrow>
      case eg_with_state (tick_section adapter (rs_cache l)) e of
        (Inl _, e) \<Rightarrow> (None, l, emit_error ''state lock poisoned'' e)
      | (Inr (ticked, cache, s), e) \<Rightarrow>
          let l = l\<lparr>rs_cache := cache\<rparr>;
              e = emit_failure ''state save error: '' (save s) (emit_failure ''adapter sync error: '' ticked e)
          in case digest_of sha adapter s of
               Inl err \<Rightarrow> (Some False, l, emit_error (''adapter export error: '' @ error_display err) e)
             | Inr digest \<Rightarrow>
                 if rs_last_digest l = Some digest then (Some False, l, e)
                 else (Some True, l\<lparr>rs_last_digest := Some digest\<rparr>, e))"

text \<open>The last section, when a device was reached: store, save, and take the new digest.\<close>

definition store_section ::
  "'x data_adapter \<Rightarrow> sync_state \<Rightarrow> 'x \<Rightarrow> (unit result \<times> sync_state) result \<times> sync_state \<times> 'x" where
  "store_section adapter s x = (case da_apply_from_state adapter s x of (r, x) \<Rightarrow> (Inr (r, s), s, x))"

definition refresh_store ::
  "(bytes \<Rightarrow> bytes) \<Rightarrow> 'x data_adapter \<Rightarrow> (sync_state \<Rightarrow> unit result) \<Rightarrow> nat \<Rightarrow> refresh_state \<times> ('x, 'h) engine \<Rightarrow>
   refresh_state \<times> ('x, 'h) engine" where
  "refresh_store sha adapter save ended le =
     (case le of (l, e) \<Rightarrow>
      case eg_with_state (store_section adapter) e of
        (Inl _, e) \<Rightarrow> (l, emit_error ''state lock poisoned'' e)
      | (Inr (stored, s), e) \<Rightarrow>
          (case digest_of sha adapter s of
             Inl _ \<Rightarrow> l\<lparr>rs_last_refresh := ended\<rparr>
           | Inr digest \<Rightarrow> l\<lparr>rs_last_digest := Some digest, rs_last_refresh := ended\<rparr>,
           emit_failure ''state save error: '' (save s) (emit_failure ''adapter apply error: '' stored e)))"

definition refresh_due :: "refresh_config \<Rightarrow> nat \<Rightarrow> refresh_state \<Rightarrow> bool" where
  "refresh_due cfg now l =
     (case rf_refresh_interval cfg of None \<Rightarrow> False | Some t \<Rightarrow> t \<le> now - rs_last_refresh l)"

definition refresh_pass ::
  "aead \<Rightarrow> (nat \<Rightarrow> bytes) \<Rightarrow> (bytes \<Rightarrow> bytes) \<Rightarrow> 'h handler \<Rightarrow> 'x data_adapter \<Rightarrow> refresh_config \<Rightarrow> refresh_input \<Rightarrow>
   refresh_state \<times> ('x, 'h) engine \<Rightarrow> refresh_state \<times> ('x, 'h) engine" where
  "refresh_pass c rng sha hr adapter cfg inp le =
     (case refresh_local sha adapter (ri_save inp) le of
        (None, l, e) \<Rightarrow> (l, e)
      | (Some changed, l, e) \<Rightarrow>
          if \<not> changed \<and> \<not> refresh_due cfg (ri_now inp) l then (l, e)
          else (case (case ri_found inp of
                        Inl err \<Rightarrow> ([], emit_error (''discovery error: '' @ error_display err) e)
                      | Inr devices \<Rightarrow> (devices, e)) of
                  (devices, e) \<Rightarrow>
                    (case refresh_each c rng hr adapter (rf_adapter_id cfg)
                            (refresh_candidates hr (eg_handler e) (own_identity e) devices
                               (rf_fallback_addresses cfg)) False e of
                       (True, e) \<Rightarrow> refresh_store sha adapter (ri_save_after inp) (ri_end inp) (l, e)
                     | (False, e) \<Rightarrow> (l\<lparr>rs_last_refresh := ri_end inp\<rparr>, e))))"

fun refresh_loop ::
  "aead \<Rightarrow> (nat \<Rightarrow> bytes) \<Rightarrow> (bytes \<Rightarrow> bytes) \<Rightarrow> 'h handler \<Rightarrow> 'x data_adapter \<Rightarrow> refresh_config \<Rightarrow>
   (poll \<times> refresh_input) list \<Rightarrow> refresh_state \<times> ('x, 'h) engine \<Rightarrow> refresh_state \<times> ('x, 'h) engine" where
  "refresh_loop c rng sha hr adapter cfg [] le = le"
| "refresh_loop c rng sha hr adapter cfg ((signal, inp) # rest) le =
     (if signal = PollTimeout
      then refresh_loop c rng sha hr adapter cfg rest (refresh_pass c rng sha hr adapter cfg inp le) else le)"

definition auto_refresh ::
  "aead \<Rightarrow> (nat \<Rightarrow> bytes) \<Rightarrow> (bytes \<Rightarrow> bytes) \<Rightarrow> 'h handler \<Rightarrow> unit result \<Rightarrow> refresh_config \<Rightarrow> nat \<Rightarrow>
   (poll \<times> refresh_input) list \<Rightarrow> ('x, 'h) engine \<Rightarrow> unit result \<times> ('x, 'h) engine" where
  "auto_refresh c rng sha hr device_keys cfg now polls e =
     bindS (ok_or (Protocol (''missing adapter: '' @ rf_adapter_id cfg))
              (router_adapter (rf_adapter_id cfg) (eg_router e)), e) (\<lambda>adapter e.
     bindS (device_keys, e) (\<lambda>_ e.
     bindS (hd_app_key hr (eg_handler e), e) (\<lambda>_ e.
       (Inr (), snd (refresh_loop c rng sha hr adapter cfg polls (refresh_start cfg now, e))))))"

end
