(* ===== verification/Engine_Background.thy ===== *)
theory Engine_Background
  imports Engine_Loops
begin

text \<open>
  \<open>BackgroundEngine\<close> (\<open>engine.rs\<close>): an engine driven by a worker thread that takes commands from a
  channel, and the handle through which any number of threads submit and cancel them.

  \<open>run_command\<close> is what the worker does for one command, a function of the engine. The handle and
  the worker synchronise through the channel, the set of cancelled tickets and the slot of the
  running command, each behind its own lock; \<open>bg_step\<close> interleaves their critical sections. What a
  command ends in and what it does to the engine is the function \<open>exec\<close> of the step relation.
\<close>

section \<open>Commands\<close>

datatype ('x, 'h) command =
    SyncCmd sync_request
  | LinkCmd socket_addr
  | DiscoverCmd nat
  | StartListeningCmd
  | StopListeningCmd
  | SaveStateCmd string
  | RunCmd "('x, 'h) engine \<Rightarrow> unit result \<times> ('x, 'h) engine"

text \<open>What the commands meet outside the engine.\<close>

record command_env =
  ce_device_keys :: "unit result"
  ce_found :: "discovered_device list result"
  ce_started :: "socket_addr result"
  ce_stopped :: "unit result"
  ce_save :: "sync_state \<Rightarrow> unit result"

text \<open>\<open>listener_addr\<close> is the handle's copy of the listening address.\<close>

definition run_command ::
  "aead \<Rightarrow> (nat \<Rightarrow> bytes) \<Rightarrow> 'h handler \<Rightarrow> command_env \<Rightarrow> ('x, 'h) command \<Rightarrow>
   ('x, 'h) engine \<times> socket_addr option \<Rightarrow> unit result \<times> ('x, 'h) engine \<times> socket_addr option" where
  "run_command c rng hr env cmd ea =
     (case ea of (e, listener_addr) \<Rightarrow>
      case cmd of
        SyncCmd rq \<Rightarrow>
          (case engine_sync c rng hr (ce_device_keys env) (rq\<lparr>rq_cancel := True\<rparr>) e of
             (r, e) \<Rightarrow> (bindR r (\<lambda>_. Inr ()), e, listener_addr))
      | LinkCmd address \<Rightarrow>
          (case request_link hr (ce_device_keys env) address True e of
             (r, e) \<Rightarrow>
               (bindR r (\<lambda>_. Inr ()),
                engine_emit (LinkFinished address
                  (case r of Inl _ \<Rightarrow> None | Inr d \<Rightarrow> Some d)
                  (case r of Inl err \<Rightarrow> Some (error_display err) | Inr _ \<Rightarrow> None)) e, listener_addr))
      | DiscoverCmd timeout \<Rightarrow>
          (case engine_discover hr (ce_found env) e of
             Inl err \<Rightarrow> (Inl err, e, listener_addr)
           | Inr devices \<Rightarrow>
               (Inr (), engine_emit (DiscoveryFinished devices) (emit_all (map DeviceSeen devices) e), listener_addr))
      | StartListeningCmd \<Rightarrow>
          (case start_listening hr (ce_started env) e of
             (Inl err, e) \<Rightarrow> (Inl err, e, listener_addr)
           | (Inr address, e) \<Rightarrow> (Inr (), e, Some address))
      | StopListeningCmd \<Rightarrow>
          (case stop_listening (ce_stopped env) e of
             (Inl err, e) \<Rightarrow> (Inl err, e, listener_addr)
           | (Inr _, e) \<Rightarrow> (Inr (), e, None))
      | SaveStateCmd path \<Rightarrow>
          (case bindS (hd_app_key hr (eg_handler e), e) (\<lambda>_ e.
                 eg_with_state (\<lambda>s x. (ce_save env s, s, x)) e) of
             (r, e) \<Rightarrow> (r, e, listener_addr))
      | RunCmd job \<Rightarrow> (case job e of (r, e) \<Rightarrow> (r, e, listener_addr)))"

section \<open>The handle and the worker\<close>

text \<open>A message of the channel: a ticket with its command, or the request to stop.\<close>

datatype 'c channel_message = Submitted u64 'c | Shutdown

text \<open>
  The worker waits, has taken a command and not yet looked at the cancelled tickets, has decided to
  run it, has put it into the slot and runs it, has a result, or has emptied the slot again; in the
  end it has left its loop.
\<close>

datatype 'c worker =
    Waiting
  | Taken u64 'c
  | Skipping u64
  | Accepted u64 'c
  | Running u64 'c
  | Ran u64 "unit result"
  | Reporting u64 "unit result"
  | Stopped

text \<open>A thread of the handle inside a call: between its critical sections.\<close>

datatype 'c client =
    Ready
  | Numbered u64 'c
  | Cancelling u64
  | Closing

record ('c, 'w) background =
  bg_next_ticket :: u64
  bg_open :: bool
  bg_queue :: "'c channel_message list"
  bg_cancelled :: "u64 set"
  bg_current :: "(u64 \<times> bool) option"
  bg_worker :: "'c worker"
  bg_world :: 'w
  bg_finished :: "(u64 \<times> sync_result) list"
  bg_clients :: "nat \<Rightarrow> 'c client"
  bg_accepted :: "u64 list"
  bg_executed :: "(u64 \<times> bool) list"
  bg_requested :: "u64 set"

text \<open>
  The last three fields are history: the tickets the channel took, the commands run to their end
  with whether their token was cancelled, and the tickets whose \<open>cancel\<close> has returned.
\<close>

definition background_new :: "'w \<Rightarrow> ('c, 'w) background" where
  "background_new w =
     \<lparr>bg_next_ticket = 1, bg_open = True, bg_queue = [], bg_cancelled = {}, bg_current = None,
      bg_worker = Waiting, bg_world = w, bg_finished = [], bg_clients = (\<lambda>_. Ready),
      bg_accepted = [], bg_executed = [], bg_requested = {}\<rparr>"

definition sync_result_of :: "unit result \<Rightarrow> sync_result" where
  "sync_result_of r = (case r of Inl err \<Rightarrow> SyncFailed (error_display err) | Inr _ \<Rightarrow> SyncSuccess)"

text \<open>The loop of the worker, one critical section at a time. \<open>exec\<close> is told the ticket's token.\<close>

fun worker_step ::
  "('c \<Rightarrow> bool \<Rightarrow> 'w \<Rightarrow> unit result \<times> 'w) \<Rightarrow> ('c, 'w) background \<Rightarrow> ('c, 'w) background option" where
  "worker_step exec b =
     (case bg_worker b of
        Waiting \<Rightarrow>
          (case bg_queue b of
             Submitted t c # rest \<Rightarrow> Some (b\<lparr>bg_queue := rest, bg_worker := Taken t c\<rparr>)
           | Shutdown # rest \<Rightarrow> Some (b\<lparr>bg_queue := rest, bg_worker := Stopped\<rparr>)
           | [] \<Rightarrow> if bg_open b then None else Some (b\<lparr>bg_worker := Stopped\<rparr>))
      | Taken t c \<Rightarrow>
          Some (b\<lparr>bg_cancelled := bg_cancelled b - {t},
                  bg_worker := (if t \<in> bg_cancelled b then Skipping t else Accepted t c)\<rparr>)
      | Skipping t \<Rightarrow>
          Some (b\<lparr>bg_finished := bg_finished b @ [(t, SyncFailed (error_display Cancelled))],
                  bg_worker := Waiting\<rparr>)
      | Accepted t c \<Rightarrow> Some (b\<lparr>bg_current := Some (t, False), bg_worker := Running t c\<rparr>)
      | Running t c \<Rightarrow>
          (let token = (case bg_current b of None \<Rightarrow> False | Some (_, cancelled) \<Rightarrow> cancelled)
           in case exec c token (bg_world b) of
                (r, w) \<Rightarrow> Some (b\<lparr>bg_world := w, bg_worker := Ran t r,
                                 bg_executed := bg_executed b @ [(t, token)]\<rparr>))
      | Ran t r \<Rightarrow> Some (b\<lparr>bg_current := None, bg_worker := Reporting t r\<rparr>)
      | Reporting t r \<Rightarrow>
          Some (b\<lparr>bg_finished := bg_finished b @ [(t, sync_result_of r)], bg_worker := Waiting\<rparr>)
      | Stopped \<Rightarrow> None)"

text \<open>\<open>submit\<close>: the ticket is drawn first, and the message is sent under the sender's lock.\<close>

definition draw_ticket :: "nat \<Rightarrow> 'c \<Rightarrow> ('c, 'w) background \<Rightarrow> ('c, 'w) background" where
  "draw_ticket i c b =
     b\<lparr>bg_next_ticket := bg_next_ticket b + 1,
       bg_clients := (bg_clients b)(i := Numbered (bg_next_ticket b) c)\<rparr>"

definition send_command :: "nat \<Rightarrow> u64 \<Rightarrow> 'c \<Rightarrow> ('c, 'w) background \<Rightarrow> u64 result \<times> ('c, 'w) background" where
  "send_command i t c b =
     (let b = b\<lparr>bg_clients := (bg_clients b)(i := Ready)\<rparr>
      in if bg_open b \<and> bg_worker b \<noteq> Stopped
         then (Inr t, b\<lparr>bg_queue := bg_queue b @ [Submitted t c], bg_accepted := bg_accepted b @ [t]\<rparr>)
         else (Inl (Protocol ''background engine stopped''), b))"

text \<open>\<open>cancel\<close>: the running command's token, or else the set of cancelled tickets.\<close>

definition cancel_running :: "nat \<Rightarrow> u64 \<Rightarrow> ('c, 'w) background \<Rightarrow> ('c, 'w) background" where
  "cancel_running i t b =
     (case bg_current b of
        Some (current, cancelled) \<Rightarrow>
          if current = t
          then b\<lparr>bg_current := Some (current, True), bg_clients := (bg_clients b)(i := Ready),
                 bg_requested := insert t (bg_requested b)\<rparr>
          else b\<lparr>bg_clients := (bg_clients b)(i := Cancelling t)\<rparr>
      | None \<Rightarrow> b\<lparr>bg_clients := (bg_clients b)(i := Cancelling t)\<rparr>)"

definition cancel_queued :: "nat \<Rightarrow> u64 \<Rightarrow> ('c, 'w) background \<Rightarrow> ('c, 'w) background" where
  "cancel_queued i t b =
     b\<lparr>bg_cancelled := insert t (bg_cancelled b), bg_clients := (bg_clients b)(i := Ready),
       bg_requested := insert t (bg_requested b)\<rparr>"

text \<open>\<open>cancel_current\<close>, and the two halves of \<open>shutdown\<close> before it joins the worker.\<close>

definition cancel_current :: "('c, 'w) background \<Rightarrow> ('c, 'w) background" where
  "cancel_current b = b\<lparr>bg_current := map_option (\<lambda>(t, _). (t, True)) (bg_current b)\<rparr>"

definition begin_shutdown :: "nat \<Rightarrow> ('c, 'w) background \<Rightarrow> ('c, 'w) background" where
  "begin_shutdown i b = (cancel_current b)\<lparr>bg_clients := (bg_clients b)(i := Closing)\<rparr>"

definition close_sender :: "nat \<Rightarrow> ('c, 'w) background \<Rightarrow> ('c, 'w) background" where
  "close_sender i b =
     (let b = b\<lparr>bg_clients := (bg_clients b)(i := Ready)\<rparr>
      in if bg_open b
         then b\<lparr>bg_open := False,
                bg_queue := (if bg_worker b = Stopped then bg_queue b else bg_queue b @ [Shutdown])\<rparr>
         else b)"

text \<open>The critical sections of the handle's threads, and of all.\<close>

inductive client_step :: "('c, 'w) background \<Rightarrow> ('c, 'w) background \<Rightarrow> bool" where
  client_draw: "bg_clients b i = Ready \<Longrightarrow> client_step b (draw_ticket i c b)"
| client_send: "bg_clients b i = Numbered t c \<Longrightarrow> client_step b (snd (send_command i t c b))"
| client_cancel: "bg_clients b i = Ready \<Longrightarrow> client_step b (cancel_running i t b)"
| client_cancel_queued: "bg_clients b i = Cancelling t \<Longrightarrow> client_step b (cancel_queued i t b)"
| client_cancel_current: "client_step b (cancel_current b)"
| client_shutdown: "bg_clients b i = Ready \<Longrightarrow> client_step b (begin_shutdown i b)"
| client_close: "bg_clients b i = Closing \<Longrightarrow> client_step b (close_sender i b)"

inductive bg_step ::
  "('c \<Rightarrow> bool \<Rightarrow> 'w \<Rightarrow> unit result \<times> 'w) \<Rightarrow> ('c, 'w) background \<Rightarrow> ('c, 'w) background \<Rightarrow> bool"
  for exec where
  bg_work: "worker_step exec b = Some b' \<Longrightarrow> bg_step exec b b'"
| bg_client: "client_step b b' \<Longrightarrow> bg_step exec b b'"

inductive bg_run ::
  "('c \<Rightarrow> bool \<Rightarrow> 'w \<Rightarrow> unit result \<times> 'w) \<Rightarrow> 'w \<Rightarrow> ('c, 'w) background \<Rightarrow> bool"
  for exec w where
  bg_start: "bg_run exec w (background_new w)"
| bg_more: "bg_run exec w b \<Longrightarrow> bg_step exec b b' \<Longrightarrow> bg_run exec w b'"

section \<open>Invariant\<close>

fun worker_tickets :: "'c worker \<Rightarrow> u64 list" where
  "worker_tickets Waiting = []"
| "worker_tickets (Taken t c) = [t]"
| "worker_tickets (Skipping t) = [t]"
| "worker_tickets (Accepted t c) = [t]"
| "worker_tickets (Running t c) = [t]"
| "worker_tickets (Ran t r) = [t]"
| "worker_tickets (Reporting t r) = [t]"
| "worker_tickets Stopped = []"

fun queued_tickets :: "'c channel_message list \<Rightarrow> u64 list" where
  "queued_tickets [] = []"
| "queued_tickets (Submitted t c # q) = t # queued_tickets q"
| "queued_tickets (Shutdown # q) = queued_tickets q"

lemma queued_tickets_append [simp]: "queued_tickets (p @ q) = queued_tickets p @ queued_tickets q"
  by (induction p rule: queued_tickets.induct) auto

text \<open>The stop request is the last message, and the worker stops only after it.\<close>

definition channel_ok :: "('c, 'w) background \<Rightarrow> bool" where
  "channel_ok b \<longleftrightarrow>
     (if bg_open b then Shutdown \<notin> set (bg_queue b) \<and> bg_worker b \<noteq> Stopped
      else bg_worker b = Stopped \<and> bg_queue b = [] \<or>
           bg_worker b \<noteq> Stopped \<and> (\<exists>q. Shutdown \<notin> set q \<and> bg_queue b = q @ [Shutdown]))"

text \<open>A ticket that was reported, or whose result is known, was executed or its cancel had returned.\<close>

definition executed_or_cancelled :: "('c, 'w) background \<Rightarrow> u64 \<Rightarrow> bool" where
  "executed_or_cancelled b t \<longleftrightarrow> t \<in> fst ` set (bg_executed b) \<or> t \<in> bg_requested b"

fun worker_history :: "('c, 'w) background \<Rightarrow> 'c worker \<Rightarrow> bool" where
  "worker_history b (Skipping t) = executed_or_cancelled b t"
| "worker_history b (Ran t r) = executed_or_cancelled b t"
| "worker_history b (Reporting t r) = executed_or_cancelled b t"
| "worker_history b _ = True"

definition bg_ok :: "('c, 'w) background \<Rightarrow> bool" where
  "bg_ok b \<longleftrightarrow>
     map fst (bg_finished b) @ worker_tickets (bg_worker b) @ queued_tickets (bg_queue b) = bg_accepted b \<and>
     channel_ok b \<and> bg_cancelled b \<subseteq> bg_requested b \<and>
     list_all (executed_or_cancelled b) (map fst (bg_finished b)) \<and> worker_history b (bg_worker b)"

lemma worker_step_channel:
  assumes "worker_step exec b = Some b'" and "channel_ok b"
  shows "channel_ok b' \<and> bg_open b' = bg_open b"
proof (cases "bg_worker b")
  case Waiting
  show ?thesis
  proof (cases "bg_queue b")
    case Nil
    then show ?thesis using assms Waiting by (auto simp: channel_ok_def split: if_splits)
  next
    case (Cons m rest)
    then show ?thesis
      using assms Waiting
      by (cases m) (auto simp: channel_ok_def Cons_eq_append_conv split: if_splits)
  qed
qed (use assms in \<open>auto simp: channel_ok_def Let_def split: prod.splits if_splits\<close>)

lemma executed_or_cancelled_mono:
  "executed_or_cancelled b t \<Longrightarrow> fst ` set (bg_executed b) \<subseteq> fst ` set (bg_executed b') \<Longrightarrow>
   bg_requested b \<subseteq> bg_requested b' \<Longrightarrow> executed_or_cancelled b' t"
  by (auto simp: executed_or_cancelled_def)

lemma executed_or_cancelled_upd [simp]:
  "executed_or_cancelled (b\<lparr>bg_worker := wk\<rparr>) = executed_or_cancelled b"
  "executed_or_cancelled (b\<lparr>bg_queue := q\<rparr>) = executed_or_cancelled b"
  "executed_or_cancelled (b\<lparr>bg_cancelled := cs\<rparr>) = executed_or_cancelled b"
  "executed_or_cancelled (b\<lparr>bg_current := cur\<rparr>) = executed_or_cancelled b"
  "executed_or_cancelled (b\<lparr>bg_finished := fs\<rparr>) = executed_or_cancelled b"
  "executed_or_cancelled (b\<lparr>bg_world := w\<rparr>) = executed_or_cancelled b"
  by (simp_all add: executed_or_cancelled_def fun_eq_iff)

lemma cancelled_is_requested:
  "bg_cancelled b \<subseteq> bg_requested b \<Longrightarrow> t \<in> bg_cancelled b \<Longrightarrow> executed_or_cancelled b t"
  by (auto simp: executed_or_cancelled_def)

lemma bg_ok_work:
  assumes "bg_ok b" and "worker_step exec b = Some b'"
  shows "bg_ok b'"
proof -
  note ok = assms(1)[unfolded bg_ok_def]
  have chan: "channel_ok b'" using worker_step_channel[OF assms(2)] ok by blast
  show ?thesis
  proof (cases "bg_worker b")
    case Waiting
    then show ?thesis
      using assms(2) ok chan
      by (auto simp: bg_ok_def split: list.splits channel_message.splits if_splits)
  next
    case (Running t c)
    then show ?thesis
      using assms(2) ok chan
      by (auto simp: bg_ok_def executed_or_cancelled_def Let_def split: prod.splits
          elim!: list.pred_mono_strong)
  qed (use assms(2) ok chan in
      \<open>auto simp: bg_ok_def Let_def cancelled_is_requested split: if_splits prod.splits\<close>)
qed

lemma worker_history_mono:
  "worker_history b wk \<Longrightarrow> fst ` set (bg_executed b) \<subseteq> fst ` set (bg_executed b') \<Longrightarrow>
   bg_requested b \<subseteq> bg_requested b' \<Longrightarrow> worker_history b' wk"
  by (cases wk) (auto intro: executed_or_cancelled_mono)

text \<open>The handle's critical sections leave the worker and its history alone.\<close>

lemma bg_ok_client:
  assumes "bg_ok b" and "bg_worker b' = bg_worker b" and "bg_finished b' = bg_finished b"
    and "bg_executed b' = bg_executed b" and "bg_requested b \<subseteq> bg_requested b'"
    and "bg_cancelled b' \<subseteq> bg_requested b'" and "channel_ok b'"
    and "\<exists>ts. queued_tickets (bg_queue b') = queued_tickets (bg_queue b) @ ts \<and> bg_accepted b' = bg_accepted b @ ts"
  shows "bg_ok b'"
proof -
  note ok = assms(1)[unfolded bg_ok_def]
  have "list_all (executed_or_cancelled b') (map fst (bg_finished b'))"
    using ok assms(3-5) executed_or_cancelled_mono[of b _ b'] by (auto elim!: list.pred_mono_strong)
  moreover have "worker_history b' (bg_worker b')"
    using ok assms(2,4,5) worker_history_mono[of b _ b'] by auto
  moreover have "map fst (bg_finished b') @ worker_tickets (bg_worker b') @ queued_tickets (bg_queue b') = bg_accepted b'"
    using ok assms(2,3,8) by (auto simp flip: append_assoc)
  ultimately show ?thesis using assms(6,7) by (simp add: bg_ok_def)
qed

lemma channel_ok_cong:
  "channel_ok b \<Longrightarrow> bg_open b' = bg_open b \<Longrightarrow> bg_queue b' = bg_queue b \<Longrightarrow> bg_worker b' = bg_worker b \<Longrightarrow>
   channel_ok b'"
  by (simp add: channel_ok_def)

lemmas client_defs = draw_ticket_def cancel_running_def cancel_queued_def cancel_current_def
  begin_shutdown_def Let_def

lemma bg_ok_client_step:
  assumes ok: "bg_ok b" and "client_step b b'"
  shows "bg_ok b'"
  using assms(2)
proof cases
  case (client_send i t c)
  show ?thesis
    using ok unfolding client_send
    by (intro bg_ok_client[OF ok]) (auto simp: send_command_def Let_def bg_ok_def channel_ok_def)
next
  case (client_close i)
  show ?thesis
    using ok unfolding client_close
    by (intro bg_ok_client[OF ok]) (auto simp: close_sender_def Let_def bg_ok_def channel_ok_def)
next
  case (client_draw i c)
  show ?thesis
    using ok unfolding client_draw
    by (intro bg_ok_client[OF ok]) (auto simp: client_defs bg_ok_def channel_ok_def)
next
  case (client_cancel i t)
  show ?thesis
    using ok unfolding client_cancel
    by (intro bg_ok_client[OF ok]) (auto simp: client_defs bg_ok_def channel_ok_def split: option.splits)
next
  case (client_cancel_queued i t)
  show ?thesis
    using ok unfolding client_cancel_queued
    by (intro bg_ok_client[OF ok]) (auto simp: client_defs bg_ok_def channel_ok_def)
next
  case client_cancel_current
  show ?thesis
    using ok unfolding client_cancel_current
    by (intro bg_ok_client[OF ok]) (auto simp: client_defs bg_ok_def channel_ok_def)
next
  case (client_shutdown i)
  show ?thesis
    using ok unfolding client_shutdown
    by (intro bg_ok_client[OF ok]) (auto simp: client_defs bg_ok_def channel_ok_def)
qed

lemma bg_ok_step: "bg_step exec b b' \<Longrightarrow> bg_ok b \<Longrightarrow> bg_ok b'"
  by (erule bg_step.cases) (blast intro: bg_ok_work bg_ok_client_step)+

lemma bg_run_ok: "bg_run exec w b \<Longrightarrow> bg_ok b"
proof (induction rule: bg_run.induct)
  case bg_start
  show ?case by (simp add: bg_ok_def background_new_def channel_ok_def)
next
  case (bg_more b b')
  then show ?case by (blast intro: bg_ok_step)
qed

section \<open>Shutting down\<close>

text \<open>Once the sender is dropped, the worker has at most this many steps before it stops.\<close>

fun stage_steps :: "'c worker \<Rightarrow> nat" where
  "stage_steps Waiting = 1"
| "stage_steps (Taken t c) = 6"
| "stage_steps (Skipping t) = 2"
| "stage_steps (Accepted t c) = 5"
| "stage_steps (Running t c) = 4"
| "stage_steps (Ran t r) = 3"
| "stage_steps (Reporting t r) = 2"
| "stage_steps Stopped = 0"

definition work_left :: "('c, 'w) background \<Rightarrow> nat" where
  "work_left b = (if bg_worker b = Stopped then 0 else 6 * length (bg_queue b) + stage_steps (bg_worker b))"

lemma worker_step_decreases: "worker_step exec b = Some b' \<Longrightarrow> work_left b' < work_left b"
  by (cases "bg_worker b")
    (auto simp: work_left_def Let_def split: list.splits channel_message.splits if_splits prod.splits)

text \<open>A path of any interleaving, with the number of the worker's steps.\<close>

inductive bg_path ::
  "('c \<Rightarrow> bool \<Rightarrow> 'w \<Rightarrow> unit result \<times> 'w) \<Rightarrow> ('c, 'w) background \<Rightarrow> nat \<Rightarrow> ('c, 'w) background \<Rightarrow> bool"
  for exec b where
  path_here: "bg_path exec b 0 b"
| path_work: "bg_path exec b n b' \<Longrightarrow> worker_step exec b' = Some b'' \<Longrightarrow> bg_path exec b (Suc n) b''"
| path_client: "bg_path exec b n b' \<Longrightarrow> client_step b' b'' \<Longrightarrow> bg_path exec b n b''"

lemma closed_client_step:
  assumes "client_step b b'" and "\<not> bg_open b"
  shows "\<not> bg_open b' \<and> work_left b' = work_left b \<and> bg_accepted b' = bg_accepted b"
  using assms
  by cases
    (auto simp: client_defs send_command_def close_sender_def work_left_def split: option.splits)

lemma closed_worker_step:
  assumes "worker_step exec b = Some b'"
  shows "bg_open b' = bg_open b \<and> bg_accepted b' = bg_accepted b"
  using assms
  by (cases "bg_worker b")
    (auto simp: Let_def split: list.splits channel_message.splits if_splits prod.splits)

lemma closed_path:
  assumes "bg_path exec b n b'" and "\<not> bg_open b" and "bg_ok b"
  shows "\<not> bg_open b' \<and> n + work_left b' \<le> work_left b \<and> bg_accepted b' = bg_accepted b \<and> bg_ok b'"
  using assms
proof (induction rule: bg_path.induct)
  case path_here
  then show ?case by simp
next
  case (path_work n b' b'')
  then show ?case
    using worker_step_decreases[OF path_work.hyps(2)] closed_worker_step[OF path_work.hyps(2)]
      bg_ok_work[OF _ path_work.hyps(2)] by auto
next
  case (path_client n b' b'')
  then show ?case
    using closed_client_step[OF path_client.hyps(2)] bg_ok_client_step[OF _ path_client.hyps(2)] by auto
qed

lemma closed_worker_blocks:
  "bg_ok b \<Longrightarrow> \<not> bg_open b \<Longrightarrow> worker_step exec b = None \<longleftrightarrow> bg_worker b = Stopped"
  by (cases "bg_worker b")
    (auto simp: bg_ok_def channel_ok_def Let_def split: list.splits channel_message.splits prod.splits)

lemma stopped_all_handled:
  assumes "bg_ok b" and "bg_worker b = Stopped"
  shows "map fst (bg_finished b) = bg_accepted b \<and> list_all (executed_or_cancelled b) (bg_accepted b)"
proof -
  have "map fst (bg_finished b) = bg_accepted b"
    using assms by (auto simp: bg_ok_def channel_ok_def split: if_splits)
  then show ?thesis using assms(1) by (metis bg_ok_def)
qed

lemma worker_stops:
  "bg_ok b \<Longrightarrow> \<not> bg_open b \<Longrightarrow> \<exists>n b'. bg_path exec b n b' \<and> bg_worker b' = Stopped"
proof (induction "work_left b" arbitrary: b rule: less_induct)
  case less
  show ?case
  proof (cases "worker_step exec b")
    case None
    then show ?thesis using less.prems closed_worker_blocks path_here by blast
  next
    case (Some b1)
    then obtain n b' where "bg_path exec b1 n b'" "bg_worker b' = Stopped"
      using less worker_step_decreases closed_worker_step bg_ok_work by metis
    moreover have "bg_path exec b1 n b' \<Longrightarrow> \<exists>n. bg_path exec b n b'"
      by (induction rule: bg_path.induct) (blast intro: bg_path.intros Some)+
    ultimately show ?thesis by blast
  qed
qed

end
