(* ===== verification/Engine_Notify.thy ===== *)
theory Engine_Notify
  imports Errors
begin

text \<open>
  The event channel of \<open>engine.rs\<close>: an unbounded queue with a \<open>Notifier\<close> that keeps a wake byte
  in a pipe and calls a waker. Its operations run on any number of threads and synchronise through
  the queue, the atomic flag and the pipe only, so each is a program of atomic actions: \<open>pc\<close> is the
  next action of a thread, \<open>thread_step\<close> performs it, and a system interleaves its threads. Events
  are values of any type \<open>'e\<close>.
\<close>

section \<open>Shared state\<close>

text \<open>
  \<open>nt_pipe\<close> counts the unread bytes, and is \<open>None\<close> when no pipe could be made. \<open>nt_senders\<close> and
  \<open>nt_receivers\<close> say whether an end of the channel is still held. \<open>nt_waker\<close> says whether a waker
  is registered, \<open>nt_calls\<close> counts the calls to it.
\<close>

record 'e notifier =
  nt_queue :: "'e list"
  nt_signaled :: bool
  nt_pipe :: "nat option"
  nt_senders :: bool
  nt_receivers :: bool
  nt_waker :: bool
  nt_calls :: nat

text \<open>What a nested call returns to.\<close>

datatype 'e caller =
    Emitting
  | Taking 'e
  | Retrying

datatype 'e pc =
    Idle
  | Send 'e
  | Swap_On "'e caller"
  | Write_Byte "'e caller"
  | Call_Waker "'e caller"
  | Try_Recv
  | Recv
  | Check_Empty 'e
  | Load_Signaled 'e
  | Swap_Off "'e caller"
  | Read_Byte "'e caller"
  | Returned "'e option"
  | Failed error

definition stream_closed :: error where
  "stream_closed = Protocol ''event stream closed''"

text \<open>\<open>signal\<close> and \<open>consume_signal\<close> return to their callers.\<close>

fun after_signal :: "'e caller \<Rightarrow> 'e pc" where
  "after_signal (Taking e) = Returned (Some e)"
| "after_signal Emitting = Idle"
| "after_signal Retrying = Idle"

fun after_consume :: "'e caller \<Rightarrow> bool \<Rightarrow> 'e pc" where
  "after_consume Retrying True = Try_Recv"
| "after_consume Retrying False = Returned None"
| "after_consume (Taking e) pending = Returned (Some e)"
| "after_consume Emitting pending = Idle"

section \<open>One action\<close>

text \<open>\<open>None\<close>: the action blocks, or the thread is between two calls.\<close>

fun thread_step :: "'e pc \<Rightarrow> 'e notifier \<Rightarrow> ('e pc \<times> 'e notifier) option" where
  "thread_step Idle n = None"
| "thread_step (Returned r) n = None"
| "thread_step (Failed e) n = None"
| "thread_step (Send e) n =
     Some (if nt_receivers n then (Swap_On Emitting, n\<lparr>nt_queue := nt_queue n @ [e]\<rparr>) else (Idle, n))"
| "thread_step (Swap_On k) n =
     Some (if nt_signaled n then Call_Waker k else Write_Byte k, n\<lparr>nt_signaled := True\<rparr>)"
| "thread_step (Write_Byte k) n =
     Some (Call_Waker k, n\<lparr>nt_pipe := map_option Suc (nt_pipe n)\<rparr>)"
| "thread_step (Call_Waker k) n =
     Some (after_signal k, n\<lparr>nt_calls := (if nt_waker n then Suc (nt_calls n) else nt_calls n)\<rparr>)"
| "thread_step Try_Recv n =
     (case nt_queue n of
        e # es \<Rightarrow> Some (Check_Empty e, n\<lparr>nt_queue := es\<rparr>)
      | [] \<Rightarrow> Some (if nt_senders n then Swap_Off Retrying else Failed stream_closed, n))"
| "thread_step Recv n =
     (case nt_queue n of
        e # es \<Rightarrow> Some (Check_Empty e, n\<lparr>nt_queue := es\<rparr>)
      | [] \<Rightarrow> if nt_senders n then None else Some (Failed stream_closed, n))"
| "thread_step (Check_Empty e) n =
     Some (if nt_queue n = [] then Swap_Off (Taking e) else Load_Signaled e, n)"
| "thread_step (Load_Signaled e) n =
     Some (if nt_signaled n then Returned (Some e) else Swap_On (Taking e), n)"
| "thread_step (Swap_Off k) n =
     Some (if nt_signaled n then Read_Byte k else after_consume k False, n\<lparr>nt_signaled := False\<rparr>)"
| "thread_step (Read_Byte k) n =
     (case nt_pipe n of
        None \<Rightarrow> Some (after_consume k True, n)
      | Some 0 \<Rightarrow> None
      | Some (Suc b) \<Rightarrow> Some (after_consume k True, n\<lparr>nt_pipe := Some b\<rparr>))"

section \<open>Systems of threads\<close>

record 'e event_system =
  es_shared :: "'e notifier"
  es_threads :: "nat \<Rightarrow> 'e pc"

definition channel_new :: "bool \<Rightarrow> 'e notifier" where
  "channel_new pipe =
     \<lparr>nt_queue = [], nt_signaled = False, nt_pipe = (if pipe then Some 0 else None), nt_senders = True,
      nt_receivers = True, nt_waker = False, nt_calls = 0\<rparr>"

definition event_channel :: "bool \<Rightarrow> 'e event_system" where
  "event_channel pipe = \<lparr>es_shared = channel_new pipe, es_threads = (\<lambda>_. Idle)\<rparr>"

text \<open>A thread is between two calls of the interface.\<close>

fun at_rest :: "'e pc \<Rightarrow> bool" where
  "at_rest Idle = True"
| "at_rest (Returned r) = True"
| "at_rest (Failed e) = True"
| "at_rest p = False"

fun is_call :: "'e pc \<Rightarrow> bool" where
  "is_call (Send e) = True"
| "is_call Try_Recv = True"
| "is_call Recv = True"
| "is_call p = False"

definition begin_call :: "nat \<Rightarrow> 'e pc \<Rightarrow> 'e event_system \<Rightarrow> 'e event_system" where
  "begin_call i p s = s\<lparr>es_threads := (es_threads s)(i := p)\<rparr>"

definition run_action :: "nat \<Rightarrow> 'e event_system \<Rightarrow> 'e event_system option" where
  "run_action i s =
     map_option (\<lambda>(p, n). \<lparr>es_shared = n, es_threads = (es_threads s)(i := p)\<rparr>)
       (thread_step (es_threads s i) (es_shared s))"

text \<open>\<open>set_waker\<close> and \<open>clear_waker\<close>; dropping an end of the channel.\<close>

definition put_waker :: "bool \<Rightarrow> 'e event_system \<Rightarrow> 'e event_system" where
  "put_waker b s = s\<lparr>es_shared := (es_shared s)\<lparr>nt_waker := b\<rparr>\<rparr>"

definition drop_senders :: "'e event_system \<Rightarrow> 'e event_system" where
  "drop_senders s = s\<lparr>es_shared := (es_shared s)\<lparr>nt_senders := False\<rparr>\<rparr>"

definition drop_receivers :: "'e event_system \<Rightarrow> 'e event_system" where
  "drop_receivers s = s\<lparr>es_shared := (es_shared s)\<lparr>nt_receivers := False\<rparr>\<rparr>"

text \<open>Threads are numbered below \<open>m\<close>; each may make any call when it is at rest.\<close>

inductive event_step :: "nat \<Rightarrow> 'e event_system \<Rightarrow> 'e event_system \<Rightarrow> bool" for m where
  step_call: "i < m \<Longrightarrow> at_rest (es_threads s i) \<Longrightarrow> is_call p \<Longrightarrow> event_step m s (begin_call i p s)"
| step_act: "i < m \<Longrightarrow> run_action i s = Some t \<Longrightarrow> event_step m s t"
| step_waker: "event_step m s (put_waker b s)"
| step_senders: "event_step m s (drop_senders s)"
| step_receivers: "event_step m s (drop_receivers s)"

inductive event_run :: "nat \<Rightarrow> bool \<Rightarrow> 'e event_system \<Rightarrow> bool" for m pipe where
  event_start: "event_run m pipe (event_channel pipe)"
| event_more: "event_run m pipe s \<Longrightarrow> event_step m s t \<Longrightarrow> event_run m pipe t"

section \<open>The wake byte\<close>

text \<open>Bytes a thread is about to write count up, bytes it is about to read count down.\<close>

fun byte_debt :: "'e pc \<Rightarrow> int" where
  "byte_debt (Write_Byte k) = 1"
| "byte_debt (Read_Byte k) = -1"
| "byte_debt p = 0"

definition bytes_due :: "nat \<Rightarrow> 'e event_system \<Rightarrow> int" where
  "bytes_due m s = (\<Sum>i<m. byte_debt (es_threads s i))"

text \<open>The invariant: unread bytes and bytes on their way make one exactly while \<open>signaled\<close> is set.\<close>

definition byte_ok :: "nat \<Rightarrow> 'e event_system \<Rightarrow> bool" where
  "byte_ok m s \<longleftrightarrow>
     (\<forall>b. nt_pipe (es_shared s) = Some b \<longrightarrow>
        int b + bytes_due m s = (if nt_signaled (es_shared s) then 1 else 0))"

lemma bytes_due_upd:
  assumes "i < m"
  shows "bytes_due m (s\<lparr>es_threads := (es_threads s)(i := p)\<rparr>) =
    bytes_due m s + byte_debt p - byte_debt (es_threads s i)"
  using assms by (simp add: bytes_due_def fun_upd_def sum.If_cases if_distrib[of byte_debt]
      sum.remove[of "{..<m}" i] Diff_eq[symmetric] cong: if_cong)

lemma byte_debt_rest [simp]: "at_rest p \<Longrightarrow> byte_debt p = 0"
  by (cases p) simp_all

lemma byte_debt_call [simp]: "is_call p \<Longrightarrow> byte_debt p = 0"
  by (cases p) simp_all

lemma byte_debt_signal [simp]: "byte_debt (after_signal k) = 0"
  by (cases k) simp_all

lemma byte_debt_consume [simp]: "byte_debt (after_consume k b) = 0"
  by (cases k; cases b) simp_all

text \<open>One action changes the debt of its thread by what it does to the flag and the pipe.\<close>

definition byte_balance :: "'e notifier \<Rightarrow> int" where
  "byte_balance n = (case nt_pipe n of None \<Rightarrow> 0 | Some b \<Rightarrow> int b - (if nt_signaled n then 1 else 0))"

lemma thread_step_balance:
  assumes "thread_step p n = Some (q, n')"
  shows "(nt_pipe n = None \<longleftrightarrow> nt_pipe n' = None) \<and>
    (nt_pipe n \<noteq> None \<longrightarrow> byte_balance n' + byte_debt q = byte_balance n + byte_debt p)"
  using assms
  by (cases p; auto simp: byte_balance_def split: list.splits if_splits option.splits nat.splits)

lemma byte_ok_alt:
  "byte_ok m s \<longleftrightarrow> (nt_pipe (es_shared s) \<noteq> None \<longrightarrow> byte_balance (es_shared s) + bytes_due m s = 0)"
  by (auto simp: byte_ok_def byte_balance_def)

lemma byte_ok_step:
  assumes "byte_ok m s" and "event_step m s t"
  shows "byte_ok m t"
  using assms(2,1)
proof cases
  case (step_call i p)
  then show ?thesis
    using assms(1) bytes_due_upd[of i m s p] by (simp add: byte_ok_alt begin_call_def)
next
  case (step_act i)
  then obtain q n where st: "thread_step (es_threads s i) (es_shared s) = Some (q, n)"
    and t: "t = \<lparr>es_shared = n, es_threads = (es_threads s)(i := q)\<rparr>" by (auto simp: run_action_def)
  have "bytes_due m t = bytes_due m (s\<lparr>es_threads := (es_threads s)(i := q)\<rparr>)"
    by (simp add: t bytes_due_def)
  then show ?thesis
    using assms(1) thread_step_balance[OF st] bytes_due_upd[OF step_act(1), of s q]
    by (auto simp: byte_ok_alt t)
qed (use assms(1) in \<open>simp_all add: byte_ok_def bytes_due_def put_waker_def drop_senders_def drop_receivers_def\<close>)

lemma event_run_byte_ok: "event_run m pipe s \<Longrightarrow> byte_ok m s"
proof (induction rule: event_run.induct)
  case event_start
  show ?case by (simp add: byte_ok_def event_channel_def channel_new_def bytes_due_def)
next
  case (event_more s t)
  then show ?case by (blast intro: byte_ok_step)
qed

section \<open>A consumer that drains\<close>

text \<open>
  Thread 0 is the only consumer and only calls \<open>try_recv\<close>; the others only emit. Its program
  counter tells whether it has just found the queue empty.
\<close>

fun drain_pc :: "'e pc \<Rightarrow> bool" where
  "drain_pc Idle = True"
| "drain_pc (Returned r) = True"
| "drain_pc (Failed e) = True"
| "drain_pc Try_Recv = True"
| "drain_pc (Check_Empty e) = True"
| "drain_pc (Load_Signaled e) = True"
| "drain_pc (Swap_On k) = (\<exists>e. k = Taking e)"
| "drain_pc (Write_Byte k) = (\<exists>e. k = Taking e)"
| "drain_pc (Call_Waker k) = (\<exists>e. k = Taking e)"
| "drain_pc (Swap_Off k) = (k \<noteq> Emitting)"
| "drain_pc (Read_Byte k) = (k \<noteq> Emitting)"
| "drain_pc p = False"

fun emit_pc :: "'e pc \<Rightarrow> bool" where
  "emit_pc Idle = True"
| "emit_pc (Send e) = True"
| "emit_pc (Swap_On k) = (k = Emitting)"
| "emit_pc (Write_Byte k) = (k = Emitting)"
| "emit_pc (Call_Waker k) = (k = Emitting)"
| "emit_pc p = False"

inductive drain_run :: "nat \<Rightarrow> bool \<Rightarrow> 'e event_system \<Rightarrow> bool" for m pipe where
  drain_start: "drain_run m pipe (event_channel pipe)"
| drain_recv: "drain_run m pipe s \<Longrightarrow> 0 < m \<Longrightarrow> at_rest (es_threads s 0) \<Longrightarrow>
    drain_run m pipe (begin_call 0 Try_Recv s)"
| drain_emit: "drain_run m pipe s \<Longrightarrow> i < m \<Longrightarrow> i \<noteq> 0 \<Longrightarrow> at_rest (es_threads s i) \<Longrightarrow>
    drain_run m pipe (begin_call i (Send e) s)"
| drain_act: "drain_run m pipe s \<Longrightarrow> i < m \<Longrightarrow> run_action i s = Some t \<Longrightarrow> drain_run m pipe t"

lemma drain_is_event_run: "drain_run m pipe s \<Longrightarrow> event_run m pipe s"
proof (induction rule: drain_run.induct)
  case drain_start
  show ?case by (rule event_start)
next
  case (drain_recv s)
  then show ?case by (intro event_more[OF drain_recv.IH] step_call) simp_all
next
  case (drain_emit s i e)
  then show ?case by (intro event_more[OF drain_emit.IH] step_call) simp_all
next
  case (drain_act s i t)
  then show ?case by (intro event_more[OF drain_act.IH] step_act)
qed

text \<open>An event that is queued has set the flag, or its emitter is about to.\<close>

definition announced :: "nat \<Rightarrow> 'e event_system \<Rightarrow> bool" where
  "announced m s \<longleftrightarrow> nt_queue (es_shared s) = [] \<or> nt_signaled (es_shared s) \<or>
     (\<exists>i<m. i \<noteq> 0 \<and> es_threads s i = Swap_On Emitting)"

fun found_empty :: "'e pc \<Rightarrow> bool" where
  "found_empty Idle = True"
| "found_empty (Swap_Off k) = (k = Retrying)"
| "found_empty (Returned r) = (r = None)"
| "found_empty p = False"

definition drain_ok :: "nat \<Rightarrow> 'e event_system \<Rightarrow> bool" where
  "drain_ok m s \<longleftrightarrow>
     nt_senders (es_shared s) \<and> drain_pc (es_threads s 0) \<and> (\<forall>i<m. i \<noteq> 0 \<longrightarrow> emit_pc (es_threads s i)) \<and>
     (found_empty (es_threads s 0) \<longrightarrow> announced m s)"

lemma consumer_step:
  assumes "thread_step p n = Some (q, n')" and "drain_pc p" and "nt_senders n"
  shows "nt_senders n' \<and> drain_pc q \<and>
    (found_empty q \<longrightarrow> nt_queue n' = [] \<or> found_empty p \<and> nt_queue n' = nt_queue n \<and> nt_signaled n' = nt_signaled n)"
  using assms
proof (cases p)
  case (Swap_Off k)
  then show ?thesis using assms by (cases k) (auto split: if_splits)
next
  case (Call_Waker k)
  then show ?thesis using assms by (cases k) auto
next
  case (Read_Byte k)
  then show ?thesis using assms by (cases k) (auto split: option.splits nat.splits)
qed (auto split: list.splits if_splits)

lemma emitter_step:
  assumes "thread_step p n = Some (q, n')" and "emit_pc p"
  shows "emit_pc q \<and> nt_senders n' = nt_senders n \<and>
    (nt_signaled n \<longrightarrow> nt_signaled n') \<and>
    (nt_queue n' = nt_queue n \<or> q = Swap_On Emitting) \<and> (p = Swap_On Emitting \<longrightarrow> nt_signaled n')"
  using assms by (cases p) (auto split: if_splits)

lemma drain_run_ok: "drain_run m pipe s \<Longrightarrow> drain_ok m s"
proof (induction rule: drain_run.induct)
  case drain_start
  show ?case by (simp add: drain_ok_def event_channel_def channel_new_def announced_def)
next
  case (drain_recv s)
  then show ?case by (simp add: drain_ok_def begin_call_def)
next
  case (drain_emit s i e)
  have "announced m (begin_call i (Send e) s)" if "announced m s"
  proof -
    have "j \<noteq> i" if "es_threads s j = Swap_On Emitting" for j
      using that drain_emit.hyps(4) by auto
    then show ?thesis using that by (auto simp: announced_def begin_call_def)
  qed
  then show ?case using drain_emit by (auto simp: drain_ok_def begin_call_def)
next
  case (drain_act s i t)
  then obtain q n where st: "thread_step (es_threads s i) (es_shared s) = Some (q, n)"
    and t: "t = \<lparr>es_shared = n, es_threads = (es_threads s)(i := q)\<rparr>" by (auto simp: run_action_def)
  show ?case
  proof (cases "i = 0")
    case True
    with st have st0: "thread_step (es_threads s 0) (es_shared s) = Some (q, n)" by simp
    note IH = drain_act.IH[unfolded drain_ok_def]
    have C: "nt_senders n" "drain_pc q"
      "found_empty q \<Longrightarrow> nt_queue n = [] \<or> found_empty (es_threads s 0) \<and>
         nt_queue n = nt_queue (es_shared s) \<and> nt_signaled n = nt_signaled (es_shared s)"
      using consumer_step[OF st0] IH by blast+
    have "announced m t" if "found_empty q"
      using C(3)[OF that]
    proof
      assume "nt_queue n = []"
      then show ?thesis by (simp add: announced_def t)
    next
      assume "found_empty (es_threads s 0) \<and>
         nt_queue n = nt_queue (es_shared s) \<and> nt_signaled n = nt_signaled (es_shared s)"
      moreover from this have "announced m s" using IH by blast
      ultimately show ?thesis using True by (auto simp: announced_def t)
    qed
    then show ?thesis using IH C(1,2) True by (simp add: drain_ok_def t)
  next
    case False
    then have em: "emit_pc (es_threads s i)" using drain_act by (simp add: drain_ok_def)
    note E = emitter_step[OF st em]
    have "announced m t" if "announced m s"
      using that E False drain_act.hyps(2) by (fastforce simp: announced_def t)
    then show ?thesis using drain_act.IH E False by (auto simp: drain_ok_def t)
  qed
qed

end
