(* ===== verification/Engine_Laws.thy ===== *)
theory Engine_Laws
  imports Engine_Background Engine_Notify "HOL-Library.Multiset"
begin

text \<open>
  Lemmas on the engine: what an exchange that returns has checked, the events it emits, what the
  digest of a snapshot stands for, whom a refresh contacts, and concrete schedules of the event
  channel and of the background engine.
\<close>

section \<open>An exchange that returns has checked its peer\<close>

lemma bindS_InrE:
  assumes "bindS m f = (Inr y, s)"
  obtains x s' where "m = (Inr x, s')" and "f x s' = (Inr y, s)"
  using assms by (auto simp: bindS_Inr)

lemma read_hello_app: "read_hello i w = (Inr (remote, version), w') \<Longrightarrow> id_app remote = id_app i"
  by (auto simp: read_hello_def elim!: bindS_InrE split: message.splits if_splits)

lemma greet_checked:
  assumes "client_greet i check opts w = (Inr (remote, version, f), w')"
  shows "check remote f = Inr () \<and> (\<forall>e. so_expected_fingerprint opts = Some e \<longrightarrow> f = e) \<and>
    id_app remote = id_app i"
  using assms unfolding client_greet_def
  by (auto elim!: bindS_InrE dest!: read_hello_app split: option.split_asm if_split_asm)

lemma legacy_outcome:
  "client_legacy c rng i key opts remote f st w = (Inr out, w') \<Longrightarrow> sy_identity out = remote \<and> sy_fingerprint out = f"
  unfolding client_legacy_def Let_def
  by (auto elim!: bindS_InrE split: if_split_asm message.split_asm prod.split_asm)

lemma delta_outcome:
  "client_delta c rng key opts remote f st w = (Inr out, w') \<Longrightarrow> sy_identity out = remote \<and> sy_fingerprint out = f"
  unfolding client_delta_def Let_def
  by (auto elim!: bindS_InrE split: if_split_asm message.split_asm prod.split_asm)

lemma sync_outcome_checked:
  assumes "run_sync c rng i key check opts w = (Inr out, w')"
  shows "check (sy_identity out) (sy_fingerprint out) = Inr () \<and>
    (\<forall>e. so_expected_fingerprint opts = Some e \<longrightarrow> sy_fingerprint out = e) \<and>
    id_app (sy_identity out) = id_app i"
proof -
  obtain w1 where inner: "run_sync_inner c rng i key check opts w = (Inr out, w1)"
    using assms by (auto simp: run_sync_def bindS_Inr split: prod.splits)
  obtain remote version f w0 where greet: "client_greet i check opts w = (Inr (remote, version, f), w0)"
    and "sy_identity out = remote \<and> sy_fingerprint out = f"
    using inner by (auto simp: run_sync_inner_def Let_def bindS_Inr dest: legacy_outcome delta_outcome split: if_splits)
  then show ?thesis using greet_checked[OF greet] by simp
qed

section \<open>Events\<close>

lemma engine_emit_fields [simp]:
  "eg_handler (engine_emit ev e) = eg_handler e" "eg_config (engine_emit ev e) = eg_config e"
  "eg_net (engine_emit ev e) = eg_net e" "eg_router (engine_emit ev e) = eg_router e"
  "eg_sink (engine_emit ev e) = eg_sink e" "eg_listener (engine_emit ev e) = eg_listener e"
  by (simp_all add: engine_emit_def)

lemma emit_all_fields [simp]:
  "eg_handler (emit_all evs e) = eg_handler e" "eg_config (emit_all evs e) = eg_config e"
  "eg_net (emit_all evs e) = eg_net e" "eg_router (emit_all evs e) = eg_router e"
  "eg_sink (emit_all evs e) = eg_sink e" "eg_listener (emit_all evs e) = eg_listener e"
  by (induction evs arbitrary: e) simp_all

lemma emit_all_events: "eg_sink e \<Longrightarrow> eg_events (emit_all evs e) = eg_events e @ evs"
  by (induction evs arbitrary: e) (simp_all add: engine_emit_def)

lemma with_state_fields [simp]:
  assumes "eg_with_state f e = (r, e')"
  shows "eg_events e' = eg_events e \<and> eg_sink e' = eg_sink e \<and> eg_handler e' = eg_handler e \<and>
    eg_config e' = eg_config e \<and> eg_router e' = eg_router e"
  using assms by (auto simp: eg_with_state_def split: prod.splits)

text \<open>The events of a check: at most one, and never one of completion.\<close>

fun is_progress :: "engine_event \<Rightarrow> bool" where
  "is_progress (SyncStarted d a) = True"
| "is_progress (PeerFingerprintChanged d f) = True"
| "is_progress ev = False"

lemma sync_check_progress: "list_all is_progress (snd (sync_check hr h app a k i f))"
  by (auto simp: sync_check_def check_peer_with_handler_def split: prod.splits sum.splits)

lemma run_checked_events:
  assumes "run_checked c rng key check opts e = (r, e')" and "eg_sink e"
    and "\<And>i f. list_all P (snd (check i f))"
  shows "\<exists>evs. eg_events e' = eg_events e @ evs \<and> list_all P evs \<and> eg_sink e' \<and>
    eg_handler e' = eg_handler e \<and> eg_config e' = eg_config e \<and> eg_router e' = eg_router e"
proof -
  obtain w where run: "run_sync c rng (own_identity e) key (\<lambda>i f. fst (check i f)) opts
      ((eg_net e)\<lparr>cw_checked := []\<rparr>) = (r, w)"
    and e': "e' = emit_all (concat (map (\<lambda>(i, f). snd (check i f)) (cw_checked w))) (e\<lparr>eg_net := w\<rparr>)"
    using assms(1) by (auto simp: run_checked_def split: prod.splits)
  have "list_all P (concat (map (\<lambda>(i, f). snd (check i f)) (cw_checked w)))"
    using assms(3) by (induction "cw_checked w") (auto simp: list_all_iff)
  then show ?thesis using assms(2) by (simp add: e' emit_all_events)
qed

lemma run_checked_outcome:
  assumes "run_checked c rng key check opts e = (Inr out, e')"
  shows "fst (check (sy_identity out) (sy_fingerprint out)) = Inr () \<and>
    (\<forall>x. so_expected_fingerprint opts = Some x \<longrightarrow> sy_fingerprint out = x) \<and>
    id_app (sy_identity out) = id_app (own_identity e)"
  using assms sync_outcome_checked by (force simp: run_checked_def split: prod.splits)

lemma sync_check_accepts:
  "fst (sync_check hr h app a k i f) = Inr () \<longleftrightarrow>
     id_app i = app \<and> hd_is_linked_with_fingerprint hr i f h"
  by (auto simp: sync_check_def check_peer_with_handler_def split: prod.splits sum.splits if_splits)

text \<open>The report of an exchange at the end of its events.\<close>

definition sync_report :: "('x, 'h) engine \<Rightarrow> sync_request \<Rightarrow> (device_info \<times> sync_stats) result \<Rightarrow> engine_event list \<Rightarrow> bool" where
  "sync_report e rq r evs \<longleftrightarrow>
     (case r of
        Inr (d, st) \<Rightarrow> evs = [SyncFinished d (rq_adapter_id rq) SyncSuccess, SyncStatsEvent d (rq_adapter_id rq) st]
      | Inl err \<Rightarrow> evs = [] \<or>
          (\<exists>device_id. rq_expected_device_id rq = Some device_id \<and>
             evs = [SyncFinished (unreached_info e rq device_id) (rq_adapter_id rq) (SyncFailed (error_display err))]))"

text \<open>An exchange fails before it reaches the device, or runs.\<close>

abbreviation engine_run ::
  "aead \<Rightarrow> (nat \<Rightarrow> bytes) \<Rightarrow> 'h handler \<Rightarrow> sync_request \<Rightarrow> app_key \<Rightarrow> ('x, 'h) engine \<Rightarrow>
   sync_outcome result \<times> ('x, 'h) engine" where
  "engine_run c rng hr rq key e \<equiv>
     run_checked c rng key
       (sync_check hr (eg_handler e) (id_app (own_identity e)) (rq_address rq) (rq_adapter_id rq))
       (request_options (eg_router e) rq) e"

lemma engine_sync_cases [consumes 1]:
  fixes e e' :: "('x, 'h) engine"
  assumes "engine_sync c rng hr keys rq e = (r, e')"
  obtains (early) err where "r = Inl err" and "eg_events e' = eg_events e"
  | (ran) adapter :: "'x data_adapter" and key :: app_key and e1 :: "('x, 'h) engine" and
      out :: "sync_outcome result" and e2 :: "('x, 'h) engine" where
      "eg_events e1 = eg_events e \<and> eg_sink e1 = eg_sink e \<and> eg_handler e1 = eg_handler e \<and>
       eg_config e1 = eg_config e \<and> eg_router e1 = eg_router e"
      and "engine_run c rng hr rq key e1 = (out, e2)"
      and "(r, e') = (case out of
         Inl err \<Rightarrow> (Inl err, (case rq_expected_device_id rq of
             None \<Rightarrow> e2
           | Some device_id \<Rightarrow> engine_emit (SyncFinished (unreached_info e2 rq device_id) (rq_adapter_id rq)
                 (SyncFailed (error_display err))) e2))
       | Inr outcome \<Rightarrow>
           let device = checked_info (sy_identity outcome) (Some (rq_address rq)) (sy_fingerprint outcome)
           in bindS (eg_with_state (\<lambda>s x. case da_apply_from_state adapter s x of (r, x) \<Rightarrow> (r, s, x)) e2)
                (\<lambda>_ e. (Inr (device, sy_stats outcome),
                   emit_all [SyncFinished device (rq_adapter_id rq) SyncSuccess,
                     SyncStatsEvent device (rq_adapter_id rq) (sy_stats outcome)] e)))"
proof (cases "router_adapter (rq_adapter_id rq) (eg_router e)")
  case None
  then show ?thesis using assms early by (auto simp: engine_sync_def)
next
  case (Some adapter)
  obtain q e1 where ld: "eg_with_state (da_load_into_state adapter) e = (q, e1)" by force
  note same = with_state_fields[OF ld]
  show ?thesis
  proof (cases q)
    case (Inl err)
    then show ?thesis using assms early Some ld same by (auto simp: engine_sync_def)
  next
    case loaded: (Inr u)
    show ?thesis
    proof (cases "keys = Inr () \<and> (\<exists>key. hd_app_key hr (eg_handler e1) = Inr key)")
      case True
      then obtain key where key: "keys = Inr ()" "hd_app_key hr (eg_handler e1) = Inr key" by auto
      obtain out e2 where run: "engine_run c rng hr rq key e1 = (out, e2)" by force
      show ?thesis
        using assms Some ld loaded key run
        by (intro ran[OF same run, of adapter])
          (simp add: engine_sync_def split: sum.splits)
    next
      case False
      then show ?thesis
        using assms early Some ld loaded same
        by (cases keys; cases "hd_app_key hr (eg_handler e1)") (auto simp: engine_sync_def)
    qed
  qed
qed

lemma sync_ends:
  fixes e e' :: "('x, 'h) engine"
  assumes "engine_sync c rng hr keys rq e = (r, e')" and "eg_sink e"
  shows "\<exists>progress report. eg_events e' = eg_events e @ progress @ report \<and>
    list_all is_progress progress \<and> sync_report e rq r report"
  using assms(1)
proof (cases rule: engine_sync_cases)
  case (early err)
  then show ?thesis by (intro exI[of _ "[]"]) (simp add: sync_report_def)
next
  case (ran adapter key e1 out e2)
  obtain progress where p: "eg_events e2 = eg_events e @ progress" "list_all is_progress progress"
    and sink: "eg_sink e2" "eg_config e2 = eg_config e"
    using run_checked_events[OF ran(2) _ sync_check_progress] ran(1) assms(2) by auto
  show ?thesis
  proof (cases out)
    case (Inl err)
    then show ?thesis
      using ran(3) p sink
      by (intro exI[of _ progress] exI[of _ "case rq_expected_device_id rq of None \<Rightarrow> []
            | Some d \<Rightarrow> [SyncFinished (unreached_info e rq d) (rq_adapter_id rq) (SyncFailed (error_display err))]"])
        (auto simp: sync_report_def engine_emit_def unreached_info_def own_identity_def split: option.splits)
  next
    case (Inr outcome)
    let ?d = "checked_info (sy_identity outcome) (Some (rq_address rq)) (sy_fingerprint outcome)"
    obtain q e3 where ap: "eg_with_state (\<lambda>s x. case da_apply_from_state adapter s x of (r, x) \<Rightarrow> (r, s, x)) e2 = (q, e3)"
      by force
    note same = with_state_fields[OF ap]
    show ?thesis
      using ran(3) p sink same ap Inr
      by (intro exI[of _ progress] exI[of _ "case q of Inl _ \<Rightarrow> []
            | Inr _ \<Rightarrow> [SyncFinished ?d (rq_adapter_id rq) SyncSuccess, SyncStatsEvent ?d (rq_adapter_id rq) (sy_stats outcome)]"])
        (cases q, auto simp: sync_report_def engine_emit_def Let_def)
  qed
qed

text \<open>What the caller is told about the device was checked against the handler.\<close>

lemma sync_returns_linked:
  fixes e e' :: "('x, 'h) engine"
  assumes "engine_sync c rng hr keys rq e = (Inr (d, st), e')"
  shows "\<exists>f. dv_fingerprint d = Some f \<and> hd_is_linked_with_fingerprint hr (dv_identity d) f (eg_handler e) \<and>
    id_app (dv_identity d) = id_app (own_identity e) \<and>
    (\<forall>x. rq_expected_fingerprint rq = Some x \<longrightarrow> f = x)"
  using assms
proof (cases rule: engine_sync_cases)
  case (ran adapter key e1 out e2)
  then obtain outcome where out: "out = Inr outcome" by (cases out) auto
  have "d = checked_info (sy_identity outcome) (Some (rq_address rq)) (sy_fingerprint outcome)"
    using ran(3) out by (auto simp: Let_def bindS_split split: prod.splits sum.splits)
  then show ?thesis
    using run_checked_outcome[OF ran(2)[unfolded out]] ran(1)
    by (auto simp: checked_info_def sync_check_accepts request_options_def own_identity_def)
qed auto

section \<open>Digests\<close>

definition hashable :: "entry \<Rightarrow> bool" where
  "hashable e \<longleftrightarrow> length (e_key e) < 2 ^ 64 \<and> length (clk_device (e_clock e)) < 2 ^ 64 \<and> length (e_value e) < 2 ^ 64"

lemma hash_entry_input_inject:
  assumes "hash_entry_input d @ x = hash_entry_input e @ y" and "hashable d" and "hashable e"
  shows "d = e \<and> x = y"
proof -
  let ?tail = "\<lambda>e x. be_bytes 8 (unat (clk_counter (e_clock e))) @
     len_prefixed (str_bytes (clk_device (e_clock e))) @ len_prefixed (e_value e) @ x"
  let ?rest = "\<lambda>e x. len_prefixed (str_bytes (clk_device (e_clock e))) @ len_prefixed (e_value e) @ x"
  have 1: "str_bytes (e_key d) = str_bytes (e_key e) \<and> ?tail d x = ?tail e y"
    using assms by (intro len_prefixed_inject) (simp_all add: hash_entry_input_def hashable_def)
  then have 2: "be_bytes 8 (unat (clk_counter (e_clock d))) = be_bytes 8 (unat (clk_counter (e_clock e))) \<and>
      ?rest d x = ?rest e y"
    by (intro append_eq_append_conv[THEN iffD1]) simp_all
  then have 3: "str_bytes (clk_device (e_clock d)) = str_bytes (clk_device (e_clock e)) \<and>
      len_prefixed (e_value d) @ x = len_prefixed (e_value e) @ y"
    using assms by (intro len_prefixed_inject) (simp_all add: hashable_def)
  then have "e_value d = e_value e \<and> x = y"
    using assms by (intro len_prefixed_inject) (simp_all add: hashable_def)
  moreover have "unat (clk_counter (e_clock d)) = unat (clk_counter (e_clock e))"
    using 2 unat_u64_bound[of "clk_counter (e_clock d)"] unat_u64_bound[of "clk_counter (e_clock e)"]
    by (intro be_bytes_inject[of 8]) auto
  ultimately show ?thesis
    using 1 3 by (auto intro!: entry.equality lamport_clock.expand simp: word_unat_eq_iff)
qed

lemma hash_entry_input_not_Nil [simp]: "hash_entry_input e \<noteq> []"
  using length_be_bytes[of 8] by (metis append_is_Nil_conv hash_entry_input_def len_prefixed_def list.size(3) zero_neq_numeral)

lemma hash_inputs_inject:
  "concat (map hash_entry_input es) = concat (map hash_entry_input fs) \<Longrightarrow>
   list_all hashable es \<Longrightarrow> list_all hashable fs \<Longrightarrow> es = fs"
proof (induction es arbitrary: fs)
  case Nil
  then show ?case by (cases fs) auto
next
  case (Cons e es)
  then obtain f gs where fs: "fs = f # gs" by (cases fs) auto
  then show ?case using Cons hash_entry_input_inject[of e _ f] by auto
qed

lemma sort_entries_distinct:
  assumes "distinct (map e_key es)"
  shows "sort_entries es = sort_key e_key es"
  using assms
  by (auto simp: sort_entries_def distinct_map intro!: sort_key_eq_sort_key)

text \<open>The digest's input stands for the set of entries, whatever order the adapter exports them in.\<close>

lemma hash_input_iff:
  assumes "distinct (map e_key es)" and "distinct (map e_key fs)"
    and "list_all hashable es" and "list_all hashable fs"
  shows "hash_input es = hash_input fs \<longleftrightarrow> set es = set fs"
proof
  assume "hash_input es = hash_input fs"
  then have "sort_entries es = sort_entries fs"
    using assms by (auto simp: hash_input_def list_all_iff sort_entries_def intro!: hash_inputs_inject)
  then show "set es = set fs" by (metis sort_entries_def set_sort)
next
  assume eq: "set es = set fs"
  then have "mset es = mset fs"
    using assms by (simp add: distinct_map set_eq_iff_mset_eq_distinct)
  then have "sort_key e_key es = sort_key e_key fs"
    using assms by (intro sort_key_eq_sort_key) (auto simp: distinct_map)
  then show "hash_input es = hash_input fs"
    using assms by (simp add: hash_input_def sort_entries_distinct)
qed

section \<open>Whom a refresh contacts\<close>

definition candidate_ok :: "'h handler \<Rightarrow> 'h \<Rightarrow> identity \<Rightarrow> candidate \<Rightarrow> bool" where
  "candidate_ok hr h own c \<longleftrightarrow>
     (case fst c of None \<Rightarrow> True | Some i \<Rightarrow> id_device i \<noteq> id_device own \<and> hd_is_linked hr i h)"

lemma add_discovered_ok:
  "distinct (map snd cs) \<Longrightarrow> list_all (candidate_ok hr h own) cs \<Longrightarrow>
   distinct (map snd (add_discovered hr h own ds cs)) \<and>
   list_all (candidate_ok hr h own) (add_discovered hr h own ds cs) \<and>
   snd ` set (add_discovered hr h own ds cs) = snd ` set cs \<union>
     dd_address ` {d \<in> set ds. id_device (dd_identity d) \<noteq> id_device own \<and> hd_is_linked hr (dd_identity d) h}"
proof (induction ds arbitrary: cs)
  case (Cons d ds)
  show ?case
  proof (cases "id_device (dd_identity d) = id_device own \<or> \<not> hd_is_linked hr (dd_identity d) h")
    case True
    then have "{d' \<in> set (d # ds). id_device (dd_identity d') \<noteq> id_device own \<and> hd_is_linked hr (dd_identity d') h} =
      {d' \<in> set ds. id_device (dd_identity d') \<noteq> id_device own \<and> hd_is_linked hr (dd_identity d') h}" by auto
    then show ?thesis using True Cons by auto
  next
    case False
    then have "{d' \<in> set (d # ds). id_device (dd_identity d') \<noteq> id_device own \<and> hd_is_linked hr (dd_identity d') h} =
      insert d {d' \<in> set ds. id_device (dd_identity d') \<noteq> id_device own \<and> hd_is_linked hr (dd_identity d') h}" by auto
    then show ?thesis
      using False Cons.prems Cons.IH[of cs] Cons.IH[of "cs @ [(Some (dd_identity d), dd_address d)]"]
      by (auto simp: candidate_ok_def)
  qed
qed simp

lemma add_fallbacks_ok:
  "distinct (map snd cs) \<Longrightarrow> list_all (candidate_ok hr h own) cs \<Longrightarrow>
   distinct (map snd (add_fallbacks as cs)) \<and> list_all (candidate_ok hr h own) (add_fallbacks as cs) \<and>
   snd ` set (add_fallbacks as cs) = snd ` set cs \<union> set as"
proof (induction as arbitrary: cs)
  case (Cons a as)
  then show ?case
    using Cons.IH[of cs] Cons.IH[of "cs @ [(None, a)]"] by (auto simp: candidate_ok_def)
qed simp

section \<open>Schedules\<close>

text \<open>A schedule of the event channel: calls and actions of numbered threads.\<close>

datatype 'e schedule = Calls nat "'e pc" | Acts nat

fun play :: "nat \<Rightarrow> 'e schedule list \<Rightarrow> 'e event_system \<Rightarrow> 'e event_system option" where
  "play m [] s = Some s"
| "play m (Calls i p # sch) s =
     (if i < m \<and> at_rest (es_threads s i) \<and> is_call p then play m sch (begin_call i p s) else None)"
| "play m (Acts i # sch) s =
     (if i < m then case run_action i s of None \<Rightarrow> None | Some t \<Rightarrow> play m sch t else None)"

lemma play_run: "play m sch s = Some t \<Longrightarrow> event_run m pipe s \<Longrightarrow> event_run m pipe t"
proof (induction m sch s rule: play.induct)
  case (2 m i p sch s)
  then show ?case by (auto split: if_splits intro: event_more step_call)
next
  case (3 m i sch s)
  then show ?case by (auto split: if_splits option.splits intro: event_more step_act)
qed simp

text \<open>Actions of the background engine.\<close>

datatype 'c bg_action =
    Work
  | Draw nat 'c
  | Submit nat
  | Cancel_Running nat u64
  | Cancel_Queued nat
  | Begin_Shutdown nat
  | Close_Sender nat

fun bg_act ::
  "('c \<Rightarrow> bool \<Rightarrow> 'w \<Rightarrow> unit result \<times> 'w) \<Rightarrow> 'c bg_action \<Rightarrow> ('c, 'w) background \<Rightarrow> ('c, 'w) background option" where
  "bg_act exec Work b = worker_step exec b"
| "bg_act exec (Draw i c) b = (case bg_clients b i of Ready \<Rightarrow> Some (draw_ticket i c b) | _ \<Rightarrow> None)"
| "bg_act exec (Submit i) b = (case bg_clients b i of Numbered t c \<Rightarrow> Some (snd (send_command i t c b)) | _ \<Rightarrow> None)"
| "bg_act exec (Cancel_Running i t) b = (case bg_clients b i of Ready \<Rightarrow> Some (cancel_running i t b) | _ \<Rightarrow> None)"
| "bg_act exec (Cancel_Queued i) b = (case bg_clients b i of Cancelling t \<Rightarrow> Some (cancel_queued i t b) | _ \<Rightarrow> None)"
| "bg_act exec (Begin_Shutdown i) b = (case bg_clients b i of Ready \<Rightarrow> Some (begin_shutdown i b) | _ \<Rightarrow> None)"
| "bg_act exec (Close_Sender i) b = (case bg_clients b i of Closing \<Rightarrow> Some (close_sender i b) | _ \<Rightarrow> None)"

fun bg_play ::
  "('c \<Rightarrow> bool \<Rightarrow> 'w \<Rightarrow> unit result \<times> 'w) \<Rightarrow> 'c bg_action list \<Rightarrow> ('c, 'w) background \<Rightarrow> ('c, 'w) background option" where
  "bg_play exec [] b = Some b"
| "bg_play exec (a # as) b = (case bg_act exec a b of None \<Rightarrow> None | Some b \<Rightarrow> bg_play exec as b)"

lemma bg_act_step: "bg_act exec a b = Some b' \<Longrightarrow> bg_step exec b b'"
  by (cases a) (auto split: client.splits intro: bg_step.intros client_step.intros simp del: worker_step.simps)

lemma bg_play_run: "bg_play exec as b = Some b' \<Longrightarrow> bg_run exec w b \<Longrightarrow> bg_run exec w b'"
proof (induction as arbitrary: b)
  case (Cons a as)
  then obtain b1 where "bg_act exec a b = Some b1" "bg_play exec as b1 = Some b'"
    by (auto split: option.splits)
  then show ?case using Cons.IH Cons.prems(2) bg_act_step bg_more by metis
qed simp

section \<open>The wake byte\<close>

lemma event_run_pipe: "event_run m pipe s \<Longrightarrow> nt_pipe (es_shared s) = None \<longleftrightarrow> \<not> pipe"
proof (induction rule: event_run.induct)
  case event_start
  show ?case by (simp add: event_channel_def channel_new_def)
next
  case (event_more s t)
  from event_more.hyps(2) show ?case
  proof cases
    case (step_act i)
    then obtain q n where st: "thread_step (es_threads s i) (es_shared s) = Some (q, n)"
      and t: "t = \<lparr>es_shared = n, es_threads = (es_threads s)(i := q)\<rparr>" by (auto simp: run_action_def)
    then show ?thesis using event_more.IH thread_step_balance[OF st] by simp
  qed (use event_more.IH in \<open>simp_all add: begin_call_def put_waker_def drop_senders_def drop_receivers_def\<close>)
qed

lemma bytes_due_rest: "\<forall>i<m. at_rest (es_threads s i) \<Longrightarrow> bytes_due m s = 0"
  by (simp add: bytes_due_def)

lemma byte_debt_le: "byte_debt p \<le> 0 \<or> (\<exists>k. p = Write_Byte k)"
  by (cases p) simp_all

text \<open>A reader that waits for a byte has a writer that brings it.\<close>

lemma reader_has_writer:
  assumes "0 \<le> bytes_due m s" and "i < m" and "byte_debt (es_threads s i) = -1"
  shows "\<exists>j<m. \<exists>k. es_threads s j = Write_Byte k"
proof (rule ccontr)
  assume "\<not> ?thesis"
  then have "\<forall>j<m. byte_debt (es_threads s j) \<le> 0"
    by (metis byte_debt_le)
  then have "(\<Sum>j\<in>{..<m} - {i}. byte_debt (es_threads s j)) \<le> 0" by (intro sum_nonpos) auto
  then show False
    using assms by (simp add: bytes_due_def sum.remove[of "{..<m}" i])
qed

end
