(* ===== verification/Props_Engine.thy ===== *)
theory Props_Engine
  imports Engine_Laws
begin

text \<open>
  Properties of the engine around the library: its event channel, its background thread, one
  exchange and the refresh loop.
\<close>

section \<open>The event channel\<close>

text \<open>
  C31: "exactly one unread wake byte while \<open>signaled\<close> is set". In every interleaving of emitters and
  receivers, once all calls have returned the pipe holds one byte if the flag is set and none
  otherwise; and a receiver that finds the pipe empty when it is to read the byte waits for a thread
  that is about to write one, so no call blocks forever.
\<close>

theorem wake_byte:
  assumes "event_run m True s"
  shows "((\<forall>i<m. at_rest (es_threads s i)) \<longrightarrow>
      nt_pipe (es_shared s) = Some (if nt_signaled (es_shared s) then 1 else 0)) \<and>
    (\<forall>i<m. \<forall>k. es_threads s i = Read_Byte k \<longrightarrow> nt_pipe (es_shared s) = Some 0 \<longrightarrow>
      (\<exists>j<m. \<exists>k'. es_threads s j = Write_Byte k'))"
proof -
  obtain b where b: "nt_pipe (es_shared s) = Some b" using event_run_pipe[OF assms] by auto
  have due: "int b + bytes_due m s = (if nt_signaled (es_shared s) then 1 else 0)"
    using event_run_byte_ok[OF assms] b by (simp add: byte_ok_def)
  moreover have "0 \<le> bytes_due m s" if "b = 0" using due that by (auto split: if_splits)
  ultimately show ?thesis
    using b bytes_due_rest[of m s] reader_has_writer[of m s] by (auto split: if_splits)
qed

definition one_event :: "string schedule list" where
  "one_event = [Calls 1 (Send ''a''), Acts 1, Acts 1, Acts 1, Acts 1]"

lemma wake_byte_witness:
  "\<exists>s. play 2 one_event (event_channel True) = Some s \<and> nt_pipe (es_shared s) = Some 1 \<and> nt_signaled (es_shared s)"
proof -
  obtain s where s: "play 2 one_event (event_channel True) = Some s"
      and sig: "nt_signaled (es_shared s)" and rest: "\<forall>i<2. at_rest (es_threads s i)"
    by (simp add: one_event_def event_channel_def channel_new_def begin_call_def run_action_def less_2_cases_iff)
  then show ?thesis using wake_byte[OF play_run[OF s event_start]] by simp
qed

text \<open>
  C32: draining until \<open>None\<close> clears the readiness and loses nothing. When the only receiver has been
  told that the stream is empty and an event is queued all the same, the descriptor is readable, or
  an emitter is about to make it so.
\<close>

theorem drained_is_announced:
  assumes "drain_run m True s" and "es_threads s 0 = Returned None" and "nt_queue (es_shared s) \<noteq> []"
  shows "(\<exists>b. nt_pipe (es_shared s) = Some b \<and> 0 < b) \<or>
    (\<exists>i<m. es_threads s i = Swap_On Emitting \<or> es_threads s i = Write_Byte Emitting)"
proof -
  note ok = drain_run_ok[OF assms(1), unfolded drain_ok_def announced_def]
  have run: "event_run m True s" using drain_is_event_run[OF assms(1)] .
  obtain b where b: "nt_pipe (es_shared s) = Some b" using event_run_pipe[OF run] by auto
  have due: "int b + bytes_due m s = (if nt_signaled (es_shared s) then 1 else 0)"
    using event_run_byte_ok[OF run] b by (simp add: byte_ok_def)
  show ?thesis
  proof (cases "nt_signaled (es_shared s) \<and> b = 0")
    case True
    then have "0 < bytes_due m s" using due by simp
    then obtain j where "j < m" and pos: "0 < byte_debt (es_threads s j)"
      unfolding bytes_due_def by (meson lessThan_iff not_le sum_nonpos)
    then have "j \<noteq> 0" using assms(2) by (cases j) auto
    then have "es_threads s j = Write_Byte Emitting"
      using ok \<open>j < m\<close> pos by (cases "es_threads s j") (auto dest!: spec[of _ j])
    then show ?thesis using \<open>j < m\<close> by blast
  next
    case False
    then show ?thesis using ok assms b by auto
  qed
qed

definition drained :: "string event_system" where
  "drained =
     \<lparr>es_shared = (channel_new True)\<lparr>nt_queue := [''b'']\<rparr>,
      es_threads = (\<lambda>_. Idle)(0 := Returned None, 1 := Swap_On Emitting)\<rparr>"

lemma drained_run: "drain_run 2 True drained"
proof -
  let ?s0 = "event_channel True :: string event_system"
  let ?s1 = "begin_call 0 Try_Recv ?s0"
  have "drain_run 2 True ?s1" by (rule drain_recv[OF drain_start]) (simp_all add: event_channel_def)
  then have "drain_run 2 True (begin_call 0 (Swap_Off Retrying) ?s0)"
    by (rule drain_act[of _ _ _ 0]) (simp_all add: run_action_def begin_call_def event_channel_def channel_new_def)
  then have "drain_run 2 True (begin_call 0 (Returned None) ?s0)"
    by (rule drain_act[of _ _ _ 0]) (simp_all add: run_action_def begin_call_def event_channel_def channel_new_def)
  then have "drain_run 2 True (begin_call 1 (Send ''b'') (begin_call 0 (Returned None) ?s0))"
    by (rule drain_emit) (simp_all add: event_channel_def begin_call_def)
  then show ?thesis
    by (rule drain_act[of _ _ _ 1])
      (simp_all add: drained_def run_action_def begin_call_def event_channel_def channel_new_def fun_upd_twist)
qed

lemma drained_is_announced_witness:
  "(\<exists>b. nt_pipe (es_shared drained) = Some b \<and> 0 < b) \<or>
   (\<exists>i<2. es_threads drained i = Swap_On Emitting \<or> es_threads drained i = Write_Byte Emitting)"
  using drained_is_announced[OF drained_run] by (simp add: drained_def)

text \<open>
  a receiver that takes one event for every time it is woken can be left with a queued event and
  no wake byte: between its look at the empty queue and the clearing of the flag, an emitter queues
  the next event and leaves the byte that is already there to announce it.
\<close>

theorem one_event_per_wakeup_starves:
  "\<exists>s. event_run 2 True s \<and> es_threads s 0 = Returned (Some ''a'') \<and> es_threads s 1 = Idle \<and>
     nt_queue (es_shared s) = [''b''] \<and> nt_pipe (es_shared s) = Some 0 \<and> \<not> nt_signaled (es_shared s)"
proof -
  let ?sch = "one_event @ [Calls 0 Try_Recv, Acts 0, Acts 0, Calls 1 (Send ''b''), Acts 1, Acts 1, Acts 1, Acts 0, Acts 0]"
  obtain s where s: "play 2 ?sch (event_channel True) = Some s"
      and end_s: "es_threads s 0 = Returned (Some ''a'')" "es_threads s 1 = Idle"
      "nt_queue (es_shared s) = [''b'']" "nt_pipe (es_shared s) = Some 0" "\<not> nt_signaled (es_shared s)"
    by (simp add: one_event_def event_channel_def channel_new_def begin_call_def run_action_def less_2_cases_iff)
  show ?thesis using play_run[OF s event_start] end_s by (intro exI[of _ s] conjI)
qed

section \<open>The background thread\<close>


text \<open>A command of the demonstration counts the commands that ran.\<close>

definition count_command :: "unit \<Rightarrow> bool \<Rightarrow> nat \<Rightarrow> unit result \<times> nat" where
  "count_command c token w = (Inr (), Suc w)"


text \<open>
  A cancellation can be lost. The worker forgets the set of cancelled tickets about a command
  before it enters the command as the running one; a \<open>cancel\<close> that comes in between returns, and the
  command runs to its end with a token that nobody cancelled.
\<close>

theorem cancel_lost:
  "\<exists>b. bg_run count_command 0 b \<and> 1 \<in> bg_requested b \<and> bg_executed b = [(1, False)] \<and>
     bg_finished b = [(1, SyncSuccess)]"
proof -
  let ?as = "[Draw 0 (), Submit 0, Work, Work, Cancel_Running 1 1, Cancel_Queued 1, Work, Work, Work, Work]"
  obtain b where b: "bg_play count_command ?as (background_new 0) = Some b"
      and end_b: "1 \<in> bg_requested b" "bg_executed b = [(1, False)]" "bg_finished b = [(1, SyncSuccess)]"
    by (simp add: background_new_def draw_ticket_def send_command_def cancel_running_def cancel_queued_def
        count_command_def sync_result_of_def Let_def)
  show ?thesis using bg_play_run[OF b bg_start] end_b by (intro exI[of _ b] conjI)
qed

section \<open>One exchange\<close>

text \<open>
  What an exchange reports. Its events are those of its progress, then the report: the two
  events of success when it returns a device; when it fails, one \<open>SyncFinished\<close> with the error, or
  nothing at all. A request without an expected device, as \<open>sync_now\<close> and \<open>try_sync_now\<close> make
  it, that fails never reports the end of what it may have announced as started.
\<close>

theorem sync_reports:
  assumes "engine_sync c rng hr keys rq e = (r, e')" and "eg_sink e"
  shows "\<exists>progress report. eg_events e' = eg_events e @ progress @ report \<and> list_all is_progress progress \<and>
    (case r of
       Inr (d, st) \<Rightarrow> report = [SyncFinished d (rq_adapter_id rq) SyncSuccess, SyncStatsEvent d (rq_adapter_id rq) st]
     | Inl err \<Rightarrow> report = [] \<or>
         (\<exists>device_id. rq_expected_device_id rq = Some device_id \<and>
            report = [SyncFinished (unreached_info e rq device_id) (rq_adapter_id rq) (SyncFailed (error_display err))]))"
  using sync_ends[OF assms] by (simp add: sync_report_def)

definition demo_handler :: "unit handler" where
  "demo_handler =
     (default_handler ''app'' (\<lambda>_ _. True) (\<lambda>_ h. (Inr True, h)))\<lparr>hd_app_key := (\<lambda>_. Inr (AppKey [1]))\<rparr>"

definition demo_adapter :: "unit data_adapter" where
  "demo_adapter = default_data_adapter ''notes'' Document (\<lambda>s x. (Inr (), s, x)) (\<lambda>s x. (Inr (), x))"

definition demo_router :: "unit router" where
  "demo_router = snd (router_register demo_adapter [])"

definition demo_engine :: "connection result list \<Rightarrow> (unit, unit) engine" where
  "demo_engine conns =
     \<lparr>eg_config = engine_config_new (identity_new ''a'' ''app'' ''user''),
      eg_net = \<lparr>cw_state = state_new [1] ''a'', cw_app = (), cw_locks = [], cw_cancel = [], cw_conns = conns,
        cw_chan = \<lparr>ch_in = [], ch_out = [], ch_faults = []\<rparr>, cw_bytes = (0, 0), cw_checked = []\<rparr>,
      eg_router = demo_router, eg_sink = True, eg_events = [],
      eg_listener = False, eg_listener_addr = None, eg_handler = ()\<rparr>"

text \<open>The peer answers the greeting, sends an empty delta and acknowledges the answer, or hangs up.\<close>

definition demo_peer :: "message result list \<Rightarrow> connection result" where
  "demo_peer msgs =
     Inr \<lparr>cn_certificate = Some ''fp'', cn_handshake = None,
          cn_channel = \<lparr>ch_in = Inr (Hello (identity_new ''b'' ''app'' ''user'') 2) # msgs, ch_out = [], ch_faults = []\<rparr>\<rparr>"

definition demo_request :: sync_request where
  "demo_request = sync_request_new (SockV4 1 1) ''notes''"

definition demo_delta :: message where
  "demo_delta = Delta [] 0 ''e'' 0 ''e'' False"

lemma demo_engine_fields [simp]:
  "eg_sink (demo_engine conns)" "eg_handler (demo_engine conns) = ()" "eg_events (demo_engine conns) = []"
  by (simp_all add: demo_engine_def)

lemma demo_facts [simp]:
  "router_adapter ''notes'' demo_router = Some demo_adapter"
  "eg_router (demo_engine conns) = demo_router"
  "(eg_net (demo_engine conns))\<lparr>cw_checked := []\<rparr> = eg_net (demo_engine conns)"
  "own_identity (demo_engine conns) = identity_new ''a'' ''app'' ''user''"
  "id_app (identity_new ''a'' ''app'' ''user'') = ''app''"
  "rq_address demo_request = SockV4 1 1" "rq_adapter_id demo_request = ''notes''"
  "rq_expected_device_id demo_request = None"
  "hd_app_key demo_handler () = Inr (AppKey [1])"
  by (simp_all add: demo_engine_def own_identity_def engine_config_new_def identity_new_def demo_request_def
      sync_request_new_def demo_handler_def demo_router_def router_adapter_def router_register_def bm_has_def
      demo_adapter_def default_data_adapter_def)

lemmas run_defs = engine_sync_def run_checked_def run_sync_def run_sync_inner_def client_greet_def
  client_delta_def client_section_def inbound_def outbound_for_def cw_check_cancel_def cw_with_state_def
  cw_send_def cw_recv_def cw_lift_def open_client_def tls_client_def verify_server_cert_def read_hello_def
  device_fingerprint_def chan_read_def chan_write_def eg_with_state_def sync_check_def
  check_peer_with_handler_def router_adapter_def router_register_def

lemmas demo_defs = demo_engine_def demo_peer_def demo_handler_def demo_adapter_def demo_request_def demo_delta_def
  default_handler_def default_data_adapter_def sync_request_new_def identity_new_def own_identity_def
  engine_config_new_def request_options_def

definition demo_world :: "message result list \<Rightarrow> unit client_world" where
  "demo_world msgs =
     (eg_net (demo_engine []))\<lparr>cw_chan := \<lparr>ch_in = msgs, ch_out = [hello (identity_new ''a'' ''app'' ''user'')],
        ch_faults = []\<rparr>, cw_checked := [(identity_new ''b'' ''app'' ''user'', ''fp'')]\<rparr>"

lemma demo_greet:
  assumes "chk (identity_new ''b'' ''app'' ''user'') ''fp'' = Inr ()"
  shows "client_greet (identity_new ''a'' ''app'' ''user'') chk (request_options r demo_request)
       (eg_net (demo_engine [demo_peer msgs])) =
     (Inr (identity_new ''b'' ''app'' ''user'', 2, ''fp''), demo_world msgs)"
  using assms by (simp add: run_defs demo_defs demo_world_def)

lemma demo_section:
  "\<exists>out n s'. client_section (router_applier (demo_router)) i a cu [] (state_new [1] ''a'') () =
     (Inr (out, n), s', ()) \<and> od_entries out = []"
  by (simp add: client_section_def outbound_for_def delta_since_def state_snapshot_def bm_values_def state_new_def
      inbound_def with_inbound_origin_def router_applier_def router_apply_inbound_def router_adapters_def
      demo_router_def router_register_def bm_has_def demo_adapter_def default_data_adapter_def
      merge_snapshot_def Let_def)

lemma demo_delta_run:
  assumes "so_applier opts = router_applier (demo_router)" and "\<not> so_cancel opts"
  shows "\<exists>st w'. client_delta c rng key opts i f st0 (demo_world [Inr demo_delta, Inr Ack]) =
     (Inr \<lparr>sy_identity = i, sy_fingerprint = f, sy_stats = st\<rparr>, w') \<and> cw_locks w' = []"
proof -
  obtain out n s' where "client_section (router_applier (demo_router)) (id_device i)
      \<lparr>pc_epoch = ''e'', pc_clock = 0\<rparr> \<lparr>pc_epoch = ''e'', pc_clock = 0\<rparr> [] (state_new [1] ''a'') () =
      (Inr (out, n), s', ())" and "od_entries out = []"
    using demo_section by blast
  then show ?thesis
    using assms
    by (simp add: client_delta_def cw_check_cancel_def cw_with_state_def cw_send_def cw_recv_def cw_lift_def
        chan_read_def chan_write_def demo_world_def demo_delta_def decrypt_entries_def encrypt_entries_def Let_def
        demo_engine_def)
qed

text \<open>The exchange of the engine of the demonstration, up to what the peer's messages decide.\<close>

abbreviation demo_options :: "unit sync_options" where
  "demo_options \<equiv> request_options (demo_router) demo_request"

lemma demo_engine_sync:
  assumes "run_sync c rng (identity_new ''a'' ''app'' ''user'') (AppKey [1])
      (\<lambda>i f. fst (sync_check demo_handler () ''app'' (SockV4 1 1) ''notes'' i f)) demo_options
      (eg_net (demo_engine conns)) = (r, w)"
  shows "engine_sync c rng demo_handler (Inr ()) demo_request (demo_engine conns) =
    (let evs = concat (map (\<lambda>(i, f). snd (sync_check demo_handler () ''app'' (SockV4 1 1) ''notes'' i f)) (cw_checked w));
         e = emit_all evs ((demo_engine conns)\<lparr>eg_net := w\<rparr>)
     in case r of Inl err \<Rightarrow> (Inl err, e)
        | Inr out \<Rightarrow>
            (let d = checked_info (sy_identity out) (Some (SockV4 1 1)) (sy_fingerprint out)
             in bindS (eg_with_state (\<lambda>s x. case da_apply_from_state demo_adapter s x of (r, x) \<Rightarrow> (r, s, x)) e)
                  (\<lambda>_ e. (Inr (d, sy_stats out),
                     emit_all [SyncFinished d ''notes'' SyncSuccess, SyncStatsEvent d ''notes'' (sy_stats out)] e))))"
proof -
  have load: "eg_with_state (da_load_into_state demo_adapter) (demo_engine conns) = (Inr (), demo_engine conns)"
    by (simp add: eg_with_state_def cw_with_state_def demo_engine_def demo_adapter_def default_data_adapter_def)
  have run: "run_checked c rng (AppKey [1]) (sync_check demo_handler () ''app'' (SockV4 1 1) ''notes'') demo_options
      (demo_engine conns) =
    (r, emit_all (concat (map (\<lambda>(i, f). snd (sync_check demo_handler () ''app'' (SockV4 1 1) ''notes'' i f)) (cw_checked w)))
          ((demo_engine conns)\<lparr>eg_net := w\<rparr>))"
    using assms by (simp add: run_checked_def)
  show ?thesis
    by (simp add: engine_sync_def load run Let_def split: sum.split)
qed

lemma demo_options_cancel [simp]: "\<not> so_cancel demo_options"
  by (simp add: request_options_def demo_request_def sync_request_new_def)

lemma demo_accepts:
  "fst (sync_check demo_handler () ''app'' a k (identity_new ''b'' ''app'' ''user'') ''fp'') = Inr ()"
  by (simp add: sync_check_accepts demo_handler_def default_handler_def identity_new_def)

lemma demo_fails:
  "\<exists>err e'. engine_sync c rng demo_handler (Inr ()) demo_request (demo_engine [demo_peer []]) = (Inl err, e')"
proof -
  obtain err w where "client_delta c rng (AppKey [1]) demo_options (identity_new ''b'' ''app'' ''user'') ''fp''
      (default_stats\<lparr>ss_protocol_version := 2\<rparr>) (demo_world []) = (Inl err, w)"
    by (simp add: client_delta_def demo_world_def demo_engine_def cw_with_state_def cw_send_def cw_recv_def
        chan_read_def chan_write_def Let_def)
  then have "run_sync c rng (identity_new ''a'' ''app'' ''user'') (AppKey [1])
      (\<lambda>i f. fst (sync_check demo_handler () ''app'' (SockV4 1 1) ''notes'' i f)) demo_options
      (eg_net (demo_engine [demo_peer []])) = (Inl err, w)"
    by (simp add: run_sync_def run_sync_inner_def demo_greet demo_accepts cw_check_cancel_def
        protocol_version_def Let_def)
  then show ?thesis by (simp add: demo_engine_sync Let_def)
qed

lemma sync_reports_witness:
  "\<exists>err e' progress. engine_sync (\<lparr>aead_encrypt = (\<lambda>_ _ _ _. None), aead_decrypt = (\<lambda>_ _ _ _. None)\<rparr>) (\<lambda>_. []) demo_handler
       (Inr ()) demo_request (demo_engine [demo_peer []]) = (Inl err, e') \<and>
     eg_events e' = progress \<and> list_all is_progress progress"
proof -
  let ?c = "\<lparr>aead_encrypt = (\<lambda>_ _ _ _. None), aead_decrypt = (\<lambda>_ _ _ _. None)\<rparr>"
  obtain err e' where run: "engine_sync ?c (\<lambda>_. []) demo_handler (Inr ()) demo_request (demo_engine [demo_peer []]) = (Inl err, e')"
    using demo_fails by blast
  have "rq_expected_device_id demo_request = None" by (simp add: demo_request_def sync_request_new_def)
  then show ?thesis using run sync_reports[OF run] by auto
qed

text \<open>
  C33: an exchange that returns a device has checked it: the device is of the same app, its
  certificate's fingerprint is one the handler has linked it with, and it is the expected one where
  the request expects one.
\<close>

theorem sync_checks_peer:
  assumes "engine_sync c rng hr keys rq e = (Inr (d, st), e')"
  shows "\<exists>f. dv_fingerprint d = Some f \<and> hd_is_linked_with_fingerprint hr (dv_identity d) f (eg_handler e) \<and>
    id_app (dv_identity d) = id_app (own_identity e) \<and>
    (\<forall>x. rq_expected_fingerprint rq = Some x \<longrightarrow> f = x)"
  using assms by (rule sync_returns_linked)

lemma demo_succeeds:
  "\<exists>d st e'. engine_sync c rng demo_handler (Inr ()) demo_request (demo_engine [demo_peer [Inr demo_delta, Inr Ack]]) =
     (Inr (d, st), e')"
proof -
  obtain st w where "client_delta c rng (AppKey [1]) demo_options (identity_new ''b'' ''app'' ''user'') ''fp''
      (default_stats\<lparr>ss_protocol_version := 2\<rparr>) (demo_world [Inr demo_delta, Inr Ack]) =
      (Inr \<lparr>sy_identity = identity_new ''b'' ''app'' ''user'', sy_fingerprint = ''fp'', sy_stats = st\<rparr>, w)"
    and free: "cw_locks w = []"
    using demo_delta_run[of demo_options c rng "AppKey [1]" "identity_new ''b'' ''app'' ''user''" "''fp''"
        "default_stats\<lparr>ss_protocol_version := 2\<rparr>"] by (auto simp: request_options_def demo_request_def sync_request_new_def)
  then have "run_sync c rng (identity_new ''a'' ''app'' ''user'') (AppKey [1])
      (\<lambda>i f. fst (sync_check demo_handler () ''app'' (SockV4 1 1) ''notes'' i f)) demo_options
      (eg_net (demo_engine [demo_peer [Inr demo_delta, Inr Ack]])) =
      (Inr \<lparr>sy_identity = identity_new ''b'' ''app'' ''user'', sy_fingerprint = ''fp'', sy_stats = st\<rparr>, w)"
    by (simp add: run_sync_def run_sync_inner_def demo_greet demo_accepts cw_check_cancel_def
        protocol_version_def Let_def)
  then show ?thesis
    using free by (simp add: demo_engine_sync Let_def eg_with_state_def cw_with_state_def demo_adapter_def
        default_data_adapter_def)
qed

lemma sync_checks_peer_witness:
  "\<exists>d st e' f. engine_sync (\<lparr>aead_encrypt = (\<lambda>_ _ _ _. None), aead_decrypt = (\<lambda>_ _ _ _. None)\<rparr>) (\<lambda>_. []) demo_handler
       (Inr ()) demo_request (demo_engine [demo_peer [Inr demo_delta, Inr Ack]]) = (Inr (d, st), e') \<and>
     dv_fingerprint d = Some f \<and> hd_is_linked_with_fingerprint demo_handler (dv_identity d) f ()"
proof -
  obtain d st e' where "engine_sync (\<lparr>aead_encrypt = (\<lambda>_ _ _ _. None), aead_decrypt = (\<lambda>_ _ _ _. None)\<rparr>) (\<lambda>_. [])
       demo_handler (Inr ()) demo_request (demo_engine [demo_peer [Inr demo_delta, Inr Ack]]) = (Inr (d, st), e')"
    using demo_succeeds by blast
  then show ?thesis using sync_checks_peer by fastforce
qed

section \<open>Refreshing\<close>

text \<open>
  The digest that decides whether an adapter's data changed. Of two exported snapshots with one
  entry per key, the hashed bytes are equal exactly when the entries are, in whatever order the
  adapter lists them.
\<close>

theorem digest_tracks_entries:
  assumes "distinct (map e_key es)" and "distinct (map e_key fs)"
    and "list_all hashable es" and "list_all hashable fs"
  shows "hash_input es = hash_input fs \<longleftrightarrow> set es = set fs"
  using assms by (rule hash_input_iff)

definition demo_entry :: "string \<Rightarrow> entry" where
  "demo_entry k = \<lparr>e_key = k, e_value = [7], e_clock = LamportClock 1 ''a''\<rparr>"

lemma digest_tracks_entries_witness:
  "hash_input [demo_entry ''k'', demo_entry ''l''] = hash_input [demo_entry ''l'', demo_entry ''k''] \<and>
   hash_input [demo_entry ''k'', demo_entry ''l''] \<noteq> hash_input [demo_entry ''k'']"
  using digest_tracks_entries[of "[demo_entry ''k'', demo_entry ''l'']" "[demo_entry ''l'', demo_entry ''k'']"]
    digest_tracks_entries[of "[demo_entry ''k'', demo_entry ''l'']" "[demo_entry ''k'']"]
  by (auto simp: demo_entry_def hashable_def)

text \<open>
  A refresh contacts each address once, all linked devices it discovered and all fallback
  addresses, and no discovered device that is the device itself or that the handler has not linked.
\<close>

theorem refresh_contacts:
  "distinct (map snd (refresh_candidates hr h own ds as)) \<and>
   list_all (candidate_ok hr h own) (refresh_candidates hr h own ds as) \<and>
   snd ` set (refresh_candidates hr h own ds as) =
     dd_address ` {d \<in> set ds. id_device (dd_identity d) \<noteq> id_device own \<and> hd_is_linked hr (dd_identity d) h} \<union> set as"
  using add_discovered_ok[of "[]" hr h own ds] add_fallbacks_ok[of "add_discovered hr h own ds []" hr h own as]
  by (simp add: refresh_candidates_def)

end
