(* ===== verification/Backup.thy ===== *)
theory Backup
  imports Data_Adapter Files Crypto_Frame Record_Key Discovery
begin

text \<open>
  \<open>backup.rs\<close>: snapshots of an adapter's entries, kept encrypted in a store; restoring, pruning and
  re-encrypting them, and the comparison of a snapshot with the state. The store is a record of the
  trait's methods over any world; \<open>file_store\<close> is the one that keeps a JSON file per snapshot. JSON
  and the listing of a directory, which is whatever the file system answers, are arguments.
\<close>

section \<open>Snapshots and where they are kept\<close>

record snapshot_metadata =
  sm_id :: string
  sm_adapter_id :: string
  sm_created :: u64
  sm_entry_count :: nat
  sm_device :: "string option"
  sm_label :: "string option"
  sm_note :: "string option"

record kept_snapshot =
  sp_metadata :: snapshot_metadata
  sp_entries :: "entry list"

record 'w snapshot_store =
  sn_save :: "kept_snapshot \<Rightarrow> 'w \<Rightarrow> unit result \<times> 'w"
  sn_load :: "string \<Rightarrow> string \<Rightarrow> 'w \<Rightarrow> kept_snapshot result \<times> 'w"
  sn_list :: "string \<Rightarrow> 'w \<Rightarrow> snapshot_metadata list result \<times> 'w"
  sn_delete :: "string \<Rightarrow> string \<Rightarrow> 'w \<Rightarrow> unit result \<times> 'w"

record snapshot_json =
  sj_to_vec_pretty :: "kept_snapshot \<Rightarrow> bytes result"
  sj_from_slice :: "bytes \<Rightarrow> kept_snapshot result"

text \<open>\<open>None\<close>: the directory does not exist. An entry of a directory may fail to be read.\<close>

type_synonym 'z dir_listing = "string \<Rightarrow> 'z files \<Rightarrow> string result list result option"

text \<open>\<open>Path::join\<close>: an absolute path replaces the base.\<close>

definition path_join :: "string \<Rightarrow> string \<Rightarrow> string" where
  "path_join p q =
     (if q \<noteq> [] \<and> hd q = CHR ''/'' then q
      else if p = [] \<or> last p = CHR ''/'' then p @ q else p @ ''/'' @ q)"

definition adapter_dir :: "string \<Rightarrow> string \<Rightarrow> string" where
  "adapter_dir root adapter_id = path_join root adapter_id"

definition snapshot_path :: "string \<Rightarrow> string \<Rightarrow> string \<Rightarrow> string" where
  "snapshot_path root adapter_id snapshot_id = path_join (adapter_dir root adapter_id) (snapshot_id @ ''.json'')"

definition file_save_snapshot :: "snapshot_json \<Rightarrow> string \<Rightarrow> kept_snapshot \<Rightarrow> 'z files \<Rightarrow> unit result \<times> 'z files" where
  "file_save_snapshot sj root s w =
     bindS (fs_create_dir_all w) (\<lambda>_ w.
     bindS (sj_to_vec_pretty sj s, w) (\<lambda>bytes w.
       fs_write (snapshot_path root (sm_adapter_id (sp_metadata s)) (sm_id (sp_metadata s))) bytes w))"

definition file_load_snapshot ::
  "snapshot_json \<Rightarrow> string \<Rightarrow> string \<Rightarrow> string \<Rightarrow> 'z files \<Rightarrow> kept_snapshot result \<times> 'z files" where
  "file_load_snapshot sj root adapter_id snapshot_id w =
     bindS (fs_read (snapshot_path root adapter_id snapshot_id) w) (\<lambda>bytes w. (sj_from_slice sj bytes, w))"

fun read_snapshots ::
  "snapshot_json \<Rightarrow> string result list \<Rightarrow> 'z files \<Rightarrow> snapshot_metadata list result \<times> 'z files" where
  "read_snapshots sj [] w = (Inr [], w)"
| "read_snapshots sj (p # ps) w =
     bindS (p, w) (\<lambda>path w.
     bindS (fs_read path w) (\<lambda>bytes w.
     bindS (sj_from_slice sj bytes, w) (\<lambda>s w.
     bindS (read_snapshots sj ps w) (\<lambda>ms w. (Inr (sp_metadata s # ms), w)))))"

definition file_list_snapshots ::
  "snapshot_json \<Rightarrow> 'z dir_listing \<Rightarrow> string \<Rightarrow> string \<Rightarrow> 'z files \<Rightarrow> snapshot_metadata list result \<times> 'z files" where
  "file_list_snapshots sj ls root adapter_id w =
     (case ls (adapter_dir root adapter_id) w of
        None \<Rightarrow> (Inr [], w)
      | Some entries \<Rightarrow>
          bindS (entries, w) (\<lambda>ps w.
          bindS (read_snapshots sj ps w) (\<lambda>ms w. (Inr (sort_key sm_created ms), w))))"

definition file_delete_snapshot :: "string \<Rightarrow> string \<Rightarrow> string \<Rightarrow> 'z files \<Rightarrow> unit result \<times> 'z files" where
  "file_delete_snapshot root adapter_id snapshot_id w =
     (let p = snapshot_path root adapter_id snapshot_id
      in if path_exists p w then fs_remove_file p w else (Inr (), w))"

definition file_store :: "snapshot_json \<Rightarrow> 'z dir_listing \<Rightarrow> string \<Rightarrow> 'z files snapshot_store" where
  "file_store sj ls root =
     \<lparr>sn_save = file_save_snapshot sj root, sn_load = file_load_snapshot sj root,
      sn_list = file_list_snapshots sj ls root, sn_delete = file_delete_snapshot root\<rparr>"

definition file_store_new ::
  "snapshot_json \<Rightarrow> 'z dir_listing \<Rightarrow> string \<Rightarrow> 'z files \<Rightarrow> 'z files snapshot_store result \<times> 'z files" where
  "file_store_new sj ls root w = bindS (fs_create_dir_all w) (\<lambda>_ w. (Inr (file_store sj ls root), w))"

section \<open>What is backed up\<close>

record 'x backup_adapter =
  ba_id :: string
  ba_export_snapshot :: "sync_state \<Rightarrow> entry list result"
  ba_apply_snapshot :: "entry list \<Rightarrow> sync_state \<Rightarrow> 'x \<Rightarrow> nat result \<times> sync_state \<times> 'x"

definition data_adapter_backup :: "'x data_adapter \<Rightarrow> 'x backup_adapter" where
  "data_adapter_backup a =
     \<lparr>ba_id = da_id a, ba_export_snapshot = da_export_snapshot a, ba_apply_snapshot = da_apply_entries a\<rparr>"

section \<open>The manager\<close>

record 'w backup_manager =
  bk_key :: app_key
  bk_store :: "'w snapshot_store"

definition new_snapshot_id :: "u64 \<Rightarrow> bytes \<Rightarrow> string" where
  "new_snapshot_id now rnd = show_nat (unat now) @ ''-'' @ concat (map hex_byte rnd)"

text \<open>The clock is read twice: for the id and for the time of creation.\<close>

definition create_snapshot ::
  "aead \<Rightarrow> (nat \<Rightarrow> bytes) \<Rightarrow> u64 \<times> bytes \<Rightarrow> u64 \<Rightarrow> 'w backup_manager \<Rightarrow> 'x backup_adapter \<Rightarrow> sync_state \<Rightarrow>
   string option \<Rightarrow> 'w \<Rightarrow> snapshot_metadata result \<times> 'w" where
  "create_snapshot c rng fresh now m a s label w =
     bindS (ba_export_snapshot a s, w) (\<lambda>entries w.
     bindS (encrypt_entries c rng (bk_key m) entries, w) (\<lambda>encrypted w.
     let metadata = \<lparr>sm_id = new_snapshot_id (fst fresh) (snd fresh), sm_adapter_id = ba_id a, sm_created = now,
           sm_entry_count = length encrypted, sm_device = Some (st_device_id s), sm_label = label, sm_note = label\<rparr>
     in bindS (sn_save (bk_store m) \<lparr>sp_metadata = metadata, sp_entries = encrypted\<rparr> w) (\<lambda>_ w.
          (Inr metadata, w))))"

definition load_snapshot_entries ::
  "aead \<Rightarrow> 'w backup_manager \<Rightarrow> string \<Rightarrow> string \<Rightarrow> 'w \<Rightarrow> (snapshot_metadata \<times> entry list) result \<times> 'w" where
  "load_snapshot_entries c m adapter_id snapshot_id w =
     bindS (sn_load (bk_store m) adapter_id snapshot_id w) (\<lambda>s w.
     bindS (decrypt_entries c (bk_key m) (sp_entries s), w) (\<lambda>es w. (Inr (sp_metadata s, es), w)))"

fun reclock_entries :: "entry list \<Rightarrow> sync_state \<Rightarrow> entry list \<times> sync_state" where
  "reclock_entries [] s = ([], s)"
| "reclock_entries (e # es) s =
     (let s = s\<lparr>st_counter := sat_inc (st_counter s)\<rparr>
      in case reclock_entries es s of
           (rest, s') \<Rightarrow> (e\<lparr>e_clock := LamportClock (st_counter s) (st_device_id s)\<rparr> # rest, s'))"

definition restore_snapshot ::
  "aead \<Rightarrow> 'w backup_manager \<Rightarrow> 'x backup_adapter \<Rightarrow> string \<Rightarrow> bool \<Rightarrow> sync_state \<times> 'x \<times> 'w \<Rightarrow>
   snapshot_metadata result \<times> sync_state \<times> 'x \<times> 'w" where
  "restore_snapshot c m a snapshot_id confirm sxw =
     (case sxw of (s, x, w) \<Rightarrow>
      if \<not> confirm then (Inl (Protocol ''restore requires explicit confirmation''), s, x, w)
      else case sn_load (bk_store m) (ba_id a) snapshot_id w of
             (Inl err, w) \<Rightarrow> (Inl err, s, x, w)
           | (Inr snap, w) \<Rightarrow>
               (case decrypt_entries c (bk_key m) (sp_entries snap) of
                  Inl err \<Rightarrow> (Inl err, s, x, w)
                | Inr es \<Rightarrow>
                    (case reclock_entries es s of (es, s) \<Rightarrow>
                     case ba_apply_snapshot a es s x of
                       (Inl err, s, x) \<Rightarrow> (Inl err, s, x, w)
                     | (Inr _, s, x) \<Rightarrow> (Inr (sp_metadata snap), s, x, w))))"

section \<open>Pruning\<close>

record retention_policy =
  rp_max_snapshots :: "nat option"
  rp_max_age :: "u64 option"

definition policy_empty :: "retention_policy \<Rightarrow> bool" where
  "policy_empty p = (rp_max_snapshots p = None \<and> rp_max_age p = None)"

record prune_plan =
  pp_adapter_id :: string
  pp_total :: nat
  pp_to_delete :: "string list"

record prune_summary =
  pu_adapter_id :: string
  pu_deleted :: "string list"
  pu_remaining :: nat

definition expired_ids :: "retention_policy \<Rightarrow> u64 \<Rightarrow> snapshot_metadata list \<Rightarrow> string set" where
  "expired_ids p now ms =
     (case rp_max_age p of
        None \<Rightarrow> {}
      | Some age \<Rightarrow> set (map sm_id (filter (\<lambda>m. sm_created m < sat_sub now age) ms)))"

text \<open>The loop over the snapshots from the oldest, with the number of those that remain.\<close>

fun prune_oldest :: "nat \<Rightarrow> snapshot_metadata list \<Rightarrow> string set \<times> nat \<Rightarrow> string set \<times> nat" where
  "prune_oldest keep [] (del, remaining) = (del, remaining)"
| "prune_oldest keep (m # ms) (del, remaining) =
     (if remaining \<le> keep then (del, remaining)
      else if sm_id m \<in> del then prune_oldest keep ms (del, remaining)
      else prune_oldest keep ms (insert (sm_id m) del, remaining - 1))"

definition ids_to_delete :: "retention_policy \<Rightarrow> u64 \<Rightarrow> snapshot_metadata list \<Rightarrow> string set" where
  "ids_to_delete p now ms =
     (let del = expired_ids p now ms
      in case rp_max_snapshots p of
           None \<Rightarrow> del
         | Some keep \<Rightarrow>
             if keep < length ms then fst (prune_oldest keep ms (del, length ms - card del)) else del)"

definition plan_prune ::
  "'w backup_manager \<Rightarrow> string \<Rightarrow> retention_policy \<Rightarrow> u64 \<Rightarrow> 'w \<Rightarrow> prune_plan result \<times> 'w" where
  "plan_prune m adapter_id p now w =
     bindS (sn_list (bk_store m) adapter_id w) (\<lambda>ms w.
       (let ms = sort_key sm_created ms
        in Inr (if ms = [] \<or> policy_empty p
                then \<lparr>pp_adapter_id = adapter_id, pp_total = length ms, pp_to_delete = []\<rparr>
                else \<lparr>pp_adapter_id = adapter_id, pp_total = length ms,
                      pp_to_delete = sorted_list_of_set (ids_to_delete p now ms)\<rparr>), w))"

definition prune_snapshots ::
  "'w backup_manager \<Rightarrow> string \<Rightarrow> retention_policy \<Rightarrow> u64 \<Rightarrow> 'w \<Rightarrow> prune_summary result \<times> 'w" where
  "prune_snapshots m adapter_id p now w =
     bindS (plan_prune m adapter_id p now w) (\<lambda>plan w.
     bindS (forS (sn_delete (bk_store m) adapter_id) (pp_to_delete plan) w) (\<lambda>_ w.
       (Inr \<lparr>pu_adapter_id = adapter_id, pu_deleted = pp_to_delete plan,
             pu_remaining = pp_total plan - length (pp_to_delete plan)\<rparr>, w)))"

section \<open>Another key\<close>

text \<open>Every snapshot draws its own nonces: \<open>rng i\<close> are those of the \<open>i\<close>-th.\<close>

fun reencrypt_from ::
  "aead \<Rightarrow> (nat \<Rightarrow> nat \<Rightarrow> bytes) \<Rightarrow> 'w backup_manager \<Rightarrow> string \<Rightarrow> app_key \<Rightarrow> nat \<Rightarrow> snapshot_metadata list \<Rightarrow> 'w \<Rightarrow>
   nat result \<times> 'w" where
  "reencrypt_from c rng m adapter_id new_key n [] w = (Inr n, w)"
| "reencrypt_from c rng m adapter_id new_key n (md # mds) w =
     bindS (sn_load (bk_store m) adapter_id (sm_id md) w) (\<lambda>snap w.
     bindS (decrypt_entries c (bk_key m) (sp_entries snap), w) (\<lambda>es w.
     bindS (encrypt_entries c (rng n) new_key es, w) (\<lambda>encrypted w.
     bindS (sn_save (bk_store m) (snap\<lparr>sp_entries := encrypted\<rparr>) w) (\<lambda>_ w.
       reencrypt_from c rng m adapter_id new_key (Suc n) mds w))))"

definition reencrypt_snapshots ::
  "aead \<Rightarrow> (nat \<Rightarrow> nat \<Rightarrow> bytes) \<Rightarrow> 'w backup_manager \<Rightarrow> string \<Rightarrow> app_key \<Rightarrow> 'w \<Rightarrow> nat result \<times> 'w" where
  "reencrypt_snapshots c rng m adapter_id new_key w =
     bindS (sn_list (bk_store m) adapter_id w) (\<lambda>mds w. reencrypt_from c rng m adapter_id new_key 0 mds w)"

section \<open>Comparing a snapshot with the state\<close>

record diff_counts =
  dc_new :: nat
  dc_changed :: nat
  dc_unchanged :: nat
  dc_missing :: nat

definition no_counts :: diff_counts where
  "no_counts = \<lparr>dc_new = 0, dc_changed = 0, dc_unchanged = 0, dc_missing = 0\<rparr>"

record snapshot_diff =
  df_total_snapshot :: nat
  df_total_state :: nat
  df_overall :: diff_counts
  df_by_group :: "(string, diff_counts) bmap"

definition diff_group :: "string \<Rightarrow> string result" where
  "diff_group key =
     bindR (parse_record_key key) (\<lambda>parsed.
       Inr (case parsed of None \<Rightarrow> key | Some parts \<Rightarrow> kp_schema parts @ ''/'' @ kp_entity parts))"

definition count_new :: "diff_counts \<Rightarrow> diff_counts" where "count_new d = d\<lparr>dc_new := dc_new d + 1\<rparr>"
definition count_changed :: "diff_counts \<Rightarrow> diff_counts" where "count_changed d = d\<lparr>dc_changed := dc_changed d + 1\<rparr>"
definition count_unchanged :: "diff_counts \<Rightarrow> diff_counts" where "count_unchanged d = d\<lparr>dc_unchanged := dc_unchanged d + 1\<rparr>"
definition count_missing :: "diff_counts \<Rightarrow> diff_counts" where "count_missing d = d\<lparr>dc_missing := dc_missing d + 1\<rparr>"

definition count_in :: "(diff_counts \<Rightarrow> diff_counts) \<Rightarrow> string \<Rightarrow> snapshot_diff \<Rightarrow> snapshot_diff" where
  "count_in f grp d =
     d\<lparr>df_overall := f (df_overall d),
       df_by_group := bm_insert grp
         (f (case bm_get (df_by_group d) grp of None \<Rightarrow> no_counts | Some g \<Rightarrow> g)) (df_by_group d)\<rparr>"

definition diff_entry :: "sync_state \<Rightarrow> entry \<Rightarrow> snapshot_diff \<Rightarrow> snapshot_diff result" where
  "diff_entry s e d =
     bindR (diff_group (e_key e)) (\<lambda>grp.
       Inr (count_in (case bm_get (st_entries s) (e_key e) of
                        None \<Rightarrow> count_new
                      | Some existing \<Rightarrow> if e_value existing = e_value e then count_unchanged else count_changed)
              grp d))"

definition diff_missing :: "entry list \<Rightarrow> string \<Rightarrow> snapshot_diff \<Rightarrow> snapshot_diff result" where
  "diff_missing es key d =
     (if key \<in> e_key ` set es then Inr d
      else bindR (diff_group key) (\<lambda>grp. Inr (count_in count_missing grp d)))"

definition summarize_snapshot_diff :: "sync_state \<Rightarrow> entry list \<Rightarrow> snapshot_diff result" where
  "summarize_snapshot_diff s es =
     bindR (foldR (\<lambda>d e. diff_entry s e d)
        \<lparr>df_total_snapshot = length es, df_total_state = length (st_entries s), df_overall = no_counts,
         df_by_group = []\<rparr> es)
       (\<lambda>d. foldR (\<lambda>d key. diff_missing es key d) d (bm_keys (st_entries s)))"

end
