(* ===== verification/Backup_Laws.thy ===== *)
theory Backup_Laws
  imports Backup
begin

text \<open>
  What the backups rely on in a snapshot store, as the locale \<open>snapshot_storage\<close>, and what the manager
  then does to the stored snapshots. The file store is an interpretation, in a file world without
  faults whose directories hold nothing but snapshots under their own names.
\<close>

section \<open>Which snapshots a policy deletes\<close>

lemma prune_oldest_spec:
  assumes "prune_oldest keep ms (del, r) = (del', r')" and "distinct (map sm_id ms)"
    and "sorted (map sm_created ms)" and "finite del"
  shows "del \<subseteq> del' \<and> del' - del \<subseteq> sm_id ` set ms \<and> finite del' \<and> r' + card (del' - del) = r \<and>
    (r' \<le> keep \<or> sm_id ` set ms \<subseteq> del') \<and> (r \<le> keep \<longrightarrow> del' = del) \<and> (keep \<le> r \<longrightarrow> keep \<le> r') \<and>
    (\<forall>x \<in> set ms. sm_id x \<in> del' - del \<longrightarrow> (\<forall>y \<in> set ms. sm_id y \<notin> del' \<longrightarrow> sm_created x \<le> sm_created y))"
  using assms
proof (induction ms arbitrary: del r)
  case Nil
  then show ?case by auto
next
  case (Cons m ms)
  have tails: "distinct (map sm_id ms)" "sorted (map sm_created ms)" "finite del" "finite (insert (sm_id m) del)"
    "\<forall>y \<in> set ms. sm_created m \<le> sm_created y"
    using Cons.prems by auto
  consider "r \<le> keep" | "keep < r" "sm_id m \<in> del" | "keep < r" "sm_id m \<notin> del" by linarith
  then show ?case
  proof cases
    case 1
    then show ?thesis using Cons.prems by auto
  next
    case 2
    then have "prune_oldest keep ms (del, r) = (del', r')" using Cons.prems(1) by simp
    note IH = Cons.IH[OF this tails(1-3)]
    moreover have "sm_id m \<in> del'" using IH 2 by blast
    ultimately show ?thesis using 2 by auto
  next
    case 3
    then have "prune_oldest keep ms (insert (sm_id m) del, r - 1) = (del', r')" using Cons.prems(1) by simp
    note IH = Cons.IH[OF this tails(1,2) tails(4)]
    have fin: "finite (del' - insert (sm_id m) del)" and sub: "insert (sm_id m) del \<subseteq> del'"
      using IH by blast+
    have ins: "insert (sm_id m) (del' - insert (sm_id m) del) = del' - del" using sub 3 by auto
    have cards: "card (del' - del) = Suc (card (del' - insert (sm_id m) del))"
      using card_insert_disjoint[OF fin, of "sm_id m"] unfolding ins by simp
    have order: "\<forall>x \<in> set (m # ms). sm_id x \<in> del' - del \<longrightarrow>
        (\<forall>y \<in> set (m # ms). sm_id y \<notin> del' \<longrightarrow> sm_created x \<le> sm_created y)"
    proof (intro ballI impI)
      fix x y
      assume x: "x \<in> set (m # ms)" "sm_id x \<in> del' - del" and y: "y \<in> set (m # ms)" "sm_id y \<notin> del'"
      have "y \<in> set ms" using y sub by auto
      moreover have "sm_id x \<in> del' - insert (sm_id m) del" if "x \<in> set ms"
        using imageI[OF that, of sm_id] x(2) Cons.prems(2) by auto
      ultimately show "sm_created x \<le> sm_created y" using x(1) y(2) tails(5) IH by auto
    qed
    have "del \<subseteq> del' \<and> del' - del \<subseteq> sm_id ` set (m # ms) \<and> finite del' \<and>
        (r' \<le> keep \<or> sm_id ` set (m # ms) \<subseteq> del')"
      using IH sub by auto
    moreover have "r' + card (del' - del) = r \<and> (r \<le> keep \<longrightarrow> del' = del) \<and> (keep \<le> r \<longrightarrow> keep \<le> r')"
    proof -
      have "r' + card (del' - insert (sm_id m) del) = r - 1" and "keep \<le> r - 1 \<longrightarrow> keep \<le> r'"
        using IH by - (elim conjE, assumption)+
      then show ?thesis using cards 3(1) by linarith
    qed
    ultimately show ?thesis using order by blast
  qed
qed

definition is_expired :: "retention_policy \<Rightarrow> u64 \<Rightarrow> snapshot_metadata \<Rightarrow> bool" where
  "is_expired p now m = (case rp_max_age p of None \<Rightarrow> False | Some age \<Rightarrow> sm_created m < sat_sub now age)"

lemma expired_ids_iff:
  "distinct (map sm_id ms) \<Longrightarrow> m \<in> set ms \<Longrightarrow> sm_id m \<in> expired_ids p now ms \<longleftrightarrow> is_expired p now m"
  by (auto simp: expired_ids_def is_expired_def distinct_map inj_on_def split: option.splits)

lemma expired_ids_sub: "expired_ids p now ms \<subseteq> sm_id ` set ms"
  by (auto simp: expired_ids_def split: option.splits)

lemma card_kept:
  assumes "distinct (map sm_id ms)" and "D \<subseteq> sm_id ` set ms"
  shows "card {m \<in> set ms. sm_id m \<notin> D} + card D = length ms"
proof -
  have inj: "inj_on sm_id (set ms)" using assms(1) by (simp add: distinct_map)
  have "card (sm_id ` {m \<in> set ms. sm_id m \<notin> D}) = card {m \<in> set ms. sm_id m \<notin> D}"
    using inj by (intro card_image inj_on_subset[OF inj]) auto
  moreover have "sm_id ` {m \<in> set ms. sm_id m \<notin> D} = sm_id ` set ms - D" by auto
  moreover have "card (sm_id ` set ms) = length ms"
    using assms(1) distinct_card[of "map sm_id ms"] by simp
  moreover have "card D \<le> card (sm_id ` set ms)" using assms(2) by (intro card_mono) auto
  ultimately show ?thesis using assms(2) by (simp add: card_Diff_subset finite_subset[OF assms(2)])
qed

lemma ids_to_delete_spec:
  fixes ms :: "snapshot_metadata list" and p :: retention_policy and now :: u64
  assumes "distinct (map sm_id ms)" and "sorted (map sm_created ms)"
  defines "D \<equiv> ids_to_delete p now ms"
  shows "D \<subseteq> sm_id ` set ms" and "\<forall>m \<in> set ms. is_expired p now m \<longrightarrow> sm_id m \<in> D"
    and "\<forall>keep. rp_max_snapshots p = Some keep \<longrightarrow> card {m \<in> set ms. sm_id m \<notin> D} \<le> keep"
    and "\<forall>m \<in> set ms. sm_id m \<in> D \<longrightarrow> \<not> is_expired p now m \<longrightarrow>
      rp_max_snapshots p = Some (card {m \<in> set ms. sm_id m \<notin> D}) \<and>
      (\<forall>x \<in> set ms. sm_id x \<notin> D \<longrightarrow> sm_created m \<le> sm_created x)"
proof -
  let ?E = "expired_ids p now ms"
  have fin: "finite ?E" by (rule finite_subset[OF expired_ids_sub]) simp
  have cardE: "card {m \<in> set ms. sm_id m \<notin> ?E} + card ?E = length ms"
    using card_kept[OF assms(1) expired_ids_sub] .
  consider (all) "D = ?E" "rp_max_snapshots p = None \<or> (\<exists>keep. rp_max_snapshots p = Some keep \<and> length ms \<le> keep)"
    | (more) keep r' where "rp_max_snapshots p = Some keep" "keep < length ms"
        "prune_oldest keep ms (?E, length ms - card ?E) = (D, r')"
  proof (cases "\<exists>keep. rp_max_snapshots p = Some keep \<and> keep < length ms")
    case True
    then obtain keep where "rp_max_snapshots p = Some keep" "keep < length ms" by blast
    then show ?thesis
      using more[of keep "snd (prune_oldest keep ms (?E, length ms - card ?E))"]
      by (simp add: D_def ids_to_delete_def Let_def)
  next
    case False
    then show ?thesis
      using all by (cases "rp_max_snapshots p") (auto simp: D_def ids_to_delete_def not_less)
  qed
  then have "D \<subseteq> sm_id ` set ms \<and> (\<forall>m \<in> set ms. is_expired p now m \<longrightarrow> sm_id m \<in> D) \<and>
    (\<forall>keep. rp_max_snapshots p = Some keep \<longrightarrow> card {m \<in> set ms. sm_id m \<notin> D} \<le> keep) \<and>
    (\<forall>m \<in> set ms. sm_id m \<in> D \<longrightarrow> \<not> is_expired p now m \<longrightarrow>
      rp_max_snapshots p = Some (card {m \<in> set ms. sm_id m \<notin> D}) \<and>
      (\<forall>x \<in> set ms. sm_id x \<notin> D \<longrightarrow> sm_created m \<le> sm_created x))"
  proof cases
    case all
    have "card {m \<in> set ms. sm_id m \<notin> ?E} \<le> length ms" using cardE by simp
    then show ?thesis using all expired_ids_sub expired_ids_iff[OF assms(1)] by auto
  next
    case more
    note spec = prune_oldest_spec[OF more(3) assms(1,2) fin]
    have part: "?E \<subseteq> D" and grown: "D - ?E \<subseteq> sm_id ` set ms" and finD: "finite D"
      and count: "r' + card (D - ?E) = length ms - card ?E"
      and enough: "r' \<le> keep \<or> sm_id ` set ms \<subseteq> D" and stay: "length ms - card ?E \<le> keep \<longrightarrow> D = ?E"
      and low: "keep \<le> length ms - card ?E \<longrightarrow> keep \<le> r'"
      and order: "\<forall>x \<in> set ms. sm_id x \<in> D - ?E \<longrightarrow> (\<forall>y \<in> set ms. sm_id y \<notin> D \<longrightarrow> sm_created x \<le> sm_created y)"
      using spec by - (elim conjE, assumption)+
    have sub: "D \<subseteq> sm_id ` set ms" using grown expired_ids_sub by blast
    have "card D = card ?E + card (D - ?E)"
      using card_Diff_subset[OF fin part] card_mono[OF finD part] by linarith
    then have kept: "card {m \<in> set ms. sm_id m \<notin> D} = r'"
      using count cardE card_kept[OF assms(1) sub] by linarith
    have le: "r' \<le> keep"
    proof (rule ccontr)
      assume "\<not> r' \<le> keep"
      then have "{m \<in> set ms. sm_id m \<notin> D} = {}" using enough by auto
      then show False using kept \<open>\<not> r' \<le> keep\<close> by (metis card.empty le0)
    qed
    have fresh: "r' = keep \<and> (\<forall>y \<in> set ms. sm_id y \<notin> D \<longrightarrow> sm_created x \<le> sm_created y)"
      if x: "x \<in> set ms" "sm_id x \<in> D" "\<not> is_expired p now x" for x
    proof -
      have "sm_id x \<in> D - ?E" using x expired_ids_iff[OF assms(1) x(1)] by blast
      moreover from this have "keep < length ms - card ?E" using stay by (auto simp: not_le[symmetric])
      ultimately show ?thesis using low le order x(1) by auto
    qed
    have "sm_id m \<in> D" if "m \<in> set ms" "is_expired p now m" for m
      using that expired_ids_iff[OF assms(1)] part by blast
    then show ?thesis using sub le more(1) fresh by (simp add: kept)
  qed
  then show "D \<subseteq> sm_id ` set ms" and "\<forall>m \<in> set ms. is_expired p now m \<longrightarrow> sm_id m \<in> D"
    and "\<forall>keep. rp_max_snapshots p = Some keep \<longrightarrow> card {m \<in> set ms. sm_id m \<notin> D} \<le> keep"
    and "\<forall>m \<in> set ms. sm_id m \<in> D \<longrightarrow> \<not> is_expired p now m \<longrightarrow>
      rp_max_snapshots p = Some (card {m \<in> set ms. sm_id m \<notin> D}) \<and>
      (\<forall>x \<in> set ms. sm_id x \<notin> D \<longrightarrow> sm_created m \<le> sm_created x)"
    by blast+
qed

section \<open>The contract of a store\<close>

text \<open>
  \<open>held\<close> is what a store keeps for an adapter under an id, \<open>named\<close> says which names it can keep apart,
  \<open>storable\<close> which snapshots it can write and read back.
\<close>

definition renewed :: "aead \<Rightarrow> app_key \<Rightarrow> app_key \<Rightarrow> kept_snapshot \<Rightarrow> kept_snapshot option \<Rightarrow> bool" where
  "renewed c old new s t \<longleftrightarrow>
     (\<exists>xs es. t = Some (s\<lparr>sp_entries := xs\<rparr>) \<and> decrypt_entries c old (sp_entries s) = Inr es \<and>
        decrypt_entries c new xs = Inr es)"

locale snapshot_storage =
  fixes st :: "'w snapshot_store"
    and ok :: "'w \<Rightarrow> bool"
    and held :: "'w \<Rightarrow> string \<Rightarrow> string \<Rightarrow> kept_snapshot option"
    and named :: "string \<Rightarrow> bool"
    and storable :: "kept_snapshot \<Rightarrow> bool"
  assumes save_ok: "ok w \<Longrightarrow> storable s \<Longrightarrow> named (sm_adapter_id (sp_metadata s)) \<Longrightarrow> named (sm_id (sp_metadata s)) \<Longrightarrow>
      \<exists>w'. sn_save st s w = (Inr (), w') \<and> ok w' \<and>
        (\<forall>a i. held w' a i = (if a = sm_adapter_id (sp_metadata s) \<and> i = sm_id (sp_metadata s) then Some s else held w a i))"
    and load_ok: "ok w \<Longrightarrow> held w a i = Some s \<Longrightarrow> sn_load st a i w = (Inr s, w)"
    and list_ok: "ok w \<Longrightarrow> named a \<Longrightarrow> \<exists>ms. sn_list st a w = (Inr ms, w) \<and> distinct (map sm_id ms) \<and>
        set ms = {sp_metadata s |s. \<exists>i. held w a i = Some s}"
    and delete_ok: "ok w \<Longrightarrow> named a \<Longrightarrow> named i \<Longrightarrow> \<exists>w'. sn_delete st a i w = (Inr (), w') \<and> ok w' \<and>
        (\<forall>b j. held w' b j = (if b = a \<and> j = i then None else held w b j))"
    and held_named: "ok w \<Longrightarrow> held w a i = Some s \<Longrightarrow>
        sm_adapter_id (sp_metadata s) = a \<and> sm_id (sp_metadata s) = i \<and> named a \<and> named i"
begin

lemma delete_all:
  "ok w \<Longrightarrow> named a \<Longrightarrow> list_all named is \<Longrightarrow> \<exists>w'. forS (sn_delete st a) is w = (Inr (), w') \<and> ok w' \<and>
    (\<forall>b j. held w' b j = (if b = a \<and> j \<in> set is then None else held w b j))"
proof (induction "is" arbitrary: w)
  case (Cons i "is")
  obtain w1 where w1: "sn_delete st a i w = (Inr (), w1)" "ok w1"
      "\<forall>b j. held w1 b j = (if b = a \<and> j = i then None else held w b j)"
    using delete_ok[of w a i] Cons.prems by auto
  obtain w' where "forS (sn_delete st a) is w1 = (Inr (), w')" "ok w'"
      "\<forall>b j. held w' b j = (if b = a \<and> j \<in> set is then None else held w1 b j)"
    using Cons.IH[OF w1(2)] Cons.prems by auto
  then show ?case using w1 by (intro exI[of _ w']) auto
qed simp

text \<open>The snapshots of an adapter, by age.\<close>

lemma listed:
  assumes "ok w" and "named a"
  obtains ms where "\<And>m p now. bk_store m = st \<Longrightarrow> plan_prune m a p now w =
      (Inr \<lparr>pp_adapter_id = a, pp_total = length ms, pp_to_delete = sorted_list_of_set (ids_to_delete p now ms)\<rparr>, w)"
    and "distinct (map sm_id ms)" and "sorted (map sm_created ms)"
    and "set ms = {sp_metadata s |s. \<exists>i. held w a i = Some s}"
proof -
  obtain ms0 where ms0: "sn_list st a w = (Inr ms0, w)" "distinct (map sm_id ms0)"
      "set ms0 = {sp_metadata s |s. \<exists>i. held w a i = Some s}"
    using list_ok[OF assms] by blast
  let ?ms = "sort_key sm_created ms0"
  have nil: "?ms = [] \<longleftrightarrow> ms0 = []" by (metis length_0_conv length_sort)
  have "ids_to_delete p now ?ms = {}" if "?ms = [] \<or> policy_empty p" for p now
    using that unfolding nil by (auto simp: ids_to_delete_def expired_ids_def policy_empty_def Let_def split: option.splits)
  then have "plan_prune m a p now w =
      (Inr \<lparr>pp_adapter_id = a, pp_total = length ?ms, pp_to_delete = sorted_list_of_set (ids_to_delete p now ?ms)\<rparr>, w)"
    if "bk_store m = st" for m p now
    using that ms0(1) by (simp add: plan_prune_def Let_def)
  moreover have "distinct (map sm_id ?ms)" using ms0(2) by (simp add: distinct_map)
  ultimately show ?thesis using that[of ?ms] ms0(3) by simp
qed

lemma pruned:
  assumes "ok w" and "named a" and "bk_store m = st"
  shows "\<exists>summary w'. prune_snapshots m a p now w = (Inr summary, w') \<and> ok w' \<and>
    (\<forall>b j. held w' b j = (if b = a \<and> j \<in> set (pu_deleted summary) then None else held w b j)) \<and>
    pu_remaining summary = card {i. held w' a i \<noteq> None} \<and>
    (\<forall>i s. held w a i = Some s \<longrightarrow> is_expired p now (sp_metadata s) \<longrightarrow> held w' a i = None) \<and>
    (\<forall>keep. rp_max_snapshots p = Some keep \<longrightarrow> pu_remaining summary \<le> keep) \<and>
    (\<forall>i s. held w a i = Some s \<longrightarrow> held w' a i = None \<longrightarrow> \<not> is_expired p now (sp_metadata s) \<longrightarrow>
      rp_max_snapshots p = Some (pu_remaining summary) \<and>
      (\<forall>j t. held w' a j = Some t \<longrightarrow> sm_created (sp_metadata s) \<le> sm_created (sp_metadata t)))"
proof -
  obtain ms where plan0: "\<And>m p now. bk_store m = st \<Longrightarrow> plan_prune m a p now w =
      (Inr \<lparr>pp_adapter_id = a, pp_total = length ms, pp_to_delete = sorted_list_of_set (ids_to_delete p now ms)\<rparr>, w)"
    and dist: "distinct (map sm_id ms)" and srt: "sorted (map sm_created ms)"
    and ms: "set ms = {sp_metadata s |s. \<exists>i. held w a i = Some s}"
    by (rule listed[OF assms(1,2)]) (rule that)
  note plan = plan0[OF assms(3), of p now]
  let ?D = "ids_to_delete p now ms"
  note spec = ids_to_delete_spec[OF dist srt, of p now]
  have names: "\<And>i s. held w a i = Some s \<Longrightarrow> sm_id (sp_metadata s) = i \<and> named i \<and> sp_metadata s \<in> set ms"
    using held_named[OF assms(1)] ms by blast
  have fin: "finite ?D" by (rule finite_subset[OF spec(1)]) simp
  have "list_all named (sorted_list_of_set ?D)"
    using fin spec(1) ms held_named[OF assms(1)] by (fastforce simp: list_all_iff)
  then obtain w' where del: "forS (sn_delete st a) (sorted_list_of_set ?D) w = (Inr (), w')" "ok w'"
      "\<forall>b j. held w' b j = (if b = a \<and> j \<in> ?D then None else held w b j)"
    using delete_all[OF assms(1,2)] fin by fastforce
  have left: "{i. held w' a i \<noteq> None} = sm_id ` {m \<in> set ms. sm_id m \<notin> ?D}"
    using del(3) names ms by (auto simp: image_iff) (metis option.exhaust)+
  have "inj_on sm_id (set ms)" using dist by (simp add: distinct_map)
  then have card: "card {i. held w' a i \<noteq> None} = card {m \<in> set ms. sm_id m \<notin> ?D}"
    unfolding left by (intro card_image) (auto intro: inj_on_subset)
  have remain: "length ms - length (sorted_list_of_set ?D) = card {i. held w' a i \<noteq> None}"
    using card_kept[OF dist spec(1)] card by simp
  have gone: "held w' a i = None \<longleftrightarrow> sm_id (sp_metadata s) \<in> ?D" if "held w a i = Some s" for i s
    using del(3) names[OF that] that by simp
  have prune: "prune_snapshots m a p now w =
      (Inr \<lparr>pu_adapter_id = a, pu_deleted = sorted_list_of_set ?D, pu_remaining = card {i. held w' a i \<noteq> None}\<rparr>, w')"
    using plan del(1) assms(3) remain by (simp add: prune_snapshots_def)
  have kept: "sp_metadata t \<in> set ms \<and> sm_id (sp_metadata t) \<notin> ?D" if "held w' a j = Some t" for j t
    using that del(3) names by (metis option.distinct(1))
  have expired: "held w' a i = None" if "held w a i = Some s" "is_expired p now (sp_metadata s)" for i s
    using that gone names spec(2) by blast
  have young: "rp_max_snapshots p = Some (card {i. held w' a i \<noteq> None}) \<and>
      (\<forall>j t. held w' a j = Some t \<longrightarrow> sm_created (sp_metadata s) \<le> sm_created (sp_metadata t))"
    if "held w a i = Some s" "held w' a i = None" "\<not> is_expired p now (sp_metadata s)" for i s
  proof -
    have "sp_metadata s \<in> set ms" and "sm_id (sp_metadata s) \<in> ?D"
      using that(1,2) gone names by blast+
    then show ?thesis using spec(4) that(3) kept unfolding card by blast
  qed
  have bound: "\<forall>keep. rp_max_snapshots p = Some keep \<longrightarrow> card {i. held w' a i \<noteq> None} \<le> keep"
    using spec(3) unfolding card .
  let ?S = "\<lparr>pu_adapter_id = a, pu_deleted = sorted_list_of_set ?D, pu_remaining = card {i. held w' a i \<noteq> None}\<rparr>"
  show ?thesis
  proof (intro exI conjI)
    show "prune_snapshots m a p now w = (Inr ?S, w')" by (rule prune)
    show "ok w'" by (rule del(2))
    show "\<forall>b j. held w' b j = (if b = a \<and> j \<in> set (pu_deleted ?S) then None else held w b j)"
      using del(3) fin by simp
  qed (use expired young bound in \<open>simp_all\<close>)
qed

text \<open>A snapshot that another key can replace the key of, and one whose key was replaced.\<close>

definition renewable :: "aead \<Rightarrow> (nat \<Rightarrow> nat \<Rightarrow> bytes) \<Rightarrow> app_key \<Rightarrow> app_key \<Rightarrow> kept_snapshot \<Rightarrow> bool" where
  "renewable c rng old new s \<longleftrightarrow>
     (\<exists>es. decrypt_entries c old (sp_entries s) = Inr es \<and>
        (\<forall>n. \<exists>xs. encrypt_entries c (rng n) new es = Inr xs \<and> storable (s\<lparr>sp_entries := xs\<rparr>)))"

lemma reencrypt_loop:
  assumes "aead_sound c" and "\<forall>n. nonces_ok (rng n)" and "bk_store m = st"
  shows "ok w \<Longrightarrow> distinct (map sm_id mds) \<Longrightarrow>
    (\<forall>i \<in> sm_id ` set mds. \<exists>s. held w a i = Some s \<and> renewable c rng (bk_key m) key s) \<Longrightarrow>
    \<exists>w'. reencrypt_from c rng m a key n mds w = (Inr (n + length mds), w') \<and> ok w' \<and>
      (\<forall>b j. b \<noteq> a \<or> j \<notin> sm_id ` set mds \<longrightarrow> held w' b j = held w b j) \<and>
      (\<forall>i \<in> sm_id ` set mds. \<forall>s. held w a i = Some s \<longrightarrow> renewed c (bk_key m) key s (held w' a i))"
proof (induction mds arbitrary: n w)
  case (Cons md mds)
  obtain s where s: "held w a (sm_id md) = Some s" and ren: "renewable c rng (bk_key m) key s"
    using Cons.prems(3) by auto
  obtain es xs where es: "decrypt_entries c (bk_key m) (sp_entries s) = Inr es"
    and xs: "encrypt_entries c (rng n) key es = Inr xs" "storable (s\<lparr>sp_entries := xs\<rparr>)"
    using ren unfolding renewable_def by blast
  note place = held_named[OF Cons.prems(1) s]
  obtain w1 where w1: "sn_save st (s\<lparr>sp_entries := xs\<rparr>) w = (Inr (), w1)" "ok w1"
      "\<forall>b j. held w1 b j = (if b = a \<and> j = sm_id md then Some (s\<lparr>sp_entries := xs\<rparr>) else held w b j)"
    using save_ok[OF Cons.prems(1) xs(2)] place by auto
  have tail: "distinct (map sm_id mds)" "sm_id md \<notin> sm_id ` set mds" using Cons.prems(2) by auto
  have same: "held w1 a i = held w a i" if "i \<in> sm_id ` set mds" for i
    using w1(3) tail(2) that by (cases "i = sm_id md") simp_all
  obtain w' where w': "reencrypt_from c rng m a key (Suc n) mds w1 = (Inr (Suc n + length mds), w')" "ok w'"
      "\<forall>b j. b \<noteq> a \<or> j \<notin> sm_id ` set mds \<longrightarrow> held w' b j = held w1 b j"
      "\<forall>i \<in> sm_id ` set mds. \<forall>s. held w1 a i = Some s \<longrightarrow> renewed c (bk_key m) key s (held w' a i)"
    using Cons.IH[OF w1(2) tail(1), of "Suc n"] Cons.prems(3) same by auto
  have "reencrypt_from c rng m a key n (md # mds) w = (Inr (n + length (md # mds)), w')"
    using load_ok[OF Cons.prems(1) s] es xs(1) w1(1) w'(1) assms(3) by simp
  moreover have "renewed c (bk_key m) key s (held w' a (sm_id md))"
    using w'(3) w1(3) tail(2) decrypt_encrypt_entries[OF assms(1) _ xs(1)] assms(2) es
    by (auto simp: renewed_def)
  ultimately show ?case using w'(2-4) w1(3) s same by (intro exI[of _ w']) auto
qed simp

lemma reencrypted:
  assumes "aead_sound c" and "\<forall>n. nonces_ok (rng n)" and "bk_store m = st" and "ok w" and "named a"
    and "\<forall>i s. held w a i = Some s \<longrightarrow> renewable c rng (bk_key m) key s"
  shows "\<exists>n w'. reencrypt_snapshots c rng m a key w = (Inr n, w') \<and> ok w' \<and> n = card {i. held w a i \<noteq> None} \<and>
    (\<forall>i s. held w a i = Some s \<longrightarrow> renewed c (bk_key m) key s (held w' a i)) \<and>
    (\<forall>b j. b \<noteq> a \<or> held w a j = None \<longrightarrow> held w' b j = held w b j)"
proof -
  obtain ms where ms: "sn_list st a w = (Inr ms, w)" "distinct (map sm_id ms)"
      "set ms = {sp_metadata s |s. \<exists>i. held w a i = Some s}"
    using list_ok[OF assms(4,5)] by blast
  have ids: "sm_id ` set ms = {i. held w a i \<noteq> None}"
    using held_named[OF assms(4)] ms(3) by (auto simp: image_iff)
  have ready: "\<forall>i \<in> sm_id ` set ms. \<exists>s. held w a i = Some s \<and> renewable c rng (bk_key m) key s"
    using assms(6) ids by auto
  obtain w' where w': "reencrypt_from c rng m a key 0 ms w = (Inr (0 + length ms), w')" "ok w'"
      "\<forall>b j. b \<noteq> a \<or> j \<notin> sm_id ` set ms \<longrightarrow> held w' b j = held w b j"
      "\<forall>i \<in> sm_id ` set ms. \<forall>s. held w a i = Some s \<longrightarrow> renewed c (bk_key m) key s (held w' a i)"
    using reencrypt_loop[OF assms(1-4) ms(2) ready] by blast
  have "length ms = card {i. held w a i \<noteq> None}"
    using ids ms(2) distinct_card[of "map sm_id ms"] by simp
  then show ?thesis
    using w' ms(1) assms(3) ids
    by (intro exI[of _ "length ms"] exI[of _ w']) (simp add: reencrypt_snapshots_def)
qed

text \<open>What was exported is what a later load gives back.\<close>

lemma created_loads:
  assumes "aead_sound c" and "nonces_ok rng" and "bk_store m = st" and "ok w"
    and "create_snapshot c rng fresh now m a s label w = (Inr md, w')"
    and "\<forall>es xs. ba_export_snapshot a s = Inr es \<longrightarrow> encrypt_entries c rng (bk_key m) es = Inr xs \<longrightarrow>
      storable \<lparr>sp_metadata = md, sp_entries = xs\<rparr>"
    and "named (ba_id a)" and "named (sm_id md)"
  shows "ok w' \<and> (\<exists>es. ba_export_snapshot a s = Inr es \<and>
    load_snapshot_entries c m (ba_id a) (sm_id md) w' = (Inr (md, es), w'))"
proof -
  obtain es xs where es: "ba_export_snapshot a s = Inr es" and xs: "encrypt_entries c rng (bk_key m) es = Inr xs"
    and md: "sm_adapter_id md = ba_id a"
    and save: "sn_save st \<lparr>sp_metadata = md, sp_entries = xs\<rparr> w = (Inr (), w')"
    using assms(3,5) by (auto simp: create_snapshot_def Let_def bindS_Inr)
  then have "ok w'" and "held w' (ba_id a) (sm_id md) = Some \<lparr>sp_metadata = md, sp_entries = xs\<rparr>"
    using save_ok[OF assms(4), of "\<lparr>sp_metadata = md, sp_entries = xs\<rparr>"] assms(6-8) by auto
  then show ?thesis
    using load_ok[of w'] es decrypt_encrypt_entries[OF assms(1,2) xs] assms(3)
    by (simp add: load_snapshot_entries_def)
qed

end

section \<open>The file store\<close>

text \<open>
  Names of one path component. The law about a directory's listing is what \<open>read_dir\<close> documents: of
  a directory that exists, each file once, in some order.
\<close>

definition plain :: "string \<Rightarrow> bool" where
  "plain a \<longleftrightarrow> CHR ''/'' \<notin> set a \<and> a \<noteq> []"

definition base :: "string \<Rightarrow> string" where
  "base root = (if root = [] \<or> last root = CHR ''/'' then root else root @ ''/'')"

lemma last_not_slash: "CHR ''/'' \<notin> set xs \<Longrightarrow> xs \<noteq> [] \<Longrightarrow> last xs \<noteq> CHR ''/''"
  by (metis last_in_set)

lemma path_join_plain: "CHR ''/'' \<notin> set q \<Longrightarrow> path_join p q = base p @ q"
  by (cases q) (auto simp: path_join_def base_def)

lemma snapshot_path_plain:
  "plain a \<Longrightarrow> plain i \<Longrightarrow> snapshot_path root a i = base root @ a @ ''/'' @ i @ ''.json''"
  by (simp add: snapshot_path_def adapter_dir_def path_join_plain plain_def base_def[of "_ @ a"] last_not_slash)

lemma component_inject:
  "CHR ''/'' \<notin> set a \<Longrightarrow> CHR ''/'' \<notin> set b \<Longrightarrow> a @ CHR ''/'' # x = b @ CHR ''/'' # y \<longleftrightarrow> a = b \<and> x = y"
  by (induction a arbitrary: b) (case_tac b; auto)+

lemma snapshot_path_inject:
  "plain a \<Longrightarrow> plain i \<Longrightarrow> plain b \<Longrightarrow> plain j \<Longrightarrow> snapshot_path root a i = snapshot_path root b j \<longleftrightarrow> a = b \<and> i = j"
  using component_inject[of a b "i @ ''.json''" "j @ ''.json''"] by (auto simp: snapshot_path_plain plain_def)

definition in_dir :: "string \<Rightarrow> string \<Rightarrow> string \<Rightarrow> bool" where
  "in_dir root a p \<longleftrightarrow> (\<exists>x. p = base root @ a @ ''/'' @ x)"

lemma snapshot_in_dir: "plain a \<Longrightarrow> plain i \<Longrightarrow> plain b \<Longrightarrow> in_dir root b (snapshot_path root a i) \<longleftrightarrow> b = a"
  using component_inject[of a b "i @ ''.json''"] by (auto simp: in_dir_def snapshot_path_plain plain_def)

definition files_in :: "string \<Rightarrow> string \<Rightarrow> 'z files \<Rightarrow> string set" where
  "files_in root a w = {p. fw_files w p \<noteq> None \<and> in_dir root a p}"

text \<open>The directories under \<open>root\<close> hold snapshots only, each where its metadata puts it.\<close>

definition kept_files :: "snapshot_json \<Rightarrow> string \<Rightarrow> 'z files \<Rightarrow> bool" where
  "kept_files sj root w \<longleftrightarrow> no_faults w \<and> finite {p. fw_files w p \<noteq> None} \<and>
     (\<forall>a p bs. plain a \<longrightarrow> in_dir root a p \<longrightarrow> fw_files w p = Some bs \<longrightarrow>
        (\<exists>s. sj_from_slice sj bs = Inr s \<and> sm_adapter_id (sp_metadata s) = a \<and> plain (sm_id (sp_metadata s)) \<and>
           p = snapshot_path root a (sm_id (sp_metadata s))))"

definition lists_files :: "snapshot_json \<Rightarrow> string \<Rightarrow> 'z dir_listing \<Rightarrow> bool" where
  "lists_files sj root ls \<longleftrightarrow>
     (\<forall>w a. kept_files sj root w \<longrightarrow> plain a \<longrightarrow>
        (case ls (adapter_dir root a) w of
           None \<Rightarrow> files_in root a w = {}
         | Some r \<Rightarrow> (\<exists>ps. r = Inr (map Inr ps) \<and> distinct ps \<and> set ps = files_in root a w)))"

definition file_held :: "snapshot_json \<Rightarrow> string \<Rightarrow> 'z files \<Rightarrow> string \<Rightarrow> string \<Rightarrow> kept_snapshot option" where
  "file_held sj root w a i =
     (if plain a \<and> plain i
      then case fw_files w (snapshot_path root a i) of
             None \<Rightarrow> None
           | Some bs \<Rightarrow> (case sj_from_slice sj bs of Inl _ \<Rightarrow> None | Inr s \<Rightarrow> Some s)
      else None)"

definition json_keeps :: "snapshot_json \<Rightarrow> kept_snapshot \<Rightarrow> bool" where
  "json_keeps sj s \<longleftrightarrow> (\<exists>bs. sj_to_vec_pretty sj s = Inr bs \<and> sj_from_slice sj bs = Inr s)"

lemma held_file:
  assumes "kept_files sj root w" and "file_held sj root w a i = Some s"
  shows "plain a \<and> plain i \<and> sm_adapter_id (sp_metadata s) = a \<and> sm_id (sp_metadata s) = i \<and>
    (\<exists>bs. fw_files w (snapshot_path root a i) = Some bs \<and> sj_from_slice sj bs = Inr s)"
proof -
  obtain bs where names: "plain a" "plain i" and bs: "fw_files w (snapshot_path root a i) = Some bs" "sj_from_slice sj bs = Inr s"
    using assms(2) by (auto simp: file_held_def split: if_splits option.splits sum.splits)
  moreover have "in_dir root a (snapshot_path root a i)" using names by (simp add: snapshot_in_dir)
  ultimately obtain t where "sj_from_slice sj bs = Inr t" "sm_adapter_id (sp_metadata t) = a"
      "plain (sm_id (sp_metadata t))" "snapshot_path root a i = snapshot_path root a (sm_id (sp_metadata t))"
    using assms(1) unfolding kept_files_def by blast
  then show ?thesis using names bs by (auto simp: snapshot_path_inject)
qed

lemma kept_files_update:
  assumes "kept_files sj root w" and "plain a" and "plain i"
    and "\<forall>bs. v = Some bs \<longrightarrow> (\<exists>s. sj_from_slice sj bs = Inr s \<and> sm_adapter_id (sp_metadata s) = a \<and> sm_id (sp_metadata s) = i)"
  shows "kept_files sj root (w\<lparr>fw_files := (fw_files w)(snapshot_path root a i := v)\<rparr>)"
proof -
  have "finite {p. ((fw_files w)(snapshot_path root a i := v)) p \<noteq> None}"
    using assms(1) by (rule_tac finite_subset[of _ "insert (snapshot_path root a i) {p. fw_files w p \<noteq> None}"])
      (auto simp: kept_files_def)
  then show ?thesis
    using assms by (auto simp: kept_files_def snapshot_in_dir split: if_splits)
qed

lemma file_held_update:
  "plain a \<Longrightarrow> plain i \<Longrightarrow> file_held sj root (w\<lparr>fw_files := (fw_files w)(snapshot_path root a i := v)\<rparr>) b j =
     (if b = a \<and> j = i then case v of None \<Rightarrow> None | Some bs \<Rightarrow> (case sj_from_slice sj bs of Inl _ \<Rightarrow> None | Inr s \<Rightarrow> Some s)
      else file_held sj root w b j)"
  by (auto simp: file_held_def snapshot_path_inject)

lemma read_snapshots_ok:
  assumes "no_faults w"
    and "list_all (\<lambda>p. \<exists>bs s. fw_files w p = Some bs \<and> sj_from_slice sj bs = Inr s) ps"
  shows "\<exists>ss. read_snapshots sj (map Inr ps) w = (Inr (map sp_metadata ss), w) \<and>
    list_all2 (\<lambda>p s. \<exists>bs. fw_files w p = Some bs \<and> sj_from_slice sj bs = Inr s) ps ss"
  using assms(2)
proof (induction ps)
  case (Cons p ps)
  then obtain bs s ss where "fw_files w p = Some bs" "sj_from_slice sj bs = Inr s"
      "read_snapshots sj (map Inr ps) w = (Inr (map sp_metadata ss), w)"
      "list_all2 (\<lambda>p s. \<exists>bs. fw_files w p = Some bs \<and> sj_from_slice sj bs = Inr s) ps ss" by auto
  then show ?case using assms(1) by (intro exI[of _ "s # ss"]) (simp add: fs_read_ok)
qed simp

lemma files_in_held:
  assumes "kept_files sj root w" and "plain a" and "p \<in> files_in root a w"
  obtains i s bs where "p = snapshot_path root a i" and "fw_files w p = Some bs" and "sj_from_slice sj bs = Inr s"
    and "file_held sj root w a i = Some s" and "sm_id (sp_metadata s) = i" and "plain i"
proof -
  obtain bs where bs: "fw_files w p = Some bs" "in_dir root a p" using assms(3) by (auto simp: files_in_def)
  then obtain s where "sj_from_slice sj bs = Inr s" "plain (sm_id (sp_metadata s))"
      "p = snapshot_path root a (sm_id (sp_metadata s))"
    using assms(1,2) unfolding kept_files_def by blast
  then show ?thesis using that[of "sm_id (sp_metadata s)" bs s] bs assms(2) by (simp add: file_held_def)
qed

lemma listed_files_held:
  assumes "kept_files sj root w" and "plain a"
  shows "list_all2 (\<lambda>p s. \<exists>bs. fw_files w p = Some bs \<and> sj_from_slice sj bs = Inr s) ps ss \<Longrightarrow>
    set ps \<subseteq> files_in root a w \<Longrightarrow>
    ps = map (\<lambda>s. snapshot_path root a (sm_id (sp_metadata s))) ss \<and>
    (\<forall>s \<in> set ss. file_held sj root w a (sm_id (sp_metadata s)) = Some s)"
proof (induction ps ss rule: list_all2_induct)
  case (Cons p ps s ss)
  have "p \<in> files_in root a w" using Cons.prems by simp
  from files_in_held[OF assms this] obtain i t bs where "p = snapshot_path root a i" "fw_files w p = Some bs"
      "sj_from_slice sj bs = Inr t" "file_held sj root w a i = Some t" "sm_id (sp_metadata t) = i" by metis
  then show ?case using Cons by auto
qed simp

lemma file_list_ok:
  assumes "kept_files sj root w" and "lists_files sj root ls" and "plain a"
  shows "\<exists>ms. file_list_snapshots sj ls root a w = (Inr ms, w) \<and> distinct (map sm_id ms) \<and>
    set ms = {sp_metadata s |s. \<exists>i. file_held sj root w a i = Some s}"
proof (cases "ls (adapter_dir root a) w")
  case None
  then have "files_in root a w = {}" using assms by (force simp: lists_files_def)
  moreover have "snapshot_path root a i \<in> files_in root a w" if "file_held sj root w a i = Some s" for i s
    using held_file[OF assms(1) that] by (auto simp: files_in_def snapshot_in_dir)
  ultimately show ?thesis using None by (auto simp: file_list_snapshots_def)
next
  case (Some r)
  then obtain ps where ps: "r = Inr (map Inr ps)" "distinct ps" "set ps = files_in root a w"
    using assms by (force simp: lists_files_def)
  have inhab: "\<exists>bs s. fw_files w p = Some bs \<and> sj_from_slice sj bs = Inr s" if p: "p \<in> set ps" for p
  proof -
    have "p \<in> files_in root a w" using p ps(3) by simp
    from files_in_held[OF assms(1,3) this] show ?thesis by blast
  qed
  then have "list_all (\<lambda>p. \<exists>bs s. fw_files w p = Some bs \<and> sj_from_slice sj bs = Inr s) ps"
    unfolding list_all_iff by blast
  moreover have "no_faults w" using assms(1) by (simp add: kept_files_def)
  ultimately obtain ss where ss: "read_snapshots sj (map Inr ps) w = (Inr (map sp_metadata ss), w)"
      "list_all2 (\<lambda>p s. \<exists>bs. fw_files w p = Some bs \<and> sj_from_slice sj bs = Inr s) ps ss"
    using read_snapshots_ok[of w sj ps] by blast
  have at: "ps = map (\<lambda>s. snapshot_path root a (sm_id (sp_metadata s))) ss \<and>
      (\<forall>s \<in> set ss. file_held sj root w a (sm_id (sp_metadata s)) = Some s)"
    using listed_files_held[OF assms(1,3) ss(2)] ps(3) by blast
  have ids: "distinct (map (sm_id \<circ> sp_metadata) ss)"
  proof -
    have "distinct (map (snapshot_path root a) (map (sm_id \<circ> sp_metadata) ss))"
      using at ps(2) by (simp add: comp_def)
    then show ?thesis by (auto simp: distinct_map dest: inj_on_imageI2)
  qed
  have "set ss = {s. \<exists>i. file_held sj root w a i = Some s}"
  proof (rule set_eqI, rule iffI)
    fix s
    assume "s \<in> {s. \<exists>i. file_held sj root w a i = Some s}"
    then obtain i where i: "file_held sj root w a i = Some s" by blast
    note here = held_file[OF assms(1) i]
    have "snapshot_path root a i \<in> set ps" using here ps(3) by (auto simp: files_in_def snapshot_in_dir)
    then obtain t where t: "t \<in> set ss" "snapshot_path root a i = snapshot_path root a (sm_id (sp_metadata t))"
      using at by auto
    have held: "file_held sj root w a (sm_id (sp_metadata t)) = Some t" using at t(1) by blast
    then have "sm_id (sp_metadata t) = i"
      using t(2) here held_file[OF assms(1) held] by (simp add: snapshot_path_inject)
    then show "s \<in> set ss" using held i t(1) by simp
  qed (use at in blast)
  then have "sp_metadata ` set ss = {sp_metadata s |s. \<exists>i. file_held sj root w a i = Some s}" by blast
  moreover have "distinct (map sm_id (sort_key sm_created (map sp_metadata ss)))"
    using ids by (auto simp: distinct_map dest: inj_on_imageI inj_on_imageI2)
  ultimately show ?thesis
    using Some ps(1) ss(1) by (simp add: file_list_snapshots_def)
qed

interpretation filed_store: snapshot_storage "file_store sj ls root"
  "\<lambda>w. kept_files sj root w \<and> lists_files sj root ls" "file_held sj root" plain "json_keeps sj" for sj ls root
proof (unfold_locales, goal_cases)
  case (1 w s)
  then obtain bs where bs: "sj_to_vec_pretty sj s = Inr bs" "sj_from_slice sj bs = Inr s"
    by (auto simp: json_keeps_def)
  let ?w = "w\<lparr>fw_files := (fw_files w)(snapshot_path root (sm_adapter_id (sp_metadata s)) (sm_id (sp_metadata s)) := Some bs)\<rparr>"
  have "no_faults w" using 1 by (simp add: kept_files_def)
  then have "sn_save (file_store sj ls root) s w = (Inr (), ?w)"
    using bs by (simp add: file_store_def file_save_snapshot_def fs_create_dir_all_def fs_simps)
  moreover have "kept_files sj root ?w" using 1 bs(2) by (intro kept_files_update) auto
  ultimately show ?case using 1 bs by (intro exI[of _ ?w]) (simp add: file_held_update)
next
  case (2 w a i s)
  then show ?case
    using held_file[of sj root w a i s]
    by (auto simp: file_store_def file_load_snapshot_def kept_files_def fs_simps)
next
  case (3 w a)
  then show ?case using file_list_ok[of sj root w ls a] by (simp add: file_store_def)
next
  case (4 w a i)
  let ?w = "w\<lparr>fw_files := (fw_files w)(snapshot_path root a i := None)\<rparr>"
  have "no_faults w" using 4 by (simp add: kept_files_def)
  then have "sn_delete (file_store sj ls root) a i w = (Inr (), ?w)"
    by (auto simp: file_store_def file_delete_snapshot_def fs_remove_file_def path_exists_def Let_def
        next_fault_none fun_upd_idem)
  moreover have "kept_files sj root ?w" using 4 by (intro kept_files_update) auto
  ultimately show ?case using 4 by (intro exI[of _ ?w]) (simp add: file_held_update)
next
  case (5 w a i s)
  then show ?case using held_file[of sj root w a i s] by blast
qed

end
