(* ===== verification/Props_Backup.thy ===== *)
theory Props_Backup
  imports Backup_Laws Props_Logical
begin

text \<open>
  Properties of the backups: pruning and re-encrypting the snapshots of a file store, restoring them
  into the state of a device, and the summary of what a restore would change.
\<close>

section \<open>Pruning and re-encrypting\<close>

text \<open>
  C36: pruning a file store without faults deletes exactly what the policy says. Only snapshots of the
  given adapter are touched; every snapshot past the maximal age goes; at most the allowed number
  remains, and the summary counts it; and a snapshot that is not past the age is deleted only to get
  down to exactly that number, when none that remains is older.
\<close>

theorem pruning_keeps_newest:
  assumes "kept_files sj root w" and "lists_files sj root ls" and "plain a"
    and "bk_store m = file_store sj ls root"
  shows "\<exists>summary w'. prune_snapshots m a p now w = (Inr summary, w') \<and> kept_files sj root w' \<and>
    (\<forall>b j. file_held sj root w' b j =
       (if b = a \<and> j \<in> set (pu_deleted summary) then None else file_held sj root w b j)) \<and>
    pu_remaining summary = card {i. file_held sj root w' a i \<noteq> None} \<and>
    (\<forall>i s. file_held sj root w a i = Some s \<longrightarrow> is_expired p now (sp_metadata s) \<longrightarrow> file_held sj root w' a i = None) \<and>
    (\<forall>keep. rp_max_snapshots p = Some keep \<longrightarrow> pu_remaining summary \<le> keep) \<and>
    (\<forall>i s. file_held sj root w a i = Some s \<longrightarrow> file_held sj root w' a i = None \<longrightarrow>
      \<not> is_expired p now (sp_metadata s) \<longrightarrow>
      rp_max_snapshots p = Some (pu_remaining summary) \<and>
      (\<forall>j t. file_held sj root w' a j = Some t \<longrightarrow> sm_created (sp_metadata s) \<le> sm_created (sp_metadata t)))"
  using filed_store.pruned[of sj root w ls a m p now] assms by blast

text \<open>
  C37: re-encrypting under another key keeps every snapshot. Afterwards each snapshot of the adapter
  stands where it stood, with its metadata, decrypts with the new key to what it held under the old
  one, and nothing else in the store has changed.
\<close>

theorem reencrypting_keeps_entries:
  assumes "aead_sound c" and "\<forall>n. nonces_ok (rng n)" and "kept_files sj root w" and "lists_files sj root ls"
    and "plain a" and "bk_store m = file_store sj ls root"
    and "\<forall>i s. file_held sj root w a i = Some s \<longrightarrow>
      (\<exists>es. decrypt_entries c (bk_key m) (sp_entries s) = Inr es \<and>
        (\<forall>n. \<exists>xs. encrypt_entries c (rng n) key es = Inr xs \<and> json_keeps sj (s\<lparr>sp_entries := xs\<rparr>)))"
  shows "\<exists>n w'. reencrypt_snapshots c rng m a key w = (Inr n, w') \<and> kept_files sj root w' \<and>
    n = card {i. file_held sj root w a i \<noteq> None} \<and>
    (\<forall>i s. file_held sj root w a i = Some s \<longrightarrow>
      (\<exists>xs es. file_held sj root w' a i = Some (s\<lparr>sp_entries := xs\<rparr>) \<and>
        decrypt_entries c (bk_key m) (sp_entries s) = Inr es \<and> decrypt_entries c key xs = Inr es)) \<and>
    (\<forall>b j. b \<noteq> a \<or> file_held sj root w a j = None \<longrightarrow> file_held sj root w' b j = file_held sj root w b j)"
proof -
  have "\<forall>i s. file_held sj root w a i = Some s \<longrightarrow> filed_store.renewable sj c rng (bk_key m) key s"
    using assms(7) unfolding filed_store.renewable_def .
  from filed_store.reencrypted[OF assms(1,2,6) conjI[OF assms(3,4)] assms(5) this]
  show ?thesis unfolding renewed_def by blast
qed

section \<open>Restoring\<close>

lemma reclock_entries_spec:
  assumes "reclock_entries es s = (xs, t)" and "unat (st_counter s) + length es < 2 ^ 64"
  shows "map e_key xs = map e_key es \<and> map e_value xs = map e_value es \<and> st_entries t = st_entries s \<and>
    t = s\<lparr>st_counter := st_counter t\<rparr> \<and> st_counter s \<le> st_counter t \<and>
    (\<forall>x \<in> set xs. st_counter s < clk_counter (e_clock x) \<and> clk_device (e_clock x) = st_device_id s)"
  using assms
proof (induction es arbitrary: s xs t)
  case (Cons e es)
  let ?s = "s\<lparr>st_counter := sat_inc (st_counter s)\<rparr>"
  obtain rest where rest: "reclock_entries es ?s = (rest, t)"
      "xs = e\<lparr>e_clock := LamportClock (st_counter ?s) (st_device_id s)\<rparr> # rest"
    using Cons.prems(1) by (auto simp: Let_def split: prod.splits)
  have up: "unat (st_counter ?s) + length es < 2 ^ 64" "st_counter s < st_counter ?s"
    using Cons.prems(2) less_sat_inc_iff[of "st_counter s"] unat_u64_max by (auto simp: unat_sat_inc)
  note IH = Cons.IH[OF rest(1) up(1)]
  have "t = s\<lparr>st_counter := st_counter t\<rparr>" using IH by simp
  moreover have "st_counter s < st_counter t" using IH less_le_trans[OF up(2)] by simp
  moreover have "\<forall>x \<in> set rest. st_counter s < clk_counter (e_clock x)"
    using IH less_trans[OF up(2)] by blast
  ultimately show ?case using IH up(2) rest(2) by (simp add: less_imp_le)
qed auto

lemma newer_puts_win:
  assumes "state_ok s" and "distinct (map e_key xs)" and "\<forall>x \<in> set xs. st_counter s < clk_counter (e_clock x)"
    and "state_ok t" and "st_entries t = st_entries s"
  shows "entry_of (fold lww_put xs t) k = (case map_of (map (\<lambda>x. (e_key x, x)) xs) k of
    Some x \<Rightarrow> Some x | None \<Rightarrow> entry_of s k)"
proof -
  have same: "entry_of t = entry_of s" using assms(5) by (simp add: entry_of_def fun_eq_iff)
  have dist: "distinct (map fst (map (\<lambda>x. (e_key x, x)) xs))" using assms(2) by (simp add: comp_def)
  show ?thesis
  proof (cases "\<exists>x \<in> set xs. e_key x = k")
    case True
    then obtain x where x: "x \<in> set xs" "e_key x = k" by blast
    obtain y where y: "entry_of (fold lww_put xs t) k = Some y" "e_clock x \<le> e_clock y"
      using lww.puts_covers[OF assms(4) x(1)] x(2) by blast
    have "entry_of s k \<noteq> Some y"
    proof
      assume "entry_of s k = Some y"
      then have "clk_counter (e_clock y) \<le> st_counter s"
        using assms(1) unfolding state_ok_def entry_of_def by blast
      then have "clk_counter (e_clock y) < clk_counter (e_clock x)"
        using assms(3) x(1) le_less_trans by blast
      then show False using y(2) by (auto simp: clock_le_iff)
    qed
    then have "y \<in> set xs" "e_key y = k" using lww.puts_source[OF assms(4) y(1)] same by auto
    then have "y = x" using assms(2) x by (auto simp: distinct_map inj_on_def)
    moreover have "map_of (map (\<lambda>x. (e_key x, x)) xs) k = Some x"
      using dist x by (intro map_of_is_SomeI) auto
    ultimately show ?thesis using y(1) by simp
  next
    case False
    then have "entry_of (fold lww_put xs t) k = entry_of s k"
      using lww.puts_source[OF assms(4), of xs k] lww.puts_None_iff[OF assms(4), of xs k]
        lww.puts_mono[OF assms(4), of k _ xs] same by (cases "entry_of (fold lww_put xs t) k") auto
    moreover have "map_of (map (\<lambda>x. (e_key x, x)) xs) k = None" using False by (auto simp: map_of_eq_None_iff)
    ultimately show ?thesis by simp
  qed
qed

lemma snapshot_keys:
  assumes "state_ok s"
  shows "map e_key (state_snapshot s) = map fst (st_entries s)"
    and "map_of (map (\<lambda>e. (e_key e, e_value e)) (state_snapshot s)) k = state_get k s"
proof -
  have key: "e_key e = k" if "(k, e) \<in> set (st_entries s)" for k e
    using assms that map_of_is_SomeI[OF bm.entries_distinct[of "st_entries s"], of k e]
    unfolding state_ok_def by blast
  then show "map e_key (state_snapshot s) = map fst (st_entries s)"
    by (auto simp: state_snapshot_def bm_values_def)
  have "map (\<lambda>e. (e_key e, e_value e)) (state_snapshot s) = map (\<lambda>(k, e). (k, e_value e)) (st_entries s)"
    using key by (auto simp: state_snapshot_def bm_values_def)
  then show "map_of (map (\<lambda>e. (e_key e, e_value e)) (state_snapshot s)) k = state_get k s"
    by (simp add: state_get_def map_of_map)
qed

lemma restored_entries:
  assumes "state_ok s" and "distinct (map e_key es)" and "unat (st_counter s) + length es < 2 ^ 64"
    and "reclock_entries es s = (xs, t)"
  shows "state_ok (fold lww_put xs t)"
    and "state_get k (fold lww_put xs t) =
      (case map_of (map (\<lambda>e. (e_key e, e_value e)) es) k of Some v \<Rightarrow> Some v | None \<Rightarrow> state_get k s)"
proof -
  note spec = reclock_entries_spec[OF assms(4,3)]
  have "state_ok (s\<lparr>st_counter := n\<rparr>)" if "st_counter s \<le> n" for n
    using assms(1) that by (fastforce simp: state_ok_def)
  then have ok: "state_ok t" using spec by metis
  then show "state_ok (fold lww_put xs t)" by (rule lww.ok_puts)
  have keyed: "map (\<lambda>e. (e_key e, e_value e)) xs = map (\<lambda>e. (e_key e, e_value e)) es"
    using spec by (simp add: list_eq_iff_nth_eq)
  have "map_of (map (\<lambda>e. (e_key e, e_value e)) xs) k = map_option e_value (map_of (map (\<lambda>x. (e_key x, x)) xs) k)"
    by (induction xs) auto
  moreover have "entry_of (fold lww_put xs t) k = (case map_of (map (\<lambda>x. (e_key x, x)) xs) k of
    Some x \<Rightarrow> Some x | None \<Rightarrow> entry_of s k)"
    by (rule newer_puts_win) (use assms(1,2) spec ok in auto)
  ultimately show "state_get k (fold lww_put xs t) =
      (case map_of (map (\<lambda>e. (e_key e, e_value e)) es) k of Some v \<Rightarrow> Some v | None \<Rightarrow> state_get k s)"
    unfolding keyed[symmetric] by (auto simp: state_get_def entry_of_def split: option.splits)
qed

lemma hex_not_slash: "unat n < 16 \<Longrightarrow> hex_lower n \<noteq> CHR ''/''"
proof
  assume n: "unat n < 16" and "hex_lower n = CHR ''/''"
  then have "of_char (hex_lower n) = (47 :: nat)" by simp
  then show False using n by (auto simp: hex_lower_def split: if_splits)
qed

lemma hex_digits: "unat (drop_bit 4 (b :: u8)) < 16" "unat ((b :: u8) AND 15) < 16"
proof -
  have "unat b < 2 ^ LENGTH(8)" by (rule unsigned_less)
  then show "unat (drop_bit 4 b) < 16" by (simp add: unat_drop_bit_eq drop_bit_eq_div unat_div)
  have "b AND 15 = take_bit 4 b" by (simp add: take_bit_eq_mask mask_eq_exp_minus_1)
  then show "unat (b AND 15) < 16" by (simp add: unsigned_take_bit_eq take_bit_eq_mod unat_mod)
qed

lemma new_snapshot_id_plain: "plain (new_snapshot_id now rnd)"
proof -
  have digit: "CHR ''/'' \<notin> set (show_nat n)" for n
    using show_nat_digits[of n] by (auto simp: list_all_iff is_ascii_digit_def)
  have "CHR ''/'' \<notin> set (concat (map hex_byte rnd))"
    using hex_not_slash[OF hex_digits(1), symmetric] hex_not_slash[OF hex_digits(2), symmetric] by (auto simp: hex_byte_def)
  then show ?thesis using digit by (simp add: plain_def new_snapshot_id_def)
qed

text \<open>
  C34: a backup restores. What \<open>create_snapshot\<close> stored for an adapter with the provided methods can be
  restored later, on any well-formed state whose counter leaves room: every key the snapshot held has
  the value it had when the snapshot was taken, whatever was written since, the other keys keep
  theirs, and the state stays well formed.
\<close>

theorem restoring_brings_back:
  assumes "aead_sound c" and "nonces_ok rng" and "kept_files sj root w" and "lists_files sj root ls"
    and "bk_store m = file_store sj ls root" and "plain (da_id a)" and "state_ok s" and "state_ok t"
    and "da_export_snapshot a = (\<lambda>s. Inr (state_snapshot s))" and "da_apply_entries a = default_apply_entries"
    and "create_snapshot c rng fresh now m (data_adapter_backup a) s label w = (Inr md, w')"
    and "\<forall>xs. encrypt_entries c rng (bk_key m) (state_snapshot s) = Inr xs \<longrightarrow>
      json_keeps sj \<lparr>sp_metadata = md, sp_entries = xs\<rparr>"
    and "unat (st_counter t) + length (st_entries s) < 2 ^ 64"
  shows "kept_files sj root w' \<and> (\<exists>u. restore_snapshot c m (data_adapter_backup a) (sm_id md) True (t, x, w') = (Inr md, u, x, w') \<and>
    state_ok u \<and> (\<forall>k. state_get k u = (case state_get k s of Some v \<Rightarrow> Some v | None \<Rightarrow> state_get k t)))"
proof -
  let ?b = "data_adapter_backup a"
  have id: "plain (sm_id md)"
    using assms(11) new_snapshot_id_plain by (auto simp: create_snapshot_def Let_def bindS_Inr)
  have loaded: "(kept_files sj root w' \<and> lists_files sj root ls) \<and>
      load_snapshot_entries c m (da_id a) (sm_id md) w' = (Inr (md, state_snapshot s), w')"
    using filed_store.created_loads[OF assms(1,2,5) conjI[OF assms(3,4)] assms(11)] assms(6,9,12) id
    by (simp add: data_adapter_backup_def)
  obtain xs u where xs: "reclock_entries (state_snapshot s) t = (xs, u)" by fastforce
  have keys: "distinct (map e_key (state_snapshot s))"
    using bm.entries_distinct[of "st_entries s"] assms(7) unfolding snapshot_keys(1)[OF assms(7)] state_ok_def by blast
  have room: "unat (st_counter t) + length (state_snapshot s) < 2 ^ 64"
    using assms(13) by (simp add: state_snapshot_def bm_values_def)
  note result = restored_entries[OF assms(8) keys room xs]
  have "restore_snapshot c m ?b (sm_id md) True (t, x, w') = (Inr md, fold lww_put xs u, x, w')"
    using loaded xs assms(10) merge_snapshot_fold[of xs u]
    by (auto simp: restore_snapshot_def load_snapshot_entries_def data_adapter_backup_def bindS_Inr
        default_apply_entries_def split: prod.splits)
  then show ?thesis
    using loaded result snapshot_keys(2)[OF assms(7)] by auto
qed

section \<open>Restoring through a logical adapter\<close>

text \<open>
  C35: restoring through a logical adapter does not undo edits. The restored record is given a new
  clock, but the clocks of its fields are those of the snapshot; so the merge keeps, for every field
  under the last-writer policy, the value of the state when it was written after the snapshot's, and
  reports success.
\<close>

theorem restore_keeps_newer_fields:
  assumes "state_ok s" and "unat (st_counter s) + 1 < 2 ^ 64"
    and "sn_load (bk_store m) (lc_id a) ident w = (Inr snap, w')"
    and "decrypt_entries c (bk_key m) (sp_entries snap) = Inr [e]"
    and "utf8_record (lc_namespace a) old" and "record_to_entry cd (lc_namespace a) old = Inr e"
    and "codec_keeps cd (payload_of old)" and "record_ok old" and "\<not> r_tombstone old"
    and "rs_get cd (lc_namespace a) (r_schema old) (r_entity old) (r_id old) s = Inr (Some ex)"
    and "record_ok ex" and "\<not> r_tombstone ex"
    and "inc = old\<lparr>r_clock := LamportClock (sat_inc (st_counter s)) (st_device_id s)\<rparr>"
    and "codec_keeps cd (payload_of (merge_into (config_merge_policy a) (config_merge_custom a) inc (Some ex)))"
  shows "\<exists>t r. restore_snapshot c m (data_adapter_backup (logical_wrapper cd (memory_logical cd a))) ident True (s, x, w) =
      (Inr (sp_metadata snap), t, x, w') \<and>
    rs_get cd (lc_namespace a) (r_schema old) (r_entity old) (r_id old) t = Inr (Some r) \<and>
    (\<forall>f v. config_merge_policy a f = LastWriterWins \<longrightarrow> bm_get (r_fields ex) f = Some v \<longrightarrow>
      bm_has (r_field_clocks old) f \<longrightarrow> field_clock old f < field_clock ex f \<longrightarrow> bm_get (r_fields r) f = Some v)"
proof -
  let ?s = "s\<lparr>st_counter := sat_inc (st_counter s)\<rparr>" and ?e = "e\<lparr>e_clock := r_clock inc\<rparr>"
  let ?pol = "config_merge_policy a" and ?cus = "config_merge_custom a"
  have ok: "state_ok ?s" using assms(1) by (auto simp: state_ok_def intro: le_sat_incI)
  have place: "r_schema inc = r_schema old" "r_entity inc = r_entity old" "r_id inc = r_id old"
      "utf8_record (lc_namespace a) inc" "payload_of inc = payload_of old"
    using assms(5,13) by (simp_all add: utf8_record_def payload_of_def)
  have "record_to_entry cd (lc_namespace a) inc = Inr ?e"
    using assms(6,13) by (auto simp: record_to_entry_def Let_def)
  then have one: "entry_to_record cd ?e (lc_namespace a) = Inr (Some inc)"
    using record_entry_roundtrip[OF place(4), of cd] assms(7) place(5) by auto
  have ex: "rs_get cd (lc_namespace a) (r_schema inc) (r_entity inc) (r_id inc) ?s = Inr (Some ex)"
    using assms(10) place by (simp add: rs_get_def)
  obtain b t where merged: "merge_one cd (lc_namespace a) ?pol ?cus inc ?s = (Inr b, t)"
    "rs_get cd (lc_namespace a) (r_schema inc) (r_entity inc) (r_id inc) t = Inr (Some (merge_into ?pol ?cus inc (Some ex)))"
    using merge_one_get[OF ok place(4) ex assms(14)] by blast
  have "record_ok inc" and "\<not> r_tombstone inc"
    using assms(8,9,13) by (simp_all add: record_ok_def)
  note live = merge_records_live(4)[OF assms(12) this(2) assms(11) this(1) refl, where policy = ?pol and custom = ?cus]
  have "bm_get (r_fields (merge_into ?pol ?cus inc (Some ex))) f = Some v"
    if "?pol f = LastWriterWins" "bm_get (r_fields ex) f = Some v" "bm_has (r_field_clocks old) f"
      "field_clock old f < field_clock ex f" for f v
  proof -
    have "field_clock inc f = field_clock old f"
      using that(3) assms(13) by (auto simp: field_clock_def bm_has_def)
    then have "\<not> field_newer ex inc f" using that(2,4) by (simp add: field_newer_def)
    then show ?thesis
      using live[of f] that(1,2) by (auto simp: merge_into_def merge_field_def lww_pick_eq split: option.splits)
  qed
  then show ?thesis
    using merged one assms(3,4,13) place
    by (auto simp: restore_snapshot_def data_adapter_backup_def logical_wrapper_def wrapper_apply_entries_def
        memory_logical_def default_logical_def on_records_def config_apply_snapshot_def apply_snapshot_with_policy_def
        default_data_adapter_def Let_def)
qed

section \<open>The summary of a diff\<close>

text \<open>What the summary is to count, among the keys that satisfy \<open>P\<close>: entries of the snapshot by what
  the state holds for their key, and keys of the state the snapshot does not have.\<close>

definition tally :: "sync_state \<Rightarrow> entry list \<Rightarrow> string list \<Rightarrow> (string \<Rightarrow> bool) \<Rightarrow> diff_counts" where
  "tally s es missing P =
     \<lparr>dc_new = length (filter (\<lambda>e. P (e_key e) \<and> state_get (e_key e) s = None) es),
      dc_changed = length (filter (\<lambda>e. P (e_key e) \<and> state_get (e_key e) s \<notin> {None, Some (e_value e)}) es),
      dc_unchanged = length (filter (\<lambda>e. P (e_key e) \<and> state_get (e_key e) s = Some (e_value e)) es),
      dc_missing = length (filter P missing)\<rparr>"

definition group_counts :: "snapshot_diff \<Rightarrow> string \<Rightarrow> diff_counts" where
  "group_counts d q = (case bm_get (df_by_group d) q of None \<Rightarrow> no_counts | Some g \<Rightarrow> g)"

definition tallied :: "sync_state \<Rightarrow> entry list \<Rightarrow> string list \<Rightarrow> snapshot_diff \<Rightarrow> bool" where
  "tallied s es missing d \<longleftrightarrow> df_overall d = tally s es missing (\<lambda>_. True) \<and>
     (\<forall>q. group_counts d q = tally s es missing (\<lambda>k. diff_group k = Inr q))"

lemmas count_defs = count_new_def count_changed_def count_unchanged_def count_missing_def

lemma tallied_entry:
  "tallied s es [] d \<Longrightarrow> diff_entry s e d = Inr d' \<Longrightarrow> tallied s (es @ [e]) [] d'"
  by (cases "bm_get (st_entries s) (e_key e)")
    (auto simp: tallied_def diff_entry_def count_in_def group_counts_def tally_def state_get_def bm_get_insert
      count_defs split: if_splits)

lemma tallied_missing:
  "tallied s es ks d \<Longrightarrow> diff_missing es k d = Inr d' \<Longrightarrow>
   tallied s es (ks @ filter (\<lambda>k. k \<notin> e_key ` set es) [k]) d'"
  by (auto simp: tallied_def diff_missing_def count_in_def group_counts_def tally_def bm_get_insert
      count_defs split: if_splits)

lemma tallied_entries:
  "tallied s [] [] d \<Longrightarrow> foldR (\<lambda>d e. diff_entry s e d) d es = Inr d' \<Longrightarrow> tallied s es [] d'"
  by (induction es arbitrary: d' rule: rev_induct) (auto simp: foldR_append dest: tallied_entry)

lemma tallied_all_missing:
  "tallied s es [] d \<Longrightarrow> foldR (\<lambda>d k. diff_missing es k d) d ks = Inr d' \<Longrightarrow>
   tallied s es (filter (\<lambda>k. k \<notin> e_key ` set es) ks) d'"
proof (induction ks arbitrary: d' rule: rev_induct)
  case (snoc k ks)
  then obtain d1 where "tallied s es (filter (\<lambda>k. k \<notin> e_key ` set es) ks) d1" "diff_missing es k d1 = Inr d'"
    by (auto simp: foldR_append)
  from tallied_missing[OF this] show ?case by simp
qed simp

text \<open>
  the summary shown before a restore counts right, over all keys and in every group: an entry of
  the snapshot is new, unchanged or changed by what the state holds under its key, the missing ones
  are the state's keys the snapshot does not have, and the totals are the sizes of both sides.
\<close>

theorem diff_counts_exact:
  assumes "summarize_snapshot_diff s es = Inr d"
  shows "df_total_snapshot d = length es \<and> df_total_state d = length (st_entries s) \<and>
    df_overall d = tally s es (filter (\<lambda>k. k \<notin> e_key ` set es) (bm_keys (st_entries s))) (\<lambda>_. True) \<and>
    group_counts d q = tally s es (filter (\<lambda>k. k \<notin> e_key ` set es) (bm_keys (st_entries s))) (\<lambda>k. diff_group k = Inr q) \<and>
    dc_new (df_overall d) + dc_changed (df_overall d) + dc_unchanged (df_overall d) = length es"
proof -
  have kept: "df_total_snapshot d' = df_total_snapshot d \<and> df_total_state d' = df_total_state d"
    if "diff_entry s e d = Inr d' \<or> diff_missing es k d = Inr d'" for e k d d'
    using that by (auto simp: diff_entry_def diff_missing_def count_in_def split: if_splits)
  have totals: "df_total_snapshot d' = df_total_snapshot d \<and> df_total_state d' = df_total_state d"
    if "foldR (\<lambda>d e. diff_entry s e d) d xs = Inr d' \<or> foldR (\<lambda>d k. diff_missing es k d) d ks = Inr d'" for xs ks d d'
    using that
  proof
    assume "foldR (\<lambda>d e. diff_entry s e d) d xs = Inr d'"
    then show ?thesis by (induction xs arbitrary: d) (auto dest!: kept[OF disjI1])
  next
    assume "foldR (\<lambda>d k. diff_missing es k d) d ks = Inr d'"
    then show ?thesis by (induction ks arbitrary: d) (auto dest!: kept[OF disjI2])
  qed
  let ?start = "\<lparr>df_total_snapshot = length es, df_total_state = length (st_entries s), df_overall = no_counts, df_by_group = []\<rparr>"
  obtain d1 where d1: "foldR (\<lambda>d e. diff_entry s e d) ?start es = Inr d1"
      "foldR (\<lambda>d k. diff_missing es k d) d1 (bm_keys (st_entries s)) = Inr d"
    using assms by (auto simp: summarize_snapshot_diff_def)
  have "tallied s [] [] ?start" by (simp add: tallied_def tally_def group_counts_def no_counts_def)
  from tallied_all_missing[OF tallied_entries[OF this d1(1)] d1(2)]
  have all: "tallied s es (filter (\<lambda>k. k \<notin> e_key ` set es) (bm_keys (st_entries s))) d" .
  have "length (filter (\<lambda>e. state_get (e_key e) s = None) es) +
      length (filter (\<lambda>e. state_get (e_key e) s \<notin> {None, Some (e_value e)}) es) +
      length (filter (\<lambda>e. state_get (e_key e) s = Some (e_value e)) es) = length es"
    by (induction es) auto
  then show ?thesis
    using all totals[OF disjI1[OF d1(1)]] totals[OF disjI2[OF d1(2)]] by (simp add: tallied_def tally_def)
qed

section \<open>Witnesses\<close>

definition copy_cipher :: aead where
  "copy_cipher = \<lparr>aead_encrypt = (\<lambda>k n m a. Some m), aead_decrypt = (\<lambda>k n ct a. Some ct)\<rparr>"

definition zero_nonces :: "nat \<Rightarrow> bytes" where
  "zero_nonces = (\<lambda>_. replicate nonce_len 0)"

lemma copy_cipher_ok: "aead_sound copy_cipher" "nonces_ok zero_nonces"
  by (simp_all add: aead_sound_def copy_cipher_def nonces_ok_def zero_nonces_def)

definition sealed_value :: "bytes \<Rightarrow> bytes" where
  "sealed_value v = encryption_version # replicate nonce_len 0 @ v"

lemma copy_encrypts:
  "encrypt_entries copy_cipher zero_nonces key es = Inr (map (\<lambda>e. e\<lparr>e_value := sealed_value (e_value e)\<rparr>) es)"
proof -
  have "encrypt_entries_from copy_cipher zero_nonces i key es = Inr (map (\<lambda>e. e\<lparr>e_value := sealed_value (e_value e)\<rparr>) es)" for i
    by (induction es arbitrary: i) (simp_all add: encrypt_entry_def copy_cipher_def zero_nonces_def sealed_value_def)
  then show ?thesis by (simp add: encrypt_entries_def)
qed

lemma copy_decrypts:
  "decrypt_entries copy_cipher key (map (\<lambda>e. e\<lparr>e_value := sealed_value (e_value e)\<rparr>) es) = Inr es"
  using decrypt_encrypt_entries[OF copy_cipher_ok copy_encrypts] .

text \<open>A listing that gives the files below the directory, by name.\<close>

definition by_name :: "'z dir_listing" where
  "by_name d w = Some (Inr (map Inr (sorted_list_of_set {p. fw_files w p \<noteq> None \<and> (\<exists>x. p = d @ ''/'' @ x)})))"

lemma by_name_lists: "lists_files sj root by_name"
  unfolding lists_files_def
proof (intro allI impI)
  fix w :: "'z files" and a
  assume w: "kept_files sj root w" and a: "plain a"
  have "finite {p. fw_files w p \<noteq> None \<and> (\<exists>x. p = adapter_dir root a @ ''/'' @ x)}"
    using w by (auto simp: kept_files_def intro: finite_subset[rotated])
  moreover have "adapter_dir root a = base root @ a"
    using a by (simp add: adapter_dir_def path_join_plain plain_def)
  ultimately have "set (sorted_list_of_set {p. fw_files w p \<noteq> None \<and> (\<exists>x. p = adapter_dir root a @ ''/'' @ x)}) =
      files_in root a w"
    by (simp add: files_in_def in_dir_def)
  then show "case by_name (adapter_dir root a) w of
      None \<Rightarrow> files_in root a w = {}
    | Some r \<Rightarrow> \<exists>ps. r = Inr (map Inr ps) \<and> distinct ps \<and> set ps = files_in root a w"
    unfolding by_name_def option.case
    by (intro exI conjI) (rule refl, rule distinct_sorted_list_of_set, assumption)
qed

definition no_files :: file_world where
  "no_files = \<lparr>fw_files = Map.empty, fw_faults = [], fw_events = []\<rparr>"

definition stored_entry :: entry where
  "stored_entry = \<lparr>e_key = ''k'', e_value = [7], e_clock = LamportClock 3 ''d''\<rparr>"

definition stored_snapshot :: "string \<Rightarrow> u64 \<Rightarrow> kept_snapshot" where
  "stored_snapshot i at =
     \<lparr>sp_metadata = \<lparr>sm_id = i, sm_adapter_id = ''a'', sm_created = at, sm_entry_count = 1, sm_device = None, sm_label = None,
        sm_note = None\<rparr>,
      sp_entries = [stored_entry\<lparr>e_value := sealed_value [7]\<rparr>]\<rparr>"

definition two_json :: snapshot_json where
  "two_json = \<lparr>sj_to_vec_pretty = (\<lambda>s. Inr (if s = stored_snapshot ''x'' 10 then [1] else [2])),
     sj_from_slice = (\<lambda>bs. Inr (if bs = [1] then stored_snapshot ''x'' 10 else stored_snapshot ''y'' 20))\<rparr>"

definition two_files :: file_world where
  "two_files = no_files\<lparr>fw_files :=
     ((fw_files no_files)(snapshot_path ''/b'' ''a'' ''x'' := Some [1]))(snapshot_path ''/b'' ''a'' ''y'' := Some [2])\<rparr>"

definition two_manager :: "unit files backup_manager" where
  "two_manager = \<lparr>bk_key = AppKey [], bk_store = file_store two_json by_name ''/b''\<rparr>"

lemma plain_names: "plain ''a''" "plain ''x''" "plain ''y''"
  by (simp_all add: plain_def)

lemma no_files_kept: "kept_files sj root no_files"
  by (simp add: kept_files_def no_files_def no_faults_def)

lemma stored_place [simp]:
  "sm_adapter_id (sp_metadata (stored_snapshot i at)) = ''a''" "sm_id (sp_metadata (stored_snapshot i at)) = i"
  by (simp_all add: stored_snapshot_def)

lemma two_files_kept: "kept_files two_json ''/b'' two_files"
proof -
  have "kept_files two_json ''/b'' (no_files\<lparr>fw_files := (fw_files no_files)(snapshot_path ''/b'' ''a'' ''x'' := Some [1])\<rparr>)"
    by (rule kept_files_update[OF no_files_kept plain_names(1,2)]) (simp add: two_json_def)
  from kept_files_update[OF this plain_names(1,3), of "Some [2]"] show ?thesis
    by (simp add: two_json_def two_files_def)
qed

lemma two_files_held:
  "file_held two_json ''/b'' two_files ''a'' i =
     (if i = ''y'' then Some (stored_snapshot ''y'' 20) else if i = ''x'' then Some (stored_snapshot ''x'' 10) else None)"
  using plain_names by (auto simp: file_held_def two_files_def no_files_def two_json_def snapshot_path_inject)

lemma pruning_keeps_newest_witness:
  "\<exists>summary w'. prune_snapshots two_manager ''a'' \<lparr>rp_max_snapshots = Some 1, rp_max_age = None\<rparr> 30 two_files = (Inr summary, w') \<and>
     kept_files two_json ''/b'' w' \<and> pu_remaining summary \<le> 1 \<and>
     pu_remaining summary = card {i. file_held two_json ''/b'' w' ''a'' i \<noteq> None}"
proof -
  have st: "bk_store two_manager = file_store two_json by_name ''/b''" by (simp add: two_manager_def)
  let ?p = "\<lparr>rp_max_snapshots = Some 1, rp_max_age = None\<rparr>"
  obtain summary w' where "prune_snapshots two_manager ''a'' ?p 30 two_files = (Inr summary, w')"
      "kept_files two_json ''/b'' w'" "pu_remaining summary = card {i. file_held two_json ''/b'' w' ''a'' i \<noteq> None}"
      "\<forall>keep. rp_max_snapshots ?p = Some keep \<longrightarrow> pu_remaining summary \<le> keep"
    using pruning_keeps_newest[OF two_files_kept by_name_lists plain_names(1) st, of ?p 30] by blast
  then show ?thesis by auto
qed

lemma reencrypting_keeps_entries_witness:
  "\<exists>n w' xs. reencrypt_snapshots copy_cipher (\<lambda>_. zero_nonces) two_manager ''a'' (AppKey [1]) two_files = (Inr n, w') \<and>
     file_held two_json ''/b'' w' ''a'' ''x'' = Some ((stored_snapshot ''x'' 10)\<lparr>sp_entries := xs\<rparr>) \<and>
     decrypt_entries copy_cipher (AppKey [1]) xs = Inr [stored_entry]"
proof -
  have st: "bk_store two_manager = file_store two_json by_name ''/b''" by (simp add: two_manager_def)
  have sealed: "sp_entries (stored_snapshot i at) = map (\<lambda>e. e\<lparr>e_value := sealed_value (e_value e)\<rparr>) [stored_entry]" for i at
    by (simp add: stored_snapshot_def stored_entry_def)
  have same: "(stored_snapshot i at)\<lparr>sp_entries := map (\<lambda>e. e\<lparr>e_value := sealed_value (e_value e)\<rparr>) [stored_entry]\<rparr> =
      stored_snapshot i at" for i at
    by (simp add: stored_snapshot_def stored_entry_def)
  have "stored_snapshot ''x'' 10 \<noteq> stored_snapshot ''y'' 20" by (simp add: stored_snapshot_def)
  then have json: "json_keeps two_json (stored_snapshot ''x'' 10)" "json_keeps two_json (stored_snapshot ''y'' 20)"
    by (auto simp: json_keeps_def two_json_def)
  have ready: "\<exists>es. decrypt_entries copy_cipher (bk_key two_manager) (sp_entries s) = Inr es \<and>
      (\<forall>n. \<exists>xs. encrypt_entries copy_cipher zero_nonces (AppKey [1]) es = Inr xs \<and> json_keeps two_json (s\<lparr>sp_entries := xs\<rparr>))"
    if "file_held two_json ''/b'' two_files ''a'' i = Some s" for i s
    using that json unfolding two_files_held
    by (intro exI[of _ "[stored_entry]"]) (auto simp del: list.map simp: sealed copy_decrypts copy_encrypts same split: if_splits)
  obtain n w' where "reencrypt_snapshots copy_cipher (\<lambda>_. zero_nonces) two_manager ''a'' (AppKey [1]) two_files = (Inr n, w')"
      "\<forall>i s. file_held two_json ''/b'' two_files ''a'' i = Some s \<longrightarrow>
        (\<exists>xs es. file_held two_json ''/b'' w' ''a'' i = Some (s\<lparr>sp_entries := xs\<rparr>) \<and>
          decrypt_entries copy_cipher (bk_key two_manager) (sp_entries s) = Inr es \<and>
          decrypt_entries copy_cipher (AppKey [1]) xs = Inr es)"
    using reencrypting_keeps_entries[where c = copy_cipher and rng = "\<lambda>_. zero_nonces" and key = "AppKey [1]",
      OF copy_cipher_ok(1) _ two_files_kept by_name_lists plain_names(1) st] ready copy_cipher_ok(2) by blast
  moreover have "file_held two_json ''/b'' two_files ''a'' ''x'' = Some (stored_snapshot ''x'' 10)"
    by (simp add: two_files_held)
  ultimately show ?thesis
    using copy_decrypts[of "bk_key two_manager" "[stored_entry]"] unfolding sealed[symmetric, of "''x''" 10]
    by (metis sum.inject(2))
qed

definition written :: "bytes \<Rightarrow> sync_state" where
  "written v = snd (state_set ''k'' v (state_new [1] ''d''))"

lemma written_ok: "state_ok (written v)"
  by (simp add: written_def state_ok_set state_ok_new)

lemma written_entries: "st_entries (written v) = [(''k'', \<lparr>e_key = ''k'', e_value = v, e_clock = LamportClock 1 ''d''\<rparr>)]"
  by (simp add: written_def state_set_def Let_def state_new_def sat_inc_def u64_max_def)

lemma written_counter: "st_counter (written v) = 1"
  by (simp add: written_def state_set_def Let_def state_new_def sat_inc_def u64_max_def)

definition new_adapter :: "unit data_adapter" where
  "new_adapter = default_data_adapter ''a'' Document (\<lambda>s x. (Inr (), s, x)) (\<lambda>s x. (Inr (), x))"

definition saved_metadata :: snapshot_metadata where
  "saved_metadata = \<lparr>sm_id = new_snapshot_id 5 [0], sm_adapter_id = ''a'', sm_created = 5, sm_entry_count = 1,
     sm_device = Some ''d'', sm_label = None, sm_note = None\<rparr>"

definition saved_snapshot :: kept_snapshot where
  "saved_snapshot = \<lparr>sp_metadata = saved_metadata,
     sp_entries = map (\<lambda>e. e\<lparr>e_value := sealed_value (e_value e)\<rparr>) (state_snapshot (written [7]))\<rparr>"

definition one_json :: snapshot_json where
  "one_json = \<lparr>sj_to_vec_pretty = (\<lambda>_. Inr [1]), sj_from_slice = (\<lambda>_. Inr saved_snapshot)\<rparr>"

definition one_manager :: "unit files backup_manager" where
  "one_manager = \<lparr>bk_key = AppKey [], bk_store = file_store one_json by_name ''/b''\<rparr>"

lemma saved_create:
  "\<exists>w. create_snapshot copy_cipher zero_nonces (5, [0]) 5 one_manager (data_adapter_backup new_adapter) (written [7]) None no_files =
     (Inr saved_metadata, w)"
proof -
  have "ba_export_snapshot (data_adapter_backup new_adapter) (written [7]) = Inr (state_snapshot (written [7]))"
    "ba_id (data_adapter_backup new_adapter) = ''a''" "st_device_id (written [7]) = ''d''"
    "length (state_snapshot (written [7])) = 1"
    by (simp_all add: data_adapter_backup_def new_adapter_def default_data_adapter_def state_snapshot_def bm_values_def
        written_entries) (simp add: written_def state_set_def Let_def state_new_def)
  moreover have "no_faults no_files" by (simp add: no_faults_def no_files_def)
  ultimately show ?thesis
    by (simp add: create_snapshot_def copy_encrypts one_manager_def file_store_def file_save_snapshot_def fs_create_dir_all_def
        next_fault_none fs_write_ok one_json_def saved_metadata_def)
qed

lemma restoring_brings_back_witness:
  "\<exists>w u. restore_snapshot copy_cipher one_manager (data_adapter_backup new_adapter) (sm_id saved_metadata) True
     (written [8], (), w) = (Inr saved_metadata, u, (), w) \<and> state_get ''k'' u = Some [7]"
proof -
  obtain w where w: "create_snapshot copy_cipher zero_nonces (5, [0]) 5 one_manager (data_adapter_backup new_adapter)
      (written [7]) None no_files = (Inr saved_metadata, w)"
    using saved_create by blast
  have st: "bk_store one_manager = file_store one_json by_name ''/b''" by (simp add: one_manager_def)
  have a: "plain (da_id new_adapter)" "da_export_snapshot new_adapter = (\<lambda>s. Inr (state_snapshot s))"
      "da_apply_entries new_adapter = default_apply_entries"
    by (simp_all add: new_adapter_def default_data_adapter_def plain_def)
  have json: "\<forall>xs. encrypt_entries copy_cipher zero_nonces (bk_key one_manager) (state_snapshot (written [7])) = Inr xs \<longrightarrow>
      json_keeps one_json \<lparr>sp_metadata = saved_metadata, sp_entries = xs\<rparr>"
    by (simp add: copy_encrypts json_keeps_def one_json_def saved_snapshot_def)
  have room: "unat (st_counter (written [8])) + length (st_entries (written [7])) < 2 ^ 64"
    by (simp add: written_counter written_entries)
  have "state_get ''k'' (written [7]) = Some [7]" by (simp add: state_get_def written_entries)
  then show ?thesis
    using restoring_brings_back[OF copy_cipher_ok no_files_kept by_name_lists st a(1) written_ok written_ok a(2,3) w json room,
      of "()"] by (metis option.case(2))
qed

section \<open>A restore that brings nothing back\<close>

definition old_note :: sync_record where
  "old_note = note_here\<lparr>r_clock := LamportClock 3 ''d'', r_field_clocks := [(''tags'', LamportClock 3 ''d'')]\<rparr>"

definition new_note :: sync_record where
  "new_note = old_note\<lparr>r_fields := [(''tags'', FBool False)], r_clock := LamportClock 5 ''d'',
     r_field_clocks := [(''tags'', LamportClock 5 ''d'')]\<rparr>"

definition note_codec :: payload_codec where
  "note_codec = \<lparr>encode_payload = (\<lambda>p. Inr (if p = payload_of old_note then [1] else [2])),
     decode_payload = (\<lambda>b. Inr (if b = [1] then payload_of old_note else payload_of new_note))\<rparr>"

definition note_state :: sync_state where
  "note_state = snd (apply_entry \<lparr>e_key = tag_key, e_value = [2], e_clock = LamportClock 5 ''d''\<rparr> (state_new [1] ''d''))"

definition note_snapshot :: kept_snapshot where
  "note_snapshot = \<lparr>sp_metadata = saved_metadata,
     sp_entries = map (\<lambda>e. e\<lparr>e_value := sealed_value (e_value e)\<rparr>) [\<lparr>e_key = tag_key, e_value = [1], e_clock = LamportClock 3 ''d''\<rparr>]\<rparr>"

definition note_manager :: "unit backup_manager" where
  "note_manager = \<lparr>bk_key = AppKey [], bk_store = \<lparr>sn_save = (\<lambda>_ w. (Inr (), w)), sn_load = (\<lambda>_ _ w. (Inr note_snapshot, w)),
     sn_list = (\<lambda>_ w. (Inr [], w)), sn_delete = (\<lambda>_ _ w. (Inr (), w))\<rparr>\<rparr>"

lemma note_place:
  "r_schema old_note = ''s''" "r_entity old_note = ''e''" "r_id old_note = ''1''"
  by (simp_all add: old_note_def note_here_def)

lemma note_stored:
  "st_entries note_state = [(tag_key, \<lparr>e_key = tag_key, e_value = [2], e_clock = LamportClock 5 ''d''\<rparr>)]"
  "st_counter note_state = 5" "st_device_id note_state = ''d''"
  by (simp_all add: note_state_def apply_entry_def Let_def state_new_def observe_clock_def)

lemma note_merged:
  "payload_of (merge_into (\<lambda>_. LastWriterWins) custom
     (old_note\<lparr>r_clock := LamportClock 6 ''d''\<rparr>) (Some new_note)) = payload_of new_note"
  by (simp add: merge_into_def merge_records_def Let_def old_note_def new_note_def note_here_def base_clocks_def bm_keys_def
      bm_has_def merge_field_def field_newer_def merged_clock_def field_clock_def clock_le_iff max_def max_updated_at_def
      stamp_field_clocks_def bm_retain_def payload_of_def)

lemma restore_keeps_newer_fields_witness:
  "\<exists>t r. restore_snapshot copy_cipher note_manager
      (data_adapter_backup (logical_wrapper note_codec (memory_logical note_codec (memory_new ''m'' ''n'')))) ''i'' True
      (note_state, app_start, ()) = (Inr saved_metadata, t, app_start, ()) \<and>
    rs_get note_codec ''n'' ''s'' ''e'' ''1'' t = Inr (Some r) \<and> bm_get (r_fields old_note) ''tags'' = Some (FList [FBool True]) \<and>
    bm_get (r_fields r) ''tags'' = Some (FBool False)"
proof -
  let ?a = "memory_new ''m'' ''n''"
  let ?e = "\<lparr>e_key = tag_key, e_value = [1], e_clock = LamportClock 3 ''d''\<rparr>"
  have cfg: "lc_namespace ?a = ''n''" "lc_id ?a = ''m''" "config_merge_policy ?a = (\<lambda>_. LastWriterWins)"
    by (simp_all add: memory_new_def config_merge_policy_def fun_eq_iff)
  have ok: "state_ok note_state" by (simp add: note_state_def state_ok_apply state_ok_new)
  have room: "unat (st_counter note_state) + 1 < 2 ^ 64" by (simp add: note_stored)
  have load: "sn_load (bk_store note_manager) (lc_id ?a) ''i'' () = (Inr note_snapshot, ())" by (simp add: note_manager_def)
  have dec: "decrypt_entries copy_cipher (bk_key note_manager) (sp_entries note_snapshot) = Inr [?e]"
    by (simp only: note_snapshot_def kept_snapshot.select_convs copy_decrypts)
  have utf8: "utf8_record (lc_namespace ?a) old_note"
    unfolding cfg utf8_record_def note_place by (intro conjI valid_utf8_ascii) simp_all
  have entry: "record_to_entry note_codec (lc_namespace ?a) old_note = Inr ?e"
    by (simp add: record_to_entry_def cfg note_place tag_key_def note_codec_def payload_of_def) (simp add: old_note_def)
  have keeps: "codec_keeps note_codec (payload_of old_note)" by (simp add: codec_keeps_def note_codec_def)
  have rec: "record_ok old_note" "record_ok new_note" "\<not> r_tombstone old_note" "\<not> r_tombstone new_note"
    by (simp_all add: record_ok_def old_note_def new_note_def note_here_def bm_ok_def bm_has_def)
  have ex: "rs_get note_codec (lc_namespace ?a) (r_schema old_note) (r_entity old_note) (r_id old_note) note_state = Inr (Some new_note)"
    by (simp add: rs_get_def note_stored cfg note_place tag_key_def[symmetric] entry_to_record_def parse_tag_key)
      (simp add: note_codec_def payload_of_def new_note_def old_note_def note_here_def)
  have inc: "old_note\<lparr>r_clock := LamportClock 6 ''d''\<rparr> =
      old_note\<lparr>r_clock := LamportClock (sat_inc (st_counter note_state)) (st_device_id note_state)\<rparr>"
    by (simp add: note_stored sat_inc_def u64_max_def)
  have "payload_of new_note \<noteq> payload_of old_note" by (simp add: payload_of_def new_note_def old_note_def note_here_def)
  then have "codec_keeps note_codec (payload_of (merge_into (config_merge_policy ?a) (config_merge_custom ?a)
      (old_note\<lparr>r_clock := LamportClock 6 ''d''\<rparr>) (Some new_note)))"
    unfolding cfg note_merged by (simp add: codec_keeps_def note_codec_def)
  from restore_keeps_newer_fields[OF ok room load dec utf8 entry keeps rec(1,3) ex rec(2,4) inc this, of app_start]
  obtain t r where "restore_snapshot copy_cipher note_manager (data_adapter_backup (logical_wrapper note_codec (memory_logical note_codec ?a)))
      ''i'' True (note_state, app_start, ()) = (Inr (sp_metadata note_snapshot), t, app_start, ())"
    "rs_get note_codec ''n'' ''s'' ''e'' ''1'' t = Inr (Some r)"
    "\<forall>f v. config_merge_policy ?a f = LastWriterWins \<longrightarrow> bm_get (r_fields new_note) f = Some v \<longrightarrow>
      bm_has (r_field_clocks old_note) f \<longrightarrow> field_clock old_note f < field_clock new_note f \<longrightarrow> bm_get (r_fields r) f = Some v"
    unfolding cfg(1) note_place by blast
  moreover have "bm_get (r_fields new_note) ''tags'' = Some (FBool False)" "bm_has (r_field_clocks old_note) ''tags''"
      "field_clock old_note ''tags'' < field_clock new_note ''tags''"
      "bm_get (r_fields old_note) ''tags'' = Some (FList [FBool True])"
    by (simp_all add: new_note_def old_note_def note_here_def bm_has_def field_clock_def clock_less_iff)
  moreover have "sp_metadata note_snapshot = saved_metadata" by (simp add: note_snapshot_def)
  ultimately show ?thesis using cfg(3) by auto
qed

lemma diff_counts_exact_witness:
  "\<exists>d. summarize_snapshot_diff (written [7]) [\<lparr>e_key = ''k'', e_value = [8], e_clock = LamportClock 1 ''d''\<rparr>] = Inr d \<and>
     dc_new (df_overall d) + dc_changed (df_overall d) + dc_unchanged (df_overall d) = 1 \<and> dc_changed (df_overall d) = 1"
proof -
  let ?es = "[\<lparr>e_key = ''k'', e_value = [8], e_clock = LamportClock 1 ''d''\<rparr>]"
  have "parse_record_key ''k'' = Inr None" by (simp add: parse_record_key_def record_prefix_def)
  then obtain d where d: "summarize_snapshot_diff (written [7]) ?es = Inr d"
    by (simp add: summarize_snapshot_diff_def diff_entry_def diff_missing_def diff_group_def written_entries bm_keys_def)
  note exact = diff_counts_exact[OF d]
  have "dc_changed (df_overall d) = 1"
    using exact by (simp add: tally_def state_get_def written_entries)
  moreover have "dc_new (df_overall d) + dc_changed (df_overall d) + dc_unchanged (df_overall d) = 1"
    using exact[of "[]"] by - (elim conjE, simp)
  ultimately show ?thesis using d by blast
qed

end
