(* ===== verification/Momentum.thy ===== *)
theory Momentum
  imports Managed_Records Records Discovery
begin

text \<open>
  The managed adapter of \<open>companion.rs\<close> for the records of the app Momentum, its manifests and the
  catalog of supported apps, and what discovery says about pairing. Library code is the argument
  \<open>momentum_libs\<close>: JSON at the type \<open>SyncRecord\<close>, whether a JSON text is an object, base64, and the
  first bytes a gzip stream expands to.
\<close>

record momentum_libs =
  ml_to_vec :: "sync_record \<Rightarrow> bytes result"
  ml_from_slice :: "bytes \<Rightarrow> sync_record result"
  ml_is_object :: "bytes \<Rightarrow> bool result"
  ml_base64_decode :: "string \<Rightarrow> bytes option"
  ml_gunzip :: "bytes \<Rightarrow> nat \<Rightarrow> bytes result"

definition momentum_app_id :: string where
  "momentum_app_id = ''io.github.dan_hart.Momentum''"

definition max_snapshot_compressed :: nat where
  "max_snapshot_compressed = 32 * 1024 * 1024"

definition max_snapshot_expanded :: nat where
  "max_snapshot_expanded = 128 * 1024 * 1024"

definition momentum_descriptor :: adapter_descriptor where
  "momentum_descriptor =
     \<lparr>ad_id = ''ops'', ad_namespace = momentum_app_id, ad_schema = ''momentum'', ad_transactional = True\<rparr>"

definition momentum_manifest :: app_manifest where
  "momentum_manifest =
     \<lparr>m_app_id = momentum_app_id, m_display_name = ''Momentum'', m_schema_version = 1,
      m_adapters = [momentum_descriptor]\<rparr>"

definition invalid_record :: "string \<Rightarrow> 'a result" where
  "invalid_record msg = fail_code InvalidRecord msg"

section \<open>Records on the wire\<close>

text \<open>The limits are the two constants above, far from where the arithmetic could overflow.\<close>

definition validate_snapshot :: "momentum_libs \<Rightarrow> string \<Rightarrow> nat \<Rightarrow> nat \<Rightarrow> unit result" where
  "validate_snapshot l encoded compressed_limit expanded_limit =
     (if (compressed_limit + 2) div 3 * 4 < length encoded
      then invalid_record ''Momentum snapshot exceeds compressed limit''
      else bindR (ok_or (Protocol ''invalid snapshot base64'') (ml_base64_decode l encoded)) (\<lambda>bytes.
        if compressed_limit < length bytes then invalid_record ''Momentum snapshot exceeds compressed limit''
        else bindR (ml_gunzip l bytes (expanded_limit + 1)) (\<lambda>expanded.
          if expanded_limit < length expanded then invalid_record ''Momentum snapshot exceeds expanded limit''
          else bindR (ml_is_object l expanded) (\<lambda>object.
            if object then Inr () else invalid_record ''Momentum snapshot must contain AppData object''))))"

definition check_operation_field :: "momentum_libs \<Rightarrow> sync_record \<Rightarrow> string \<Rightarrow> unit result" where
  "check_operation_field l r name =
     (case bm_get (r_fields r) name of
        Some (FString s) \<Rightarrow>
          bindR (ml_is_object l (str_bytes s)) (\<lambda>object.
            if object then Inr () else invalid_record ''Momentum operation must be an object'')
      | _ \<Rightarrow> invalid_record ''Momentum operation fields absent'')"

definition check_live_fields :: "momentum_libs \<Rightarrow> sync_record \<Rightarrow> unit result" where
  "check_live_fields l r =
     (case (bm_get (r_fields r) ''t'', bm_get (r_fields r) ''origin'') of
        (Some (FI64 _), Some (FString s)) \<Rightarrow>
          if s = [] then invalid_record ''Momentum timestamp or origin absent''
          else if r_entity r = ''Op''
          then bindR (check_operation_field l r ''op'') (\<lambda>_. check_operation_field l r ''action'')
          else (case bm_get (r_fields r) ''gz_b64'' of
                  Some (FString gz) \<Rightarrow> validate_snapshot l gz max_snapshot_compressed max_snapshot_expanded
                | _ \<Rightarrow> invalid_record ''Momentum snapshot absent'')
      | _ \<Rightarrow> invalid_record ''Momentum timestamp or origin absent'')"

definition momentum_decode :: "momentum_libs \<Rightarrow> managed_record \<Rightarrow> sync_record result" where
  "momentum_decode l wire =
     bindR (ml_from_slice l (mg_value wire)) (\<lambda>r.
       if mg_adapter wire \<noteq> ''ops'' \<or> r_schema r \<noteq> ''momentum'' \<or> r_id r = []
          \<or> r_entity r \<notin> {''Op'', ''Snapshot''} \<or> (r_entity r = ''Snapshot'' \<and> r_id r \<noteq> ''latest'')
          \<or> mg_id wire \<noteq> record_entry_key momentum_app_id (r_schema r) (r_entity r) (r_id r)
          \<or> mg_deleted wire \<noteq> r_tombstone r \<or> mg_clock wire \<noteq> r_clock r
       then invalid_record ''Momentum record envelope or schema mismatch''
       else bindR (if r_tombstone r then Inr () else check_live_fields l r) (\<lambda>_. Inr r))"

definition momentum_encode :: "momentum_libs \<Rightarrow> sync_record \<Rightarrow> managed_record result" where
  "momentum_encode l r =
     bindR (ml_to_vec l r) (\<lambda>bytes.
       let wire = \<lparr>mg_adapter = ''ops'', mg_id = record_entry_key momentum_app_id (r_schema r) (r_entity r) (r_id r),
             mg_value = bytes, mg_deleted = r_tombstone r, mg_clock = r_clock r\<rparr>
       in bindR (momentum_decode l wire) (\<lambda>_. Inr wire))"

section \<open>The adapter\<close>

definition momentum_merge ::
  "momentum_libs \<Rightarrow> (string, managed_record) bmap \<Rightarrow> managed_record \<Rightarrow> (string, managed_record) bmap result" where
  "momentum_merge l merged new =
     bindR (momentum_decode l new) (\<lambda>decoded.
       case bm_get merged (mg_id new) of
         None \<Rightarrow> Inr (bm_insert (mg_id new) new merged)
       | Some old \<Rightarrow>
           bindR (momentum_decode l old) (\<lambda>previous.
             if r_entity decoded = ''Op'' \<and> \<not> r_tombstone decoded \<and> \<not> r_tombstone previous
                \<and> \<not> fvm_eq (r_fields decoded) (r_fields previous)
             then invalid_record ''immutable Momentum operation collision''
             else if mg_clock old = mg_clock new \<and> old \<noteq> new
             then invalid_record ''Momentum collision at equal clock''
             else if r_entity previous = ''Op'' \<and> r_tombstone previous \<and> \<not> r_tombstone decoded
             then Inr merged
             else if mg_clock new \<le> mg_clock old then Inr merged
             else Inr (bm_insert (mg_id new) new merged)))"

definition momentum_local ::
  "momentum_libs \<Rightarrow> (string, managed_record) bmap \<Rightarrow> managed_record \<Rightarrow> (string, managed_record) bmap result" where
  "momentum_local l merged r = bindR (momentum_decode l r) (\<lambda>_. Inr (bm_insert (mg_id r) r merged))"

definition momentum_prepare ::
  "momentum_libs \<Rightarrow> string \<Rightarrow> managed_record list \<Rightarrow> managed_record list \<Rightarrow> u64 \<Rightarrow> prepared_change result" where
  "momentum_prepare l fresh local incoming revision =
     bindR (foldR (momentum_local l) [] local) (\<lambda>held.
     bindR (foldR (momentum_merge l) held incoming) (\<lambda>merged.
       Inr \<lparr>chg_id = fresh, chg_adapter = ''ops'', chg_expected_revision = revision,
            chg_staged = bm_values merged, chg_recovery = local\<rparr>))"

definition momentum_adapter :: "momentum_libs \<Rightarrow> string \<Rightarrow> managed_adapter" where
  "momentum_adapter l fresh = default_adapter momentum_descriptor (momentum_prepare l fresh)"

section \<open>The catalog\<close>

definition notes_manifest :: app_manifest where
  "notes_manifest =
     \<lparr>m_app_id = ''io.libresync.Notes'', m_display_name = ''Local notes sample'', m_schema_version = 1,
      m_adapters = [\<lparr>ad_id = ''records'', ad_namespace = ''io.libresync.Notes'', ad_schema = ''logical-records-v1'',
                     ad_transactional = True\<rparr>]\<rparr>"

record app_support =
  as_manifest :: app_manifest
  as_adapters :: "managed_adapter list"

definition support_validate :: "app_support \<Rightarrow> unit result" where
  "support_validate s =
     bindR (manifest_validate (as_manifest s)) (\<lambda>_.
       let descriptors = sort_key ad_id (map ma_descriptor (as_adapters s));
           declared = sort_key ad_id (m_adapters (as_manifest s))
       in if descriptors \<noteq> declared \<or> list_ex (\<lambda>a. \<not> ad_transactional a) descriptors
          then fail_code InvalidAdapter ''Catalog policies differ from declared schema adapters''
          else Inr ())"

definition default_catalog :: "momentum_libs \<Rightarrow> string \<Rightarrow> app_support list" where
  "default_catalog l fresh =
     [\<lparr>as_manifest = momentum_manifest, as_adapters = [momentum_adapter l fresh]\<rparr>,
      \<lparr>as_manifest = notes_manifest, as_adapters = [records_adapter fresh (hd (m_adapters notes_manifest))]\<rparr>]"

section \<open>What discovery says about pairing\<close>

datatype compatibility =
    Ready | DifferentApp | UpgradeSchema | UpgradePairing | MissingMetadata | PairingClosed | ExpiredInvitation

definition discovery_compatibility ::
  "(app_manifest \<Rightarrow> string result) \<Rightarrow> app_manifest \<Rightarrow> discovered_peer \<Rightarrow> u64 \<Rightarrow> compatibility result" where
  "discovery_compatibility digest manifest peer now =
     (if id_app (dp_identity peer) \<noteq> m_app_id manifest then Inr DifferentApp
      else case dp_advertisement peer of
        None \<Rightarrow> Inr MissingMetadata
      | Some advertisement \<Rightarrow>
          bindR (ad_compatible_with digest advertisement manifest) (\<lambda>compatible.
            if \<not> compatible then Inr UpgradeSchema
            else case dp_invitation peer of
              None \<Rightarrow> Inr PairingClosed
            | Some invitation \<Rightarrow>
                if pd_version invitation \<noteq> pairing_version then Inr UpgradePairing
                else if pd_expires_at invitation \<le> now then Inr ExpiredInvitation
                else Inr Ready))"

section \<open>What merging does\<close>

text \<open>
  What a sequence of Momentum merges does to one record: its clock only grows, a deleted operation
  stays deleted, a live one keeps its fields.
\<close>

lemma f64_eq_trans: "f64_eq a b \<Longrightarrow> f64_eq b c \<Longrightarrow> f64_eq a c"
  by (auto simp: f64_eq_def)

lemma fv_eq_trans:
  "fv_eq a b \<Longrightarrow> fv_eq b c \<Longrightarrow> fv_eq a c"
  "fvs_eq as bs \<Longrightarrow> fvs_eq bs cs \<Longrightarrow> fvs_eq as cs"
  "fvm_eq m n \<Longrightarrow> fvm_eq n p \<Longrightarrow> fvm_eq m p"
proof (induction a and as and m arbitrary: b c and bs cs and n p rule: nan_free_nan_free_list_nan_free_map.induct)
  case (1 x)
  then show ?case by (cases b; cases c) (auto intro: f64_eq_trans)
next
  case (2 xs)
  then show ?case by (cases b; cases c) auto
next
  case (3 m)
  then show ?case by (cases b; cases c) auto
next
  case (6 x xs)
  then show ?case by (cases bs; cases cs) auto
next
  case (8 k x xs)
  then show ?case by (cases n; cases p) auto
next
  case 5
  then show ?case by (cases bs; cases cs) auto
next
  case 7
  then show ?case by (cases n; cases p) auto
qed (case_tac b; case_tac c; auto)+

lemma momentum_decode_Inr:
  "momentum_decode l w = Inr d \<longleftrightarrow>
     ml_from_slice l (mg_value w) = Inr d \<and> mg_adapter w = ''ops'' \<and> r_schema d = ''momentum'' \<and> r_id d \<noteq> [] \<and>
     r_entity d \<in> {''Op'', ''Snapshot''} \<and> (r_entity d = ''Snapshot'' \<longrightarrow> r_id d = ''latest'') \<and>
     mg_id w = record_entry_key momentum_app_id (r_schema d) (r_entity d) (r_id d) \<and>
     mg_deleted w = r_tombstone d \<and> mg_clock w = r_clock d \<and>
     (r_tombstone d \<or> check_live_fields l d = Inr ())"
  by (auto simp: momentum_decode_def invalid_record_def split: if_splits)

lemma momentum_same_entity:
  assumes "momentum_decode l w = Inr d" and "momentum_decode l w' = Inr d'" and "mg_id w = mg_id w'"
  shows "r_entity d = r_entity d'"
  using assms record_entry_key_inject unfolding momentum_decode_Inr by metis

text \<open>\<open>may_become l w w'\<close>: what \<open>w\<close> may have become.\<close>

definition may_become :: "momentum_libs \<Rightarrow> managed_record \<Rightarrow> managed_record \<Rightarrow> bool" where
  "may_become l w w' \<longleftrightarrow> w' = w \<or>
     mg_id w' = mg_id w \<and> mg_clock w < mg_clock w' \<and>
     (\<exists>d d'. momentum_decode l w = Inr d \<and> momentum_decode l w' = Inr d' \<and>
        (r_entity d = ''Op'' \<longrightarrow> (r_tombstone d \<longrightarrow> r_tombstone d') \<and>
           (\<not> r_tombstone d' \<longrightarrow> fvm_eq (r_fields d') (r_fields d))))"

lemma may_become_refl [simp]: "may_become l w w"
  by (simp add: may_become_def)

lemma may_become_trans:
  assumes "may_become l u v" and "may_become l v w"
  shows "may_become l u w"
proof (cases "u = v \<or> v = w")
  case True
  then show ?thesis using assms by auto
next
  case False
  obtain d d' where d: "mg_id v = mg_id u" "mg_clock u < mg_clock v" "momentum_decode l u = Inr d" "momentum_decode l v = Inr d'"
      "r_entity d = ''Op'' \<longrightarrow> (r_tombstone d \<longrightarrow> r_tombstone d') \<and> (\<not> r_tombstone d' \<longrightarrow> fvm_eq (r_fields d') (r_fields d))"
    using assms(1) False by (auto simp: may_become_def)
  obtain e where e: "mg_id w = mg_id v" "mg_clock v < mg_clock w" "momentum_decode l w = Inr e"
      "r_entity d' = ''Op'' \<longrightarrow> (r_tombstone d' \<longrightarrow> r_tombstone e) \<and> (\<not> r_tombstone e \<longrightarrow> fvm_eq (r_fields e) (r_fields d'))"
    using assms(2) False d(4) by (auto simp: may_become_def)
  have "r_entity d = r_entity d'" using momentum_same_entity[OF d(3,4)] d(1) by simp
  then have "r_entity d = ''Op'' \<longrightarrow> (r_tombstone d \<longrightarrow> r_tombstone e) \<and> (\<not> r_tombstone e \<longrightarrow> fvm_eq (r_fields e) (r_fields d))"
    using d(5) e(4) fv_eq_trans(3) by metis
  then show ?thesis using d e less_trans[OF d(2) e(2)] unfolding may_become_def by auto
qed

lemma momentum_merge_Inr:
  assumes "momentum_merge l m new = Inr m'"
  shows "m' = m \<or> m' = bm_insert (mg_id new) new m \<and>
    (\<forall>old. bm_get m (mg_id new) = Some old \<longrightarrow> mg_id old = mg_id new \<longrightarrow> may_become l old new)"
proof (cases "bm_get m (mg_id new)")
  case None
  then show ?thesis using assms by (auto simp: momentum_merge_def)
next
  case (Some old)
  then obtain d p where dp: "momentum_decode l new = Inr d" "momentum_decode l old = Inr p"
    using assms by (auto simp: momentum_merge_def)
  show ?thesis
  proof (cases "m' = m")
    case False
    then have ins: "m' = bm_insert (mg_id new) new m" "mg_clock old < mg_clock new"
        "r_entity p = ''Op'' \<and> r_tombstone p \<longrightarrow> r_tombstone d"
        "r_entity d = ''Op'' \<longrightarrow> \<not> r_tombstone d \<longrightarrow> \<not> r_tombstone p \<longrightarrow> fvm_eq (r_fields d) (r_fields p)"
      using assms dp Some by (auto simp: momentum_merge_def invalid_record_def split: if_splits)
    have "r_entity p = r_entity d" if "mg_id old = mg_id new" using momentum_same_entity[OF dp(2,1) that] .
    then show ?thesis using ins dp Some by (auto simp: may_become_def)
  qed simp
qed

lemma momentum_merges:
  assumes "foldR (momentum_merge l) m ws = Inr m'" and "\<forall>k w. bm_get m k = Some w \<longrightarrow> mg_id w = k"
  shows "(\<forall>k w. bm_get m' k = Some w \<longrightarrow> mg_id w = k) \<and>
    (\<forall>k w. bm_get m k = Some w \<longrightarrow> (\<exists>w'. bm_get m' k = Some w' \<and> may_become l w w')) \<and> (bm_ok m \<longrightarrow> bm_ok m')"
  using assms
proof (induction ws arbitrary: m)
  case (Cons new ws)
  then obtain m1 where m1: "momentum_merge l m new = Inr m1" "foldR (momentum_merge l) m1 ws = Inr m'" by auto
  have keys: "\<forall>k w. bm_get m1 k = Some w \<longrightarrow> mg_id w = k"
    using momentum_merge_Inr[OF m1(1)] Cons.prems(2) by (auto simp: bm_get_insert split: if_splits)
  have grown: "\<exists>w'. bm_get m1 k = Some w' \<and> may_become l w w'" if "bm_get m k = Some w" for k w
    using momentum_merge_Inr[OF m1(1)] Cons.prems(2) that by (cases "k = mg_id new") (auto simp: bm_get_insert)
  have "bm_ok m \<longrightarrow> bm_ok m1" using momentum_merge_Inr[OF m1(1)] by (auto intro: bm_ok_insert)
  moreover have IH: "\<forall>k w. bm_get m' k = Some w \<longrightarrow> mg_id w = k"
    "\<forall>k w. bm_get m1 k = Some w \<longrightarrow> (\<exists>w'. bm_get m' k = Some w' \<and> may_become l w w')" "bm_ok m1 \<longrightarrow> bm_ok m'"
    using Cons.IH[OF m1(2) keys] by - (elim conjE, assumption)+
  moreover have "\<exists>w'. bm_get m' k = Some w' \<and> may_become l w w'" if "bm_get m k = Some w" for k w
  proof -
    note here = grown[OF that]
    obtain w1 where w1: "bm_get m1 k = Some w1" "may_become l w w1" using here by blast
    obtain w2 where "bm_get m' k = Some w2" "may_become l w1 w2" using IH(2) w1(1) by blast
    then show ?thesis using may_become_trans[OF w1(2)] by blast
  qed
  ultimately show ?case by blast
qed simp

lemma momentum_locals:
  assumes "foldR (momentum_local l) m rs = Inr m'" and "distinct (map mg_id rs)"
    and "\<forall>k w. bm_get m k = Some w \<longrightarrow> mg_id w = k"
  shows "(\<forall>k w. bm_get m' k = Some w \<longrightarrow> mg_id w = k) \<and> (\<forall>r \<in> set rs. bm_get m' (mg_id r) = Some r) \<and>
    (\<forall>k. k \<notin> mg_id ` set rs \<longrightarrow> bm_get m' k = bm_get m k) \<and> (bm_ok m \<longrightarrow> bm_ok m')"
  using assms
proof (induction rs arbitrary: m)
  case (Cons r rs)
  have fold: "foldR (momentum_local l) (bm_insert (mg_id r) r m) rs = Inr m'"
    using Cons.prems(1) by (auto simp: momentum_local_def[of l m r])
  have keys: "\<forall>k w. bm_get (bm_insert (mg_id r) r m) k = Some w \<longrightarrow> mg_id w = k"
    using Cons.prems(3) by (auto simp: bm_get_insert split: if_splits)
  have dist: "distinct (map mg_id rs)" "mg_id r \<notin> mg_id ` set rs" using Cons.prems(2) by auto
  have IH: "\<forall>k w. bm_get m' k = Some w \<longrightarrow> mg_id w = k" "\<forall>r \<in> set rs. bm_get m' (mg_id r) = Some r"
    "\<forall>k. k \<notin> mg_id ` set rs \<longrightarrow> bm_get m' k = bm_get (bm_insert (mg_id r) r m) k"
    "bm_ok (bm_insert (mg_id r) r m) \<longrightarrow> bm_ok m'"
    using Cons.IH[OF fold dist(1) keys] by - (elim conjE, assumption)+
  have "bm_get m' (mg_id r) = Some r" using IH(3) dist(2) by (simp add: bm_get_insert)
  moreover have "bm_get m' k = bm_get m k" if "k \<notin> mg_id ` set (r # rs)" for k
    using IH(3)[rule_format, of k] that by (auto simp: bm_get_insert)
  moreover have "bm_ok m \<longrightarrow> bm_ok m'" using IH(4) by (simp add: bm_ok_insert)
  ultimately show ?case using IH(1,2) unfolding list.set(2) by blast
qed simp

end
