(* ===== verification/Companion.thy ===== *)
theory Companion
  imports Momentum Backup Session_Connect Session_Open
begin

text \<open>
  \<open>companion.rs\<close>: the manager of app spaces. It keeps a registry of spaces on disk, one managed
  session per space, and encrypted exports of a space's records. What it calls on a session is the
  record \<open>space_calls\<close>, over any type of sessions; \<open>live_calls\<close> fills it with the managed session of
  the other theories. Files can fail at every operation, as can the key store. JSON and the listing
  of a directory are in \<open>companion_libs\<close>; random ids and clock readings are arguments.
\<close>

section \<open>Files\<close>

text \<open>Calls that change no file of the model: permissions, \<open>fsync\<close>, opening a directory.\<close>

definition fs_call :: "'z files \<Rightarrow> unit result \<times> 'z files" where
  "fs_call w = fs_create_dir_all w"

definition fs_create_new :: "string \<Rightarrow> 'z files \<Rightarrow> unit result \<times> 'z files" where
  "fs_create_new p w =
     (case next_fault w of
        (Some f, w) \<Rightarrow> (Inl (ff_error f), w)
      | (None, w) \<Rightarrow>
          (if path_exists p w then (Inl (Io OtherKind ''File exists (os error 17)''), w)
           else (Inr (), w\<lparr>fw_files := (fw_files w)(p := Some [])\<rparr>)))"

definition fs_rename :: "string \<Rightarrow> string \<Rightarrow> 'z files \<Rightarrow> unit result \<times> 'z files" where
  "fs_rename p q w =
     (case next_fault w of
        (Some f, w) \<Rightarrow> (Inl (ff_error f), w)
      | (None, w) \<Rightarrow>
          (case fw_files w p of
             None \<Rightarrow> (Inl not_found, w)
           | Some bs \<Rightarrow> (Inr (), w\<lparr>fw_files := (fw_files w)(p := None, q := Some bs)\<rparr>)))"

definition private_dir :: "'z files \<Rightarrow> unit result \<times> 'z files" where
  "private_dir w = bindS (fs_create_dir_all w) (\<lambda>_. fs_call)"

text \<open>The file is written beside its place, flushed, and renamed over it.\<close>

definition write_beside :: "string \<Rightarrow> string \<Rightarrow> bytes \<Rightarrow> 'z files \<Rightarrow> unit result \<times> 'z files" where
  "write_beside temp path data w =
     bindS (fs_create_new temp w) (\<lambda>_ w.
     bindS (fs_write temp data w) (\<lambda>_ w.
     bindS (fs_call w) (\<lambda>_ w.
       fs_rename temp path w)))"

definition atomic :: "string \<Rightarrow> string \<Rightarrow> string \<Rightarrow> bytes \<Rightarrow> 'z files \<Rightarrow> unit result \<times> 'z files" where
  "atomic fresh parent name data w =
     (let path = path_join parent name; temp = path_join parent (''.'' @ fresh @ ''.tmp'')
      in bindS (private_dir w) (\<lambda>_ w.
         case write_beside temp path data w of
           (Inl err, w) \<Rightarrow> (Inl err, snd (fs_remove_file temp w))
         | (Inr _, w) \<Rightarrow>
             (case bindS (fs_call w) (\<lambda>_. fs_call) of
                (Inl _, w) \<Rightarrow>
                  (fail_code StorageCommitUncertain
                     ''Companion storage durability is uncertain. Close and reopen for recovery.'',
                   snd (fs_remove_file temp w))
              | (Inr _, w) \<Rightarrow> (Inr (), w))))"

section \<open>Spaces, sessions and the manager\<close>

record app_space =
  asp_id :: string
  asp_manifest :: app_manifest
  asp_paused :: bool
  asp_retain :: nat

type_synonym registry = "(string, app_space) bmap"

record 's space_calls =
  sc_open :: "session_config \<Rightarrow> string \<Rightarrow> (string \<Rightarrow> string) \<Rightarrow> 's result"
  sc_start :: "'s \<Rightarrow> unit result \<times> 's"
  sc_pause :: "'s \<Rightarrow> unit result \<times> 's"
  sc_resume :: "'s \<Rightarrow> unit result \<times> 's"
  sc_shutdown :: "'s \<Rightarrow> unit result \<times> 's"
  sc_connect :: "session_invitation \<Rightarrow> 's \<Rightarrow> unit result \<times> 's"
  sc_remove_peer :: "string \<Rightarrow> 's \<Rightarrow> unit result \<times> 's"
  sc_prune_recovery :: "nat \<Rightarrow> 's \<Rightarrow> unit result \<times> 's"
  sc_snapshot :: "'s \<Rightarrow> session_snapshot result"
  sc_inbox :: "'s \<Rightarrow> application_inbox result"
  sc_recovery :: "'s \<Rightarrow> recovery_snapshot list result"
  sc_discovered :: "'s \<Rightarrow> discovered_peer list result"

record companion_libs =
  cl_registry_to_vec :: "registry \<Rightarrow> bytes result"
  cl_registry_from_slice :: "bytes \<Rightarrow> registry result"
  cl_inbox_to_vec :: "application_inbox \<Rightarrow> bytes result"
  cl_inbox_from_slice :: "bytes \<Rightarrow> application_inbox result"
  cl_names :: "string \<Rightarrow> file_world \<Rightarrow> string result list result option"
  cl_aead :: aead
  cl_digest :: "app_manifest \<Rightarrow> string result"
  cl_record_key :: "string \<Rightarrow> string \<Rightarrow> string result"
  cl_batch_size :: "export_batch \<Rightarrow> nat option"

record 's companion =
  cm_root :: string
  cm_device_name :: string
  cm_advertise :: bool
  cm_registry :: registry
  cm_sessions :: "(string, 's) bmap"
  cm_catalog :: "app_support list"
  cm_fenced :: bool
  cm_files :: file_world
  cm_keys :: "string \<Rightarrow> bytes option"
  cm_key_faults :: "error option list"

definition with_disk :: "(file_world \<Rightarrow> 'a result \<times> file_world) \<Rightarrow> 's companion \<Rightarrow> 'a result \<times> 's companion" where
  "with_disk f c = (case f (cm_files c) of (r, w) \<Rightarrow> (r, c\<lparr>cm_files := w\<rparr>))"

definition key_call :: "('s companion \<Rightarrow> 'a \<times> 's companion) \<Rightarrow> 's companion \<Rightarrow> 'a result \<times> 's companion" where
  "key_call f c =
     (let rest = c\<lparr>cm_key_faults := drop 1 (cm_key_faults c)\<rparr>
      in case cm_key_faults c of
           Some err # _ \<Rightarrow> (Inl err, rest)
         | _ \<Rightarrow> (case f rest of (x, c) \<Rightarrow> (Inr x, c)))"

definition key_get :: "string \<Rightarrow> 's companion \<Rightarrow> bytes option result \<times> 's companion" where
  "key_get name = key_call (\<lambda>c. (cm_keys c name, c))"

definition key_set :: "string \<Rightarrow> bytes \<Rightarrow> 's companion \<Rightarrow> unit result \<times> 's companion" where
  "key_set name v = key_call (\<lambda>c. ((), c\<lparr>cm_keys := (cm_keys c)(name \<mapsto> v)\<rparr>))"

definition registry_path :: "'s companion \<Rightarrow> string" where
  "registry_path c = path_join (cm_root c) ''spaces.json''"

text \<open>\<open>SpaceKeys\<close>: the names a space's session uses in the common key store.\<close>

definition space_key :: "string \<Rightarrow> string \<Rightarrow> string" where
  "space_key prefix name = prefix @ ''-'' @ name"

definition companion_fence :: "'a result" where
  "companion_fence = fail_code StorageCommitUncertain ''Companion fenced; reopen to recover storage''"

text \<open>A call on the session of a space the manager holds.\<close>

definition on_space :: "('s \<Rightarrow> 'a result \<times> 's) \<Rightarrow> string \<Rightarrow> 's companion \<Rightarrow> 'a result \<times> 's companion" where
  "on_space f ident c =
     (case bm_get (cm_sessions c) ident of
        None \<Rightarrow> (Inl (Protocol ''app space absent''), c)
      | Some s \<Rightarrow> (case f s of (r, s) \<Rightarrow> (r, c\<lparr>cm_sessions := bm_insert ident s (cm_sessions c)\<rparr>)))"

definition space_session :: "string \<Rightarrow> 's companion \<Rightarrow> 's result" where
  "space_session ident c =
     (if cm_fenced c then companion_fence
      else ok_or (Protocol ''app space absent'') (bm_get (cm_sessions c) ident))"

section \<open>Opening spaces\<close>

definition with_adapter :: "session_config \<Rightarrow> managed_adapter \<Rightarrow> session_config result" where
  "with_adapter cg a =
     (let d = ma_descriptor a
      in if \<not> ad_transactional d \<or> d \<notin> set (m_adapters (dm_manifest (cg_metadata cg)))
         then fail ''managed adapter descriptor differs from manifest''
         else Inr (cg\<lparr>cg_adapters := bm_insert (ad_id d) a (cg_adapters cg)\<rparr>))"

definition space_config ::
  "companion_libs \<Rightarrow> string \<Rightarrow> 's companion \<Rightarrow> app_space \<Rightarrow> app_support \<Rightarrow> session_config result" where
  "space_config l fresh c space support =
     foldR with_adapter
       ((session_config_new fresh
          \<lparr>dm_display_name = cm_device_name c, dm_device_kind = ''desktop'', dm_role = ''companion'',
           dm_manifest = asp_manifest space\<rparr> (cl_record_key l) (cl_batch_size l))
        \<lparr>cg_advertise := cm_advertise c, cg_recovery_retention := 5\<rparr>)
       (as_adapters support)"

definition open_space ::
  "'s space_calls \<Rightarrow> companion_libs \<Rightarrow> string \<Rightarrow> app_space \<Rightarrow> 's companion \<Rightarrow> 's result" where
  "open_space sc l fresh space c =
     (case find (\<lambda>s. compatible_with (as_manifest s) (asp_manifest space)) (cm_catalog c) of
        None \<Rightarrow> fail_code IncompatibleSchema
          ''This app schema is not supported. Upgrade both apps or install a matching adapter.''
      | Some support \<Rightarrow>
          bindR (space_config l fresh c space support) (\<lambda>cg.
            sc_open sc cg (path_join (path_join (cm_root c) ''spaces'') (asp_id space)) (space_key (asp_id space))))"

definition space_valid :: "string \<Rightarrow> app_space \<Rightarrow> bool" where
  "space_valid ident space \<longleftrightarrow>
     ident = asp_id space \<and> length ident = 32 \<and> list_all is_ascii_hexdigit ident \<and>
     1 \<le> asp_retain space \<and> asp_retain space \<le> 20"

fun open_spaces ::
  "'s space_calls \<Rightarrow> companion_libs \<Rightarrow> string \<Rightarrow> (string \<times> app_space) list \<Rightarrow> 's companion \<Rightarrow> 's companion result" where
  "open_spaces sc l fresh [] c = Inr c"
| "open_spaces sc l fresh ((ident, space) # rest) c =
     (if \<not> space_valid ident space then Inl (Protocol ''invalid companion registry'')
      else bindR (open_space sc l fresh space c) (\<lambda>s.
        case (if asp_paused space then sc_pause sc s else sc_start sc s) of
          (Inl err, _) \<Rightarrow> Inl err
        | (Inr _, s) \<Rightarrow> open_spaces sc l fresh rest (c\<lparr>cm_sessions := bm_insert ident s (cm_sessions c)\<rparr>)))"

text \<open>A registry that does not exist is empty. \<open>canonical\<close> and \<open>lease\<close> are the operating system's
  answers for the directory and its lock file.\<close>

definition read_registry :: "companion_libs \<Rightarrow> string \<Rightarrow> 'z files \<Rightarrow> registry result \<times> 'z files" where
  "read_registry l path w =
     (case fs_read path w of
        (Inr bytes, w) \<Rightarrow> (cl_registry_from_slice l bytes, w)
      | (Inl (Io NotFound _), w) \<Rightarrow> (Inr [], w)
      | (Inl err, w) \<Rightarrow> (Inl err, w))"

definition companion_open ::
  "'s space_calls \<Rightarrow> companion_libs \<Rightarrow> string \<Rightarrow> string result \<Rightarrow> unit result \<Rightarrow> string \<Rightarrow> bool \<Rightarrow> app_support list \<Rightarrow>
   (string \<Rightarrow> bytes option) \<Rightarrow> error option list \<Rightarrow> file_world \<Rightarrow> 's companion result \<times> file_world" where
  "companion_open sc l fresh canonical lease device_name advertise catalog keys key_faults w =
     bindS (foldR (\<lambda>_. support_validate) () catalog, w) (\<lambda>_ w.
     bindS (private_dir w) (\<lambda>_ w.
     bindS (canonical, w) (\<lambda>root w.
     bindS (fs_call w) (\<lambda>_ w.
     bindS (lease, w) (\<lambda>_ w.
     bindS (read_registry l (path_join root ''spaces.json'') w) (\<lambda>registry w.
       (open_spaces sc l fresh registry
          \<lparr>cm_root = root, cm_device_name = device_name, cm_advertise = advertise, cm_registry = registry,
           cm_sessions = [], cm_catalog = catalog, cm_fenced = False, cm_files = w, cm_keys = keys,
           cm_key_faults = key_faults\<rparr>, w)))))))"

section \<open>Changing the registry\<close>

definition is_uncertain :: "error \<Rightarrow> bool" where
  "is_uncertain err = (case err of Managed reason _ \<Rightarrow> reason = StorageCommitUncertain | _ \<Rightarrow> False)"

definition persist_registry ::
  "'s space_calls \<Rightarrow> companion_libs \<Rightarrow> string \<Rightarrow> registry \<Rightarrow> 's companion \<Rightarrow> unit result \<times> 's companion" where
  "persist_registry sc l fresh candidate c =
     (if cm_fenced c then (companion_fence, c)
      else case cl_registry_to_vec l candidate of
             Inl err \<Rightarrow> (Inl err, c)
           | Inr data \<Rightarrow>
               (case with_disk (atomic fresh (cm_root c) ''spaces.json'' data) c of
                  (Inl err, c) \<Rightarrow>
                    (Inl err, if is_uncertain err
                       then c\<lparr>cm_fenced := True, cm_sessions := bm_map (\<lambda>s. snd (sc_shutdown sc s)) (cm_sessions c)\<rparr>
                       else c)
                | (Inr _, c) \<Rightarrow> (Inr (), c\<lparr>cm_registry := candidate\<rparr>)))"

definition add_app ::
  "'s space_calls \<Rightarrow> companion_libs \<Rightarrow> (nat \<Rightarrow> string) \<Rightarrow> app_manifest \<Rightarrow> 's companion \<Rightarrow> string result \<times> 's companion" where
  "add_app sc l rng manifest c =
     bindS (manifest_validate manifest, c) (\<lambda>_ c.
     let space = \<lparr>asp_id = rng 0, asp_manifest = manifest, asp_paused = False, asp_retain = 5\<rparr>
     in bindS (open_space sc l (rng 1) space c, c) (\<lambda>s c.
        case sc_start sc s of
          (Inl err, _) \<Rightarrow> (Inl err, c)
        | (Inr _, s) \<Rightarrow>
            bindS (persist_registry sc l (rng 2) (bm_insert (rng 0) space (cm_registry c)) c) (\<lambda>_ c.
              (Inr (rng 0), c\<lparr>cm_sessions := bm_insert (rng 0) s (cm_sessions c)\<rparr>))))"

definition companion_enroll ::
  "'s space_calls \<Rightarrow> companion_libs \<Rightarrow> (nat \<Rightarrow> string) \<Rightarrow> session_invitation \<Rightarrow> 's companion \<Rightarrow>
   string result \<times> 's companion" where
  "companion_enroll sc l rng iv c =
     bindS (add_app sc l rng (dm_manifest (inv_metadata (si_invitation iv))) c) (\<lambda>ident c.
     bindS (space_session ident c, c) (\<lambda>_ c.
     bindS (on_space (sc_connect sc iv) ident c) (\<lambda>_ c. (Inr ident, c))))"

definition set_paused ::
  "'s space_calls \<Rightarrow> companion_libs \<Rightarrow> string \<Rightarrow> bool \<Rightarrow> string \<Rightarrow> 's companion \<Rightarrow> unit result \<times> 's companion" where
  "set_paused sc l fresh paused ident c =
     bindS (space_session ident c, c) (\<lambda>_ c.
     bindS (ok_or Cancelled (bm_get (cm_registry c) ident), c) (\<lambda>space c.
       persist_registry sc l fresh (bm_insert ident (space\<lparr>asp_paused := paused\<rparr>) (cm_registry c)) c))"

definition companion_pause ::
  "'s space_calls \<Rightarrow> companion_libs \<Rightarrow> string \<Rightarrow> string \<Rightarrow> 's companion \<Rightarrow> unit result \<times> 's companion" where
  "companion_pause sc l fresh ident c =
     bindS (set_paused sc l fresh True ident c) (\<lambda>_. on_space (sc_pause sc) ident)"

definition companion_resume ::
  "'s space_calls \<Rightarrow> companion_libs \<Rightarrow> string \<Rightarrow> string \<Rightarrow> 's companion \<Rightarrow> unit result \<times> 's companion" where
  "companion_resume sc l fresh ident c =
     bindS (set_paused sc l fresh False ident c) (\<lambda>_. on_space (sc_resume sc) ident)"

text \<open>Every peer is removed from the archived space; a failure is reported after it stopped.\<close>

definition revoke_peers :: "'s space_calls \<Rightarrow> string \<Rightarrow> 's companion \<Rightarrow> unit result \<times> 's companion" where
  "revoke_peers sc ident c =
     bindS (bindR (ok_or (Protocol ''app space absent'') (bm_get (cm_sessions c) ident)) (sc_snapshot sc), c) (\<lambda>snap c.
       forS (\<lambda>p. on_space (sc_remove_peer sc (id_device (ps_identity p))) ident) (ss_peers snap) c)"

definition companion_remove ::
  "'s space_calls \<Rightarrow> companion_libs \<Rightarrow> string \<Rightarrow> string \<Rightarrow> 's companion \<Rightarrow> unit result \<times> 's companion" where
  "companion_remove sc l fresh ident c =
     bindS (space_session ident c, c) (\<lambda>_ c.
     bindS (persist_registry sc l fresh (bm_remove ident (cm_registry c)) c) (\<lambda>_ c.
       case revoke_peers sc ident c of (revoke, c) \<Rightarrow>
       case on_space (sc_shutdown sc) ident c of (stop, c) \<Rightarrow>
         (bindR revoke (\<lambda>_. stop), c\<lparr>cm_sessions := bm_remove ident (cm_sessions c)\<rparr>)))"

fun shutdown_spaces ::
  "'s space_calls \<Rightarrow> (string \<times> 's) list \<Rightarrow> error option \<Rightarrow> error option \<times> (string \<times> 's) list" where
  "shutdown_spaces sc [] first = (first, [])"
| "shutdown_spaces sc ((ident, s) # rest) first =
     (case sc_shutdown sc s of
        (r, s) \<Rightarrow>
          (case shutdown_spaces sc rest
                  (case (r, first) of (Inl err, None) \<Rightarrow> Some err | _ \<Rightarrow> first) of
             (first, rest) \<Rightarrow> (first, (ident, s) # rest)))"

definition companion_shutdown :: "'s space_calls \<Rightarrow> 's companion \<Rightarrow> unit result \<times> 's companion" where
  "companion_shutdown sc c =
     (case shutdown_spaces sc (cm_sessions c) None of
        (first, ss) \<Rightarrow>
          (case first of Some err \<Rightarrow> Inl err | None \<Rightarrow> Inr (), c\<lparr>cm_sessions := ss\<rparr>))"

end
