(* ===== verification/Companion_Backup.thy ===== *)
theory Companion_Backup
  imports Companion
begin

text \<open>
  The recovery copies of \<open>companion.rs\<close>: encrypted exports of a space's records under a key of their
  own, their retention and export; what the manager shows of its spaces; and the archive of a legacy
  configuration, which moves whole directories.
\<close>

section \<open>Encrypted exports\<close>

definition backup_dir :: "string \<Rightarrow> 's companion \<Rightarrow> string" where
  "backup_dir ident c = path_join (path_join (cm_root c) ''backups'') ident"

definition ends_with :: "string \<Rightarrow> string \<Rightarrow> bool" where
  "ends_with suffix s \<longleftrightarrow> length suffix \<le> length s \<and> drop (length s - length suffix) s = suffix"

definition backup_name :: "string \<Rightarrow> bool" where
  "backup_name s \<longleftrightarrow> ends_with ''.enc'' s \<and> take 1 s \<noteq> ''.''"

definition companion_backups :: "companion_libs \<Rightarrow> string \<Rightarrow> 's companion \<Rightarrow> string list result" where
  "companion_backups l ident c =
     bindR (space_session ident c) (\<lambda>_.
       case cl_names l (backup_dir ident c) (cm_files c) of
         None \<Rightarrow> Inr []
       | Some listing \<Rightarrow>
           bindR listing (\<lambda>names. bindR (traverseR id names) (\<lambda>names. Inr (sort (filter backup_name names)))))"

definition backup_key_name :: "string \<Rightarrow> string" where
  "backup_key_name ident = ident @ ''-backup-key-v1''"

definition backup_aad :: "string \<Rightarrow> bytes" where
  "backup_aad ident = str_bytes (''libresync-companion-backup-v1:'' @ ident)"

text \<open>A missing key is replaced only where no recovery copy needs the old one.\<close>

definition backup_key ::
  "companion_libs \<Rightarrow> app_key result \<Rightarrow> string \<Rightarrow> 's companion \<Rightarrow> app_key result \<times> 's companion" where
  "backup_key l generated ident c =
     bindS (key_get (backup_key_name ident) c) (\<lambda>found c.
       case found of
         Some bytes \<Rightarrow> (app_key_from_slice bytes, c)
       | None \<Rightarrow>
           bindS (companion_backups l ident c, c) (\<lambda>names c.
             if names \<noteq> []
             then (fail_code StorageUnavailable
               ''Backup key is missing for existing recovery copies. Restore secure storage; no key was replaced.'', c)
             else bindS (generated, c) (\<lambda>key c.
               bindS (key_set (backup_key_name ident) (as_bytes key) c) (\<lambda>_ c. (Inr key, c)))))"

text \<open>\<open>{timestamp:020}\<close>: at least twenty digits.\<close>

definition padded :: "nat \<Rightarrow> nat \<Rightarrow> string" where
  "padded width n = (let s = show_nat n in replicate (width - length s) CHR ''0'' @ s)"

definition new_backup_name :: "nat \<Rightarrow> string \<Rightarrow> string" where
  "new_backup_name millis fresh = padded 20 millis @ ''-'' @ fresh @ ''.enc''"

definition remove_old :: "string \<Rightarrow> nat \<Rightarrow> string list \<Rightarrow> 'z files \<Rightarrow> unit result \<times> 'z files" where
  "remove_old dir retain names = forS (\<lambda>old. fs_remove_file (path_join dir old)) (take (length names - retain) names)"

definition companion_backup ::
  "'s space_calls \<Rightarrow> companion_libs \<Rightarrow> (nat \<Rightarrow> string) \<Rightarrow> bytes \<Rightarrow> app_key result \<Rightarrow> nat result \<Rightarrow> string \<Rightarrow>
   's companion \<Rightarrow> string result \<times> 's companion" where
  "companion_backup sc l rng nonce generated now ident c =
     (let dir = backup_dir ident c
      in bindS (bindR (space_session ident c) (sc_inbox sc), c) (\<lambda>inbox c.
         bindS (backup_key l generated ident c) (\<lambda>key c.
         bindS (bindR (cl_inbox_to_vec l inbox) (\<lambda>plain. encrypt_blob (cl_aead l) nonce key plain (backup_aad ident)), c) (\<lambda>cipher c.
         bindS (now, c) (\<lambda>millis c.
         bindS (with_disk (atomic (rng 1) dir (new_backup_name millis (rng 0)) cipher) c) (\<lambda>_ c.
         bindS (ok_or Cancelled (bm_get (cm_registry c) ident), c) (\<lambda>space c.
         bindS (companion_backups l ident c, c) (\<lambda>names c.
         bindS (with_disk (remove_old dir (asp_retain space) names) c) (\<lambda>_ c.
         bindS (with_disk fs_call c) (\<lambda>_ c.
         bindS (with_disk fs_call c) (\<lambda>_ c.
         bindS (on_space (sc_prune_recovery sc (asp_retain space)) ident c) (\<lambda>_ c.
           (Inr (new_backup_name millis (rng 0)), c)))))))))))))"

definition export_backup ::
  "companion_libs \<Rightarrow> string \<Rightarrow> string \<Rightarrow> 's companion \<Rightarrow> application_inbox result \<times> 's companion" where
  "export_backup l ident name c =
     (let dir = backup_dir ident c
      in bindS (companion_backups l ident c, c) (\<lambda>names c.
         if name \<notin> set names then (Inl (Protocol ''backup absent''), c)
         else
           bindS (key_get (backup_key_name ident) c) (\<lambda>found c.
           bindS (ok_or (Protocol ''backup key unavailable'') found, c) (\<lambda>bytes c.
           bindS (app_key_from_slice bytes, c) (\<lambda>key c.
           bindS (with_disk (fs_read (path_join dir name)) c) (\<lambda>cipher c.
           bindS (decrypt_blob (cl_aead l) key cipher (backup_aad ident), c) (\<lambda>plain c.
             (cl_inbox_from_slice l plain, c))))))))"

definition export_recovery ::
  "'s space_calls \<Rightarrow> string \<Rightarrow> string \<Rightarrow> 's companion \<Rightarrow> recovery_snapshot result" where
  "export_recovery sc ident snapshot c =
     bindR (bindR (space_session ident c) (sc_recovery sc)) (\<lambda>copies.
       ok_or (Protocol ''pre-merge recovery copy absent'') (find (\<lambda>r. rv_id r = snapshot) copies))"

section \<open>What is shown\<close>

record recovery_summary =
  rs_id :: string
  rs_revision :: u64
  rs_records :: nat

record space_snapshot =
  sh_space :: app_space
  sh_session :: session_snapshot
  sh_recovery_copies :: nat
  sh_recovery :: "recovery_summary list"
  sh_backups :: "string list"

definition snapshot_space :: "'s space_calls \<Rightarrow> companion_libs \<Rightarrow> 's companion \<Rightarrow> app_space \<Rightarrow> space_snapshot result" where
  "snapshot_space sc l c space =
     bindR (space_session (asp_id space) c) (\<lambda>s.
     bindR (sc_recovery sc s) (\<lambda>copies.
     bindR (sc_snapshot sc s) (\<lambda>snap.
     bindR (companion_backups l (asp_id space) c) (\<lambda>names.
       Inr \<lparr>sh_space = space, sh_session = snap, sh_recovery_copies = length copies,
            sh_recovery = map (\<lambda>r. \<lparr>rs_id = rv_id r, rs_revision = rv_revision r, rs_records = length (rv_records r)\<rparr>) copies,
            sh_backups = names\<rparr>))))"

definition companion_snapshots :: "'s space_calls \<Rightarrow> companion_libs \<Rightarrow> 's companion \<Rightarrow> space_snapshot list result" where
  "companion_snapshots sc l c = traverseR (snapshot_space sc l c) (bm_values (cm_registry c))"

definition supported_apps :: "'s companion \<Rightarrow> app_manifest list" where
  "supported_apps c = map as_manifest (cm_catalog c)"

definition nearby_devices ::
  "'s space_calls \<Rightarrow> companion_libs \<Rightarrow> u64 result \<Rightarrow> string \<Rightarrow> 's companion \<Rightarrow>
   (discovered_peer \<times> compatibility) list result" where
  "nearby_devices sc l now ident c =
     bindR (ok_or Cancelled (bm_get (cm_registry c) ident)) (\<lambda>space.
     bindR now (\<lambda>now.
     bindR (bindR (space_session ident c) (sc_discovered sc)) (\<lambda>peers.
       traverseR (\<lambda>peer. bindR (discovery_compatibility (cl_digest l) (asp_manifest space) peer now) (\<lambda>compatibility.
         Inr (peer, compatibility))) peers)))"

section \<open>Legacy archives\<close>

text \<open>A directory is the files below it.\<close>

definition below :: "string \<Rightarrow> string \<Rightarrow> bool" where
  "below dir p \<longleftrightarrow> take (length dir + 1) p = dir @ ''/''"

definition fs_rename_dir :: "string \<Rightarrow> string \<Rightarrow> 'z files \<Rightarrow> unit result \<times> 'z files" where
  "fs_rename_dir from to w =
     (case next_fault w of
        (Some f, w) \<Rightarrow> (Inl (ff_error f), w)
      | (None, w) \<Rightarrow>
          (Inr (), w\<lparr>fw_files := (\<lambda>p. if below to p then fw_files w (from @ drop (length to) p)
                                   else if below from p then None else fw_files w p)\<rparr>))"

definition fs_remove_dir_all :: "string \<Rightarrow> 'z files \<Rightarrow> unit result \<times> 'z files" where
  "fs_remove_dir_all dir w =
     (case next_fault w of
        (Some f, w) \<Rightarrow> (Inl (ff_error f), w)
      | (None, w) \<Rightarrow> (Inr (), w\<lparr>fw_files := (\<lambda>p. if below dir p then None else fw_files w p)\<rparr>))"

definition fs_is_file :: "string \<Rightarrow> 'z files \<Rightarrow> bool result \<times> 'z files" where
  "fs_is_file p w =
     (case next_fault w of
        (Some f, w) \<Rightarrow> (Inl (ff_error f), w)
      | (None, w) \<Rightarrow> (if path_exists p w then Inr True else Inl not_found, w))"

text \<open>\<open>Path::parent\<close>.\<close>

definition strip_slashes :: "string \<Rightarrow> string" where
  "strip_slashes p = rev (dropWhile (\<lambda>ch. ch = CHR ''/'') (rev p))"

definition path_parent :: "string \<Rightarrow> string option" where
  "path_parent p =
     (let body = strip_slashes p; dir = rev (dropWhile (\<lambda>ch. ch \<noteq> CHR ''/'') (rev body))
      in if body = [] then None
         else Some (if strip_slashes dir = [] then take 1 dir else strip_slashes dir))"

text \<open>The JSON of a configuration, by its string fields, and the note that goes into an archive.\<close>

record legacy_libs =
  ll_config :: "bytes \<Rightarrow> (string \<Rightarrow> string option) result"
  ll_migration :: "string \<Rightarrow> bytes result"

definition legacy_source :: "string \<Rightarrow> string \<Rightarrow> string" where
  "legacy_source config_path original =
     (if take 1 original = ''/'' then original
      else path_join (case path_parent config_path of None \<Rightarrow> ''.'' | Some p \<Rightarrow> p) original)"

definition copy_legacy ::
  "(nat \<Rightarrow> string) \<Rightarrow> (string \<Rightarrow> string option) \<Rightarrow> string \<Rightarrow> string \<Rightarrow> nat \<times> string \<times> string \<Rightarrow>
   'z files \<Rightarrow> unit result \<times> 'z files" where
  "copy_legacy rng config config_path pending field w =
     (case field of (i, field, name) \<Rightarrow>
      case config field of
        None \<Rightarrow> (Inr (), w)
      | Some original \<Rightarrow>
          (let source = legacy_source config_path original
           in if path_exists source w
              then bindS (fs_read source w) (\<lambda>bytes w. atomic (rng i) pending name bytes w)
              else (Inr (), w)))"

definition fill_archive ::
  "legacy_libs \<Rightarrow> (nat \<Rightarrow> string) \<Rightarrow> bytes \<Rightarrow> (string \<Rightarrow> string option) \<Rightarrow> string \<Rightarrow> string \<Rightarrow>
   'z files \<Rightarrow> unit result \<times> 'z files" where
  "fill_archive ll rng config_bytes config config_path pending w =
     bindS (atomic (rng 2) pending ''config.json'' config_bytes w) (\<lambda>_ w.
     bindS (forS (copy_legacy rng config config_path pending)
              [(3, ''data_path'', ''libresync.json''), (4, ''state_path'', ''state.json'')] w) (\<lambda>_ w.
     bindS (ll_migration ll config_path, w) (\<lambda>note w.
       atomic (rng 5) pending ''migration.json'' note w)))"

definition generated_archive :: "string \<Rightarrow> bool" where
  "generated_archive name \<longleftrightarrow>
     length name = 58 \<and> name ! 25 = CHR ''-'' \<and> list_all is_ascii_digit (take 25 name) \<and>
     list_all is_ascii_hexdigit (drop 26 name)"

text \<open>An entry that is no directory has no file below it, so it is passed over like an incomplete one.\<close>

fun completed_archives :: "string \<Rightarrow> string result list \<Rightarrow> 'z files \<Rightarrow> string list result \<times> 'z files" where
  "completed_archives parent [] w = (Inr [], w)"
| "completed_archives parent (entry # rest) w =
     bindS (entry, w) (\<lambda>name w.
       if generated_archive name
       then (case fs_is_file (path_join (path_join parent name) ''migration.json'') w of
               (Inr is_file, w) \<Rightarrow>
                 bindS (completed_archives parent rest w) (\<lambda>names w. (Inr (if is_file then name # names else names), w))
             | (Inl (Io NotFound _), w) \<Rightarrow> completed_archives parent rest w
             | (Inl err, w) \<Rightarrow> (Inl err, w))
       else completed_archives parent rest w)"

definition archive_legacy ::
  "companion_libs \<Rightarrow> legacy_libs \<Rightarrow> (nat \<Rightarrow> string) \<Rightarrow> nat result \<Rightarrow> string \<Rightarrow> 's companion \<Rightarrow> string result \<times> 's companion" where
  "archive_legacy l ll rng now config_path c =
     with_disk (\<lambda>w.
       let parent = path_join (cm_root c) ''legacy-archives''; pending = path_join parent (''.pending-'' @ rng 0)
       in bindS (fs_read config_path w) (\<lambda>config_bytes w.
          bindS (ll_config ll config_bytes, w) (\<lambda>config w.
          bindS (private_dir w) (\<lambda>_ w.
          bindS (private_dir w) (\<lambda>_ w.
          case fill_archive ll rng config_bytes config config_path pending w of
            (Inl err, w) \<Rightarrow> bindS (fs_remove_dir_all pending w) (\<lambda>_ w. (Inl err, w))
          | (Inr _, w) \<Rightarrow>
              bindS (now, w) (\<lambda>nanos w.
              let archive = path_join parent (padded 25 nanos @ ''-'' @ rng 1)
              in bindS (fs_rename_dir pending archive w) (\<lambda>_ w.
                 bindS (fs_call w) (\<lambda>_ w.
                 bindS (fs_call w) (\<lambda>_ w.
                 bindS (case cl_names l parent (file_world.truncate w) of None \<Rightarrow> Inl not_found | Some r \<Rightarrow> r, w) (\<lambda>entries w.
                 bindS (completed_archives parent entries w) (\<lambda>names w.
                 bindS (forS (\<lambda>old. fs_remove_dir_all (path_join parent old)) (take (length names - 5) (sort names)) w) (\<lambda>_ w.
                 bindS (fs_call w) (\<lambda>_ w.
                 bindS (fs_call w) (\<lambda>_ w. (Inr archive, w))))))))))))))) c"

definition legacy_config_available :: "legacy_libs \<Rightarrow> string \<Rightarrow> 'z files \<Rightarrow> bool \<times> 'z files" where
  "legacy_config_available ll path w =
     (case fs_read path w of
        (Inl _, w) \<Rightarrow> (False, w)
      | (Inr bytes, w) \<Rightarrow>
          (case ll_config ll bytes of
             Inl _ \<Rightarrow> False
           | Inr config \<Rightarrow> config ''app_id'' = Some ''com.codedbydan.libresync'' \<and>
                config ''state_path'' \<noteq> None \<and> config ''data_path'' \<noteq> None, w))"

end
