(* ===== verification/Companion_Live.thy ===== *)
theory Companion_Live
  imports Companion_Backup
begin

text \<open>
  The managed session as what the companion runs behind a space. \<open>live_inputs\<close> holds what the
  operating system, the peers and the random source answer its calls with.
\<close>

record live_session =
  lv_config :: session_config
  lv_env :: session_env
  lv_world :: session_world

record 'p live_inputs =
  li_store :: "string \<Rightarrow> (string \<Rightarrow> string) \<Rightarrow> store_env"
  li_ids :: "string \<times> string"
  li_saves :: "save_outcome list"
  li_env :: "device_keys \<Rightarrow> session_env"
  li_fresh :: "nat \<Rightarrow> string"
  li_bound :: "socket_addr result"
  li_browse :: "unit result"
  li_teardown :: "error list"
  li_crypto :: "'p pair_crypto"
  li_seed :: bytes
  li_pair_ids :: "nat \<Rightarrow> nat \<Rightarrow> string"
  li_conns :: pair_conns
  li_pair_world :: "session_world \<Rightarrow> session_world pair_world"

definition live_do ::
  "(session_env \<Rightarrow> session_config \<Rightarrow> session_world \<Rightarrow> 'a result \<times> session_world) \<Rightarrow> live_session \<Rightarrow>
   unit result \<times> live_session" where
  "live_do f s =
     (case f (lv_env s) (lv_config s) (lv_world s) of (r, w) \<Rightarrow> (bindR r (\<lambda>_. Inr ()), s\<lparr>lv_world := w\<rparr>))"

definition live_open ::
  "'p live_inputs \<Rightarrow> session_config \<Rightarrow> string \<Rightarrow> (string \<Rightarrow> string) \<Rightarrow> live_session result" where
  "live_open li cg dir keys =
     bindR (session_open (li_store li dir keys) cg (fst (li_ids li)) (snd (li_ids li)) (li_saves li))
       (\<lambda>(cg, dk, w). Inr \<lparr>lv_config = cg, lv_env = li_env li dk, lv_world = w\<rparr>)"

definition live_calls :: "'p live_inputs \<Rightarrow> live_session space_calls" where
  "live_calls li =
     \<lparr>sc_open = live_open li,
      sc_start = live_do (\<lambda>se cg. session_start se cg (li_fresh li 0) (li_bound li) (li_browse li)),
      sc_pause = live_do (\<lambda>se cg. session_pause cg (li_fresh li 0) (li_teardown li)),
      sc_resume = live_do (\<lambda>se cg. session_resume se cg (li_fresh li 0) (li_bound li) (li_browse li)),
      sc_shutdown = live_do (\<lambda>se cg. session_shutdown cg (li_fresh li 0) (li_teardown li)),
      sc_connect = (\<lambda>iv. live_do (\<lambda>se cg w.
        case session_connect (li_crypto li) (li_seed li) se cg (li_pair_ids li) iv (li_conns li) (li_pair_world li w) of
          (r, pw) \<Rightarrow> (r, pw_handler pw))),
      sc_remove_peer = (\<lambda>device. live_do (\<lambda>se cg.
        remove_peer se cg (li_fresh li) (li_teardown li) (li_bound li) (li_browse li) device)),
      sc_prune_recovery = (\<lambda>retain. live_do (\<lambda>se cg. prune_recovery_snapshots cg (li_fresh li 0) retain)),
      sc_snapshot = (\<lambda>s. take_snapshot (lv_config s) (lv_world s)),
      sc_inbox = (\<lambda>s. Inr (application_inbox_of (lv_world s))),
      sc_recovery = (\<lambda>s. Inr (recovery_snapshots (lv_world s))),
      sc_discovered = (\<lambda>s. Inr (discovered_peers (lv_world s)))\<rparr>"

section \<open>The contract\<close>

text \<open>What the companion relies on: starting runs a session; pausing and shutting down stop it,
  whatever they report.\<close>

locale space_runtime =
  fixes sc :: "'s space_calls"
    and running :: "'s \<Rightarrow> bool"
  assumes opened: "sc_open sc cg dir keys = Inr s \<Longrightarrow> \<not> running s"
    and started: "sc_start sc s = (Inr (), s') \<Longrightarrow> running s'"
    and resumed: "sc_resume sc s = (Inr (), s') \<Longrightarrow> running s'"
    and paused: "\<not> running (snd (sc_pause sc s))"
    and shut_down: "\<not> running (snd (sc_shutdown sc s))"

definition live_running :: "live_session \<Rightarrow> bool" where
  "live_running s \<longleftrightarrow> sn_runtime (lv_world s) \<noteq> None"

lemma session_stop_runtime: "sn_runtime (snd (session_stop cg fresh phase teardown w)) = None"
  by (auto simp: session_stop_def Let_def wake_def split: prod.split option.split)

lemma session_open_runtime: "session_open st cg ident epoch saves = Inr (cg', dk, w) \<Longrightarrow> sn_runtime w = None"
  by (cases saves; cases "hd saves") (auto simp: session_open_def opened_world_def split: if_splits)

lemma session_start_runtime:
  "session_start se cg fresh bound browse w = (Inr a, w') \<Longrightarrow> sn_runtime w' \<noteq> None"
  by (auto simp: session_start_def bindS_Inr split_beta split: option.splits)

interpretation live: space_runtime "live_calls li" live_running for li
proof (unfold_locales, goal_cases)
  case (1 cg dir keys s)
  then show ?case
    by (auto simp: live_calls_def live_open_def live_running_def dest: session_open_runtime)
next
  case (2 s s')
  then show ?case
    by (auto simp: live_calls_def live_do_def live_running_def split: prod.splits dest: session_start_runtime)
next
  case (3 s s')
  then show ?case
    by (auto simp: live_calls_def live_do_def live_running_def session_resume_def split: prod.splits
        dest: session_start_runtime)
next
  case (4 s)
  then show ?case
    using session_stop_runtime by (auto simp: live_calls_def live_do_def live_running_def session_pause_def split: prod.split)
      (metis snd_conv option.distinct(1))
next
  case (5 s)
  then show ?case
    using session_stop_runtime by (auto simp: live_calls_def live_do_def live_running_def session_shutdown_def split: prod.split)
      (metis snd_conv option.distinct(1))
qed

end
