(* ===== verification/Companion_Invariant.thy ===== *)
theory Companion_Invariant
  imports Companion_Live Backup_Laws
begin

text \<open>
  What the companion's file operations leave alone, and the invariant of the manager: unless it is
  fenced, the registry in memory is the one on disk; a fenced manager runs no session.
\<close>

section \<open>Paths\<close>

lemma path_join_rev: "\<exists>x. rev (path_join p q) = rev q @ x"
  by (auto simp: path_join_def)

lemma path_join_neq:
  assumes "\<And>x y. rev q @ x \<noteq> rev q' @ y"
  shows "path_join p q \<noteq> path_join p' q'"
  using assms path_join_rev by metis

lemma path_join_rel: "take 1 q \<noteq> ''/'' \<Longrightarrow> path_join p q = base p @ q"
  by (cases q) (auto simp: path_join_def base_def)

section \<open>One file under the operations\<close>

abbreviation file_is :: "string \<Rightarrow> bytes option \<Rightarrow> 'z files \<Rightarrow> bool" where
  "file_is p v w \<equiv> fw_files w p = v"

lemma next_fault_files: "next_fault w = (f, w') \<Longrightarrow> fw_files w' = fw_files w"
  by (auto simp: next_fault_def split: list.splits)

lemma file_call_stays [stays]:
  "stays (file_is p v) fs_create_dir_all" "stays (file_is p v) fs_call" "stays (file_is p v) (fs_read q)"
  "stays (file_is p v) (fs_is_file q)"
  by (auto simp: stays_def fs_create_dir_all_def fs_call_def fs_read_def fs_is_file_def next_fault_files
      split: prod.split option.split)

lemma file_write_stays:
  "q \<noteq> p \<Longrightarrow> stays (file_is p v) (fs_create_new q)" "q \<noteq> p \<Longrightarrow> stays (file_is p v) (fs_write q bs)"
  "q \<noteq> p \<Longrightarrow> stays (file_is p v) (fs_remove_file q)"
  by (auto simp: stays_def fs_create_new_def fs_write_def fs_remove_file_def next_fault_files
      split: prod.split option.split)

lemma file_rename_stays: "q \<noteq> p \<Longrightarrow> r \<noteq> p \<Longrightarrow> stays (file_is p v) (fs_rename q r)"
  by (auto simp: stays_def fs_rename_def next_fault_files split: prod.split option.split)

lemma file_dir_stays:
  "\<not> below q p \<Longrightarrow> stays (file_is p v) (fs_remove_dir_all q)"
  "\<not> below q p \<Longrightarrow> \<not> below r p \<Longrightarrow> stays (file_is p v) (fs_rename_dir q r)"
  by (auto simp: stays_def fs_remove_dir_all_def fs_rename_dir_def next_fault_files split: prod.split option.split)

lemma private_dir_stays [stays]: "stays (file_is p v) private_dir"
  unfolding private_dir_def[abs_def] by (intro stays)

lemma forS_stays: "(\<And>x. x \<in> set xs \<Longrightarrow> stays Q (f x)) \<Longrightarrow> stays Q (forS f xs)"
proof (induction xs)
  case Nil
  then show ?case by (simp add: stays_def)
next
  case (Cons x xs)
  then have "stays Q (\<lambda>s. bindS (f x s) (\<lambda>_. forS f xs))" by (intro stays_bindS) auto
  then show ?case by (simp add: stays_def)
qed

lemma write_beside_stays:
  "temp \<noteq> p \<Longrightarrow> path \<noteq> p \<Longrightarrow> stays (file_is p v) (write_beside temp path data)"
  unfolding write_beside_def[abs_def] by (intro stays file_write_stays file_rename_stays)

lemma stays_snd: "stays Q f \<Longrightarrow> stays Q (\<lambda>s. (r, snd (f s)))"
  by (simp add: stays_def)

lemma atomic_stays:
  assumes "path_join parent (''.'' @ fresh @ ''.tmp'') \<noteq> p" and "path_join parent name \<noteq> p"
  shows "stays (file_is p v) (atomic fresh parent name data)"
  unfolding atomic_def[abs_def] Let_def
  by (intro stays write_beside_stays stays_snd file_write_stays assms)

text \<open>The file itself: replaced when the call returns or reports that it may not last, else as before.\<close>

lemma atomic_result:
  assumes "atomic fresh parent name data w = (r, w')" and "path_join parent (''.'' @ fresh @ ''.tmp'') \<noteq> path_join parent name"
  shows "(r = Inr () \<longrightarrow> fw_files w' (path_join parent name) = Some data) \<and>
    (\<forall>err. r = Inl err \<longrightarrow> \<not> is_uncertain err \<longrightarrow> fw_files w' (path_join parent name) = fw_files w (path_join parent name))"
proof -
  let ?t = "path_join parent (''.'' @ fresh @ ''.tmp'')" and ?p = "path_join parent name"
  have gone: "fw_files (snd (fs_remove_file ?t u)) ?p = fw_files u ?p" for u :: "'a files"
    using file_write_stays(3)[OF assms(2)] by (auto simp: stays_def)
  have prep: "fw_files u ?p = fw_files w ?p" if "private_dir w = (x, u)" for x u
    using staysD[OF private_dir_stays refl that] .
  have steps: "fs_create_new ?t u = (x, u') \<Longrightarrow> fw_files u' ?p = fw_files u ?p"
    "fs_write ?t data u = (x, u') \<Longrightarrow> fw_files u' ?p = fw_files u ?p"
    "fs_call u = (x, u') \<Longrightarrow> fw_files u' = fw_files u" for u x and u' :: "'a files"
    using staysD[OF file_write_stays(1)[OF assms(2)] refl] staysD[OF file_write_stays(2)[OF assms(2)] refl]
    by (auto simp: fs_call_def fs_create_dir_all_def next_fault_files split: prod.splits option.splits)
  have sync: "fw_files u' = fw_files u" if "bindS (fs_call u) (\<lambda>_. fs_call) = (x, u')" for u x and u' :: "'a files"
    using that steps(3) by (auto simp: bindS_split split: prod.splits sum.splits)
  have renamed: "fs_rename ?t ?p u = (Inl err, u') \<Longrightarrow> fw_files u' ?p = fw_files u ?p"
    "fs_rename ?t ?p u = (Inr (), u') \<Longrightarrow> fw_files u' ?p = fw_files u ?t" for u err and u' :: "'a files"
    by (auto simp: fs_rename_def next_fault_files split: prod.splits option.splits)
  have written: "fs_write ?t data u = (Inr (), u') \<Longrightarrow> fw_files u' ?t = Some data" for u and u' :: "'a files"
    by (auto simp: fs_write_def next_fault_files split: prod.splits option.splits)
  have failed: "fw_files u' ?p = fw_files u ?p" if "write_beside ?t ?p data u = (Inl err, u')" for err u and u' :: "'a files"
    using that steps renamed(1) by (auto simp: write_beside_def bindS_split split: prod.splits sum.splits)
  have full: "fw_files u' ?p = Some data" if "write_beside ?t ?p data u = (Inr (), u')" for u and u' :: "'a files"
    using that steps(3) renamed(2) written by (auto simp: write_beside_def bindS_Inr)
  obtain x u where u: "private_dir w = (x, u)" by fastforce
  obtain y u1 where u1: "write_beside ?t ?p data u = (y, u1)" by fastforce
  obtain z u2 where u2: "bindS (fs_call u1) (\<lambda>_. fs_call) = (z, u2)" by fastforce
  consider (dir) err where "x = Inl err" | (writing) err where "x = Inr ()" "y = Inl err" | (all) "x = Inr ()" "y = Inr ()"
    by (cases x; cases y) auto
  then show ?thesis
  proof cases
    case dir
    then have "r = x" "w' = u" using assms(1) u by (auto simp: atomic_def Let_def)
    then show ?thesis using dir prep[OF u] by simp
  next
    case writing
    then have "r = y" "w' = snd (fs_remove_file ?t u1)" using assms(1) u u1 by (auto simp: atomic_def Let_def)
    then show ?thesis
      using writing(2) gone[of u1] failed[OF u1[unfolded writing(2)]] prep[OF u] by simp
  next
    case all
    have "fw_files u2 ?p = Some data" using full[OF u1[unfolded all(2)]] sync[OF u2] by simp
    then show ?thesis
      using assms(1) u u1 u2 all by (cases z) (auto simp: atomic_def Let_def is_uncertain_def fail_code_def)
  qed
qed

section \<open>The invariant\<close>

text \<open>
  \<open>manager_ok\<close>: spaces and sessions belong together, the registry on disk is the one in memory, and a
  manager whose storage became uncertain runs nothing.
\<close>

definition disk_registry :: "companion_libs \<Rightarrow> 's companion \<Rightarrow> registry result" where
  "disk_registry l c =
     (case fw_files (cm_files c) (registry_path c) of None \<Rightarrow> Inr [] | Some bs \<Rightarrow> cl_registry_from_slice l bs)"

text \<open>Documented behaviour of \<open>serde_json\<close> at the type of the registry.\<close>

definition registry_json :: "companion_libs \<Rightarrow> bool" where
  "registry_json l \<longleftrightarrow>
     (\<forall>m bs. cl_registry_to_vec l m = Inr bs \<longrightarrow> cl_registry_from_slice l bs = Inr m) \<and>
     (\<forall>m bs. cl_registry_from_slice l bs = Inr m \<longrightarrow> bm_ok m)"

definition durable_registry :: "companion_libs \<Rightarrow> ('s \<Rightarrow> bool) \<Rightarrow> 's companion \<Rightarrow> bool" where
  "durable_registry l running c \<longleftrightarrow>
     bm_ok (cm_registry c) \<and> bm_ok (cm_sessions c) \<and>
     (if cm_fenced c then \<forall>ident s. bm_get (cm_sessions c) ident = Some s \<longrightarrow> \<not> running s
      else disk_registry l c = Inr (cm_registry c))"

definition paired :: "'s companion \<Rightarrow> bool" where
  "paired c \<longleftrightarrow> (\<forall>ident. bm_has (cm_registry c) ident = bm_has (cm_sessions c) ident)"

definition manager_ok :: "companion_libs \<Rightarrow> ('s \<Rightarrow> bool) \<Rightarrow> 's companion \<Rightarrow> bool" where
  "manager_ok l running c \<longleftrightarrow> durable_registry l running c \<and> paired c"

lemma ends_with_iff: "ends_with q s \<longleftrightarrow> (\<exists>x. s = x @ q)"
  by (auto simp: ends_with_def) (metis append_take_drop_id)

lemma registry_neq:
  "path_join p (''.'' @ fresh @ ''.tmp'') \<noteq> path_join q ''spaces.json''"
  "backup_name name \<Longrightarrow> path_join p name \<noteq> path_join q ''spaces.json''"
proof -
  show "path_join p (''.'' @ fresh @ ''.tmp'') \<noteq> path_join q ''spaces.json''"
    by (rule path_join_neq) simp
  assume "backup_name name"
  then obtain x where "name = x @ ''.enc''" by (auto simp: backup_name_def ends_with_iff)
  then show "path_join p name \<noteq> path_join q ''spaces.json''"
    by (intro path_join_neq) simp
qed

section \<open>The manager's steps\<close>

lemma with_disk_keeps:
  assumes "stays (file_is (registry_path c) v) f" and "fw_files (cm_files c) (registry_path c) = v"
    and "with_disk f c = (r, c')"
  shows "c' = c\<lparr>cm_files := cm_files c'\<rparr> \<and> fw_files (cm_files c') (registry_path c) = v"
  using assms by (auto simp: with_disk_def stays_def split: prod.splits)

lemma key_call_frame:
  assumes "key_get name c = (r, c') \<or> key_set name v c = (r', c')"
  shows "cm_registry c' = cm_registry c \<and> cm_sessions c' = cm_sessions c \<and> cm_fenced c' = cm_fenced c \<and>
    cm_files c' = cm_files c \<and> cm_root c' = cm_root c \<and> cm_catalog c' = cm_catalog c"
  using assms by (auto simp: key_get_def key_set_def key_call_def Let_def split: list.splits option.splits)

lemma persist_result:
  assumes "registry_json l" and "durable_registry l running c" and "bm_ok candidate"
    and "\<And>s. \<not> running (snd (sc_shutdown sc s))" and "persist_registry sc l fresh candidate c = (r, c')"
  shows "durable_registry l running c' \<and> bm_keys (cm_sessions c') = bm_keys (cm_sessions c) \<and>
    (r = Inr () \<longrightarrow> \<not> cm_fenced c' \<and> cm_registry c' = candidate \<and> cm_sessions c' = cm_sessions c) \<and>
    (r \<noteq> Inr () \<longrightarrow> cm_registry c' = cm_registry c)"
proof (cases "cm_fenced c \<or> (\<exists>err. cl_registry_to_vec l candidate = Inl err)")
  case True
  then have "c' = c \<and> r \<noteq> Inr ()"
    using assms(5) by (auto simp: persist_registry_def companion_fence_def split: if_splits sum.splits prod.splits)
  then show ?thesis using assms(2) by auto
next
  case False
  then obtain data where data: "cl_registry_to_vec l candidate = Inr data" "\<not> cm_fenced c"
    by (cases "cl_registry_to_vec l candidate") auto
  obtain x w where w: "atomic fresh (cm_root c) ''spaces.json'' data (cm_files c) = (x, w)" by fastforce
  note result = atomic_result[OF w registry_neq(1)]
  show ?thesis
  proof (cases x)
    case (Inr u)
    then have "c' = c\<lparr>cm_files := w, cm_registry := candidate\<rparr>" "r = Inr ()"
      using assms(5) data w by (auto simp: persist_registry_def with_disk_def)
    then show ?thesis
      using assms(1,2,3) data result Inr
      by (simp add: durable_registry_def disk_registry_def registry_path_def registry_json_def)
  next
    case (Inl err)
    show ?thesis
    proof (cases "is_uncertain err")
      case True
      then have "c' = c\<lparr>cm_files := w, cm_fenced := True, cm_sessions := bm_map (\<lambda>s. snd (sc_shutdown sc s)) (cm_sessions c)\<rparr>"
          "r = Inl err"
        using assms(5) data w Inl by (auto simp: persist_registry_def with_disk_def)
      then show ?thesis
        using assms(2,4) by (auto simp: durable_registry_def bm_keys_def bm_keys_map_fst bm_get_map bm_ok_map)
    next
      case False
      then have "c' = c\<lparr>cm_files := w\<rparr>" "r = Inl err"
        using assms(5) data w Inl by (auto simp: persist_registry_def with_disk_def)
      then show ?thesis
        using assms(2) result Inl False data(2)
        by (auto simp: durable_registry_def disk_registry_def registry_path_def)
    qed
  qed
qed

lemma on_space_result:
  assumes "on_space f ident c = (r, c')" and "durable_registry l running c" and "\<not> cm_fenced c"
  shows "durable_registry l running c' \<and> \<not> cm_fenced c' \<and> cm_registry c' = cm_registry c \<and>
    (\<forall>i. bm_has (cm_sessions c') i = bm_has (cm_sessions c) i) \<and> cm_files c' = cm_files c \<and> cm_root c' = cm_root c"
proof (cases "bm_get (cm_sessions c) ident")
  case None
  then show ?thesis using assms by (simp add: on_space_def)
next
  case (Some s)
  then have c': "c' = c\<lparr>cm_sessions := bm_insert ident (snd (f s)) (cm_sessions c)\<rparr>"
    using assms(1) by (auto simp: on_space_def split: prod.splits)
  have "bm_has (cm_sessions c') i = bm_has (cm_sessions c) i" for i
    using Some by (simp add: c' bm_has_def bm_get_insert)
  moreover have "durable_registry l running c'"
    using assms(2,3) by (simp add: c' durable_registry_def disk_registry_def registry_path_def bm_ok_insert)
  ultimately show ?thesis using assms(3) by (simp add: c')
qed

lemma pairedD: "paired c \<Longrightarrow> bm_has (cm_registry c) i = bm_has (cm_sessions c) i"
  by (simp add: paired_def)

lemma bm_has_keys: "bm_has m k \<longleftrightarrow> k \<in> set (bm_keys m)"
  by (simp add: bm_has_def bm_keys_def map_of_eq_None_iff)

lemma space_session_Inr: "space_session ident c = Inr s \<longleftrightarrow> \<not> cm_fenced c \<and> bm_get (cm_sessions c) ident = Some s"
  by (auto simp: space_session_def companion_fence_def)

lemma manager_pause:
  assumes "registry_json l" and "\<And>s. \<not> running (snd (sc_shutdown sc s))" and "manager_ok l running c"
    and "set_paused sc l fresh p ident c = (r, c')"
  shows "manager_ok l running c' \<and> (r = Inr () \<longrightarrow> \<not> cm_fenced c')"
proof -
  have ok: "durable_registry l running c" "paired c" using assms(3) by (simp_all add: manager_ok_def)
  show ?thesis
  proof (cases "\<exists>s space. space_session ident c = Inr s \<and> bm_get (cm_registry c) ident = Some space")
    case False
    then have "c' = c \<and> r \<noteq> Inr ()"
      using assms(4) by (auto simp: set_paused_def bindS_split split: sum.splits prod.splits)
    then show ?thesis using assms(3) by auto
  next
    case True
    then obtain s space where s: "space_session ident c = Inr s" "bm_get (cm_registry c) ident = Some space" by blast
    let ?cand = "bm_insert ident (space\<lparr>asp_paused := p\<rparr>) (cm_registry c)"
    have run: "persist_registry sc l fresh ?cand c = (r, c')" using assms(4) s by (simp add: set_paused_def)
    have "bm_ok ?cand" using ok(1) by (simp add: durable_registry_def bm_ok_insert)
    note res = persist_result[OF assms(1) ok(1) this assms(2) run]
    have "bm_has ?cand i = bm_has (cm_registry c) i" for i
      using s(2) by (auto simp: bm_has_def bm_get_insert)
    then have "paired c'" using res ok(2) bm_has_keys by (cases "r = Inr ()") (auto simp: paired_def bm_has_keys[of "cm_sessions _"])
    then show ?thesis using res by (auto simp: manager_ok_def)
  qed
qed

text \<open>The invariant of a manager of the directory \<open>root\<close>, as long as it may use its sessions.\<close>

definition active :: "companion_libs \<Rightarrow> ('s \<Rightarrow> bool) \<Rightarrow> string \<Rightarrow> 's companion \<Rightarrow> bool" where
  "active l running root c \<longleftrightarrow> manager_ok l running c \<and> \<not> cm_fenced c \<and> cm_root c = root"

lemma manager_frame:
  assumes "cm_registry c' = cm_registry c" and "cm_sessions c' = cm_sessions c" and "cm_fenced c' = cm_fenced c"
    and "cm_root c' = cm_root c"
    and "fw_files (cm_files c') (path_join (cm_root c) ''spaces.json'') = fw_files (cm_files c) (path_join (cm_root c) ''spaces.json'')"
  shows "manager_ok l running c' = manager_ok l running c"
  using assms by (simp add: manager_ok_def durable_registry_def disk_registry_def registry_path_def paired_def)

lemma disk_stays:
  assumes "\<And>v. stays (file_is (path_join root ''spaces.json'') v) f"
  shows "stays (active l running root) (with_disk f)"
    and "stays (\<lambda>c. manager_ok l running c \<and> cm_root c = root) (with_disk f)"
proof -
  have frame: "manager_ok l running (snd (with_disk f c)) = manager_ok l running c \<and> cm_root (snd (with_disk f c)) = root \<and>
      cm_fenced (snd (with_disk f c)) = cm_fenced c" if "cm_root c = root" for c
  proof -
    obtain r w where w: "f (cm_files c) = (r, w)" by fastforce
    then have c': "snd (with_disk f c) = c\<lparr>cm_files := w\<rparr>" by (simp add: with_disk_def)
    have "fw_files w (path_join root ''spaces.json'') = fw_files (cm_files c) (path_join root ''spaces.json'')"
      using staysD[OF assms refl w] .
    then show ?thesis unfolding c' using that by (subst manager_frame[of _ c]) simp_all
  qed
  show "stays (active l running root) (with_disk f)"
    by (rule staysI) (simp add: active_def frame)
  show "stays (\<lambda>c. manager_ok l running c \<and> cm_root c = root) (with_disk f)"
    by (rule staysI) (simp add: frame)
qed

lemma key_stays [stays]:
  "stays (active l running root) (key_get name)" "stays (active l running root) (key_set name v)"
proof -
  have "active l running root c' = active l running root c"
    if "key_get name c = (r, c') \<or> key_set name v c = (r', c')" for c c' r r'
    using key_call_frame[OF that] manager_frame[of c' c l running] by (simp add: active_def)
  then show "stays (active l running root) (key_get name)" "stays (active l running root) (key_set name v)"
    by (metis staysI surj_pair snd_conv)+
qed

lemma space_stays [stays]: "stays (active l running root) (on_space f ident)"
proof (rule staysI)
  fix c
  assume c: "active l running root c"
  obtain r c' where run: "on_space f ident c = (r, c')" by fastforce
  note res = on_space_result[OF run, of l running]
  show "active l running root (snd (on_space f ident c))"
    using c res by (simp add: run active_def manager_ok_def paired_def)
qed

text \<open>An operation that first asks for the session of a space.\<close>

lemma with_session:
  assumes "manager_ok l running c" and "\<And>x. stays (active l running (cm_root c)) (g x)"
  shows "manager_ok l running (snd (bindS (bindR (space_session ident c) f, c) g))"
proof (cases "bindR (space_session ident c) f")
  case (Inr x)
  then have "\<not> cm_fenced c" by (auto simp: space_session_Inr)
  then have "active l running (cm_root c) c" using assms(1) by (simp add: active_def)
  then have "active l running (cm_root c) (snd (g x c))" by (rule stays_apply[OF assms(2)])
  then show ?thesis unfolding Inr by (simp add: active_def)
qed (use assms(1) in simp)

section \<open>Every call keeps the invariant\<close>

lemma backup_name_new: "backup_name (new_backup_name millis fresh)"
proof -
  have "new_backup_name millis fresh = (padded 20 millis @ ''-'' @ fresh) @ ''.enc''" by (simp add: new_backup_name_def)
  moreover have "take 1 (padded 20 millis @ x) \<noteq> ''.''" for x
  proof -
    have "hd (padded 20 millis) \<noteq> CHR ''.'' \<and> padded 20 millis \<noteq> []"
    proof (cases "20 - length (show_nat millis)")
      case 0
      have "is_ascii_digit (hd (show_nat millis))"
        using show_nat_digits[of millis] hd_in_set[of "show_nat millis"] by (simp add: list_all_iff)
      then show ?thesis using 0 by (auto simp: padded_def Let_def is_ascii_digit_def)
    qed (simp add: padded_def Let_def)
    then show ?thesis by (cases "padded 20 millis") auto
  qed
  ultimately show ?thesis
    unfolding backup_name_def ends_with_iff by (metis append_assoc)
qed

lemma backup_key_stays [stays]: "stays (active l running root) (backup_key l' generated ident)"
  unfolding backup_key_def[abs_def] by (intro stays)

lemma stays_bind_read:
  "(\<And>c x. Q c \<Longrightarrow> f c = Inr x \<Longrightarrow> stays Q (g x)) \<Longrightarrow> stays Q (\<lambda>c. bindS (f c, c) g)"
  by (auto simp: stays_def bindS_split split: sum.splits)

lemma backups_names: "companion_backups l ident c = Inr names \<Longrightarrow> list_all backup_name names"
  by (auto simp: companion_backups_def list_all_iff split: option.splits)

lemma remove_old_stays:
  "list_all backup_name names \<Longrightarrow> stays (file_is (path_join root ''spaces.json'') v) (remove_old dir n names)"
  unfolding remove_old_def
  by (rule forS_stays) (auto simp: list_all_iff dest!: in_set_takeD intro!: file_write_stays registry_neq)

lemma backup_keeps:
  assumes "manager_ok l running c"
  shows "manager_ok l running (snd (companion_backup sc lib rng nonce generated now ident c))"
proof -
  have atomic: "stays (active l running (cm_root c)) (with_disk (atomic fresh dir (new_backup_name millis r) data))"
    for fresh dir millis r data
    by (intro disk_stays atomic_stays registry_neq backup_name_new)
  have tail: "stays (active l running (cm_root c)) (\<lambda>d. bindS (companion_backups lib ident d, d) (\<lambda>names d.
      bindS (with_disk (remove_old dir n names) d) (\<lambda>_ d. h d)))"
    if "stays (active l running (cm_root c)) h" for dir n h
    by (rule stays_bind_read, rule stays_bindS, rule disk_stays, rule remove_old_stays, erule backups_names, rule that)
  have "stays (active l running (cm_root c)) (with_disk fs_call)" by (intro disk_stays stays)
  then have "stays (active l running (cm_root c)) (\<lambda>d. bindS (with_disk fs_call d) (\<lambda>_ d. bindS (with_disk fs_call d) (\<lambda>_ d.
      bindS (on_space (sc_prune_recovery sc n) ident d) (\<lambda>_ d. (Inr name, d)))))" for n name
    by (intro stays)
  note rest = tail[OF this]
  show ?thesis
    unfolding companion_backup_def Let_def
    by (rule with_session[OF assms], rule stays_bindS, rule backup_key_stays, rule stays_bindS, rule stays_pure,
        rule stays_bindS, rule stays_pure, rule stays_bindS, rule atomic, rule stays_bindS, rule stays_read, rule rest)
qed

lemma copy_export_keeps:
  assumes "manager_ok l running c"
  shows "manager_ok l running (snd (export_backup lib ident name c))"
proof -
  have "stays (\<lambda>d. manager_ok l running d \<and> cm_root d = cm_root c) (key_get n)" for n
  proof (rule staysI)
    fix d
    assume d: "manager_ok l running d \<and> cm_root d = cm_root c"
    obtain r d' where run: "key_get n d = (r, d')" by fastforce
    show "manager_ok l running (snd (key_get n d)) \<and> cm_root (snd (key_get n d)) = cm_root c"
      using key_call_frame[OF disjI1[OF run]] manager_frame[of d' d l running] d by (simp add: run)
  qed
  moreover have "stays (\<lambda>d. manager_ok l running d \<and> cm_root d = cm_root c) (with_disk (fs_read p))" for p
    by (intro disk_stays stays)
  ultimately have "stays (\<lambda>d. manager_ok l running d \<and> cm_root d = cm_root c) (\<lambda>d. bindS (companion_backups lib ident d, d) (\<lambda>names d.
         if name \<notin> set names then (Inl (Protocol ''backup absent''), d)
         else bindS (key_get (backup_key_name ident) d) (\<lambda>found d.
           bindS (ok_or (Protocol ''backup key unavailable'') found, d) (\<lambda>bytes d.
           bindS (app_key_from_slice bytes, d) (\<lambda>key d.
           bindS (with_disk (fs_read (path_join dir name)) d) (\<lambda>cipher d.
           bindS (decrypt_blob (cl_aead lib) key cipher (backup_aad ident), d) (\<lambda>plain d.
             (cl_inbox_from_slice lib plain, d))))))))" for dir
    by (intro stays)
  from stays_apply[OF this, of c] show ?thesis using assms by (simp add: export_backup_def)
qed

lemma add_app_keeps:
  assumes "registry_json lib" and "\<And>s. \<not> running (snd (sc_shutdown sc s))" and "manager_ok lib running c"
    and "add_app sc lib rng manifest c = (r, c')"
  shows "manager_ok lib running c' \<and> (is_ok r \<longrightarrow> \<not> cm_fenced c')"
proof -
  have ok: "durable_registry lib running c" "paired c" using assms(3) by (simp_all add: manager_ok_def)
  let ?space = "\<lparr>asp_id = rng 0, asp_manifest = manifest, asp_paused = False, asp_retain = 5\<rparr>"
  let ?cand = "bm_insert (rng 0) ?space (cm_registry c)"
  show ?thesis
  proof (cases "\<exists>s s'. manifest_validate manifest = Inr () \<and> open_space sc lib (rng 1) ?space c = Inr s \<and> sc_start sc s = (Inr (), s')")
    case False
    then have "c' = c \<and> \<not> is_ok r"
      using assms(4) by (auto simp: add_app_def Let_def bindS_split is_ok_iff split: sum.splits prod.splits)
    then show ?thesis using assms(3) by auto
  next
    case True
    then obtain s s' where s: "manifest_validate manifest = Inr ()" "open_space sc lib (rng 1) ?space c = Inr s"
        "sc_start sc s = (Inr (), s')" by blast
    obtain x d where run: "persist_registry sc lib (rng 2) ?cand c = (x, d)" by fastforce
    have cand: "bm_ok ?cand" using ok(1) by (simp add: durable_registry_def bm_ok_insert)
    note res = persist_result[OF assms(1) ok(1) cand assms(2) run]
    show ?thesis
    proof (cases x)
      case (Inl err)
      then have "c' = d" "r = Inl err" using assms(4) s run by (simp_all add: add_app_def Let_def)
      then show ?thesis
        using res ok(2) Inl by (auto simp: manager_ok_def paired_def bm_has_keys[of "cm_sessions _"] is_ok_iff)
    next
      case (Inr u)
      then have c': "c' = d\<lparr>cm_sessions := bm_insert (rng 0) s' (cm_sessions d)\<rparr>"
        using assms(4) s run by (simp add: add_app_def Let_def)
      have "paired c'" using res ok(2) Inr by (auto simp: c' paired_def bm_has_def bm_get_insert)
      moreover have "durable_registry lib running c'"
        using res Inr by (auto simp: c' durable_registry_def disk_registry_def registry_path_def bm_ok_insert)
      ultimately show ?thesis using res Inr by (simp add: c' manager_ok_def)
    qed
  qed
qed

lemma on_space_keeps:
  "manager_ok l running c \<Longrightarrow> \<not> cm_fenced c \<Longrightarrow> manager_ok l running (snd (on_space f ident c))"
  using stays_apply[OF space_stays, of l running "cm_root c" c f ident] by (simp add: active_def)

lemma space_enroll_keeps:
  assumes "registry_json lib" and "\<And>s. \<not> running (snd (sc_shutdown sc s))" and "manager_ok lib running c"
  shows "manager_ok lib running (snd (companion_enroll sc lib rng iv c))"
proof -
  obtain r c1 where run: "add_app sc lib rng (dm_manifest (inv_metadata (si_invitation iv))) c = (r, c1)" by fastforce
  note kept = add_app_keeps[OF assms run]
  show ?thesis
  proof (cases r)
    case (Inr ident)
    have "manager_ok lib running (snd (bindS (bindR (space_session ident c1) Inr, c1) (\<lambda>_ c.
        bindS (on_space (sc_connect sc iv) ident c) (\<lambda>_ c. (Inr ident, c)))))"
      by (rule with_session) (use kept in \<open>auto intro: stays\<close>)
    moreover have "bindR (space_session ident c1) Inr = space_session ident c1" by (cases "space_session ident c1") auto
    ultimately show ?thesis using run Inr by (simp add: companion_enroll_def)
  qed (use run kept in \<open>simp add: companion_enroll_def\<close>)
qed

lemma pause_keeps:
  assumes "registry_json lib" and "\<And>s. \<not> running (snd (sc_shutdown sc s))" and "manager_ok lib running c"
  shows "manager_ok lib running (snd (companion_pause sc lib fresh ident c))"
    and "manager_ok lib running (snd (companion_resume sc lib fresh ident c))"
proof -
  have "manager_ok lib running (snd (bindS (set_paused sc lib fresh p ident c) (\<lambda>_. on_space f ident)))" for p f
  proof -
    obtain r c1 where run: "set_paused sc lib fresh p ident c = (r, c1)" by fastforce
    note kept = manager_pause[where running = running, OF assms run]
    show ?thesis using kept on_space_keeps[of lib running c1] by (cases r) (auto simp: run)
  qed
  then show "manager_ok lib running (snd (companion_pause sc lib fresh ident c))"
    and "manager_ok lib running (snd (companion_resume sc lib fresh ident c))"
    by (simp_all add: companion_pause_def companion_resume_def)
qed

text \<open>Between the registry and the sessions, a removal keeps the rest of the invariant.\<close>

definition removing :: "companion_libs \<Rightarrow> ('s \<Rightarrow> bool) \<Rightarrow> registry \<Rightarrow> string list \<Rightarrow> 's companion \<Rightarrow> bool" where
  "removing l running reg ids c \<longleftrightarrow> durable_registry l running c \<and> \<not> cm_fenced c \<and> cm_registry c = reg \<and>
     (\<forall>i. bm_has (cm_sessions c) i \<longleftrightarrow> i \<in> set ids)"

lemma removing_stays: "stays (removing l running reg ids) (on_space f ident)"
proof (rule staysI)
  fix c
  assume c: "removing l running reg ids c"
  obtain r c' where run: "on_space f ident c = (r, c')" by fastforce
  show "removing l running reg ids (snd (on_space f ident c))"
    using on_space_result[OF run, of l running] c by (simp add: run removing_def)
qed

lemma revoke_stays: "stays (removing l running reg ids) (revoke_peers sc ident)"
  unfolding revoke_peers_def[abs_def] by (rule stays_bindS, rule stays_read, rule forS_stays, rule removing_stays)

lemma space_remove_keeps:
  assumes "registry_json lib" and "\<And>s. \<not> running (snd (sc_shutdown sc s))" and "manager_ok lib running c"
  shows "manager_ok lib running (snd (companion_remove sc lib fresh ident c))"
proof (cases "space_session ident c")
  case (Inl err)
  then show ?thesis using assms(3) by (simp add: companion_remove_def)
next
  case (Inr s)
  have ok: "durable_registry lib running c" "paired c" using assms(3) by (simp_all add: manager_ok_def)
  obtain r c1 where run: "persist_registry sc lib fresh (bm_remove ident (cm_registry c)) c = (r, c1)" by fastforce
  have cand: "bm_ok (bm_remove ident (cm_registry c))" using ok(1) by (simp add: durable_registry_def bm_ok_remove)
  note res = persist_result[OF assms(1) ok(1) cand assms(2) run]
  show ?thesis
  proof (cases r)
    case (Inl err)
    then have "paired c1" using res ok(2) by (auto simp: paired_def bm_has_keys[of "cm_sessions _"])
    then show ?thesis using res Inl run Inr by (simp add: companion_remove_def manager_ok_def)
  next
    case ok': (Inr u)
    let ?reg = "bm_remove ident (cm_registry c)" and ?ids = "bm_keys (cm_sessions c)"
    obtain a c2 where c2: "revoke_peers sc ident c1 = (a, c2)" by fastforce
    obtain b c3 where c3: "on_space (sc_shutdown sc) ident c2 = (b, c3)" by fastforce
    have "removing lib running ?reg ?ids c1" using res ok' by (simp add: removing_def bm_has_keys)
    then have "removing lib running ?reg ?ids c2" using staysD[OF revoke_stays _ c2] by blast
    then have rem: "removing lib running ?reg ?ids c3" using staysD[OF removing_stays _ c3] by blast
    let ?c = "c3\<lparr>cm_sessions := bm_remove ident (cm_sessions c3)\<rparr>"
    have "bm_has ?reg i = bm_has (bm_remove ident (cm_sessions c3)) i" for i
    proof (cases "i = ident")
      case False
      then have "bm_has ?reg i = bm_has (cm_registry c) i" "bm_has (bm_remove ident (cm_sessions c3)) i = bm_has (cm_sessions c3) i"
        by (simp_all add: bm_has_def bm_get_remove)
      then show ?thesis using rem pairedD[OF ok(2)] by (simp add: removing_def bm_has_keys[of "cm_sessions c"])
    qed (simp add: bm_has_def bm_get_remove)
    then have "paired ?c" using rem by (simp add: paired_def removing_def)
    moreover have "durable_registry lib running ?c"
      using rem by (auto simp: removing_def durable_registry_def disk_registry_def registry_path_def bm_ok_remove)
    ultimately show ?thesis
      using run c2 c3 Inr ok' by (simp add: companion_remove_def manager_ok_def)
  qed
qed

lemma archive_apart:
  assumes "take 1 name \<noteq> ''/''"
  shows "\<not> below (path_join (path_join root ''legacy-archives'') name) (path_join root ''spaces.json'')"
proof
  let ?dir = "path_join (path_join root ''legacy-archives'') name" and ?p = "path_join root ''spaces.json''"
  have dir: "?dir = base root @ ''legacy-archives/'' @ name"
    using assms by (simp add: path_join_rel[OF assms] path_join_rel base_def[of "_ @ _"])
  have p: "?p = base root @ ''spaces.json''" by (simp add: path_join_rel)
  assume "below ?dir ?p"
  then have "?p = (?dir @ ''/'') @ drop (length ?dir + 1) ?p" unfolding below_def by (metis append_take_drop_id)
  then show False unfolding dir p by simp
qed

lemma generated_rel: "generated_archive name \<Longrightarrow> take 1 name \<noteq> ''/''"
proof -
  assume gen: "generated_archive name"
  then obtain x xs where name: "name = x # xs" by (cases name) (auto simp: generated_archive_def)
  then have "is_ascii_digit x" using gen by (simp add: generated_archive_def)
  then show ?thesis by (auto simp: name is_ascii_digit_def)
qed

lemma padded_rel: "0 < width \<Longrightarrow> take 1 (padded width n @ x) \<noteq> ''/''"
proof -
  have "is_ascii_digit (hd (show_nat n))"
    using show_nat_digits[of n] hd_in_set[of "show_nat n"] by (simp add: list_all_iff)
  then have "hd (padded width n) \<noteq> CHR ''/'' \<and> padded width n \<noteq> []"
    by (cases "width - length (show_nat n)") (auto simp: padded_def Let_def is_ascii_digit_def)
  then show ?thesis by (cases "padded width n") auto
qed

lemma completed_generated:
  "completed_archives parent entries w = (Inr names, w') \<Longrightarrow> list_all generated_archive names"
proof (induction entries arbitrary: w names)
  case (Cons e rest)
  then show ?case
    by (auto simp: bindS_split split: sum.splits prod.splits if_splits error.splits io_kind.splits)
qed simp

lemma completed_stays: "stays (file_is p v) (completed_archives parent entries :: 'z files \<Rightarrow> _)"
proof (induction entries)
  case Nil
  then show ?case by (simp add: stays_def)
next
  case (Cons e rest)
  have rest: "fw_files w' p = fw_files w p" if "completed_archives parent rest w = (r, w')" "fw_files w p = v" for w w' :: "'z files" and r
    using staysD[OF Cons.IH that(2,1)] that(2) by simp
  show ?case
  proof (rule staysI)
    fix w :: "'z files"
    assume w: "file_is p v w"
    show "file_is p v (snd (completed_archives parent (e # rest) w))"
    proof (cases e)
      case (Inr name)
      obtain b w1 where b: "fs_is_file (path_join (path_join parent name) ''migration.json'') w = (b, w1)" by fastforce
      have w1: "fw_files w1 p = v" using staysD[OF file_call_stays(4) w b] .
      obtain r w2 where r: "completed_archives parent rest w1 = (r, w2)" by fastforce
      obtain r' w3 where r': "completed_archives parent rest w = (r', w3)" by fastforce
      show ?thesis
        using w w1 b r r' rest[OF r w1] rest[OF r' w] Inr
        by (cases r; auto split: sum.split error.split io_kind.split)
    qed (use w in simp)
  qed
qed

lemma stays_bind_info:
  "stays Q f \<Longrightarrow> (\<And>s x s'. f s = (Inr x, s') \<Longrightarrow> stays Q (g x)) \<Longrightarrow> stays Q (\<lambda>s. bindS (f s) g)"
  by (fastforce simp: stays_def bindS_split split: prod.splits sum.splits)

lemma archive_keeps:
  assumes "manager_ok l running c"
  shows "manager_ok l running (snd (archive_legacy lib ll rng now config_path c))"
proof -
  let ?p = "path_join (cm_root c) ''spaces.json''" and ?parent = "path_join (cm_root c) ''legacy-archives''"
  have copy: "stays (file_is ?p v) (atomic fresh dir name data)"
    if "name \<in> {''config.json'', ''libresync.json'', ''state.json'', ''migration.json''}" for v fresh dir name data
    using that by (intro atomic_stays registry_neq path_join_neq) auto
  have one: "stays (file_is ?p v) (copy_legacy rng config config_path pending field)"
    if "snd (snd field) \<in> {''libresync.json'', ''state.json''}" for v config pending field
  proof -
    have "stays (file_is ?p v) (\<lambda>w. if path_exists source w
        then bindS (fs_read source w) (\<lambda>bytes w. atomic fresh pending (snd (snd field)) bytes w) else (Inr (), w))" for source fresh
    proof -
      have "stays (file_is ?p v) (\<lambda>w. bindS (fs_read source w) (atomic fresh pending (snd (snd field))))"
        using that by (intro stays copy) auto
      then show ?thesis by (simp add: stays_def) blast
    qed
    note copied = this
    obtain i f n where field: "field = (i, f, n)" by (cases field) auto
    show ?thesis
      using copied unfolding field copy_legacy_def[abs_def] Let_def prod.case snd_conv
      by (cases "config f") (simp_all add: stays_pure)
  qed
  have fill: "stays (file_is ?p v) (fill_archive ll rng bytes config config_path pending)" for v bytes config pending
    unfolding fill_archive_def[abs_def] by (intro stays copy forS_stays one) auto
  have pending: "\<not> below (path_join ?parent (''.pending-'' @ x)) ?p" for x by (rule archive_apart) simp
  have archive: "\<not> below (path_join ?parent (padded 25 n @ x)) ?p" for n x by (rule archive_apart) (rule padded_rel, simp)
  have fill_undo: "stays (file_is ?p v) (\<lambda>w. case fill_archive ll rng bytes config config_path (path_join ?parent (''.pending-'' @ x)) w of
      (Inl err, w) \<Rightarrow> bindS (fs_remove_dir_all (path_join ?parent (''.pending-'' @ x)) w) (\<lambda>_ w. (Inl err, w))
    | (Inr _, w) \<Rightarrow> h w)" if "stays (file_is ?p v) h" for v bytes config x h
    by (intro stays fill file_dir_stays pending that)
  have old: "stays (file_is ?p v) (forS (\<lambda>old. fs_remove_dir_all (path_join ?parent old)) (take n (sort names)))"
    if "list_all generated_archive names" for v n names
    using that by (intro forS_stays file_dir_stays archive_apart generated_rel)
      (auto simp: list_all_iff dest!: in_set_takeD)
  have prune: "stays (file_is ?p v) (\<lambda>w. bindS (completed_archives ?parent entries w) (\<lambda>names w.
      bindS (forS (\<lambda>old. fs_remove_dir_all (path_join ?parent old)) (take (length names - 5) (sort names)) w) (\<lambda>_ w. h w)))"
    if "stays (file_is ?p v) h" for v entries h
    by (rule stays_bind_info, rule completed_stays, rule stays_bindS, rule old, erule completed_generated, rule that)
  have "stays (file_is ?p v) (\<lambda>w.
       bindS (fs_read config_path w) (\<lambda>config_bytes w.
          bindS (ll_config ll config_bytes, w) (\<lambda>config w.
          bindS (private_dir w) (\<lambda>_ w.
          bindS (private_dir w) (\<lambda>_ w.
          case fill_archive ll rng config_bytes config config_path (path_join ?parent (''.pending-'' @ rng 0)) w of
            (Inl err, w) \<Rightarrow> bindS (fs_remove_dir_all (path_join ?parent (''.pending-'' @ rng 0)) w) (\<lambda>_ w. (Inl err, w))
          | (Inr _, w) \<Rightarrow>
              bindS (now, w) (\<lambda>nanos w.
              bindS (fs_rename_dir (path_join ?parent (''.pending-'' @ rng 0)) (path_join ?parent (padded 25 nanos @ ''-'' @ rng 1)) w) (\<lambda>_ w.
                 bindS (fs_call w) (\<lambda>_ w.
                 bindS (fs_call w) (\<lambda>_ w.
                 bindS (case cl_names lib ?parent (file_world.truncate w) of None \<Rightarrow> Inl not_found | Some r \<Rightarrow> r, w) (\<lambda>entries w.
                 bindS (completed_archives ?parent entries w) (\<lambda>names w.
                 bindS (forS (\<lambda>old. fs_remove_dir_all (path_join ?parent old)) (take (length names - 5) (sort names)) w) (\<lambda>_ w.
                 bindS (fs_call w) (\<lambda>_ w.
                 bindS (fs_call w) (\<lambda>_ w. (Inr (path_join ?parent (padded 25 nanos @ ''-'' @ rng 1)), w)))))))))))))))" for v
    by (intro stays_bindS file_call_stays stays_read private_dir_stays fill_undo file_dir_stays pending archive prune)
  note kept = stays_apply[OF disk_stays(2)[OF this], of l running c]
  show ?thesis
    unfolding archive_legacy_def Let_def by (rule conjunct1[OF kept]) (simp add: assms)
qed

end
