(* ===== verification/Companion_Run.thy ===== *)
theory Companion_Run
  imports Companion_Invariant
begin

text \<open>
  The run of a program around a companion manager: its calls in any order, with any answers of the
  system, and anything callers do to the sessions the manager hands out.
\<close>

inductive companion_step :: "companion_libs \<Rightarrow> live_session companion \<Rightarrow> live_session companion \<Rightarrow> bool"
  for lib :: companion_libs where
  add: "companion_step lib c (snd (add_app (live_calls (li :: string live_inputs)) lib rng manifest c))"
| enroll: "companion_step lib c (snd (companion_enroll (live_calls (li :: string live_inputs)) lib rng iv c))"
| pause: "companion_step lib c (snd (companion_pause (live_calls (li :: string live_inputs)) lib fresh ident c))"
| resume: "companion_step lib c (snd (companion_resume (live_calls (li :: string live_inputs)) lib fresh ident c))"
| remove: "companion_step lib c (snd (companion_remove (live_calls (li :: string live_inputs)) lib fresh ident c))"
| backup: "companion_step lib c (snd (companion_backup (live_calls (li :: string live_inputs)) lib rng nonce generated now ident c))"
| export: "companion_step lib c (snd (export_backup lib ident name c))"
| archive: "companion_step lib c (snd (archive_legacy lib ll rng now path c))"
| shutdown: "companion_step lib c (snd (companion_shutdown (live_calls (li :: string live_inputs)) c))"
| session_use: "space_session ident c = Inr s \<Longrightarrow>
    companion_step lib c (c\<lparr>cm_sessions := bm_insert ident s' (cm_sessions c)\<rparr>)"

inductive companion_run :: "companion_libs \<Rightarrow> live_session companion \<Rightarrow> live_session companion \<Rightarrow> bool"
  for lib :: companion_libs and c0 :: "live_session companion" where
  start: "companion_run lib c0 c0"
| step: "companion_run lib c0 c \<Longrightarrow> companion_step lib c c' \<Longrightarrow> companion_run lib c0 c'"

section \<open>Shutdown and opening\<close>

lemma shutdown_spaces_map: "snd (shutdown_spaces sc ss first) = bm_map (\<lambda>s. snd (sc_shutdown sc s)) ss"
  by (induction ss arbitrary: first) (auto simp: bm_map_def split_beta)

lemma shutdown_keeps:
  assumes "\<And>s. \<not> running (snd (sc_shutdown sc s))" and "manager_ok l running c"
  shows "manager_ok l running (snd (companion_shutdown sc c))"
proof -
  have c': "snd (companion_shutdown sc c) = c\<lparr>cm_sessions := bm_map (\<lambda>s. snd (sc_shutdown sc s)) (cm_sessions c)\<rparr>"
    by (simp add: companion_shutdown_def split_beta shutdown_spaces_map)
  have "bm_has (bm_map f m) i = bm_has m i" for f m and i :: string by (simp add: bm_has_def bm_get_map)
  then show ?thesis
    using assms unfolding c'
    by (auto simp: manager_ok_def durable_registry_def paired_def disk_registry_def registry_path_def bm_ok_map bm_get_map)
qed

lemma step_keeps:
  assumes "registry_json lib" and "companion_step lib c c'" and "manager_ok lib live_running c"
  shows "manager_ok lib live_running c'"
  using assms(2)
proof cases
  case (add li rng manifest)
  then show ?thesis
    using add_app_keeps[OF assms(1) live.shut_down assms(3)] by (metis prod.collapse)
next
  case (session_use ident s s')
  then have "space_session ident c = Inr s" by simp
  then have "c' = snd (on_space (\<lambda>_. (Inr (), s')) ident c)" "\<not> cm_fenced c"
    using session_use by (auto simp: on_space_def space_session_Inr)
  then show ?thesis using on_space_keeps[OF assms(3)] by simp
qed (use assms(3) space_enroll_keeps[OF assms(1) live.shut_down assms(3)] pause_keeps[OF assms(1) live.shut_down assms(3)]
    space_remove_keeps[OF assms(1) live.shut_down assms(3)] backup_keeps[OF assms(3)] copy_export_keeps[OF assms(3)]
    archive_keeps[OF assms(3)] shutdown_keeps[OF live.shut_down assms(3)] in simp_all)

lemma run_keeps:
  assumes "registry_json lib" and "companion_run lib c0 c" and "manager_ok lib live_running c0"
  shows "manager_ok lib live_running c"
  using assms(2,3) by (induction rule: companion_run.induct) (auto intro: step_keeps[OF assms(1)])

text \<open>Opening: every space of the registry has its session, running unless the space is paused.\<close>

lemma open_spaces_result:
  assumes "open_spaces (live_calls li) l fresh spaces c = Inr c'"
  shows "c' = c\<lparr>cm_sessions := cm_sessions c'\<rparr> \<and> (bm_ok (cm_sessions c) \<longrightarrow> bm_ok (cm_sessions c')) \<and>
    (\<forall>i. bm_has (cm_sessions c') i \<longleftrightarrow> bm_has (cm_sessions c) i \<or> i \<in> fst ` set spaces) \<and>
    (\<forall>i s. bm_get (cm_sessions c') i = Some s \<longrightarrow> bm_get (cm_sessions c) i = Some s \<and> i \<notin> fst ` set spaces \<or>
       (\<exists>space. (i, space) \<in> set spaces \<and> live_running s = (\<not> asp_paused space)))"
  using assms
proof (induction spaces arbitrary: c)
  case (Cons p rest)
  obtain ident space where p: "p = (ident, space)" by fastforce
  obtain s0 where s0: "space_valid ident space" "open_space (live_calls li) l fresh space c = Inr s0"
    using Cons.prems by (auto simp: p split: if_splits)
  obtain s where s: "(if asp_paused space then sc_pause (live_calls li) s0 else sc_start (live_calls li) s0) = (Inr (), s)"
      "open_spaces (live_calls li) l fresh rest (c\<lparr>cm_sessions := bm_insert ident s (cm_sessions c)\<rparr>) = Inr c'"
    using Cons.prems s0 by (auto simp: p split: prod.splits sum.splits)
  have run: "live_running s = (\<not> asp_paused space)"
  proof (cases "asp_paused space")
    case True
    then have "s = snd (sc_pause (live_calls li) s0)" using s(1) by simp
    then show ?thesis using live.paused True by simp
  next
    case False
    then show ?thesis using s(1) live.started by simp
  qed
  have IH: "c' = c\<lparr>cm_sessions := cm_sessions c'\<rparr>" "bm_ok (bm_insert ident s (cm_sessions c)) \<longrightarrow> bm_ok (cm_sessions c')"
    "\<forall>i. bm_has (cm_sessions c') i \<longleftrightarrow> bm_has (bm_insert ident s (cm_sessions c)) i \<or> i \<in> fst ` set rest"
    "\<forall>i t. bm_get (cm_sessions c') i = Some t \<longrightarrow> bm_get (bm_insert ident s (cm_sessions c)) i = Some t \<and> i \<notin> fst ` set rest \<or>
       (\<exists>space. (i, space) \<in> set rest \<and> live_running t = (\<not> asp_paused space))"
    using Cons.IH[OF s(2)] by simp_all
  have "\<forall>i. bm_has (cm_sessions c') i \<longleftrightarrow> bm_has (cm_sessions c) i \<or> i \<in> fst ` set (p # rest)"
    using IH(3) by (auto simp: bm_has_def bm_get_insert p)
  moreover have "bm_get (cm_sessions c) i = Some t \<and> i \<notin> fst ` set (p # rest) \<or>
      (\<exists>space. (i, space) \<in> set (p # rest) \<and> live_running t = (\<not> asp_paused space))"
    if got: "bm_get (cm_sessions c') i = Some t" for i t
  proof -
    consider (old) "bm_get (bm_insert ident s (cm_sessions c)) i = Some t" "i \<notin> fst ` set rest"
      | (new) space' where "(i, space') \<in> set rest" "live_running t = (\<not> asp_paused space')"
      using IH(4) got by blast
    then show ?thesis
      by cases (use run in \<open>auto simp: bm_get_insert p split: if_splits\<close>)
  qed
  ultimately show ?case using IH(1,2) by (auto simp: bm_ok_insert)
qed simp

text \<open>A file system that says a file is absent only when it is.\<close>

definition honest_faults :: "'z files \<Rightarrow> bool" where
  "honest_faults w \<longleftrightarrow> (\<forall>f m. Some f \<in> set (fw_faults w) \<longrightarrow> ff_error f \<noteq> Io NotFound m)"

lemma honest_stays [stays]: "stays honest_faults fs_create_dir_all" "stays honest_faults fs_call"
  "stays honest_faults private_dir"
proof -
  show dir: "stays honest_faults fs_create_dir_all" "stays honest_faults fs_call"
    by (auto simp: stays_def fs_call_def fs_create_dir_all_def honest_faults_def next_fault_def
        split: prod.split option.split list.split dest: in_set_dropD)
  show "stays honest_faults private_dir"
    unfolding private_dir_def[abs_def] by (intro stays dir)
qed

lemma read_registry_result:
  assumes "read_registry l path w = (Inr m, w')" and "honest_faults w"
  shows "fw_files w' = fw_files w \<and>
    (case fw_files w path of None \<Rightarrow> Inr [] | Some bs \<Rightarrow> cl_registry_from_slice l bs) = Inr m"
  using assms
  by (auto simp: read_registry_def fs_read_def next_fault_def honest_faults_def not_found_def
      split: prod.splits sum.splits option.splits list.splits error.splits io_kind.splits)

lemma open_result:
  assumes "companion_open sc l fresh canonical lease name advertise catalog keys faults w = (Inr c, w')"
    and "honest_faults w"
  shows "\<exists>c0. open_spaces sc l fresh (cm_registry c0) c0 = Inr c \<and> \<not> cm_fenced c0 \<and> cm_sessions c0 = [] \<and>
    canonical = Inr (cm_root c0) \<and> disk_registry l c0 = Inr (cm_registry c0) \<and>
    fw_files w (registry_path c0) = fw_files (cm_files c0) (registry_path c0)"
proof -
  obtain u1 u2 root reg where run: "private_dir w = (Inr (), u1)" "canonical = Inr root" "fs_call u1 = (Inr (), u2)"
      "read_registry l (path_join root ''spaces.json'') u2 = (Inr reg, w')"
    and opened: "open_spaces sc l fresh reg
          \<lparr>cm_root = root, cm_device_name = name, cm_advertise = advertise, cm_registry = reg,
           cm_sessions = [], cm_catalog = catalog, cm_fenced = False, cm_files = w', cm_keys = keys,
           cm_key_faults = faults\<rparr> = Inr c"
    using assms(1) by (auto simp: companion_open_def bindS_Inr)
  have honest: "honest_faults u2"
    using staysD[OF honest_stays(2) staysD[OF honest_stays(3) assms(2) run(1)] run(3)] .
  have same: "fw_files u2 (path_join root ''spaces.json'') = fw_files w (path_join root ''spaces.json'')"
    using staysD[OF file_call_stays(2) staysD[OF private_dir_stays refl run(1)] run(3)] .
  note reg = read_registry_result[OF run(4) honest]
  let ?c0 = "\<lparr>cm_root = root, cm_device_name = name, cm_advertise = advertise, cm_registry = reg,
           cm_sessions = [], cm_catalog = catalog, cm_fenced = False, cm_files = w', cm_keys = keys,
           cm_key_faults = faults\<rparr>"
  show ?thesis
    using opened reg same run(2) by (intro exI[of _ ?c0]) (simp add: disk_registry_def registry_path_def)
qed

lemma open_manager_ok:
  assumes "registry_json l" and "honest_faults w"
    and "companion_open (live_calls li) l fresh canonical lease name advertise catalog keys faults w = (Inr c, w')"
  shows "manager_ok l live_running c \<and> \<not> cm_fenced c \<and> canonical = Inr (cm_root c) \<and>
    (\<forall>i s. bm_get (cm_sessions c) i = Some s \<longrightarrow>
       (\<exists>space. bm_get (cm_registry c) i = Some space \<and> live_running s = (\<not> asp_paused space))) \<and>
    (case fw_files w (registry_path c) of None \<Rightarrow> Inr [] | Some bs \<Rightarrow> cl_registry_from_slice l bs) = Inr (cm_registry c)"
proof -
  obtain c0 where c0: "open_spaces (live_calls li) l fresh (cm_registry c0) c0 = Inr c" "\<not> cm_fenced c0" "cm_sessions c0 = []"
      "canonical = Inr (cm_root c0)" "disk_registry l c0 = Inr (cm_registry c0)"
      "fw_files w (registry_path c0) = fw_files (cm_files c0) (registry_path c0)"
    using open_result[OF assms(3,2)] by blast
  note res = open_spaces_result[OF c0(1), unfolded c0(3)]
  have same: "c = c0\<lparr>cm_sessions := cm_sessions c\<rparr>"
    and held: "\<forall>i. bm_has (cm_sessions c) i \<longleftrightarrow> bm_has ([] :: (string, live_session) bmap) i \<or> i \<in> fst ` set (cm_registry c0)"
    and sessions: "\<forall>i s. bm_get (cm_sessions c) i = Some s \<longrightarrow> bm_get [] i = Some s \<and> i \<notin> fst ` set (cm_registry c0) \<or>
       (\<exists>space. (i, space) \<in> set (cm_registry c0) \<and> live_running s = (\<not> asp_paused space))"
    and ok: "bm_ok ([] :: (string, live_session) bmap) \<longrightarrow> bm_ok (cm_sessions c)"
    using res by - (elim conjE, assumption)+
  then have eq: "cm_registry c = cm_registry c0" "cm_fenced c = cm_fenced c0" "cm_root c = cm_root c0" "cm_files c = cm_files c0"
    by (metis companion.select_convs companion.update_convs(5) companion.surjective)+
  have reg: "bm_ok (cm_registry c0)"
    using c0(5) assms(1) by (auto simp: disk_registry_def registry_json_def bm_ok_def split: option.splits)
  have "paired c"
    using held eq by (simp add: paired_def bm_has_iff)
  moreover have "disk_registry l c = Inr (cm_registry c)"
    using c0(5) eq by (simp add: disk_registry_def registry_path_def)
  ultimately have mok: "manager_ok l live_running c"
    using reg ok c0(2) eq by (simp add: manager_ok_def durable_registry_def)
  have "\<exists>space. bm_get (cm_registry c) i = Some space \<and> live_running s = (\<not> asp_paused space)"
    if got: "bm_get (cm_sessions c) i = Some s" for i s
  proof -
    obtain space where "(i, space) \<in> set (cm_registry c0)" "live_running s = (\<not> asp_paused space)"
      using sessions[rule_format, OF got] by auto
    then show ?thesis using reg eq bm.entries_iff by metis
  qed
  then show ?thesis
    using mok c0 eq by (simp add: disk_registry_def registry_path_def)
qed

end
