(* ===== verification/Companion_Copies.thy ===== *)
theory Companion_Copies
  imports Companion_Invariant
begin

text \<open>
  The recovery copies of a space on disk: what a backup adds, what its retention removes, and what an
  export reads.
\<close>

definition copies :: "string \<Rightarrow> 'z files \<Rightarrow> string set" where
  "copies dir w = {n. plain n \<and> backup_name n \<and> fw_files w (path_join dir n) \<noteq> None}"

text \<open>The listing of a directory gives every file in it once.\<close>

definition lists_copies :: "companion_libs \<Rightarrow> string \<Rightarrow> bool" where
  "lists_copies l dir \<longleftrightarrow> (\<forall>w.
     (cl_names l dir w = None \<longrightarrow> (\<forall>n. plain n \<longrightarrow> fw_files w (path_join dir n) = None)) \<and>
     (\<forall>es ns. cl_names l dir w = Some (Inr es) \<longrightarrow> traverseR id es = Inr ns \<longrightarrow>
        distinct ns \<and> set ns = {n. plain n \<and> fw_files w (path_join dir n) \<noteq> None}))"

lemma backups_are:
  assumes "companion_backups l ident c = Inr names" and "lists_copies l (backup_dir ident c)"
  shows "set names = copies (backup_dir ident c) (cm_files c) \<and> sorted names \<and> distinct names"
proof (cases "cl_names l (backup_dir ident c) (cm_files c)")
  case None
  then have "names = []" using assms(1) by (auto simp: companion_backups_def)
  then show ?thesis using assms(2) None by (auto simp: lists_copies_def copies_def)
next
  case (Some listing)
  then obtain es ns where ns: "listing = Inr es" "traverseR id es = Inr ns" "names = sort (filter backup_name ns)"
    using assms(1) by (auto simp: companion_backups_def)
  then have "distinct ns \<and> set ns = {n. plain n \<and> fw_files (cm_files c) (path_join (backup_dir ident c) n) \<noteq> None}"
    using assms(2) Some unfolding lists_copies_def by blast
  then show ?thesis by (auto simp: ns(3) copies_def)
qed

text \<open>The greatest names of a sorted list.\<close>

lemma sorted_newest:
  fixes xs :: "'a :: linorder list"
  assumes "sorted xs" and "distinct xs"
  shows "set (drop (length xs - k) xs) = {x \<in> set xs. card {y \<in> set xs. x < y} < k}"
proof -
  have strict: "i < j \<Longrightarrow> j < length xs \<Longrightarrow> xs ! i < xs ! j" for i j
    using assms sorted_wrt_nth_less[of "(<)" xs i j] by (simp add: strict_sorted_iff)
  have above: "card {y \<in> set xs. xs ! i < y} = length xs - Suc i" if "i < length xs" for i
  proof -
    have lt: "xs ! i < xs ! j \<longleftrightarrow> i < j" if "j < length xs" for j
      using strict[of i j] strict[of j i] that \<open>i < length xs\<close> by (cases i j rule: linorder_cases) auto
    have "{y \<in> set xs. xs ! i < y} = (!) xs ` {Suc i..<length xs}"
      using lt by (force simp: in_set_conv_nth image_iff)
    moreover have "inj_on ((!) xs) {Suc i..<length xs}" using assms(2) by (auto simp: inj_on_def nth_eq_iff_index_eq)
    ultimately show ?thesis by (simp add: card_image)
  qed
  have "x \<in> set (drop (length xs - k) xs) \<longleftrightarrow> x \<in> set xs \<and> card {y \<in> set xs. x < y} < k" for x
    proof
      assume "x \<in> set (drop (length xs - k) xs)"
      then obtain j where j: "j < length xs - (length xs - k)" "x = xs ! ((length xs - k) + j)"
        by (auto simp: in_set_conv_nth add.commute)
      then have "card {y \<in> set xs. x < y} = length xs - Suc ((length xs - k) + j)" using above[of "(length xs - k) + j"] by simp
      moreover have "x \<in> set xs" using j by simp
      ultimately show "x \<in> set xs \<and> card {y \<in> set xs. x < y} < k" using j(1) by linarith
    next
      assume x: "x \<in> set xs \<and> card {y \<in> set xs. x < y} < k"
      then obtain i where i: "i < length xs" "x = xs ! i" by (auto simp: in_set_conv_nth)
      then have "length xs - Suc i < k" using x above[OF i(1)] by simp
      then have "length xs - k \<le> i" using i(1) by linarith
      then have "drop (length xs - k) xs ! (i - (length xs - k)) = x" "i - (length xs - k) < length (drop (length xs - k) xs)"
        using i by simp_all
      then show "x \<in> set (drop (length xs - k) xs)" by (metis nth_mem)
    qed
  then show ?thesis by blast
qed

lemma removed_files:
  assumes "remove_old dir k names w = (Inr (), w')"
  shows "fw_files w' p = (if p \<in> path_join dir ` set (take (length names - k) names) then None else fw_files w p)"
proof -
  have "fw_files v' p = (if p \<in> path_join dir ` set xs then None else fw_files v p)"
    if "forS (\<lambda>old. fs_remove_file (path_join dir old)) xs v = (Inr (), v')" for xs and v v' :: "'a files"
    using that
  proof (induction xs arbitrary: v)
    case (Cons x xs)
    then obtain u where u: "fs_remove_file (path_join dir x) v = (Inr (), u)"
        "forS (\<lambda>old. fs_remove_file (path_join dir old)) xs u = (Inr (), v')"
      by (auto simp: bindS_Inr)
    have "fw_files u p = (if p = path_join dir x then None else fw_files v p)"
      using u(1) by (auto simp: fs_remove_file_def next_fault_files split: prod.splits option.splits if_splits)
    then show ?case using Cons.IH[OF u(2)] by auto
  qed simp
  from this[OF assms[unfolded remove_old_def]] show ?thesis .
qed

lemma temp_not_copy: "backup_name n \<Longrightarrow> path_join dir (''.'' @ fresh @ ''.tmp'') \<noteq> path_join dir n"
proof -
  assume "backup_name n"
  then obtain x where "n = x @ ''.enc''" by (auto simp: backup_name_def ends_with_iff)
  then show ?thesis by (intro path_join_neq) simp
qed

lemma path_join_inj: "plain n \<Longrightarrow> plain m \<Longrightarrow> path_join dir n = path_join dir m \<longleftrightarrow> n = m"
  by (simp add: path_join_plain plain_def)

lemma atomic_copies:
  assumes "atomic fresh dir name data w = (Inr (), w')" and "plain name" and "backup_name name"
  shows "fw_files w' (path_join dir name) = Some data \<and>
    (\<forall>n. plain n \<longrightarrow> backup_name n \<longrightarrow> n \<noteq> name \<longrightarrow> fw_files w' (path_join dir n) = fw_files w (path_join dir n)) \<and>
    copies dir w' = insert name (copies dir w)"
proof -
  have data: "fw_files w' (path_join dir name) = Some data"
    using atomic_result[OF assms(1) temp_not_copy[OF assms(3)]] by simp
  have rest: "fw_files w' (path_join dir n) = fw_files w (path_join dir n)" if "plain n" "backup_name n" "n \<noteq> name" for n
  proof -
    have "path_join dir name \<noteq> path_join dir n" using that path_join_inj assms(2) by auto
    from staysD[OF atomic_stays[OF temp_not_copy[OF that(2)] this] refl assms(1)] show ?thesis .
  qed
  have "n \<in> copies dir w' \<longleftrightarrow> n \<in> insert name (copies dir w)" for n
    using data rest[of n] assms(2,3) by (cases "n = name"; cases "plain n \<and> backup_name n") (auto simp: copies_def simp del: not_None_eq)
  then have "copies dir w' = insert name (copies dir w)" by blast
  then show ?thesis using data rest by blast
qed

lemma backup_key_Inr:
  assumes "backup_key l generated ident c = (Inr key, c')" and "\<And>k. generated = Inr k \<Longrightarrow> app_key_from_slice (as_bytes k) = Inr k"
  shows "cm_registry c' = cm_registry c \<and> cm_sessions c' = cm_sessions c \<and> cm_fenced c' = cm_fenced c \<and>
    cm_files c' = cm_files c \<and> cm_root c' = cm_root c \<and>
    (\<exists>bs. cm_keys c' (backup_key_name ident) = Some bs \<and> app_key_from_slice bs = Inr key)"
proof -
  obtain found d where d: "key_get (backup_key_name ident) c = (Inr found, d)"
    using assms(1) by (auto simp: backup_key_def bindS_Inr)
  note frame = key_call_frame[OF disjI1[OF d]]
  have keys: "cm_keys d = cm_keys c" "found = cm_keys c (backup_key_name ident)"
    using d by (auto simp: key_get_def key_call_def Let_def split: list.splits option.splits)
  show ?thesis
  proof (cases found)
    case (Some bs)
    then show ?thesis using assms(1) d frame keys by (auto simp: backup_key_def)
  next
    case None
    then obtain u where gen: "generated = Inr key" and u: "key_set (backup_key_name ident) (as_bytes key) d = (Inr u, c')"
      using assms(1) d by (auto simp: backup_key_def bindS_Inr fail_code_def split: if_splits)
    note set_frame = key_call_frame[OF disjI2[OF u]]
    have "cm_keys c' (backup_key_name ident) = Some (as_bytes key)"
      using u by (auto simp: key_set_def key_call_def Let_def split: list.splits option.splits)
    then show ?thesis using frame set_frame assms(2)[OF gen] by auto
  qed
qed

lemma on_space_frame:
  "on_space f ident c = (r, c') \<Longrightarrow> cm_files c' = cm_files c \<and> cm_root c' = cm_root c \<and> cm_registry c' = cm_registry c \<and>
     cm_keys c' = cm_keys c \<and> cm_fenced c' = cm_fenced c \<and> cm_key_faults c' = cm_key_faults c \<and>
     (\<forall>i. bm_has (cm_sessions c) i \<longrightarrow> bm_has (cm_sessions c') i)"
  by (auto simp: on_space_def bm_has_def bm_get_insert split: option.splits prod.splits)

text \<open>What a backup leaves: of the old copies and the new one, those with the greatest names.\<close>

lemma backup_result:
  assumes "companion_backup sc l rng nonce generated now ident c = (Inr name, c')"
    and "lists_copies l (backup_dir ident c)" and "plain (rng 0)"
    and "\<And>k. generated = Inr k \<Longrightarrow> app_key_from_slice (as_bytes k) = Inr k"
  obtains s inbox key body blob space where "space_session ident c = Inr s" "sc_inbox sc s = Inr inbox"
    "cl_inbox_to_vec l inbox = Inr body" "encrypt_blob (cl_aead l) nonce key body (backup_aad ident) = Inr blob"
    "bm_get (cm_registry c) ident = Some space" "plain name" "backup_name name"
    "\<exists>bs. cm_keys c' (backup_key_name ident) = Some bs \<and> app_key_from_slice bs = Inr key"
    "cm_root c' = cm_root c" "is_ok (space_session ident c')"
    "copies (backup_dir ident c) (cm_files c') =
       {n \<in> insert name (copies (backup_dir ident c) (cm_files c)).
          card {m \<in> insert name (copies (backup_dir ident c) (cm_files c)). n < m} < asp_retain space}"
    "\<And>n. n \<in> copies (backup_dir ident c) (cm_files c') \<Longrightarrow> fw_files (cm_files c') (path_join (backup_dir ident c) n) =
       (if n = name then Some blob else fw_files (cm_files c) (path_join (backup_dir ident c) n))"
proof -
  let ?dir = "backup_dir ident c"
  obtain s inbox key c1 body blob millis c2 space names c3 c4 c5 where
    s: "space_session ident c = Inr s" "sc_inbox sc s = Inr inbox"
    and key: "backup_key l generated ident c = (Inr key, c1)"
    and blob: "cl_inbox_to_vec l inbox = Inr body" "encrypt_blob (cl_aead l) nonce key body (backup_aad ident) = Inr blob"
    and name: "name = new_backup_name millis (rng 0)"
    and put: "with_disk (atomic (rng 1) ?dir name blob) c1 = (Inr (), c2)"
    and space: "bm_get (cm_registry c2) ident = Some space"
    and names: "companion_backups l ident c2 = Inr names"
    and drop: "with_disk (remove_old ?dir (asp_retain space) names) c2 = (Inr (), c3)"
    and sync: "with_disk fs_call c3 = (Inr (), c4)" "with_disk fs_call c4 = (Inr (), c5)"
    and last: "on_space (sc_prune_recovery sc (asp_retain space)) ident c5 = (Inr (), c')"
    using assms(1) by (auto simp: companion_backup_def Let_def bindS_Inr ok_or_Inr)
  note frame = backup_key_Inr[OF key assms(4)]
  obtain w2 where w2: "atomic (rng 1) ?dir name blob (cm_files c1) = (Inr (), w2)" "c2 = c1\<lparr>cm_files := w2\<rparr>"
    using put by (auto simp: with_disk_def split: prod.splits)
  obtain w3 where w3: "remove_old ?dir (asp_retain space) names w2 = (Inr (), w3)" "c3 = c2\<lparr>cm_files := w3\<rparr>"
    using drop w2(2) by (auto simp: with_disk_def split: prod.splits)
  have w5: "c5 = c3\<lparr>cm_files := cm_files c5\<rparr>" "fw_files (cm_files c5) = fw_files w3"
    using sync w3(2) by (auto simp: with_disk_def fs_call_def fs_create_dir_all_def next_fault_files split: prod.splits option.splits)
  have same: "cm_root c5 = cm_root c" "cm_registry c5 = cm_registry c" "cm_sessions c5 = cm_sessions c"
      "cm_fenced c5 = cm_fenced c" "cm_keys c5 = cm_keys c1"
    by (subst w5(1), simp add: w3(2) w2(2) frame)+
  note end_frame = on_space_frame[OF last]
  have dir: "backup_dir ident c2 = ?dir" using frame w2(2) by (simp add: backup_dir_def)
  have "CHR ''/'' \<notin> set (show_nat millis)"
    using show_nat_digits[of millis] by (auto simp: list_all_iff is_ascii_digit_def)
  then have pname: "plain name"
    using assms(3) by (simp add: name new_backup_name_def plain_def padded_def Let_def)
  have bname: "backup_name name" unfolding name by (rule backup_name_new)
  note put = atomic_copies[OF w2(1) pname bname]
  let ?all = "insert name (copies ?dir (cm_files c))"
  have all: "copies ?dir w2 = ?all" using put frame by simp
  have ns: "set names = ?all" "sorted names" "distinct names"
    using backups_are[OF names, unfolded dir, OF assms(2)] all w2(2) by simp_all
  let ?old = "set (take (length names - asp_retain space) names)" and ?new = "set (drop (length names - asp_retain space) names)"
  have parts: "?old \<union> ?new = ?all" "?old \<inter> ?new = {}"
    using ns(1,3) by (metis set_append append_take_drop_id, metis distinct_append append_take_drop_id)
  have pl: "plain n" if "n \<in> ?all" for n using that pname by (auto simp: copies_def)
  have old: "path_join ?dir n \<in> path_join ?dir ` ?old \<longleftrightarrow> n \<in> ?old" if "plain n" for n
  proof
    assume "path_join ?dir n \<in> path_join ?dir ` ?old"
    then obtain m where m: "m \<in> ?old" "path_join ?dir n = path_join ?dir m" by blast
    then have "plain m" using parts(1) pl[of m] by blast
    then show "n \<in> ?old" using m path_join_inj[OF \<open>plain n\<close>, of m ?dir] by simp
  qed simp
  have kept: "fw_files (cm_files c') (path_join ?dir n) = (if n \<in> ?old then None else fw_files w2 (path_join ?dir n))" if "plain n" for n
    using removed_files[OF w3(1), of "path_join ?dir n"] old[OF that] end_frame w5(2) by simp
  have copy: "n \<in> copies ?dir v \<longleftrightarrow> plain n \<and> backup_name n \<and> fw_files v (path_join ?dir n) \<noteq> None" for n and v :: file_world
    by (simp add: copies_def)
  have "n \<in> copies ?dir (cm_files c') \<longleftrightarrow> n \<in> ?all \<and> n \<notin> ?old" for n
    unfolding all[symmetric] copy using kept[of n] by (cases "plain n") (simp_all del: not_None_eq)
  then have left: "copies ?dir (cm_files c') = ?new" using parts by blast
  have "?new = {n \<in> ?all. card {m \<in> ?all. n < m} < asp_retain space}"
    using sorted_newest[OF ns(2,3)] ns(1) by simp
  then have newest: "copies ?dir (cm_files c') = {n \<in> ?all. card {m \<in> ?all. n < m} < asp_retain space}" using left by simp
  have bytes: "fw_files (cm_files c') (path_join ?dir n) = (if n = name then Some blob else fw_files (cm_files c) (path_join ?dir n))"
    if n: "n \<in> copies ?dir (cm_files c')" for n
  proof -
    have n': "plain n" "backup_name n" "n \<notin> ?old" using n left parts(2) by (auto simp: copy)
    then show ?thesis using kept[OF n'(1)] put[THEN conjunct1] put[THEN conjunct2, THEN conjunct1, rule_format, OF n'(1,2)] frame by simp
  qed
  have "bm_has (cm_sessions c) ident" "\<not> cm_fenced c" using s(1) by (auto simp: space_session_Inr bm_has_def)
  then have "is_ok (space_session ident c')"
    using end_frame same by (auto simp: space_session_Inr is_ok_iff bm_has_def)
  moreover have "bm_get (cm_registry c) ident = Some space" using space w2(2) frame by simp
  moreover have "\<exists>bs. cm_keys c' (backup_key_name ident) = Some bs \<and> app_key_from_slice bs = Inr key" "cm_root c' = cm_root c"
    using frame same end_frame by simp_all
  ultimately show thesis
    using that s blob pname bname newest bytes by blast
qed

end
