(* ===== verification/Companion_Demo.thy ===== *)
theory Companion_Demo
  imports Companion_Run Companion_Copies Props_Open
begin

text \<open>
  A concrete manager: one space of the demonstration app, a disk without faults, tables for JSON.
\<close>

section \<open>A disk without faults\<close>

lemma fs_calm [fs_simps]:
  assumes "no_faults w"
  shows "fs_create_dir_all w = (Inr (), w)" and "fs_call w = (Inr (), w)" and "private_dir w = (Inr (), w)"
    and "fs_rename p q w = (case fw_files w p of None \<Rightarrow> (Inl not_found, w)
       | Some bs \<Rightarrow> (Inr (), w\<lparr>fw_files := (fw_files w)(p := None, q := Some bs)\<rparr>))"
  using next_fault_none[OF assms]
  by (simp_all add: fs_create_dir_all_def fs_call_def private_dir_def fs_rename_def)

lemma write_beside_calm [fs_simps]:
  assumes "no_faults w" and "fw_files w temp = None" and "temp \<noteq> path"
  shows "write_beside temp path data w = (Inr (), w\<lparr>fw_files := (fw_files w)(path := Some data)\<rparr>)"
proof -
  have create: "fs_create_new temp w = (Inr (), w\<lparr>fw_files := (fw_files w)(temp := Some [])\<rparr>)"
    using next_fault_none[OF assms(1)] assms(2) by (simp add: fs_create_new_def path_exists_def)
  have "(fw_files w)(temp := None, path := Some data) = (fw_files w)(path := Some data)"
    using assms(2,3) by (auto simp: fun_eq_iff)
  then show ?thesis using assms(1) by (simp add: write_beside_def create fs_simps)
qed

lemma atomic_calm:
  assumes "no_faults w" and "fw_files w (path_join dir (''.'' @ fresh @ ''.tmp'')) = None"
    and "path_join dir (''.'' @ fresh @ ''.tmp'') \<noteq> path_join dir name"
  shows "atomic fresh dir name data w = (Inr (), w\<lparr>fw_files := (fw_files w)(path_join dir name := Some data)\<rparr>)"
  unfolding atomic_def Let_def using assms(1) by (simp only: write_beside_calm[OF assms] fs_calm bindS.simps prod.case sum.case no_faults_files)

section \<open>A session behind a space\<close>

definition demo_live :: "string live_inputs" where
  "demo_live =
     \<lparr>li_store = (\<lambda>_ _. demo_store), li_ids = (''d'', ''e''), li_saves = [], li_env = (\<lambda>_. demo_env),
      li_fresh = (\<lambda>_. ''t''), li_bound = Inr (SockV4 0 0), li_browse = Inr (), li_teardown = [],
      li_crypto = demo_crypto, li_seed = [], li_pair_ids = (\<lambda>_ _. ''p''),
      li_conns = (\<lambda>_. (Inr ''p'', \<lparr>ch_in = [], ch_out = [], ch_faults = []\<rparr>)),
      li_pair_world = (\<lambda>w. \<lparr>pw_chan = \<lparr>ch_in = [], ch_out = [], ch_faults = []\<rparr>, pw_handler = w, pw_env = [],
         pw_now = [], pw_cancel = [], pw_timeout = 0\<rparr>)\<rparr>"

definition demo_stored :: live_session where
  "demo_stored = \<lparr>lv_config = demo_config, lv_env = demo_env, lv_world = demo_session\<rparr>"

lemma demo_prunes: "\<exists>s. sc_prune_recovery (live_calls demo_live) n demo_stored = (Inr (), s)"
  by (simp add: live_calls_def live_do_def demo_stored_def prune_recovery_snapshots_def mutate_def settle_def
      demo_session_def commit_candidate_def demo_body_def Let_def)

section \<open>Copies\<close>

definition copy_name :: "nat \<Rightarrow> string" where
  "copy_name t = new_backup_name t ''x''"

definition copy_dir :: string where
  "copy_dir = path_join (path_join ''/c'' ''backups'') demo_id"

definition demo_names :: "string \<Rightarrow> file_world \<Rightarrow> string result list result option" where
  "demo_names dir w =
     Some (if \<forall>n. plain n \<longrightarrow> n \<notin> {copy_name 5, copy_name 9} \<longrightarrow> fw_files w (path_join dir n) = None
       then Inr (map Inr (filter (\<lambda>n. fw_files w (path_join dir n) \<noteq> None) [copy_name 9, copy_name 5]))
       else Inl Cancelled)"

definition copy_libs :: companion_libs where
  "copy_libs = \<lparr>cl_registry_to_vec = (\<lambda>_. Inl Cancelled), cl_registry_from_slice = (\<lambda>_. Inl Cancelled),
     cl_inbox_to_vec = (\<lambda>i. if i = application_inbox_of demo_session then Inr [1] else Inl Cancelled),
     cl_inbox_from_slice = (\<lambda>_. Inr (application_inbox_of demo_session)), cl_names = demo_names,
     cl_aead = demo_aead, cl_digest = (\<lambda>_. Inl Cancelled), cl_record_key = demo_key, cl_batch_size = (\<lambda>_. None)\<rparr>"

definition demo_space :: app_space where
  "demo_space = \<lparr>asp_id = demo_id, asp_manifest = demo_manifest, asp_paused = False, asp_retain = 1\<rparr>"

definition copy_manager :: "nat \<Rightarrow> live_session companion" where
  "copy_manager t = \<lparr>cm_root = ''/c'', cm_device_name = ''Mac'', cm_advertise = False, cm_registry = [(demo_id, demo_space)],
     cm_sessions = [(demo_id, demo_stored)], cm_catalog = [], cm_fenced = False,
     cm_files = \<lparr>fw_files = [path_join copy_dir (copy_name t) \<mapsto> [7]], fw_faults = [], fw_events = []\<rparr>,
     cm_keys = (\<lambda>_. Some (replicate 32 3)), cm_key_faults = []\<rparr>"

lemma copy_names: "plain (copy_name t)" "backup_name (copy_name t)"
proof -
  have "CHR ''/'' \<notin> set (show_nat t)"
    using show_nat_digits[of t] by (auto simp: list_all_iff is_ascii_digit_def)
  then show "plain (copy_name t)" by (simp add: copy_name_def new_backup_name_def plain_def padded_def Let_def)
  show "backup_name (copy_name t)" unfolding copy_name_def by (rule backup_name_new)
qed

lemma copy_order: "copy_name 5 < copy_name 9"
proof -
  have "show_nat 5 = ''5''" "show_nat 9 = ''9''"
    by (subst show_nat.simps, simp add: digit_def char_of_eq_iff)+
  moreover have "xs @ as < xs @ bs \<longleftrightarrow> as < bs" for xs as bs :: string by (induction xs) simp_all
  ultimately show ?thesis
    by (simp add: copy_name_def new_backup_name_def padded_def Let_def)
qed

lemma copy_lists: "lists_copies copy_libs dir"
proof -
  have "distinct ns \<and> set ns = {n. plain n \<and> fw_files w (path_join dir n) \<noteq> None}"
    if "demo_names dir w = Some (Inr es)" "traverseR id es = Inr ns" for w es ns
  proof -
    have here: "\<forall>n. plain n \<longrightarrow> n \<notin> {copy_name 5, copy_name 9} \<longrightarrow> fw_files w (path_join dir n) = None"
      and es: "es = map Inr (filter (\<lambda>n. fw_files w (path_join dir n) \<noteq> None) [copy_name 9, copy_name 5])"
      using that(1) by (simp_all only: demo_names_def split: if_splits) simp_all
    have trav: "traverseR id (map Inr xs) = Inr xs" for xs :: "string list" by (induction xs) simp_all
    have ns: "ns = filter (\<lambda>n. fw_files w (path_join dir n) \<noteq> None) [copy_name 9, copy_name 5]"
      using that(2) unfolding es trav by (rule sum.inject(2)[THEN iffD1, symmetric])
    have "set ns = {n \<in> {copy_name 5, copy_name 9}. fw_files w (path_join dir n) \<noteq> None}" unfolding ns by auto
    also have "\<dots> = {n. plain n \<and> fw_files w (path_join dir n) \<noteq> None}"
    proof (rule Collect_cong)
      fix n
      show "n \<in> {copy_name 5, copy_name 9} \<and> fw_files w (path_join dir n) \<noteq> None \<longleftrightarrow> plain n \<and> fw_files w (path_join dir n) \<noteq> None"
        using here[rule_format, of n] copy_names(1) by (cases "n \<in> {copy_name 5, copy_name 9}") auto
    qed
    finally show ?thesis using less_imp_neq[OF copy_order] by (simp add: ns)
  qed
  moreover have "demo_names dir w \<noteq> None" for w by (simp add: demo_names_def)
  ultimately show ?thesis unfolding lists_copies_def copy_libs_def companion_libs.select_convs by blast
qed

text \<open>A backup at one time where there is a copy of another: the copy of the greater time remains.\<close>

lemma copy_files:
  assumes "fw_files w = [path_join copy_dir (copy_name 5) \<mapsto> x, path_join copy_dir (copy_name 9) \<mapsto> y]"
  shows "demo_names copy_dir w = Some (Inr (map Inr [copy_name 9, copy_name 5]))"
proof -
  have "\<forall>n. plain n \<longrightarrow> n \<notin> {copy_name 5, copy_name 9} \<longrightarrow> fw_files w (path_join copy_dir n) = None"
    using path_join_inj[OF _ copy_names(1)] by (simp add: assms)
  then show ?thesis by (simp add: demo_names_def assms)
qed

lemma copy_backs_up:
  assumes "(s, t) \<in> {(5, 9), (9, 5)}"
  shows "\<exists>c'. companion_backup (live_calls demo_live) copy_libs (\<lambda>_. ''x'') (replicate nonce_len 0) (Inl Cancelled) (Inr t)
      demo_id (copy_manager s) = (Inr (copy_name t), c') \<and> cm_key_faults c' = [] \<and> no_faults (cm_files c') \<and>
      cm_root c' = ''/c'' \<and> (\<exists>x. cm_sessions c' = [(demo_id, x)]) \<and> \<not> cm_fenced c' \<and>
      fw_files (cm_files c') = [path_join copy_dir (copy_name 9) \<mapsto> (if t = 9 then 1 # replicate nonce_len 0 @ [1] else [7])]"
proof -
  let ?m = "copy_manager s" and ?p = "\<lambda>t. path_join copy_dir (copy_name t)"
  let ?blob = "blob_version # replicate nonce_len 0 @ [1]"
  have dir: "backup_dir demo_id c = copy_dir" if "cm_root c = ''/c''" for c :: "live_session companion"
    using that by (simp add: backup_dir_def copy_dir_def)
  have neq: "?p 5 \<noteq> ?p 9" using path_join_inj[OF copy_names(1) copy_names(1)] copy_order by auto
  have temp: "path_join copy_dir (''.x.tmp'') \<noteq> ?p u" for u
    using temp_not_copy[OF copy_names(2), of copy_dir "''x''" u] by simp
  let ?w1 = "(cm_files ?m)\<lparr>fw_files := (fw_files (cm_files ?m))(?p t := Some ?blob)\<rparr>"
  have put: "with_disk (atomic ''x'' copy_dir (copy_name t) ?blob) ?m = (Inr (), ?m\<lparr>cm_files := ?w1\<rparr>)"
    using atomic_calm[of "cm_files ?m" copy_dir "''x''" "copy_name t" ?blob] temp
    by (simp add: with_disk_def copy_manager_def no_faults_def)
  let ?m1 = "?m\<lparr>cm_files := ?w1\<rparr>"
  define x y where xdef: "x = (if t = 9 then [7] else ?blob)" and ydef: "y = (if t = 9 then ?blob else [7])"
  have xy: "fw_files ?w1 = [?p 5 \<mapsto> x, ?p 9 \<mapsto> y]"
    using assms by (auto simp: copy_manager_def xdef ydef intro: fun_upd_twist[OF neq, symmetric])
  have names: "companion_backups copy_libs demo_id ?m1 = Inr [copy_name 5, copy_name 9]"
    using copy_files[OF xy] copy_order[unfolded not_le[symmetric]] copy_names(2) dir[of ?m1]
    by (simp add: companion_backups_def space_session_def copy_manager_def copy_libs_def)
  let ?w2 = "?w1\<lparr>fw_files := [?p 9 \<mapsto> y]\<rparr>"
  have drop: "with_disk (remove_old copy_dir 1 [copy_name 5, copy_name 9]) ?m1 = (Inr (), ?m\<lparr>cm_files := ?w2\<rparr>)"
    using xy neq by (simp add: with_disk_def remove_old_def fs_remove_file_def next_fault_def path_exists_def copy_manager_def fun_upd_twist)
  let ?m2 = "?m\<lparr>cm_files := ?w2\<rparr>"
  have sync: "with_disk fs_call ?m2 = (Inr (), ?m2)"
    by (simp add: with_disk_def fs_call_def fs_create_dir_all_def next_fault_def copy_manager_def)
  obtain z where z: "sc_prune_recovery (live_calls demo_live) 1 demo_stored = (Inr (), z)" using demo_prunes by blast
  let ?m3 = "?m2\<lparr>cm_sessions := [(demo_id, z)]\<rparr>"
  have prune: "on_space (sc_prune_recovery (live_calls demo_live) 1) demo_id ?m2 = (Inr (), ?m3)"
    using z by (simp add: on_space_def copy_manager_def)
  have key: "backup_key copy_libs (Inl Cancelled) demo_id ?m = (Inr (AppKey (replicate 32 3)), ?m)"
    by (simp add: backup_key_def key_get_def key_call_def copy_manager_def app_key_from_slice_def)
  have at: "backup_dir demo_id ?m = copy_dir" by (simp add: dir copy_manager_def)
  have inbox: "bindR (space_session demo_id ?m) (sc_inbox (live_calls demo_live)) = Inr (application_inbox_of demo_session)"
    by (simp add: space_session_def copy_manager_def live_calls_def demo_stored_def)
  have cipher: "bindR (cl_inbox_to_vec copy_libs (application_inbox_of demo_session)) (\<lambda>plain.
      encrypt_blob (cl_aead copy_libs) (replicate nonce_len 0) (AppKey (replicate 32 3)) plain (backup_aad demo_id)) = Inr ?blob"
    by (simp add: copy_libs_def encrypt_blob_def demo_aead_def)
  have space: "ok_or Cancelled (bm_get (cm_registry ?m1) demo_id) = Inr demo_space" "asp_retain demo_space = 1"
    by (simp_all add: copy_manager_def demo_space_def)
  have "companion_backup (live_calls demo_live) copy_libs (\<lambda>_. ''x'') (replicate nonce_len 0) (Inl Cancelled) (Inr t)
      demo_id ?m = (Inr (copy_name t), ?m3)"
    unfolding companion_backup_def Let_def at copy_name_def[symmetric]
    by (simp only: inbox key cipher put space names drop sync prune bindS.simps)
  then show ?thesis
    using ydef by (intro exI[of _ ?m3]) (simp add: copy_manager_def no_faults_def blob_version_def)
qed

section \<open>A manager that opens its space\<close>

definition run_space :: "bool \<Rightarrow> app_space" where
  "run_space p = \<lparr>asp_id = demo_id, asp_manifest = demo_manifest, asp_paused = p, asp_retain = 5\<rparr>"

definition run_libs :: companion_libs where
  "run_libs = copy_libs
     \<lparr>cl_registry_to_vec := (\<lambda>m. if m = [(demo_id, run_space True)] then Inr [1]
        else if m = [(demo_id, run_space False)] then Inr [0] else Inl Cancelled),
      cl_registry_from_slice := (\<lambda>bs. if bs = [1] then Inr [(demo_id, run_space True)]
        else if bs = [0] then Inr [(demo_id, run_space False)] else Inl Cancelled),
      cl_batch_size := (\<lambda>b. Some (length (eb_records b)))\<rparr>"

definition run_disk :: "u8 \<Rightarrow> file_world" where
  "run_disk b = \<lparr>fw_files = [path_join ''/c'' ''spaces.json'' \<mapsto> [b]], fw_faults = [], fw_events = []\<rparr>"

definition run_catalog :: "app_support list" where
  "run_catalog = [\<lparr>as_manifest = demo_manifest, as_adapters = [records_adapter ''t'' (hd (m_adapters demo_manifest))]\<rparr>]"

definition run_config :: session_config where
  "run_config =
     \<lparr>cg_metadata = demo_metadata\<lparr>dm_device_kind := ''desktop'', dm_role := ''companion''\<rparr>, cg_listen = SockV4 0 0,
      cg_advertise = False, cg_adapters = [(''notes'', records_adapter ''t'' (hd (m_adapters demo_manifest)))],
      cg_recovery_retention = 5, cg_catch_up = 2 * 1000000000, cg_debounce = 50 * 1000000,
      cg_io_timeout = 60 * 1000000000, cg_record_key = demo_key, cg_batch_size = (\<lambda>b. Some (length (eb_records b)))\<rparr>"

definition run_body :: envelope_body where
  "run_body = demo_body\<lparr>en_metadata := cg_metadata run_config, en_phase := Stopped, en_generation := 0\<rparr>"

lemma run_json: "registry_json run_libs"
  by (auto simp: registry_json_def run_libs_def run_space_def bm_ok_def split: if_splits)

lemma run_config_eq:
  assumes "cm_device_name c = ''Mac''" and "\<not> cm_advertise c"
  shows "space_config run_libs ''t'' c (run_space p) (hd run_catalog) = Inr run_config"
  using assms
  by (simp add: space_config_def run_catalog_def run_libs_def run_config_def run_space_def session_config_new_def
      with_adapter_def records_adapter_def default_adapter_def demo_manifest_def demo_metadata_def bm_of_list_def copy_libs_def Let_def)

lemma run_ready:
  "en_metadata b = cg_metadata run_config \<Longrightarrow> en_epoch b = ''e'' \<Longrightarrow> en_records b = [] \<Longrightarrow> en_generation b \<noteq> u64_max \<Longrightarrow>
   ready_envelope False run_config (Envelope b None) =
     Inr (run_config, Envelope (b\<lparr>en_phase := Stopped, en_generation := en_generation b + 1\<rparr>) None)"
  by (simp add: ready_envelope_def Let_def run_config_def limits_state_def bounded_json_def next_generation_def
      max_batch_bytes_def bm_values_def demo_metadata_def demo_manifest_def metadata_validate_def manifest_validate_def bounded_def)

lemma run_stopped: "run_body\<lparr>en_phase := Stopped, en_generation := g\<rparr> = run_body\<lparr>en_generation := g\<rparr>"
  by (simp add: run_body_def)

lemma run_opens:
  "\<exists>s. sc_open (live_calls demo_live) run_config dir keys = Inr s \<and> lv_config s = run_config \<and> lv_env s = demo_env \<and>
     lv_world s = opened_world (Envelope (run_body\<lparr>en_generation := 1\<rparr>) None) []"
proof -
  have md: "metadata_validate (cg_metadata run_config) = Inr ()"
    by (simp add: run_config_def demo_metadata_def demo_manifest_def metadata_validate_def manifest_validate_def bounded_def)
  have auto: "\<not> is_automatic run_config" by (simp add: is_automatic_def run_config_def demo_metadata_def)
  have check: "check_config run_config = Inr ()"
    using md auto
    by (simp add: check_config_def) (simp add: run_config_def records_adapter_def default_adapter_def demo_metadata_def demo_manifest_def)
  have "\<exists>ks. store_identity demo_store run_config ''d'' = Inr (inviter, ks, AppKey (replicate 32 3))"
    by (simp add: store_identity_def demo_store_def demo_bundle_def inviter_def identity_new_def run_config_def
        demo_metadata_def demo_manifest_def app_key_from_slice_def)
  then obtain ks where identity: "store_identity demo_store run_config ''d'' = Inr (inviter, ks, AppKey (replicate 32 3))" by blast
  have "fresh_envelope demo_store run_config ''e'' inviter = Inr (run_config, Envelope run_body None)"
    using auto by (simp add: fresh_envelope_def demo_store_def run_body_def demo_body_def)
  then have load: "loaded_envelope demo_store run_config ''e'' inviter (AppKey (replicate 32 3)) = Inr (run_config, Envelope run_body None)"
    by (simp add: loaded_envelope_def store_load_def) (simp add: demo_store_def)
  have body: "en_metadata run_body = cg_metadata run_config" "en_records run_body = []" "en_generation run_body = 0"
      "en_epoch run_body = ''e''" "en_phase run_body = Stopped"
    by (simp_all add: run_body_def demo_body_def)
  have ready: "ready_envelope False run_config (Envelope run_body None) =
      Inr (run_config, Envelope (run_body\<lparr>en_generation := 1\<rparr>) None)"
    using run_ready[OF body(1,4,2)] body(3) run_stopped by (simp add: u64_max_def)
  have flags: "st_lease demo_store = Inr ()"
    "list_ex (\<lambda>a. \<not> ad_transactional a) (m_adapters (dm_manifest (cg_metadata run_config))) = False"
    by (simp_all add: run_config_def demo_metadata_def demo_manifest_def demo_store_def)
  show ?thesis
    using auto
    by (simp add: live_calls_def live_open_def demo_live_def session_open_def check identity load ready flags recovered_envelope_def)
qed

text \<open>A session that its calls can change without failing: the generation is far from its bound.\<close>

definition calm :: "nat \<Rightarrow> live_session \<Rightarrow> bool" where
  "calm g s \<longleftrightarrow> lv_config s = run_config \<and> lv_env s = demo_env \<and>
     (let w = lv_world s; b = en_body (sn_envelope w) in sn_saves w = [] \<and> \<not> sn_uncertain w \<and> sn_pairing w = pm_new \<and>
        en_prepared (sn_envelope w) = None \<and> en_epoch b = ''e'' \<and> en_records b = [] \<and> unat (en_generation b) \<le> g)"

lemma mutate_calm:
  assumes "sn_saves w = []" and "\<not> sn_uncertain w" and "en_prepared (sn_envelope w) = None"
    and "op (en_body (sn_envelope w)) = Inr ((), b)" and "en_records b = en_records (en_body (sn_envelope w))"
  obtains w' where "mutate cg fresh op w = (Inr (), w')" "sn_saves w' = []" "\<not> sn_uncertain w'" "sn_pairing w' = sn_pairing w"
    "sn_envelope w' = Envelope b None" "sn_runtime w' = sn_runtime w"
proof -
  let ?w = "if b = en_body (sn_envelope w) then w
    else emit Changed (publish (Envelope b None) (w\<lparr>sn_disk := Envelope b None\<rparr>))"
  have "mutate cg fresh op w = (Inr (), ?w)"
    using assms by (cases "sn_envelope w") (simp add: mutate_settled commit_candidate_def save_quiet publish_def Let_def)
  then show thesis
    by (rule that) (use assms in \<open>cases "sn_envelope w"; simp add: emit_def publish_def\<close>)+
qed

lemma calm_start:
  assumes "calm g s" and "g < 9"
  obtains s' where "sc_start (live_calls demo_live) s = (Inr (), s')" "calm (g + 1) s'"
proof (cases "sn_runtime (lv_world s)")
  case (Some r)
  have "calm (g + 1) s" using assms(1) by (auto simp: calm_def Let_def)
  then show thesis
    using that Some by (simp add: live_calls_def live_do_def session_start_def)
next
  case None
  let ?w = "lv_world s" let ?b = "en_body (sn_envelope ?w)"
  have "en_generation ?b \<noteq> u64_max" using assms by (auto simp: calm_def Let_def u64_max_def)
  then have "start_op ?b = Inr ((), ?b\<lparr>en_generation := en_generation ?b + 1, en_phase := Running\<rparr>)"
    by (simp add: start_op_def next_generation_def)
  then obtain w' where w': "mutate run_config ''t'' start_op ?w = (Inr (), w')" "sn_saves w' = []" "\<not> sn_uncertain w'"
      "sn_pairing w' = sn_pairing ?w"
      "sn_envelope w' = Envelope (?b\<lparr>en_generation := en_generation ?b + 1, en_phase := Running\<rparr>) None"
    using assms(1) by (rule_tac mutate_calm[of ?w start_op _ run_config "''t''"]) (auto simp: calm_def Let_def)
  have "unat (en_generation ?b + 1) \<le> unat (en_generation ?b) + 1" by (simp add: unat_word_ariths)
  then have "unat (en_generation ?b + 1) \<le> g + 1" using assms by (simp add: calm_def Let_def)
  then have "calm (g + 1) (s\<lparr>lv_world := w'\<lparr>sn_runtime := Some \<lparr>rt_address = SockV4 0 0, rt_advertiser = False\<rparr>\<rparr>\<rparr>)"
    using assms(1) w' by (simp add: calm_def Let_def)
  then show thesis
    using that None w'(1) assms(1)
    by (simp add: live_calls_def live_do_def session_start_def demo_live_def start_advertiser_def calm_def run_config_def)
qed

lemma calm_pause:
  assumes "calm g s" and "g < 9"
  obtains s' where "sc_pause (live_calls demo_live) s = (Inr (), s')" "calm (g + 1) s'"
proof -
  let ?w = "lv_world s" let ?b = "en_body (sn_envelope ?w)"
  let ?c = "if en_phase ?b \<noteq> Paused then ?b\<lparr>en_generation := en_generation ?b + 1, en_phase := Paused\<rparr> else ?b"
  have "en_generation ?b \<noteq> u64_max" using assms by (auto simp: calm_def Let_def u64_max_def)
  then have "stop_op Paused ?b = Inr ((), ?c)" by (simp add: stop_op_def next_generation_def)
  then obtain w' where w': "mutate run_config ''t'' (stop_op Paused) ?w = (Inr (), w')" "sn_saves w' = []" "\<not> sn_uncertain w'"
      "sn_pairing w' = sn_pairing ?w" "sn_envelope w' = Envelope ?c None" "sn_runtime w' = sn_runtime ?w"
    using assms(1) by (rule_tac mutate_calm[of ?w "stop_op Paused" _ run_config "''t''"]) (auto simp: calm_def Let_def)
  have "unat (en_generation ?b + 1) \<le> unat (en_generation ?b) + 1" by (simp add: unat_word_ariths)
  then have gen: "unat (en_generation ?c) \<le> g + 1" using assms by (simp add: calm_def Let_def)
  have pm: "pm_close pm_new = (Inr (), pm_new)" by (simp add: pm_close_def pm_lock_def pm_new_def)
  let ?v = "w'\<lparr>sn_pairing := pm_new, sn_invitation := None\<rparr>"
  let ?v = "case sn_runtime w' of None \<Rightarrow> ?v | Some _ \<Rightarrow> wake (?v\<lparr>sn_runtime := None\<rparr>)"
  have "sc_pause (live_calls demo_live) s = (Inr (), s\<lparr>lv_world := ?v\<rparr>)"
    using assms(1) w' pm
    by (simp add: live_calls_def live_do_def session_pause_def session_stop_def demo_live_def calm_def Let_def split: option.split)
  moreover have "calm (g + 1) (s\<lparr>lv_world := ?v\<rparr>)"
    using assms(1) w' gen by (simp add: calm_def Let_def wake_def split: option.split)
  ultimately show thesis by (rule that)
qed

definition run_manager :: "bool \<Rightarrow> live_session \<Rightarrow> live_session companion" where
  "run_manager p s = \<lparr>cm_root = ''/c'', cm_device_name = ''Mac'', cm_advertise = False, cm_registry = [(demo_id, run_space p)],
     cm_sessions = [(demo_id, s)], cm_catalog = run_catalog, cm_fenced = False, cm_files = run_disk (if p then 1 else 0),
     cm_keys = (\<lambda>_. None), cm_key_faults = []\<rparr>"

lemma run_disk_calm: "no_faults (run_disk b)" "honest_faults (run_disk b)"
  by (simp_all add: run_disk_def no_faults_def honest_faults_def)

lemma run_manager_opens:
  "\<exists>s. companion_open (live_calls demo_live) run_libs ''t'' (Inr ''/c'') (Inr ()) ''Mac'' False run_catalog (\<lambda>_. None) []
     (run_disk (if p then 1 else 0)) = (Inr (run_manager p s), run_disk (if p then 1 else 0)) \<and> calm 2 s"
proof -
  let ?d = "run_disk (if p then 1 else 0)"
  obtain s0 where s0: "sc_open (live_calls demo_live) run_config (path_join ''/c/spaces'' demo_id) (space_key demo_id) = Inr s0"
      "calm 1 s0"
    using run_opens[of "path_join ''/c/spaces'' demo_id" "space_key demo_id"]
    by (fastforce simp: calm_def opened_world_def run_body_def demo_body_def)
  let ?c = "(run_manager p s0)\<lparr>cm_sessions := []\<rparr>"
  obtain s1 where s1: "sc_pause (live_calls demo_live) s0 = (Inr (), s1)" "calm (1 + 1) s1" using calm_pause[OF s0(2)] by auto
  obtain s2 where s2: "sc_start (live_calls demo_live) s0 = (Inr (), s2)" "calm (1 + 1) s2" using calm_start[OF s0(2)] by auto
  let ?s = "if p then s1 else s2"
  have s: "(if p then sc_pause (live_calls demo_live) s0 else sc_start (live_calls demo_live) s0) = (Inr (), ?s)" "calm 2 ?s"
    using s1 s2 by (auto simp: numeral_2_eq_2)
  have valid: "space_valid demo_id (run_space p)"
    by (simp add: space_valid_def run_space_def demo_id_eq is_ascii_hexdigit_def is_ascii_digit_def list_all_iff hex_value_def)
  have "compatible_with demo_manifest demo_manifest" by (simp add: compatible_with_def)
  then have space: "open_space (live_calls demo_live) run_libs ''t'' (run_space p) ?c = Inr s0"
    using s0(1) run_config_eq[of ?c p]
    by (simp add: open_space_def run_manager_def run_catalog_def run_space_def path_join_def)
  have spaces: "open_spaces (live_calls demo_live) run_libs ''t'' [(demo_id, run_space p)] ?c = Inr (run_manager p ?s)"
    using valid space s(1) by (simp add: run_space_def run_manager_def)
  have "read_registry run_libs (path_join ''/c'' ''spaces.json'') ?d = (Inr [(demo_id, run_space p)], ?d)"
    by (simp add: read_registry_def fs_read_def next_fault_def run_disk_def run_libs_def)
  moreover have "foldR (\<lambda>_. support_validate) () run_catalog = Inr ()"
    using demo_valid(1)
    by (simp add: run_catalog_def support_validate_def records_adapter_def default_adapter_def Let_def) (simp add: demo_manifest_def)
  ultimately show ?thesis
    using spaces s(2) run_disk_calm(1)[of "if p then 1 else 0"]
    by (intro exI[of _ ?s]) (simp add: companion_open_def fs_simps run_manager_def)
qed

lemma run_manager_pauses:
  assumes "calm 2 s"
  obtains s' where "companion_pause (live_calls demo_live) run_libs ''x'' demo_id (run_manager False s) = (Inr (), run_manager True s')"
proof -
  let ?c = "run_manager False s" and ?d = "run_disk 0"
  obtain s' where s': "sc_pause (live_calls demo_live) s = (Inr (), s')" using calm_pause[OF assms] by auto
  have temp: "path_join ''/c'' ''.x.tmp'' \<noteq> path_join ''/c'' ''spaces.json''" by (simp add: path_join_def)
  have "atomic ''x'' ''/c'' ''spaces.json'' [1] ?d = (Inr (), run_disk 1)"
    using atomic_calm[of ?d "''/c''" "''x''" "''spaces.json''" "[1]"] run_disk_calm(1)[of 0] temp by (simp add: run_disk_def)
  then have "set_paused (live_calls demo_live) run_libs ''x'' True demo_id ?c = (Inr (), run_manager True s)"
    by (simp add: set_paused_def persist_registry_def with_disk_def run_manager_def space_session_def run_libs_def run_space_def)
  then have "companion_pause (live_calls demo_live) run_libs ''x'' demo_id ?c = (Inr (), run_manager True s')"
    using s' by (simp add: companion_pause_def on_space_def run_manager_def)
  then show thesis by (rule that)
qed

end
