(* ===== verification/Props_Companion.thy ===== *)
theory Props_Companion
  imports Companion_Demo Momentum
begin

text \<open>
  The properties of the companion: its registry and its sessions through every run and restart, and
  what merging does to the records of Momentum.
\<close>

section \<open>The manager\<close>

text \<open>
  C15: a manager that opened on a disk that tells the truth about its registry keeps these through
  every run, whatever the peers, the disk and the key store do, and whatever callers do with a session
  while the manager hands it out: the registry and the sessions name the same spaces; while the manager works, the registry on disk is the one in memory;
  once a save may not have lasted, no session runs and none is handed out.
\<close>

theorem manager_always_ok:
  assumes "registry_json l" and "honest_faults w"
    and "companion_open (live_calls li) l fresh canonical lease name advertise catalog keys faults w = (Inr c0, w0)"
    and "companion_run l c0 c"
  shows "(\<forall>ident. bm_has (cm_registry c) ident = bm_has (cm_sessions c) ident) \<and>
    (if cm_fenced c
     then (\<forall>ident s. bm_get (cm_sessions c) ident = Some s \<longrightarrow> \<not> live_running s) \<and>
       (\<forall>ident. \<not> is_ok (space_session ident c))
     else disk_registry l c = Inr (cm_registry c))"
  using run_keeps[OF assms(1,4)] open_manager_ok[OF assms(1-3)]
  by (auto simp: manager_ok_def durable_registry_def paired_def space_session_def companion_fence_def fail_code_def is_ok_iff
      split: if_splits)

text \<open>
  C16: pausing a space lasts: after a successful pause, at any point of a run, every manager that opens
  on the same disk has the space, and its session does not run; a resumed one runs again.
\<close>

theorem pause_lasts:
  assumes "registry_json l" and "honest_faults w"
    and "companion_open (live_calls li) l fresh canonical lease name advertise catalog keys faults w = (Inr c0, w0)"
    and "companion_run l c0 c"
    and "(if p then companion_pause else companion_resume) (live_calls (li1 :: string live_inputs)) l fresh1 ident c = (Inr (), c1)"
    and "honest_faults v" and "fw_files v = fw_files (cm_files c1)"
    and "companion_open (live_calls li2) l fresh2 (Inr (cm_root c1)) lease2 name2 advertise2 catalog2 keys2 faults2 v = (Inr c2, v')"
  shows "\<exists>s. bm_get (cm_sessions c2) ident = Some s \<and> live_running s = (\<not> p)"
proof -
  have ok: "manager_ok l live_running c" "durable_registry l live_running c"
    using run_keeps[OF assms(1,4)] open_manager_ok[OF assms(1-3)] by (blast, auto simp: manager_ok_def)
  obtain d f where d: "set_paused (live_calls li1) l fresh1 p ident c = (Inr (), d)" "on_space f ident d = (Inr (), c1)"
    using assms(5) by (cases p) (auto simp: companion_pause_def companion_resume_def bindS_Inr)
  obtain space where space: "\<not> cm_fenced c"
      "persist_registry (live_calls li1) l fresh1 (bm_insert ident (space\<lparr>asp_paused := p\<rparr>) (cm_registry c)) c = (Inr (), d)"
    using d(1) by (auto simp: set_paused_def bindS_Inr space_session_Inr ok_or_Inr)
  have cand: "bm_ok (bm_insert ident (space\<lparr>asp_paused := p\<rparr>) (cm_registry c))"
    using ok(2) by (simp add: durable_registry_def bm_ok_insert)
  note saved = persist_result[OF assms(1) ok(2) cand live.shut_down space(2)]
  have d': "durable_registry l live_running d" "\<not> cm_fenced d" "cm_registry d = bm_insert ident (space\<lparr>asp_paused := p\<rparr>) (cm_registry c)"
    using saved by simp_all
  have c1: "durable_registry l live_running c1" "\<not> cm_fenced c1" "cm_registry c1 = cm_registry d"
    using on_space_result[OF d(2) d'(1,2)] by blast+
  note opened = open_manager_ok[OF assms(1) assms(6) assms(8)]
  have "cm_root c2 = cm_root c1" using opened by auto
  then have "cm_registry c2 = cm_registry c1"
    using opened c1 assms(7) by (auto simp: durable_registry_def disk_registry_def registry_path_def)
  then have reg: "bm_get (cm_registry c2) ident = Some (space\<lparr>asp_paused := p\<rparr>)"
    using c1(3) d'(3) by (simp add: bm_get_insert)
  then have "bm_has (cm_sessions c2) ident"
    using opened pairedD[of c2 ident] by (simp add: manager_ok_def bm_has_def)
  then obtain s where s: "bm_get (cm_sessions c2) ident = Some s" by (auto simp: bm_has_def)
  then have "live_running s = (\<not> p)" using opened reg by fastforce
  then show ?thesis using s by blast
qed


section \<open>Momentum\<close>

lemma prepared_Inr:
  "momentum_prepare l fresh local incoming revision = Inr p \<longleftrightarrow>
     (\<exists>held merged. foldR (momentum_local l) [] local = Inr held \<and> foldR (momentum_merge l) held incoming = Inr merged \<and>
       p = \<lparr>chg_id = fresh, chg_adapter = ''ops'', chg_expected_revision = revision,
            chg_staged = bm_values merged, chg_recovery = local\<rparr>)"
  by (auto simp: momentum_prepare_def)

text \<open>
  C17: a change prepared for Momentum has every local record in it, under its id: as it was, or with a
  greater clock. An operation that was deleted stays deleted, and one that is still there has the same
  fields: whatever a peer sends, no operation is lost, rewritten or brought back. The local records
  are kept for recovery, and no id is staged twice.
\<close>

theorem momentum_keeps_operations:
  assumes "momentum_prepare l fresh local incoming revision = Inr p" and "distinct (map mg_id local)"
  shows "chg_recovery p = local \<and> distinct (map mg_id (chg_staged p)) \<and>
    (\<forall>r \<in> set local. \<exists>r' \<in> set (chg_staged p). r' = r \<or>
       mg_id r' = mg_id r \<and> mg_clock r < mg_clock r' \<and>
       (\<exists>d d'. momentum_decode l r = Inr d \<and> momentum_decode l r' = Inr d' \<and>
         (r_entity d = ''Op'' \<longrightarrow> (r_tombstone d \<longrightarrow> r_tombstone d') \<and>
            (\<not> r_tombstone d' \<longrightarrow> fvm_eq (r_fields d') (r_fields d)))))"
proof -
  obtain held merged where run: "foldR (momentum_local l) [] local = Inr held" "foldR (momentum_merge l) held incoming = Inr merged"
    and p: "chg_staged p = bm_values merged" "chg_recovery p = local"
    using assms(1) unfolding prepared_Inr by auto
  have held: "\<forall>k w. bm_get held k = Some w \<longrightarrow> mg_id w = k" "\<forall>r \<in> set local. bm_get held (mg_id r) = Some r" "bm_ok held"
    using momentum_locals[OF run(1) assms(2)] by simp_all
  have merged: "\<forall>k w. bm_get merged k = Some w \<longrightarrow> mg_id w = k" "bm_ok merged"
    "\<forall>k w. bm_get held k = Some w \<longrightarrow> (\<exists>w'. bm_get merged k = Some w' \<and> may_become l w w')"
    using momentum_merges[OF run(2) held(1)] held(3) by - (elim conjE, simp)+
  have "\<exists>r' \<in> set (chg_staged p). may_become l r r'" if r: "r \<in> set local" for r
  proof -
    obtain r' where "bm_get merged (mg_id r) = Some r'" "may_become l r r'" using merged(3) held(2) r by blast
    then show ?thesis unfolding p using bm_get_in_values by metis
  qed
  moreover have "map mg_id (bm_values merged) = map fst merged"
    using merged(1) bm.entries_iff[OF merged(2)] by (auto simp: bm_values_def)
  then have "distinct (map mg_id (chg_staged p))"
    using merged(2) unfolding p by (simp add: bm_ok_def strict_sorted_iff)
  ultimately show ?thesis using p(2) unfolding may_become_def by blast
qed

text \<open>
  C18: two devices that hold different records of one Momentum id, and each merge the other's without
  an error, agree afterwards exactly when the case is not that of a deleted operation whose deletion
  has the smaller clock. In that case the one keeps the operation and the other its deletion.
\<close>

theorem momentum_agreement:
  assumes "momentum_prepare l f [a] [b] m = Inr p" and "momentum_prepare l g [b] [a] n = Inr q"
    and "mg_id a = mg_id b" and "momentum_decode l a = Inr x" and "momentum_decode l b = Inr y"
  shows "chg_staged p = chg_staged q \<longleftrightarrow>
    \<not> (r_entity x = ''Op'' \<and> (r_tombstone x \<and> \<not> r_tombstone y \<and> mg_clock a < mg_clock b \<or>
                             r_tombstone y \<and> \<not> r_tombstone x \<and> mg_clock b < mg_clock a))"
proof -
  have e: "r_entity x = r_entity y" using momentum_same_entity[OF assms(4,5,3)] .
  have one: "foldR (momentum_local l) [] [r] = Inr [(mg_id r, r)]" if "momentum_decode l r = Inr d" for r d
    using that by (simp add: momentum_local_def)
  have two: "chg_staged p' = (if r_entity u = ''Op'' \<and> r_tombstone u \<and> \<not> r_tombstone v \<or> mg_clock s \<le> mg_clock r then [r] else [s]) \<and>
      (mg_clock r = mg_clock s \<longrightarrow> r = s)"
    if "momentum_prepare l h [r] [s] k = Inr p'" "mg_id r = mg_id s" "momentum_decode l r = Inr u" "momentum_decode l s = Inr v"
    for h r s k p' u v
    using that one[OF that(3)]
    by (auto simp: prepared_Inr momentum_merge_def bm_values_def invalid_record_def split: if_splits)
  note p = two[OF assms(1,3,4,5)] and q = two[OF assms(2) assms(3)[symmetric] assms(5,4)]
  consider "mg_clock a = mg_clock b" | "mg_clock a < mg_clock b" | "mg_clock b < mg_clock a" by fastforce
  then show ?thesis
  proof cases
    case 1
    then show ?thesis using p q e by auto
  next
    case 2
    then have "a \<noteq> b" by auto
    then show ?thesis using 2 p q e by auto
  next
    case 3
    then have "a \<noteq> b" by auto
    then show ?thesis using 3 p q e by auto
  qed
qed


section \<open>Recovery copies\<close>

text \<open>
  C19: a backup that returns leaves, of the copies there were and the new one, those with the greatest
  names, at most as many as the space retains; the old ones keep their bytes. The new copy is one of
  them exactly when fewer than that many have greater names: names begin with the clock, so after the
  clock went back the backup can return the name of a copy it has just removed.
\<close>

theorem backup_keeps_newest:
  assumes "companion_backup sc l rng nonce generated now ident c = (Inr name, c')"
    and "lists_copies l (backup_dir ident c)" and "plain (rng 0)" and "bm_get (cm_registry c) ident = Some space"
    and "\<forall>k. generated = Inr k \<longrightarrow> app_key_from_slice (as_bytes k) = Inr k"
  shows "copies (backup_dir ident c) (cm_files c') =
       {n \<in> insert name (copies (backup_dir ident c) (cm_files c)).
          card {m \<in> insert name (copies (backup_dir ident c) (cm_files c)). n < m} < asp_retain space} \<and>
    (\<forall>n \<in> copies (backup_dir ident c) (cm_files c'). n \<noteq> name \<longrightarrow>
       fw_files (cm_files c') (path_join (backup_dir ident c) n) = fw_files (cm_files c) (path_join (backup_dir ident c) n))"
proof (rule backup_result[OF assms(1-3)])
  show "generated = Inr k \<Longrightarrow> app_key_from_slice (as_bytes k) = Inr k" for k using assms(5) by blast
next
  fix s inbox key body blob space'
  let ?dir = "backup_dir ident c"
  assume "bm_get (cm_registry c) ident = Some space'"
  then have space': "space' = space" using assms(4) by simp
  assume left: "copies ?dir (cm_files c') = {n \<in> insert name (copies ?dir (cm_files c)).
          card {m \<in> insert name (copies ?dir (cm_files c)). n < m} < asp_retain space'}"
    and bytes: "\<And>n. n \<in> copies ?dir (cm_files c') \<Longrightarrow> fw_files (cm_files c') (path_join ?dir n) =
       (if n = name then Some blob else fw_files (cm_files c) (path_join ?dir n))"
  have "\<forall>n \<in> copies ?dir (cm_files c'). n \<noteq> name \<longrightarrow>
      fw_files (cm_files c') (path_join ?dir n) = fw_files (cm_files c) (path_join ?dir n)"
    using bytes by (intro ballI impI) simp
  then show ?thesis using left[unfolded space'] by (rule conjI[rotated])
qed

text \<open>
  A copy whose name is among the greatest can be exported: with the key, the file and the listing
  readable, exporting the name a backup returned gives the records and the receipts the session showed
  the app when the backup was made.
\<close>

theorem backup_exported:
  assumes "companion_backup sc l rng nonce generated now ident c = (Inr name, c')"
    and "lists_copies l (backup_dir ident c)" and "plain (rng 0)" and "bm_get (cm_registry c) ident = Some space"
    and "\<forall>k. generated = Inr k \<longrightarrow> app_key_from_slice (as_bytes k) = Inr k"
    and "card {m \<in> copies (backup_dir ident c) (cm_files c). name < m} < asp_retain space"
    and "aead_sound (cl_aead l)" and "length nonce = nonce_len"
    and "\<forall>i bs. cl_inbox_to_vec l i = Inr bs \<longrightarrow> cl_inbox_from_slice l bs = Inr i"
    and "cm_key_faults c' = []" and "no_faults (cm_files c')" and "companion_backups l ident c' = Inr names"
  shows "\<exists>s. space_session ident c = Inr s \<and> fst (export_backup l ident name c') = sc_inbox sc s"
proof (rule backup_result[OF assms(1-3)])
  show "generated = Inr k \<Longrightarrow> app_key_from_slice (as_bytes k) = Inr k" for k using assms(5) by blast
next
  fix s inbox key body blob space'
  let ?dir = "backup_dir ident c"
  assume s: "space_session ident c = Inr s" "sc_inbox sc s = Inr inbox" and body: "cl_inbox_to_vec l inbox = Inr body"
    and blob: "encrypt_blob (cl_aead l) nonce key body (backup_aad ident) = Inr blob"
    and space': "bm_get (cm_registry c) ident = Some space'" and name: "plain name" "backup_name name"
    and key: "\<exists>bs. cm_keys c' (backup_key_name ident) = Some bs \<and> app_key_from_slice bs = Inr key"
    and root: "cm_root c' = cm_root c"
    and left: "copies ?dir (cm_files c') = {n \<in> insert name (copies ?dir (cm_files c)).
          card {m \<in> insert name (copies ?dir (cm_files c)). n < m} < asp_retain space'}"
    and bytes: "\<And>n. n \<in> copies ?dir (cm_files c') \<Longrightarrow> fw_files (cm_files c') (path_join ?dir n) =
       (if n = name then Some blob else fw_files (cm_files c) (path_join ?dir n))"
  have "{m \<in> insert name (copies ?dir (cm_files c)). name < m} = {m \<in> copies ?dir (cm_files c). name < m}" by auto
  then have here: "name \<in> copies ?dir (cm_files c')" using left space' assms(4,6) by simp
  have dir: "backup_dir ident c' = ?dir" using root by (simp add: backup_dir_def)
  have "name \<in> set names" using backups_are[OF assms(12)] assms(2) here by (simp add: dir)
  moreover obtain bs where "cm_keys c' (backup_key_name ident) = Some bs" "app_key_from_slice bs = Inr key" using key by blast
  moreover have "fw_files (cm_files c') (path_join ?dir name) = Some blob" using bytes[OF here] by simp
  moreover have "decrypt_blob (cl_aead l) key blob (backup_aad ident) = Inr body"
    by (rule decrypt_encrypt_blob[OF assms(7,8) blob])
  moreover have "cl_inbox_from_slice l body = Inr inbox" using assms(9) body by blast
  ultimately have "fst (export_backup l ident name c') = Inr inbox"
    using assms(10,11,12)
    by (simp add: export_backup_def dir Let_def key_get_def key_call_def with_disk_def fs_read_def next_fault_def no_faults_def)
  then show ?thesis using s by simp
qed


section \<open>A concrete run\<close>

definition op_made :: sync_record where
  "op_made = \<lparr>r_schema = ''momentum'', r_entity = ''Op'', r_id = ''1'',
     r_fields = [(''action'', FString ''{}''), (''op'', FString ''{}''), (''origin'', FString ''a''), (''t'', FI64 0)],
     r_tombstone = False, r_clock = LamportClock 5 ''a'', r_updated_at = None, r_field_clocks = []\<rparr>"

definition op_gone :: sync_record where
  "op_gone = op_made\<lparr>r_fields := [], r_tombstone := True, r_clock := LamportClock 3 ''b''\<rparr>"

definition op_wire :: "sync_record \<Rightarrow> managed_record" where
  "op_wire r = \<lparr>mg_adapter = ''ops'', mg_id = record_entry_key momentum_app_id ''momentum'' ''Op'' ''1'',
     mg_value = (if r_tombstone r then [0] else [1]), mg_deleted = r_tombstone r, mg_clock = r_clock r\<rparr>"

definition momentum_json :: momentum_libs where
  "momentum_json = \<lparr>ml_to_vec = (\<lambda>r. Inr (mg_value (op_wire r))),
     ml_from_slice = (\<lambda>bs. Inr (if bs = [1] then op_made else op_gone)), ml_is_object = (\<lambda>_. Inr True),
     ml_base64_decode = (\<lambda>_. None), ml_gunzip = (\<lambda>_ _. Inr [])\<rparr>"

lemma momentum_decodes:
  "momentum_decode momentum_json (op_wire op_made) = Inr op_made"
  "momentum_decode momentum_json (op_wire op_gone) = Inr op_gone"
  by (simp_all add: momentum_decode_def momentum_json_def op_wire_def op_gone_def)
    (simp_all add: op_made_def check_live_fields_def check_operation_field_def)

lemma momentum_prepares:
  "\<exists>p. momentum_prepare momentum_json f [op_wire op_made] [op_wire op_gone] n = Inr p \<and> chg_staged p = [op_wire op_made]"
  "\<exists>p. momentum_prepare momentum_json f [op_wire op_gone] [op_wire op_made] n = Inr p \<and> chg_staged p = [op_wire op_gone]"
  by (simp_all add: momentum_prepare_def momentum_local_def momentum_merge_def momentum_decodes bm_values_def)
    (simp_all add: op_wire_def op_gone_def op_made_def clock_le_iff invalid_record_def)

lemma momentum_keeps_operations_witness:
  "\<exists>p. momentum_prepare momentum_json ''t'' [op_wire op_gone] [op_wire op_made] 0 = Inr p \<and>
     chg_recovery p = [op_wire op_gone] \<and> op_wire op_made \<notin> set (chg_staged p)"
proof -
  obtain p where p: "momentum_prepare momentum_json ''t'' [op_wire op_gone] [op_wire op_made] 0 = Inr p" "chg_staged p = [op_wire op_gone]"
    using momentum_prepares(2) by blast
  have "op_wire op_gone \<noteq> op_wire op_made" by (simp add: op_wire_def op_gone_def op_made_def)
  then show ?thesis using p momentum_keeps_operations[OF p(1)] by auto
qed

lemma momentum_agreement_witness:
  "\<exists>p q. momentum_prepare momentum_json ''t'' [op_wire op_made] [op_wire op_gone] 0 = Inr p \<and>
     momentum_prepare momentum_json ''t'' [op_wire op_gone] [op_wire op_made] 0 = Inr q \<and> chg_staged p \<noteq> chg_staged q"
proof -
  obtain p q where runs: "momentum_prepare momentum_json ''t'' [op_wire op_made] [op_wire op_gone] 0 = Inr p"
      "momentum_prepare momentum_json ''t'' [op_wire op_gone] [op_wire op_made] 0 = Inr q"
    using momentum_prepares by blast
  have "mg_id (op_wire op_made) = mg_id (op_wire op_gone)" by (simp add: op_wire_def)
  from momentum_agreement[OF runs this momentum_decodes] runs show ?thesis
    by (simp add: op_wire_def op_gone_def op_made_def clock_less_iff)
qed

text \<open>The clock went back: the backup returns the name of a copy that is not there.\<close>

lemma copy_manager_simps:
  "backup_dir demo_id (copy_manager t) = copy_dir" "bm_get (cm_registry (copy_manager t)) demo_id = Some demo_space"
  "asp_retain demo_space = 1" "copies copy_dir (cm_files (copy_manager t)) = {copy_name t}"
proof -
  show "copies copy_dir (cm_files (copy_manager t)) = {copy_name t}"
    using copy_names path_join_inj[of _ "copy_name t" copy_dir] by (auto simp: copies_def copy_manager_def)
qed (simp_all add: backup_dir_def copy_dir_def copy_manager_def demo_space_def)

lemma backup_keeps_newest_witness:
  "\<exists>c'. companion_backup (live_calls demo_live) copy_libs (\<lambda>_. ''x'') (replicate nonce_len 0) (Inl Cancelled) (Inr 5)
      demo_id (copy_manager 9) = (Inr (copy_name 5), c') \<and> copies copy_dir (cm_files c') = {copy_name 9}"
proof -
  obtain c' where run: "companion_backup (live_calls demo_live) copy_libs (\<lambda>_. ''x'') (replicate nonce_len 0) (Inl Cancelled) (Inr 5)
      demo_id (copy_manager 9) = (Inr (copy_name 5), c')"
    using copy_backs_up[of 9 5] by auto
  have "\<forall>k. (Inl Cancelled :: app_key result) = Inr k \<longrightarrow> app_key_from_slice (as_bytes k) = Inr k" by simp
  from backup_keeps_newest[OF run copy_lists _ copy_manager_simps(2) this]
  have "copies copy_dir (cm_files c') = {n \<in> {copy_name 5, copy_name 9}. card {m \<in> {copy_name 5, copy_name 9}. n < m} < 1}"
    by (simp add: copy_manager_simps plain_def)
  moreover have "{m \<in> {copy_name 5, copy_name 9}. copy_name 5 < m} = {copy_name 9}" "{m \<in> {copy_name 5, copy_name 9}. copy_name 9 < m} = {}"
    using copy_order by auto
  ultimately have "copies copy_dir (cm_files c') = {copy_name 9}" using less_imp_neq[OF copy_order] by auto
  then show ?thesis using run by blast
qed

lemma backup_exported_witness:
  "\<exists>c'. companion_backup (live_calls demo_live) copy_libs (\<lambda>_. ''x'') (replicate nonce_len 0) (Inl Cancelled) (Inr 9)
      demo_id (copy_manager 5) = (Inr (copy_name 9), c') \<and>
     fst (export_backup copy_libs demo_id (copy_name 9) c') = Inr (application_inbox_of demo_session)"
proof -
  obtain c' x where run: "companion_backup (live_calls demo_live) copy_libs (\<lambda>_. ''x'') (replicate nonce_len 0) (Inl Cancelled) (Inr 9)
      demo_id (copy_manager 5) = (Inr (copy_name 9), c')" and calm: "cm_key_faults c' = []" "no_faults (cm_files c')"
    and after: "cm_root c' = ''/c''" "cm_sessions c' = [(demo_id, x)]" "\<not> cm_fenced c'"
      "fw_files (cm_files c') = [path_join copy_dir (copy_name 9) \<mapsto> 1 # replicate nonce_len 0 @ [1]]"
    using copy_backs_up[of 5 9] by auto
  have none: "\<forall>k. (Inl Cancelled :: app_key result) = Inr k \<longrightarrow> app_key_from_slice (as_bytes k) = Inr k" by simp
  have "{m. m = copy_name 5 \<and> copy_name 9 < m} = {}" using copy_order by auto
  then have few: "card {m \<in> copies (backup_dir demo_id (copy_manager 5)) (cm_files (copy_manager 5)). copy_name 9 < m} < asp_retain demo_space"
    by (simp add: copy_manager_simps)
  have ciph: "aead_sound (cl_aead copy_libs)" "length (replicate nonce_len (0 :: u8)) = nonce_len"
    by (simp_all add: copy_libs_def demo_aead_def aead_sound_def)
  have json: "\<forall>i bs. cl_inbox_to_vec copy_libs i = Inr bs \<longrightarrow> cl_inbox_from_slice copy_libs bs = Inr i"
    by (simp add: copy_libs_def)
  have "\<exists>names. companion_backups copy_libs demo_id c' = Inr names"
  proof -
    have "\<forall>n. plain n \<longrightarrow> n \<notin> {copy_name 5, copy_name 9} \<longrightarrow> fw_files (cm_files c') (path_join copy_dir n) = None"
      using path_join_inj[OF _ copy_names(1)] by (simp add: after(4))
    then have "demo_names copy_dir (cm_files c') = Some (Inr [Inr (copy_name 9)])"
      using path_join_inj[OF copy_names(1) copy_names(1)] less_imp_neq[OF copy_order] by (simp add: demo_names_def after(4))
    moreover have "backup_dir demo_id c' = copy_dir" using after(1) by (simp add: backup_dir_def copy_dir_def)
    ultimately show ?thesis
      using after by (simp add: companion_backups_def space_session_def copy_libs_def)
  qed
  then obtain names where "companion_backups copy_libs demo_id c' = Inr names" by blast
  from backup_exported[OF run copy_lists _ copy_manager_simps(2) none few ciph json calm this] run
  show ?thesis
    by (auto simp: plain_def space_session_def copy_manager_def companion_fence_def live_calls_def demo_stored_def)
qed

lemma manager_always_ok_witness:
  "\<exists>s s'. companion_open (live_calls demo_live) run_libs ''t'' (Inr ''/c'') (Inr ()) ''Mac'' False run_catalog (\<lambda>_. None) [] (run_disk 0) =
       (Inr (run_manager False s), run_disk 0) \<and>
     companion_pause (live_calls demo_live) run_libs ''x'' demo_id (run_manager False s) = (Inr (), run_manager True s') \<and>
     disk_registry run_libs (run_manager True s') = Inr [(demo_id, run_space True)]"
proof -
  obtain s where opened: "companion_open (live_calls demo_live) run_libs ''t'' (Inr ''/c'') (Inr ()) ''Mac'' False run_catalog
      (\<lambda>_. None) [] (run_disk 0) = (Inr (run_manager False s), run_disk 0)" "calm 2 s"
    using run_manager_opens[of False] by auto
  obtain s' where paused: "companion_pause (live_calls demo_live) run_libs ''x'' demo_id (run_manager False s) = (Inr (), run_manager True s')"
    using run_manager_pauses[OF opened(2)] .
  have "companion_step run_libs (run_manager False s) (run_manager True s')"
    using companion_step.pause[of run_libs "run_manager False s" demo_live "''x''" demo_id] by (simp add: paused)
  then have "companion_run run_libs (run_manager False s) (run_manager True s')" by (rule companion_run.step[OF companion_run.start])
  from manager_always_ok[OF run_json run_disk_calm(2) opened(1) this] opened(1) paused show ?thesis
    by (auto simp: run_manager_def)
qed

lemma pause_lasts_witness:
  "\<exists>s c1 c2 t. companion_open (live_calls demo_live) run_libs ''t'' (Inr ''/c'') (Inr ()) ''Mac'' False run_catalog (\<lambda>_. None) [] (run_disk 0) =
       (Inr (run_manager False s), run_disk 0) \<and>
     companion_pause (live_calls demo_live) run_libs ''x'' demo_id (run_manager False s) = (Inr (), c1) \<and>
     companion_open (live_calls demo_live) run_libs ''t'' (Inr ''/c'') (Inr ()) ''Mac'' False run_catalog (\<lambda>_. None) [] (cm_files c1) =
       (Inr c2, cm_files c1) \<and> bm_get (cm_sessions c2) demo_id = Some t \<and> \<not> live_running t"
proof -
  obtain s where opened: "companion_open (live_calls demo_live) run_libs ''t'' (Inr ''/c'') (Inr ()) ''Mac'' False run_catalog
      (\<lambda>_. None) [] (run_disk 0) = (Inr (run_manager False s), run_disk 0)" "calm 2 s"
    using run_manager_opens[of False] by auto
  obtain s' where paused: "companion_pause (live_calls demo_live) run_libs ''x'' demo_id (run_manager False s) = (Inr (), run_manager True s')"
    using run_manager_pauses[OF opened(2)] .
  obtain s2 where again: "companion_open (live_calls demo_live) run_libs ''t'' (Inr ''/c'') (Inr ()) ''Mac'' False run_catalog
      (\<lambda>_. None) [] (run_disk 1) = (Inr (run_manager True s2), run_disk 1)"
    using run_manager_opens[of True] by auto
  have call: "(if True then companion_pause else companion_resume) (live_calls demo_live) run_libs ''x'' demo_id (run_manager False s) =
      (Inr (), run_manager True s')"
    using paused by simp
  have after: "cm_files (run_manager True s') = run_disk 1" "cm_root (run_manager True s') = ''/c''"
    by (simp_all add: run_manager_def)
  have "fw_files (run_disk 1) = fw_files (cm_files (run_manager True s'))" unfolding after ..
  from pause_lasts[OF run_json run_disk_calm(2) opened(1) companion_run.start call run_disk_calm(2) this again[folded after(2)]]
  obtain t where "bm_get (cm_sessions (run_manager True s2)) demo_id = Some t" "\<not> live_running t" by auto
  then show ?thesis using opened(1) paused again unfolding after(1)[symmetric] by blast
qed

end
