(* ===== verification/Sqlite_Logical.thy ===== *)
theory Sqlite_Logical
  imports Logical_Adapters
begin

text \<open>
  \<open>sqlite_logical.rs\<close>: records in a SQLite database, in one table of the adapter's own or mapped onto
  tables of the app with their clocks in a table beside them. The database is the argument
  \<open>sql_calls\<close>, one function for each statement the code prepares; JSON, and the text of a float, are in
  \<open>sql_libs\<close>. An \<open>i64\<close> is a word, read with \<open>sint\<close>.
\<close>

section \<open>Values\<close>

datatype sql_value = SqlNull | SqlInteger u64 | SqlReal u64 | SqlText string | SqlBlob bytes

datatype json_number = JPos u64 | JNeg u64 | JFloat u64

datatype json_value =
    JNull
  | JBool bool
  | JNumber json_number
  | JString string
  | JArray "json_value list"
  | JObject "(string \<times> json_value) list"

datatype sqlite_encoding = EncPlain | EncBool | EncJson | EncJsonValue

record sql_libs =
  ql_field_from_str :: "string \<Rightarrow> field_value option"
  ql_field_from_slice :: "bytes \<Rightarrow> field_value option"
  ql_field_to_string :: "field_value \<Rightarrow> string option"
  ql_json_from_str :: "string \<Rightarrow> json_value option"
  ql_json_from_slice :: "bytes \<Rightarrow> json_value option"
  ql_json_to_string :: "json_value \<Rightarrow> string option"
  ql_fields_from_str :: "string \<Rightarrow> (string, field_value) bmap option"
  ql_fields_to_string :: "(string, field_value) bmap \<Rightarrow> string result"
  ql_f64_of_u64 :: "u64 \<Rightarrow> u64"
  ql_f64_to_string :: "u64 \<Rightarrow> string"
  ql_utf8_lossy :: "bytes \<Rightarrow> string"

definition show_i64 :: "u64 \<Rightarrow> string" where
  "show_i64 v = (if sint v < 0 then CHR ''-'' # show_nat (nat (- sint v)) else show_nat (nat (sint v)))"

definition sqlite_value_to_string :: "sql_libs \<Rightarrow> sql_value \<Rightarrow> string" where
  "sqlite_value_to_string q v =
     (case v of SqlNull \<Rightarrow> '''' | SqlInteger i \<Rightarrow> show_i64 i | SqlReal f \<Rightarrow> ql_f64_to_string q f
      | SqlText s \<Rightarrow> s | SqlBlob bs \<Rightarrow> ql_utf8_lossy q bs)"

text \<open>No letter outside ASCII has a lower case that is one of the letters of these words.\<close>

definition ascii_lower :: "char \<Rightarrow> char" where
  "ascii_lower ch = (if CHR ''A'' \<le> ch \<and> ch \<le> CHR ''Z'' then char_of (of_char ch + (32 :: nat)) else ch)"

definition is_true_text :: "string \<Rightarrow> bool" where
  "is_true_text s \<longleftrightarrow> map ascii_lower s \<in> {''true'', ''1'', ''yes''}"

definition f64_finite :: "u64 \<Rightarrow> bool" where
  "f64_finite b \<longleftrightarrow> f64_magnitude b < 0x7FF0000000000000"

definition number_to_field :: "sql_libs \<Rightarrow> json_number \<Rightarrow> field_value" where
  "number_to_field q n =
     (case n of
        JPos v \<Rightarrow> if v < 0x8000000000000000 then FI64 v else FF64 (ql_f64_of_u64 q v)
      | JNeg v \<Rightarrow> FI64 v
      | JFloat f \<Rightarrow> FF64 f)"

fun json_value_to_field :: "sql_libs \<Rightarrow> json_value \<Rightarrow> field_value"
  and json_list_to_field :: "sql_libs \<Rightarrow> json_value list \<Rightarrow> field_value list"
  and json_map_to_field :: "sql_libs \<Rightarrow> (string \<times> json_value) list \<Rightarrow> (string \<times> field_value) list" where
  "json_value_to_field q JNull = FNull"
| "json_value_to_field q (JBool b) = FBool b"
| "json_value_to_field q (JNumber n) = number_to_field q n"
| "json_value_to_field q (JString s) = FString s"
| "json_value_to_field q (JArray xs) = FList (json_list_to_field q xs)"
| "json_value_to_field q (JObject m) = FMap (json_map_to_field q m)"
| "json_list_to_field q [] = []"
| "json_list_to_field q (x # xs) = json_value_to_field q x # json_list_to_field q xs"
| "json_map_to_field q [] = []"
| "json_map_to_field q ((k, x) # xs) = (k, json_value_to_field q x) # json_map_to_field q xs"

definition number_of_i64 :: "u64 \<Rightarrow> json_number" where
  "number_of_i64 v = (if sint v < 0 then JNeg v else JPos v)"

fun field_to_json_value :: "field_value \<Rightarrow> json_value"
  and field_to_json_list :: "field_value list \<Rightarrow> json_value list"
  and field_to_json_map :: "(string \<times> field_value) list \<Rightarrow> (string \<times> json_value) list" where
  "field_to_json_value FNull = JNull"
| "field_to_json_value (FBool b) = JBool b"
| "field_to_json_value (FI64 v) = JNumber (number_of_i64 v)"
| "field_to_json_value (FF64 f) = (if f64_finite f then JNumber (JFloat f) else JNull)"
| "field_to_json_value (FString s) = JString s"
| "field_to_json_value (FBytes bs) = JArray (map (\<lambda>b. JNumber (JPos (ucast b))) bs)"
| "field_to_json_value (FList xs) = JArray (field_to_json_list xs)"
| "field_to_json_value (FMap m) = JObject (field_to_json_map m)"
| "field_to_json_list [] = []"
| "field_to_json_list (x # xs) = field_to_json_value x # field_to_json_list xs"
| "field_to_json_map [] = []"
| "field_to_json_map ((k, x) # xs) = (k, field_to_json_value x) # field_to_json_map xs"

definition or_null :: "string option \<Rightarrow> sql_value" where
  "or_null json = SqlText (case json of None \<Rightarrow> ''null'' | Some s \<Rightarrow> s)"

definition plain_to_field :: "sql_value \<Rightarrow> field_value" where
  "plain_to_field v =
     (case v of SqlNull \<Rightarrow> FNull | SqlInteger i \<Rightarrow> FI64 i | SqlReal f \<Rightarrow> FF64 f | SqlText s \<Rightarrow> FString s
      | SqlBlob bs \<Rightarrow> FBytes bs)"

definition sqlite_value_to_field :: "sql_libs \<Rightarrow> sql_value \<Rightarrow> sqlite_encoding \<Rightarrow> field_value" where
  "sqlite_value_to_field q v enc =
     (case enc of
        EncPlain \<Rightarrow> plain_to_field v
      | EncBool \<Rightarrow>
          (case v of SqlNull \<Rightarrow> FNull | SqlInteger i \<Rightarrow> FBool (i \<noteq> 0) | SqlReal f \<Rightarrow> FBool (\<not> f64_eq f 0)
           | SqlText s \<Rightarrow> FBool (is_true_text s) | SqlBlob bs \<Rightarrow> FBytes bs)
      | EncJson \<Rightarrow>
          (case v of
             SqlText s \<Rightarrow> (case ql_field_from_str q s of None \<Rightarrow> FString s | Some x \<Rightarrow> x)
           | SqlBlob bs \<Rightarrow> (case ql_field_from_slice q bs of None \<Rightarrow> FBytes bs | Some x \<Rightarrow> x)
           | _ \<Rightarrow> plain_to_field v)
      | EncJsonValue \<Rightarrow>
          (case v of
             SqlText s \<Rightarrow> (case ql_json_from_str q s of None \<Rightarrow> FString s | Some x \<Rightarrow> json_value_to_field q x)
           | SqlBlob bs \<Rightarrow> (case ql_json_from_slice q bs of None \<Rightarrow> FBytes bs | Some x \<Rightarrow> json_value_to_field q x)
           | _ \<Rightarrow> plain_to_field v))"

definition field_to_sql_value :: "sql_libs \<Rightarrow> field_value \<Rightarrow> sqlite_encoding \<Rightarrow> sql_value" where
  "field_to_sql_value q x enc =
     (case enc of
        EncPlain \<Rightarrow>
          (case x of FNull \<Rightarrow> SqlNull | FBool b \<Rightarrow> SqlInteger (if b then 1 else 0) | FI64 i \<Rightarrow> SqlInteger i
           | FF64 f \<Rightarrow> SqlReal f | FString s \<Rightarrow> SqlText s | FBytes bs \<Rightarrow> SqlBlob bs
           | _ \<Rightarrow> or_null (ql_field_to_string q x))
      | EncBool \<Rightarrow>
          (case x of FNull \<Rightarrow> SqlNull | FBool b \<Rightarrow> SqlInteger (if b then 1 else 0) | FI64 i \<Rightarrow> SqlInteger i
           | FF64 f \<Rightarrow> SqlInteger (if f64_eq f 0 then 0 else 1) | FString s \<Rightarrow> SqlInteger (if is_true_text s then 1 else 0)
           | FBytes bs \<Rightarrow> SqlBlob bs | _ \<Rightarrow> or_null (ql_field_to_string q x))
      | EncJson \<Rightarrow> (case x of FNull \<Rightarrow> SqlNull | _ \<Rightarrow> or_null (ql_field_to_string q x))
      | EncJsonValue \<Rightarrow> (case x of FNull \<Rightarrow> SqlNull | _ \<Rightarrow> or_null (ql_json_to_string q (field_to_json_value x))))"

section \<open>Mappings and the adapter\<close>

record sqlite_field =
  sf_column :: string
  sf_field :: string
  sf_encoding :: sqlite_encoding
  sf_merge_policy :: "merge_policy option"

definition sqlite_field_new :: "sqlite_encoding \<Rightarrow> string \<Rightarrow> string \<Rightarrow> sqlite_field" where
  "sqlite_field_new enc column field =
     \<lparr>sf_column = column, sf_field = field, sf_encoding = enc, sf_merge_policy = None\<rparr>"

definition field_with_merge_policy :: "merge_policy \<Rightarrow> sqlite_field \<Rightarrow> sqlite_field" where
  "field_with_merge_policy policy f = f\<lparr>sf_merge_policy := Some policy\<rparr>"

definition field_with_encoding :: "sqlite_encoding \<Rightarrow> sqlite_field \<Rightarrow> sqlite_field" where
  "field_with_encoding enc f = f\<lparr>sf_encoding := enc\<rparr>"

record sqlite_mapping =
  mp_data_table :: string
  mp_id_column :: string
  mp_schema :: string
  mp_entity :: string
  mp_fields :: "sqlite_field list"
  mp_meta_table :: string
  mp_default_merge_policy :: "merge_policy option"

definition sqlite_mapping_new :: "string \<Rightarrow> string \<Rightarrow> string \<Rightarrow> string \<Rightarrow> sqlite_mapping" where
  "sqlite_mapping_new table id_column schema entity =
     \<lparr>mp_data_table = table, mp_id_column = id_column, mp_schema = schema, mp_entity = entity, mp_fields = [],
      mp_meta_table = table @ ''_libresync_meta'', mp_default_merge_policy = None\<rparr>"

definition with_field_def :: "sqlite_field \<Rightarrow> sqlite_mapping \<Rightarrow> sqlite_mapping" where
  "with_field_def field m = m\<lparr>mp_fields := mp_fields m @ [field]\<rparr>"

definition with_column :: "sqlite_encoding \<Rightarrow> string \<Rightarrow> string \<Rightarrow> sqlite_mapping \<Rightarrow> sqlite_mapping" where
  "with_column enc column field m = m\<lparr>mp_fields := mp_fields m @ [sqlite_field_new enc column field]\<rparr>"

definition with_meta_table :: "string \<Rightarrow> sqlite_mapping \<Rightarrow> sqlite_mapping" where
  "with_meta_table table m = m\<lparr>mp_meta_table := table\<rparr>"

definition with_default_merge_policy :: "merge_policy \<Rightarrow> sqlite_mapping \<Rightarrow> sqlite_mapping" where
  "with_default_merge_policy policy m = m\<lparr>mp_default_merge_policy := Some policy\<rparr>"

definition policy_for :: "sqlite_mapping \<Rightarrow> string \<Rightarrow> merge_policy option" where
  "policy_for m field =
     (case Option.bind (find (\<lambda>f. sf_field f = field) (mp_fields m)) sf_merge_policy of
        Some p \<Rightarrow> Some p | None \<Rightarrow> mp_default_merge_policy m)"

record sqlite_logical = logical_config +
  sl_path :: string
  sl_table :: string
  sl_mappings :: "sqlite_mapping list"

definition sqlite_logical_new :: "string \<Rightarrow> string \<Rightarrow> string \<Rightarrow> string \<Rightarrow> sqlite_logical" where
  "sqlite_logical_new ident namespace path table =
     \<lparr>lc_id = ident, lc_namespace = namespace, lc_merge_policies = Map.empty,
      lc_custom_merge_handlers = Map.empty, sl_path = path, sl_table = table, sl_mappings = []\<rparr>"

definition with_mapping :: "sqlite_mapping \<Rightarrow> sqlite_logical \<Rightarrow> sqlite_logical" where
  "with_mapping m a = a\<lparr>sl_mappings := sl_mappings a @ [m]\<rparr>"

fun first_policy :: "sqlite_mapping list \<Rightarrow> string \<Rightarrow> merge_policy option" where
  "first_policy [] field = None"
| "first_policy (m # ms) field = (case policy_for m field of Some p \<Rightarrow> Some p | None \<Rightarrow> first_policy ms field)"

definition sqlite_merge_policy :: "sqlite_logical \<Rightarrow> string \<Rightarrow> merge_policy" where
  "sqlite_merge_policy a field =
     (case lc_merge_policies a field of
        Some p \<Rightarrow> p
      | None \<Rightarrow> (case first_policy (sl_mappings a) field of Some p \<Rightarrow> p | None \<Rightarrow> LastWriterWins))"

definition quote_ident :: "string \<Rightarrow> string" where
  "quote_ident name = CHR 0x22 # concat (map (\<lambda>ch. if ch = CHR 0x22 then [CHR 0x22, CHR 0x22] else [ch]) name) @ [CHR 0x22]"

section \<open>The database\<close>

text \<open>Rows as the statements give them and take them; every read of a row can fail on its own.\<close>

record meta_row =
  mw_id :: string
  mw_tombstone :: u64
  mw_updated_at :: "u64 option"
  mw_counter :: u64
  mw_device :: string

record record_row =
  rw_schema :: string
  rw_entity :: string
  rw_id :: string
  rw_fields :: string
  rw_tombstone :: u64
  rw_updated_at :: "u64 option"
  rw_counter :: u64
  rw_device :: string

record 'd sql_calls =
  sq_open :: "string \<Rightarrow> 'd \<Rightarrow> unit result \<times> 'd"
  sq_create_records :: "string \<Rightarrow> 'd \<Rightarrow> unit result \<times> 'd"
  sq_create_meta :: "string \<Rightarrow> 'd \<Rightarrow> unit result \<times> 'd"
  sq_select_records :: "string \<Rightarrow> 'd \<Rightarrow> record_row result list result"
  sq_select_meta :: "string \<Rightarrow> string \<Rightarrow> string \<Rightarrow> 'd \<Rightarrow> meta_row result list result"
  sq_select_rows :: "string \<Rightarrow> string list \<Rightarrow> 'd \<Rightarrow> (sql_value \<times> sql_value list) result list result"
  sq_begin :: "'d \<Rightarrow> unit result \<times> 'd"
  sq_commit :: "'d \<Rightarrow> unit result \<times> 'd"
  sq_rollback :: "'d \<Rightarrow> 'd"
  sq_delete_all :: "string \<Rightarrow> 'd \<Rightarrow> unit result \<times> 'd"
  sq_insert_record :: "string \<Rightarrow> record_row \<Rightarrow> 'd \<Rightarrow> unit result \<times> 'd"
  sq_delete_row :: "string \<Rightarrow> string \<Rightarrow> string \<Rightarrow> 'd \<Rightarrow> unit result \<times> 'd"
  sq_upsert_row :: "string \<Rightarrow> string \<Rightarrow> string list \<Rightarrow> sql_value list \<Rightarrow> string list \<Rightarrow> 'd \<Rightarrow> unit result \<times> 'd"
  sq_upsert_meta :: "string \<Rightarrow> string \<Rightarrow> string \<Rightarrow> meta_row \<Rightarrow> 'd \<Rightarrow> unit result \<times> 'd"

text \<open>A transaction that is dropped before it committed is rolled back.\<close>

definition in_transaction :: "'d sql_calls \<Rightarrow> ('d \<Rightarrow> unit result \<times> 'd) \<Rightarrow> 'd \<Rightarrow> unit result \<times> 'd" where
  "in_transaction sq f d =
     bindS (sq_begin sq d) (\<lambda>_ d.
       case bindS (f d) (\<lambda>_. sq_commit sq) of
         (Inl err, d) \<Rightarrow> (Inl err, sq_rollback sq d)
       | (Inr _, d) \<Rightarrow> (Inr (), d))"

text \<open>\<open>value.max(0) as u64\<close>.\<close>

definition non_negative :: "u64 \<Rightarrow> u64" where
  "non_negative v = (if sint v < 0 then 0 else v)"

definition sqlite_ensure :: "'d sql_calls \<Rightarrow> sqlite_logical \<Rightarrow> 'd \<Rightarrow> unit result \<times> 'd" where
  "sqlite_ensure sq a d = bindS (sq_open sq (sl_path a) d) (\<lambda>_. sq_create_records sq (quote_ident (sl_table a)))"

definition sqlite_ensure_meta :: "'d sql_calls \<Rightarrow> sqlite_logical \<Rightarrow> sqlite_mapping \<Rightarrow> 'd \<Rightarrow> unit result \<times> 'd" where
  "sqlite_ensure_meta sq a m d = bindS (sq_open sq (sl_path a) d) (\<lambda>_. sq_create_meta sq (quote_ident (mp_meta_table m)))"

definition on_db :: "('d \<Rightarrow> 'r result \<times> 'd) \<Rightarrow> sync_state \<times> 'd \<Rightarrow> 'r result \<times> sync_state \<times> 'd" where
  "on_db f sd = (case f (snd sd) of (r, d) \<Rightarrow> (r, fst sd, d))"

section \<open>Loading\<close>

type_synonym meta_map = "(string, bool \<times> u64 option \<times> lamport_clock) bmap"

definition meta_of :: "meta_row \<Rightarrow> bool \<times> u64 option \<times> lamport_clock" where
  "meta_of w =
     (mw_tombstone w \<noteq> 0, map_option non_negative (mw_updated_at w), LamportClock (non_negative (mw_counter w)) (mw_device w))"

definition meta_map :: "meta_row result list \<Rightarrow> meta_map result" where
  "meta_map rows = foldR (\<lambda>m row. bindR row (\<lambda>w. Inr (bm_insert (mw_id w) (meta_of w) m))) [] rows"

definition mapped_record ::
  "sqlite_mapping \<Rightarrow> string \<Rightarrow> (string, field_value) bmap \<Rightarrow> bool \<times> u64 option \<times> lamport_clock \<Rightarrow> sync_record" where
  "mapped_record m ident content meta =
     (case meta of (tombstone, updated_at, clock) \<Rightarrow>
        \<lparr>r_schema = mp_schema m, r_entity = mp_entity m, r_id = ident, r_fields = content, r_tombstone = tombstone,
         r_clock = clock, r_updated_at = updated_at, r_field_clocks = []\<rparr>)"

definition row_fields :: "sql_libs \<Rightarrow> sqlite_mapping \<Rightarrow> sql_value list \<Rightarrow> (string, field_value) bmap" where
  "row_fields q m values =
     fold (\<lambda>(f, v). bm_insert (sf_field f) (sqlite_value_to_field q v (sf_encoding f))) (zip (mp_fields m) values) []"

text \<open>A row that has no clock yet gets one that every written record beats.\<close>

definition bootstrap_meta :: "bool \<times> u64 option \<times> lamport_clock" where
  "bootstrap_meta = (False, None, LamportClock 0 ''bootstrap'')"

definition row_record :: "sql_libs \<Rightarrow> sqlite_mapping \<Rightarrow> meta_map \<Rightarrow> sql_value \<times> sql_value list \<Rightarrow> sync_record" where
  "row_record q m metas row =
     (let ident = sqlite_value_to_string q (fst row)
      in mapped_record m ident (row_fields q m (snd row))
           (case bm_get metas ident of None \<Rightarrow> bootstrap_meta | Some meta \<Rightarrow> meta))"

definition apply_rows ::
  "payload_codec \<Rightarrow> string \<Rightarrow> ('row \<Rightarrow> sync_record) \<Rightarrow> 'row result list \<Rightarrow> sync_state \<Rightarrow> unit result \<times> sync_state" where
  "apply_rows cd namespace f rows s =
     forS (\<lambda>row s. bindS (row, s) (\<lambda>row s. bindS (rs_apply cd namespace (f row) s) (\<lambda>_ s. (Inr (), s)))) rows s"

definition unseen_records :: "sql_libs \<Rightarrow> sqlite_mapping \<Rightarrow> meta_map \<Rightarrow> (sql_value \<times> sql_value list) result list \<Rightarrow> sync_record list" where
  "unseen_records q m metas rows =
     (let seen = concat (map (\<lambda>row. case row of Inl _ \<Rightarrow> [] | Inr (v, _) \<Rightarrow> [sqlite_value_to_string q v]) rows)
      in map (\<lambda>(ident, meta). mapped_record m ident [] meta) (filter (\<lambda>p. fst p \<notin> set seen) metas))"

definition load_records_mapped ::
  "sql_libs \<Rightarrow> 'd sql_calls \<Rightarrow> payload_codec \<Rightarrow> sqlite_logical \<Rightarrow> sqlite_mapping \<Rightarrow> sync_state \<times> 'd \<Rightarrow>
   unit result \<times> sync_state \<times> 'd" where
  "load_records_mapped q sq cd a m sd =
     bindS (on_db (sqlite_ensure_meta sq a m) sd) (\<lambda>_ (s, d).
     bindS (bindR (sq_select_meta sq (quote_ident (mp_meta_table m)) (mp_schema m) (mp_entity m) d) meta_map, s, d) (\<lambda>metas (s, d).
     bindS (sq_select_rows sq (quote_ident (mp_data_table m))
              (map quote_ident (mp_id_column m # map sf_column (mp_fields m))) d, s, d) (\<lambda>rows (s, d).
     bindS (on_records (apply_rows cd (lc_namespace a) (row_record q m metas) rows) s d) (\<lambda>_ (s, d).
       on_records (apply_each cd (lc_namespace a) (unseen_records q m metas rows)) s d))))"

definition stored_record :: "sql_libs \<Rightarrow> record_row \<Rightarrow> sync_record" where
  "stored_record q w =
     \<lparr>r_schema = rw_schema w, r_entity = rw_entity w, r_id = rw_id w,
      r_fields = (case ql_fields_from_str q (rw_fields w) of None \<Rightarrow> [] | Some content \<Rightarrow> content),
      r_tombstone = rw_tombstone w \<noteq> 0, r_clock = LamportClock (non_negative (rw_counter w)) (rw_device w),
      r_updated_at = map_option non_negative (rw_updated_at w), r_field_clocks = []\<rparr>"

definition sqlite_load_records ::
  "sql_libs \<Rightarrow> 'd sql_calls \<Rightarrow> payload_codec \<Rightarrow> sqlite_logical \<Rightarrow> sync_state \<Rightarrow> 'd \<Rightarrow> unit result \<times> sync_state \<times> 'd" where
  "sqlite_load_records q sq cd a s d =
     (if sl_mappings a \<noteq> [] then forS (load_records_mapped q sq cd a) (sl_mappings a) (s, d)
      else
        bindS (on_db (sqlite_ensure sq a) (s, d)) (\<lambda>_ (s, d).
        bindS (sq_select_records sq (quote_ident (sl_table a)) d, s, d) (\<lambda>rows (s, d).
          on_records (apply_rows cd (lc_namespace a) (stored_record q) rows) s d)))"

section \<open>Storing\<close>

definition meta_row_of :: "sync_record \<Rightarrow> meta_row" where
  "meta_row_of r =
     \<lparr>mw_id = r_id r, mw_tombstone = (if r_tombstone r then 1 else 0), mw_updated_at = r_updated_at r,
      mw_counter = clk_counter (r_clock r), mw_device = clk_device (r_clock r)\<rparr>"

definition put_record :: "sql_libs \<Rightarrow> 'd sql_calls \<Rightarrow> sqlite_mapping \<Rightarrow> sync_record \<Rightarrow> 'd \<Rightarrow> unit result \<times> 'd" where
  "put_record q sq m r d =
     (if r_schema r \<noteq> mp_schema m \<or> r_entity r \<noteq> mp_entity m then (Inr (), d)
      else bindS
        (if r_tombstone r
         then sq_delete_row sq (quote_ident (mp_data_table m)) (quote_ident (mp_id_column m)) (r_id r) d
         else sq_upsert_row sq (quote_ident (mp_data_table m)) (quote_ident (mp_id_column m))
                (map quote_ident (mp_id_column m # map sf_column (mp_fields m)))
                (SqlText (r_id r) # map (\<lambda>f. field_to_sql_value q
                   (case bm_get (r_fields r) (sf_field f) of None \<Rightarrow> FNull | Some x \<Rightarrow> x) (sf_encoding f)) (mp_fields m))
                (map (\<lambda>f. quote_ident (sf_column f)) (mp_fields m)) d)
        (\<lambda>_. sq_upsert_meta sq (quote_ident (mp_meta_table m)) (mp_schema m) (mp_entity m) (meta_row_of r)))"

definition apply_records_mapped ::
  "sql_libs \<Rightarrow> 'd sql_calls \<Rightarrow> payload_codec \<Rightarrow> sqlite_logical \<Rightarrow> sync_state \<Rightarrow> sqlite_mapping \<Rightarrow> 'd \<Rightarrow> unit result \<times> 'd" where
  "apply_records_mapped q sq cd a s m d =
     bindS (sqlite_ensure_meta sq a m d) (\<lambda>_.
       in_transaction sq (\<lambda>d. bindS (view_snapshot cd (lc_namespace a) s, d) (forS (put_record q sq m))))"

definition record_row_of :: "sql_libs \<Rightarrow> sync_record \<Rightarrow> record_row result" where
  "record_row_of q r =
     bindR (ql_fields_to_string q (r_fields r)) (\<lambda>json.
       Inr \<lparr>rw_schema = r_schema r, rw_entity = r_entity r, rw_id = r_id r, rw_fields = json,
            rw_tombstone = (if r_tombstone r then 1 else 0), rw_updated_at = r_updated_at r,
            rw_counter = clk_counter (r_clock r), rw_device = clk_device (r_clock r)\<rparr>)"

definition sqlite_apply_records ::
  "sql_libs \<Rightarrow> 'd sql_calls \<Rightarrow> payload_codec \<Rightarrow> sqlite_logical \<Rightarrow> sync_state \<Rightarrow> 'd \<Rightarrow> unit result \<times> 'd" where
  "sqlite_apply_records q sq cd a s d =
     (if sl_mappings a \<noteq> [] then forS (apply_records_mapped q sq cd a s) (sl_mappings a) d
      else
        bindS (sqlite_ensure sq a d) (\<lambda>_.
          in_transaction sq (\<lambda>d.
            bindS (sq_delete_all sq (quote_ident (sl_table a)) d) (\<lambda>_ d.
            bindS (view_snapshot cd (lc_namespace a) s, d)
              (forS (\<lambda>r d. bindS (record_row_of q r, d) (sq_insert_record sq (quote_ident (sl_table a)))))))))"

definition sqlite_logical_adapter ::
  "sql_libs \<Rightarrow> 'd sql_calls \<Rightarrow> payload_codec \<Rightarrow> sqlite_logical \<Rightarrow> 'd logical_adapter" where
  "sqlite_logical_adapter q sq cd a =
     (default_logical cd (lc_id a) (lc_namespace a) (sqlite_load_records q sq cd a) (sqlite_apply_records q sq cd a))
     \<lparr>la_merge_policy := sqlite_merge_policy a, la_merge_custom_field := config_merge_custom a,
      la_apply_snapshot := (\<lambda>rs. on_records
        (apply_snapshot_with_policy cd (lc_namespace a) (sqlite_merge_policy a) (config_merge_custom a) rs))\<rparr>"

end
