(* ===== verification/Props_Sqlite.thy ===== *)
theory Props_Sqlite
  imports Sqlite_Logical Adapter_Contract Props_Backup
begin

text \<open>
  The properties of the SQLite adapter: which values a column keeps, what storing and loading a table of
  records gives, and what loading makes of the rows an app has changed.
\<close>

section \<open>Columns\<close>



lemma sint_negative: "sint (v :: u64) < 0 \<longleftrightarrow> \<not> v < 0x8000000000000000"
proof -
  have "sint v < 0 \<longleftrightarrow> bit (uint v) 63" by (simp add: sint_uint)
  also have "\<dots> \<longleftrightarrow> odd (uint v div 2 ^ 63)" by (simp add: bit_iff_odd)
  also have "\<dots> \<longleftrightarrow> \<not> uint v < 2 ^ 63"
  proof -
    have "0 \<le> uint v div 2 ^ 63" "uint v div 2 ^ 63 < 2"
      using uint_lt2p[of v] by (simp_all add: div_less_iff_less_mult pos_imp_zdiv_nonneg_iff)
    then have "uint v div 2 ^ 63 = 0 \<or> uint v div 2 ^ 63 = 1" by linarith
    then show ?thesis by (auto simp: zdiv_eq_0_iff)
  qed
  also have "\<dots> \<longleftrightarrow> \<not> v < 0x8000000000000000" by (simp add: word_less_def)
  finally show ?thesis .
qed






section \<open>A table of records\<close>

text \<open>
  What the adapter relies on in SQLite, for a table and for what it was when the transaction began:
  statements outside a transaction change no row, even when they fail; a transaction that is rolled
  back leaves what there was; a select gives every row once, in some order.
\<close>

locale record_table =
  fixes sq :: "'d sql_calls"
    and rows saved :: "string \<Rightarrow> 'd \<Rightarrow> record_row list"
  assumes opened: "rows t (snd (sq_open sq p d)) = rows t d"
    and created: "rows t (snd (sq_create_records sq t' d)) = rows t d"
    and begun: "sq_begin sq d = (r, d') \<Longrightarrow> rows t d' = rows t d \<and> (r = Inr () \<longrightarrow> saved t d' = rows t d)"
    and deleted: "sq_delete_all sq t d = (r, d') \<Longrightarrow> (r = Inr () \<longrightarrow> rows t d' = []) \<and> saved u d' = saved u d"
    and inserted: "sq_insert_record sq t w d = (r, d') \<Longrightarrow>
      (r = Inr () \<longrightarrow> mset (rows t d') = mset (rows t d) + {#w#}) \<and> saved u d' = saved u d"
    and committed: "sq_commit sq d = (r, d') \<Longrightarrow> (r = Inr () \<longrightarrow> rows t d' = rows t d) \<and> saved t d' = saved t d"
    and rolled_back: "rows t (sq_rollback sq d) = saved t d"
    and selected: "sq_select_records sq t d = Inr es \<Longrightarrow> traverseR (\<lambda>x. x) es = Inr ws \<Longrightarrow> mset ws = mset (rows t d)"
begin

lemma ensured: "rows t (snd (sqlite_ensure sq a d)) = rows t d"
  using opened[of t "sl_path a" d] created[of t "quote_ident (sl_table a)"]
  by (cases "sq_open sq (sl_path a) d"; cases "fst (sq_open sq (sl_path a) d)") (simp_all add: sqlite_ensure_def)

lemma transaction:
  assumes "in_transaction sq f d = (r, d')"
    and "\<And>d u. saved u (snd (f d)) = saved u d"
  shows "(r \<noteq> Inr () \<longrightarrow> rows t d' = rows t d) \<and>
    (r = Inr () \<longrightarrow> (\<exists>d1 d2. rows t d1 = rows t d \<and> f d1 = (Inr (), d2) \<and> rows t d' = rows t d2))"
proof -
  obtain b d1 where b: "sq_begin sq d = (b, d1)" by fastforce
  show ?thesis
  proof (cases b)
    case (Inl err)
    then show ?thesis using assms(1) b begun[OF b] by (auto simp: in_transaction_def)
  next
    case (Inr u)
    obtain x d2 where x: "f d1 = (x, d2)" by fastforce
    have s2: "saved t d2 = rows t d" using begun[OF b] assms(2)[of t d1] x Inr by simp
    obtain y d3 where y: "bindS (f d1) (\<lambda>_. sq_commit sq) = (y, d3)" by fastforce
    have s3: "saved t d3 = rows t d"
    proof (cases x)
      case (Inl err)
      then show ?thesis using x y s2 by simp
    next
      case (Inr v)
      then have "sq_commit sq d2 = (y, d3)" using x y by simp
      then show ?thesis using committed s2 by metis
    qed
    show ?thesis
    proof (cases y)
      case (Inl err)
      then have "r \<noteq> Inr ()" "d' = sq_rollback sq d3" using assms(1) b Inr y by (auto simp: in_transaction_def)
      then show ?thesis using rolled_back s3 by simp
    next
      case ok: (Inr v)
      then have d': "r = Inr ()" "d' = d3" using assms(1) b Inr y by (auto simp: in_transaction_def)
      obtain d2' where "f d1 = (Inr (), d2')" "sq_commit sq d2' = (Inr (), d3)" using y ok by (auto simp: bindS_Inr)
      moreover have "rows t d1 = rows t d" using begun[OF b] by simp
      ultimately show ?thesis using d' committed by metis
    qed
  qed
qed

lemma inserts:
  assumes "forS (\<lambda>r d. bindS (record_row_of q r, d) (sq_insert_record sq t)) rs d = (r, d')"
  shows "saved u d' = saved u d \<and>
    (r = Inr () \<longrightarrow> (\<exists>ws. traverseR (record_row_of q) rs = Inr ws \<and> mset (rows t d') = mset (rows t d) + mset ws))"
  using assms
proof (induction rs arbitrary: d)
  case (Cons x rs)
  show ?case
  proof (cases "record_row_of q x")
    case (Inl err)
    then show ?thesis using Cons.prems by auto
  next
    case (Inr w)
    obtain y d1 where d1: "sq_insert_record sq t w d = (y, d1)" by fastforce
    note ins = inserted[OF d1]
    show ?thesis
    proof (cases y)
      case (Inl err)
      then show ?thesis using Cons.prems Inr d1 ins by auto
    next
      case ok: (Inr v)
      then have rest: "forS (\<lambda>r d. bindS (record_row_of q r, d) (sq_insert_record sq t)) rs d1 = (r, d')"
        using Cons.prems Inr d1 by simp
      show ?thesis using Cons.IH[OF rest] ins ok Inr by auto
    qed
  qed
qed simp

lemma applied:
  assumes "sqlite_apply_records q sq cd a s d = (r, d')" and "sl_mappings a = []"
  shows "(r \<noteq> Inr () \<longrightarrow> rows t d' = rows t d) \<and>
    (r = Inr () \<longrightarrow> (\<exists>rs ws. view_snapshot cd (lc_namespace a) s = Inr rs \<and> traverseR (record_row_of q) rs = Inr ws \<and>
       mset (rows (quote_ident (sl_table a)) d') = mset ws))"
proof -
  let ?t = "quote_ident (sl_table a)"
  define f where "f = (\<lambda>d. bindS (sq_delete_all sq ?t d) (\<lambda>_ d. bindS (view_snapshot cd (lc_namespace a) s, d)
      (forS (\<lambda>r d. bindS (record_row_of q r, d) (sq_insert_record sq ?t)))))"
  have keeps: "saved u (snd (f d)) = saved u d" for d u
  proof -
    obtain x d' where run: "f d = (x, d')" by fastforce
    obtain y d1 where d1: "sq_delete_all sq ?t d = (y, d1)" by fastforce
    show ?thesis
    proof (cases "y = Inr () \<and> (\<exists>rs. view_snapshot cd (lc_namespace a) s = Inr rs)")
      case True
      then obtain rs where "forS (\<lambda>r d. bindS (record_row_of q r, d) (sq_insert_record sq ?t)) rs d1 = (x, d')"
        using run d1 by (auto simp: f_def)
      from inserts[OF this] show ?thesis using deleted[OF d1] run by simp
    next
      case False
      then have "d' = d1" using run d1 by (cases y; cases "view_snapshot cd (lc_namespace a) s") (auto simp: f_def)
      then show ?thesis using deleted[OF d1] run by simp
    qed
  qed
  obtain e d1 where e: "sqlite_ensure sq a d = (e, d1)" by fastforce
  then have d1: "rows u d1 = rows u d" for u using ensured[of u a d] by simp
  show ?thesis
  proof (cases e)
    case (Inl err)
    then show ?thesis using assms e d1 by (auto simp: sqlite_apply_records_def)
  next
    case (Inr v)
    then have run: "in_transaction sq f d1 = (r, d')" using assms e by (simp add: sqlite_apply_records_def f_def)
    note result = transaction[OF run keeps]
    have "\<exists>rs ws. view_snapshot cd (lc_namespace a) s = Inr rs \<and> traverseR (record_row_of q) rs = Inr ws \<and>
        mset (rows ?t d') = mset ws" if ok: "r = Inr ()"
    proof -
      obtain d2 d3 where f: "f d2 = (Inr (), d3)" "rows ?t d' = rows ?t d3" using result[where t = "?t", THEN conjunct2, THEN mp, OF ok] by blast
      obtain d4 rs where d4: "sq_delete_all sq ?t d2 = (Inr (), d4)" "view_snapshot cd (lc_namespace a) s = Inr rs"
          "forS (\<lambda>r d. bindS (record_row_of q r, d) (sq_insert_record sq ?t)) rs d4 = (Inr (), d3)"
        using f(1) by (auto simp: f_def bindS_Inr)
      show ?thesis using inserts[OF d4(3)] deleted[OF d4(1)] d4(2) f(2) by auto
    qed
    then show ?thesis using result[where t = t] d1 by auto
  qed
qed

lemma loaded:
  assumes "sqlite_load_records q sq cd a s d = (Inr (), s', d')" and "sl_mappings a = []"
  shows "\<exists>ws. mset ws = mset (rows (quote_ident (sl_table a)) d) \<and>
    apply_each cd (lc_namespace a) (map (stored_record q) ws) s = (Inr (), s')"
proof -
  have each: "\<exists>ws. traverseR (\<lambda>x. x) es = Inr ws \<and> apply_each cd (lc_namespace a) (map f ws) s = (Inr (), s')"
    if "apply_rows cd (lc_namespace a) f es s = (Inr (), s')" for es s and f :: "record_row \<Rightarrow> sync_record"
    using that
  proof (induction es arbitrary: s)
    case Nil
    then show ?case by (simp add: apply_rows_def apply_each_def)
  next
    case (Cons e es)
    then obtain row b s1 where row: "e = Inr row" "rs_apply cd (lc_namespace a) (f row) s = (Inr b, s1)"
        "apply_rows cd (lc_namespace a) f es s1 = (Inr (), s')"
      by (auto simp: apply_rows_def bindS_Inr)
    obtain ws where "traverseR (\<lambda>x. x) es = Inr ws" "apply_each cd (lc_namespace a) (map f ws) s1 = (Inr (), s')"
      using Cons.IH[OF row(3)] by blast
    then show ?case using row by (intro exI[of _ "row # ws"]) (simp add: apply_each_def)
  qed
  obtain d1 es where "sqlite_ensure sq a d = (Inr (), d1)"
      and es: "sq_select_records sq (quote_ident (sl_table a)) d1 = Inr es"
        "apply_rows cd (lc_namespace a) (stored_record q) es s = (Inr (), s')"
    using assms
    by (auto simp: sqlite_load_records_def on_db_def on_records_def bindS_Inr split: prod.splits) (metis Pair_inject surj_pair)
  then have "rows t d1 = rows t d" for t using ensured[of t a d] by simp
  then show ?thesis using each[OF es(2)] selected[OF es(1)] by metis
qed

end

text \<open>A record whose place in the table says everything about it.\<close>

definition storable :: "sql_libs \<Rightarrow> sync_record \<Rightarrow> bool" where
  "storable q r \<longleftrightarrow> (\<exists>json. ql_fields_to_string q (r_fields r) = Inr json \<and> ql_fields_from_str q json = Some (r_fields r)) \<and>
     clk_counter (r_clock r) < 0x8000000000000000 \<and> (\<forall>t. r_updated_at r = Some t \<longrightarrow> t < 0x8000000000000000)"

lemma stored_again:
  assumes "storable q r" and "record_row_of q r = Inr w"
  shows "stored_record q w = r\<lparr>r_field_clocks := []\<rparr>"
proof -
  have nn: "non_negative v = v" if "v < 0x8000000000000000" for v :: u64
    using that by (simp add: non_negative_def sint_negative)
  obtain json where json: "ql_fields_to_string q (r_fields r) = Inr json" "ql_fields_from_str q json = Some (r_fields r)"
    using assms(1) unfolding storable_def by blast
  have "clk_counter (r_clock r) < 0x8000000000000000" "map_option non_negative (r_updated_at r) = r_updated_at r"
    using assms(1) nn by (auto simp: storable_def intro!: option.map_ident_strong)
  moreover have "LamportClock (clk_counter (r_clock r)) (clk_device (r_clock r)) = r_clock r" by (cases "r_clock r") simp
  ultimately show ?thesis
    using assms(2) json nn by (cases r) (auto simp: record_row_of_def stored_record_def split: if_splits)
qed

text \<open>
  C24: storing the records of a state in a table and loading the table into a state, possibly of a device
  that lost its own, applies to it exactly those records, each once, with everything but their field
  clocks; while their counters and times fit a signed integer of the database.
\<close>

theorem table_roundtrip:
  assumes "record_table sq rows saved" and "sl_mappings a = []"
    and "view_snapshot cd (lc_namespace a) s = Inr rs" and "\<forall>r \<in> set rs. storable q r"
    and "sqlite_apply_records q sq cd a s d = (Inr (), d')"
    and "sqlite_load_records q sq cd a s0 d' = (Inr (), s', d'')"
  shows "\<exists>ws. mset ws = mset (map (\<lambda>r. r\<lparr>r_field_clocks := []\<rparr>) rs) \<and>
    apply_each cd (lc_namespace a) ws s0 = (Inr (), s')"
proof -
  obtain ws where ws: "traverseR (record_row_of q) rs = Inr ws" "mset (rows (quote_ident (sl_table a)) d') = mset ws"
    using record_table.applied[OF assms(1,5,2)] assms(3) by auto
  obtain vs where vs: "mset vs = mset (rows (quote_ident (sl_table a)) d')"
      "apply_each cd (lc_namespace a) (map (stored_record q) vs) s0 = (Inr (), s')"
    using record_table.loaded[OF assms(1,6,2)] by blast
  have "map (stored_record q) ws = map (\<lambda>r. r\<lparr>r_field_clocks := []\<rparr>) rs"
    using ws(1) assms(4) stored_again by (induction rs arbitrary: ws) auto
  then have "mset (map (stored_record q) vs) = mset (map (\<lambda>r. r\<lparr>r_field_clocks := []\<rparr>) rs)"
    using vs(1) ws(2) by (metis mset_map)
  then show ?thesis using vs(2) by blast
qed

text \<open>Storing that fails, at whatever statement, leaves the rows of every table as they were.\<close>

theorem failed_store_changes_nothing:
  assumes "record_table sq rows saved" and "sl_mappings a = []"
    and "sqlite_apply_records q sq cd a s d = (Inl err, d')"
  shows "rows t d' = rows t d"
  using record_table.applied[OF assms(1,3,2)] by simp

section \<open>Mapped tables\<close>






section \<open>A database of tables\<close>

text \<open>
  Tables of records in memory, with what they were when the transaction began; a row whose place is taken
  is refused, as the primary key of the table says.
\<close>

record table_db =
  db_rows :: "string \<Rightarrow> record_row list"
  db_saved :: "string \<Rightarrow> record_row list"

definition same_place :: "record_row \<Rightarrow> record_row \<Rightarrow> bool" where
  "same_place v w \<longleftrightarrow> rw_schema v = rw_schema w \<and> rw_entity v = rw_entity w \<and> rw_id v = rw_id w"

definition table_insert :: "string \<Rightarrow> record_row \<Rightarrow> table_db \<Rightarrow> unit result \<times> table_db" where
  "table_insert t w d =
     (if list_ex (same_place w) (db_rows d t) then (Inl (Protocol ''UNIQUE constraint failed''), d)
      else (Inr (), d\<lparr>db_rows := (db_rows d)(t := w # db_rows d t)\<rparr>))"

definition table_calls :: "table_db sql_calls" where
  "table_calls =
     \<lparr>sq_open = (\<lambda>_ d. (Inr (), d)), sq_create_records = (\<lambda>_ d. (Inr (), d)), sq_create_meta = (\<lambda>_ d. (Inr (), d)),
      sq_select_records = (\<lambda>t d. Inr (map Inr (db_rows d t))), sq_select_meta = (\<lambda>_ _ _ _. Inr []),
      sq_select_rows = (\<lambda>_ _ _. Inr []),
      sq_begin = (\<lambda>d. (Inr (), d\<lparr>db_saved := db_rows d\<rparr>)), sq_commit = (\<lambda>d. (Inr (), d)),
      sq_rollback = (\<lambda>d. d\<lparr>db_rows := db_saved d\<rparr>),
      sq_delete_all = (\<lambda>t d. (Inr (), d\<lparr>db_rows := (db_rows d)(t := [])\<rparr>)), sq_insert_record = table_insert,
      sq_delete_row = (\<lambda>_ _ _ d. (Inr (), d)), sq_upsert_row = (\<lambda>_ _ _ _ _ d. (Inr (), d)),
      sq_upsert_meta = (\<lambda>_ _ _ _ d. (Inr (), d))\<rparr>"

lemma traverse_inr: "traverseR (\<lambda>x. x) (map Inr xs) = Inr ws \<Longrightarrow> ws = xs"
  by (induction xs arbitrary: ws) auto

interpretation tables: record_table table_calls "\<lambda>t d. db_rows d t" "\<lambda>t d. db_saved d t"
  by unfold_locales
    (auto simp: table_calls_def table_insert_def dest!: traverse_inr split: if_splits)

section \<open>The adapter as the engine sees it\<close>

lemma bindS_snd_keeps:
  assumes "state_ok (snd m)" and "\<And>x s. state_ok s \<Longrightarrow> state_ok (snd (g x s))"
  shows "state_ok (snd (bindS m g))"
  using assms by (cases m; cases "fst m") auto

lemma apply_rows_keeps: "state_ok s \<Longrightarrow> state_ok (snd (apply_rows cd ns f rows s))"
  unfolding apply_rows_def
proof (rule forS_invariant)
  fix t row
  assume "state_ok t"
  then show "state_ok (snd (bindS (row, t) (\<lambda>row s. bindS (rs_apply cd ns (f row) s) (\<lambda>_ s. (Inr (), s)))))"
    by (intro bindS_snd_keeps) (simp_all add: state_ok_rs_apply)
qed

lemma on_db_state: "fst (snd (on_db f sd)) = fst sd"
  by (simp add: on_db_def split: prod.split)

lemma mapped_load_keeps: "state_ok (fst sd) \<Longrightarrow> state_ok (fst (snd (load_records_mapped q sq cd a m sd)))"
  unfolding load_records_mapped_def
  by (intro bindS_keeps) (auto simp: on_db_state intro!: bindS_keeps on_records_keeps apply_each_keeps apply_rows_keeps)

lemma sqlite_records_keep: "state_ok s \<Longrightarrow> state_ok (fst (snd (sqlite_load_records q sq cd a s d)))"
proof (cases "sl_mappings a = []")
  case True
  assume "state_ok s"
  then show ?thesis
    unfolding sqlite_load_records_def using True
    by (auto simp: on_db_state intro!: bindS_keeps on_records_keeps apply_rows_keeps)
next
  case False
  assume "state_ok s"
  then have "state_ok (fst (snd (forS (load_records_mapped q sq cd a) (sl_mappings a) (s, d))))"
    by (intro forS_invariant[where P = "\<lambda>sd. state_ok (fst sd)"]) (simp_all add: mapped_load_keeps)
  then show ?thesis using False by (simp add: sqlite_load_records_def)
qed

lemma sqlite_apply_keeps:
  "state_ok s \<Longrightarrow> state_ok (snd (apply_snapshot_with_policy cd ns policy custom rs s))"
  unfolding apply_snapshot_with_policy_def
  by (rule countS_invariant) (auto simp: merge_one_def state_ok_rs_upsert split: sum.split)

interpretation sqlite_logical: sound_adapter "logical_wrapper cd (sqlite_logical_adapter q sq cd a)" for q sq cd a
  by (rule wrapper_sound)
    (simp_all add: sqlite_logical_adapter_def default_logical_def sqlite_records_keep on_records_keeps sqlite_apply_keeps)

section \<open>Witnesses\<close>

definition note_libs :: sql_libs where
  "note_libs =
     \<lparr>ql_field_from_str = (\<lambda>_. Some (FBool True)), ql_field_from_slice = (\<lambda>_. None),
      ql_field_to_string = (\<lambda>_. Some ''true''), ql_json_from_str = (\<lambda>_. Some (JBool True)),
      ql_json_from_slice = (\<lambda>_. None), ql_json_to_string = (\<lambda>_. Some ''true''),
      ql_fields_from_str = (\<lambda>_. Some [(''tags'', FBool False)]), ql_fields_to_string = (\<lambda>_. Inr ''tags''),
      ql_f64_of_u64 = (\<lambda>v. v), ql_f64_to_string = (\<lambda>_. ''0''), ql_utf8_lossy = (\<lambda>_. '''')\<rparr>"


definition no_tables :: table_db where
  "no_tables = \<lparr>db_rows = (\<lambda>_. []), db_saved = (\<lambda>_. [])\<rparr>"

definition notes_at :: sqlite_logical where
  "notes_at = sqlite_logical_new ''m'' ''n'' ''notes.db'' ''notes''"

lemma notes_config: "sl_mappings notes_at = []" "lc_namespace notes_at = ''n''"
  by (simp_all add: notes_at_def sqlite_logical_new_def)

lemma note_entry:
  "entry_to_record note_codec \<lparr>e_key = tag_key, e_value = [2], e_clock = LamportClock 5 ''d''\<rparr> ''n'' = Inr (Some new_note)"
  by (simp add: entry_to_record_def parse_tag_key) (simp add: note_codec_def payload_of_def new_note_def old_note_def note_here_def)

lemma note_view: "view_snapshot note_codec ''n'' note_state = Inr [new_note]"
  by (simp add: view_snapshot_def state_snapshot_def bm_values_def note_stored note_entry)


lemma note_storable: "storable note_libs new_note"
  by (simp add: storable_def note_libs_def new_note_def old_note_def note_here_def)

definition note_row :: record_row where
  "note_row = \<lparr>rw_schema = ''s'', rw_entity = ''e'', rw_id = ''1'', rw_fields = ''tags'', rw_tombstone = 0,
     rw_updated_at = None, rw_counter = 5, rw_device = ''d''\<rparr>"

lemma note_applied:
  "\<exists>d. sqlite_apply_records note_libs table_calls note_codec notes_at note_state no_tables = (Inr (), d) \<and>
     db_rows d (quote_ident ''notes'') = [note_row]"
proof -
  have "record_row_of note_libs new_note = Inr note_row"
    by (simp add: record_row_of_def note_libs_def note_row_def new_note_def old_note_def note_here_def)
  then show ?thesis
    by (simp add: sqlite_apply_records_def notes_config note_view sqlite_ensure_def)
      (simp add: in_transaction_def table_calls_def table_insert_def no_tables_def notes_at_def sqlite_logical_new_def)
qed

lemma apply_rows_good: "apply_rows cd ns f (map Inr ws) = apply_each cd ns (map f ws)"
  unfolding apply_rows_def apply_each_def
proof (induction ws)
  case (Cons w ws)
  then show ?case by (intro ext) simp
qed (simp add: fun_eq_iff)

lemma note_taken:
  "\<exists>t. apply_each note_codec ''n'' [new_note\<lparr>r_field_clocks := []\<rparr>] (state_new [1] ''b'') = (Inr (), t)"
proof -
  let ?r = "new_note\<lparr>r_field_clocks := []\<rparr>"
  have "\<exists>b t. rs_apply note_codec ''n'' ?r (state_new [1] ''b'') = (Inr b, t)"
    by (simp add: rs_apply_def rs_get_def state_new_def record_to_entry_def note_codec_def split: prod.split)
  then show ?thesis by (auto simp: apply_each_def)
qed

lemma table_roundtrip_witness:
  "\<exists>d t d'. sqlite_apply_records note_libs table_calls note_codec notes_at note_state no_tables = (Inr (), d) \<and>
     sqlite_load_records note_libs table_calls note_codec notes_at (state_new [1] ''b'') d = (Inr (), t, d') \<and>
     apply_each note_codec ''n'' [new_note\<lparr>r_field_clocks := []\<rparr>] (state_new [1] ''b'') = (Inr (), t)"
proof -
  obtain d where d: "sqlite_apply_records note_libs table_calls note_codec notes_at note_state no_tables = (Inr (), d)"
      "db_rows d (quote_ident ''notes'') = [note_row]"
    using note_applied by blast
  have "stored_record note_libs note_row = new_note\<lparr>r_field_clocks := []\<rparr>"
    by (simp add: stored_record_def note_row_def note_libs_def new_note_def old_note_def note_here_def non_negative_def)
  moreover obtain t where t: "apply_each note_codec ''n'' [new_note\<lparr>r_field_clocks := []\<rparr>] (state_new [1] ''b'') = (Inr (), t)"
    using note_taken by blast
  ultimately have l: "sqlite_load_records note_libs table_calls note_codec notes_at (state_new [1] ''b'') d = (Inr (), t, d)"
    using d(2) apply_rows_good[of note_codec "''n''" "stored_record note_libs" "[note_row]"]
    by (simp add: sqlite_load_records_def notes_config sqlite_ensure_def on_db_def table_calls_def on_records_def
        notes_at_def sqlite_logical_new_def)
  from table_roundtrip[OF tables.record_table_axioms notes_config(1) _ _ d(1) l, unfolded notes_config, OF note_view]
  show ?thesis using note_storable d(1) l by auto
qed

definition notes_kept :: table_db where
  "notes_kept = no_tables\<lparr>db_rows := (\<lambda>_. [note_row])\<rparr>"

lemma failed_store_changes_nothing_witness:
  "\<exists>d. sqlite_apply_records (note_libs\<lparr>ql_fields_to_string := (\<lambda>_. Inl (Serde ''fields''))\<rparr>) table_calls note_codec notes_at
       note_state notes_kept = (Inl (Serde ''fields''), d) \<and>
     db_rows d (quote_ident ''notes'') = [note_row]"
proof -
  let ?q = "note_libs\<lparr>ql_fields_to_string := (\<lambda>_. Inl (Serde ''fields''))\<rparr>"
  have "record_row_of ?q new_note = Inl (Serde ''fields'')" by (simp add: record_row_of_def)
  then obtain d where d: "sqlite_apply_records ?q table_calls note_codec notes_at note_state notes_kept = (Inl (Serde ''fields''), d)"
    by (simp add: sqlite_apply_records_def notes_config note_view sqlite_ensure_def)
      (simp add: in_transaction_def table_calls_def)
  from failed_store_changes_nothing[OF tables.record_table_axioms notes_config(1) d, of "quote_ident ''notes''"]
  show ?thesis using d by (simp add: notes_kept_def)
qed




end
