(* ===== verification/Spec2Isabelle.thy ===== *)
theory Spec2Isabelle
  imports Props_Sync Props_Pairing Props_State Props_Records Props_Session Props_Open Props_Managed Props_Mesh
    Props_Adapter Props_Logical Props_Engine Props_Backup Props_Companion Props_Sqlite
begin

text \<open>
  LibreSync (crates/libresync): local-first synchronisation between the devices of one user.

  \<^bold>\<open>The program.\<close> A device keeps a key/value state with Lamport clocks (state.rs, entry.rs),
  logical records with field clocks on top of it (record.rs, logical.rs), and exchanges deltas
  with linked devices over TLS (sync.rs, protocol.rs, crypto.rs, device.rs). Devices are
  enrolled by an authenticated handshake over a shared secret (pairing.rs). The managed session
  (session/) puts durable transactions, adapters, receipts and enrollment together for an app;
  without a session, an app runs the engine (engine.rs) over the same state and exchange.

  \<^bold>\<open>Conventions.\<close> A Rust String is the list of its UTF-8 bytes (\<open>string\<close>), u8/u32/u64 are
  words, Duration is nanoseconds or seconds as a nat, BTreeMap is a key-sorted association list
  (\<open>bmap\<close>, Ordered_Map), Result is a sum with \<open>Inl\<close> the error. Code that mutates before it may
  fail has type \<open>'s \<Rightarrow> 'a result \<times> 's\<close> and runs through \<open>bindS\<close>. Random draws, clock readings,
  time-outs, socket and disk outcomes, and what other threads do between two critical sections
  are inputs: arguments, or lists in the world record of a run (\<open>pair_world\<close>, \<open>client_world\<close>,
  \<open>server_world\<close>, \<open>session_world\<close>). Third-party code is an argument: the AEAD cipher
  (\<open>aead\<close>), SPAKE2, SHA-256, HKDF, HMAC (\<open>pair_crypto\<close>, \<open>receipt_crypto\<close>), JSON
  (\<open>payload_codec\<close>, \<open>message_json\<close>, \<open>cg_record_key\<close>, \<open>cg_batch_size\<close>). Facts about it that a
  theorem needs are named hypotheses of documented behaviour: \<open>aead_sound\<close> (decryption inverts
  encryption), \<open>codec_keeps\<close>, \<open>json_line\<close>, \<open>key_inj\<close>, \<open>pake_agrees\<close>.

  \<^bold>\<open>Theories.\<close>
  \<^item> Prelude, Ordered_Map: saturating and checked integers, fallible code, sorted maps. The
    locale \<open>ordered_map\<close> states what the code relies on in a BTreeMap; \<open>bm\<close> interprets it.
  \<^item> Errors, Clock: error.rs; entry.rs and identity.rs. Lamport clocks are a \<open>linorder\<close>.
  \<^item> Field_Value, Records, Record_Key, Utf8: record.rs. Field values with the code's IEEE
    equality, keys with percent escapes, field clocks, the record view, compaction.
  \<^item> Sync_State, Lww: state.rs, its representation invariant \<open>state_ok\<close>, and the locale
    \<open>lww_store\<close> of last-writer-wins stores, interpreted by the state (\<open>lww\<close>) and by managed
    records (\<open>managed\<close>).
  \<^item> Merge, Merge_Laws: the merge of logical.rs, its specification \<open>view_merge\<close>, and the
    locale \<open>merge_semilattice\<close>, interpreted by the versions of a record (\<open>versions\<close>).
  \<^item> Crypto_Frame: crypto.rs. Wire: protocol.rs, byte streams and message channels.
  \<^item> Manifest, Pairing_Manager, Pair_Handshake: pairing.rs and device.rs. Pair_Safety shows
    what must be on the wire before a commit, Pair_Liveness that two honest runs complete.
  \<^item> Sync_Exchange, Listener: the client and the listener of sync.rs. Network: many devices
    whose steps are the critical sections of both sides, as an inductive relation, with the
    invariant \<open>net_ok\<close> by rule induction. Wire_Exchange: the programs perform those sections.
  \<^item> Data_Adapter, Router: adapter.rs, the adapter trait with its provided methods and the router of
    inbound entries. Files is the file system the adapters work on, with a fault possible at every
    call; Sqlite_Delta the page delta of a database, its codec and the reconstruction of the file;
    File_Adapters the JSON, watched and SQLite adapters, File_Laws what they load, store and do in
    a tick; Logical_Adapters the wrapper and the adapters of logical.rs. Adapter_Contract states
    as locales what the router relies on in an adapter (\<open>sound_adapter\<close>, interpreted by every
    adapter of the crate) and the exchange in an applier (\<open>sound_applier\<close>).
  \<^item> Sqlite_Logical: sqlite_logical.rs, records in tables of a SQLite database, with the conversions of
    columns. The statements are functions of the database (\<open>sql_calls\<close>); the locale \<open>record_table\<close>
    of Props_Sqlite states what transactions and the statements on one table promise, interpreted by
    tables in memory (\<open>tables\<close>).
  \<^item> Engine, Engine_Loops: engine.rs, one exchange with the events it emits, listening and linking,
    the loops that watch an adapter and refresh from the devices around. Engine_Notify is the event
    channel: its calls are programs of atomic actions on the queue, the flag and the wake pipe, and
    threads interleave (\<open>event_run\<close>). Engine_Background is the worker thread and its handle, whose
    critical sections interleave (\<open>bg_run\<close>). Engine_Laws has their lemmas and concrete schedules.
  \<^item> Backup, Backup_Laws: backup.rs, encrypted snapshots of an adapter's entries, restored, pruned and
    re-encrypted. The locale \<open>snapshot_storage\<close> is the contract of a snapshot store, interpreted by
    the store that keeps a JSON file per snapshot (\<open>filed_store\<close>).
  \<^item> Momentum, Companion, Companion_Backup: companion.rs. The merge of Momentum's records and the catalog;
    the manager of app spaces, with its registry on disk and a session per space; recovery copies,
    what is shown, legacy archives. The manager is defined over any sessions (\<open>space_calls\<close>);
    Companion_Live fills that with the managed session and interprets the contract \<open>space_runtime\<close>
    (\<open>live\<close>). Companion_Invariant and Companion_Run show the invariant \<open>manager_ok\<close> for
    every call and every run (\<open>companion_run\<close>), Companion_Copies what backups leave on disk,
    Momentum what merges do to a record; Companion_Demo is a concrete manager.
  \<^item> Address, Discovery: socket addresses with their order; discovery.rs, what a device publishes
    over mDNS and what it makes of what others publish.
  \<^item> Managed_Records, Session_Store, Session_Laws, Receipt: session/mod.rs (the envelope, mutate
    with its journal, local operations), adapter.rs, limits.rs, compact.rs, receipt.rs.
  \<^item> Session_Pairing, Session_Connect: session/pairing.rs, the session as the handler behind an
    enrollment, its invitations, connecting and recovering.
  \<^item> Session_Network, Session_Runtime, Session_Platform: session/network.rs, the exchange of
    batches, first batches held for review, receipts, start and stop, removal and pausing of
    peers, the reactions of the discovery thread, the rounds of the scheduler.
  \<^item> Session_Open: opening a session (session/mod.rs), session/store.rs and keys.rs.
  \<^item> Session_Laws and Pair_Contract state, as locales, what a mutation and what a handshake may
    do to an invariant of the app behind it (Prelude: \<open>stays\<close>). Session_Invariant defines the
    session's own, \<open>session_ok\<close>, and interprets the first with it (\<open>durable\<close>); Session_Run
    interprets the second (\<open>session_handler\<close>) and closes everything a session can do, on all its
    threads, into the inductive relation \<open>session_run\<close>.
  \<^item> Session_Merge and Session_Mesh: what committing a batch does to the records of an app of
    plain record adapters, and any number of sessions that write, exchange batches and review
    them, as an inductive relation whose steps are the operations on the envelopes, with the
    invariant \<open>mesh_ok\<close> by rule induction.
  \<^item> Demo and the Props theories: concrete data, and the properties with their witnesses.
    Props_Open follows a session through crashes and reopening, Props_Managed the exchange, Props_Mesh its convergence;
    Props_Adapter, Props_Logical and Props_Sqlite are about the adapters and the router, Props_Engine about the engine,
    Props_Backup about the backups, Props_Companion about the companion.

  \<^bold>\<open>Bounds and fuel.\<close> No definition uses fuel; the engine's loops run over the list of their passes,
  and \<open>work_left\<close> bounds the steps of a worker that was told to stop. Worlds are finite lists of coming outcomes; a
  list that has run out means the default outcome (no fault, no interference), except for
  clock readings and received messages, where it means an error. Network steps require that
  sequence numbers and counters are not saturated at \<open>u64::MAX\<close>. Rejection sampling of a
  pairing code (\<open>code_number\<close>) runs over the draws it is given and is None when all are
  rejected.

  \<^bold>\<open>Not modelled.\<close> Key generation, operating-system key stores and file locks, TLS records, thread
  joins and sockets appear as what they may answer. The engine's state file, the
  companion's choice of a key store and its QR code, discovery over an overlay network, the FFI and the command line are left out:
  I/O and glue over third-party code. A receive with a time-out is a receive or nothing.
\<close>

end
